(* ===== verification/Prelude.thy ===== *)
theory Prelude
  imports Main "HOL-Library.AList" "HOL-Library.Sublist" "HOL-Library.Char_ord"
    "HOL-Library.List_Lexorder" "HOL-Library.Product_Lexorder"
begin

text \<open>
  Shared vocabulary of the development: how Python values are written in HOL, and the
  generic lemmas that the component theories use.

  \<^item> An exception is \<open>Exn cls msg\<close>: the class name and \<open>str(e)\<close>. A call
    that may raise returns a value of \<open>exn + 'a\<close>, \<open>Inl\<close> for the exception.
  \<^item> A \<open>dict\<close> whose iteration order or update order can be seen is an association list
    under \<open>AList.update\<close>, which replaces an existing key in place and appends a new
    one, as Python does.
  \<^item> Keyed de-duplication (\<open>seen\<close> set plus output list) occurs in the retriever, in the
    chunker and in the planner; it is the interface \<open>keyed_dedup\<close>.
  \<^item> Decimal rendering of integers (\<open>str(n)\<close>) is defined here because keys and error
    messages of the program contain it.
\<close>

named_theorems py_defs \<open>definitions that model the primitives of the program\<close>

subsection \<open>Exceptions and results\<close>

datatype exn = Exn (exn_class: string) (exn_msg: string)

fun is_ok :: "'e + 'a \<Rightarrow> bool" where
  "is_ok (Inl _) = False"
| "is_ok (Inr _) = True"

lemma is_ok_iff: "is_ok r \<longleftrightarrow> (\<exists>x. r = Inr x)"
  by (cases r) auto

text \<open>Sequencing: the first exception wins, as in straight-line code that may raise.\<close>

fun try_then :: "'e + 'a \<Rightarrow> ('a \<Rightarrow> 'e + 'b) \<Rightarrow> 'e + 'b" where
  "try_then (Inl e) k = Inl e"
| "try_then (Inr x) k = k x"

lemma try_then_Inr: "try_then r k = Inr y \<longleftrightarrow> (\<exists>x. r = Inr x \<and> k x = Inr y)"
  by (cases r) auto

lemma try_then_Inl: "try_then r k = Inl e \<longleftrightarrow> r = Inl e \<or> (\<exists>x. r = Inr x \<and> k x = Inl e)"
  by (cases r) auto

lemma is_ok_try_then: "is_ok (try_then r k) \<longleftrightarrow> (\<exists>x. r = Inr x \<and> is_ok (k x))"
  by (cases r) auto

fun try_map :: "('a \<Rightarrow> 'e + 'b) \<Rightarrow> 'a list \<Rightarrow> 'e + 'b list" where
  "try_map f [] = Inr []"
| "try_map f (x # xs) = try_then (f x) (\<lambda>y. try_then (try_map f xs) (\<lambda>ys. Inr (y # ys)))"

lemma try_map_Inr: "try_map f xs = Inr ys \<longleftrightarrow> list_all2 (\<lambda>x y. f x = Inr y) xs ys"
  by (induction xs arbitrary: ys) (auto simp: try_then_Inr list_all2_Cons1)

lemma try_map_mem:
  assumes "try_map f xs = Inr ys" "y \<in> set ys"
  shows "\<exists>x \<in> set xs. f x = Inr y"
  using assms by (induction xs arbitrary: ys) (auto simp: try_then_Inr)

subsection \<open>Decimal rendering of integers\<close>

fun digit_char :: "nat \<Rightarrow> char" where
  "digit_char d = char_of (48 + d)"

fun str_nat :: "nat \<Rightarrow> string" where
  "str_nat n = (if n < 10 then [digit_char n] else str_nat (n div 10) @ [digit_char (n mod 10)])"

declare str_nat.simps [simp del]

definition str_int :: "int \<Rightarrow> string" where
  "str_int i = (if i < 0 then CHR ''-'' # str_nat (nat (- i)) else str_nat (nat i))"

fun is_digit :: "char \<Rightarrow> bool" where
  "is_digit c = (48 \<le> (of_char c :: nat) \<and> (of_char c :: nat) \<le> 57)"

lemma of_char_digit: "d < 10 \<Longrightarrow> (of_char (digit_char d) :: nat) = 48 + d"
  by simp

lemma is_digit_digit_char: "d < 10 \<Longrightarrow> is_digit (digit_char d)"
  by simp

lemma str_nat_digits: "\<forall>c \<in> set (str_nat n). is_digit c"
proof (induction n rule: str_nat.induct)
  case (1 n)
  then show ?case
    by (subst str_nat.simps)
      (auto simp: is_digit_digit_char simp del: is_digit.simps digit_char.simps)
qed

lemma str_nat_nonempty: "str_nat n \<noteq> []"
  by (subst str_nat.simps) simp

lemma digit_char_inj: "d < 10 \<Longrightarrow> e < 10 \<Longrightarrow> digit_char d = digit_char e \<Longrightarrow> d = e"
  by (metis add_left_cancel of_char_digit)

lemma str_nat_inj: "str_nat m = str_nat n \<Longrightarrow> m = n"
proof (induction m arbitrary: n rule: less_induct)
  case (less m)
  show ?case
  proof (cases "m < 10"; cases "n < 10")
    assume "m < 10" "n < 10"
    with less.prems show ?thesis
      by (simp add: str_nat.simps [of m] str_nat.simps [of n] del: digit_char.simps)
        (blast dest: digit_char_inj)
  next
    assume "m < 10" "\<not> n < 10"
    with less.prems str_nat_nonempty [of "n div 10"] show ?thesis
      by (simp add: str_nat.simps [of m] str_nat.simps [of n] Cons_eq_append_conv
          del: digit_char.simps)
  next
    assume "\<not> m < 10" "n < 10"
    with less.prems str_nat_nonempty [of "m div 10"] show ?thesis
      by (simp add: str_nat.simps [of m] str_nat.simps [of n] append_eq_Cons_conv
          del: digit_char.simps)
  next
    assume m: "\<not> m < 10" and n: "\<not> n < 10"
    with less.prems have "str_nat (m div 10) = str_nat (n div 10)"
      and d: "digit_char (m mod 10) = digit_char (n mod 10)"
      by (simp_all add: str_nat.simps [of m] str_nat.simps [of n] del: digit_char.simps)
    with less.IH [of "m div 10" "n div 10"] m have "m div 10 = n div 10" by simp
    moreover from d have "m mod 10 = n mod 10"
      by (rule digit_char_inj [rotated 2]) simp_all
    ultimately show ?thesis by (metis div_mult_mod_eq)
  qed
qed

lemma str_int_chars: "\<forall>c \<in> set (str_int i). is_digit c \<or> c = CHR ''-''"
  using str_nat_digits by (auto simp: str_int_def simp del: is_digit.simps)

lemma str_int_inj: "str_int i = str_int j \<Longrightarrow> i = j"
proof -
  assume eq: "str_int i = str_int j"
  have no_minus: "str_nat n \<noteq> CHR ''-'' # cs" for n cs
  proof
    assume "str_nat n = CHR ''-'' # cs"
    with str_nat_digits [of n] have "is_digit (CHR ''-'')" by simp
    then show False by simp
  qed
  show ?thesis
  proof (cases "i < 0"; cases "j < 0")
    assume "i < 0" "j < 0"
    with eq have "nat (- i) = nat (- j)" by (auto simp: str_int_def dest: str_nat_inj)
    with \<open>i < 0\<close> \<open>j < 0\<close> show ?thesis by simp
  next
    assume "\<not> i < 0" "\<not> j < 0"
    with eq have "nat i = nat j" by (auto simp: str_int_def dest: str_nat_inj)
    with \<open>\<not> i < 0\<close> \<open>\<not> j < 0\<close> show ?thesis by simp
  next
    assume "i < 0" "\<not> j < 0"
    with eq no_minus show ?thesis by (metis str_int_def)
  next
    assume "\<not> i < 0" "j < 0"
    with eq no_minus show ?thesis by (metis str_int_def)
  qed
qed

subsection \<open>Quoted strings\<close>

text \<open>\<open>repr\<close> of a string without quotes, backslashes or control characters, and of a list of them.\<close>

definition quoted :: "string \<Rightarrow> string" where
  "quoted s = CHR 0x27 # s @ [CHR 0x27]"

fun join :: "string \<Rightarrow> string list \<Rightarrow> string" where
  "join sep [] = []"
| "join sep [x] = x"
| "join sep (x # y # xs) = x @ sep @ join sep (y # xs)"

definition repr_list :: "string list \<Rightarrow> string" where
  "repr_list xs = ''['' @ join '', '' (map quoted xs) @ '']''"

subsection \<open>White space\<close>

text \<open>\<open>str.isspace\<close> on characters below code point 256, and \<open>str.strip()\<close>.\<close>

definition py_space :: "char \<Rightarrow> bool" where
  "py_space c \<longleftrightarrow> (of_char c :: nat) \<in> {9, 10, 11, 12, 13, 28, 29, 30, 31, 32, 133, 160}"

definition strip :: "string \<Rightarrow> string" where
  "strip s = rev (dropWhile py_space (rev (dropWhile py_space s)))"

lemma strip_empty_iff: "strip s = [] \<longleftrightarrow> (\<forall>c \<in> set s. py_space c)"
proof -
  have "strip s = [] \<longleftrightarrow> (\<forall>c \<in> set (dropWhile py_space s). py_space c)"
    by (simp only: strip_def rev_is_Nil_conv dropWhile_eq_Nil_conv set_rev)
  also have "\<dots> \<longleftrightarrow> dropWhile py_space s = []"
    by (metis empty_iff hd_dropWhile hd_in_set list.set(1))
  finally show ?thesis by (simp add: dropWhile_eq_Nil_conv)
qed

lemma set_dropWhile_subset: "set (dropWhile P xs) \<subseteq> set xs"
  by (auto dest: set_dropWhileD)

lemma length_strip: "length (strip s) \<le> length s"
  unfolding strip_def by (metis length_dropWhile_le length_rev order_trans)

subsection \<open>Texts of the environment\<close>

text \<open>\<open>str.lower()\<close> on characters below code point 256, and \<open>s.strip().lower()\<close>.\<close>

definition lower_char :: "char \<Rightarrow> char" where
  "lower_char c = (let n = (of_char c :: nat) in
     if (65 \<le> n \<and> n \<le> 90) \<or> (192 \<le> n \<and> n \<le> 222 \<and> n \<noteq> 215) then char_of (n + 32) else c)"

definition normal :: "string \<Rightarrow> string" where
  "normal s = map lower_char (strip s)"

text \<open>\<open>int(s)\<close> on a stripped string: a sign, then digits with single underscores between them.\<close>

fun parse_digits :: "int \<Rightarrow> bool \<Rightarrow> string \<Rightarrow> int option" where
  "parse_digits acc after_digit [] = (if after_digit then Some acc else None)"
| "parse_digits acc after_digit (c # cs) =
     (if is_digit c then parse_digits (acc * 10 + (of_char c - 48)) True cs
      else if c = CHR ''_'' \<and> after_digit then parse_digits acc False cs
      else None)"

definition parse_int :: "string \<Rightarrow> int option" where
  "parse_int s = (case s of
      [] \<Rightarrow> None
    | c # cs \<Rightarrow> if c = CHR ''-'' then map_option uminus (parse_digits 0 False cs)
                else if c = CHR ''+'' then parse_digits 0 False cs
                else parse_digits 0 False s)"

fun split_commas :: "string \<Rightarrow> string \<Rightarrow> string list" where
  "split_commas cur [] = [cur]"
| "split_commas cur (c # cs) = (if c = CHR '','' then cur # split_commas [] cs else split_commas (cur @ [c]) cs)"

subsection \<open>Subsequences\<close>

lemma subseq_set_subset: "subseq xs ys \<Longrightarrow> set xs \<subseteq> set ys"
  by (auto elim: list_emb_set)

lemma sorted_subseq: "subseq xs ys \<Longrightarrow> sorted ys \<Longrightarrow> sorted xs"
  by (induction rule: list_emb.induct) (auto dest: subseq_set_subset)

lemma distinct_subseq: "subseq xs ys \<Longrightarrow> distinct ys \<Longrightarrow> distinct xs"
  by (induction rule: list_emb.induct) (auto dest: subseq_set_subset)

subsection \<open>Keyed de-duplication\<close>

text \<open>
  The contract of a de-duplication pass: the output is a subsequence of the input (order
  kept, nothing invented), no key occurs twice, and no key is lost.
\<close>

locale keyed_dedup =
  fixes key :: "'a \<Rightarrow> 'k" and dedup :: "'a list \<Rightarrow> 'a list"
  assumes dedup_subseq: "subseq (dedup xs) xs"
    and dedup_distinct: "distinct (map key (dedup xs))"
    and dedup_keys: "key ` set (dedup xs) = key ` set xs"
begin

lemma dedup_set: "set (dedup xs) \<subseteq> set xs"
  using dedup_subseq [of xs] by (auto elim: list_emb_set)

lemma dedup_length: "length (dedup xs) \<le> length xs"
  using dedup_subseq by (rule list_emb_length)

lemma dedup_id:
  assumes "distinct (map key xs)"
  shows "dedup xs = xs"
proof -
  have "length (map key (dedup xs)) = card (set (map key (dedup xs)))"
    by (metis dedup_distinct distinct_card)
  also have "\<dots> = card (set (map key xs))"
    using dedup_keys [of xs] by simp
  also have "\<dots> = length xs"
    using assms by (metis distinct_card length_map)
  finally show ?thesis
    using dedup_subseq [of xs] by (metis length_map subseq_same_length)
qed

lemma dedup_idem: "dedup (dedup xs) = dedup xs"
  by (rule dedup_id) (rule dedup_distinct)

lemma dedup_mem: "x \<in> set xs \<Longrightarrow> \<exists>y \<in> set (dedup xs). key y = key x"
  using dedup_keys [of xs] by (metis imageE image_eqI)

end

text \<open>
  The loop the program writes for it: a \<open>seen\<close> collection of keys and an output list.
  The components that use it interpret \<open>keyed_dedup\<close> on their own loops through the
  lemmas below.
\<close>

fun dedup_seen :: "('a \<Rightarrow> 'k) \<Rightarrow> 'k list \<Rightarrow> 'a list \<Rightarrow> 'a list" where
  "dedup_seen key seen [] = []"
| "dedup_seen key seen (x # xs) =
     (if key x \<in> set seen then dedup_seen key seen xs
      else x # dedup_seen key (key x # seen) xs)"

lemma dedup_seen_subseq: "subseq (dedup_seen key seen xs) xs"
  by (induction xs arbitrary: seen) auto

lemma dedup_seen_distinct:
  "distinct (map key (dedup_seen key seen xs)) \<and>
   key ` set (dedup_seen key seen xs) \<inter> set seen = {}"
proof (induction xs arbitrary: seen)
  case Nil
  show ?case by simp
next
  case (Cons x xs)
  show ?case using Cons.IH [of seen] Cons.IH [of "key x # seen"] by auto
qed

lemma dedup_seen_keys: "key ` set (dedup_seen key seen xs) = key ` set xs - set seen"
  by (induction xs arbitrary: seen) auto

interpretation dedup_loop: keyed_dedup key "dedup_seen key []" for key :: "'a \<Rightarrow> 'k"
  by unfold_locales (simp_all add: dedup_seen_subseq dedup_seen_distinct dedup_seen_keys)

subsection \<open>Insertion-ordered dictionaries\<close>

lemma alist_update_keys_subset: "set (map fst (AList.update k v al)) = insert k (set (map fst al))"
  by (induction al) auto

lemma alist_update_mem:
  "p \<in> set (AList.update k v al) \<Longrightarrow> p = (k, v) \<or> p \<in> set al"
  by (induction al) (auto split: if_splits)

subsection \<open>Nested wrappers\<close>

text \<open>
  A wrapper takes a state transformer and gives another. When each wrapper multiplies
  what its argument may add to a measure by a factor of its own, a nest of wrappers
  multiplies it by the product of the factors. \<open>adds_at_most\<close> is relative to an
  invariant of the state that every transformer keeps.
\<close>

definition adds_at_most :: "('s \<Rightarrow> bool) \<Rightarrow> ('s \<Rightarrow> nat) \<Rightarrow> nat \<Rightarrow> ('s \<Rightarrow> 'r \<times> 's) \<Rightarrow> bool" where
  "adds_at_most I c m f \<longleftrightarrow> (\<forall>s. I s \<longrightarrow> I (snd (f s)) \<and> c (snd (f s)) \<le> c s + m)"

lemma adds_at_mostD:
  "adds_at_most I c m f \<Longrightarrow> I s \<Longrightarrow> f s = (r, s') \<Longrightarrow> I s' \<and> c s' \<le> c s + m"
  by (metis adds_at_most_def snd_conv)

locale call_amplifier =
  fixes I :: "'s \<Rightarrow> bool" and c :: "'s \<Rightarrow> nat"
    and wrap :: "'p \<Rightarrow> ('s \<Rightarrow> 'r \<times> 's) \<Rightarrow> ('s \<Rightarrow> 'r \<times> 's)"
    and factor :: "'p \<Rightarrow> nat" and admissible :: "'p \<Rightarrow> bool"
  assumes wrap_bound:
    "admissible p \<Longrightarrow> adds_at_most I c m inner \<Longrightarrow> adds_at_most I c (factor p * m) (wrap p inner)"
begin

lemma nested_bound:
  "\<forall>p \<in> set ps. admissible p \<Longrightarrow> adds_at_most I c m f \<Longrightarrow>
   adds_at_most I c (prod_list (map factor ps) * m) (foldr wrap ps f)"
proof (induction ps)
  case Nil
  then show ?case by simp
next
  case (Cons p ps)
  then show ?case
    using wrap_bound [of p "prod_list (map factor ps) * m" "foldr wrap ps f"] by (simp add: mult.assoc)
qed

end

end
