(* ===== verification/Reliability_Base.thy ===== *)
theory Reliability_Base
  imports Prelude Complex_Main
begin

text \<open>
  Data model of \<^verbatim>\<open>agent/reliability\<close>: the enums of
  \<^verbatim>\<open>reliability_enums.py\<close>, the policies of \<^verbatim>\<open>reliability_models.py\<close>,
  the result of \<^verbatim>\<open>reliability_result.py\<close>, and the state the six mechanism
  objects share.

  A wrapped callable is a state transformer over \<open>'w rstate\<close>: it raises
  (\<open>Inl\<close>) or returns (\<open>Inr\<close>; the value returned is dropped by every mechanism).
  \<open>'w\<close> is whatever the callable works on. \<open>clock\<close> is \<open>time.time()\<close> in
  seconds, an exact rational in place of a float; it moves in callables and in
  \<open>time.sleep\<close>, and two reads with neither in between give the same instant.
  The six mechanism objects that \<open>ReliabilityEngine\<close> keeps in
  \<open>_mechanism_instances\<close> are the six sub-records of the state.
\<close>

subsection \<open>Enums\<close>

datatype ReliabilityType = RETRY | TIMEOUT | CIRCUIT_BREAKER | FALLBACK | HEALTH_CHECK | RATE_LIMITER

datatype CircuitState = OPEN | HALF_OPEN | CLOSED

fun reliability_value :: "ReliabilityType \<Rightarrow> string" where
  "reliability_value RETRY = ''retry''"
| "reliability_value TIMEOUT = ''timeout''"
| "reliability_value CIRCUIT_BREAKER = ''circuit_breaker''"
| "reliability_value FALLBACK = ''fallback''"
| "reliability_value HEALTH_CHECK = ''health_check''"
| "reliability_value RATE_LIMITER = ''rate_limiter''"

fun circuit_value :: "CircuitState \<Rightarrow> string" where
  "circuit_value OPEN = ''open''"
| "circuit_value HALF_OPEN = ''half_open''"
| "circuit_value CLOSED = ''closed''"

subsection \<open>Results\<close>

datatype meta = MInt int | MNum rat | MStr string | MBool bool

record rresult =
  success :: bool
  policy_of :: "ReliabilityType option"
  retry_count :: int
  latency_ms :: rat
  rerror :: "string option"
  timeout_occurred :: bool
  circuit_state :: "string option"
  metadata :: "(string \<times> meta) list"

definition default_result :: "ReliabilityType \<Rightarrow> bool \<Rightarrow> rresult" where
  "default_result t ok =
     \<lparr>success = ok, policy_of = Some t, retry_count = 0, latency_ms = 0, rerror = None,
      timeout_occurred = False, circuit_state = None, metadata = []\<rparr>"

subsection \<open>State of the mechanism objects\<close>

record cb_state =
  cb_circuit :: CircuitState
  cb_failure_count :: int
  cb_last_failure_time :: "rat option"
  cb_last_success_time :: "rat option"
  cb_total_rejections :: int
  cb_total_successes :: int
  cb_total_failures :: int

record rl_state =
  rl_timestamps :: "rat list"
  rl_total_requests :: int
  rl_blocked_requests :: int

record retry_state =
  rt_last_attempts :: int
  rt_last_error :: "string option"

text \<open>
  \<open>to_pool_free_at\<close> is the instant from which the module-level
  \<open>ThreadPoolExecutor(max_workers=1)\<close> of the timeout mechanism is idle again.
\<close>

record timeout_state =
  to_timeout_count :: int
  to_total_timeout_ms :: rat
  to_pool_free_at :: rat

record fallback_state =
  fb_total_fallbacks :: int
  fb_fallback_successes :: int
  fb_fallback_failures :: int

text \<open>What a health check function gives back: a \<open>bool\<close>, or an awaitable of one.\<close>

datatype check_ret = CBool bool | CAwaitable bool

type_synonym 'w check_fn = "'w \<Rightarrow> (exn + check_ret) \<times> 'w"
type_synonym 'w fallback_fn = "'w \<Rightarrow> (exn + unit) \<times> 'w"

record 'w hc_state =
  hc_is_healthy :: bool
  hc_last_check_time :: rat
  hc_check_count :: int
  hc_failed_check_count :: int
  hc_default_check_fn :: "'w check_fn option"

record 'w rstate =
  clock :: rat
  world :: 'w
  cb :: cb_state
  rl :: rl_state
  rt :: retry_state
  tmo :: timeout_state
  fb :: fallback_state
  hc :: "'w hc_state"
  results :: "(string \<times> rresult) list"

type_synonym 'w call = "'w rstate \<Rightarrow> (exn + unit) \<times> 'w rstate"

subsection \<open>Constructors and resets\<close>

definition cb_init :: cb_state where
  "cb_init = \<lparr>cb_circuit = CLOSED, cb_failure_count = 0, cb_last_failure_time = None,
     cb_last_success_time = None, cb_total_rejections = 0, cb_total_successes = 0,
     cb_total_failures = 0\<rparr>"

definition rl_init :: rl_state where
  "rl_init = \<lparr>rl_timestamps = [], rl_total_requests = 0, rl_blocked_requests = 0\<rparr>"

definition rt_init :: retry_state where
  "rt_init = \<lparr>rt_last_attempts = 0, rt_last_error = None\<rparr>"

definition to_init :: timeout_state where
  "to_init = \<lparr>to_timeout_count = 0, to_total_timeout_ms = 0, to_pool_free_at = 0\<rparr>"

definition fb_init :: fallback_state where
  "fb_init = \<lparr>fb_total_fallbacks = 0, fb_fallback_successes = 0, fb_fallback_failures = 0\<rparr>"

definition hc_init :: "'w hc_state" where
  "hc_init = \<lparr>hc_is_healthy = True, hc_last_check_time = 0, hc_check_count = 0,
     hc_failed_check_count = 0, hc_default_check_fn = None\<rparr>"

definition rstate_init :: "rat \<Rightarrow> 'w \<Rightarrow> 'w rstate" where
  "rstate_init now w = \<lparr>clock = now, world = w, cb = cb_init, rl = rl_init, rt = rt_init,
     tmo = to_init, fb = fb_init, hc = hc_init, results = []\<rparr>"

lemmas init_defs = cb_init_def rl_init_def rt_init_def to_init_def fb_init_def hc_init_def
  rstate_init_def

text \<open>\<open>time.sleep\<close> refuses a negative length.\<close>

definition time_sleep :: "rat \<Rightarrow> 'w call" where
  "time_sleep d s =
     (if d < 0 then (Inl (Exn ''ValueError'' ''sleep length must be non-negative''), s)
      else (Inr (), s\<lparr>clock := clock s + d\<rparr>))"

lemma time_sleep_world [simp]: "world (snd (time_sleep d s)) = world s"
  by (simp add: time_sleep_def)

subsection \<open>Policies\<close>

text \<open>
  The dataclasses below \<open>ReliabilityPolicy\<close>; the first field is \<open>enabled\<close>. The
  mechanisms test the class with \<open>isinstance\<close> and use built-in defaults for
  \<open>BasePolicy\<close> and for the policy of another mechanism. \<open>metadata\<close>,
  \<open>retry_exceptions\<close>, \<open>retry_conditions\<close> and \<open>timeout_behavior\<close> are read by no
  mechanism and are left out.
\<close>

datatype 'w policy =
    BasePolicy bool
  | RetryPolicy bool (max_retries: int) (backoff_ms: int)
  | TimeoutPolicy bool (timeout_ms: int)
  | CircuitBreakerPolicy bool (failure_threshold: int) (recovery_timeout_ms: int)
      (half_open_max_calls: int) CircuitState
  | FallbackPolicy bool (fallback_value: "string option") (fallback_function: "'w fallback_fn option")
  | HealthCheckPolicy bool (interval_ms: int) (check_function: "'w check_fn option")
  | RateLimiterPolicy bool (max_requests: int) (window_ms: int)

fun enabled :: "'w policy \<Rightarrow> bool" where
  "enabled (BasePolicy e) = e"
| "enabled (RetryPolicy e _ _) = e"
| "enabled (TimeoutPolicy e _) = e"
| "enabled (CircuitBreakerPolicy e _ _ _ _) = e"
| "enabled (FallbackPolicy e _ _) = e"
| "enabled (HealthCheckPolicy e _ _) = e"
| "enabled (RateLimiterPolicy e _ _) = e"

end
