(* ===== verification/Circuit_Breaker.thy ===== *)
theory Circuit_Breaker
  imports Reliability_Base
begin

text \<open>
  \<^verbatim>\<open>agent/reliability/mechanisms/circuit_breaker_reliability.py\<close>: the three-state
  breaker. \<open>cb_apply\<close> is \<open>CircuitBreakerReliability.apply\<close>, with its helpers
  \<open>_check_recovery\<close>, \<open>_on_success\<close> and \<open>_on_failure\<close>. The lemmas give the
  transition table of the header comment, what a rejected call leaves untouched, and an
  invariant of every reachable breaker.
\<close>

subsection \<open>Operations\<close>

definition cb_thresholds :: "'w policy \<Rightarrow> int \<times> int" where
  "cb_thresholds pol = (case pol of
      CircuitBreakerPolicy _ ft rec _ _ \<Rightarrow> (ft, rec)
    | _ \<Rightarrow> (5, 30000))"

definition check_recovery :: "int \<Rightarrow> 'w rstate \<Rightarrow> 'w rstate" where
  "check_recovery recovery s =
     (if cb_circuit (cb s) \<noteq> OPEN then s
      else case cb_last_failure_time (cb s) of
        None \<Rightarrow> s
      | Some t \<Rightarrow>
          if (clock s - t) * 1000 \<ge> of_int recovery
          then s\<lparr>cb := (cb s)\<lparr>cb_circuit := HALF_OPEN\<rparr>\<rparr> else s)"

definition on_success :: "'w rstate \<Rightarrow> 'w rstate" where
  "on_success s = s\<lparr>cb := (cb s)\<lparr>cb_circuit := CLOSED, cb_failure_count := 0,
     cb_total_successes := cb_total_successes (cb s) + 1,
     cb_last_success_time := Some (clock s)\<rparr>\<rparr>"

definition on_failure :: "int \<Rightarrow> 'w rstate \<Rightarrow> 'w rstate" where
  "on_failure threshold s =
     (let c = (cb s)\<lparr>cb_failure_count := cb_failure_count (cb s) + 1,
                cb_total_failures := cb_total_failures (cb s) + 1,
                cb_last_failure_time := Some (clock s)\<rparr>
      in if cb_circuit c = HALF_OPEN then s\<lparr>cb := c\<lparr>cb_circuit := OPEN\<rparr>\<rparr>
         else if cb_failure_count c \<ge> threshold then s\<lparr>cb := c\<lparr>cb_circuit := OPEN\<rparr>\<rparr>
         else s\<lparr>cb := c\<rparr>)"

definition cb_result :: "bool \<Rightarrow> int \<Rightarrow> cb_state \<Rightarrow> rresult" where
  "cb_result ok threshold c =
     (default_result CIRCUIT_BREAKER ok)\<lparr>circuit_state := Some (circuit_value (cb_circuit c)),
        metadata := [(''failure_count'', MInt (cb_failure_count c)),
                     (''failure_threshold'', MInt threshold),
                     (''state'', MStr (circuit_value (cb_circuit c)))]\<rparr>"

definition cb_apply :: "'w call option \<Rightarrow> 'w policy \<Rightarrow> 'w rstate \<Rightarrow> (exn + rresult) \<times> 'w rstate" where
  "cb_apply callable pol s = (case callable of
      None \<Rightarrow> (Inr ((default_result CIRCUIT_BREAKER True)
                 \<lparr>circuit_state := Some (circuit_value (cb_circuit (cb s)))\<rparr>), s)
    | Some fn \<Rightarrow>
        (let (threshold, recovery) = cb_thresholds pol;
             s1 = check_recovery recovery s
         in if cb_circuit (cb s1) = OPEN then
              let s2 = s1\<lparr>cb := (cb s1)\<lparr>cb_total_rejections := cb_total_rejections (cb s1) + 1\<rparr>\<rparr>
              in (Inr ((cb_result False threshold (cb s2))
                    \<lparr>rerror := Some ''Circuit is OPEN - call rejected''\<rparr>), s2)
            else (case fn s1 of
                (Inr _, s2) \<Rightarrow>
                  let s3 = on_success s2
                  in (Inr ((cb_result True threshold (cb s3))
                        \<lparr>latency_ms := (clock s2 - clock s1) * 1000\<rparr>), s3)
              | (Inl e, s2) \<Rightarrow>
                  let s3 = on_failure threshold s2
                  in (Inr ((cb_result False threshold (cb s3))
                        \<lparr>latency_ms := (clock s2 - clock s1) * 1000, rerror := Some (exn_msg e)\<rparr>), s3))))"

definition cb_reset :: "'w rstate \<Rightarrow> 'w rstate" where
  "cb_reset s = s\<lparr>cb := cb_init\<rparr>"

lemmas cb_defs = cb_thresholds_def check_recovery_def on_success_def on_failure_def cb_result_def
  default_result_def cb_apply_def Let_def

subsection \<open>What a call does, branch by branch\<close>

lemma cb_apply_never_raises: "\<exists>r. fst (cb_apply c pol s) = Inr r"
  by (auto simp: cb_defs split: option.splits prod.splits sum.splits)

lemma cb_rejects:
  assumes "cb_circuit (cb s) = OPEN" "cb_thresholds pol = (ft, rec)"
    and "cb_last_failure_time (cb s) = None \<or>
         (\<exists>t. cb_last_failure_time (cb s) = Some t \<and> (clock s - t) * 1000 < of_int rec)"
  shows "cb_apply (Some fn) pol s =
    (Inr ((cb_result False ft (cb s))\<lparr>rerror := Some ''Circuit is OPEN - call rejected''\<rparr>),
     s\<lparr>cb := (cb s)\<lparr>cb_total_rejections := cb_total_rejections (cb s) + 1\<rparr>\<rparr>)"
  using assms by (auto simp: cb_apply_def check_recovery_def cb_result_def)

lemma cb_admits_iff:
  "cb_circuit (cb (check_recovery rec s)) \<noteq> OPEN \<longleftrightarrow>
   cb_circuit (cb s) \<noteq> OPEN \<or>
   (\<exists>t. cb_last_failure_time (cb s) = Some t \<and> (clock s - t) * 1000 \<ge> of_int rec)"
  by (auto simp: check_recovery_def split: option.splits)

lemma check_recovery_frame [simp]:
  "world (check_recovery rec s) = world s" "clock (check_recovery rec s) = clock s"
  by (auto simp: check_recovery_def split: option.splits)

lemma cb_bookkeeping_frame [simp]:
  "world (on_success s) = world s" "world (on_failure ft s) = world s"
  "clock (on_success s) = clock s" "clock (on_failure ft s) = clock s"
  by (simp_all add: on_success_def on_failure_def Let_def)

lemma cb_apply_world_cases:
  "world (snd (cb_apply (Some fn) pol s)) = world s \<or>
   world (snd (cb_apply (Some fn) pol s)) = world (snd (fn (check_recovery (snd (cb_thresholds pol)) s)))"
  by (auto simp: cb_apply_def Let_def split: prod.splits sum.splits)

subsection \<open>Reachable breakers\<close>

text \<open>
  A run of one breaker under one policy: a call whose callable leaves the breaker object
  alone (it may move the clock forward and change the world), time passing between
  calls, and \<open>reset\<close>.
\<close>

definition cb_respects :: "'w call \<Rightarrow> bool" where
  "cb_respects fn \<longleftrightarrow> (\<forall>s. cb (snd (fn s)) = cb s \<and> clock s \<le> clock (snd (fn s)))"

inductive cb_step :: "'w policy \<Rightarrow> 'w rstate \<Rightarrow> 'w rstate \<Rightarrow> bool" for pol where
  call: "cb_respects fn \<Longrightarrow> cb_step pol s (snd (cb_apply (Some fn) pol s))"
| wait: "0 \<le> d \<Longrightarrow> cb_step pol s (s\<lparr>clock := clock s + d\<rparr>)"
| reset: "cb_step pol s (cb_reset s)"

inductive cb_reachable :: "'w policy \<Rightarrow> 'w rstate \<Rightarrow> bool" for pol where
  start: "cb s = cb_init \<Longrightarrow> cb_reachable pol s"
| step: "cb_reachable pol s \<Longrightarrow> cb_step pol s t \<Longrightarrow> cb_reachable pol t"

definition cb_inv :: "int \<Rightarrow> cb_state \<Rightarrow> rat \<Rightarrow> bool" where
  "cb_inv threshold c now \<longleftrightarrow>
     0 \<le> cb_failure_count c \<and> cb_failure_count c \<le> cb_total_failures c \<and>
     0 \<le> cb_total_rejections c \<and> 0 \<le> cb_total_successes c \<and>
     (cb_circuit c = CLOSED \<longrightarrow> cb_failure_count c < max 1 threshold) \<and>
     (cb_circuit c \<noteq> CLOSED \<longrightarrow> cb_failure_count c \<ge> max 1 threshold) \<and>
     (0 < cb_failure_count c \<longrightarrow> (\<exists>t. cb_last_failure_time c = Some t \<and> t \<le> now))"

lemma cb_inv_init: "cb_inv ft cb_init now"
  by (simp add: cb_inv_def cb_init_def)

lemma cb_inv_mono: "cb_inv ft c now \<Longrightarrow> now \<le> later \<Longrightarrow> cb_inv ft c later"
  by (auto simp: cb_inv_def)

lemma check_recovery_inv:
  "cb_inv ft (cb s) now \<Longrightarrow> cb_inv ft (cb (check_recovery rec s)) now"
  by (auto simp: cb_inv_def check_recovery_def split: option.splits)

lemma on_success_inv:
  "cb_inv ft (cb s) now \<Longrightarrow> cb_inv ft (cb (on_success s)) now"
  by (auto simp: cb_inv_def on_success_def)

lemma on_failure_inv:
  "cb_inv ft (cb s) (clock s) \<Longrightarrow> cb_circuit (cb s) \<noteq> OPEN \<Longrightarrow>
   cb_inv ft (cb (on_failure ft s)) (clock s)"
  by (cases "cb_circuit (cb s)") (auto simp: cb_inv_def on_failure_def Let_def)

lemma cb_apply_inv:
  assumes inv: "cb_inv (fst (cb_thresholds pol)) (cb s) (clock s)" and fn: "cb_respects fn"
  shows "cb_inv (fst (cb_thresholds pol)) (cb (snd (cb_apply (Some fn) pol s)))
           (clock (snd (cb_apply (Some fn) pol s)))"
proof -
  obtain ft rec where th: "cb_thresholds pol = (ft, rec)" by fastforce
  let ?s1 = "check_recovery rec s"
  have inv1: "cb_inv ft (cb ?s1) (clock ?s1)"
    using check_recovery_inv inv th by simp
  show ?thesis
  proof (cases "cb_circuit (cb ?s1) = OPEN")
    case True
    with inv1 th show ?thesis by (auto simp: cb_apply_def Let_def cb_inv_def)
  next
    case False
    obtain o1 s2 where f: "fn ?s1 = (o1, s2)" by fastforce
    with fn have "cb s2 = cb ?s1" "clock ?s1 \<le> clock s2"
      by (metis cb_respects_def snd_conv)+
    with inv1 False have "cb_inv ft (cb s2) (clock s2)" "cb_circuit (cb s2) \<noteq> OPEN"
      by (auto intro: cb_inv_mono)
    then show ?thesis
      using False f th on_success_inv [of ft s2] on_failure_inv [of ft s2]
      by (cases o1) (auto simp: cb_apply_def Let_def)
  qed
qed

lemma cb_step_inv:
  "cb_step pol s t \<Longrightarrow> cb_inv (fst (cb_thresholds pol)) (cb s) (clock s) \<Longrightarrow>
   cb_inv (fst (cb_thresholds pol)) (cb t) (clock t)"
  by (induction rule: cb_step.induct)
    (auto simp: cb_apply_inv cb_reset_def cb_inv_init elim: cb_inv_mono)

lemma cb_reachable_inv:
  "cb_reachable pol s \<Longrightarrow> cb_inv (fst (cb_thresholds pol)) (cb s) (clock s)"
  by (induction rule: cb_reachable.induct) (auto simp: cb_inv_init intro: cb_step_inv)


lemma cb_trial_call:
  assumes "cb_circuit (cb s) = OPEN" "cb_last_failure_time (cb s) = Some t"
    and "(clock s - t) * 1000 \<ge> of_int rec" "cb_thresholds pol = (ft, rec)" "cb_respects fn"
    and "fn (s\<lparr>cb := (cb s)\<lparr>cb_circuit := HALF_OPEN\<rparr>\<rparr>) = (out, s1)"
  shows "world (snd (cb_apply (Some fn) pol s)) = world s1 \<and>
    cb_circuit (cb (snd (cb_apply (Some fn) pol s))) = (if is_ok out then CLOSED else OPEN)"
proof -
  have "cb s1 = (cb s)\<lparr>cb_circuit := HALF_OPEN\<rparr>"
    using assms(5,6) unfolding cb_respects_def
    by (metis (no_types, lifting) rstate.select_convs(3) rstate.surjective rstate.update_convs(3) snd_conv)
  then show ?thesis
    using assms by (cases out) (auto simp: cb_apply_def check_recovery_def on_success_def on_failure_def Let_def)
qed

text \<open>
  C30. The circuit breaker. Whatever sequence of calls, waits and resets led to it, an open breaker
  knows when it last failed. Until \<open>recovery_timeout_ms\<close> have passed since then it
  rejects: the callable is not invoked, the only change is the rejection counter and the
  result carries the rejection error. From then on exactly one trial call decides: it
  closes the breaker when it succeeds and opens it again when it fails.
\<close>

theorem open_breaker_protects:
  assumes "cb_reachable pol s" "cb_circuit (cb s) = OPEN" "cb_thresholds pol = (ft, rec)" "cb_respects fn"
    and "fn (s\<lparr>cb := (cb s)\<lparr>cb_circuit := HALF_OPEN\<rparr>\<rparr>) = (out, s1)"
  shows "\<exists>t. cb_last_failure_time (cb s) = Some t \<and> t \<le> clock s \<and> cb_failure_count (cb s) \<ge> max 1 ft \<and>
     (if (clock s - t) * 1000 < of_int rec
      then cb_apply (Some fn) pol s =
        (Inr ((cb_result False ft (cb s))\<lparr>rerror := Some ''Circuit is OPEN - call rejected''\<rparr>),
         s\<lparr>cb := (cb s)\<lparr>cb_total_rejections := cb_total_rejections (cb s) + 1\<rparr>\<rparr>)
      else world (snd (cb_apply (Some fn) pol s)) = world s1 \<and>
        cb_circuit (cb (snd (cb_apply (Some fn) pol s))) = (if is_ok out then CLOSED else OPEN))"
proof -
  have inv: "cb_inv ft (cb s) (clock s)" using cb_reachable_inv [OF assms(1)] assms(3) by simp
  then obtain t where t: "cb_last_failure_time (cb s) = Some t" "t \<le> clock s"
    and n: "cb_failure_count (cb s) \<ge> max 1 ft"
    using assms(2) by (auto simp: cb_inv_def)
  show ?thesis
  proof (cases "(clock s - t) * 1000 < of_int rec")
    case True
    with t n cb_rejects [OF assms(2,3)] show ?thesis by auto
  next
    case False
    with t n cb_trial_call [OF assms(2) t(1) _ assms(3-5)] show ?thesis by auto
  qed
qed

definition one_strike :: "unit policy" where
  "one_strike = CircuitBreakerPolicy True 1 1000 1 CLOSED"

definition struck :: "unit rstate" where
  "struck = snd (cb_apply (Some (\<lambda>s. (Inl (Exn ''RuntimeError'' ''down''), s))) one_strike (rstate_init 5 ()))"

theorem open_breaker_protects_witness:
  "cb_reachable one_strike struck \<and> cb_circuit (cb struck) = OPEN \<and>
   world (snd (cb_apply (Some (\<lambda>s. (Inr (), s))) one_strike struck)) = () \<and>
   (\<exists>t. cb_last_failure_time (cb struck) = Some t \<and> (clock struck - t) * 1000 < 1000 \<and>
     cb_apply (Some (\<lambda>s. (Inr (), s))) one_strike struck =
       (Inr ((cb_result False 1 (cb struck))\<lparr>rerror := Some ''Circuit is OPEN - call rejected''\<rparr>),
        struck\<lparr>cb := (cb struck)\<lparr>cb_total_rejections := cb_total_rejections (cb struck) + 1\<rparr>\<rparr>))"
proof -
  have r: "cb_reachable one_strike struck"
    unfolding struck_def
    by (rule cb_reachable.step [OF cb_reachable.start cb_step.call]) (simp_all add: init_defs cb_respects_def)
  have o: "cb_circuit (cb struck) = OPEN" "cb_last_failure_time (cb struck) = Some 5" "clock struck = 5"
    by (simp_all add: struck_def one_strike_def cb_defs init_defs)
  show ?thesis
    using open_breaker_protects [OF r o(1), of 1 1000 "\<lambda>s. (Inr (), s)"] r o
    by (simp add: one_strike_def cb_thresholds_def cb_respects_def)
qed

end
