(* ===== verification/Rate_Limiter.thy ===== *)
theory Rate_Limiter
  imports Reliability_Base
begin

text \<open>
  \<^verbatim>\<open>agent/reliability/mechanisms/rate_limiter_reliability.py\<close>. \<open>rl_apply\<close> is
  \<open>RateLimiterReliability.apply\<close>. The main lemma says what the limiter is for: over any
  run of calls at non-decreasing times, no window of the configured length holds more
  admitted calls than the configured maximum.
\<close>

subsection \<open>Operations\<close>

definition rl_limits :: "'w policy \<Rightarrow> int \<times> int" where
  "rl_limits pol = (case pol of RateLimiterPolicy _ m w \<Rightarrow> (m, w) | _ \<Rightarrow> (100, 60000))"

definition rl_prune :: "rat \<Rightarrow> rat list \<Rightarrow> rat list" where
  "rl_prune cutoff ts = filter (\<lambda>t. t > cutoff) ts"

definition rl_apply :: "'w call option \<Rightarrow> 'w policy \<Rightarrow> 'w rstate \<Rightarrow> (exn + rresult) \<times> 'w rstate" where
  "rl_apply callable pol s =
     (let (m, w) = rl_limits pol in
      if \<not> enabled pol then
        (Inr ((default_result RATE_LIMITER True)
           \<lparr>metadata := [(''rate_limit_remaining'', MInt m), (''reason'', MStr ''rate limiter disabled'')]\<rparr>), s)
      else
        let now = clock s;
            cutoff = now - of_int w / 1000;
            ts = rl_prune cutoff (rl_timestamps (rl s));
            current_count = int (length ts)
        in if current_count \<ge> m then
             (Inr ((default_result RATE_LIMITER False)
                \<lparr>rerror := Some (''Rate limit exceeded: '' @ str_int current_count @ ''/'' @ str_int m @ '' requests''),
                 metadata := [(''rate_limit_remaining'', MInt 0), (''rate_limit_max'', MInt m),
                              (''rate_limit_blocked'', MBool True), (''window_ms'', MInt w)]\<rparr>),
              s\<lparr>rl := (rl s)\<lparr>rl_timestamps := ts,
                   rl_blocked_requests := rl_blocked_requests (rl s) + 1\<rparr>\<rparr>)
           else
             let ts' = ts @ [now] in
             (Inr ((default_result RATE_LIMITER True)
                \<lparr>metadata := [(''rate_limit_remaining'', MInt (m - int (length ts'))), (''rate_limit_max'', MInt m),
                              (''rate_limit_blocked'', MBool False), (''window_ms'', MInt w)]\<rparr>),
              s\<lparr>rl := (rl s)\<lparr>rl_timestamps := ts',
                   rl_total_requests := rl_total_requests (rl s) + 1\<rparr>\<rparr>))"

text \<open>The property \<open>remaining\<close> of the class.\<close>

definition rl_remaining :: "'w rstate \<Rightarrow> int" where
  "rl_remaining s = max 0 (int (length (rl_timestamps (rl s))))"

definition rl_reset :: "'w rstate \<Rightarrow> 'w rstate" where
  "rl_reset s = s\<lparr>rl := rl_init\<rparr>"

lemmas rl_defs = rl_apply_def rl_limits_def rl_prune_def default_result_def Let_def

lemma rl_apply_frame [simp]:
  "world (snd (rl_apply c pol s)) = world s" "clock (snd (rl_apply c pol s)) = clock s"
  by (auto simp: rl_apply_def Let_def split: prod.splits)

subsection \<open>Runs of the limiter\<close>

text \<open>
  \<open>rl_run\<close> calls an enabled limiter at each of the given times and collects the times
  of the calls it admitted, in order.
\<close>

definition rl_admits :: "'w policy \<Rightarrow> 'w rstate \<Rightarrow> bool" where
  "rl_admits pol s = (case fst (rl_apply None pol s) of Inr r \<Rightarrow> success r | Inl _ \<Rightarrow> False)"

fun rl_run :: "'w policy \<Rightarrow> 'w rstate \<Rightarrow> rat list \<Rightarrow> rat list" where
  "rl_run pol s [] = []"
| "rl_run pol s (t # ts) =
     (let s1 = s\<lparr>clock := t\<rparr>; s2 = snd (rl_apply None pol s1)
      in if rl_admits pol s1 then t # rl_run pol s2 ts else rl_run pol s2 ts)"

lemma rl_admits_iff:
  "enabled pol \<Longrightarrow> rl_admits pol s \<longleftrightarrow>
   int (length (rl_prune (clock s - of_int (snd (rl_limits pol)) / 1000) (rl_timestamps (rl s))))
     < fst (rl_limits pol)"
  by (auto simp: rl_admits_def rl_apply_def Let_def default_result_def split: prod.splits)

lemma rl_timestamps_after:
  "enabled pol \<Longrightarrow> rl_timestamps (rl (snd (rl_apply None pol s))) =
   rl_prune (clock s - of_int (snd (rl_limits pol)) / 1000) (rl_timestamps (rl s))
     @ (if rl_admits pol s then [clock s] else [])"
  by (auto simp: rl_admits_iff rl_apply_def Let_def split: prod.splits)

definition in_window :: "rat \<Rightarrow> rat \<Rightarrow> rat list \<Rightarrow> rat list" where
  "in_window w t A = filter (\<lambda>u. t - w < u \<and> u \<le> t) A"

lemma length_filter_mono:
  "(\<And>x. P x \<Longrightarrow> Q x) \<Longrightarrow> length (filter P xs) \<le> length (filter Q xs)"
  by (induction xs) auto

text \<open>
  The invariant of a run: with \<open>A\<close> the admissions so far, the limiter's list is the part
  of \<open>A\<close> behind the last cutoff \<open>c\<close>, and every window holds at most \<open>m\<close> of them.
\<close>

lemma rl_run_windows:
  assumes "enabled pol" "rl_limits pol = (m, wms)" "of_int wms / 1000 = w" "0 < w" "0 \<le> m"
    and "sorted ts" "\<forall>u \<in> set A. \<forall>t \<in> set ts. u \<le> t" "\<forall>t \<in> set ts. c + w \<le> t"
    and "rl_timestamps (rl s) = filter (\<lambda>u. u > c) A"
    and "\<forall>t. int (length (in_window w t A)) \<le> m"
  shows "int (length (in_window w t (A @ rl_run pol s ts))) \<le> m"
  using assms(6-10)
proof (induction ts arbitrary: A c s)
  case Nil
  then show ?case by simp
next
  case (Cons now ts)
  let ?s1 = "s\<lparr>clock := now\<rparr>"
  let ?s2 = "snd (rl_apply None pol ?s1)"
  let ?ts = "filter (\<lambda>u. u > now - w) A"
  have c: "c \<le> now - w" using Cons.prems(3) by (simp add: algebra_simps)
  then have "rl_prune (now - w) (rl_timestamps (rl s)) = ?ts"
    using Cons.prems(4) by (auto simp: rl_prune_def intro!: filter_cong)
  then have adm: "rl_admits pol ?s1 \<longleftrightarrow> int (length ?ts) < m"
    and stamps: "rl_timestamps (rl ?s2) = ?ts @ (if rl_admits pol ?s1 then [now] else [])"
    using assms(1,2) by (simp_all add: rl_admits_iff rl_timestamps_after assms(3) del: eq_divide_eq_numeral1)
  have mono: "\<forall>t \<in> set ts. now \<le> t" "sorted ts" using Cons.prems(1) by simp_all
  have upto: "\<forall>u \<in> set A. u \<le> now" using Cons.prems(2) by simp
  show ?case
  proof (cases "rl_admits pol ?s1")
    case True
    have "int (length (in_window w t (A @ [now]))) \<le> m" for t
    proof (cases "now \<le> t")
      case True
      have "length (in_window w t A) \<le> length ?ts"
        using True unfolding in_window_def by (intro length_filter_mono) auto
      then have "length (in_window w t (A @ [now])) \<le> length (?ts @ [now])"
        by (simp add: in_window_def)
      also have "int (length (?ts @ [now])) \<le> m" using adm \<open>rl_admits pol ?s1\<close> by simp
      finally show ?thesis by simp
    next
      case False
      then show ?thesis using Cons.prems(5) by (auto simp: in_window_def)
    qed
    moreover have "rl_timestamps (rl ?s2) = filter (\<lambda>u. u > now - w) (A @ [now])"
      using stamps True \<open>0 < w\<close> by simp
    moreover have "\<forall>u \<in> set (A @ [now]). \<forall>t \<in> set ts. u \<le> t"
      using mono upto by (auto intro: order_trans)
    ultimately show ?thesis
      using Cons.IH [of "A @ [now]" "now - w" ?s2] True mono by (simp add: Let_def)
  next
    case False
    then show ?thesis
      using Cons.IH [of A "now - w" ?s2] Cons.prems mono upto stamps
      by (auto simp: Let_def algebra_simps)
  qed
qed

lemma sorted_lower_bound:
  fixes ts :: "rat list"
  assumes "sorted ts"
  shows "\<exists>c. \<forall>t \<in> set ts. c \<le> t"
  using assms by (cases ts) auto

text \<open>
  C39. Window safety. For an enabled limiter in its initial state and calls at non-decreasing
  times, the admitted calls whose time lies in \<open>(t - window, t]\<close> never number more than
  \<open>max_requests\<close>, for any instant \<open>t\<close>: the limiter is a sliding-window limiter, not
  only a limiter per aligned window.
\<close>

theorem rate_limiter_window_safe:
  assumes "enabled pol" "0 \<le> fst (rl_limits pol)" "sorted ts" "rl s = rl_init"
  shows "int (length (in_window (of_int (snd (rl_limits pol)) / 1000) t (rl_run pol s ts)))
           \<le> fst (rl_limits pol)"
proof -
  obtain m wms where lim: "rl_limits pol = (m, wms)" by fastforce
  define w :: rat where "w = of_int wms / 1000"
  show ?thesis
  proof (cases "0 < w")
    case True
    obtain c where "\<forall>t \<in> set ts. c + w \<le> t"
      using sorted_lower_bound [OF assms(3)] by (metis diff_add_cancel)
    then show ?thesis
      using rl_run_windows [of pol m wms w ts "[]" c s t] True assms lim w_def
      by (simp add: rl_init_def in_window_def)
  next
    case False
    then have "in_window w t A = []" for A by (auto simp: in_window_def filter_empty_conv)
    then show ?thesis using assms(2) lim w_def by simp
  qed
qed

theorem rate_limiter_window_safe_witness:
  "let pol = RateLimiterPolicy True 2 1000 :: unit policy; s = rstate_init 0 ()
   in enabled pol \<and> 0 \<le> fst (rl_limits pol) \<and> sorted [0, 1/2, 3/4, 5/4 :: rat] \<and> rl s = rl_init \<and>
      rl_run pol s [0, 1/2, 3/4, 5/4] = [0, 1/2, 5/4] \<and>
      int (length (in_window (of_int (snd (rl_limits pol)) / 1000) (5/4) (rl_run pol s [0, 1/2, 3/4, 5/4])))
        \<le> fst (rl_limits pol)"
proof -
  let ?pol = "RateLimiterPolicy True 2 1000 :: unit policy" and ?s = "rstate_init 0 ()"
  have h: "enabled ?pol" "0 \<le> fst (rl_limits ?pol)" "sorted [0, 1/2, 3/4, 5/4 :: rat]" "rl ?s = rl_init"
    by (simp_all add: rl_limits_def init_defs)
  have run: "rl_run ?pol ?s [0, 1/2, 3/4, 5/4] = [0, 1/2, 5/4]"
    by (simp add: rl_admits_def rl_defs init_defs)
  show ?thesis using h run rate_limiter_window_safe [OF h, of "5/4"] by simp
qed

end
