(* ===== verification/Retry_Timeout.thy ===== *)
theory Retry_Timeout
  imports Reliability_Base
begin

text \<open>
  \<^verbatim>\<open>mechanisms/retry_reliability.py\<close> and \<^verbatim>\<open>mechanisms/timeout_reliability.py\<close>.

  The retry loop is \<open>retry_loop\<close>, recursive in the number of attempts left of
  \<open>range(max_retries + 1)\<close>; it sleeps between attempts and not after the last one.

  The timeout runs the callable on a thread pool with one worker. \<open>timeout_apply\<close>
  gives the job the instant at which the worker is idle as its start; when the job ends
  after the deadline the caller goes on at the deadline and the worker stays busy until
  the job ends. The effects of the abandoned job on the rest of the state are recorded at
  once: the model does not interleave them with what the caller does next. A callable
  that submits to the same pool itself (two timeout entries in one pipeline) is outside
  the model. \<open>FutureTimeoutError\<close> is the built-in \<open>TimeoutError\<close>, so a callable
  that raises it is taken for a timeout.
\<close>

subsection \<open>Retry\<close>

definition retry_params :: "'w policy \<Rightarrow> int \<times> int" where
  "retry_params pol = (case pol of RetryPolicy _ m b \<Rightarrow> (m, b) | _ \<Rightarrow> (3, 100))"

definition retry_metadata :: "int \<Rightarrow> int \<Rightarrow> int \<Rightarrow> (string \<times> meta) list" where
  "retry_metadata attempts m b =
     [(''attempts'', MInt attempts), (''max_retries'', MInt m), (''backoff_ms'', MInt b)]"

definition retry_exhausted :: "int \<Rightarrow> int \<Rightarrow> rat \<Rightarrow> string option \<Rightarrow> 'w rstate \<Rightarrow> (exn + rresult) \<times> 'w rstate" where
  "retry_exhausted m b start last_error s =
     (Inr ((default_result RETRY False)\<lparr>retry_count := m, latency_ms := (clock s - start) * 1000,
            rerror := Some (case last_error of Some e \<Rightarrow> e | None \<Rightarrow> ''Unknown error''),
            metadata := retry_metadata (m + 1) m b\<rparr>),
      s\<lparr>rt := (rt s)\<lparr>rt_last_attempts := m\<rparr>\<rparr>)"

fun retry_loop :: "'w call \<Rightarrow> int \<Rightarrow> int \<Rightarrow> rat \<Rightarrow> nat \<Rightarrow> nat \<Rightarrow> string option \<Rightarrow> 'w rstate
    \<Rightarrow> (exn + rresult) \<times> 'w rstate" where
  "retry_loop fn m b start attempt 0 last_error s = retry_exhausted m b start last_error s"
| "retry_loop fn m b start attempt (Suc left) last_error s = (case fn s of
      (Inr _, s1) \<Rightarrow>
        (Inr ((default_result RETRY True)\<lparr>retry_count := int attempt,
               latency_ms := (clock s1 - start) * 1000,
               metadata := retry_metadata (int attempt + 1) m b\<rparr>),
         s1\<lparr>rt := (rt s1)\<lparr>rt_last_attempts := int attempt, rt_last_error := None\<rparr>\<rparr>)
    | (Inl e, s1) \<Rightarrow>
        (let s2 = s1\<lparr>rt := (rt s1)\<lparr>rt_last_error := Some (exn_msg e)\<rparr>\<rparr> in
         if int attempt < m then
           (case time_sleep (of_int (b * 2 ^ attempt) / 1000) s2 of
              (Inl err, s3) \<Rightarrow> (Inl err, s3)
            | (Inr _, s3) \<Rightarrow> retry_loop fn m b start (attempt + 1) left (Some (exn_msg e)) s3)
         else retry_loop fn m b start (attempt + 1) left (Some (exn_msg e)) s2))"

definition retry_apply :: "'w call option \<Rightarrow> 'w policy \<Rightarrow> 'w rstate \<Rightarrow> (exn + rresult) \<times> 'w rstate" where
  "retry_apply callable pol s = (case callable of
      None \<Rightarrow> (Inr (default_result RETRY True), s)
    | Some fn \<Rightarrow>
        (let (m, b) = retry_params pol
         in retry_loop fn m b (clock s) 0 (nat (m + 1)) None s))"

definition retry_reset :: "'w rstate \<Rightarrow> 'w rstate" where
  "retry_reset s = s\<lparr>rt := rt_init\<rparr>"

subsection \<open>Timeout\<close>

definition timeout_limit :: "'w policy \<Rightarrow> int" where
  "timeout_limit pol = (case pol of TimeoutPolicy _ t \<Rightarrow> t | _ \<Rightarrow> 30000)"

definition timeout_metadata :: "int \<Rightarrow> rat \<Rightarrow> (string \<times> meta) list" where
  "timeout_metadata t elapsed = [(''timeout_ms'', MInt t), (''elapsed_ms'', MNum elapsed)]"

definition timed_out :: "int \<Rightarrow> rat \<Rightarrow> 'w rstate \<Rightarrow> (exn + rresult) \<times> 'w rstate" where
  "timed_out t start s =
     (let elapsed = (clock s - start) * 1000 in
      (Inr ((default_result TIMEOUT False)\<lparr>latency_ms := elapsed,
             rerror := Some (''Timeout after '' @ str_int t @ ''ms''),
             timeout_occurred := True, metadata := timeout_metadata t elapsed\<rparr>),
       s\<lparr>tmo := (tmo s)\<lparr>to_timeout_count := to_timeout_count (tmo s) + 1,
                         to_total_timeout_ms := to_total_timeout_ms (tmo s) + elapsed\<rparr>\<rparr>))"

definition timeout_apply :: "'w call option \<Rightarrow> 'w policy \<Rightarrow> 'w rstate \<Rightarrow> (exn + rresult) \<times> 'w rstate" where
  "timeout_apply callable pol s = (case callable of
      None \<Rightarrow> (Inr (default_result TIMEOUT True), s)
    | Some fn \<Rightarrow>
        (let t = timeout_limit pol;
             start = clock s;
             deadline = start + of_int t / 1000;
             (r, s1) = fn (s\<lparr>clock := max start (to_pool_free_at (tmo s))\<rparr>);
             finish = clock s1;
             s2 = s1\<lparr>tmo := (tmo s1)\<lparr>to_pool_free_at := finish\<rparr>\<rparr>
         in if deadline < finish then timed_out t start (s2\<lparr>clock := max start deadline\<rparr>)
            else let elapsed = (finish - start) * 1000 in
              (case r of
                 Inr _ \<Rightarrow> (Inr ((default_result TIMEOUT True)\<lparr>latency_ms := elapsed,
                               metadata := timeout_metadata t elapsed\<rparr>), s2)
               | Inl e \<Rightarrow>
                   if exn_class e = ''TimeoutError'' then timed_out t start s2
                   else (Inr ((default_result TIMEOUT False)\<lparr>latency_ms := elapsed,
                               rerror := Some (exn_msg e), metadata := timeout_metadata t elapsed\<rparr>), s2))))"

definition timeout_reset :: "'w rstate \<Rightarrow> 'w rstate" where
  "timeout_reset s = s\<lparr>tmo := (tmo s)\<lparr>to_timeout_count := 0, to_total_timeout_ms := 0\<rparr>\<rparr>"


subsection \<open>What the retry loop does\<close>

text \<open>
  A regular callable: it counts its own invocations in the world, takes the same time on
  each, and whether invocation number \<open>n\<close> succeeds depends on \<open>n\<close> alone. Every
  finite script of outcomes is of this form.
\<close>

definition regular_call :: "('w \<Rightarrow> nat) \<Rightarrow> rat \<Rightarrow> (nat \<Rightarrow> bool) \<Rightarrow> 'w call \<Rightarrow> bool" where
  "regular_call count d succeeds fn \<longleftrightarrow>
     (\<forall>s. count (world (snd (fn s))) = count (world s) + 1 \<and>
          clock (snd (fn s)) = clock s + d \<and>
          (is_ok (fst (fn s)) \<longleftrightarrow> succeeds (count (world s))))"

lemma regular_call_cases:
  assumes "regular_call count d succeeds fn"
  obtains (ok) u s1 where "fn s = (Inr u, s1)" "succeeds (count (world s))"
      "count (world s1) = count (world s) + 1" "clock s1 = clock s + d"
    | (fail) e s1 where "fn s = (Inl e, s1)" "\<not> succeeds (count (world s))"
      "count (world s1) = count (world s) + 1" "clock s1 = clock s + d"
proof (cases "fn s")
  case (Pair r s1)
  from assms have "count (world (snd (fn s))) = count (world s) + 1 \<and> clock (snd (fn s)) = clock s + d \<and>
      (is_ok (fst (fn s)) \<longleftrightarrow> succeeds (count (world s)))"
    by (auto simp: regular_call_def)
  with Pair show ?thesis by (cases r) (auto intro: ok fail)
qed

lemma time_sleep_nonneg: "0 \<le> d \<Longrightarrow> time_sleep d s = (Inr (), s\<lparr>clock := clock s + d\<rparr>)"
  by (simp add: time_sleep_def)

text \<open>One failed attempt that is not the last: the error is kept and the loop goes on after the sleep.\<close>

lemma retry_loop_failed_attempt:
  assumes "regular_call count d succeeds fn" "0 \<le> b" "int a < m" "\<not> succeeds (count (world s))"
  obtains e s3 where
    "retry_loop fn m b start a (Suc left) le s = retry_loop fn m b start (a + 1) left (Some e) s3"
    "count (world s3) = count (world s) + 1"
    "clock s3 = clock s + d + of_int (b * 2 ^ a) / 1000"
proof -
  obtain e s1 where f: "fn s = (Inl e, s1)" "count (world s1) = count (world s) + 1"
      "clock s1 = clock s + d"
    using assms(4) by (cases rule: regular_call_cases [OF assms(1), of s]) auto
  moreover have "0 \<le> rat_of_int b * 2 ^ a / 1000" using assms(2) by simp
  ultimately show ?thesis
    using assms(3)
    by (intro that [of "exn_msg e" "s1\<lparr>rt := (rt s1)\<lparr>rt_last_error := Some (exn_msg e)\<rparr>,
          clock := clock s1 + of_int (b * 2 ^ a) / 1000\<rparr>"])
      (simp_all add: Let_def time_sleep_nonneg)
qed

lemma retry_loop_success:
  assumes "regular_call count d succeeds fn" "0 \<le> b"
    and "int (a + left) = m + 1" "i < left"
    and "\<forall>j<i. \<not> succeeds (count (world s) + j)" "succeeds (count (world s) + i)"
  shows "\<exists>r s'. retry_loop fn m b start a left le s = (Inr r, s') \<and> success r \<and>
     retry_count r = int (a + i) \<and> count (world s') = count (world s) + i + 1 \<and>
     latency_ms r = (clock s - start) * 1000 + of_nat (i + 1) * d * 1000
                    + of_int b * 2 ^ a * (2 ^ i - 1)"
  using assms(3-)
proof (induction left arbitrary: a i le s)
  case 0
  then show ?case by simp
next
  case (Suc left)
  show ?case
  proof (cases i)
    case 0
    with Suc.prems(4) show ?thesis
      by (cases rule: regular_call_cases [OF assms(1), of s])
        (auto simp: default_result_def algebra_simps)
  next
    case (Suc i')
    from Suc.prems(3) Suc have nok: "\<not> succeeds (count (world s))" by (metis add.right_neutral zero_less_Suc)
    have lt: "int a < m" using Suc.prems(1,2) Suc by simp
    obtain e s3 where run: "retry_loop fn m b start a (Suc left) le s =
        retry_loop fn m b start (a + 1) left (Some e) s3"
      and w3: "count (world s3) = count (world s) + 1" "clock s3 = clock s + d + of_int (b * 2 ^ a) / 1000"
      by (rule retry_loop_failed_attempt [OF assms(1,2) lt nok])
    have "\<forall>j<i'. \<not> succeeds (count (world s3) + j)"
      using Suc.prems(3) Suc w3 by (metis Suc_less_eq add.assoc plus_1_eq_Suc)
    moreover have "succeeds (count (world s3) + i')" using Suc.prems(4) Suc w3 by simp
    ultimately have "\<exists>r s'. retry_loop fn m b start (a + 1) left (Some e) s3 = (Inr r, s') \<and> success r \<and>
       retry_count r = int (a + 1 + i') \<and> count (world s') = count (world s3) + i' + 1 \<and>
       latency_ms r = (clock s3 - start) * 1000 + of_nat (i' + 1) * d * 1000
                      + of_int b * 2 ^ (a + 1) * (2 ^ i' - 1)"
      using Suc.IH [of "a + 1" i' s3 "Some e"] Suc.prems(1,2) Suc by simp
    then show ?thesis
      unfolding run w3 using Suc
      by (auto simp: algebra_simps)
  qed
qed

lemma retry_loop_exhausted:
  assumes "regular_call count d succeeds fn" "0 \<le> b" "int (a + left) = m + 1" "0 < left"
    and "\<forall>j<left. \<not> succeeds (count (world s) + j)"
  shows "\<exists>r s'. retry_loop fn m b start a left le s = (Inr r, s') \<and> \<not> success r \<and>
     retry_count r = m \<and> count (world s') = count (world s) + left \<and>
     latency_ms r = (clock s - start) * 1000 + of_nat left * d * 1000
                    + of_int b * 2 ^ a * (2 ^ (left - 1) - 1)"
  using assms(3-)
proof (induction left arbitrary: a le s)
  case 0
  then show ?case by simp
next
  case (Suc left)
  from Suc.prems(3) have nok: "\<not> succeeds (count (world s))" by (metis add.right_neutral zero_less_Suc)
  then obtain e s1 where f: "fn s = (Inl e, s1)" and c1: "count (world s1) = count (world s) + 1"
      and k1: "clock s1 = clock s + d"
    by (cases rule: regular_call_cases [OF assms(1), of s]) auto
  show ?case
  proof (cases left)
    case 0
    with Suc.prems(1) f c1 k1 show ?thesis
      by (auto simp: retry_exhausted_def default_result_def algebra_simps)
  next
    case (Suc l)
    have lt: "int a < m" using Suc.prems(1) Suc by simp
    obtain e s3 where run: "retry_loop fn m b start a (Suc left) le s =
        retry_loop fn m b start (a + 1) left (Some e) s3"
      and w3: "count (world s3) = count (world s) + 1" "clock s3 = clock s + d + of_int (b * 2 ^ a) / 1000"
      by (rule retry_loop_failed_attempt [OF assms(1,2) lt nok])
    have "\<forall>j<left. \<not> succeeds (count (world s3) + j)"
      using Suc.prems(3) w3 by (metis Suc_less_eq add.assoc plus_1_eq_Suc)
    then have "\<exists>r s'. retry_loop fn m b start (a + 1) left (Some e) s3 = (Inr r, s') \<and> \<not> success r \<and>
       retry_count r = m \<and> count (world s') = count (world s3) + left \<and>
       latency_ms r = (clock s3 - start) * 1000 + of_nat left * d * 1000
                      + of_int b * 2 ^ (a + 1) * (2 ^ (left - 1) - 1)"
      using Suc.IH [of "a + 1" s3 "Some e"] Suc.prems(1,2) Suc by simp
    then show ?thesis
      unfolding run w3 using Suc by (auto simp: algebra_simps)
  qed
qed

text \<open>
  Retry. For a callable that is regular and a policy with non-negative retries and back-off,
  \<open>RetryReliability.apply\<close> calls it until the first success and at most
  \<open>max_retries + 1\<close> times in all; \<open>retry_count\<close> is the number of calls before the
  successful one (or \<open>max_retries\<close>), and the latency is the time of the calls made plus
  the exponential back-off between them, \<open>backoff_ms * (2^k - 1)\<close> in sum, with no sleep
  after the last call.
\<close>

theorem retry_apply_correct:
  assumes "regular_call count d succeeds fn"
    and "retry_params pol = (int m, b)" "0 \<le> b"
    and "k = (LEAST k. succeeds (count (world s) + k) \<or> m < k)"
  shows "\<exists>r s'. retry_apply (Some fn) pol s = (Inr r, s') \<and>
     success r = (k \<le> m) \<and> retry_count r = int (min k m) \<and>
     count (world s') = count (world s) + min k m + 1 \<and>
     latency_ms r = of_nat (min k m + 1) * d * 1000 + of_int b * (2 ^ min k m - 1)"
proof -
  let ?c = "count (world s)"
  have "succeeds (?c + Suc m) \<or> m < Suc m" by simp
  then have at_k: "succeeds (?c + k) \<or> m < k"
    unfolding assms(4) by (rule LeastI)
  have below: "\<not> succeeds (?c + j) \<and> j \<le> m" if "j < k" for j
    using not_less_Least that unfolding assms(4) by fastforce
  have ap: "retry_apply (Some fn) pol s = retry_loop fn (int m) b (clock s) 0 (Suc m) None s"
    using assms(2) by (simp add: retry_apply_def nat_add_distrib)
  show ?thesis
  proof (cases "k \<le> m")
    case True
    with at_k have "succeeds (?c + k)" by simp
    with True below show ?thesis
      unfolding ap using retry_loop_success [OF assms(1,3), of 0 "Suc m" "int m" k s "clock s" None]
      by (auto simp: min_absorb1)
  next
    case False
    then have "\<forall>j<Suc m. \<not> succeeds (?c + j)" using below by simp
    with False show ?thesis
      unfolding ap using retry_loop_exhausted [OF assms(1,3), of 0 "Suc m" "int m" s "clock s" None]
      by (auto simp: min_absorb2)
  qed
qed

text \<open>The callable of the example: it fails twice and then succeeds, one second per call.\<close>

definition third_time_lucky :: "nat call" where
  "third_time_lucky s =
     (if world s < 2 then Inl (Exn ''RuntimeError'' ''down'') else Inr (),
      s\<lparr>world := world s + 1, clock := clock s + 1\<rparr>)"

theorem retry_apply_correct_witness:
  "\<exists>r s'. retry_apply (Some third_time_lucky) (RetryPolicy True 3 100) (rstate_init 0 0) = (Inr r, s') \<and>
     success r \<and> retry_count r = 2 \<and> world s' = 3 \<and> latency_ms r = 3300"
proof -
  have reg: "regular_call (\<lambda>n. n) 1 (\<lambda>n. 2 \<le> n) third_time_lucky"
    by (auto simp: regular_call_def third_time_lucky_def)
  have k: "(2::nat) = (LEAST k. 2 \<le> world (rstate_init 0 (0::nat)) + k \<or> 3 < k)"
    by (rule Least_equality [symmetric]) (auto simp: init_defs)
  show ?thesis
    using retry_apply_correct [OF reg, of "RetryPolicy True 3 100" 3 100 2 "rstate_init 0 0"] k
    by (auto simp: retry_params_def init_defs)
qed

subsection \<open>What the timeout does\<close>

lemma timeout_apply_never_raises: "\<exists>r. fst (timeout_apply c pol s) = Inr r"
  by (auto simp: timeout_apply_def timed_out_def Let_def split: option.splits prod.splits sum.splits)

text \<open>
  Timeout. With a non-negative limit the caller never waits longer than the limit, whatever
  the callable does and however long the worker is still busy with earlier jobs, and the
  result is a success exactly when the callable returned normally by the deadline.
\<close>

theorem timeout_bounds_wait:
  assumes "0 \<le> timeout_limit pol"
    and "fn (s\<lparr>clock := max (clock s) (to_pool_free_at (tmo s))\<rparr>) = (out, s1)"
  shows "\<exists>r s'. timeout_apply (Some fn) pol s = (Inr r, s') \<and>
     latency_ms r \<le> of_int (timeout_limit pol) \<and>
     clock s' \<le> clock s + of_int (timeout_limit pol) / 1000 \<and>
     to_pool_free_at (tmo s') = clock s1 \<and>
     success r = (is_ok out \<and> clock s1 \<le> clock s + of_int (timeout_limit pol) / 1000)"
  using assms
  by (auto simp: timeout_apply_def timed_out_def default_result_def Let_def field_simps split: sum.splits)

theorem timeout_bounds_wait_witness:
  "let s = rstate_init 10 () ; slow = (\<lambda>s. (Inr (), s\<lparr>clock := clock s + 60\<rparr>))
   in \<exists>r s'. timeout_apply (Some slow) (TimeoutPolicy True 5000) s = (Inr r, s') \<and>
     latency_ms r \<le> 5000 \<and> clock s' \<le> 15 \<and> to_pool_free_at (tmo s') = 70 \<and> \<not> success r"
  using timeout_bounds_wait [of "TimeoutPolicy True 5000" "\<lambda>s. (Inr (), s\<lparr>clock := clock s + 60\<rparr>)"
      "rstate_init 10 ()" "Inr ()" "(rstate_init 10 ())\<lparr>clock := 70\<rparr>"]
  by (simp add: timeout_limit_def init_defs)

text \<open>
  Starvation of the shared worker. While an abandoned job keeps the single worker busy past
  the deadline of the next call, that call is reported as timed out, however fast and
  healthy its callable is.
\<close>

theorem timeout_worker_starvation:
  assumes "to_pool_free_at (tmo s) > clock s + of_int (timeout_limit pol) / 1000"
    and "0 \<le> timeout_limit pol" "\<And>s. clock s \<le> clock (snd (fn s))"
  shows "\<exists>r s'. timeout_apply (Some fn) pol s = (Inr r, s') \<and> \<not> success r \<and> timeout_occurred r"
proof -
  let ?s0 = "s\<lparr>clock := max (clock s) (to_pool_free_at (tmo s))\<rparr>"
  obtain out s1 where f: "fn ?s0 = (out, s1)" by fastforce
  have "0 \<le> rat_of_int (timeout_limit pol) / 1000" using assms(2) by simp
  with assms(1) have "to_pool_free_at (tmo s) \<le> clock ?s0" by simp
  also have "\<dots> \<le> clock s1" using assms(3) [of ?s0] f by simp
  finally have "clock s + of_int (timeout_limit pol) / 1000 < clock s1" using assms(1) by simp
  then show ?thesis
    using f by (simp add: timeout_apply_def timed_out_def default_result_def Let_def)
qed

theorem timeout_worker_starvation_witness:
  "let slow = (\<lambda>s. (Inr (), s\<lparr>clock := clock s + 60\<rparr>)); fast = (\<lambda>s. (Inr (), s));
       s1 = snd (timeout_apply (Some slow) (TimeoutPolicy True 5000) (rstate_init 10 ()))
   in \<exists>r s'. timeout_apply (Some fast) (TimeoutPolicy True 5000) s1 = (Inr r, s') \<and>
        \<not> success r \<and> timeout_occurred r"
  using timeout_worker_starvation [of
      "snd (timeout_apply (Some (\<lambda>s. (Inr (), s\<lparr>clock := clock s + 60\<rparr>))) (TimeoutPolicy True 5000)
         (rstate_init 10 ()))" "TimeoutPolicy True 5000" "\<lambda>s. (Inr (), s)"]
  by (simp add: timeout_apply_def timed_out_def timeout_limit_def default_result_def init_defs Let_def)

end
