(* ===== verification/Health_Fallback.thy ===== *)
theory Health_Fallback
  imports Reliability_Base
begin

text \<open>
  \<^verbatim>\<open>mechanisms/fallback_reliability.py\<close> and
  \<^verbatim>\<open>mechanisms/health_check_reliability.py\<close>. Both return a result on every path and
  never raise; a health check function that raises counts as unhealthy, and an awaitable
  it returns is an object and therefore true.
\<close>

subsection \<open>Fallback\<close>

definition fallback_params :: "'w policy \<Rightarrow> string option \<times> 'w fallback_fn option" where
  "fallback_params pol = (case pol of FallbackPolicy _ v f \<Rightarrow> (v, f) | _ \<Rightarrow> (None, None))"

definition lift_fallback :: "'w fallback_fn \<Rightarrow> 'w call" where
  "lift_fallback f s = (let (r, w) = f (world s) in (r, s\<lparr>world := w\<rparr>))"

definition run_fallback :: "'w fallback_fn option \<Rightarrow> 'w call" where
  "run_fallback f s = (case f of None \<Rightarrow> (Inr (), s) | Some g \<Rightarrow> lift_fallback g s)"

definition fallback_after_primary ::
    "'w fallback_fn option \<Rightarrow> exn \<Rightarrow> 'w rstate \<Rightarrow> (exn + rresult) \<times> 'w rstate" where
  "fallback_after_primary f pe s =
     (let s1 = s\<lparr>fb := (fb s)\<lparr>fb_total_fallbacks := fb_total_fallbacks (fb s) + 1\<rparr>\<rparr> in
      case run_fallback f s1 of
        (Inr _, s2) \<Rightarrow>
          (Inr ((default_result FALLBACK True)\<lparr>metadata :=
             [(''fallback_used'', MBool True), (''primary_error'', MStr (exn_msg pe)),
              (''fallback_success'', MBool True)]\<rparr>),
           s2\<lparr>fb := (fb s2)\<lparr>fb_fallback_successes := fb_fallback_successes (fb s2) + 1\<rparr>\<rparr>)
      | (Inl fe, s2) \<Rightarrow>
          (Inr ((default_result FALLBACK False)\<lparr>
             rerror := Some (''Primary failed: '' @ exn_msg pe @ ''; Fallback failed: '' @ exn_msg fe),
             metadata := [(''fallback_used'', MBool True), (''primary_error'', MStr (exn_msg pe)),
               (''fallback_error'', MStr (exn_msg fe)), (''fallback_success'', MBool False)]\<rparr>),
           s2\<lparr>fb := (fb s2)\<lparr>fb_fallback_failures := fb_fallback_failures (fb s2) + 1\<rparr>\<rparr>))"

definition fallback_apply :: "'w call option \<Rightarrow> 'w policy \<Rightarrow> 'w rstate \<Rightarrow> (exn + rresult) \<times> 'w rstate" where
  "fallback_apply callable pol s = (case callable of
      None \<Rightarrow> (Inr ((default_result FALLBACK True)\<lparr>metadata :=
                 [(''fallback_used'', MBool False), (''reason'', MStr ''no primary callable'')]\<rparr>), s)
    | Some fn \<Rightarrow>
        if \<not> enabled pol then
          (Inr ((default_result FALLBACK True)\<lparr>metadata :=
             [(''fallback_used'', MBool False), (''reason'', MStr ''fallback disabled'')]\<rparr>), s)
        else
          (let (v, f) = fallback_params pol in
           case fn s of
             (Inr _, s1) \<Rightarrow>
               (Inr ((default_result FALLBACK True)\<lparr>metadata :=
                  [(''fallback_used'', MBool False)]
                  @ (if v = None \<and> Option.is_none f
                     then [(''reason'', MStr ''no fallback configured'')] else [])\<rparr>), s1)
           | (Inl e, s1) \<Rightarrow>
               if v = None \<and> Option.is_none f then
                 (Inr ((default_result FALLBACK False)\<lparr>
                    rerror := Some (''Primary failed: '' @ exn_msg e),
                    metadata := [(''fallback_used'', MBool False), (''primary_error'', MStr (exn_msg e))]\<rparr>), s1)
               else fallback_after_primary f e s1))"

definition fallback_reset :: "'w rstate \<Rightarrow> 'w rstate" where
  "fallback_reset s = s\<lparr>fb := fb_init\<rparr>"

subsection \<open>Health check\<close>

definition set_healthy :: "'w rstate \<Rightarrow> 'w rstate" where
  "set_healthy s = s\<lparr>hc := (hc s)\<lparr>hc_is_healthy := True, hc_last_check_time := clock s\<rparr>\<rparr>"

definition set_unhealthy :: "'w rstate \<Rightarrow> 'w rstate" where
  "set_unhealthy s = s\<lparr>hc := (hc s)\<lparr>hc_is_healthy := False, hc_last_check_time := clock s\<rparr>\<rparr>"

definition set_check_function :: "'w check_fn \<Rightarrow> 'w rstate \<Rightarrow> 'w rstate" where
  "set_check_function f s = s\<lparr>hc := (hc s)\<lparr>hc_default_check_fn := Some f\<rparr>\<rparr>"

definition health_params :: "'w policy \<Rightarrow> 'w rstate \<Rightarrow> int \<times> 'w check_fn option" where
  "health_params pol s = (case pol of
      HealthCheckPolicy _ i f \<Rightarrow>
        (i, case f of None \<Rightarrow> hc_default_check_fn (hc s) | Some g \<Rightarrow> Some g)
    | _ \<Rightarrow> (30000, hc_default_check_fn (hc s)))"

fun truthy_check :: "check_ret \<Rightarrow> bool" where
  "truthy_check (CBool b) = b"
| "truthy_check (CAwaitable _) = True"

definition run_check :: "'w check_fn option \<Rightarrow> 'w rstate \<Rightarrow> bool \<times> 'w rstate" where
  "run_check f s = (case f of
      None \<Rightarrow> (hc_is_healthy (hc s), s)
    | Some g \<Rightarrow> (case g (world s) of
          (Inr b, w) \<Rightarrow> (truthy_check b, s\<lparr>world := w\<rparr>)
        | (Inl _, w) \<Rightarrow> (False, s\<lparr>world := w\<rparr>)))"

definition health_status :: "bool \<Rightarrow> (string \<times> meta) list \<Rightarrow> rresult" where
  "health_status ok m =
     (default_result HEALTH_CHECK ok)\<lparr>
       rerror := (if ok then None else Some ''Service is unhealthy''),
       metadata := (''health_status'', MStr (if ok then ''healthy'' else ''unhealthy'')) # m\<rparr>"

definition health_apply :: "'w call option \<Rightarrow> 'w policy \<Rightarrow> 'w rstate \<Rightarrow> (exn + rresult) \<times> 'w rstate" where
  "health_apply callable pol s =
     (let (interval, check_fn) = health_params pol s in
      if \<not> enabled pol then
        (Inr (health_status True [(''reason'', MStr ''health check disabled'')]), s)
      else if (clock s - hc_last_check_time (hc s)) * 1000 < of_int interval
              \<and> hc_last_check_time (hc s) > 0 then
        (if \<not> hc_is_healthy (hc s)
         then (Inr (health_status False [(''reason'', MStr ''cached unhealthy status'')]), s)
         else (Inr (health_status True [(''reason'', MStr ''cached healthy status'')]), s))
      else
        let s1 = s\<lparr>hc := (hc s)\<lparr>hc_check_count := hc_check_count (hc s) + 1,
                                  hc_last_check_time := clock s\<rparr>\<rparr>;
            (healthy, s2) = run_check check_fn s1
        in if healthy then
             (Inr (health_status True [(''check_count'', MInt (hc_check_count (hc s2)))]),
              s2\<lparr>hc := (hc s2)\<lparr>hc_is_healthy := True\<rparr>\<rparr>)
           else
             (Inr (health_status False [(''check_count'', MInt (hc_check_count (hc s2))),
                    (''failed_check_count'', MInt (hc_failed_check_count (hc s2) + 1))]),
              s2\<lparr>hc := (hc s2)\<lparr>hc_is_healthy := False,
                     hc_failed_check_count := hc_failed_check_count (hc s2) + 1\<rparr>\<rparr>))"

definition health_reset :: "'w rstate \<Rightarrow> 'w rstate" where
  "health_reset s = s\<lparr>hc := hc_init\<rparr>"

end
