(* ===== verification/Reliability_Engine.thy ===== *)
theory Reliability_Engine
  imports Circuit_Breaker Rate_Limiter Retry_Timeout Health_Fallback
begin

text \<open>
  \<^verbatim>\<open>reliability_registry.py\<close>, \<^verbatim>\<open>reliability_factory.py\<close>,
  \<^verbatim>\<open>mechanisms/__init__.py\<close> and \<^verbatim>\<open>reliability_engine.py\<close>: the six registered
  mechanisms, the engine with its hooks, and the pipeline that nests them around a
  callable.

  A wrapper that \<open>_make_mechanism_wrapper\<close> builds is a \<open>'w call\<close>;
  \<open>pipeline_results\<close> is the field \<open>results\<close> of the state. The results of a pipeline
  under the timeout are read when the pipeline ends.
\<close>

subsection \<open>Registry\<close>

type_synonym 'w mechanism = "'w call option \<Rightarrow> 'w policy \<Rightarrow> 'w rstate \<Rightarrow> (exn + rresult) \<times> 'w rstate"

definition mechanism_registry :: "(string \<times> 'w mechanism) list" where
  "mechanism_registry =
     [(''retry'', retry_apply), (''timeout'', timeout_apply), (''circuit_breaker'', cb_apply),
      (''fallback'', fallback_apply), (''health_check'', health_apply), (''rate_limiter'', rl_apply)]"

definition default_policies :: "(string \<times> 'w policy) list" where
  "default_policies =
     [(''retry'', RetryPolicy True 3 1000), (''timeout'', TimeoutPolicy True 30000),
      (''circuit_breaker'', CircuitBreakerPolicy True 5 30000 1 CLOSED),
      (''fallback'', FallbackPolicy True None None),
      (''health_check'', HealthCheckPolicy True 30000 None),
      (''rate_limiter'', RateLimiterPolicy True 100 60000)]"

definition registry_get :: "string \<Rightarrow> exn + 'w mechanism" where
  "registry_get name = (case map_of mechanism_registry name of
      Some m \<Rightarrow> Inr m
    | None \<Rightarrow> Inl (Exn ''ReliabilityNotFound''
        (''Reliability mechanism '' @ quoted name @ '' not registered. Available: ''
         @ repr_list (map fst (mechanism_registry :: (string \<times> 'w mechanism) list)))))"

definition get_default_policy :: "string \<Rightarrow> exn + 'w policy" where
  "get_default_policy name = (case map_of default_policies name of
      Some p \<Rightarrow> Inr p
    | None \<Rightarrow> Inl (Exn ''ReliabilityNotFound''
        (''Default policy for mechanism '' @ quoted name @ '' not found. Available policies: ''
         @ repr_list (map fst (default_policies :: (string \<times> 'w policy) list)))))"

fun reliability_of_value :: "string \<Rightarrow> ReliabilityType option" where
  "reliability_of_value v = find (\<lambda>t. reliability_value t = v)
     [RETRY, TIMEOUT, CIRCUIT_BREAKER, FALLBACK, HEALTH_CHECK, RATE_LIMITER]"

subsection \<open>The engine object\<close>

type_synonym 'w pipeline = "(string \<times> 'w policy) list"

record 'w engine =
  default_reliability_type :: string
  before_apply_hooks :: "'w fallback_fn list"
  after_apply_hooks :: "(rresult \<Rightarrow> 'w fallback_fn) list"
  pipeline_of :: "'w pipeline option"

definition engine_init :: "'w engine" where
  "engine_init = \<lparr>default_reliability_type = ''retry'', before_apply_hooks = [],
     after_apply_hooks = [], pipeline_of = None\<rparr>"

definition set_default_reliability_type :: "string \<Rightarrow> 'w engine \<Rightarrow> (exn + unit) \<times> 'w engine" where
  "set_default_reliability_type v e = (case reliability_of_value v of
      None \<Rightarrow> (Inl (Exn ''ValueError'' (quoted v @ '' is not a valid ReliabilityType'')), e)
    | Some t \<Rightarrow> (Inr (), e\<lparr>default_reliability_type := reliability_value t\<rparr>))"

definition add_before_apply_hook :: "'w fallback_fn \<Rightarrow> 'w engine \<Rightarrow> 'w engine" where
  "add_before_apply_hook h e = e\<lparr>before_apply_hooks := before_apply_hooks e @ [h]\<rparr>"

definition add_after_apply_hook :: "(rresult \<Rightarrow> 'w fallback_fn) \<Rightarrow> 'w engine \<Rightarrow> 'w engine" where
  "add_after_apply_hook h e = e\<lparr>after_apply_hooks := after_apply_hooks e @ [h]\<rparr>"

text \<open>The exceptions of hooks are swallowed; what they did to the world stays.\<close>

definition run_hooks :: "'w fallback_fn list \<Rightarrow> 'w rstate \<Rightarrow> 'w rstate" where
  "run_hooks hs s = fold (\<lambda>h s. s\<lparr>world := snd (h (world s))\<rparr>) hs s"

definition engine_apply :: "'w engine \<Rightarrow> 'w call option \<Rightarrow> string option \<Rightarrow> 'w policy option \<Rightarrow> 'w rstate
    \<Rightarrow> (exn + rresult) \<times> 'w rstate" where
  "engine_apply e callable ty pol s =
     (let name = (case ty of None \<Rightarrow> default_reliability_type e | Some n \<Rightarrow> n) in
      case registry_get name of
        Inl err \<Rightarrow> (Inl err, s)
      | Inr mech \<Rightarrow>
          (case mech callable (case pol of Some p \<Rightarrow> p | None \<Rightarrow> BasePolicy True)
                 (run_hooks (before_apply_hooks e) s) of
             (Inl err, s1) \<Rightarrow> (Inl err, s1)
           | (Inr r, s1) \<Rightarrow> (Inr r, run_hooks (map (\<lambda>h. h r) (after_apply_hooks e)) s1)))"

subsection \<open>Pipeline\<close>

definition DEFAULT_PIPELINE :: "'w pipeline" where
  "DEFAULT_PIPELINE =
     [(''health_check'', HealthCheckPolicy True 30000 None),
      (''rate_limiter'', RateLimiterPolicy True 100 60000),
      (''timeout'', TimeoutPolicy True 5000),
      (''retry'', RetryPolicy True 3 100),
      (''circuit_breaker'', CircuitBreakerPolicy True 3 1000 1 CLOSED),
      (''fallback'', FallbackPolicy True None None)]"

definition set_pipeline :: "'w pipeline \<Rightarrow> 'w engine \<Rightarrow> 'w engine" where
  "set_pipeline p e = e\<lparr>pipeline_of := Some p\<rparr>"

definition get_pipeline :: "'w engine \<Rightarrow> 'w pipeline" where
  "get_pipeline e = (case pipeline_of e of Some p \<Rightarrow> p | None \<Rightarrow> DEFAULT_PIPELINE)"

definition make_mechanism_wrapper :: "string \<Rightarrow> 'w mechanism \<Rightarrow> 'w policy \<Rightarrow> 'w call \<Rightarrow> 'w call" where
  "make_mechanism_wrapper name mech pol inner s = (case mech (Some inner) pol s of
      (Inl e, s1) \<Rightarrow> (Inl e, s1)
    | (Inr r, s1) \<Rightarrow>
        (let s2 = s1\<lparr>results := AList.update name r (results s1)\<rparr> in
         if \<not> success r then
           (Inl (Exn ''RuntimeError'' (''Reliability mechanism '' @ quoted name @ '' failed: ''
              @ (case rerror r of Some e \<Rightarrow> e | None \<Rightarrow> ''None''))), s2)
         else if name \<in> {''health_check'', ''rate_limiter''} then inner s2
         else (Inr (), s2)))"

text \<open>The loop over \<open>reversed(_pipeline)\<close>; an unknown name raises before anything runs.\<close>

fun wrap_pipeline :: "'w pipeline \<Rightarrow> 'w call \<Rightarrow> exn + 'w call" where
  "wrap_pipeline [] f = Inr f"
| "wrap_pipeline ((name, pol) # p) f = (case wrap_pipeline p f of
      Inl e \<Rightarrow> Inl e
    | Inr wrapped \<Rightarrow> (case registry_get name of
          Inl e \<Rightarrow> Inl e
        | Inr mech \<Rightarrow> Inr (make_mechanism_wrapper name mech pol wrapped)))"

record presult =
  p_success :: bool
  p_results :: "(string \<times> rresult) list"
  p_total_latency_ms :: rat
  p_order :: "string list"
  p_metadata :: "(string \<times> meta) list"

definition execute_pipeline :: "'w engine \<Rightarrow> 'w call option \<Rightarrow> 'w pipeline option \<Rightarrow> 'w rstate
    \<Rightarrow> (exn + presult) \<times> 'w rstate" where
  "execute_pipeline e callable pl s =
     (let p = (case pl of Some p \<Rightarrow> p | None \<Rightarrow> get_pipeline e) in
      case callable of
        None \<Rightarrow> (Inr \<lparr>p_success = True, p_results = [], p_total_latency_ms = 0, p_order = map fst p,
                   p_metadata = [(''reason'', MStr ''no callable in context'')]\<rparr>, s)
      | Some f \<Rightarrow> (case wrap_pipeline p f of
            Inl err \<Rightarrow> (Inl err, s)
          | Inr wrapped \<Rightarrow>
              (let (r, s1) = wrapped (s\<lparr>results := []\<rparr>) in
               (Inr \<lparr>p_success = is_ok r, p_results = results s1,
                     p_total_latency_ms = (clock s1 - clock s) * 1000, p_order = map fst p,
                     p_metadata = [(''mechanism_count'', MInt (int (length p)))]\<rparr>, s1))))"


subsection \<open>How often a pipeline can invoke its callable\<close>

text \<open>
  \<open>count\<close> reads the number of invocations off the world. The functions a policy
  carries (fallback, health check) and the registered default check do not count.
\<close>

definition quiet_fn :: "('w \<Rightarrow> nat) \<Rightarrow> ('w \<Rightarrow> 'r \<times> 'w) option \<Rightarrow> bool" where
  "quiet_fn count f = (case f of None \<Rightarrow> True | Some g \<Rightarrow> \<forall>w. count (snd (g w)) = count w)"

definition quiet_policy :: "('w \<Rightarrow> nat) \<Rightarrow> 'w policy \<Rightarrow> bool" where
  "quiet_policy count pol = (case pol of
      FallbackPolicy _ _ f \<Rightarrow> quiet_fn count f
    | HealthCheckPolicy _ _ f \<Rightarrow> quiet_fn count f
    | _ \<Rightarrow> True)"

definition quiet_state :: "('w \<Rightarrow> nat) \<Rightarrow> 'w rstate \<Rightarrow> bool" where
  "quiet_state count s = quiet_fn count (hc_default_check_fn (hc s))"

text \<open>Only retry repeats: the factor of an entry of the pipeline.\<close>

definition amplification :: "string \<times> 'w policy \<Rightarrow> nat" where
  "amplification p = (if fst p = ''retry'' then nat (fst (retry_params (snd p)) + 1) else 1)"

definition wrap_entry :: "string \<times> 'w policy \<Rightarrow> 'w call \<Rightarrow> 'w call" where
  "wrap_entry p = make_mechanism_wrapper (fst p) (projr (registry_get (fst p))) (snd p)"

abbreviation invokes :: "('w \<Rightarrow> nat) \<Rightarrow> nat \<Rightarrow> ('w rstate \<Rightarrow> 'r \<times> 'w rstate) \<Rightarrow> bool" where
  "invokes count \<equiv> adds_at_most (quiet_state count) (\<lambda>s. count (world s))"

lemma invokes_retry:
  assumes "invokes count m fn"
  shows "quiet_state count s \<Longrightarrow>
    quiet_state count (snd (retry_loop fn mx b start a left le s)) \<and>
    count (world (snd (retry_loop fn mx b start a left le s))) \<le> count (world s) + left * m"
proof (induction left arbitrary: a le s)
  case 0
  then show ?case by (simp add: retry_exhausted_def quiet_state_def)
next
  case (Suc left)
  obtain r s1 where f: "fn s = (r, s1)" by fastforce
  then have s1: "quiet_state count s1" "count (world s1) \<le> count (world s) + m"
    using adds_at_mostD [OF assms] Suc.prems by metis+
  have tail: "count (world (snd (retry_loop fn mx b start a' left le' s'))) \<le> count (world s) + Suc left * m
       \<and> quiet_state count (snd (retry_loop fn mx b start a' left le' s'))"
    if "hc s' = hc s1" "world s' = world s1" for a' le' s'
    using Suc.IH [of s' a' le'] that s1 by (auto simp: quiet_state_def)
  show ?case
    using f s1 tail by (cases r) (auto simp: Let_def time_sleep_def quiet_state_def)
qed

lemma invokes_retry_apply:
  "invokes count m fn \<Longrightarrow> invokes count (nat (fst (retry_params pol) + 1) * m) (retry_apply (Some fn) pol)"
  using invokes_retry [of count m fn] by (auto simp: adds_at_most_def retry_apply_def split: prod.splits)

lemma invokes_timeout_apply: "invokes count m fn \<Longrightarrow> invokes count m (timeout_apply (Some fn) pol)"
  unfolding adds_at_most_def [of _ _ _ "timeout_apply (Some fn) pol"]
proof (intro allI impI)
  fix s assume fn: "invokes count m fn" and s: "quiet_state count s"
  let ?s0 = "s\<lparr>clock := max (clock s) (to_pool_free_at (tmo s))\<rparr>"
  obtain r s1 where f: "fn ?s0 = (r, s1)" by fastforce
  with adds_at_mostD [OF fn, of ?s0 r s1] s
  have "quiet_state count s1" "count (world s1) \<le> count (world s) + m" by (simp_all add: quiet_state_def)
  then show "quiet_state count (snd (timeout_apply (Some fn) pol s)) \<and>
      count (world (snd (timeout_apply (Some fn) pol s))) \<le> count (world s) + m"
    using f by (auto simp: timeout_apply_def timed_out_def Let_def quiet_state_def split: sum.splits)
qed

lemma check_recovery_hc [simp]: "hc (check_recovery rec s) = hc s"
  by (auto simp: check_recovery_def split: option.splits)

lemma cb_bookkeeping_hc [simp]: "hc (on_success s) = hc s" "hc (on_failure ft s) = hc s"
  by (simp_all add: on_success_def on_failure_def Let_def)

lemma invokes_cb_apply: "invokes count m fn \<Longrightarrow> invokes count m (cb_apply (Some fn) pol)"
  unfolding adds_at_most_def [of _ _ _ "cb_apply (Some fn) pol"]
proof (intro allI impI)
  fix s assume fn: "invokes count m fn" and s: "quiet_state count s"
  let ?s0 = "check_recovery (snd (cb_thresholds pol)) s"
  obtain r s1 where f: "fn ?s0 = (r, s1)" by fastforce
  with adds_at_mostD [OF fn, of ?s0 r s1] s
  have "quiet_state count s1" "count (world s1) \<le> count (world s) + m" by (simp_all add: quiet_state_def)
  then show "quiet_state count (snd (cb_apply (Some fn) pol s)) \<and>
      count (world (snd (cb_apply (Some fn) pol s))) \<le> count (world s) + m"
    using f s by (auto simp: cb_apply_def Let_def quiet_state_def split: sum.splits prod.splits)
qed

lemma run_fallback_frame:
  assumes "quiet_fn count g"
  shows "hc (snd (run_fallback g s)) = hc s \<and> count (world (snd (run_fallback g s))) = count (world s)"
  using assms
  by (cases g) (simp_all add: run_fallback_def lift_fallback_def quiet_fn_def split_beta)

lemma fallback_after_primary_frame:
  assumes "quiet_fn count g"
  shows "hc (snd (fallback_after_primary g e s)) = hc s \<and>
    count (world (snd (fallback_after_primary g e s))) = count (world s)"
proof -
  let ?s1 = "s\<lparr>fb := (fb s)\<lparr>fb_total_fallbacks := fb_total_fallbacks (fb s) + 1\<rparr>\<rparr>"
  show ?thesis
    using run_fallback_frame [OF assms, of ?s1]
    by (cases "run_fallback g ?s1"; cases "fst (run_fallback g ?s1)")
      (simp_all add: fallback_after_primary_def)
qed

lemma invokes_fallback_apply:
  "quiet_policy count pol \<Longrightarrow> invokes count m fn \<Longrightarrow> invokes count m (fallback_apply (Some fn) pol)"
  unfolding adds_at_most_def [of _ _ _ "fallback_apply (Some fn) pol"]
proof (intro allI impI)
  fix s assume pol: "quiet_policy count pol" and fn: "invokes count m fn" and s: "quiet_state count s"
  obtain r s1 where f: "fn s = (r, s1)" by fastforce
  with adds_at_mostD [OF fn, of s r s1] s
  have s1: "quiet_state count s1" "count (world s1) \<le> count (world s) + m" by simp_all
  obtain v g where p: "fallback_params pol = (v, g)" by fastforce
  with pol have "quiet_fn count g"
    by (cases pol) (auto simp: fallback_params_def quiet_policy_def quiet_fn_def)
  then have "hc (snd (fallback_after_primary g e s1)) = hc s1 \<and>
      count (world (snd (fallback_after_primary g e s1))) = count (world s1)" for e
    by (rule fallback_after_primary_frame)
  then show "quiet_state count (snd (fallback_apply (Some fn) pol s)) \<and>
      count (world (snd (fallback_apply (Some fn) pol s))) \<le> count (world s) + m"
    using f s s1 p by (cases r) (auto simp: fallback_apply_def quiet_state_def)
qed


text \<open>The two guards do not touch their callable; the wrapper calls it after them.\<close>

lemma run_check_frame:
  assumes "quiet_fn count g"
  shows "hc_default_check_fn (hc (snd (run_check g s))) = hc_default_check_fn (hc s) \<and>
    count (world (snd (run_check g s))) = count (world s)"
proof (cases g)
  case None
  then show ?thesis by (simp add: run_check_def)
next
  case (Some f)
  then show ?thesis
    using assms by (cases "f (world s)"; cases "fst (f (world s))")
      (auto simp: run_check_def quiet_fn_def dest: spec [of _ "world s"])
qed

lemma health_params_quiet:
  "quiet_policy count pol \<Longrightarrow> quiet_state count s \<Longrightarrow> quiet_fn count (snd (health_params pol s))"
  by (cases pol) (auto simp: health_params_def quiet_policy_def quiet_state_def quiet_fn_def split: option.splits)

lemma invokes_health_apply:
  assumes "quiet_policy count pol"
  shows "invokes count 0 (health_apply c pol)"
  unfolding adds_at_most_def
proof (intro allI impI)
  fix s assume s: "quiet_state count s"
  let ?s1 = "s\<lparr>hc := (hc s)\<lparr>hc_check_count := hc_check_count (hc s) + 1, hc_last_check_time := clock s\<rparr>\<rparr>"
  obtain i g where p: "health_params pol s = (i, g)" by fastforce
  with health_params_quiet [OF assms s] have "quiet_fn count g" by simp
  from run_check_frame [OF this, of ?s1] s p
  show "quiet_state count (snd (health_apply c pol s)) \<and>
      count (world (snd (health_apply c pol s))) \<le> count (world s) + 0"
    by (cases "run_check g ?s1") (auto simp: health_apply_def quiet_state_def)
qed

lemma rl_apply_hc [simp]: "hc (snd (rl_apply c pol s)) = hc s"
  by (auto simp: rl_apply_def Let_def split: prod.splits)

lemma invokes_rl_apply: "invokes count 0 (rl_apply c pol)"
  by (simp add: adds_at_most_def quiet_state_def)

lemma invokes_wrapper:
  assumes "invokes count n (mech (Some inner) pol)" "invokes count m inner"
  shows "invokes count (if name \<in> {''health_check'', ''rate_limiter''} then n + m else n)
           (make_mechanism_wrapper name mech pol inner)"
  unfolding adds_at_most_def
proof (intro allI impI)
  fix s assume s: "quiet_state count s"
  obtain r s1 where a: "mech (Some inner) pol s = (r, s1)" by fastforce
  then have s1: "quiet_state count s1" "count (world s1) \<le> count (world s) + n"
    using adds_at_mostD [OF assms(1) s] by auto
  have inner: "quiet_state count (snd (inner s2)) \<and> count (world (snd (inner s2))) \<le> count (world s1) + m"
    if "hc s2 = hc s1" "world s2 = world s1" for s2
    using assms(2) that s1 unfolding adds_at_most_def quiet_state_def by metis
  show "quiet_state count (snd (make_mechanism_wrapper name mech pol inner s)) \<and>
      count (world (snd (make_mechanism_wrapper name mech pol inner s)))
        \<le> count (world s) + (if name \<in> {''health_check'', ''rate_limiter''} then n + m else n)"
  proof (cases r)
    case (Inl e)
    with a s1 show ?thesis by (auto simp: make_mechanism_wrapper_def)
  next
    case (Inr res)
    let ?s2 = "s1\<lparr>results := AList.update name res (results s1)\<rparr>"
    from inner [of ?s2] a s1 Inr show ?thesis
      by (auto simp: make_mechanism_wrapper_def quiet_state_def Let_def)
  qed
qed

definition admissible_entry :: "('w \<Rightarrow> nat) \<Rightarrow> string \<times> 'w policy \<Rightarrow> bool" where
  "admissible_entry count p \<longleftrightarrow>
     fst p \<in> {''retry'', ''timeout'', ''circuit_breaker'', ''fallback'', ''health_check'', ''rate_limiter''} \<and>
     quiet_policy count (snd p)"

lemma wrap_entry_bound:
  assumes "admissible_entry count p" "invokes count m inner"
  shows "invokes count (amplification p * m) (wrap_entry p inner)"
proof -
  obtain name pol where p: "p = (name, pol)" by fastforce
  note w = invokes_wrapper [where name = name and inner = inner and m = m and pol = pol and count = count,
      OF _ assms(2)]
  have names: "name \<in> {''retry'', ''timeout'', ''circuit_breaker'', ''fallback'', ''health_check'', ''rate_limiter''}"
    and q: "quiet_policy count pol"
    using assms(1) p by (simp_all add: admissible_entry_def)
  from names show ?thesis
    using w [of _ retry_apply, OF invokes_retry_apply [OF assms(2)]]
      w [of _ timeout_apply, OF invokes_timeout_apply [OF assms(2)]]
      w [of _ cb_apply, OF invokes_cb_apply [OF assms(2)]]
      w [of _ fallback_apply, OF invokes_fallback_apply [OF q assms(2)]]
      w [of _ health_apply, OF invokes_health_apply [OF q]] w [of _ rl_apply, OF invokes_rl_apply]
    by (elim insertE emptyE)
      (simp_all add: p wrap_entry_def amplification_def registry_get_def mechanism_registry_def)
qed

interpretation pipeline_calls: call_amplifier "quiet_state count" "\<lambda>s. count (world s)" wrap_entry
    amplification "admissible_entry count" for count :: "'w \<Rightarrow> nat"
  by unfold_locales (rule wrap_entry_bound)

lemma registry_get_known:
  "name \<in> {''retry'', ''timeout'', ''circuit_breaker'', ''fallback'', ''health_check'', ''rate_limiter''} \<Longrightarrow>
   \<exists>mech. registry_get name = Inr mech"
  by (auto simp: registry_get_def mechanism_registry_def)

lemma wrap_pipeline_foldr:
  fixes f :: "'w call"
  shows "\<forall>p \<in> set ps. admissible_entry count p \<Longrightarrow> wrap_pipeline ps f = Inr (foldr wrap_entry ps f)"
proof (induction ps)
  case (Cons p ps)
  then obtain mech :: "'w mechanism" where "registry_get (fst p) = Inr mech"
    using registry_get_known [of "fst p"] by (auto simp only: admissible_entry_def list.set)
  with Cons show ?case by (cases p) (simp add: wrap_entry_def)
qed simp

text \<open>
  C4. Bounded amplification. For every pipeline of registered mechanisms, in any order and number, one
  run of \<open>execute_pipeline\<close> invokes its callable at most as often as the product of
  \<open>max_retries + 1\<close> over the retry entries of the pipeline: no other mechanism, and no
  interplay of them, repeats the call.
\<close>

theorem pipeline_call_bound:
  assumes "\<forall>p \<in> set pl. admissible_entry count p"
    and "\<And>s. hc (snd (f s)) = hc s \<and> count (world (snd (f s))) \<le> count (world s) + 1"
    and "quiet_state count s"
  shows "\<exists>r s'. execute_pipeline e (Some f) (Some pl) s = (Inr r, s') \<and>
     count (world s') \<le> count (world s) + prod_list (map amplification pl)"
proof -
  have "invokes count 1 f" using assms(2) by (simp add: adds_at_most_def quiet_state_def)
  from pipeline_calls.nested_bound [OF assms(1) this]
  have b: "invokes count (prod_list (map amplification pl)) (foldr wrap_entry pl f)" by simp
  obtain r s' where run: "foldr wrap_entry pl f (s\<lparr>results := []\<rparr>) = (r, s')" by fastforce
  have "count (world s') \<le> count (world s) + prod_list (map amplification pl)"
    using adds_at_mostD [OF b _ run] assms(3) by (simp add: quiet_state_def)
  then show ?thesis
    using wrap_pipeline_foldr [OF assms(1)] run by (simp add: execute_pipeline_def)
qed

definition counting_failure :: "nat call" where
  "counting_failure s = (Inl (Exn ''RuntimeError'' ''down''), s\<lparr>world := world s + 1\<rparr>)"

theorem pipeline_call_bound_witness:
  "\<exists>r s'. execute_pipeline engine_init (Some counting_failure)
       (Some [(''retry'', RetryPolicy True 1 100), (''timeout'', TimeoutPolicy True 5000), (''retry'', RetryPolicy True 2 100)])
       (rstate_init 100 0) = (Inr r, s') \<and> world s' \<le> 6"
  using pipeline_call_bound [of "[(''retry'', RetryPolicy True 1 100), (''timeout'', TimeoutPolicy True 5000),
      (''retry'', RetryPolicy True 2 100)]" "\<lambda>n. n" counting_failure "rstate_init 100 0" engine_init]
  by (simp add: admissible_entry_def quiet_policy_def quiet_state_def quiet_fn_def counting_failure_def
      amplification_def retry_params_def init_defs)

subsection \<open>The default pipeline on a provider that is down\<close>

text \<open>
  A provider that is down: every call raises \<open>e\<close> after \<open>d\<close> seconds; \<open>step\<close> is what a
  call does to the world.
\<close>

definition steady_failure :: "exn \<Rightarrow> ('w \<Rightarrow> 'w) \<Rightarrow> rat \<Rightarrow> 'w call" where
  "steady_failure e step d s = (Inl e, s\<lparr>world := step (world s), clock := clock s + d\<rparr>)"

definition fb_entry :: "'w call \<Rightarrow> 'w call" where
  "fb_entry = wrap_entry (''fallback'', FallbackPolicy True None None)"

definition cb_entry :: "'w call \<Rightarrow> 'w call" where
  "cb_entry = wrap_entry (''circuit_breaker'', CircuitBreakerPolicy True 3 1000 1 CLOSED)"

lemma fb_entry_failure:
  "\<exists>e' s'. fb_entry (steady_failure e step d) s = (Inl e', s') \<and> world s' = step (world s) \<and>
     clock s' = clock s + d \<and> cb s' = cb s"
  by (simp add: fb_entry_def wrap_entry_def registry_get_def mechanism_registry_def
      make_mechanism_wrapper_def fallback_apply_def fallback_params_def steady_failure_def default_result_def)

text \<open>The breaker in front of it: an admitted call fails and is counted, a rejected one is not made.\<close>

lemma cb_entry_admitted:
  assumes "cb_circuit (cb s) = CLOSED"
  shows "\<exists>e' s'. cb_entry (fb_entry (steady_failure e step d)) s = (Inl e', s') \<and>
     world s' = step (world s) \<and> clock s' = clock s + d \<and>
     cb_failure_count (cb s') = cb_failure_count (cb s) + 1 \<and>
     cb_last_failure_time (cb s') = Some (clock s') \<and>
     cb_circuit (cb s') = (if cb_failure_count (cb s) + 1 \<ge> 3 then OPEN else CLOSED)"
  using fb_entry_failure [of e step d s] assms
  by (auto simp: cb_entry_def wrap_entry_def registry_get_def mechanism_registry_def
      make_mechanism_wrapper_def cb_defs)

lemma cb_entry_rejected:
  assumes "cb_circuit (cb s) = OPEN" "cb_last_failure_time (cb s) = Some t" "clock s - t < 1"
  shows "\<exists>e' s'. cb_entry inner s = (Inl e', s') \<and> world s' = world s \<and> clock s' = clock s"
  using assms
  by (simp add: cb_entry_def wrap_entry_def registry_get_def mechanism_registry_def
      make_mechanism_wrapper_def cb_defs)

lemma retry_loop_fail_step:
  assumes "fn s = (Inl e, s1)" "int a < m" "0 \<le> b"
  shows "retry_loop fn m b start a (Suc left) le s =
    retry_loop fn m b start (a + 1) left (Some (exn_msg e))
      (s1\<lparr>rt := (rt s1)\<lparr>rt_last_error := Some (exn_msg e)\<rparr>, clock := clock s1 + of_int (b * 2 ^ a) / 1000\<rparr>)"
  using assms by (simp add: time_sleep_nonneg)

lemma retry_loop_fail_last:
  assumes "fn s = (Inl e, s1)" "\<not> int a < m"
  shows "\<exists>r s'. retry_loop fn m b start a (Suc 0) le s = (Inr r, s') \<and> \<not> success r \<and> rerror r = Some (exn_msg e) \<and>
    world s' = world s1"
  using assms by (simp add: retry_exhausted_def default_result_def)

lemma default_retry_three_calls:
  assumes "cb s = cb_init"
  shows "\<exists>r s'. retry_loop (cb_entry (fb_entry (steady_failure e step d))) 3 100 start 0 4 None s = (Inr r, s') \<and>
    \<not> success r \<and> world s' = step (step (step (world s)))"
proof -
  let ?fn = "cb_entry (fb_entry (steady_failure e step d))"
  have cb0: "cb_circuit (cb s) = CLOSED" "cb_failure_count (cb s) = 0"
    using assms by (simp_all add: cb_init_def)
  obtain e1 s1 where f1: "?fn s = (Inl e1, s1)" "world s1 = step (world s)"
      "cb_failure_count (cb s1) = 1" "cb_circuit (cb s1) = CLOSED"
    using cb_entry_admitted [OF cb0(1), of e step d] cb0 by auto
  define t1 where "t1 = s1\<lparr>rt := (rt s1)\<lparr>rt_last_error := Some (exn_msg e1)\<rparr>, clock := clock s1 + of_int (100 * 2 ^ 0) / 1000\<rparr>"
  obtain e2 s2 where f2: "?fn t1 = (Inl e2, s2)" "world s2 = step (world t1)"
      "cb_failure_count (cb s2) = 2" "cb_circuit (cb s2) = CLOSED"
    using cb_entry_admitted [of t1 e step d] f1 by (auto simp: t1_def)
  define t2 where "t2 = s2\<lparr>rt := (rt s2)\<lparr>rt_last_error := Some (exn_msg e2)\<rparr>, clock := clock s2 + of_int (100 * 2 ^ 1) / 1000\<rparr>"
  obtain e3 s3 where f3: "?fn t2 = (Inl e3, s3)" "world s3 = step (world t2)"
      "cb_last_failure_time (cb s3) = Some (clock s3)" "cb_circuit (cb s3) = OPEN"
    using cb_entry_admitted [of t2 e step d] f2 by (auto simp: t2_def)
  define t3 where "t3 = s3\<lparr>rt := (rt s3)\<lparr>rt_last_error := Some (exn_msg e3)\<rparr>, clock := clock s3 + of_int (100 * 2 ^ 2) / 1000\<rparr>"
  obtain e4 s4 where f4: "?fn t3 = (Inl e4, s4)" "world s4 = world t3"
    using cb_entry_rejected [of t3 "clock s3" "fb_entry (steady_failure e step d)"] f3 by (auto simp: t3_def)
  note step = retry_loop_fail_step [where fn = ?fn and m = 3 and b = 100 and start = start]
    and last = retry_loop_fail_last [where fn = ?fn and m = 3 and b = 100 and start = start]
  have "retry_loop ?fn 3 100 start 0 4 None s = retry_loop ?fn 3 100 start 1 3 (Some (exn_msg e1)) t1"
    using step [OF f1(1), of 0 3 None] by (simp add: t1_def eval_nat_numeral del: retry_loop.simps)
  also have "\<dots> = retry_loop ?fn 3 100 start 2 2 (Some (exn_msg e2)) t2"
    using step [OF f2(1), of 1 2 "Some (exn_msg e1)"] by (simp add: t2_def eval_nat_numeral del: retry_loop.simps)
  also have "\<dots> = retry_loop ?fn 3 100 start 3 1 (Some (exn_msg e3)) t3"
    using step [OF f3(1), of 2 1 "Some (exn_msg e2)"] by (simp add: t3_def eval_nat_numeral del: retry_loop.simps)
  finally show ?thesis
    using last [OF f4(1), of 3 "Some (exn_msg e3)"] f1(2) f2(2) f3(2) f4(2)
    by (auto simp: t1_def t2_def t3_def simp del: retry_loop.simps)
qed

lemmas entry_defs = wrap_entry_def registry_get_def mechanism_registry_def make_mechanism_wrapper_def

lemma retry_entry_failure:
  assumes "cb s = cb_init"
  shows "\<exists>e' s'. wrap_entry (''retry'', RetryPolicy True 3 100) (cb_entry (fb_entry (steady_failure e step d))) s
    = (Inl e', s') \<and> world s' = step (step (step (world s)))"
  using default_retry_three_calls [OF assms, of e step d "clock s"]
  by (auto simp: entry_defs retry_apply_def retry_params_def simp del: retry_loop.simps)

lemma timeout_entry_failure:
  assumes "inner (s\<lparr>clock := max (clock s) (to_pool_free_at (tmo s))\<rparr>) = (Inl e, s1)"
  shows "\<exists>e' s'. wrap_entry (''timeout'', pol) inner s = (Inl e', s') \<and> world s' = world s1"
  using assms by (simp add: entry_defs timeout_apply_def timed_out_def default_result_def Let_def)

lemma rate_limiter_entry_admits:
  assumes "rl s = rl_init"
  shows "\<exists>s'. wrap_entry (''rate_limiter'', RateLimiterPolicy True 100 60000) inner s = inner s' \<and>
    world s' = world s \<and> cb s' = cb s \<and> tmo s' = tmo s \<and> clock s' = clock s"
  using assms by (simp add: entry_defs rl_defs rl_init_def) (rule exI, rule conjI, rule refl, simp)

lemma health_entry_admits:
  assumes "hc s = hc_init"
  shows "\<exists>s'. wrap_entry (''health_check'', HealthCheckPolicy True 30000 None) inner s = inner s' \<and>
    world s' = world s \<and> cb s' = cb s \<and> rl s' = rl s"
  using assms by (simp add: entry_defs health_apply_def health_params_def run_check_def health_status_def
      default_result_def hc_init_def)
    (rule exI, rule conjI, rule refl, simp)

text \<open>
  The default pipeline on a provider that is down. From the initial state the callable is
  invoked exactly three times, however long a call takes: the breaker (threshold 3) opens
  under the fourth attempt of the retry, and the pipeline reports failure.
\<close>

theorem default_pipeline_stops_after_three:
  fixes step :: "'w \<Rightarrow> 'w"
  shows "\<exists>r s'. execute_pipeline engine_init (Some (steady_failure e step d)) None (rstate_init now w) = (Inr r, s') \<and>
     \<not> p_success r \<and> p_order r = map fst (DEFAULT_PIPELINE :: 'w pipeline) \<and>
     world s' = step (step (step w))"
proof -
  let ?retry = "wrap_entry (''retry'', RetryPolicy True 3 100) (cb_entry (fb_entry (steady_failure e step d)))"
  let ?timeout = "wrap_entry (''timeout'', TimeoutPolicy True 5000) ?retry"
  let ?limiter = "wrap_entry (''rate_limiter'', RateLimiterPolicy True 100 60000) ?timeout"
  let ?health = "wrap_entry (''health_check'', HealthCheckPolicy True 30000 None) ?limiter"
  let ?s0 = "(rstate_init now w)\<lparr>results := []\<rparr>"
  have wrapped: "wrap_pipeline DEFAULT_PIPELINE (steady_failure e step d) = Inr ?health"
    by (subst wrap_pipeline_foldr [where count = "\<lambda>_. 0"])
      (simp_all add: DEFAULT_PIPELINE_def admissible_entry_def quiet_policy_def quiet_fn_def
        cb_entry_def fb_entry_def)
  obtain s1 where h: "?health ?s0 = ?limiter s1" "world s1 = w" "cb s1 = cb_init" "rl s1 = rl_init"
    using health_entry_admits [of ?s0 ?limiter] by (auto simp: rstate_init_def)
  obtain s2 where l: "?limiter s1 = ?timeout s2" "world s2 = w" "cb s2 = cb_init"
    using rate_limiter_entry_admits [of s1 ?timeout] h by auto
  let ?s3 = "s2\<lparr>clock := max (clock s2) (to_pool_free_at (tmo s2))\<rparr>"
  obtain e4 s4 where rt: "?retry ?s3 = (Inl e4, s4)" "world s4 = step (step (step w))"
    using retry_entry_failure [of ?s3 e step d] l by auto
  obtain e5 s5 where "?timeout s2 = (Inl e5, s5)" "world s5 = step (step (step w))"
    using timeout_entry_failure [of ?retry s2 e4 s4 "TimeoutPolicy True 5000"] rt by auto
  with h(1) l(1) wrapped show ?thesis
    by (simp add: execute_pipeline_def get_pipeline_def engine_init_def)
qed


subsection \<open>A disabled fallback\<close>

lemma disabled_fallback_wrapper:
  assumes "\<not> enabled pol"
  shows "make_mechanism_wrapper ''fallback'' fallback_apply pol f =
    (\<lambda>s. (Inr (), s\<lparr>results := AList.update ''fallback'' ((default_result FALLBACK True)\<lparr>metadata :=
       [(''fallback_used'', MBool False), (''reason'', MStr ''fallback disabled'')]\<rparr>) (results s)\<rparr>))"
  using assms by (auto simp: make_mechanism_wrapper_def fallback_apply_def default_result_def)

lemma wrap_pipeline_append:
  "wrap_pipeline (pl @ [x]) f = (case wrap_pipeline [x] f of Inl e \<Rightarrow> Inl e | Inr g \<Rightarrow> wrap_pipeline pl g)"
  by (induction pl) (auto split: sum.splits)

lemma wrap_disabled_fallback:
  "\<not> enabled pol \<Longrightarrow> wrap_pipeline [(''fallback'', pol)] f =
     Inr (\<lambda>s. (Inr (), s\<lparr>results := AList.update ''fallback'' ((default_result FALLBACK True)\<lparr>metadata :=
       [(''fallback_used'', MBool False), (''reason'', MStr ''fallback disabled'')]\<rparr>) (results s)\<rparr>))"
  by (simp add: registry_get_def mechanism_registry_def disabled_fallback_wrapper)

text \<open>
  A disabled fallback swallows the call. When the innermost entry of a pipeline is a fallback
  with \<open>enabled = False\<close>, the run does not depend on the callable at all, so it is never
  invoked; with that entry alone, the run is reported as a success.
\<close>

theorem disabled_fallback_skips_call:
  assumes "\<not> enabled pol"
  shows "execute_pipeline e (Some f) (Some (pl @ [(''fallback'', pol)])) s =
         execute_pipeline e (Some g) (Some (pl @ [(''fallback'', pol)])) s \<and>
     (\<exists>r s'. execute_pipeline e (Some f) (Some [(''fallback'', pol)]) s = (Inr r, s') \<and>
        p_success r \<and> world s' = world s)"
proof
  show "execute_pipeline e (Some f) (Some (pl @ [(''fallback'', pol)])) s =
      execute_pipeline e (Some g) (Some (pl @ [(''fallback'', pol)])) s"
    unfolding execute_pipeline_def
    by (simp only: wrap_pipeline_append wrap_disabled_fallback [OF assms] option.case Let_def)
  show "\<exists>r s'. execute_pipeline e (Some f) (Some [(''fallback'', pol)]) s = (Inr r, s') \<and>
      p_success r \<and> world s' = world s"
    by (simp add: execute_pipeline_def wrap_disabled_fallback [OF assms] del: wrap_pipeline.simps)
qed

theorem disabled_fallback_skips_call_witness:
  "execute_pipeline engine_init (Some counting_failure)
      (Some ([(''retry'', RetryPolicy True 3 100)] @ [(''fallback'', FallbackPolicy False (Some ''cached'') None)]))
      (rstate_init 100 0) =
   execute_pipeline engine_init (Some third_time_lucky)
      (Some ([(''retry'', RetryPolicy True 3 100)] @ [(''fallback'', FallbackPolicy False (Some ''cached'') None)]))
      (rstate_init 100 0) \<and>
   (\<exists>r s'. execute_pipeline engine_init (Some counting_failure)
      (Some [(''fallback'', FallbackPolicy False (Some ''cached'') None)]) (rstate_init 100 0) = (Inr r, s') \<and>
     p_success r \<and> world s' = world (rstate_init 100 (0::nat)))"
  by (rule disabled_fallback_skips_call) simp

end
