(* ===== verification/Task_Repository.thy ===== *)
theory Task_Repository
  imports Prelude Complex_Main
begin

text \<open>
  The task store: \<^verbatim>\<open>tasks/models.py\<close>, \<^verbatim>\<open>models/task.py\<close>,
  \<^verbatim>\<open>tasks/queue.py\<close> (the in-memory queue), \<^verbatim>\<open>tasks/repository.py\<close> (the
  database-backed store) and \<^verbatim>\<open>tasks/retry.py\<close>.

  The table \<open>tasks\<close> is a list of rows in insertion order; \<open>public_id\<close> is its unique
  key. Each operation takes the current time as an argument and runs as one transaction;
  \<open>claim_task\<close> also takes the ids of the rows that other transactions hold locked, which
  \<open>FOR UPDATE SKIP LOCKED\<close> passes over. Rows with equal \<open>created_at\<close> come in insertion
  order, which SQL leaves open. Payloads and results are values of type \<open>'p\<close>.
\<close>

subsection \<open>Rows\<close>

datatype TaskStatus = PENDING | RUNNING | SUCCESS | FAILED

datatype TaskType = PROCESS_DOCUMENT | REFRESH_KNOWLEDGE | AGENT_TASK

fun task_type_value :: "TaskType \<Rightarrow> string" where
  "task_type_value PROCESS_DOCUMENT = ''process_document''"
| "task_type_value REFRESH_KNOWLEDGE = ''refresh_knowledge''"
| "task_type_value AGENT_TASK = ''agent_task''"

definition task_type_of :: "string \<Rightarrow> TaskType option" where
  "task_type_of v = find (\<lambda>t. task_type_value t = v) [PROCESS_DOCUMENT, REFRESH_KNOWLEDGE, AGENT_TASK]"

record 'p task =
  public_id :: string
  task_type :: string
  status :: TaskStatus
  tenant_id :: int
  user_id :: int
  progress :: int
  error_message :: "string option"
  payload :: 'p
  result :: "'p option"
  created_at :: rat
  updated_at :: rat
  started_at :: "rat option"
  completed_at :: "rat option"
  worker_id :: "string option"
  locked_at :: "rat option"
  task_retry_count :: int

type_synonym 'p table = "'p task list"

definition new_task :: "string \<Rightarrow> TaskType \<Rightarrow> 'p \<Rightarrow> int \<Rightarrow> int \<Rightarrow> rat \<Rightarrow> 'p task" where
  "new_task pid ty pay tn u now =
     \<lparr>public_id = pid, task_type = task_type_value ty, status = PENDING, tenant_id = tn, user_id = u,
      progress = 0, error_message = None, payload = pay, result = None, created_at = now,
      updated_at = now, started_at = None, completed_at = None, worker_id = None, locked_at = None,
      task_retry_count = 0\<rparr>"

subsection \<open>Keyed tables\<close>

text \<open>
  What the clients of a table rely on: a lookup after a change of one row sees the change
  there and nothing elsewhere.
\<close>

locale keyed_table =
  fixes lookup :: "'db \<Rightarrow> 'k \<Rightarrow> 'r option" and modify :: "'k \<Rightarrow> ('r \<Rightarrow> 'r) \<Rightarrow> 'db \<Rightarrow> 'db"
    and key :: "'r \<Rightarrow> 'k"
  assumes lookup_modify:
    "(\<And>r. key (f r) = key r) \<Longrightarrow>
     lookup (modify k f db) j = (if j = k then map_option f (lookup db k) else lookup db j)"
    and lookup_key: "lookup db k = Some r \<Longrightarrow> key r = k"
begin

lemma lookup_modify_same:
  "(\<And>r. key (f r) = key r) \<Longrightarrow> lookup db k = Some r \<Longrightarrow> lookup (modify k f db) k = Some (f r)"
  by (simp add: lookup_modify)

lemma lookup_modify_other:
  "(\<And>r. key (f r) = key r) \<Longrightarrow> j \<noteq> k \<Longrightarrow> lookup (modify k f db) j = lookup db j"
  by (simp add: lookup_modify)

lemma lookup_modify_None:
  "(\<And>r. key (f r) = key r) \<Longrightarrow> (lookup (modify k f db) j = None) = (lookup db j = None)"
  by (simp add: lookup_modify)

lemma modify_compose:
  assumes "\<And>r. key (f r) = key r" "\<And>r. key (g r) = key r"
  shows "lookup (modify k g (modify k f db)) j = lookup (modify k (g \<circ> f) db) j"
  using assms by (simp add: lookup_modify option.map_comp)

end

text \<open>\<open>query.filter(key == k).first()\<close> followed by assignments to its fields.\<close>

fun modify_first :: "('r \<Rightarrow> bool) \<Rightarrow> ('r \<Rightarrow> 'r) \<Rightarrow> 'r list \<Rightarrow> 'r list" where
  "modify_first P f [] = []"
| "modify_first P f (r # rs) = (if P r then f r # rs else r # modify_first P f rs)"

lemma find_modify_first:
  assumes "\<And>r. key (f r) = key r"
  shows "find (\<lambda>r. key r = j) (modify_first (\<lambda>r. key r = k) f db) =
    (if j = k then map_option f (find (\<lambda>r. key r = k) db) else find (\<lambda>r. key r = j) db)"
  using assms by (induction db) auto

lemma map_key_modify_first:
  "(\<And>r. key (f r) = key r) \<Longrightarrow> map key (modify_first P f db) = map key db"
  by (induction db) auto

lemma length_modify_first [simp]: "length (modify_first P f db) = length db"
  by (induction db) auto

definition get_task :: "'p table \<Rightarrow> string \<Rightarrow> 'p task option" where
  "get_task db pid = find (\<lambda>t. public_id t = pid) db"

definition modify_task :: "string \<Rightarrow> ('p task \<Rightarrow> 'p task) \<Rightarrow> 'p table \<Rightarrow> 'p table" where
  "modify_task pid f db = modify_first (\<lambda>t. public_id t = pid) f db"

interpretation tasks: keyed_table get_task modify_task public_id
proof
  show "get_task (modify_task k f db) j = (if j = k then map_option f (get_task db k) else get_task db j)"
    if "\<And>r. public_id (f r) = public_id r" for f :: "'p task \<Rightarrow> 'p task" and k j db
    using find_modify_first [of public_id f j k db] that by (simp add: get_task_def modify_task_def)
  show "public_id r = k" if "get_task db k = Some r" for db k and r :: "'p task"
    using that by (simp add: get_task_def find_Some_iff) blast
qed

subsection \<open>The repository\<close>

definition create_task :: "string \<Rightarrow> TaskType \<Rightarrow> 'p \<Rightarrow> int option \<Rightarrow> int \<Rightarrow> rat \<Rightarrow> 'p table
    \<Rightarrow> (exn + 'p task) \<times> 'p table" where
  "create_task pid ty pay tn u now db = (case tn of
      None \<Rightarrow> (Inl (Exn ''ValueError'' ''tenant_id is required to create a task''), db)
    | Some i \<Rightarrow>
        if get_task db pid \<noteq> None
        then (Inl (Exn ''IntegrityError'' ''UNIQUE constraint failed: tasks.public_id''), db)
        else let t = new_task pid ty pay i u now in (Inr t, db @ [t]))"

definition list_tasks :: "int option \<Rightarrow> TaskStatus option \<Rightarrow> nat \<Rightarrow> nat \<Rightarrow> 'p table \<Rightarrow> 'p task list \<times> nat" where
  "list_tasks tn st page per_page db =
     (let q = filter (\<lambda>t. (tn = None \<or> tn = Some (tenant_id t)) \<and> (st = None \<or> st = Some (status t))) db
      in (take per_page (drop ((page - 1) * per_page) (sort_key (\<lambda>t. - created_at t) q)), length q))"

fun first_oldest :: "'p task list \<Rightarrow> 'p task option" where
  "first_oldest [] = None"
| "first_oldest (t # ts) = (case first_oldest ts of
      None \<Rightarrow> Some t
    | Some u \<Rightarrow> if created_at t \<le> created_at u then Some t else Some u)"

definition claimable :: "string list \<Rightarrow> string option \<Rightarrow> 'p task \<Rightarrow> bool" where
  "claimable locked pid t \<longleftrightarrow>
     status t = PENDING \<and> (pid = None \<or> pid = Some (public_id t)) \<and> public_id t \<notin> set locked"

definition start_task :: "rat \<Rightarrow> 'p task \<Rightarrow> 'p task" where
  "start_task now t = t\<lparr>status := RUNNING, started_at := Some now, updated_at := now\<rparr>"

definition claim_task :: "string list \<Rightarrow> string option \<Rightarrow> rat \<Rightarrow> 'p table \<Rightarrow> 'p task option \<times> 'p table" where
  "claim_task locked pid now db = (case first_oldest (filter (claimable locked pid) db) of
      None \<Rightarrow> (None, db)
    | Some t \<Rightarrow> (let db' = modify_task (public_id t) (start_task now) db
                in (get_task db' (public_id t), db')))"

record 'p task_update =
  u_status :: "TaskStatus option"
  u_progress :: "int option"
  u_error :: "string option"
  u_result :: "'p option"

definition no_update :: "'p task_update" where
  "no_update = \<lparr>u_status = None, u_progress = None, u_error = None, u_result = None\<rparr>"

definition apply_update :: "rat \<Rightarrow> 'p task_update \<Rightarrow> 'p task \<Rightarrow> 'p task" where
  "apply_update now u t =
     (let t1 = (case u_status u of None \<Rightarrow> t | Some s \<Rightarrow>
                  if s = SUCCESS \<or> s = FAILED then t\<lparr>status := s, completed_at := Some now\<rparr>
                  else t\<lparr>status := s\<rparr>);
          t2 = (case u_progress u of None \<Rightarrow> t1 | Some p \<Rightarrow> t1\<lparr>progress := p\<rparr>);
          t3 = (case u_error u of None \<Rightarrow> t2 | Some e \<Rightarrow> t2\<lparr>error_message := Some e\<rparr>);
          t4 = (case u_result u of None \<Rightarrow> t3 | Some r \<Rightarrow> t3\<lparr>result := Some r\<rparr>)
      in t4\<lparr>updated_at := now\<rparr>)"

definition update_task :: "string \<Rightarrow> 'p task_update \<Rightarrow> rat \<Rightarrow> 'p table \<Rightarrow> 'p task option \<times> 'p table" where
  "update_task pid u now db = (case get_task db pid of
      None \<Rightarrow> (None, db)
    | Some _ \<Rightarrow> (let db' = modify_task pid (apply_update now u) db in (get_task db' pid, db')))"

definition STALE_TASK_TIMEOUT_MINUTES :: int where
  "STALE_TASK_TIMEOUT_MINUTES = 30"

definition is_stale :: "rat \<Rightarrow> 'p task \<Rightarrow> bool" where
  "is_stale threshold t \<longleftrightarrow>
     status t = RUNNING \<and> (case started_at t of None \<Rightarrow> False | Some s \<Rightarrow> s < threshold)"

definition requeue :: "rat \<Rightarrow> 'p task \<Rightarrow> 'p task" where
  "requeue now t = t\<lparr>status := PENDING, started_at := None, updated_at := now\<rparr>"

definition recover_stale_tasks :: "rat option \<Rightarrow> rat \<Rightarrow> 'p table \<Rightarrow> (exn + nat) \<times> 'p table" where
  "recover_stale_tasks after now db =
     (let secs = (case after of None \<Rightarrow> of_int (STALE_TASK_TIMEOUT_MINUTES * 60) | Some x \<Rightarrow> x) in
      if secs \<le> 0 then (Inl (Exn ''ValueError'' ''stale_after_seconds must be greater than zero''), db)
      else (Inr (length (filter (is_stale (now - secs)) db)),
            map (\<lambda>t. if is_stale (now - secs) t then requeue now t else t) db))"

fun remove_first :: "('r \<Rightarrow> bool) \<Rightarrow> 'r list \<Rightarrow> 'r list" where
  "remove_first P [] = []"
| "remove_first P (r # rs) = (if P r then rs else r # remove_first P rs)"

definition delete_task :: "string \<Rightarrow> 'p table \<Rightarrow> bool \<times> 'p table" where
  "delete_task pid db = (case get_task db pid of
      None \<Rightarrow> (False, db)
    | Some _ \<Rightarrow> (True, remove_first (\<lambda>t. public_id t = pid) db))"

subsection \<open>Retry decisions\<close>

definition should_retry :: "int \<Rightarrow> int \<Rightarrow> bool" where
  "should_retry retries max_retry \<longleftrightarrow> retries < max_retry"

definition get_retry_count :: "'p task \<Rightarrow> int" where
  "get_retry_count t = task_retry_count t"


subsection \<open>The in-memory queue\<close>

text \<open>
  \<open>TaskQueue\<close>: a dictionary of tasks and a list of ids. \<open>dequeue\<close> waits for an id
  and gives \<open>None\<close> when the wait times out, or when the id is unknown.
\<close>

record 'p task_queue =
  q_tasks :: "(string \<times> 'p task) list"
  q_queue :: "string list"

definition queue_create_task :: "string \<Rightarrow> TaskType \<Rightarrow> 'p \<Rightarrow> int option \<Rightarrow> int \<Rightarrow> rat \<Rightarrow> 'p task_queue
    \<Rightarrow> (exn + 'p task) \<times> 'p task_queue" where
  "queue_create_task pid ty pay tn u now q = (case tn of
      None \<Rightarrow> (Inl (Exn ''ValueError'' ''tenant_id is required to create a task''), q)
    | Some i \<Rightarrow> (let t = new_task pid ty pay i u now
                in (Inr t, q\<lparr>q_tasks := AList.update pid t (q_tasks q)\<rparr>)))"

definition enqueue :: "'p task \<Rightarrow> 'p task_queue \<Rightarrow> 'p task_queue" where
  "enqueue t q = q\<lparr>q_queue := q_queue q @ [public_id t]\<rparr>"

definition dequeue :: "'p task_queue \<Rightarrow> 'p task option \<times> 'p task_queue" where
  "dequeue q = (case q_queue q of
      [] \<Rightarrow> (None, q)
    | pid # rest \<Rightarrow> (map_of (q_tasks q) pid, q\<lparr>q_queue := rest\<rparr>))"

definition queue_get_task :: "string \<Rightarrow> 'p task_queue \<Rightarrow> 'p task option" where
  "queue_get_task pid q = map_of (q_tasks q) pid"

definition queue_apply_update :: "rat \<Rightarrow> 'p task_update \<Rightarrow> 'p task \<Rightarrow> 'p task" where
  "queue_apply_update now u t =
     (let t1 = (case u_status u of None \<Rightarrow> t | Some s \<Rightarrow> t\<lparr>status := s\<rparr>);
          t2 = (case u_progress u of None \<Rightarrow> t1 | Some p \<Rightarrow> t1\<lparr>progress := p\<rparr>);
          t3 = (case u_error u of None \<Rightarrow> t2 | Some e \<Rightarrow> t2\<lparr>error_message := Some e\<rparr>);
          t4 = (case u_result u of None \<Rightarrow> t3 | Some r \<Rightarrow> t3\<lparr>result := Some r\<rparr>)
      in t4\<lparr>updated_at := now\<rparr>)"

definition queue_update_task :: "string \<Rightarrow> 'p task_update \<Rightarrow> rat \<Rightarrow> 'p task_queue
    \<Rightarrow> 'p task option \<times> 'p task_queue" where
  "queue_update_task pid u now q = (case map_of (q_tasks q) pid of
      None \<Rightarrow> (None, q)
    | Some t \<Rightarrow> (let t' = queue_apply_update now u t
                in (Some t', q\<lparr>q_tasks := AList.update pid t' (q_tasks q)\<rparr>)))"

definition queue_list_tasks :: "int option \<Rightarrow> 'p task_queue \<Rightarrow> 'p task list" where
  "queue_list_tasks tn q =
     sort_key (\<lambda>t. - created_at t)
       (filter (\<lambda>t. tn = None \<or> tn = Some (tenant_id t)) (map snd (q_tasks q)))"

subsection \<open>Claims\<close>

lemma apply_update_id [simp]:
  "public_id (apply_update now u t) = public_id t" "public_id (start_task now t) = public_id t"
  "public_id (requeue now t) = public_id t"
  by (simp_all add: apply_update_def start_task_def requeue_def Let_def split: option.splits)

lemma apply_update_frame [simp]:
  "task_type (apply_update now u t) = task_type t" "tenant_id (apply_update now u t) = tenant_id t"
  "task_retry_count (apply_update now u t) = task_retry_count t"
  by (simp_all add: apply_update_def Let_def split: option.splits)

lemma status_apply_update [simp]:
  "status (apply_update now u t) = (case u_status u of None \<Rightarrow> status t | Some s \<Rightarrow> s)"
  by (simp add: apply_update_def Let_def split: option.splits)

lemma first_oldest_None: "first_oldest ts = None \<longleftrightarrow> ts = []"
  by (cases ts) (auto split: option.splits)

lemma first_oldest_Some:
  "first_oldest ts = Some t \<Longrightarrow> t \<in> set ts \<and> (\<forall>u \<in> set ts. created_at t \<le> created_at u)"
proof (induction ts arbitrary: t)
  case (Cons a ts)
  then show ?case
    by (cases "first_oldest ts") (fastforce simp: first_oldest_None split: if_splits)+
qed simp

definition wf_table :: "'p table \<Rightarrow> bool" where
  "wf_table db \<longleftrightarrow> distinct (map public_id db)"

lemma get_task_mem: "wf_table db \<Longrightarrow> t \<in> set db \<Longrightarrow> get_task db (public_id t) = Some t"
  unfolding get_task_def wf_table_def by (induction db) (auto simp: image_iff)

lemma get_task_in: "get_task db pid = Some t \<Longrightarrow> t \<in> set db \<and> public_id t = pid"
  by (auto simp: get_task_def find_Some_iff)

lemma wf_modify_task: "(\<And>t. public_id (f t) = public_id t) \<Longrightarrow> wf_table (modify_task pid f db) = wf_table db"
  by (simp add: wf_table_def modify_task_def map_key_modify_first)

lemma claim_task_Some:
  assumes "wf_table db" "claim_task locked pid now db = (Some t', db')"
  shows "\<exists>t \<in> set db. claimable locked pid t \<and> t' = start_task now t \<and>
     (\<forall>u \<in> set db. claimable locked pid u \<longrightarrow> created_at t \<le> created_at u) \<and>
     db' = modify_task (public_id t) (start_task now) db"
proof -
  obtain t where f: "first_oldest (filter (claimable locked pid) db) = Some t"
    using assms(2) by (auto simp: claim_task_def split: option.splits)
  then have t: "t \<in> set db" "claimable locked pid t"
    "\<forall>u \<in> set db. claimable locked pid u \<longrightarrow> created_at t \<le> created_at u"
    using first_oldest_Some [OF f] by auto
  have "t' = start_task now t" and "db' = modify_task (public_id t) (start_task now) db"
    using assms f get_task_mem [OF assms(1) t(1)] tasks.lookup_modify_same [of "start_task now" db "public_id t" t]
    by (auto simp: claim_task_def)
  with t show ?thesis by blast
qed

lemma claim_task_None:
  "claim_task locked pid now db = (None, db') \<Longrightarrow> wf_table db \<Longrightarrow> db' = db \<and> (\<forall>t \<in> set db. \<not> claimable locked pid t)"
  using tasks.lookup_modify_same [of "start_task now" db] get_task_mem [of db]
  by (auto simp: claim_task_def first_oldest_None filter_empty_conv Let_def split: option.splits
      dest!: first_oldest_Some)


text \<open>
  A sequence of claims by any number of workers, each with its own locked rows, wanted id
  and time; \<open>claim_run\<close> gives the ids handed out, in order.
\<close>

type_synonym claim_req = "string list \<times> string option \<times> rat"

fun claim_run :: "claim_req list \<Rightarrow> 'p table \<Rightarrow> string list \<times> 'p table" where
  "claim_run [] db = ([], db)"
| "claim_run ((locked, pid, now) # cs) db = (case claim_task locked pid now db of
      (None, db1) \<Rightarrow> claim_run cs db1
    | (Some t, db1) \<Rightarrow> (let (ids, db2) = claim_run cs db1 in (public_id t # ids, db2)))"

definition pending_ids :: "'p table \<Rightarrow> string list" where
  "pending_ids db = map public_id (filter (\<lambda>t. status t = PENDING) db)"

lemma pending_ids_start:
  "wf_table db \<Longrightarrow> t \<in> set db \<Longrightarrow> status t = PENDING \<Longrightarrow>
   pending_ids (modify_task (public_id t) (start_task now) db) = remove1 (public_id t) (pending_ids db)"
proof (induction db)
  case (Cons a db)
  show ?case
  proof (cases "a = t")
    case True
    with Cons.prems show ?thesis by (simp add: pending_ids_def modify_task_def start_task_def)
  next
    case False
    with Cons have "pending_ids (modify_task (public_id t) (start_task now) db) = remove1 (public_id t) (pending_ids db)"
      and "public_id a \<noteq> public_id t"
      by (auto simp: wf_table_def)
    then show ?thesis by (simp add: pending_ids_def modify_task_def)
  qed
qed simp

lemma distinct_pending_ids: "wf_table db \<Longrightarrow> distinct (pending_ids db)"
  by (simp add: wf_table_def pending_ids_def distinct_map_filter)

lemma claim_step:
  assumes "wf_table db" "claim_task locked pid now db = (c, db1)"
  shows "wf_table db1 \<and> (case c of
      None \<Rightarrow> db1 = db \<and> (\<forall>t \<in> set db. \<not> claimable locked pid t)
    | Some t \<Rightarrow> public_id t \<in> set (pending_ids db) \<and> pending_ids db1 = remove1 (public_id t) (pending_ids db))"
proof (cases c)
  case None
  with assms(2) have "claim_task locked pid now db = (None, db1)" by simp
  from claim_task_None [OF this assms(1)] show ?thesis using None assms(1) by simp
next
  case (Some t')
  then obtain t where "t \<in> set db" "claimable locked pid t" "t' = start_task now t"
      "db1 = modify_task (public_id t) (start_task now) db"
    using claim_task_Some assms by blast
  then show ?thesis
    using assms(1) Some pending_ids_start [of db t now]
    by (auto simp: wf_modify_task claimable_def pending_ids_def)
qed

text \<open>
  C8. Exclusive claims. Over any sequence of claims, whatever rows are locked, no task is handed out
  twice and only pending tasks are handed out, each leaving the pending set; and a run of
  as many unrestricted claims as there are pending tasks hands all of them out.
\<close>

theorem claims_exclusive:
  assumes "wf_table db" "claim_run cs db = (ids, db')"
  shows "distinct ids \<and> set ids \<subseteq> set (pending_ids db) \<and>
     set (pending_ids db') = set (pending_ids db) - set ids \<and>
     ((\<forall>c \<in> set cs. fst c = [] \<and> fst (snd c) = None) \<longrightarrow>
        length ids = min (length cs) (length (pending_ids db)))"
  using assms
proof (induction cs arbitrary: db ids)
  case Nil
  then show ?case by simp
next
  case (Cons c cs)
  obtain locked pid now where c: "c = (locked, pid, now)" by (cases c)
  obtain cl db1 where s: "claim_task locked pid now db = (cl, db1)" by fastforce
  note st = claim_step [OF Cons.prems(1) s]
  show ?case
  proof (cases cl)
    case None
    with st have db1: "db1 = db" and none: "\<forall>t \<in> set db. \<not> claimable locked pid t" by simp_all
    have "pending_ids db = []" if "locked = []" "pid = None"
      using none that by (auto simp: pending_ids_def claimable_def filter_empty_conv)
    with Cons.IH [of db ids] Cons.prems c s None db1 show ?thesis by auto
  next
    case (Some t)
    obtain ids1 where ids: "claim_run cs db1 = (ids1, db')" "ids = public_id t # ids1"
      using Cons.prems(2) c s Some by (auto split: prod.splits)
    from st Some have wf1: "wf_table db1" and mem: "public_id t \<in> set (pending_ids db)"
      and rem: "pending_ids db1 = remove1 (public_id t) (pending_ids db)" by simp_all
    have "length (pending_ids db1) + 1 = length (pending_ids db)"
      using rem mem by (simp add: length_remove1) (metis Suc_pred length_pos_if_in_set)
    then show ?thesis
      using Cons.IH [OF wf1 ids(1)] ids(2) mem rem distinct_pending_ids [OF Cons.prems(1)] c by auto
  qed
qed

definition two_tasks :: "unit table" where
  "two_tasks = [new_task ''a'' AGENT_TASK () 1 1 5, new_task ''b'' AGENT_TASK () 1 1 3]"

theorem claims_exclusive_witness:
  "wf_table two_tasks \<and> fst (claim_run [([''b''], None, 7), ([], None, 8), ([], None, 9)] two_tasks) = [''a'', ''b''] \<and>
   distinct (fst (claim_run [([''b''], None, 7), ([], None, 8), ([], None, 9)] two_tasks)) \<and>
   length (fst (claim_run [([], None, 7), ([], None, 8), ([], None, 9)] two_tasks)) = 2"
proof -
  have wf: "wf_table two_tasks" by (simp add: wf_table_def two_tasks_def new_task_def)
  have run: "fst (claim_run [([''b''], None, 7), ([], None, 8), ([], None, 9)] two_tasks) = [''a'', ''b'']"
    by (simp add: two_tasks_def new_task_def claim_task_def claimable_def modify_task_def get_task_def
        start_task_def Let_def)
  show ?thesis
    using wf run claims_exclusive [OF wf prod.collapse [symmetric], of "[([''b''], None, 7), ([], None, 8), ([], None, 9)]"]
      claims_exclusive [OF wf prod.collapse [symmetric], of "[([], None, 7), ([], None, 8), ([], None, 9)]"]
    by (simp add: pending_ids_def two_tasks_def new_task_def)
qed

subsection \<open>Recovery of stale tasks\<close>

text \<open>
  Stale recovery. With a positive limit, exactly the running tasks whose start lies more than the
  limit back are put back to pending, with their start cleared; every other row is
  unchanged, the reported count is the number of rows put back, and a second recovery at
  the same moment finds nothing.
\<close>

theorem recover_stale_exact:
  assumes "0 < secs"
    and "overdue = (\<lambda>t :: 'p task. status t = RUNNING \<and> (\<exists>s. started_at t = Some s \<and> now - s > secs))"
  shows "\<exists>db'. recover_stale_tasks (Some secs) now db = (Inr (length (filter overdue db)), db') \<and>
     db' = map (\<lambda>t. if overdue t then t\<lparr>status := PENDING, started_at := None, updated_at := now\<rparr> else t) db \<and>
     recover_stale_tasks (Some secs) now db' = (Inr 0, db')"
proof -
  let ?f = "\<lambda>t. if is_stale (now - secs) t then requeue now t else t"
  have stale: "is_stale (now - secs) = overdue"
    by (auto simp: assms(2) is_stale_def fun_eq_iff split: option.splits)
  have fresh: "\<not> is_stale (now - secs) (?f t)" for t :: "'p task"
    by (simp add: is_stale_def requeue_def)
  have "map ?f (map ?f db) = map ?f db" using fresh by (simp add: is_stale_def requeue_def)
  moreover have "filter (is_stale (now - secs)) (map ?f db) = []"
    by (auto simp: filter_empty_conv is_stale_def requeue_def)
  moreover have "map ?f db =
      map (\<lambda>t. if overdue t then t\<lparr>status := PENDING, started_at := None, updated_at := now\<rparr> else t) db"
    by (simp add: stale requeue_def)
  ultimately show ?thesis
    using assms(1) stale by (simp add: recover_stale_tasks_def)
qed

theorem recover_stale_exact_witness:
  "\<exists>db'. recover_stale_tasks (Some 60) 100
      [start_task 10 (new_task ''a'' AGENT_TASK () 1 1 5), start_task 90 (new_task ''b'' AGENT_TASK () 1 1 3)] =
      (Inr 1, db') \<and> map status db' = [PENDING, RUNNING]"
  using recover_stale_exact [of 60, OF _ refl, of 100
      "[start_task 10 (new_task ''a'' AGENT_TASK () 1 1 5), start_task 90 (new_task ''b'' AGENT_TASK () 1 1 3)]"]
  by (simp add: start_task_def new_task_def)

end
