(* ===== verification/Task_Worker.thy ===== *)
theory Task_Worker
  imports Task_Repository
begin

text \<open>
  \<^verbatim>\<open>tasks/worker.py\<close> and the parts of \<^verbatim>\<open>tasks/broker.py\<close> it calls.

  A worker state holds the table, the broker and the worker's own fields. The broker is a
  Redis stream, code outside the repository; the model keeps the calls the worker makes to
  it, in order, as \<open>events\<close>, and takes what Redis answers as an argument. The child
  process of a handler is the argument \<open>proc\<close>: when it ends, what it sends and the table it
  leaves at each moment; waiting for it under the deadline, stopping it and judging it are
  the worker's and are modelled. Time passes in the waits: every \<open>join\<close> may return late.
\<close>

subsection \<open>State\<close>

datatype broker_event = Publish string int string | Ack string

record message =
  msg_task_id :: "string option"
  msg_id :: "string option"

record 'p wstate =
  db :: "'p table"
  events :: "broker_event list"
  broker_enabled :: bool
  now :: rat
  wid :: string
  last_recovery :: rat
  pending_messages :: "message list"
  next_pending_reclaim :: rat

text \<open>The configuration read from the environment.\<close>

record config =
  MAX_RETRY :: int
  MAX_TASK_RUNTIME :: int
  HEARTBEAT_INTERVAL :: int
  WORKER_CONCURRENCY :: int

datatype handler = process_document_handler | agent_handler

definition HANDLERS :: "TaskType \<Rightarrow> handler option" where
  "HANDLERS ty = (case ty of
      PROCESS_DOCUMENT \<Rightarrow> Some process_document_handler
    | AGENT_TASK \<Rightarrow> Some agent_handler
    | REFRESH_KNOWLEDGE \<Rightarrow> None)"

definition STALE_RECOVERY_INTERVAL_SECONDS :: rat where "STALE_RECOVERY_INTERVAL_SECONDS = 60"
definition PENDING_RECLAIM_INTERVAL_SECONDS :: rat where "PENDING_RECLAIM_INTERVAL_SECONDS = 15"
definition PENDING_RECLAIM_MIN_IDLE_MS :: int where "PENDING_RECLAIM_MIN_IDLE_MS = 60000"

definition STALE_RECOVERY_GRACE_SECONDS :: "config \<Rightarrow> int" where
  "STALE_RECOVERY_GRACE_SECONDS c = max 60 (HEARTBEAT_INTERVAL c * 2)"

subsection \<open>Broker calls\<close>

definition ack_task :: "string option \<Rightarrow> 'p wstate \<Rightarrow> 'p wstate" where
  "ack_task mid s = (case mid of
      Some m \<Rightarrow> if broker_enabled s \<and> m \<noteq> '''' then s\<lparr>events := events s @ [Ack m]\<rparr> else s
    | None \<Rightarrow> s)"

definition publish_task :: "string \<Rightarrow> int \<Rightarrow> string \<Rightarrow> 'p wstate \<Rightarrow> 'p wstate" where
  "publish_task tid tn ty s =
     (if broker_enabled s then s\<lparr>events := events s @ [Publish tid tn ty]\<rparr> else s)"

definition retry_task :: "string \<Rightarrow> int \<Rightarrow> string \<Rightarrow> 'p wstate \<Rightarrow> 'p wstate" where
  "retry_task = publish_task"

text \<open>
  \<open>claim_pending_tasks\<close>: of the pending entries Redis lists (message, idle time in
  milliseconds) those idle long enough are claimed.
\<close>

definition claim_pending_tasks :: "int \<Rightarrow> nat \<Rightarrow> (message \<times> int) list \<Rightarrow> message list" where
  "claim_pending_tasks min_idle count pending =
     map fst (filter (\<lambda>(m, idle). idle \<ge> min_idle) (take count pending))"

subsection \<open>Running a handler\<close>

text \<open>
  The child process of a handler, as the worker can observe it. \<open>ends_after\<close>: the seconds
  after which it ends by itself, if it ever does. \<open>sent\<close>: what \<open>_run_handler_process\<close> has put into
  the pipe by then, \<open>(True, None)\<close> or \<open>(False, error)\<close>, or nothing when the process died before.
  \<open>leaves t\<close>: the table when the process has come to an end after \<open>t\<close> seconds, since its commits
  before that moment stay. \<open>dies_after\<close>: how long it takes to react to \<open>terminate\<close>.
  \<open>join_lag\<close>: how late a \<open>join\<close> entered at a given moment returns. \<open>worker_running\<close>: the
  worker's \<open>_running\<close> flag at a given moment. All moments are seconds since the start.
\<close>

record 'p child =
  ends_after :: "rat option"
  sent :: "(bool \<times> string option) option"
  exitcode :: int
  leaves :: "rat \<Rightarrow> 'p table"
  dies_after :: rat
  join_lag :: "rat \<Rightarrow> rat"
  worker_running :: "rat \<Rightarrow> bool"

datatype 'p launch = StartFailed string | Started "'p child"

type_synonym 'p proc = "handler \<Rightarrow> string \<Rightarrow> 'p table \<Rightarrow> 'p launch"

definition PROCESS_STOP_GRACE_SECONDS :: rat where "PROCESS_STOP_GRACE_SECONDS = 5"

definition is_alive :: "'p child \<Rightarrow> rat \<Rightarrow> bool" where
  "is_alive ch t = (case ends_after ch of None \<Rightarrow> True | Some e \<Rightarrow> t < e)"

definition ended_by :: "'p child \<Rightarrow> rat \<Rightarrow> rat" where
  "ended_by ch t = (case ends_after ch of None \<Rightarrow> t | Some e \<Rightarrow> min e t)"

text \<open>\<open>process.join(timeout)\<close> entered at \<open>t\<close>: the moment at which it returns.\<close>

definition join_child :: "'p child \<Rightarrow> rat \<Rightarrow> rat \<Rightarrow> rat" where
  "join_child ch t timeout = max t (ended_by ch (t + timeout)) + max 0 (join_lag ch t)"

text \<open>\<open>_terminate_task_process\<close>: a child that ignores the signal for the grace period is killed.\<close>

definition terminate_task_process :: "'p child \<Rightarrow> rat \<Rightarrow> rat" where
  "terminate_task_process ch t = join_child (ch\<lparr>join_lag := (\<lambda>_. 0)\<rparr>) t
     (max 0 (min (dies_after ch) PROCESS_STOP_GRACE_SECONDS))"

datatype wait_end = ChildEnded | RuntimeExceeded | WorkerNotRunning

text \<open>The loop \<open>while process.is_alive()\<close>, entered at moment \<open>t\<close>, with the moment it is left.\<close>

function wait_child :: "config \<Rightarrow> 'p child \<Rightarrow> rat \<Rightarrow> wait_end \<times> rat" where
  "wait_child c ch t =
     (if \<not> is_alive ch t then (ChildEnded, t)
      else let remaining = of_int (MAX_TASK_RUNTIME c) - t in
        if remaining \<le> 0 then (RuntimeExceeded, t)
        else if \<not> worker_running ch t then (WorkerNotRunning, t)
        else wait_child c ch (join_child ch t (min (1 / 5) remaining)))"
  by pat_completeness auto

lemma join_child_progress:
  assumes "is_alive ch t" "0 < d"
  shows "t < join_child ch t d" "is_alive ch (join_child ch t d) \<Longrightarrow> t + d \<le> join_child ch t d"
  using assms by (auto simp: join_child_def is_alive_def ended_by_def max_def min_def split: option.splits)

lemma fifths_decrease:
  assumes "0 < m - t" "t + min (1 / 5) (m - t) \<le> (t' :: rat)"
  shows "nat \<lceil>(m - t') * 5\<rceil> < nat \<lceil>(m - t) * 5\<rceil>"
proof -
  have pos: "0 < \<lceil>(m - t) * 5\<rceil>" using assms(1) by simp
  have "(m - t') * 5 \<le> max 0 ((m - t) * 5 - 1)" using assms(2) by (simp add: min_def max_def split: if_splits)
  then have "\<lceil>(m - t') * 5\<rceil> \<le> \<lceil>max 0 ((m - t) * 5 - 1)\<rceil>" by (rule ceiling_mono)
  also have "\<dots> \<le> max 0 (\<lceil>(m - t) * 5\<rceil> - 1)"
    by (simp add: ceiling_le_iff le_max_iff_disj) linarith
  finally show ?thesis using pos by linarith
qed

termination wait_child
proof (relation "measure (\<lambda>(c, ch, t). nat \<lceil>(of_int (MAX_TASK_RUNTIME c) - t) * 5\<rceil> + (if is_alive ch t then 1 else 0))")
  fix c and ch :: "'p child" and t x :: rat
  assume alive: "\<not> \<not> is_alive ch t" and x: "x = of_int (MAX_TASK_RUNTIME c) - t" "\<not> x \<le> 0"
  let ?t' = "join_child ch t (min (1 / 5) x)"
  have d: "0 < min (1 / 5) x" using x(2) by simp
  have "nat \<lceil>(of_int (MAX_TASK_RUNTIME c) - ?t') * 5\<rceil> + (if is_alive ch ?t' then 1 else 0)
      < nat \<lceil>(of_int (MAX_TASK_RUNTIME c) - t) * 5\<rceil> + 1"
  proof (cases "is_alive ch ?t'")
    case True
    have "t + min (1 / 5) (of_int (MAX_TASK_RUNTIME c) - t) \<le> ?t'"
      using join_child_progress(2) [OF _ d True] alive x(1) by simp
    from fifths_decrease [OF _ this] x True show ?thesis by simp
  next
    case False
    have "t < ?t'" using join_child_progress(1) [OF _ d] alive by simp
    then have "nat \<lceil>(of_int (MAX_TASK_RUNTIME c) - ?t') * 5\<rceil> \<le> nat \<lceil>(of_int (MAX_TASK_RUNTIME c) - t) * 5\<rceil>"
      by (intro nat_mono ceiling_mono) simp
    with False show ?thesis by simp
  qed
  then show "((c, ch, ?t'), c, ch, t) \<in>
      measure (\<lambda>(c, ch, t). nat \<lceil>(of_int (MAX_TASK_RUNTIME c) - t) * 5\<rceil> + (if is_alive ch t then 1 else 0))"
    using alive by simp
qed simp

declare wait_child.simps [simp del]

text \<open>
  How a run of the handler ends. Reading the result: \<open>poll\<close> answers true on a closed pipe too,
  so that a child that ended with nothing sent makes \<open>recv\<close> raise \<open>EOFError\<close>, which has no
  message.
\<close>

datatype proc_end =
    NotStarted string
  | DeadlineReached
  | WorkerStopped
  | SentOk
  | SentError "string option" int
  | NothingSent

definition received :: "'p child \<Rightarrow> proc_end" where
  "received ch = (case sent ch of
      None \<Rightarrow> NothingSent
    | Some (ok, error) \<Rightarrow> if ok then SentOk else SentError error (exitcode ch))"

text \<open>The process from \<open>start\<close> to its end: how, after how many seconds, and the table it leaves.\<close>

definition run_child :: "config \<Rightarrow> 'p launch \<Rightarrow> 'p table \<Rightarrow> proc_end \<times> rat \<times> 'p table" where
  "run_child c l d = (case l of
      StartFailed e \<Rightarrow> (NotStarted e, 0, d)
    | Started ch \<Rightarrow>
        (case wait_child c ch 0 of
           (ChildEnded, t) \<Rightarrow> (received ch, t, leaves ch (ended_by ch t))
         | (RuntimeExceeded, t) \<Rightarrow>
             (let t' = terminate_task_process ch t in (DeadlineReached, t', leaves ch (ended_by ch t')))
         | (WorkerNotRunning, t) \<Rightarrow>
             (let t' = terminate_task_process ch t in (WorkerStopped, t', leaves ch (ended_by ch t')))))"

fun proc_error :: "config \<Rightarrow> proc_end \<Rightarrow> string option" where
  "proc_error c (NotStarted e) = Some (''Failed to start task handler process: '' @ e)"
| "proc_error c DeadlineReached =
     Some (''Task exceeded MAX_TASK_RUNTIME ('' @ str_int (MAX_TASK_RUNTIME c) @ ''s)'')"
| "proc_error c WorkerStopped = Some ''Worker stopped before task completed''"
| "proc_error c SentOk = None"
| "proc_error c (SentError e code) =
     Some (case e of Some m \<Rightarrow> if m \<noteq> '''' then m else ''handler process exited with code '' @ str_int code
                   | None \<Rightarrow> ''handler process exited with code '' @ str_int code)"
| "proc_error c NothingSent = Some ''''"

definition run_handler_with_timeout :: "config \<Rightarrow> 'p proc \<Rightarrow> handler \<Rightarrow> string \<Rightarrow> 'p wstate
    \<Rightarrow> (exn + unit) \<times> 'p wstate" where
  "run_handler_with_timeout c proc h pid s =
     (if MAX_TASK_RUNTIME c \<le> 0
      then (Inl (Exn ''TaskExecutionError'' ''MAX_TASK_RUNTIME must be greater than zero''), s)
      else let (ending, dt, d1) = run_child c (proc h pid (db s)) (db s);
               s1 = s\<lparr>db := d1, now := now s + dt\<rparr>
           in case proc_error c ending of
                None \<Rightarrow> (Inr (), s1)
              | Some e \<Rightarrow>
                  (Inl (Exn (if ending = NothingSent then ''EOFError'' else ''TaskExecutionError'') e), s1))"

subsection \<open>Executing one task\<close>

definition fail_update :: "string \<Rightarrow> 'p task_update" where
  "fail_update e = no_update\<lparr>u_status := Some FAILED, u_error := Some e\<rparr>"

definition write_task :: "string \<Rightarrow> 'p task_update \<Rightarrow> 'p wstate \<Rightarrow> 'p wstate" where
  "write_task pid u s = s\<lparr>db := snd (update_task pid u (now s) (db s))\<rparr>"

text \<open>The claimed row gets the worker's name; then the handler runs, or the task fails for want of one.\<close>

definition run_claimed :: "config \<Rightarrow> 'p proc \<Rightarrow> string \<Rightarrow> 'p task \<Rightarrow> 'p wstate \<Rightarrow> 'p wstate" where
  "run_claimed c proc pid claimed s =
     (let s1 = s\<lparr>db := modify_task pid (\<lambda>t. t\<lparr>worker_id := Some (wid s), locked_at := Some (now s)\<rparr>) (db s)\<rparr> in
      case Option.bind (task_type_of (task_type claimed)) HANDLERS of
        None \<Rightarrow> write_task pid (fail_update (''No handler for task type: '' @ task_type claimed)) s1
      | Some h \<Rightarrow>
          (case run_handler_with_timeout c proc h pid s1 of
             (Inr _, s2) \<Rightarrow> s2
           | (Inl e, s2) \<Rightarrow> write_task pid (fail_update (exn_msg e)) s2))"

definition retry_if_failed :: "config \<Rightarrow> string \<Rightarrow> 'p wstate \<Rightarrow> 'p wstate" where
  "retry_if_failed c pid s = (case get_task (db s) pid of
      None \<Rightarrow> s
    | Some t \<Rightarrow>
        if status t = FAILED \<and> should_retry (get_retry_count t) (MAX_RETRY c) then
          let n = get_retry_count t + 1;
              s1 = s\<lparr>db := modify_task pid (\<lambda>t. t\<lparr>task_retry_count := n\<rparr>) (db s)\<rparr>;
              s2 = write_task pid (no_update\<lparr>u_status := Some PENDING\<rparr>) s1
          in retry_task pid (tenant_id t) (task_type t) s2
        else s)"

definition execute_task :: "config \<Rightarrow> 'p proc \<Rightarrow> string list \<Rightarrow> string \<Rightarrow> bool \<Rightarrow> string option
    \<Rightarrow> 'p wstate \<Rightarrow> 'p wstate" where
  "execute_task c proc locked pid already_claimed mid s = (case get_task (db s) pid of
      None \<Rightarrow> ack_task mid s
    | Some task \<Rightarrow>
        if already_claimed \<and> status task \<noteq> RUNNING then s
        else if \<not> already_claimed \<and> status task \<noteq> PENDING then ack_task mid s
        else
          let (claimed, d1) = (if already_claimed then (Some task, db s)
                               else claim_task locked (Some pid) (now s) (db s));
              s1 = s\<lparr>db := d1\<rparr>
          in case claimed of
               None \<Rightarrow> ack_task mid s1
             | Some t \<Rightarrow> ack_task mid (retry_if_failed c pid (run_claimed c proc pid t s1)))"

subsection \<open>The loop body\<close>

definition recover_stale_if_needed :: "config \<Rightarrow> 'p wstate \<Rightarrow> 'p wstate" where
  "recover_stale_if_needed c s =
     (if now s - last_recovery s < STALE_RECOVERY_INTERVAL_SECONDS then s
      else s\<lparr>last_recovery := now s,
             db := snd (recover_stale_tasks
               (Some (of_int (max 1 (MAX_TASK_RUNTIME c) + STALE_RECOVERY_GRACE_SECONDS c))) (now s) (db s))\<rparr>)"

definition claim_pending_message :: "config \<Rightarrow> (message \<times> int) list \<Rightarrow> 'p wstate \<Rightarrow> message option \<times> 'p wstate" where
  "claim_pending_message c pending s = (case pending_messages s of
      m # ms \<Rightarrow> (Some m, s\<lparr>pending_messages := ms\<rparr>)
    | [] \<Rightarrow>
        if now s < next_pending_reclaim s then (None, s)
        else
          let s1 = s\<lparr>next_pending_reclaim := now s + PENDING_RECLAIM_INTERVAL_SECONDS\<rparr>
          in case claim_pending_tasks PENDING_RECLAIM_MIN_IDLE_MS
                    (nat (max 10 (WORKER_CONCURRENCY c * 2))) pending of
               [] \<Rightarrow> (None, s1)
             | m # ms \<Rightarrow> (Some m, s1\<lparr>pending_messages := ms\<rparr>))"

text \<open>
  One turn of \<open>_process_next_task\<close>: \<open>pending\<close> and \<open>fresh\<close> are what Redis has for this
  consumer (abandoned deliveries, the next new message). The idle sleep of one second when
  the table has nothing is a move of the clock.
\<close>

definition poll_database :: "config \<Rightarrow> 'p proc \<Rightarrow> string list \<Rightarrow> 'p wstate \<Rightarrow> 'p wstate" where
  "poll_database c proc locked s = (case claim_task locked None (now s) (db s) of
      (None, d1) \<Rightarrow> s\<lparr>db := d1, now := now s + 1\<rparr>
    | (Some t, d1) \<Rightarrow> execute_task c proc locked (public_id t) True None (s\<lparr>db := d1\<rparr>))"

definition process_next_task :: "config \<Rightarrow> 'p proc \<Rightarrow> string list \<Rightarrow> (message \<times> int) list \<Rightarrow> message option
    \<Rightarrow> 'p wstate \<Rightarrow> 'p wstate" where
  "process_next_task c proc locked pending fresh s =
     (if \<not> broker_enabled s then poll_database c proc locked s
      else
        let (m0, s1) = claim_pending_message c pending s;
            m = (case m0 of None \<Rightarrow> fresh | Some x \<Rightarrow> Some x)
        in case m of
             None \<Rightarrow> poll_database c proc locked s1
           | Some msg \<Rightarrow>
               (case msg_task_id msg of
                  Some tid \<Rightarrow>
                    if tid \<noteq> '''' then execute_task c proc locked tid False (msg_id msg) s1
                    else poll_database c proc locked (ack_task (msg_id msg) s1)
                | None \<Rightarrow> poll_database c proc locked (ack_task (msg_id msg) s1)))"


subsection \<open>The deadline\<close>

lemma alive_before: "is_alive ch t \<Longrightarrow> t' \<le> t \<Longrightarrow> is_alive ch t'"
  by (auto simp: is_alive_def split: option.splits)

lemma wait_child_end:
  assumes "wait_child c ch t = (r, t')"
  shows "(r = ChildEnded \<longleftrightarrow> \<not> is_alive ch t') \<and> (r = WorkerNotRunning \<longrightarrow> \<not> worker_running ch t')"
  using assms
proof (induction c ch t rule: wait_child.induct)
  case (1 c ch t)
  show ?case
  proof (cases "is_alive ch t \<and> 0 < of_int (MAX_TASK_RUNTIME c) - t \<and> worker_running ch t")
    case True
    then show ?thesis using "1.IH" "1.prems" by (simp add: wait_child.simps [of c ch t])
  next
    case False
    then show ?thesis using "1.prems" by (auto simp: wait_child.simps [of c ch t] Let_def split: if_splits)
  qed
qed

lemma join_child_bound: "is_alive ch t \<Longrightarrow> join_lag ch t \<le> lag \<Longrightarrow> 0 \<le> lag \<Longrightarrow> 0 \<le> d \<Longrightarrow> join_child ch t d \<le> t + d + lag"
  by (auto simp: join_child_def ended_by_def is_alive_def min_def max_def split: option.splits)

lemma wait_child_time:
  assumes "wait_child c ch t = (r, t')" "\<forall>u. join_lag ch u \<le> lag" "0 \<le> lag" "t \<le> of_int (MAX_TASK_RUNTIME c) + lag"
  shows "t' \<le> of_int (MAX_TASK_RUNTIME c) + lag"
  using assms
proof (induction c ch t rule: wait_child.induct)
  case (1 c ch t)
  let ?m = "of_int (MAX_TASK_RUNTIME c) :: rat"
  show ?case
  proof (cases "is_alive ch t \<and> 0 < ?m - t \<and> worker_running ch t")
    case True
    then have "join_child ch t (min (1 / 5) (?m - t)) \<le> t + min (1 / 5) (?m - t) + lag"
      using "1.prems"(2,3) by (intro join_child_bound) auto
    then have "join_child ch t (min (1 / 5) (?m - t)) \<le> ?m + lag" by linarith
    then show ?thesis using "1.IH" "1.prems" True by (simp add: wait_child.simps [of c ch t])
  next
    case False
    then show ?thesis using "1.prems" by (auto simp: wait_child.simps [of c ch t] Let_def split: if_splits)
  qed
qed

lemma wait_child_in_time:
  assumes "ends_after ch = Some e" "e \<le> of_int (MAX_TASK_RUNTIME c)" "\<forall>u < e. worker_running ch u"
  shows "fst (wait_child c ch t) = ChildEnded"
  using assms
proof (induction c ch t rule: wait_child.induct)
  case (1 c ch t)
  show ?case
  proof (cases "is_alive ch t")
    case True
    then have "t < e" using "1.prems"(1) by (simp add: is_alive_def)
    then show ?thesis using "1.IH" "1.prems" True by (simp add: wait_child.simps [of c ch t])
  qed (simp add: wait_child.simps)
qed

lemma run_child_duration:
  assumes "run_child c (Started ch) d = (ending, dt, d2)" "\<forall>u. join_lag ch u \<le> lag" "0 \<le> lag" "0 < MAX_TASK_RUNTIME c"
  shows "dt \<le> of_int (MAX_TASK_RUNTIME c) + lag + PROCESS_STOP_GRACE_SECONDS"
proof -
  let ?m = "of_int (MAX_TASK_RUNTIME c) :: rat"
  obtain r t where w: "wait_child c ch 0 = (r, t)" by fastforce
  have t: "t \<le> ?m + lag" using wait_child_time [OF w assms(2,3)] assms(3,4) by simp
  have "terminate_task_process ch t \<le> t + PROCESS_STOP_GRACE_SECONDS"
    by (auto simp: terminate_task_process_def join_child_def ended_by_def PROCESS_STOP_GRACE_SECONDS_def
        min_def max_def split: option.splits)
  then show ?thesis
    using assms(1) w t by (cases r) (auto simp: run_child_def Let_def PROCESS_STOP_GRACE_SECONDS_def)
qed

lemma run_child_in_time:
  assumes "ends_after ch = Some e" "e \<le> of_int (MAX_TASK_RUNTIME c)" "\<forall>u < e. worker_running ch u"
  shows "\<exists>t. e \<le> t \<and> run_child c (Started ch) d = (received ch, t, leaves ch e)"
proof -
  obtain t where w: "wait_child c ch 0 = (ChildEnded, t)"
    using wait_child_in_time [OF assms, of 0] by (metis prod.collapse)
  have "e \<le> t" using wait_child_end [OF w] assms(1) by (simp add: is_alive_def)
  then show ?thesis using w assms(1) by (simp add: run_child_def ended_by_def min_def)
qed

lemma run_child_too_long:
  assumes "is_alive ch (of_int (MAX_TASK_RUNTIME c) + lag)" "\<forall>u. worker_running ch u"
    and "\<forall>u. join_lag ch u \<le> lag" "0 \<le> lag" "0 < MAX_TASK_RUNTIME c"
  shows "fst (run_child c (Started ch) d) = DeadlineReached"
proof -
  obtain r t where w: "wait_child c ch 0 = (r, t)" by fastforce
  have "t \<le> of_int (MAX_TASK_RUNTIME c) + lag" using wait_child_time [OF w assms(3,4)] assms(4,5) by simp
  then have "is_alive ch t" using alive_before [OF assms(1)] by simp
  then have "r = RuntimeExceeded" using wait_child_end [OF w] assms(2) by (cases r) auto
  then show ?thesis using w by (simp add: run_child_def Let_def)
qed

lemma run_child_success:
  assumes "run_child c (Started ch) d = (SentOk, dt, d2)" "\<forall>u. join_lag ch u \<le> lag" "0 \<le> lag" "0 < MAX_TASK_RUNTIME c"
  shows "\<exists>e error. ends_after ch = Some e \<and> e \<le> of_int (MAX_TASK_RUNTIME c) + lag \<and> sent ch = Some (True, error) \<and> d2 = leaves ch e"
proof -
  obtain r t where w: "wait_child c ch 0 = (r, t)" by fastforce
  have t: "t \<le> of_int (MAX_TASK_RUNTIME c) + lag" using wait_child_time [OF w assms(2,3)] assms(3,4) by simp
  have r: "r = ChildEnded" using assms(1) w by (cases r) (auto simp: run_child_def Let_def)
  then obtain e where e: "ends_after ch = Some e" "e \<le> t"
    using wait_child_end [OF w] by (auto simp: is_alive_def split: option.splits)
  then show ?thesis
    using assms(1) w r t by (auto simp: run_child_def received_def ended_by_def split: option.splits if_splits)
qed

subsection \<open>What an execution does to its row\<close>

lemma ack_task_frame [simp]:
  "db (ack_task mid s) = db s" "now (ack_task mid s) = now s" "broker_enabled (ack_task mid s) = broker_enabled s"
  by (simp_all add: ack_task_def split: option.splits)

lemma publish_task_frame [simp]:
  "db (publish_task i tn ty s) = db s" "now (publish_task i tn ty s) = now s"
  "broker_enabled (publish_task i tn ty s) = broker_enabled s"
  by (simp_all add: publish_task_def)

lemma write_task_frame [simp]:
  "events (write_task pid u s) = events s" "now (write_task pid u s) = now s"
  "broker_enabled (write_task pid u s) = broker_enabled s"
  by (simp_all add: write_task_def)

lemma get_task_write:
  "get_task (db (write_task pid u s)) j =
     (if j = pid then map_option (apply_update (now s) u) (get_task (db s) pid) else get_task (db s) j)"
  using tasks.lookup_modify [of "apply_update (now s) u" pid "db s"]
  by (auto simp: write_task_def update_task_def Let_def split: option.splits)

lemma claim_by_id:
  assumes "wf_table d" "get_task d pid = Some t" "status t = PENDING" "pid \<notin> set locked"
  shows "claim_task locked (Some pid) tm d = (Some (start_task tm t), modify_task pid (start_task tm) d)"
proof -
  have t: "t \<in> set d" "public_id t = pid" using get_task_in assms(2) by auto
  have uniq: "u = t" if "u \<in> set d" "public_id u = pid" for u
    using get_task_mem [OF assms(1)] that assms(2) by fastforce
  obtain x where x: "first_oldest (filter (claimable locked (Some pid)) d) = Some x"
    using assms(3,4) t by (metis (no_types, lifting) claimable_def empty_iff first_oldest_None
        list.set(1) mem_Collect_eq option.exhaust set_filter)
  have "x = t" using first_oldest_Some [OF x] uniq by (auto simp: claimable_def)
  then show ?thesis
    using x t assms(2) tasks.lookup_modify_same [of "start_task tm" d pid t] by (simp add: claim_task_def)
qed

text \<open>
  The fate of a row after its handler: \<open>judge\<close> is the failure the worker records when the
  handler process did not report success, \<open>settle\<close> the retry decision.
\<close>

definition judge :: "config \<Rightarrow> proc_end \<Rightarrow> rat \<Rightarrow> 'p task \<Rightarrow> 'p task" where
  "judge c ending tm r = (case proc_error c ending of
      None \<Rightarrow> r
    | Some e \<Rightarrow> apply_update tm (fail_update e) r)"

definition settle :: "config \<Rightarrow> rat \<Rightarrow> 'p task \<Rightarrow> 'p task" where
  "settle c tm r =
     (if status r = FAILED \<and> task_retry_count r < MAX_RETRY c
      then r\<lparr>task_retry_count := task_retry_count r + 1, status := PENDING, updated_at := tm\<rparr> else r)"

lemma retry_if_failed_row:
  assumes "get_task (db s) pid = Some r"
  shows "get_task (db (retry_if_failed c pid s)) pid = Some (settle c (now s) r) \<and>
    now (retry_if_failed c pid s) = now s \<and> broker_enabled (retry_if_failed c pid s) = broker_enabled s \<and>
    events (retry_if_failed c pid s) = events s @
      (if settle c (now s) r = r \<or> \<not> broker_enabled s then [] else [Publish pid (tenant_id r) (task_type r)])"
proof -
  have neq: "settle c (now s) r \<noteq> r" if "status r = FAILED" "task_retry_count r < MAX_RETRY c"
    using that by (metis TaskStatus.distinct(5) settle_def task.select_convs(3) task.surjective
        task.update_convs(11,16,3) TaskStatus.distinct)
  show ?thesis
    using assms neq tasks.lookup_modify [of "\<lambda>t. t\<lparr>task_retry_count := task_retry_count r + 1\<rparr>" pid "db s"]
    by (auto simp: retry_if_failed_def settle_def should_retry_def get_retry_count_def get_task_write
        retry_task_def publish_task_def apply_update_def no_update_def Let_def)
qed

definition lock_row :: "string \<Rightarrow> rat \<Rightarrow> 'p task \<Rightarrow> 'p task" where
  "lock_row w tm t = t\<lparr>worker_id := Some w, locked_at := Some tm\<rparr>"

lemma run_claimed_row:
  assumes "task_type_of (task_type t) = Some ty" "HANDLERS ty = Some h" "0 < MAX_TASK_RUNTIME c"
    and "d1 = modify_task pid (lock_row (wid s) (now s)) (db s)"
    and "run_child c (proc h pid d1) d1 = (ending, dt, d2)" "get_task d2 pid = Some r2"
  shows "get_task (db (run_claimed c proc pid t s)) pid = Some (judge c ending (now s + dt) r2) \<and>
    now (run_claimed c proc pid t s) = now s + dt \<and> events (run_claimed c proc pid t s) = events s \<and>
    broker_enabled (run_claimed c proc pid t s) = broker_enabled s"
  using assms
  by (cases "proc_error c ending")
    (simp_all add: run_claimed_def run_handler_with_timeout_def judge_def get_task_write lock_row_def [abs_def] Let_def)

lemma execute_task_ready:
  assumes "wf_table (db s)" "get_task (db s) pid = Some t" "status t = PENDING" "pid \<notin> set locked"
  shows "execute_task c proc locked pid False mid s =
    ack_task mid (retry_if_failed c pid (run_claimed c proc pid (start_task (now s) t)
      (s\<lparr>db := modify_task pid (start_task (now s)) (db s)\<rparr>)))"
  using assms claim_by_id [OF assms(1-4), of "now s"] by (simp add: execute_task_def)


definition demo_config :: config where
  "demo_config = \<lparr>MAX_RETRY = 3, MAX_TASK_RUNTIME = 3600, HEARTBEAT_INTERVAL = 30, WORKER_CONCURRENCY = 4\<rparr>"

definition demo_state :: "unit wstate" where
  "demo_state = \<lparr>db = [new_task ''a'' AGENT_TASK () 7 1 5], events = [], broker_enabled = True, now = 100,
     wid = ''w1'', last_recovery = 90, pending_messages = [], next_pending_reclaim = 0\<rparr>"

text \<open>A handler process that hangs: only the deadline ends it, and it has written nothing.\<close>

definition hanging_child :: "'p table \<Rightarrow> 'p child" where
  "hanging_child d = \<lparr>ends_after = None, sent = None, exitcode = 0, leaves = (\<lambda>_. d), dies_after = 1,
     join_lag = (\<lambda>_. 0), worker_running = (\<lambda>_. True)\<rparr>"

definition hanging_proc :: "'p proc" where
  "hanging_proc h pid d = Started (hanging_child d)"

lemma hanging_run: "0 < MAX_TASK_RUNTIME c \<Longrightarrow> \<exists>dt. run_child c (Started (hanging_child d)) d = (DeadlineReached, dt, d)"
  using run_child_too_long [of "hanging_child d" c 0 d]
  by (cases "wait_child c (hanging_child d) 0")
    (auto simp: run_child_def hanging_child_def is_alive_def received_def Let_def split: wait_end.splits)


subsection \<open>A task that always fails\<close>

text \<open>
  A handler that fails whenever it runs for the task: whatever it writes to the row meanwhile (its
  progress, an error, a payload), the run ends without success reported or leaves the row
  \<open>FAILED\<close>. The registered handlers fail in the second way: they catch the exception, write
  \<open>FAILED\<close> themselves and return normally. The fields that the worker's retry
  decision reads are left as they are.
\<close>

definition always_fails :: "config \<Rightarrow> 'p proc \<Rightarrow> string \<Rightarrow> bool" where
  "always_fails c proc pid \<longleftrightarrow> (\<forall>h d t ending dt d2. wf_table d \<longrightarrow> get_task d pid = Some t \<longrightarrow> status t = RUNNING \<longrightarrow>
     run_child c (proc h pid d) d = (ending, dt, d2) \<longrightarrow>
     wf_table d2 \<and> (\<exists>r. get_task d2 pid = Some r \<and> task_type r = task_type t \<and> task_retry_count r = task_retry_count t \<and>
       (status r = FAILED \<or> proc_error c ending \<noteq> None)))"

definition has_handler :: "'p task \<Rightarrow> bool" where
  "has_handler t \<longleftrightarrow> Option.bind (task_type_of (task_type t)) HANDLERS \<noteq> None"

lemma wf_write_task [simp]: "wf_table (db (write_task pid u s)) = wf_table (db s)"
  by (simp add: write_task_def update_task_def wf_modify_task Let_def split: option.splits)

lemma wf_retry_if_failed: "wf_table (db s) \<Longrightarrow> wf_table (db (retry_if_failed c pid s))"
  by (auto simp: retry_if_failed_def retry_task_def wf_modify_task Let_def split: option.splits)

text \<open>Whether an execution starts the handler of the task; when it does not, the handler makes no difference.\<close>

definition starts_handler :: "config \<Rightarrow> string list \<Rightarrow> string \<Rightarrow> 'p wstate \<Rightarrow> bool" where
  "starts_handler c locked pid s = (case get_task (db s) pid of
      None \<Rightarrow> False
    | Some t \<Rightarrow> status t = PENDING \<and> fst (claim_task locked (Some pid) (now s) (db s)) \<noteq> None \<and>
        has_handler t \<and> 0 < MAX_TASK_RUNTIME c)"

fun handler_runs :: "config \<Rightarrow> 'p proc \<Rightarrow> string list \<Rightarrow> string \<Rightarrow> string list \<Rightarrow> 'p wstate \<Rightarrow> nat" where
  "handler_runs c proc locked pid [] s = 0"
| "handler_runs c proc locked pid (m # ms) s =
     (if starts_handler c locked pid s then 1 else 0) +
     handler_runs c proc locked pid ms (execute_task c proc locked pid False (Some m) s)"

lemma failing_execution:
  assumes "wf_table (db s)" "get_task (db s) pid = Some t" "status t = PENDING" "has_handler t"
    and "always_fails c proc pid" "0 < MAX_TASK_RUNTIME c"
  obtains t' where "get_task (db (execute_task c proc [] pid False mid s)) pid = Some t'"
    "wf_table (db (execute_task c proc [] pid False mid s))" "has_handler t'"
    "status t' = (if task_retry_count t < MAX_RETRY c then PENDING else FAILED)"
    "task_retry_count t' = (if task_retry_count t < MAX_RETRY c then task_retry_count t + 1 else task_retry_count t)"
proof -
  obtain ty h where ty: "task_type_of (task_type t) = Some ty" "HANDLERS ty = Some h"
    using assms(4) by (auto simp: has_handler_def bind_eq_Some_conv)
  let ?s1 = "s\<lparr>db := modify_task pid (start_task (now s)) (db s)\<rparr>"
  let ?t1 = "lock_row (wid s) (now s) (start_task (now s) t)"
  let ?d1 = "modify_task pid (lock_row (wid s) (now s)) (modify_task pid (start_task (now s)) (db s))"
  have lock: "public_id (lock_row w tm r) = public_id r" for w tm and r :: "'a task"
    by (simp add: lock_row_def)
  have d1: "wf_table ?d1" "get_task ?d1 pid = Some ?t1"
    using assms(1,2) by (simp_all add: wf_modify_task lock tasks.lookup_modify)
  have running: "status ?t1 = RUNNING" by (simp add: lock_row_def start_task_def)
  obtain ending dt d2 where run: "run_child c (proc h pid ?d1) ?d1 = (ending, dt, d2)" by (metis prod_cases3)
  obtain r where r: "wf_table d2" "get_task d2 pid = Some r" "task_type r = task_type ?t1"
      "task_retry_count r = task_retry_count ?t1" "status r = FAILED \<or> proc_error c ending \<noteq> None"
    using assms(5) d1 running run unfolding always_fails_def by blast
  let ?r3 = "judge c ending (now s + dt) r"
  let ?s2 = "run_claimed c proc pid (start_task (now s) t) ?s1"
  have ty1: "task_type (start_task (now s) t) = task_type t" by (simp add: start_task_def)
  have s2: "get_task (db ?s2) pid = Some ?r3"
    using run_claimed_row [of "start_task (now s) t" ty h c ?d1 pid ?s1 proc ending dt d2 r] ty ty1 run r assms(6) by simp
  have wf2: "wf_table (db ?s2)"
    using ty ty1 run r(1) assms(6)
    by (simp add: run_claimed_def run_handler_with_timeout_def lock_row_def [abs_def] Let_def split: option.splits)
  let ?t' = "settle c (now ?s2) ?r3"
  have row: "get_task (db (execute_task c proc [] pid False mid s)) pid = Some ?t'"
    and wf: "wf_table (db (execute_task c proc [] pid False mid s))"
    using execute_task_ready [OF assms(1-3), of "[]" c proc mid] retry_if_failed_row [OF s2, of c]
      wf_retry_if_failed [OF wf2] by simp_all
  have fields: "task_type ?r3 = task_type t" "task_retry_count ?r3 = task_retry_count t" "status ?r3 = FAILED"
    using r(3-5) by (auto simp: judge_def lock_row_def start_task_def fail_update_def no_update_def apply_update_def
        split: option.splits)
  show ?thesis
    by (rule that [OF row wf]) (use fields assms(4) in \<open>simp_all add: settle_def has_handler_def\<close>)
qed

lemma settled_execution:
  "get_task (db s) pid = Some t \<Longrightarrow> status t = FAILED \<Longrightarrow>
   db (execute_task c proc locked pid False mid s) = db s"
  by (simp add: execute_task_def)

lemma settled_executions:
  assumes "get_task (db s) pid = Some t" "status t = FAILED"
  shows "db (fold (\<lambda>m. execute_task c proc [] pid False (Some m)) ms s) = db s \<and> handler_runs c proc [] pid ms s = 0"
  using assms
proof (induction ms arbitrary: s)
  case (Cons m ms)
  have "db (execute_task c proc [] pid False (Some m) s) = db s" using Cons.prems by (rule settled_execution)
  then show ?case using Cons by (simp add: starts_handler_def)
qed simp

lemma ready_starts:
  assumes "wf_table (db s)" "get_task (db s) pid = Some t" "status t = PENDING" "has_handler t" "0 < MAX_TASK_RUNTIME c"
  shows "starts_handler c [] pid s"
  using assms claim_by_id [OF assms(1-3), of "[]" "now s"] by (simp add: starts_handler_def)

text \<open>
  C13. Bounded re-execution. A task whose handler fails whenever it runs, by an error of its process
  or by writing \<open>FAILED\<close> itself, is run exactly
  \<open>MAX_RETRY - retry_count + 1\<close> times, however many messages for it are delivered: while
  retries are left each failure puts it back to pending with one more retry, then it stays
  failed and further deliveries change no row, whatever the handler is.
\<close>

theorem failing_task_execution_bound:
  assumes "always_fails c proc pid" "0 < MAX_TASK_RUNTIME c"
    and "wf_table (db s)" "get_task (db s) pid = Some t" "status t = PENDING" "has_handler t"
    and "task_retry_count t \<le> MAX_RETRY c" "left = nat (MAX_RETRY c - task_retry_count t)"
  shows "\<exists>s' t'. s' = fold (\<lambda>m. execute_task c proc [] pid False (Some m)) ms s \<and> get_task (db s') pid = Some t' \<and>
     handler_runs c proc [] pid ms s = min (length ms) (left + 1) \<and>
     status t' = (if length ms \<le> left then PENDING else FAILED) \<and>
     task_retry_count t' = task_retry_count t + int (min (length ms) left) \<and>
     (left < length ms \<longrightarrow> (\<forall>proc' mid. db (execute_task c proc' [] pid False mid s') = db s'))"
  using assms(3-)
proof (induction ms arbitrary: s t left)
  case Nil
  then show ?case by simp
next
  case (Cons m ms)
  let ?s' = "execute_task c proc [] pid False (Some m) s"
  obtain t' where t': "get_task (db ?s') pid = Some t'" "wf_table (db ?s')" "has_handler t'"
    "status t' = (if task_retry_count t < MAX_RETRY c then PENDING else FAILED)"
    "task_retry_count t' = (if task_retry_count t < MAX_RETRY c then task_retry_count t + 1 else task_retry_count t)"
    using failing_execution [OF Cons.prems(1-4) assms(1,2)] by blast
  have start: "starts_handler c [] pid s" by (rule ready_starts [OF Cons.prems(1-4) assms(2)])
  show ?case
  proof (cases "task_retry_count t < MAX_RETRY c")
    case True
    then obtain l where l: "left = Suc l" "l = nat (MAX_RETRY c - task_retry_count t')"
      using Cons.prems(6) t'(5) by (cases left) auto
    show ?thesis
      using Cons.IH [OF t'(2,1) _ t'(3) _ l(2)] t' True l(1) start by (auto simp: min_def split: if_splits)
  next
    case False
    then have failed: "status t' = FAILED" using t'(4) by simp
    let ?e = "fold (\<lambda>m. execute_task c proc [] pid False (Some m)) ms ?s'"
    have stays: "db ?e = db ?s'" "handler_runs c proc [] pid ms ?s' = 0"
      using settled_executions [OF t'(1) failed] by simp_all
    then have "db (execute_task c proc' [] pid False mid ?e) = db ?e" for proc' mid
      using t'(1) failed by (intro settled_execution) simp_all
    then show ?thesis
      using stays t' False Cons.prems(5,6) start by simp
  qed
qed

lemma unstarted_execution:
  assumes "\<not> starts_handler c locked pid s" "wf_table (db s)" "0 < MAX_TASK_RUNTIME c"
  shows "execute_task c proc locked pid False mid s = execute_task c proc' locked pid False mid s"
proof (cases "get_task (db s) pid")
  case (Some t)
  show ?thesis
  proof (cases "claim_task locked (Some pid) (now s) (db s)")
    case (Pair r d)
    have "Option.bind (task_type_of (task_type t')) HANDLERS = None" if "r = Some t'" "status t = PENDING" for t'
    proof -
      have "task_type t' = task_type t"
        using claim_task_Some [OF assms(2), of locked "Some pid" "now s" t' d] Pair Some that get_task_mem [OF assms(2)]
        by (auto simp: start_task_def claimable_def)
      then show ?thesis using assms Some Pair that by (simp add: starts_handler_def has_handler_def)
    qed
    then show ?thesis using Some Pair by (cases r) (auto simp: execute_task_def run_claimed_def Let_def)
  qed
qed (simp add: execute_task_def)

text \<open>
  A handler in the way of the registered ones: it writes its progress, then an exception is caught,
  the row is marked \<open>FAILED\<close> with the message, and the handler returns normally.
\<close>

definition raising_child :: "string \<Rightarrow> 'p table \<Rightarrow> 'p child" where
  "raising_child pid d =
     (let d1 = snd (update_task pid (no_update\<lparr>u_progress := Some 10\<rparr>) 101 d);
          d2 = snd (update_task pid (fail_update ''boom'') 102 d1)
      in \<lparr>ends_after = Some 2, sent = Some (True, None), exitcode = 0,
          leaves = (\<lambda>t. if t < 1 then d else if t < 2 then d1 else d2), dies_after = 1,
          join_lag = (\<lambda>_. 0), worker_running = (\<lambda>_. True)\<rparr>)"

definition raising_proc :: "'p proc" where
  "raising_proc h pid d = Started (raising_child pid d)"

lemma get_task_update:
  "get_task (snd (update_task pid u tm d)) pid = map_option (apply_update tm u) (get_task d pid)"
  using tasks.lookup_modify [of "apply_update tm u" pid d]
  by (auto simp: update_task_def Let_def split: option.splits)

lemma wf_update [simp]: "wf_table (snd (update_task pid u tm d)) = wf_table d"
  by (simp add: update_task_def wf_modify_task Let_def split: option.splits)

lemma raising_proc_fails:
  assumes "2 \<le> MAX_TASK_RUNTIME c"
  shows "always_fails c raising_proc pid"
proof -
  have "\<exists>t. 2 \<le> t \<and> run_child c (Started (raising_child pid d)) d = (SentOk, t, leaves (raising_child pid d) 2)"
    for d :: "'a table"
    using run_child_in_time [of "raising_child pid d" 2 c d] assms
    by (simp add: raising_child_def received_def Let_def)
  moreover have "wf_table (leaves (raising_child pid d) 2)" if "wf_table d" for d :: "'a table"
    using that by (simp add: raising_child_def Let_def)
  moreover have "\<exists>r. get_task (leaves (raising_child pid d) 2) pid = Some r \<and> task_type r = task_type t \<and>
      task_retry_count r = task_retry_count t \<and> status r = FAILED" if "get_task d pid = Some t" for d and t :: "'a task"
    using that by (simp add: raising_child_def Let_def get_task_update apply_update_def fail_update_def no_update_def)
  ultimately show ?thesis
    unfolding always_fails_def raising_proc_def by (metis prod.inject)
qed

definition six_messages :: "string list" where
  "six_messages = [''1'', ''2'', ''3'', ''4'', ''5'', ''6'']"

theorem failing_task_execution_bound_witness:
  "\<exists>t'. get_task (db (fold (\<lambda>m. execute_task demo_config raising_proc [] ''a'' False (Some m)) six_messages demo_state)) ''a'' = Some t' \<and>
     handler_runs demo_config raising_proc [] ''a'' six_messages demo_state = 4 \<and> status t' = FAILED \<and> task_retry_count t' = 3"
proof -
  have fails: "always_fails demo_config (raising_proc :: unit proc) ''a''"
    by (rule raising_proc_fails) (simp add: demo_config_def)
  have start: "wf_table (db demo_state)" "get_task (db demo_state) ''a'' = Some (new_task ''a'' AGENT_TASK () 7 1 5)"
      "status (new_task ''a'' AGENT_TASK () 7 1 5) = PENDING" "has_handler (new_task ''a'' AGENT_TASK () 7 1 5)"
    by (simp_all add: demo_state_def wf_table_def get_task_def new_task_def has_handler_def task_type_of_def HANDLERS_def)
  have conf: "task_retry_count (new_task ''a'' AGENT_TASK () 7 1 5) = 0" "MAX_RETRY demo_config = 3" "0 < MAX_TASK_RUNTIME demo_config"
    and six: "length six_messages = 6"
    by (simp_all add: new_task_def demo_config_def six_messages_def)
  from failing_task_execution_bound [OF fails conf(3) start, of 3 six_messages] show ?thesis
    by (auto simp: conf six)
qed

subsection \<open>Recovery and live tasks\<close>

text \<open>
  Recovery leaves live tasks alone. A handler is killed when it has run for
  \<open>MAX_TASK_RUNTIME\<close> seconds; the periodic recovery never touches a running task that
  started at most that long, plus a minute for the clean-up, before. Tasks that are not
  running are never touched.
\<close>

theorem recovery_spares_live_tasks:
  assumes "get_task (db s) pid = Some t"
    and "status t \<noteq> RUNNING \<or>
         (\<exists>st. started_at t = Some st \<and> now s - st \<le> of_int (MAX_TASK_RUNTIME c) + 60)"
  shows "get_task (db (recover_stale_if_needed c s)) pid = Some t"
proof -
  let ?secs = "of_int (max 1 (MAX_TASK_RUNTIME c) + STALE_RECOVERY_GRACE_SECONDS c) :: rat"
  have "of_int (MAX_TASK_RUNTIME c) + 60 \<le> ?secs"
  proof -
    have "MAX_TASK_RUNTIME c + 60 \<le> max 1 (MAX_TASK_RUNTIME c) + STALE_RECOVERY_GRACE_SECONDS c"
      by (simp add: STALE_RECOVERY_GRACE_SECONDS_def)
    then show ?thesis by (metis of_int_add of_int_le_iff of_int_numeral)
  qed
  with assms(2) have live: "\<not> is_stale (now s - ?secs) t"
    by (auto simp: is_stale_def split: option.splits)
  have "get_task (map (\<lambda>t. if is_stale x t then requeue y t else t) d) pid =
      map_option (\<lambda>t. if is_stale x t then requeue y t else t) (get_task d pid)" for x y and d :: "'a table"
    unfolding get_task_def by (induction d) auto
  then show ?thesis
    using assms(1) live by (auto simp: recover_stale_if_needed_def recover_stale_tasks_def Let_def)
qed

theorem recovery_spares_live_tasks_witness:
  "get_task (db (recover_stale_if_needed demo_config
      (demo_state\<lparr>db := [start_task 0 (new_task ''a'' AGENT_TASK () 7 1 0)], now := 3660\<rparr>))) ''a'' =
     Some (start_task 0 (new_task ''a'' AGENT_TASK () 7 1 0))"
  by (rule recovery_spares_live_tasks)
    (simp_all add: get_task_def start_task_def new_task_def demo_state_def demo_config_def)

end
