(* ===== verification/Json.thy ===== *)
theory Json
  imports Prelude Complex_Main
begin

text \<open>
  JSON values as \<open>json.loads\<close> gives them: integers and floats are different types, floats
  may be infinite or NaN, an object is a dictionary in insertion order. Strings are lists
  of characters below code point 256. Equality is Python's \<open>==\<close>: booleans and floats
  compare with integers by value, dictionaries without regard to order, and NaN is not
  equal to itself.
\<close>

datatype pyfloat = Fin rat | PInf | NInf | NaN

datatype json =
    JNull
  | JBool bool
  | JInt int
  | JFloat pyfloat
  | JStr string
  | JArr "json list"
  | JObj "(string \<times> json) list"

type_synonym obj = "(string \<times> json) list"

definition has_key :: "obj \<Rightarrow> string \<Rightarrow> bool" where
  "has_key ob k \<longleftrightarrow> map_of ob k \<noteq> None"

definition get_or :: "obj \<Rightarrow> string \<Rightarrow> json \<Rightarrow> json" where
  "get_or ob k d = (case map_of ob k of None \<Rightarrow> d | Some v \<Rightarrow> v)"

fun pf_lt :: "pyfloat \<Rightarrow> pyfloat \<Rightarrow> bool" where
  "pf_lt NaN _ = False"
| "pf_lt _ NaN = False"
| "pf_lt PInf _ = False"
| "pf_lt _ NInf = False"
| "pf_lt NInf _ = True"
| "pf_lt (Fin _) PInf = True"
| "pf_lt (Fin a) (Fin b) = (a < b)"

fun pf_eq :: "pyfloat \<Rightarrow> pyfloat \<Rightarrow> bool" where
  "pf_eq (Fin a) (Fin b) = (a = b)"
| "pf_eq PInf PInf = True"
| "pf_eq NInf NInf = True"
| "pf_eq _ _ = False"

text \<open>The value of a number; \<open>bool\<close> is a subtype of \<open>int\<close> for \<open>==\<close> and \<open><\<close>.\<close>

fun num_val :: "json \<Rightarrow> pyfloat option" where
  "num_val (JBool b) = Some (Fin (if b then 1 else 0))"
| "num_val (JInt i) = Some (Fin (of_int i))"
| "num_val (JFloat f) = Some f"
| "num_val _ = None"

function py_eq :: "json \<Rightarrow> json \<Rightarrow> bool" where
  "py_eq a b = (case (num_val a, num_val b) of
      (Some x, Some y) \<Rightarrow> pf_eq x y
    | (None, None) \<Rightarrow> (case (a, b) of
          (JNull, JNull) \<Rightarrow> True
        | (JStr s, JStr t) \<Rightarrow> s = t
        | (JArr xs, JArr ys) \<Rightarrow> length xs = length ys \<and> (\<forall>(x, y) \<in> set (zip xs ys). py_eq x y)
        | (JObj o1, JObj o2) \<Rightarrow> length o1 = length o2 \<and>
            (\<forall>(k, v) \<in> set o1. case map_of o2 k of None \<Rightarrow> False | Some w \<Rightarrow> py_eq v w)
        | _ \<Rightarrow> False)
    | _ \<Rightarrow> False)"
  by pat_completeness auto

lemma json_size_elem: "x \<in> set xs \<Longrightarrow> size x < size (JArr xs)"
  by (simp add: less_Suc_eq_le size_list_estimation')

lemma json_size_value: "(k, v) \<in> set ob \<Longrightarrow> size v < size (JObj ob)"
proof -
  assume "(k, v) \<in> set ob"
  then have "size_prod (\<lambda>_. 0) size (k, v) \<le> size_list (size_prod (\<lambda>_. 0) size) ob"
    by (rule size_list_estimation') simp
  then show ?thesis by simp
qed

termination py_eq
  by (relation "measure (size \<circ> fst)")
    (auto dest: json_size_value dest!: set_zip_leftD json_size_elem)

declare py_eq.simps [simp del]

lemma json_size_map_of: "map_of ob k = Some v \<Longrightarrow> size v < size (JObj ob)"
  by (rule json_size_value) (rule map_of_SomeD)

subsection \<open>Rounding\<close>

text \<open>\<open>round(x, n)\<close>, halves to even.\<close>

definition py_round :: "nat \<Rightarrow> rat \<Rightarrow> rat" where
  "py_round n x =
     (let y = x * 10 ^ n; f = \<lfloor>y\<rfloor>; d = y - of_int f
      in of_int (if d < 1 / 2 then f else if d > 1 / 2 then f + 1 else if even f then f else f + 1) / 10 ^ n)"

lemma py_round_mono_bounds:
  assumes "0 \<le> x" "x \<le> 1"
  shows "0 \<le> py_round n x" "py_round n x \<le> 1"
proof -
  let ?y = "x * 10 ^ n"
  have f0: "0 \<le> \<lfloor>?y\<rfloor>" using assms by simp
  have y: "?y \<le> of_int (10 ^ n)" using assms by (simp add: mult_le_cancel_right1)
  have "of_int \<lfloor>?y\<rfloor> \<le> ?y" by simp
  then have fle: "\<lfloor>?y\<rfloor> \<le> 10 ^ n" using y by (meson floor_le_iff of_int_le_iff order_trans)
  have up: "\<lfloor>?y\<rfloor> + 1 \<le> 10 ^ n" if "0 < ?y - of_int \<lfloor>?y\<rfloor>"
  proof -
    have "(of_int \<lfloor>?y\<rfloor> :: rat) < of_int (10 ^ n)" using that y by linarith
    then show ?thesis by (simp only: of_int_less_iff)
  qed
  define g where "g = (if ?y - of_int \<lfloor>?y\<rfloor> < 1 / 2 then \<lfloor>?y\<rfloor> else if ?y - of_int \<lfloor>?y\<rfloor> > 1 / 2 then \<lfloor>?y\<rfloor> + 1
      else if even \<lfloor>?y\<rfloor> then \<lfloor>?y\<rfloor> else \<lfloor>?y\<rfloor> + 1)"
  have "0 \<le> g" "g \<le> 10 ^ n" using f0 fle up by (auto simp: g_def)
  moreover have "py_round n x = of_int g / 10 ^ n" by (simp only: py_round_def Let_def g_def)
  moreover have "(of_int g :: rat) \<le> 10 ^ n" using \<open>g \<le> 10 ^ n\<close> of_int_le_iff [of g "10 ^ n", where 'a = rat] by simp
  ultimately show "0 \<le> py_round n x" "py_round n x \<le> 1" by simp_all
qed

lemma py_round_error: "\<bar>py_round n x - x\<bar> \<le> 1 / (2 * 10 ^ n)"
proof -
  let ?y = "x * 10 ^ n"
  define g where "g = (if ?y - of_int \<lfloor>?y\<rfloor> < 1 / 2 then \<lfloor>?y\<rfloor> else if ?y - of_int \<lfloor>?y\<rfloor> > 1 / 2 then \<lfloor>?y\<rfloor> + 1
      else if even \<lfloor>?y\<rfloor> then \<lfloor>?y\<rfloor> else \<lfloor>?y\<rfloor> + 1)"
  have "?y < of_int \<lfloor>?y\<rfloor> + 1" "of_int \<lfloor>?y\<rfloor> \<le> ?y" by linarith+
  then have "\<bar>of_int g - ?y\<bar> \<le> 1 / 2"
    unfolding g_def by (cases "?y - of_int \<lfloor>?y\<rfloor> < 1 / 2"; cases "?y - of_int \<lfloor>?y\<rfloor> > 1 / 2"; cases "even \<lfloor>?y\<rfloor>")
      (simp_all only: if_True if_False of_int_add of_int_1 abs_le_iff; linarith)+
  moreover have "py_round n x = of_int g / 10 ^ n" by (simp only: py_round_def Let_def g_def)
  then have "py_round n x - x = (of_int g - ?y) / 10 ^ n" by (simp add: diff_divide_distrib)
  moreover have "\<bar>of_int g - ?y\<bar> / 10 ^ n \<le> (1 / 2) / 10 ^ n" if "\<bar>of_int g - ?y\<bar> \<le> 1 / 2"
    by (rule divide_right_mono [OF that]) simp
  ultimately show ?thesis by (simp add: abs_divide)
qed

end
