(* ===== verification/Mcp_Schema.thy ===== *)
theory Mcp_Schema
  imports Json
begin

text \<open>
  \<^verbatim>\<open>mcp/schema.py\<close>: the validator of tool arguments, and the two schemas of
  \<^verbatim>\<open>mcp/app.py\<close>.

  A schema is a JSON object. The two exception classes are \<open>Definition_error\<close> and
  \<open>Validation_error\<close>, with the path and a reason instead of message text. The mutually
  recursive functions of the source are written over an argument \<open>rec\<close> for the recursive
  \<open>_validate\<close>, which \<open>validate\<close> ties; every recursive call is on a schema nested
  inside the present one, so the recursion ends. \<open>re.search\<close> is the argument
  \<open>re\<close>: \<open>None\<close> for a pattern that does not compile.
\<close>

datatype seg = Key string | Index nat

type_synonym path = "seg list"

datatype reason =
    Ref_unsupported | Unsupported_type json | Expected string | Not_const | Enum_not_array | Not_in_enum
  | Combinator_not_array string | Combinator_not_objects string | No_alternative | Not_exactly_one
  | Properties_not_object | Required_malformed | Missing | Property_schema_not_object
  | Unexpected_property | Additional_malformed | Items_not_object | Pattern_not_string
  | Pattern_invalid | Pattern_mismatch | Bound_not_numeric string | Below_minimum | Above_maximum
  | Not_an_object

datatype schema_error = Definition_error path reason | Validation_error path reason

type_synonym outcome = "schema_error + unit"
type_synonym regex = "string \<Rightarrow> string \<Rightarrow> bool option"
type_synonym validator = "obj \<Rightarrow> json \<Rightarrow> path \<Rightarrow> outcome"

definition andthen :: "outcome \<Rightarrow> outcome \<Rightarrow> outcome" where
  "andthen a b = (case a of Inl e \<Rightarrow> Inl e | Inr _ \<Rightarrow> b)"

fun first_error :: "outcome list \<Rightarrow> outcome" where
  "first_error [] = Inr ()"
| "first_error (r # rs) = andthen r (first_error rs)"

definition SUPPORTED_TYPES :: "string list" where
  "SUPPORTED_TYPES = [''array'', ''boolean'', ''integer'', ''null'', ''number'', ''object'', ''string'']"

subsection \<open>Checks without recursion\<close>

fun is_number :: "json \<Rightarrow> bool" where
  "is_number (JInt _) = True"
| "is_number (JFloat _) = True"
| "is_number _ = False"

fun matches_type :: "json \<Rightarrow> string \<Rightarrow> bool" where
  "matches_type (JObj _) t = (t = ''object'')"
| "matches_type (JArr _) t = (t = ''array'')"
| "matches_type (JStr _) t = (t = ''string'')"
| "matches_type (JBool _) t = (t = ''boolean'')"
| "matches_type (JInt _) t = (t = ''integer'' \<or> t = ''number'')"
| "matches_type (JFloat _) t = (t = ''number'')"
| "matches_type JNull t = (t = ''null'')"

fun json_lt :: "json \<Rightarrow> json \<Rightarrow> bool" where
  "json_lt a b = (case (num_val a, num_val b) of (Some x, Some y) \<Rightarrow> pf_lt x y | _ \<Rightarrow> False)"

definition validate_bound :: "json \<Rightarrow> obj \<Rightarrow> string \<Rightarrow> string \<Rightarrow> path \<Rightarrow> outcome" where
  "validate_bound v s lo hi p = andthen
     (case map_of s lo of
        None \<Rightarrow> Inr ()
      | Some l \<Rightarrow> if \<not> is_number l then Inl (Definition_error p (Bound_not_numeric lo))
                  else if json_lt v l then Inl (Validation_error p Below_minimum) else Inr ())
     (case map_of s hi of
        None \<Rightarrow> Inr ()
      | Some h \<Rightarrow> if \<not> is_number h then Inl (Definition_error p (Bound_not_numeric hi))
                  else if json_lt h v then Inl (Validation_error p Above_maximum) else Inr ())"

definition validate_string :: "regex \<Rightarrow> string \<Rightarrow> obj \<Rightarrow> path \<Rightarrow> outcome" where
  "validate_string re v s p = andthen
     (validate_bound (JInt (int (length v))) s ''minLength'' ''maxLength'' p)
     (case map_of s ''pattern'' of
        None \<Rightarrow> Inr ()
      | Some (JStr pat) \<Rightarrow> (case re pat v of
            None \<Rightarrow> Inl (Definition_error p Pattern_invalid)
          | Some False \<Rightarrow> Inl (Validation_error p Pattern_mismatch)
          | Some True \<Rightarrow> Inr ())
      | Some _ \<Rightarrow> Inl (Definition_error p Pattern_not_string))"

definition validate_number :: "json \<Rightarrow> obj \<Rightarrow> path \<Rightarrow> outcome" where
  "validate_number v s p = validate_bound v s ''minimum'' ''maximum'' p"

definition validate_type :: "json \<Rightarrow> obj \<Rightarrow> path \<Rightarrow> outcome" where
  "validate_type v s p = (case map_of s ''type'' of
      None \<Rightarrow> Inr ()
    | Some JNull \<Rightarrow> Inr ()
    | Some (JStr t) \<Rightarrow>
        if t \<notin> set SUPPORTED_TYPES then Inl (Definition_error p (Unsupported_type (JStr t)))
        else if matches_type v t then Inr () else Inl (Validation_error p (Expected t))
    | Some t \<Rightarrow> Inl (Definition_error p (Unsupported_type t)))"

definition validate_const_enum :: "json \<Rightarrow> obj \<Rightarrow> path \<Rightarrow> outcome" where
  "validate_const_enum v s p = andthen
     (case map_of s ''const'' of
        None \<Rightarrow> Inr ()
      | Some c \<Rightarrow> if py_eq v c then Inr () else Inl (Validation_error p Not_const))
     (case map_of s ''enum'' of
        None \<Rightarrow> Inr ()
      | Some (JArr vs) \<Rightarrow> if \<exists>w \<in> set vs. py_eq v w then Inr () else Inl (Validation_error p Not_in_enum)
      | Some _ \<Rightarrow> Inl (Definition_error p Enum_not_array))"

subsection \<open>Checks with recursion\<close>

fun is_obj :: "json \<Rightarrow> bool" where
  "is_obj (JObj _) = True"
| "is_obj _ = False"

fun obj_of :: "json \<Rightarrow> obj" where
  "obj_of (JObj ob) = ob"
| "obj_of _ = []"

text \<open>The count of matching alternatives; an error of definition is not caught.\<close>

fun count_matches :: "outcome list \<Rightarrow> schema_error + nat" where
  "count_matches [] = Inr 0"
| "count_matches (r # rs) = (case r of
      Inl (Definition_error p e) \<Rightarrow> Inl (Definition_error p e)
    | Inl (Validation_error _ _) \<Rightarrow> count_matches rs
    | Inr _ \<Rightarrow> (case count_matches rs of Inl e \<Rightarrow> Inl e | Inr n \<Rightarrow> Inr (n + 1)))"

definition validate_combinator :: "validator \<Rightarrow> json \<Rightarrow> obj \<Rightarrow> path \<Rightarrow> string \<Rightarrow> outcome" where
  "validate_combinator rec v s p key = (case map_of s key of
      None \<Rightarrow> Inr ()
    | Some (JArr alts) \<Rightarrow>
        if alts = [] then Inl (Definition_error p (Combinator_not_array key))
        else if \<not> list_all is_obj alts then Inl (Definition_error p (Combinator_not_objects key))
        else if key = ''allOf'' then first_error (map (\<lambda>a. rec (obj_of a) v p) alts)
        else (case count_matches (map (\<lambda>a. rec (obj_of a) v p) alts) of
            Inl e \<Rightarrow> Inl e
          | Inr n \<Rightarrow>
              if key = ''anyOf'' \<and> n = 0 then Inl (Validation_error p No_alternative)
              else if key = ''oneOf'' \<and> n \<noteq> 1 then Inl (Validation_error p Not_exactly_one)
              else Inr ())
    | Some _ \<Rightarrow> Inl (Definition_error p (Combinator_not_array key)))"

definition validate_combinators :: "validator \<Rightarrow> json \<Rightarrow> obj \<Rightarrow> path \<Rightarrow> outcome" where
  "validate_combinators rec v s p =
     first_error (map (validate_combinator rec v s p) [''allOf'', ''anyOf'', ''oneOf''])"

definition validate_member :: "validator \<Rightarrow> obj \<Rightarrow> obj \<Rightarrow> path \<Rightarrow> string \<times> json \<Rightarrow> outcome" where
  "validate_member rec props s p = (\<lambda>(name, item).
     case map_of props name of
       Some child \<Rightarrow>
         if is_obj child then rec (obj_of child) item (p @ [Key name])
         else Inl (Definition_error (p @ [Key name]) Property_schema_not_object)
     | None \<Rightarrow> (case map_of s ''additionalProperties'' of
           None \<Rightarrow> Inr ()
         | Some (JBool True) \<Rightarrow> Inr ()
         | Some (JBool False) \<Rightarrow> Inl (Validation_error (p @ [Key name]) Unexpected_property)
         | Some (JObj extra) \<Rightarrow> rec extra item (p @ [Key name])
         | Some _ \<Rightarrow> Inl (Definition_error p Additional_malformed)))"

fun is_str :: "json \<Rightarrow> bool" where
  "is_str (JStr _) = True"
| "is_str _ = False"

fun str_of :: "json \<Rightarrow> string" where
  "str_of (JStr s) = s"
| "str_of _ = []"

definition required_names :: "obj \<Rightarrow> string list option" where
  "required_names s = (case get_or s ''required'' (JArr []) of
      JArr names \<Rightarrow> if list_all is_str names then Some (map str_of names) else None
    | _ \<Rightarrow> None)"

definition validate_object :: "validator \<Rightarrow> obj \<Rightarrow> obj \<Rightarrow> path \<Rightarrow> outcome" where
  "validate_object rec v s p = (case get_or s ''properties'' (JObj []) of
      JObj props \<Rightarrow> (case required_names s of
          None \<Rightarrow> Inl (Definition_error p Required_malformed)
        | Some names \<Rightarrow> andthen
            (first_error (map (\<lambda>n. if has_key v n then Inr ()
                                   else Inl (Validation_error (p @ [Key n]) Missing)) names))
            (first_error (map (validate_member rec props s p) v)))
    | _ \<Rightarrow> Inl (Definition_error p Properties_not_object))"

definition validate_array :: "validator \<Rightarrow> json list \<Rightarrow> obj \<Rightarrow> path \<Rightarrow> outcome" where
  "validate_array rec vs s p = andthen
     (validate_bound (JInt (int (length vs))) s ''minItems'' ''maxItems'' p)
     (case map_of s ''items'' of
        None \<Rightarrow> Inr ()
      | Some (JObj item) \<Rightarrow>
          first_error (map (\<lambda>(i, x). rec item x (p @ [Index i])) (enumerate 0 vs))
      | Some _ \<Rightarrow> Inl (Definition_error p Items_not_object))"

definition validate_body :: "regex \<Rightarrow> validator \<Rightarrow> obj \<Rightarrow> json \<Rightarrow> path \<Rightarrow> outcome" where
  "validate_body re rec s v p =
     (if has_key s ''$ref'' then Inl (Definition_error p Ref_unsupported)
      else andthen (validate_combinators rec v s p) (andthen (validate_type v s p)
        (andthen (validate_const_enum v s p)
          (case v of
             JObj ob \<Rightarrow> validate_object rec ob s p
           | JArr vs \<Rightarrow> validate_array rec vs s p
           | JStr t \<Rightarrow> validate_string re t s p
           | JInt _ \<Rightarrow> validate_number v s p
           | JFloat _ \<Rightarrow> validate_number v s p
           | _ \<Rightarrow> Inr ()))))"

subsection \<open>The recursion\<close>

abbreviation nested :: "obj \<Rightarrow> obj \<Rightarrow> bool" where
  "nested ob s \<equiv> size (JObj ob) < size (JObj s)"

lemma size_obj_of: "is_obj a \<Longrightarrow> size (JObj (obj_of a)) = size a"
  by (cases a) simp_all

lemma nested_via_array:
  "map_of s k = Some (JArr alts) \<Longrightarrow> a \<in> set alts \<Longrightarrow> is_obj a \<Longrightarrow> nested (obj_of a) s"
  using json_size_map_of [of s k "JArr alts"] json_size_elem [of a alts] by (simp add: size_obj_of del: json.size)

lemma nested_via_object:
  "map_of s k = Some (JObj props) \<Longrightarrow> map_of props n = Some child \<Longrightarrow> is_obj child \<Longrightarrow> nested (obj_of child) s"
  using json_size_map_of [of s k "JObj props"] json_size_map_of [of props n child]
  by (simp add: size_obj_of del: json.size)

lemma nested_direct: "map_of s k = Some (JObj ob) \<Longrightarrow> nested ob s"
  using json_size_map_of by blast

lemma validate_combinators_cong:
  assumes "\<And>ob. nested ob s \<Longrightarrow> rec ob = rec' ob"
  shows "validate_combinators rec v s p = validate_combinators rec' v s p"
proof -
  have "validate_combinator rec v s p key = validate_combinator rec' v s p key" for key
  proof (cases "map_of s key")
    case (Some j)
    show ?thesis
    proof (cases j)
      case (JArr alts)
      have "map (\<lambda>a. rec (obj_of a) v p) alts = map (\<lambda>a. rec' (obj_of a) v p) alts" if "list_all is_obj alts"
      proof (intro map_cong refl)
        fix a assume "a \<in> set alts"
        with that have "nested (obj_of a) s"
          using Some JArr nested_via_array by (metis list.pred_set)
        then show "rec (obj_of a) v p = rec' (obj_of a) v p" by (simp only: assms)
      qed
      then show ?thesis
        using Some JArr
        by (cases "list_all is_obj alts") (simp_all add: validate_combinator_def del: map_eq_conv)
    qed (use Some in \<open>simp_all add: validate_combinator_def\<close>)
  qed (simp add: validate_combinator_def)
  then show ?thesis by (simp add: validate_combinators_def)
qed

lemma validate_object_cong:
  assumes "\<And>ob. nested ob s \<Longrightarrow> rec ob = rec' ob"
  shows "validate_object rec v s p = validate_object rec' v s p"
proof (cases "get_or s ''properties'' (JObj [])")
  case (JObj props)
  have child: "rec (obj_of c) = rec' (obj_of c)" if "map_of props n = Some c" "is_obj c" for n c
  proof -
    have "map_of s ''properties'' = Some (JObj props)"
      using JObj that(1) by (auto simp: get_or_def split: option.splits)
    then show ?thesis using nested_via_object that assms by blast
  qed
  have "validate_member rec props s p = validate_member rec' props s p"
    using child assms nested_direct [of s "''additionalProperties''"]
    by (auto simp: validate_member_def fun_eq_iff split: option.splits json.splits bool.splits simp del: json.size)
  then show ?thesis using JObj by (simp add: validate_object_def split: option.splits)
qed (simp_all add: validate_object_def)

lemma validate_array_cong:
  assumes "\<And>ob. nested ob s \<Longrightarrow> rec ob = rec' ob"
  shows "validate_array rec vs s p = validate_array rec' vs s p"
  using assms nested_direct [of s "''items''"]
  by (auto simp: validate_array_def split: option.splits json.splits simp del: json.size)

lemma validate_body_cong [fundef_cong]:
  assumes "re = re'" "s = s'" "v = v'" "p = p'" "\<And>ob v p. nested ob s' \<Longrightarrow> rec ob v p = rec' ob v p"
  shows "validate_body re rec s v p = validate_body re' rec' s' v' p'"
proof -
  have eq: "\<And>ob. nested ob s' \<Longrightarrow> rec ob = rec' ob" using assms(5) by blast
  have "validate_combinators rec v' s' p' = validate_combinators rec' v' s' p'"
    by (rule validate_combinators_cong) (rule eq)
  moreover have "validate_object rec ob s' p' = validate_object rec' ob s' p'" for ob
    by (rule validate_object_cong) (rule eq)
  moreover have "validate_array rec vs s' p' = validate_array rec' vs s' p'" for vs
    by (rule validate_array_cong) (rule eq)
  ultimately show ?thesis
    unfolding validate_body_def assms(1-4) by (simp split: json.split)
qed

function validate :: "regex \<Rightarrow> obj \<Rightarrow> json \<Rightarrow> path \<Rightarrow> outcome" where
  "validate re s v p = validate_body re (validate re) s v p"
  by pat_completeness auto
termination
  by (relation "measure (\<lambda>(_, s, _, _). size (JObj s))") (auto simp del: json.size)

declare validate.simps [simp del]

definition validate_arguments :: "regex \<Rightarrow> json \<Rightarrow> json \<Rightarrow> schema_error + obj" where
  "validate_arguments re args schema = (case args of
      JObj a \<Rightarrow> (case schema of
          JObj s \<Rightarrow>
            (let s' = (if has_key s ''type'' then s else s @ [(''type'', JStr ''object'')])
             in case validate re s' (JObj a) [] of Inl e \<Rightarrow> Inl e | Inr _ \<Rightarrow> Inr a)
        | _ \<Rightarrow> Inl (Definition_error [] Not_an_object))
    | _ \<Rightarrow> Inl (Validation_error [] Not_an_object))"

subsection \<open>Acceptance\<close>

abbreviation accepts :: "regex \<Rightarrow> obj \<Rightarrow> json \<Rightarrow> path \<Rightarrow> bool" where
  "accepts re s v p \<equiv> validate re s v p = Inr ()"

lemma andthen_ok [simp]: "andthen a b = Inr u \<longleftrightarrow> a = Inr () \<and> b = Inr ()"
  by (cases a; cases b) (auto simp: andthen_def)

lemma first_error_ok [simp]: "first_error rs = Inr u \<longleftrightarrow> (\<forall>r \<in> set rs. r = Inr ())"
  by (induction rs) auto

lemma Inr_unit_if [simp]:
  "((if b then Inr () else Inl e) = Inr u) = b" "((if b then Inl e else Inr ()) = Inr u) = (\<not> b)"
  by auto

text \<open>The schemas of the tools use neither references nor combinators nor \<open>const\<close>.\<close>

definition plain_schema :: "obj \<Rightarrow> bool" where
  "plain_schema s \<longleftrightarrow>
     (\<forall>k \<in> {''$ref'', ''allOf'', ''anyOf'', ''oneOf'', ''const''}. map_of s k = None)"

lemma accepts_plain:
  assumes "plain_schema s"
  shows "accepts re s v p \<longleftrightarrow> validate_type v s p = Inr () \<and> validate_const_enum v s p = Inr () \<and>
    (case v of
       JObj ob \<Rightarrow> validate_object (validate re) ob s p = Inr ()
     | JArr vs \<Rightarrow> validate_array (validate re) vs s p = Inr ()
     | JStr t \<Rightarrow> validate_string re t s p = Inr ()
     | JInt _ \<Rightarrow> validate_number v s p = Inr ()
     | JFloat _ \<Rightarrow> validate_number v s p = Inr ()
     | _ \<Rightarrow> True)"
  using assms
  by (subst validate.simps) (auto simp: validate_body_def validate_combinators_def validate_combinator_def
      plain_schema_def has_key_def split: json.split)

lemmas accepts_simps = accepts_plain plain_schema_def validate_type_def validate_const_enum_def
  SUPPORTED_TYPES_def validate_string_def validate_number_def validate_bound_def

lemma accepts_string:
  "accepts re [(''type'', JStr ''string''), (''minLength'', JInt lo), (''maxLength'', JInt hi)] v p \<longleftrightarrow>
   (\<exists>s. v = JStr s \<and> lo \<le> int (length s) \<and> int (length s) \<le> hi)"
  by (cases v) (auto simp: accepts_simps)

lemma accepts_string_min:
  "accepts re [(''type'', JStr ''string''), (''minLength'', JInt lo)] v p \<longleftrightarrow>
   (\<exists>s. v = JStr s \<and> lo \<le> int (length s))"
  by (cases v) (auto simp: accepts_simps)

lemma accepts_integer:
  "accepts re [(''type'', JStr ''integer''), (''minimum'', JInt lo), (''maximum'', JInt hi)] v p \<longleftrightarrow>
   (\<exists>i. v = JInt i \<and> lo \<le> i \<and> i \<le> hi)"
  by (cases v) (auto simp: accepts_simps validate_object_def validate_array_def)

lemma accepts_number: "accepts re [(''type'', JStr ''number'')] v p \<longleftrightarrow> is_number v"
  by (cases v) (auto simp: accepts_simps)

lemma accepts_boolean: "accepts re [(''type'', JStr ''boolean'')] v p \<longleftrightarrow> (\<exists>b. v = JBool b)"
  by (cases v) (auto simp: accepts_simps)

lemma accepts_any_object:
  "accepts re [(''type'', JStr ''object''), (''additionalProperties'', JBool True)] v p \<longleftrightarrow> is_obj v"
  by (cases v)
    (auto simp: accepts_simps validate_object_def get_or_def required_names_def validate_member_def split_def)

lemma ball_enumerate: "(\<forall>r \<in> set (enumerate n xs). P (snd r)) \<longleftrightarrow> (\<forall>x \<in> set xs. P x)"
  by (induction xs arbitrary: n) simp_all

lemma accepts_string_array:
  "accepts re [(''type'', JStr ''array''), (''items'', JObj [(''type'', JStr ''string''), (''minLength'', JInt lo)]),
     (''maxItems'', JInt hi)] v p \<longleftrightarrow>
   (\<exists>vs. v = JArr vs \<and> int (length vs) \<le> hi \<and> (\<forall>x \<in> set vs. \<exists>s. x = JStr s \<and> lo \<le> int (length s)))"
  by (cases v)
    (auto simp: accepts_plain plain_schema_def validate_type_def validate_const_enum_def SUPPORTED_TYPES_def
      validate_array_def validate_bound_def accepts_string_min split_def
      ball_enumerate [where P = "\<lambda>x. \<exists>s. x = JStr s \<and> lo \<le> int (length s)"])

lemma py_eq_str: "py_eq v (JStr s) \<longleftrightarrow> v = JStr s"
  by (cases v) (auto simp: py_eq.simps)

lemma accepts_enum:
  "accepts re [(''type'', JStr ''string''), (''enum'', JArr (map JStr names))] v p \<longleftrightarrow>
   (\<exists>s \<in> set names. v = JStr s)"
  by (cases v) (auto simp: accepts_simps py_eq_str)

text \<open>
  An object schema with \<open>additionalProperties: false\<close>: every member is declared and fits
  its own schema, and no required member is missing.
\<close>

lemma accepts_closed_object:
  assumes "map_of s ''type'' = Some (JStr ''object'')" "map_of s ''properties'' = Some (JObj props)"
    and "map_of s ''required'' = Some (JArr (map JStr names))"
    and "map_of s ''additionalProperties'' = Some (JBool False)"
    and "plain_schema s" "map_of s ''enum'' = None" "list_all (is_obj \<circ> snd) props"
  shows "accepts re s (JObj a) p \<longleftrightarrow>
    (\<forall>n \<in> set names. has_key a n) \<and>
    (\<forall>(k, v) \<in> set a. \<exists>c. map_of props k = Some (JObj c) \<and> accepts re c v (p @ [Key k]))"
proof -
  have names: "required_names s = Some names"
    using assms(3) by (simp add: required_names_def get_or_def list_all_iff map_idI)
  have "validate_member (validate re) props s p (k, v) = Inr () \<longleftrightarrow>
      (\<exists>c. map_of props k = Some (JObj c) \<and> accepts re c v (p @ [Key k]))" for k v
  proof (cases "map_of props k")
    case (Some c)
    with assms(7) have "is_obj c" by (auto simp: list_all_iff dest!: map_of_SomeD)
    with Some show ?thesis by (cases c) (auto simp: validate_member_def)
  qed (use assms(4) in \<open>simp add: validate_member_def\<close>)
  then show ?thesis
    using assms names
    by (auto simp: accepts_plain validate_type_def validate_const_enum_def plain_schema_def SUPPORTED_TYPES_def
        validate_object_def get_or_def)
qed

lemma validate_arguments_typed:
  "has_key s ''type'' \<Longrightarrow> validate_arguments re (JObj a) (JObj s) = Inr a \<longleftrightarrow> accepts re s (JObj a) []"
  by (auto simp: validate_arguments_def split: sum.splits)

lemma has_type: "s = (''type'', t) # rest \<Longrightarrow> has_key s ''type''"
  by (simp add: has_key_def)

subsection \<open>The schemas of the server\<close>

definition RETRIEVAL_TOOL_SCHEMA :: obj where
  "RETRIEVAL_TOOL_SCHEMA =
     [(''type'', JStr ''object''),
      (''properties'', JObj
        [(''query'', JObj [(''type'', JStr ''string''), (''minLength'', JInt 1), (''maxLength'', JInt 8000)]),
         (''top_k'', JObj [(''type'', JStr ''integer''), (''minimum'', JInt 1), (''maximum'', JInt 20)]),
         (''company'', JObj [(''type'', JStr ''string''), (''minLength'', JInt 1)]),
         (''document_ids'', JObj [(''type'', JStr ''array''),
            (''items'', JObj [(''type'', JStr ''string''), (''minLength'', JInt 1)]), (''maxItems'', JInt 100)]),
         (''filters'', JObj [(''type'', JStr ''object''), (''additionalProperties'', JBool True)]),
         (''include_public'', JObj [(''type'', JStr ''boolean'')])]),
      (''required'', JArr [JStr ''query'']),
      (''additionalProperties'', JBool False)]"

definition METRIC_OPERATIONS :: "string list" where
  "METRIC_OPERATIONS = [''growth_rate'', ''margin'', ''ratio'', ''cagr'']"

definition METRIC_OPERANDS :: "string list" where
  "METRIC_OPERANDS = [''current'', ''previous'', ''numerator'', ''denominator'', ''starting_value'', ''ending_value'', ''periods'']"

definition FINANCIAL_METRICS_TOOL_SCHEMA :: obj where
  "FINANCIAL_METRICS_TOOL_SCHEMA =
     [(''type'', JStr ''object''),
      (''properties'', JObj
        ([(''operation'', JObj [(''type'', JStr ''string''), (''enum'', JArr (map JStr METRIC_OPERATIONS))])]
         @ map (\<lambda>n. (n, JObj [(''type'', JStr ''number'')])) METRIC_OPERANDS
         @ [(''precision'', JObj [(''type'', JStr ''integer''), (''minimum'', JInt 0), (''maximum'', JInt 10)])])),
      (''required'', JArr [JStr ''operation'']),
      (''additionalProperties'', JBool False)]"

fun retrieval_member :: "string \<times> json \<Rightarrow> bool" where
  "retrieval_member (k, v) \<longleftrightarrow>
     (k = ''query'' \<and> (\<exists>q. v = JStr q \<and> 1 \<le> length q \<and> length q \<le> 8000)) \<or>
     (k = ''top_k'' \<and> (\<exists>n. v = JInt n \<and> 1 \<le> n \<and> n \<le> 20)) \<or>
     (k = ''company'' \<and> (\<exists>c. v = JStr c \<and> c \<noteq> [])) \<or>
     (k = ''document_ids'' \<and> (\<exists>ds. v = JArr ds \<and> length ds \<le> 100 \<and> (\<forall>d \<in> set ds. \<exists>x. d = JStr x \<and> x \<noteq> []))) \<or>
     (k = ''filters'' \<and> is_obj v) \<or>
     (k = ''include_public'' \<and> (\<exists>b. v = JBool b))"

text \<open>
  Arguments of the retrieval tool. The validator accepts an argument object exactly when it has a
  query of 1 to 8000 characters, any \<open>top_k\<close> is an integer (not a boolean, not a float)
  from 1 to 20, companies and document ids are non-empty strings with at most 100 ids,
  \<open>filters\<close> is an object and \<open>include_public\<close> a boolean, and there is nothing else:
  in particular no \<open>tenant_id\<close> and no adapter can be passed in by the caller.
\<close>

theorem retrieval_arguments_exact:
  "validate_arguments re (JObj a) (JObj RETRIEVAL_TOOL_SCHEMA) = Inr a \<longleftrightarrow>
   has_key a ''query'' \<and> (\<forall>m \<in> set a. retrieval_member m)"
proof -
  let ?props = "obj_of (get_or RETRIEVAL_TOOL_SCHEMA ''properties'' JNull)"
  have "(\<exists>c. map_of ?props k = Some (JObj c) \<and> accepts re c v [Key k]) \<longleftrightarrow> retrieval_member (k, v)" for k v
    by (simp add: RETRIEVAL_TOOL_SCHEMA_def get_or_def accepts_string accepts_string_min accepts_integer
        accepts_string_array accepts_any_object accepts_boolean Suc_le_eq conj_disj_distribR ex_disj_distrib
        length_greater_0_conv [symmetric] del: length_greater_0_conv)
  moreover have "accepts re RETRIEVAL_TOOL_SCHEMA (JObj a) [] \<longleftrightarrow>
      (\<forall>n \<in> set [''query'']. has_key a n) \<and>
      (\<forall>(k, v) \<in> set a. \<exists>c. map_of ?props k = Some (JObj c) \<and> accepts re c v ([] @ [Key k]))"
    by (rule accepts_closed_object) (simp_all add: RETRIEVAL_TOOL_SCHEMA_def get_or_def plain_schema_def)
  ultimately show ?thesis
    using validate_arguments_typed [of RETRIEVAL_TOOL_SCHEMA re a]
    by (simp add: RETRIEVAL_TOOL_SCHEMA_def [THEN has_type] split_beta del: retrieval_member.simps)
qed

text \<open>
  Arguments of the metrics tool. The validator accepts exactly the objects with one of the four
  operations, numeric operands (integers or floats, never booleans or strings), an integer
  \<open>precision\<close> from 0 to 10 and nothing else.
\<close>

theorem metrics_arguments_exact:
  "validate_arguments re (JObj a) (JObj FINANCIAL_METRICS_TOOL_SCHEMA) = Inr a \<longleftrightarrow>
   has_key a ''operation'' \<and>
   (\<forall>(k, v) \<in> set a.
      (k = ''operation'' \<and> (\<exists>s \<in> set METRIC_OPERATIONS. v = JStr s)) \<or>
      (k \<in> set METRIC_OPERANDS \<and> is_number v) \<or>
      (k = ''precision'' \<and> (\<exists>n. v = JInt n \<and> 0 \<le> n \<and> n \<le> 10)))"
proof -
  let ?props = "obj_of (get_or FINANCIAL_METRICS_TOOL_SCHEMA ''properties'' JNull)"
  have "(\<exists>c. map_of ?props k = Some (JObj c) \<and> accepts re c v [Key k]) \<longleftrightarrow>
      (k = ''operation'' \<and> (\<exists>s \<in> set METRIC_OPERATIONS. v = JStr s)) \<or>
      (k \<in> set METRIC_OPERANDS \<and> is_number v) \<or>
      (k = ''precision'' \<and> (\<exists>n. v = JInt n \<and> 0 \<le> n \<and> n \<le> 10))" for k v
    by (simp add: accepts_enum FINANCIAL_METRICS_TOOL_SCHEMA_def METRIC_OPERANDS_def get_or_def accepts_integer accepts_number)
  moreover have "accepts re FINANCIAL_METRICS_TOOL_SCHEMA (JObj a) [] \<longleftrightarrow>
      (\<forall>n \<in> set [''operation'']. has_key a n) \<and>
      (\<forall>(k, v) \<in> set a. \<exists>c. map_of ?props k = Some (JObj c) \<and> accepts re c v ([] @ [Key k]))"
    by (rule accepts_closed_object)
      (simp_all add: FINANCIAL_METRICS_TOOL_SCHEMA_def METRIC_OPERANDS_def get_or_def plain_schema_def)
  ultimately show ?thesis
    using validate_arguments_typed [of FINANCIAL_METRICS_TOOL_SCHEMA re a]
    by (simp add: FINANCIAL_METRICS_TOOL_SCHEMA_def [THEN has_type] split_beta del: retrieval_member.simps)
qed

theorem retrieval_arguments_exact_witness:
  "validate_arguments (\<lambda>_ _. None) (JObj [(''query'', JStr ''net income''), (''top_k'', JInt 5)])
      (JObj RETRIEVAL_TOOL_SCHEMA) = Inr [(''query'', JStr ''net income''), (''top_k'', JInt 5)] \<and>
   validate_arguments (\<lambda>_ _. None) (JObj [(''query'', JStr ''net income''), (''tenant_id'', JInt 2)])
      (JObj RETRIEVAL_TOOL_SCHEMA) \<noteq> Inr [(''query'', JStr ''net income''), (''tenant_id'', JInt 2)]"
  by (simp add: retrieval_arguments_exact has_key_def)

theorem metrics_arguments_exact_witness:
  "validate_arguments (\<lambda>_ _. None) (JObj [(''operation'', JStr ''ratio''), (''numerator'', JInt 5), (''denominator'', JFloat NaN)])
      (JObj FINANCIAL_METRICS_TOOL_SCHEMA)
    = Inr [(''operation'', JStr ''ratio''), (''numerator'', JInt 5), (''denominator'', JFloat NaN)] \<and>
   validate_arguments (\<lambda>_ _. None) (JObj [(''operation'', JStr ''ratio''), (''numerator'', JBool True)])
      (JObj FINANCIAL_METRICS_TOOL_SCHEMA) \<noteq> Inr [(''operation'', JStr ''ratio''), (''numerator'', JBool True)]"
  by (simp add: metrics_arguments_exact has_key_def METRIC_OPERATIONS_def METRIC_OPERANDS_def)

end
