(* ===== verification/Mcp_Server.thy ===== *)
theory Mcp_Server
  imports Mcp_Schema
begin

text \<open>
  \<^verbatim>\<open>mcp/governance.py\<close>, \<^verbatim>\<open>mcp/local_adapter.py\<close> and \<^verbatim>\<open>mcp/server.py\<close>: the
  allowlist and authorization hook, the adapter for \<open>tools/list\<close> and \<open>tools/call\<close>, and
  the connection with its three phases.

  What a tool does is a state transformer on a world \<open>'w\<close>; \<open>'c\<close> is the type of the
  request context, which the server only passes on. Requests and responses are JSON
  values. Two renderings to text are arguments of the adapter: \<open>dumps\<close> for structured
  results and \<open>schema_text\<close> for the message of a schema error.
\<close>

subsection \<open>Exceptions\<close>

datatype mcp_error =
    MCPProtocolError string
  | SchemaError schema_error
  | ToolNotAllowed string
  | ToolAuthorizationDenied string
  | ToolNotRegistered string
  | ToolExecutionError string

subsection \<open>Governance\<close>

datatype hook_answer =
    HookBool bool
  | HookDecision bool "string option"
  | HookInvalid
  | HookRaises

record 'c governance =
  allowed_tools :: "string list"
  authorization_hook :: "(string \<Rightarrow> obj \<Rightarrow> 'c \<Rightarrow> hook_answer) option"

definition make_governance :: "string list \<Rightarrow> (string \<Rightarrow> obj \<Rightarrow> 'c \<Rightarrow> hook_answer) option
    \<Rightarrow> exn + 'c governance" where
  "make_governance names hook =
     (if '''' \<in> set names then Inl (Exn ''ValueError'' ''allowed tool names must be non-empty strings'')
      else Inr \<lparr>allowed_tools = names, authorization_hook = hook\<rparr>)"

definition is_allowed :: "'c governance \<Rightarrow> string \<Rightarrow> bool" where
  "is_allowed g name \<longleftrightarrow> name \<in> set (allowed_tools g)"

definition ensure_allowed :: "'c governance \<Rightarrow> string \<Rightarrow> mcp_error + unit" where
  "ensure_allowed g name =
     (if is_allowed g name then Inr ()
      else Inl (ToolNotAllowed (''Tool '' @ quoted name @ '' is not in the allowlist'')))"

definition authorize :: "'c governance \<Rightarrow> string \<Rightarrow> obj \<Rightarrow> 'c \<Rightarrow> mcp_error + unit" where
  "authorize g name args ctx = (case ensure_allowed g name of
      Inl e \<Rightarrow> Inl e
    | Inr _ \<Rightarrow> (case authorization_hook g of
          None \<Rightarrow> Inr ()
        | Some hook \<Rightarrow> (case hook name args ctx of
              HookRaises \<Rightarrow> Inl (ToolAuthorizationDenied ''authorization hook failed'')
            | HookInvalid \<Rightarrow> Inl (ToolAuthorizationDenied ''authorization hook returned an invalid decision'')
            | HookBool True \<Rightarrow> Inr ()
            | HookBool False \<Rightarrow> Inl (ToolAuthorizationDenied (''Tool '' @ quoted name @ '' was not authorized''))
            | HookDecision True _ \<Rightarrow> Inr ()
            | HookDecision False r \<Rightarrow> Inl (ToolAuthorizationDenied (''Tool '' @ quoted name @ '' was not authorized''
                @ (case r of Some t \<Rightarrow> (if t = '''' then '''' else '': '' @ t) | None \<Rightarrow> ''''))))))"

subsection \<open>Tools and their results\<close>

text \<open>
  What a handler gives: a plain JSON value, an \<open>MCPToolResult\<close> (content, structured
  content, error flag), or a \<open>ToolResult\<close> of the tool engine (status, output, artifacts,
  latency, error, metadata).
\<close>

datatype tool_value =
    Plain json
  | McpResult "json list" json bool
  | EngineResult string json json json json json

datatype handler_out = Returns tool_value | RaisesMcp mcp_error | RaisesOther string

record ('c, 'w) local_tool =
  tool_name :: string
  description :: string
  input_schema :: json
  invoke :: "obj \<Rightarrow> 'c \<Rightarrow> 'w \<Rightarrow> handler_out \<times> 'w"

definition as_mcp_definition :: "('c, 'w) local_tool \<Rightarrow> json" where
  "as_mcp_definition t =
     JObj [(''name'', JStr (tool_name t)), (''description'', JStr (description t)), (''inputSchema'', input_schema t)]"

definition text_content :: "string \<Rightarrow> json" where
  "text_content t = JArr [JObj [(''type'', JStr ''text''), (''text'', JStr t)]]"

fun to_mcp_result :: "(json \<Rightarrow> string) \<Rightarrow> tool_value \<Rightarrow> json" where
  "to_mcp_result dumps (Plain v) =
     JObj [(''content'', text_content (case v of JStr s \<Rightarrow> s | _ \<Rightarrow> dumps v)),
           (''structuredContent'', v), (''isError'', JBool False)]"
| "to_mcp_result dumps (McpResult content structured err) =
     JObj ([(''content'', JArr content), (''isError'', JBool err)]
           @ (if structured = JNull then [] else [(''structuredContent'', structured)]))"
| "to_mcp_result dumps (EngineResult status output artifacts latency err meta) =
     (let sc = JObj [(''status'', JStr status), (''output'', output), (''artifacts'', artifacts),
                     (''latency_ms'', latency), (''error'', err), (''metadata'', meta)]
      in JObj [(''content'', text_content (case output of JStr s \<Rightarrow> s | _ \<Rightarrow> dumps sc)),
               (''structuredContent'', sc), (''isError'', JBool (status \<noteq> ''success''))])"

subsection \<open>The adapter\<close>

record ('c, 'w) adapter =
  governance_of :: "'c governance"
  tools :: "(string \<times> ('c, 'w) local_tool) list"
  dumps_of :: "json \<Rightarrow> string"
  regex_of :: regex
  schema_text :: "schema_error \<Rightarrow> string"

definition register :: "('c, 'w) local_tool \<Rightarrow> ('c, 'w) adapter \<Rightarrow> (exn + unit) \<times> ('c, 'w) adapter" where
  "register t a =
     (if map_of (tools a) (tool_name t) \<noteq> None
      then (Inl (Exn ''ValueError'' (''Tool '' @ quoted (tool_name t) @ '' is already registered'')), a)
      else (Inr (), a\<lparr>tools := tools a @ [(tool_name t, t)]\<rparr>))"

definition tools_list :: "('c, 'w) adapter \<Rightarrow> json" where
  "tools_list a = JObj [(''tools'', JArr (map (\<lambda>n. as_mcp_definition (the (map_of (tools a) n)))
     (filter (is_allowed (governance_of a)) (sort (map fst (tools a))))))]"

definition call_tool :: "('c, 'w) adapter \<Rightarrow> json \<Rightarrow> json \<Rightarrow> 'c \<Rightarrow> 'w \<Rightarrow> (mcp_error + json) \<times> 'w" where
  "call_tool a name args ctx w = (case name of
      JStr n \<Rightarrow>
        if n = '''' then (Inl (MCPProtocolError ''tools/call requires a non-empty string name''), w)
        else
          let args' = (if args = JNull then JObj [] else args) in
          if \<not> is_obj args' then (Inl (SchemaError (Validation_error [] Not_an_object)), w)
          else (case ensure_allowed (governance_of a) n of
              Inl e \<Rightarrow> (Inl e, w)
            | Inr _ \<Rightarrow> (case map_of (tools a) n of
                  None \<Rightarrow> (Inl (ToolNotRegistered (''Tool '' @ quoted n @ '' has no local handler'')), w)
                | Some t \<Rightarrow> (case validate_arguments (regex_of a) args' (input_schema t) of
                      Inl e \<Rightarrow> (Inl (SchemaError e), w)
                    | Inr validated \<Rightarrow> (case authorize (governance_of a) n validated ctx of
                          Inl e \<Rightarrow> (Inl e, w)
                        | Inr _ \<Rightarrow> (case invoke t validated ctx w of
                              (Returns v, w1) \<Rightarrow> (Inr (to_mcp_result (dumps_of a) v), w1)
                            | (RaisesMcp e, w1) \<Rightarrow> (Inl e, w1)
                            | (RaisesOther _, w1) \<Rightarrow>
                                (Inl (ToolExecutionError (''Tool '' @ quoted n @ '' failed'')), w1))))))
    | _ \<Rightarrow> (Inl (MCPProtocolError ''tools/call requires a non-empty string name''), w))"

definition result_msg :: "json \<Rightarrow> json \<Rightarrow> json" where
  "result_msg rid r = JObj [(''jsonrpc'', JStr ''2.0''), (''id'', rid), (''result'', r)]"

definition error_msg :: "json \<Rightarrow> int \<Rightarrow> string \<Rightarrow> json" where
  "error_msg rid code m = JObj [(''jsonrpc'', JStr ''2.0''), (''id'', rid),
     (''error'', JObj [(''code'', JInt code), (''message'', JStr m)])]"

text \<open>The codes of \<open>_mcp_error\<close>, and \<open>str(exc)\<close>.\<close>

fun mcp_error_code :: "mcp_error \<Rightarrow> int" where
  "mcp_error_code (MCPProtocolError _) = -32602"
| "mcp_error_code (SchemaError (Validation_error _ _)) = -32602"
| "mcp_error_code (ToolNotRegistered _) = -32602"
| "mcp_error_code (ToolNotAllowed _) = -32001"
| "mcp_error_code (ToolAuthorizationDenied _) = -32001"
| "mcp_error_code (SchemaError (Definition_error _ _)) = -32000"
| "mcp_error_code (ToolExecutionError _) = -32000"

fun mcp_error_text :: "(schema_error \<Rightarrow> string) \<Rightarrow> mcp_error \<Rightarrow> string" where
  "mcp_error_text st (MCPProtocolError m) = m"
| "mcp_error_text st (SchemaError e) = st e"
| "mcp_error_text st (ToolNotRegistered m) = m"
| "mcp_error_text st (ToolNotAllowed m) = m"
| "mcp_error_text st (ToolAuthorizationDenied m) = m"
| "mcp_error_text st (ToolExecutionError m) = m"

definition adapter_handle :: "('c, 'w) adapter \<Rightarrow> json \<Rightarrow> 'c \<Rightarrow> 'w \<Rightarrow> json \<times> 'w" where
  "adapter_handle a request ctx w = (case request of
      JObj r \<Rightarrow>
        (let rid = get_or r ''id'' JNull; meth = get_or r ''method'' JNull;
             params = get_or r ''params'' (JObj []) in
         if get_or r ''jsonrpc'' JNull \<noteq> JStr ''2.0'' then (error_msg rid (-32600) ''Invalid Request'', w)
         else if \<not> is_str meth \<or> \<not> is_obj params then (error_msg rid (-32600) ''Invalid Request'', w)
         else if meth = JStr ''tools/list'' then (result_msg rid (tools_list a), w)
         else if meth = JStr ''tools/call'' then
           (case call_tool a (get_or (obj_of params) ''name'' JNull)
                   (get_or (obj_of params) ''arguments'' (JObj [])) ctx w of
              (Inr res, w1) \<Rightarrow> (result_msg rid res, w1)
            | (Inl e, w1) \<Rightarrow> (error_msg rid (mcp_error_code e) (mcp_error_text (schema_text a) e), w1))
         else (error_msg rid (-32601) ''Method not found'', w))
    | _ \<Rightarrow> (error_msg JNull (-32600) ''Invalid Request'', w))"

subsection \<open>The server\<close>

definition MCP_PROTOCOL_VERSION :: string where "MCP_PROTOCOL_VERSION = ''2025-06-18''"

definition SUPPORTED_PROTOCOL_VERSIONS :: "string list" where
  "SUPPORTED_PROTOCOL_VERSIONS = [MCP_PROTOCOL_VERSION, ''2025-03-26'']"

record server_info =
  si_name :: string
  si_version :: string
  si_instructions :: "string option"

definition make_server_info :: "string \<Rightarrow> string \<Rightarrow> string option \<Rightarrow> exn + server_info" where
  "make_server_info n v i =
     (if strip n = '''' then Inl (Exn ''ValueError'' ''server name must be non-empty'')
      else if strip v = '''' then Inl (Exn ''ValueError'' ''server version must be non-empty'')
      else Inr \<lparr>si_name = n, si_version = v, si_instructions = i\<rparr>)"

datatype phase = New | Awaiting_initialized | Ready

record ('c, 'w) server =
  adapter_of :: "('c, 'w) adapter"
  info :: server_info
  phase_of :: phase
  negotiated_protocol :: "string option"
  sworld :: 'w

definition make_server :: "('c, 'w) adapter \<Rightarrow> server_info \<Rightarrow> 'w \<Rightarrow> ('c, 'w) server" where
  "make_server a i w = \<lparr>adapter_of = a, info = i, phase_of = New, negotiated_protocol = None, sworld = w\<rparr>"

fun nonblank_str :: "json \<Rightarrow> bool" where
  "nonblank_str (JStr s) = (strip s \<noteq> '''')"
| "nonblank_str _ = False"

definition valid_implementation :: "json \<Rightarrow> bool" where
  "valid_implementation v = (case v of
      JObj ob \<Rightarrow> nonblank_str (get_or ob ''name'' JNull) \<and> nonblank_str (get_or ob ''version'' JNull)
    | _ \<Rightarrow> False)"

definition initialize :: "json \<Rightarrow> obj \<Rightarrow> ('c, 'w) server \<Rightarrow> json \<times> ('c, 'w) server" where
  "initialize rid params s =
     (if phase_of s \<noteq> New then (error_msg rid (-32600) ''Server is already initialized'', s)
      else
        let requested = get_or params ''protocolVersion'' JNull in
        if \<not> is_str requested \<or> \<not> is_obj (get_or params ''capabilities'' JNull)
           \<or> \<not> valid_implementation (get_or params ''clientInfo'' JNull)
        then (error_msg rid (-32602) ''Invalid initialize parameters'', s)
        else
          let negotiated = (if str_of requested \<in> set SUPPORTED_PROTOCOL_VERSIONS
                            then str_of requested else MCP_PROTOCOL_VERSION)
          in (result_msg rid (JObj ([(''protocolVersion'', JStr negotiated),
                (''capabilities'', JObj [(''tools'', JObj [(''listChanged'', JBool False)])]),
                (''serverInfo'', JObj [(''name'', JStr (si_name (info s))), (''version'', JStr (si_version (info s)))])]
                @ (case si_instructions (info s) of
                     Some i \<Rightarrow> if i = '''' then [] else [(''instructions'', JStr i)]
                   | None \<Rightarrow> []))),
              s\<lparr>negotiated_protocol := Some negotiated, phase_of := Awaiting_initialized\<rparr>))"

definition mark_ready :: "json \<Rightarrow> ('c, 'w) server \<Rightarrow> json \<times> ('c, 'w) server" where
  "mark_ready rid s =
     (if phase_of s \<noteq> Awaiting_initialized then (error_msg rid (-32600) ''Initialize request is required'', s)
      else (result_msg rid (JObj []), s\<lparr>phase_of := Ready\<rparr>))"

definition dispatch :: "obj \<Rightarrow> string \<Rightarrow> obj \<Rightarrow> 'c \<Rightarrow> ('c, 'w) server \<Rightarrow> json \<times> ('c, 'w) server" where
  "dispatch r meth params ctx s =
     (let rid = get_or r ''id'' JNull in
      if meth = ''initialize'' then initialize rid params s
      else if meth = ''notifications/initialized'' then mark_ready rid s
      else if meth = ''ping'' then (result_msg rid (JObj []), s)
      else if phase_of s \<noteq> Ready then (error_msg rid (-32002) ''Server is not initialized'', s)
      else let (resp, w) = adapter_handle (adapter_of s) (JObj r) ctx (sworld s) in (resp, s\<lparr>sworld := w\<rparr>))"

definition handle :: "json \<Rightarrow> 'c \<Rightarrow> ('c, 'w) server \<Rightarrow> json option \<times> ('c, 'w) server" where
  "handle request ctx s = (case request of
      JObj r \<Rightarrow>
        (let rid = get_or r ''id'' JNull;
             is_notification = (\<not> has_key r ''id'');
             meth = get_or r ''method'' JNull;
             params = get_or r ''params'' (JObj []);
             invalid = (if is_notification then None else Some (error_msg rid (-32600) ''Invalid Request''))
         in if get_or r ''jsonrpc'' JNull \<noteq> JStr ''2.0'' then (invalid, s)
            else if \<not> is_str meth \<or> \<not> is_obj params then (invalid, s)
            else let (resp, s') = dispatch r (str_of meth) (obj_of params) ctx s
                 in (if is_notification then None else Some resp, s'))
    | _ \<Rightarrow> (Some (error_msg JNull (-32600) ''Invalid Request''), s))"

text \<open>
  The lines of standard input as \<open>serve_stdio\<close> sees them: blank, not JSON, or a value.
\<close>

datatype line = Blank | Malformed | Parsed json

fun serve_line :: "'c \<Rightarrow> line \<Rightarrow> ('c, 'w) server \<Rightarrow> json list \<times> ('c, 'w) server" where
  "serve_line ctx Blank s = ([], s)"
| "serve_line ctx Malformed s = ([error_msg JNull (-32700) ''Parse error''], s)"
| "serve_line ctx (Parsed req) s =
     (let (resp, s') = handle req ctx s in (case resp of None \<Rightarrow> [] | Some r \<Rightarrow> [r], s'))"

fun serve_stdio :: "'c \<Rightarrow> line list \<Rightarrow> ('c, 'w) server \<Rightarrow> json list \<times> ('c, 'w) server" where
  "serve_stdio ctx [] s = ([], s)"
| "serve_stdio ctx (l # ls) s =
     (let (out, s1) = serve_line ctx l s; (outs, s2) = serve_stdio ctx ls s1 in (out @ outs, s2))"

subsection \<open>The gate in front of a tool\<close>

text \<open>All that has to hold before a tool runs.\<close>

definition cleared :: "('c, 'w) adapter \<Rightarrow> 'c \<Rightarrow> string \<Rightarrow> obj \<Rightarrow> ('c, 'w) local_tool \<Rightarrow> bool" where
  "cleared a ctx n args t \<longleftrightarrow>
     n \<in> set (allowed_tools (governance_of a)) \<and> map_of (tools a) n = Some t \<and>
     validate_arguments (regex_of a) (JObj args) (input_schema t) = Inr args \<and>
     (case authorization_hook (governance_of a) of
        None \<Rightarrow> True
      | Some hook \<Rightarrow> hook n args ctx = HookBool True \<or> (\<exists>r. hook n args ctx = HookDecision True r))"

lemma validate_arguments_id: "validate_arguments re (JObj a) s = Inr v \<Longrightarrow> v = a"
  by (auto simp: validate_arguments_def Let_def split: json.splits sum.splits)

lemma authorize_ok:
  "authorize g n args ctx = Inr u \<longleftrightarrow> n \<in> set (allowed_tools g) \<and>
     (case authorization_hook g of
        None \<Rightarrow> True
      | Some hook \<Rightarrow> hook n args ctx = HookBool True \<or> (\<exists>r. hook n args ctx = HookDecision True r))"
  by (auto simp: authorize_def ensure_allowed_def is_allowed_def split: option.splits hook_answer.splits bool.splits)

lemma call_tool_world:
  "snd (call_tool a name args ctx w) = w \<or>
   (\<exists>n v t. name = JStr n \<and> cleared a ctx n v t \<and> snd (call_tool a name args ctx w) = snd (invoke t v ctx w))"
proof (cases "\<exists>n ob t v. name = JStr n \<and> n \<noteq> [] \<and> (if args = JNull then JObj [] else args) = JObj ob \<and>
    ensure_allowed (governance_of a) n = Inr () \<and> map_of (tools a) n = Some t \<and>
    validate_arguments (regex_of a) (JObj ob) (input_schema t) = Inr v \<and> authorize (governance_of a) n v ctx = Inr ()")
  case True
  then obtain n ob t v where h: "name = JStr n" "n \<noteq> []" "(if args = JNull then JObj [] else args) = JObj ob"
    "ensure_allowed (governance_of a) n = Inr ()" "map_of (tools a) n = Some t"
    "validate_arguments (regex_of a) (JObj ob) (input_schema t) = Inr v" "authorize (governance_of a) n v ctx = Inr ()"
    by blast
  then have "cleared a ctx n v t"
    using validate_arguments_id by (fastforce simp: cleared_def authorize_ok)
  moreover have "snd (call_tool a name args ctx w) = snd (invoke t v ctx w)"
    using h by (auto simp: call_tool_def Let_def split: prod.splits handler_out.splits)
  ultimately show ?thesis using h(1) by blast
next
  case False
  have "snd (call_tool a name args ctx w) = w"
  proof (cases name)
    case (JStr n)
    show ?thesis
    proof (cases "if args = JNull then JObj [] else args")
      case (JObj ob)
      show ?thesis
        using False JStr JObj unfolding call_tool_def
        by (auto simp del: split_paired_Ex split: sum.splits option.splits)
    qed (use JStr in \<open>simp_all add: call_tool_def\<close>)
  qed (simp_all add: call_tool_def)
  then show ?thesis ..
qed

lemma adapter_handle_world:
  "snd (adapter_handle a (JObj r) ctx w) = w \<or>
   (\<exists>n v t. get_or r ''method'' JNull = JStr ''tools/call'' \<and> cleared a ctx n v t \<and>
      snd (adapter_handle a (JObj r) ctx w) = snd (invoke t v ctx w))"
proof -
  let ?c = "call_tool a (get_or (obj_of (get_or r ''params'' (JObj []))) ''name'' JNull)
    (get_or (obj_of (get_or r ''params'' (JObj []))) ''arguments'' (JObj [])) ctx w"
  have "snd (adapter_handle a (JObj r) ctx w) = w \<or>
      get_or r ''method'' JNull = JStr ''tools/call'' \<and> snd (adapter_handle a (JObj r) ctx w) = snd ?c"
    by (auto simp: adapter_handle_def Let_def split: prod.splits sum.splits)
  then show ?thesis
    using call_tool_world [of a "get_or (obj_of (get_or r ''params'' (JObj []))) ''name'' JNull"
        "get_or (obj_of (get_or r ''params'' (JObj []))) ''arguments'' (JObj [])" ctx w] by metis
qed

lemma dispatch_cases:
  "adapter_of (snd (dispatch r meth params ctx s)) = adapter_of s \<and>
   (sworld (snd (dispatch r meth params ctx s)) = sworld s \<or>
     (phase_of s = Ready \<and> get_or r ''method'' JNull = JStr ''tools/call'' \<and>
      (\<exists>n v t. cleared (adapter_of s) ctx n v t \<and>
         sworld (snd (dispatch r meth params ctx s)) = snd (invoke t v ctx (sworld s))))) \<and>
   (phase_of (snd (dispatch r meth params ctx s)) = phase_of s \<or>
    meth = ''initialize'' \<and> phase_of s = New \<and> phase_of (snd (dispatch r meth params ctx s)) = Awaiting_initialized \<or>
    meth = ''notifications/initialized'' \<and> phase_of s = Awaiting_initialized \<and>
      phase_of (snd (dispatch r meth params ctx s)) = Ready)"
  using adapter_handle_world [of "adapter_of s" r ctx "sworld s"]
  by (auto simp: dispatch_def initialize_def mark_ready_def Let_def split: prod.splits) blast+

definition method_of :: "json \<Rightarrow> string" where
  "method_of req = (case req of JObj r \<Rightarrow> str_of (get_or r ''method'' JNull) | _ \<Rightarrow> [])"

lemma handle_cases:
  assumes "handle req ctx s = (resp, s')"
  shows "adapter_of s' = adapter_of s \<and>
   (sworld s' = sworld s \<or>
     (phase_of s = Ready \<and> method_of req = ''tools/call'' \<and>
      (\<exists>n v t. cleared (adapter_of s) ctx n v t \<and> sworld s' = snd (invoke t v ctx (sworld s))))) \<and>
   (phase_of s' = phase_of s \<or>
    method_of req = ''initialize'' \<and> phase_of s = New \<and> phase_of s' = Awaiting_initialized \<or>
    method_of req = ''notifications/initialized'' \<and> phase_of s = Awaiting_initialized \<and> phase_of s' = Ready)"
proof (cases req)
  case (JObj r)
  let ?m = "get_or r ''method'' JNull"
  let ?d = "dispatch r (str_of ?m) (obj_of (get_or r ''params'' (JObj []))) ctx s"
  have "s' = s \<or> s' = snd ?d"
    using assms JObj by (auto simp: handle_def Let_def split: if_splits prod.splits)
  then show ?thesis
    using dispatch_cases [of r "str_of ?m" "obj_of (get_or r ''params'' (JObj []))" ctx s] JObj
    by (auto simp: method_of_def)
qed (use assms in \<open>auto simp: handle_def\<close>)

text \<open>
  C21. The gate. Handling one message either leaves the world alone or runs one tool once, on
  validated arguments; and it runs a tool only on a connection that is ready, for a
  \<open>tools/call\<close> message, when the name is in the allowlist and registered, the arguments
  satisfy the tool's schema and the authorization hook, if there is one, said yes. A hook
  that raises or answers nonsense counts as no.
\<close>

theorem tool_runs_only_when_cleared:
  assumes "handle req ctx s = (resp, s')" "sworld s' \<noteq> sworld s"
  shows "phase_of s = Ready \<and> method_of req = ''tools/call'' \<and>
    (\<exists>n v t. cleared (adapter_of s) ctx n v t \<and> sworld s' = snd (invoke t v ctx (sworld s)))"
  using handle_cases [OF assms(1)] assms(2) by blast

definition counting_tool :: "(unit, nat) local_tool" where
  "counting_tool = \<lparr>tool_name = ''count'', description = ''counts'', input_schema = JObj [],
     invoke = (\<lambda>args ctx w. (Returns (Plain JNull), w + 1))\<rparr>"

definition demo_adapter :: "(unit, nat) adapter" where
  "demo_adapter = \<lparr>governance_of = \<lparr>allowed_tools = [''count''], authorization_hook = None\<rparr>,
     tools = [(''count'', counting_tool)], dumps_of = (\<lambda>_. []), regex_of = (\<lambda>_ _. None), schema_text = (\<lambda>_. [])\<rparr>"

definition demo_server :: "(unit, nat) server" where
  "demo_server = make_server demo_adapter \<lparr>si_name = ''demo'', si_version = ''1'', si_instructions = None\<rparr> 0"

definition call_request :: json where
  "call_request = JObj [(''jsonrpc'', JStr ''2.0''), (''id'', JInt 3), (''method'', JStr ''tools/call''),
     (''params'', JObj [(''name'', JStr ''count'')])]"

lemma accepts_empty: "accepts re [(''type'', JStr ''object'')] (JObj []) p"
  by (simp add: accepts_simps validate_object_def get_or_def required_names_def)

lemma call_request_runs:
  "handle call_request () (demo_server\<lparr>phase_of := Ready\<rparr>) =
    (Some (result_msg (JInt 3) (to_mcp_result (\<lambda>_. []) (Plain JNull))), demo_server\<lparr>phase_of := Ready, sworld := 1\<rparr>)"
  by (simp add: handle_def dispatch_def call_request_def get_or_def has_key_def adapter_handle_def demo_server_def
      make_server_def demo_adapter_def call_tool_def ensure_allowed_def is_allowed_def counting_tool_def
      validate_arguments_def accepts_empty authorize_def Let_def)

theorem tool_runs_only_when_cleared_witness:
  "handle call_request () (demo_server\<lparr>phase_of := Ready\<rparr>) =
    (Some (result_msg (JInt 3) (to_mcp_result (\<lambda>_. []) (Plain JNull))), demo_server\<lparr>phase_of := Ready, sworld := 1\<rparr>) \<and>
   (\<exists>n v t. cleared demo_adapter () n v t \<and> 1 = snd (invoke t v () 0))"
  using call_request_runs tool_runs_only_when_cleared [OF call_request_runs]
  by (simp add: demo_server_def make_server_def)

subsection \<open>The life of a connection\<close>

fun line_method :: "line \<Rightarrow> string" where
  "line_method (Parsed req) = method_of req"
| "line_method _ = []"

lemma serve_stdio_append:
  "serve_stdio ctx (ls @ [l]) s =
     (let (outs, s1) = serve_stdio ctx ls s; (out, s2) = serve_line ctx l s1 in (outs @ out, s2))"
  by (induction ls arbitrary: s) (simp_all add: split_beta Let_def)

lemma subseq_snoc: "subseq xs ys \<Longrightarrow> subseq (xs @ [z]) (ys @ [z])" "subseq xs ys \<Longrightarrow> subseq xs (ys @ [z])"
  by (simp_all add: list_emb_append_mono subseq_rev_drop_many)

text \<open>
  The lifecycle. On a connection that starts fresh, no tool runs unless the messages
  received contain, in this order, an \<open>initialize\<close>, a \<open>notifications/initialized\<close> and a
  \<open>tools/call\<close>; the connection is not ready without the first two, and malformed or blank
  lines do not help.
\<close>

theorem lifecycle_order:
  assumes "serve_stdio ctx ls (make_server a i w) = (outs, s')"
  shows "(phase_of s' = Ready \<longrightarrow>
       subseq [''initialize'', ''notifications/initialized''] (map line_method ls)) \<and>
     (sworld s' \<noteq> w \<longrightarrow>
       subseq [''initialize'', ''notifications/initialized'', ''tools/call''] (map line_method ls))"
proof -
  have "(phase_of s' \<noteq> New \<longrightarrow> subseq [''initialize''] (map line_method ls)) \<and>
     (phase_of s' = Ready \<longrightarrow> subseq [''initialize'', ''notifications/initialized''] (map line_method ls)) \<and>
     (sworld s' \<noteq> w \<longrightarrow> subseq [''initialize'', ''notifications/initialized'', ''tools/call''] (map line_method ls))"
    using assms
  proof (induction ls arbitrary: s' outs rule: rev_induct)
    case Nil
    then show ?case by (auto simp: make_server_def)
  next
    case (snoc l ls)
    obtain outs1 s1 where r: "serve_stdio ctx ls (make_server a i w) = (outs1, s1)" by fastforce
    note IH = snoc.IH [OF r]
    show ?case
    proof (cases "\<exists>req. l = Parsed req")
      case False
      then have "s' = s1" using snoc.prems r by (cases l) (auto simp: serve_stdio_append)
      with IH show ?thesis by (auto intro: subseq_snoc(2))
    next
      case True
      then obtain req resp where l: "l = Parsed req" and h: "handle req ctx s1 = (resp, s')"
        using snoc.prems r by (auto simp: serve_stdio_append split: prod.splits)
      let ?ms = "map line_method ls"
      have step: "subseq (xs @ [method_of req]) (map line_method (ls @ [l]))" if "subseq xs ?ms" for xs
        using subseq_snoc(1) [OF that] l by simp
      have keep: "subseq xs (map line_method (ls @ [l]))" if "subseq xs ?ms" for xs
        using subseq_snoc(2) [OF that] by simp
      show ?thesis
        using handle_cases [OF h] IH step [of "[]"] step [of "[''initialize'']"]
          step [of "[''initialize'', ''notifications/initialized'']"] keep
        by (elim conjE disjE) auto
    qed
  qed
  then show ?thesis by blast
qed

definition init_request :: json where
  "init_request = JObj [(''jsonrpc'', JStr ''2.0''), (''id'', JInt 1), (''method'', JStr ''initialize''),
     (''params'', JObj [(''protocolVersion'', JStr ''2025-06-18''), (''capabilities'', JObj []),
        (''clientInfo'', JObj [(''name'', JStr ''c''), (''version'', JStr ''1'')])])]"

definition ready_note :: json where
  "ready_note = JObj [(''jsonrpc'', JStr ''2.0''), (''method'', JStr ''notifications/initialized'')]"

lemma demo_session:
  "sworld (snd (serve_stdio () [Parsed init_request, Blank, Parsed ready_note, Parsed call_request] demo_server)) = 1"
proof -
  have i: "snd (handle init_request () demo_server) =
      demo_server\<lparr>negotiated_protocol := Some ''2025-06-18'', phase_of := Awaiting_initialized\<rparr>"
    by (simp add: handle_def dispatch_def init_request_def get_or_def has_key_def initialize_def demo_server_def
        make_server_def valid_implementation_def strip_def py_space_def SUPPORTED_PROTOCOL_VERSIONS_def
        MCP_PROTOCOL_VERSION_def Let_def)
  have r: "snd (handle ready_note () (s\<lparr>phase_of := Awaiting_initialized\<rparr>)) = s\<lparr>phase_of := Ready\<rparr>"
    for s :: "(unit, nat) server"
    by (simp add: handle_def dispatch_def ready_note_def get_or_def has_key_def mark_ready_def Let_def)
  have c: "sworld (snd (handle call_request () (demo_server\<lparr>negotiated_protocol := p, phase_of := Ready\<rparr>))) = 1" for p
    by (simp add: handle_def dispatch_def call_request_def get_or_def has_key_def adapter_handle_def demo_server_def
        make_server_def demo_adapter_def call_tool_def ensure_allowed_def is_allowed_def counting_tool_def
        validate_arguments_def accepts_empty authorize_def Let_def)
  show ?thesis by (simp add: split_beta Let_def i r c)
qed

theorem lifecycle_order_witness:
  "sworld (snd (serve_stdio () [Parsed init_request, Blank, Parsed ready_note, Parsed call_request] demo_server)) = 1 \<and>
   subseq [''initialize'', ''notifications/initialized'', ''tools/call'']
     (map line_method [Parsed init_request, Blank, Parsed ready_note, Parsed call_request])"
  using demo_session lifecycle_order [OF prod.collapse [symmetric], of "()"
      "[Parsed init_request, Blank, Parsed ready_note, Parsed call_request]" demo_adapter
      "\<lparr>si_name = ''demo'', si_version = ''1'', si_instructions = None\<rparr>" 0]
  by (simp only: demo_server_def [symmetric] one_neq_zero simp_thms)

subsection \<open>Responses\<close>

lemma dispatch_id: "\<exists>rest. fst (dispatch r meth params ctx s) =
    JObj ([(''jsonrpc'', JStr ''2.0''), (''id'', get_or r ''id'' JNull)] @ rest) \<and>
    (\<exists>x. rest = [(''result'', x)] \<or> rest = [(''error'', x)])"
  by (auto simp: dispatch_def initialize_def mark_ready_def adapter_handle_def result_msg_def error_msg_def Let_def
      split: prod.splits sum.splits)

text \<open>
  Responses. A message with an \<open>id\<close> gets exactly one response, which carries that id and
  either a result or an error; a message without an \<open>id\<close> never gets one, even when it
  fails; a value that is not an object gets an error with a null id.
\<close>

theorem response_discipline:
  "(case req of
      JObj r \<Rightarrow>
        if has_key r ''id'' then
          \<exists>x. fst (handle req ctx s) = Some (JObj [(''jsonrpc'', JStr ''2.0''), (''id'', get_or r ''id'' JNull), (''result'', x)])
            \<or> fst (handle req ctx s) = Some (JObj [(''jsonrpc'', JStr ''2.0''), (''id'', get_or r ''id'' JNull), (''error'', x)])
        else fst (handle req ctx s) = None
    | _ \<Rightarrow> fst (handle req ctx s) = Some (error_msg JNull (-32600) ''Invalid Request''))"
proof (cases req)
  case (JObj r)
  then show ?thesis
    using dispatch_id [of r "str_of (get_or r ''method'' JNull)" "obj_of (get_or r ''params'' (JObj []))" ctx s]
    by (auto simp: handle_def error_msg_def Let_def split: prod.splits)
qed (simp_all add: handle_def)

end
