(* ===== verification/Document_Parser.thy ===== *)
theory Document_Parser
  imports Prelude Complex_Main
begin

text \<open>
  The first half of \<^verbatim>\<open>document_loader.py\<close>: text cleaning, the quality gate for OCR
  blocks, the recognition of headings, and \<open>parse_pdf\<close>.

  A text is a list of code points. The Unicode database (\<open>unicodedata\<close> and the
  \<open>str.is...\<close> methods) and the compiled patterns for section prefixes and table cells are
  the fields of a record \<open>unicode\<close> that the definitions take as an argument; PDF pages
  come as what PyMuPDF extracts from them.
\<close>

type_synonym utext = "nat list"

record unicode =
  nfkc :: "utext \<Rightarrow> utext"
  casefold :: "utext \<Rightarrow> utext"
  is_space :: "nat \<Rightarrow> bool"
  is_word :: "nat \<Rightarrow> bool"
  is_alnum :: "nat \<Rightarrow> bool"
  is_alpha :: "nat \<Rightarrow> bool"
  is_cased :: "nat \<Rightarrow> bool"
  is_upper :: "nat \<Rightarrow> bool"
  is_digit_cp :: "nat \<Rightarrow> bool"
  bad_category :: "nat \<Rightarrow> bool"
  section_prefix :: "utext \<Rightarrow> bool"
  quarter_cell :: "utext \<Rightarrow> bool"
  date_cell :: "utext \<Rightarrow> bool"

abbreviation NL :: nat where "NL \<equiv> 10"
abbreviation SP :: nat where "SP \<equiv> 32"
abbreviation HYPHEN :: nat where "HYPHEN \<equiv> 45"

subsection \<open>Strings\<close>

definition lstrip_cp :: "unicode \<Rightarrow> utext \<Rightarrow> utext" where
  "lstrip_cp u t = dropWhile (is_space u) t"

definition strip_cp :: "unicode \<Rightarrow> utext \<Rightarrow> utext" where
  "strip_cp u t = rev (dropWhile (is_space u) (rev (dropWhile (is_space u) t)))"

lemma length_strip_cp: "length (strip_cp u t) \<le> length t"
  unfolding strip_cp_def by (metis length_dropWhile_le length_rev order_trans)

lemma length_lstrip_cp: "length (lstrip_cp u t) \<le> length t"
  by (simp add: lstrip_cp_def length_dropWhile_le)

text \<open>\<open>str.split()\<close>: the maximal runs of non-space characters.\<close>

function words :: "unicode \<Rightarrow> utext \<Rightarrow> utext list" where
  "words u t = (let t1 = dropWhile (is_space u) t in
     if t1 = [] then []
     else takeWhile (\<lambda>c. \<not> is_space u c) t1 # words u (dropWhile (\<lambda>c. \<not> is_space u c) t1))"
  by pat_completeness auto
termination
proof (relation "measure (\<lambda>(u, t). length t)")
  fix u :: unicode and t x :: utext
  assume x: "x = dropWhile (is_space u) t" and ne: "x \<noteq> []"
  then have "\<not> is_space u (hd x)" by (simp add: hd_dropWhile)
  with ne have "length (dropWhile (\<lambda>c. \<not> is_space u c) x) < length x"
    by (cases x) (auto simp: le_imp_less_Suc length_dropWhile_le)
  also have "length x \<le> length t" using x by (simp add: length_dropWhile_le)
  finally show "((u, dropWhile (\<lambda>c. \<not> is_space u c) x), (u, t)) \<in> measure (\<lambda>(u, t). length t)" by simp
qed simp

declare words.simps [simp del]

text \<open>
  \<open>str.splitlines()\<close>. A carriage return and line feed count as two breaks here; the empty
  line between them is dropped by the only caller.
\<close>

definition line_breaks :: "nat list" where
  "line_breaks = [10, 11, 12, 13, 28, 29, 30, 133, 8232, 8233]"

fun split_lines :: "utext \<Rightarrow> utext list" where
  "split_lines [] = []"
| "split_lines (c # cs) =
     (if c \<in> set line_breaks then [] # split_lines cs
      else case split_lines cs of
        [] \<Rightarrow> [[c]]
      | l # ls \<Rightarrow> (c # l) # ls)"

subsection \<open>Cleaning\<close>

text \<open>
  \<open>_HYPHENATED_LINE_BREAK.sub\<close>: a word character, a hyphen, white space with a line feed in
  it and a word character become the two word characters; the search goes on behind the
  second one.
\<close>

function join_hyphens :: "unicode \<Rightarrow> utext \<Rightarrow> utext" where
  "join_hyphens u [] = []"
| "join_hyphens u (c # cs) =
     (let gap = takeWhile (is_space u) (tl cs); rest = dropWhile (is_space u) (tl cs) in
      if is_word u c \<and> cs \<noteq> [] \<and> hd cs = HYPHEN \<and> NL \<in> set gap \<and> rest \<noteq> [] \<and> is_word u (hd rest)
      then c # hd rest # join_hyphens u (tl rest)
      else c # join_hyphens u cs)"
  by pat_completeness auto
termination
proof (relation "measure (\<lambda>(u, t). length t)")
  fix u :: unicode and c :: nat and cs gap rest :: utext
  assume "rest = dropWhile (is_space u) (tl cs)"
  then have "length (tl rest) \<le> length (tl cs)" using length_dropWhile_le [of "is_space u" "tl cs"] by simp
  then show "((u, tl rest), (u, c # cs)) \<in> measure (\<lambda>(u, t). length t)" by simp
qed auto

text \<open>A run of characters with a property becomes one character.\<close>

fun collapse_runs :: "(nat \<Rightarrow> bool) \<Rightarrow> nat \<Rightarrow> utext \<Rightarrow> utext" where
  "collapse_runs P r [] = []"
| "collapse_runs P r (c # cs) =
     (if P c then (case cs of d # _ \<Rightarrow> (if P d then collapse_runs P r cs else r # collapse_runs P r cs) | [] \<Rightarrow> [r])
      else c # collapse_runs P r cs)"

text \<open>\<open>\s*\n\s*\<close>: a maximal run of white space becomes a space when it has a line feed.\<close>

function collapse_breaks :: "unicode \<Rightarrow> utext \<Rightarrow> utext" where
  "collapse_breaks u [] = []"
| "collapse_breaks u (c # cs) =
     (if is_space u c then
        let run = takeWhile (is_space u) (c # cs); rest = dropWhile (is_space u) cs
        in (if NL \<in> set run then [SP] else run) @ collapse_breaks u rest
      else c # collapse_breaks u cs)"
  by pat_completeness auto
termination
  by (relation "measure (\<lambda>(u, t). length t)") (auto simp: le_imp_less_Suc length_dropWhile_le)

definition clean_text :: "unicode \<Rightarrow> utext \<Rightarrow> utext" where
  "clean_text u t = strip_cp u (collapse_breaks u
     (collapse_runs (\<lambda>c. is_space u c \<and> c \<noteq> NL) SP (join_hyphens u t)))"

definition normalize_content :: "unicode \<Rightarrow> utext \<Rightarrow> utext" where
  "normalize_content u t = casefold u (strip_cp u (collapse_runs (is_space u) SP (nfkc u t)))"

subsection \<open>The OCR quality gate\<close>

definition is_cjk :: "nat \<Rightarrow> bool" where
  "is_cjk c \<longleftrightarrow> 13312 \<le> c \<and> c \<le> 40959"

definition is_bad :: "unicode \<Rightarrow> nat \<Rightarrow> bool" where
  "is_bad u c \<longleftrightarrow> c = 65533 \<or> bad_category u c"

fun consecutive_bad :: "unicode \<Rightarrow> nat \<Rightarrow> utext \<Rightarrow> bool" where
  "consecutive_bad u n [] = False"
| "consecutive_bad u n (c # cs) =
     (let n' = (if is_bad u c then n + 1 else 0) in n' \<ge> 3 \<or> consecutive_bad u n' cs)"

definition has_consecutive_bad_characters :: "unicode \<Rightarrow> utext \<Rightarrow> bool" where
  "has_consecutive_bad_characters u cs = consecutive_bad u 0 cs"

fun alnum_tokens :: "unicode \<Rightarrow> utext \<Rightarrow> bool \<Rightarrow> utext \<Rightarrow> utext list" where
  "alnum_tokens u cur cjk [] = (if cur = [] then [] else [cur])"
| "alnum_tokens u cur cjk (c # cs) =
     (if \<not> is_alnum u c then (if cur = [] then alnum_tokens u [] cjk cs else cur # alnum_tokens u [] cjk cs)
      else if cur \<noteq> [] \<and> is_cjk c \<noteq> cjk then cur # alnum_tokens u [c] (is_cjk c) cs
      else alnum_tokens u (cur @ [c]) (is_cjk c) cs)"

definition ocr_alphanumeric_tokens :: "unicode \<Rightarrow> utext \<Rightarrow> utext list" where
  "ocr_alphanumeric_tokens u t = alnum_tokens u [] False t"

text \<open>The largest number of occurrences of one case-folded character.\<close>

definition dominant_count :: "unicode \<Rightarrow> utext \<Rightarrow> nat" where
  "dominant_count u cs =
     (let keys = map (\<lambda>c. casefold u [c]) cs in fold max (map (\<lambda>k. count_list keys k) keys) 0)"

definition is_usable_ocr_block :: "unicode \<Rightarrow> utext \<Rightarrow> bool" where
  "is_usable_ocr_block u t =
     (let norm = nfkc u t;
          visible = filter (\<lambda>c. \<not> is_space u c) norm;
          n = length visible;
          alnum = filter (is_alnum u) visible;
          m = length alnum;
          bad = length (filter (is_bad u) visible);
          tokens = ocr_alphanumeric_tokens u norm;
          k = length tokens;
          single = length (filter (\<lambda>t. length t = 1) tokens);
          useful = sum_list (map length (filter (\<lambda>t. length t \<ge> 2) tokens))
      in if n = 0 then False
         else if m = 0 then False
         else if has_consecutive_bad_characters u visible then False
         else if bad \<ge> 2 \<and> (of_nat bad / of_nat n :: rat) > 5 / 100 then False
         else if n \<ge> 12 \<and> (of_nat (dominant_count u visible) / of_nat n :: rat) \<ge> 60 / 100 then False
         else if n \<ge> 40 \<and> (of_nat m / of_nat n :: rat) < 65 / 100 then False
         else if k < 6 then True
         else if (of_nat (length (filter is_cjk alnum)) / of_nat m :: rat) \<ge> 20 / 100 then True
         else if n \<ge> 200 then
           (of_nat single / of_nat k :: rat) \<le> 25 / 100 \<and> (of_nat useful / of_nat m :: rat) \<ge> 90 / 100
         else (of_nat single / of_nat k :: rat) \<le> 40 / 100 \<and> (of_nat useful / of_nat m :: rat) \<ge> 85 / 100)"

fun join_cp :: "utext \<Rightarrow> utext list \<Rightarrow> utext" where
  "join_cp sep [] = []"
| "join_cp sep [x] = x"
| "join_cp sep (x # y # xs) = x @ sep @ join_cp sep (y # xs)"

definition filter_ocr_blocks :: "unicode \<Rightarrow> utext list \<Rightarrow> utext list" where
  "filter_ocr_blocks u blocks =
     (let kept = filter (is_usable_ocr_block u) blocks
      in if kept \<noteq> [] \<and> is_usable_ocr_block u (join_cp [NL] kept) then kept else [])"

subsection \<open>Headings\<close>

text \<open>\<open>str.isupper()\<close>: some cased character, and every cased character in upper case.\<close>

definition str_isupper :: "unicode \<Rightarrow> utext \<Rightarrow> bool" where
  "str_isupper u t \<longleftrightarrow> (\<exists>c \<in> set t. is_cased u c) \<and> (\<forall>c \<in> set t. is_cased u c \<longrightarrow> is_upper u c)"

definition cps :: "string \<Rightarrow> utext" where
  "cps s = map of_char s"

definition known_headings :: "utext list" where
  "known_headings = map cps [''conclusion'', ''financials'', ''liquidity'', ''operations'', ''outlook'',
     ''overview'', ''results'', ''revenue'', ''risks'', ''strategy'']"

definition looks_like_table_cell :: "unicode \<Rightarrow> utext \<Rightarrow> bool" where
  "looks_like_table_cell u t =
     (let compact = strip_cp u t
      in quarter_cell u compact \<or> date_cell u compact \<or> (length compact \<le> 40 \<and> (\<exists>c \<in> set compact. is_digit_cp u c)))"

text \<open>The full-width and CJK punctuation marks are the code points above 12000.\<close>

definition ends_in :: "nat list \<Rightarrow> utext \<Rightarrow> bool" where
  "ends_in marks t \<longleftrightarrow> t \<noteq> [] \<and> last t \<in> set marks"

definition looks_like_heading :: "unicode \<Rightarrow> utext \<Rightarrow> utext \<Rightarrow> bool" where
  "looks_like_heading u raw t =
     (let lines = filter (\<lambda>l. strip_cp u l \<noteq> []) (split_lines raw);
          ws = words u t;
          letters = filter (is_alpha u) t;
          titles = filter (\<lambda>w. \<exists>c \<in> set w. is_alpha u c) ws
      in if length t > 140 then False
         else if length lines > 2 then False
         else if ends_in [46, 63, 33, 12290, 65311, 65281, 59, 65307, 44, 65292] t then False
         else if length ws > 16 then False
         else if section_prefix u t then True
         else if looks_like_table_cell u t then False
         else if ends_in [58, 65306] t then True
         else if letters \<noteq> [] \<and> str_isupper u letters \<and> \<not> (\<exists>c \<in> set t. is_digit_cp u c)
                 \<and> (length letters \<ge> 6 \<or> casefold u t \<in> set known_headings) then True
         else if \<exists>c \<in> set t. is_cjk c then 4 \<le> length t \<and> length t \<le> 30
         else if length titles = 1 then False
         else length titles \<ge> 2 \<and> (\<forall>w \<in> set titles. is_upper u (hd w)))"

subsection \<open>Parsing\<close>

record parsed_block =
  b_text :: utext
  b_page :: nat
  b_section :: utext
  b_ocr :: bool
  b_heading :: bool

record parsed_page =
  pg_number :: nat
  pg_blocks :: "parsed_block list"
  pg_ocr :: bool

record parsed_document =
  d_filename :: string
  d_pages :: "parsed_page list"

text \<open>What PyMuPDF gives for a page: the native text blocks, and OCR blocks or a failure.\<close>

record raw_page =
  native_blocks :: "utext list"
  ocr_blocks :: "string + utext list"

record parse_options =
  ocr_enabled :: bool
  ocr_languages :: string
  ocr_dpi :: int
  ocr_min_text_chars :: int

definition page_label :: "nat \<Rightarrow> utext" where
  "page_label n = cps (''Page '' @ str_nat n)"

text \<open>The loop over the raw blocks of a page, with the section that carries over.\<close>

fun parse_blocks :: "unicode \<Rightarrow> nat \<Rightarrow> bool \<Rightarrow> utext \<Rightarrow> utext list \<Rightarrow> parsed_block list \<times> utext" where
  "parse_blocks u n ocr sect [] = ([], sect)"
| "parse_blocks u n ocr sect (raw # raws) =
     (let t = clean_text u raw in
      if t = [] then parse_blocks u n ocr sect raws
      else
        let h = looks_like_heading u raw t;
            sect' = (if h then t else sect);
            blk = \<lparr>b_text = t, b_page = n, b_section = (if sect' = [] then page_label n else sect'),
                   b_ocr = ocr, b_heading = h\<rparr>;
            (blks, s) = parse_blocks u n ocr sect' raws
        in (blk # blks, s))"

definition choose_blocks :: "unicode \<Rightarrow> parse_options \<Rightarrow> nat \<Rightarrow> raw_page \<Rightarrow> exn + (utext list \<times> bool)" where
  "choose_blocks u opt n p =
     (let chars = sum_list (map (\<lambda>t. length (filter (\<lambda>c. \<not> is_space u c) t)) (native_blocks p)) in
      if ocr_enabled opt \<and> int chars < ocr_min_text_chars opt then
        (case ocr_blocks p of
           Inl e \<Rightarrow> Inl (Exn ''DocumentProcessingError'' (''OCR failed on page '' @ str_nat n
                     @ '' with languages '' @ quoted (ocr_languages opt) @ '': '' @ e))
         | Inr bs \<Rightarrow> (let kept = filter_ocr_blocks u bs
                     in if kept \<noteq> [] then Inr (kept, True) else Inr (native_blocks p, False)))
      else Inr (native_blocks p, False))"

fun parse_pages :: "unicode \<Rightarrow> parse_options \<Rightarrow> nat \<Rightarrow> utext \<Rightarrow> raw_page list \<Rightarrow> exn + parsed_page list" where
  "parse_pages u opt i sect [] = Inr []"
| "parse_pages u opt i sect (p # ps) = (case choose_blocks u opt (i + 1) p of
      Inl e \<Rightarrow> Inl e
    | Inr (raws, ocr) \<Rightarrow>
        (let (blks, sect') = parse_blocks u (i + 1) ocr sect raws in
         case parse_pages u opt (i + 1) sect' ps of
           Inl e \<Rightarrow> Inl e
         | Inr pages \<Rightarrow> Inr (\<lparr>pg_number = i + 1, pg_blocks = blks, pg_ocr = ocr\<rparr> # pages)))"

text \<open>The file: missing, empty, not readable as a PDF, or its pages.\<close>

datatype pdf_file = Missing_file | Empty_file | Unreadable string | Pages "raw_page list"

definition parse_pdf :: "unicode \<Rightarrow> parse_options \<Rightarrow> string \<Rightarrow> pdf_file \<Rightarrow> exn + parsed_document" where
  "parse_pdf u opt name file =
     (if file = Missing_file then Inl (Exn ''DocumentProcessingError'' (''PDF file not found: '' @ name))
      else if file = Empty_file then Inl (Exn ''DocumentProcessingError'' ''PDF file is empty'')
      else if ocr_dpi opt < 72 then Inl (Exn ''ValueError'' ''OCR_DPI must be at least 72'')
      else if ocr_min_text_chars opt < 0 then Inl (Exn ''ValueError'' ''OCR_MIN_TEXT_CHARS must be non-negative'')
      else if ocr_enabled opt \<and> strip (ocr_languages opt) = '''' then
        Inl (Exn ''ValueError'' ''OCR_LANGUAGES must not be empty when OCR is enabled'')
      else case file of
        Unreadable e \<Rightarrow> Inl (Exn ''DocumentProcessingError'' (''Unable to parse PDF '' @ name @ '': '' @ e))
      | Pages ps \<Rightarrow>
          if ps = [] then Inl (Exn ''DocumentProcessingError'' ''PDF contains no pages'')
          else (case parse_pages u opt 0 [] ps of
              Inl e \<Rightarrow> Inl e
            | Inr pages \<Rightarrow>
                if list_all (\<lambda>p. pg_blocks p = []) pages
                then Inl (Exn ''DocumentProcessingError'' ''PDF contains no extractable text'')
                else Inr \<lparr>d_filename = name, d_pages = pages\<rparr>)
      | _ \<Rightarrow> Inl (Exn ''DocumentProcessingError'' ''PDF file is empty''))"

text \<open>A small Unicode database for examples: ASCII letters, digits and spaces, no folding.\<close>

definition ascii_db :: unicode where
  "ascii_db = \<lparr>nfkc = (\<lambda>t. t), casefold = (\<lambda>t. t), is_space = (\<lambda>c. c \<in> {9, 10, 11, 12, 13, 32}),
     is_word = (\<lambda>c. 97 \<le> c \<and> c \<le> 122), is_alnum = (\<lambda>c. 97 \<le> c \<and> c \<le> 122), is_alpha = (\<lambda>c. 97 \<le> c \<and> c \<le> 122),
     is_cased = (\<lambda>c. 97 \<le> c \<and> c \<le> 122), is_upper = (\<lambda>c. False), is_digit_cp = (\<lambda>c. 48 \<le> c \<and> c \<le> 57),
     bad_category = (\<lambda>c. c < 9), section_prefix = (\<lambda>t. False), quarter_cell = (\<lambda>t. False), date_cell = (\<lambda>t. False)\<rparr>"

end
