(* ===== verification/Document_Chunker.thy ===== *)
theory Document_Chunker
  imports Document_Parser
begin

text \<open>
  The second half of \<^verbatim>\<open>document_loader.py\<close>: from parsed blocks to chunks.
  \<open>split_long_text\<close> cuts one block, \<open>chunk_block_group\<close> packs the blocks of one
  section of one page, \<open>merge_tiny_page_chunks\<close> joins short neighbours on a page,
  \<open>deduplicate_chunks\<close> and \<open>chunk_document\<close> finish. Sizes are natural numbers:
  \<open>chunk_document\<close> and \<open>chunk_text\<close> reject settings outside
  \<open>0 \<le> overlap < chunk_size\<close> before anything else runs.
\<close>

subsection \<open>Splitting a long text\<close>

definition sentence_marks :: "nat list" where
  "sentence_marks = [46, 33, 63, 12290, 65281, 65311, 65307, 59]"

text \<open>
  \<open>_SENTENCE_BOUNDARY.split\<close>: behind a mark, either the following white space is the
  separator or, when a visible character follows, the empty string in front of it.
\<close>

function sentence_split :: "unicode \<Rightarrow> utext \<Rightarrow> utext \<Rightarrow> utext list" where
  "sentence_split u cur [] = [cur]"
| "sentence_split u cur (c # cs) =
     (if c \<in> set sentence_marks \<and> cs \<noteq> []
      then (cur @ [c]) # sentence_split u [] (dropWhile (is_space u) cs)
      else sentence_split u (cur @ [c]) cs)"
  by pat_completeness auto
termination
  by (relation "measure (\<lambda>(u, cur, cs). length cs)") (auto simp: le_imp_less_Suc length_dropWhile_le)

definition sentences :: "unicode \<Rightarrow> utext \<Rightarrow> utext list" where
  "sentences u t = filter (\<lambda>s. s \<noteq> []) (map (strip_cp u) (sentence_split u [] t))"

text \<open>\<open>current[-overlap:].lstrip() if overlap else ""\<close>\<close>

definition overlap_prefix :: "unicode \<Rightarrow> nat \<Rightarrow> utext \<Rightarrow> utext" where
  "overlap_prefix u overlap cur =
     (if overlap = 0 then [] else lstrip_cp u (drop (length cur - overlap) cur))"

fun pack_sentences :: "unicode \<Rightarrow> nat \<Rightarrow> nat \<Rightarrow> utext \<Rightarrow> utext list \<Rightarrow> utext list" where
  "pack_sentences u sz overlap cur [] = (if cur = [] then [] else [cur])"
| "pack_sentences u sz overlap cur (s # ss) =
     (let proposed = strip_cp u (cur @ [SP] @ s) in
      if cur \<noteq> [] \<and> length proposed > sz
      then cur # pack_sentences u sz overlap (strip_cp u (overlap_prefix u overlap cur @ [SP] @ s)) ss
      else pack_sentences u sz overlap proposed ss)"

text \<open>The sliding window; \<open>step\<close> is \<open>chunk_size - overlap\<close>, positive after validation.\<close>

function window_starts :: "nat \<Rightarrow> nat \<Rightarrow> nat \<Rightarrow> nat \<Rightarrow> nat list" where
  "window_starts n sz step start =
     (if start \<ge> n \<or> step = 0 then []
      else if start + sz \<ge> n then [start]
      else start # window_starts n sz step (start + step))"
  by pat_completeness auto
termination
  by (relation "measure (\<lambda>(n, sz, step, start). n - start)") auto

declare window_starts.simps [simp del]

definition windows :: "unicode \<Rightarrow> nat \<Rightarrow> nat \<Rightarrow> utext \<Rightarrow> utext list" where
  "windows u sz step t =
     filter (\<lambda>p. p \<noteq> []) (map (\<lambda>i. strip_cp u (take sz (drop i t))) (window_starts (length t) sz step 0))"

definition split_long_text :: "unicode \<Rightarrow> nat \<Rightarrow> nat \<Rightarrow> utext \<Rightarrow> utext list" where
  "split_long_text u sz overlap t =
     (if length t \<le> sz then [t]
      else let ss = sentences u t in
        if length ss > 1 \<and> list_all (\<lambda>s. length s \<le> sz) ss then pack_sentences u sz overlap [] ss
        else windows u sz (sz - overlap) t)"

subsection \<open>Packing blocks\<close>

record chunk =
  c_text :: utext
  c_page :: nat
  c_section :: utext
  c_ocr :: bool
  c_index :: nat

abbreviation PARA :: utext where "PARA \<equiv> [NL, NL]"

definition joined_length :: "parsed_block list \<Rightarrow> nat" where
  "joined_length bs = (if bs = [] then 0 else sum_list (map (\<lambda>b. length (b_text b)) bs) + 2 * (length bs - 1))"

definition make_chunk :: "parsed_block list \<Rightarrow> nat \<Rightarrow> chunk" where
  "make_chunk bs i =
     \<lparr>c_text = join_cp PARA (map b_text bs), c_page = b_page (hd bs), c_section = b_section (hd bs),
      c_ocr = list_ex b_ocr bs, c_index = i\<rparr>"

text \<open>The loop of \<open>_overlap_blocks\<close> over the reversed blocks.\<close>

fun overlap_loop :: "nat \<Rightarrow> parsed_block list \<Rightarrow> nat \<Rightarrow> parsed_block list \<Rightarrow> parsed_block list" where
  "overlap_loop overlap retained len [] = retained"
| "overlap_loop overlap retained len (b # bs) =
     (if retained \<noteq> [] \<and> len + length (b_text b) > overlap then retained
      else let retained' = b # retained; len' = len + length (b_text b)
           in if len' \<ge> overlap then retained' else overlap_loop overlap retained' len' bs)"

definition overlap_blocks :: "nat \<Rightarrow> parsed_block list \<Rightarrow> parsed_block list" where
  "overlap_blocks overlap bs = (if overlap = 0 then [] else overlap_loop overlap [] 0 (rev bs))"

text \<open>\<open>while current and _joined_length([*current, block]) > chunk_size: current.pop(0)\<close>\<close>

fun shrink :: "nat \<Rightarrow> parsed_block \<Rightarrow> parsed_block list \<Rightarrow> parsed_block list" where
  "shrink sz b [] = []"
| "shrink sz b (x # xs) =
     (if joined_length ((x # xs) @ [b]) > sz then shrink sz b xs else x # xs)"

definition expand_block :: "unicode \<Rightarrow> nat \<Rightarrow> nat \<Rightarrow> parsed_block \<Rightarrow> parsed_block list" where
  "expand_block u sz overlap b =
     map (\<lambda>(i, part). b\<lparr>b_text := part, b_heading := b_heading b \<and> i = 0\<rparr>)
       (enumerate 0 (split_long_text u sz overlap (b_text b)))"

fun pack_blocks :: "nat \<Rightarrow> nat \<Rightarrow> nat \<Rightarrow> parsed_block list \<Rightarrow> parsed_block list \<Rightarrow> chunk list" where
  "pack_blocks sz overlap i cur [] = (if cur = [] then [] else [make_chunk cur i])"
| "pack_blocks sz overlap i cur (b # bs) =
     (if cur \<noteq> [] \<and> joined_length (cur @ [b]) > sz
      then make_chunk cur i # pack_blocks sz overlap (i + 1) (shrink sz b (overlap_blocks overlap cur) @ [b]) bs
      else pack_blocks sz overlap i (cur @ [b]) bs)"

definition chunk_block_group :: "unicode \<Rightarrow> nat \<Rightarrow> nat \<Rightarrow> nat \<Rightarrow> parsed_block list \<Rightarrow> chunk list" where
  "chunk_block_group u sz overlap start bs =
     pack_blocks sz overlap start [] (concat (map (expand_block u sz overlap) bs))"

subsection \<open>Merging\<close>

definition is_heading_only_chunk :: "unicode \<Rightarrow> chunk \<Rightarrow> bool" where
  "is_heading_only_chunk u c \<longleftrightarrow> normalize_content u (c_text c) = normalize_content u (c_section c)"

text \<open>\<open>text.split("\n\n")\<close>\<close>

fun split_para :: "utext \<Rightarrow> utext \<Rightarrow> utext list" where
  "split_para cur [] = [cur]"
| "split_para cur [c] = [cur @ [c]]"
| "split_para cur (c # d # cs) =
     (if c = NL \<and> d = NL then cur # split_para [] cs else split_para (cur @ [c]) (d # cs))"

definition merge_paragraphs :: "unicode \<Rightarrow> utext list \<Rightarrow> utext list" where
  "merge_paragraphs u ps =
     map (strip_cp u) (dedup_seen (normalize_content u) [] (filter (\<lambda>p. normalize_content u p \<noteq> []) ps))"

definition merge_chunks :: "unicode \<Rightarrow> chunk \<Rightarrow> chunk \<Rightarrow> chunk" where
  "merge_chunks u a b =
     a\<lparr>c_text := join_cp PARA (merge_paragraphs u (split_para [] (c_text a) @ split_para [] (c_text b))),
       c_section := (if is_heading_only_chunk u a \<and> \<not> is_heading_only_chunk u b then c_section b else c_section a),
       c_ocr := c_ocr a \<or> c_ocr b\<rparr>"

text \<open>\<open>pending[index : index + 2] = [merged]\<close>\<close>

definition splice2 :: "nat \<Rightarrow> 'a \<Rightarrow> 'a list \<Rightarrow> 'a list" where
  "splice2 i x xs = take i xs @ [x] @ drop (i + 2) xs"

lemma length_splice2: "i + 1 < length xs \<Longrightarrow> length (splice2 i x xs) = length xs - 1"
  by (simp add: splice2_def)

function merge_loop :: "unicode \<Rightarrow> nat \<Rightarrow> nat \<Rightarrow> chunk list \<Rightarrow> chunk list" where
  "merge_loop u minimum index pending =
     (if length pending > 1 \<and> index < length pending then
        let c = pending ! index in
        if length (normalize_content u (c_text c)) \<ge> minimum \<and> \<not> is_heading_only_chunk u c
        then merge_loop u minimum (index + 1) pending
        else if index + 1 < length pending
        then merge_loop u minimum index (splice2 index (merge_chunks u c (pending ! (index + 1))) pending)
        else merge_loop u minimum (index - 1) (splice2 (index - 1) (merge_chunks u (pending ! (index - 1)) c) pending)
      else pending)"
  by pat_completeness auto
termination
  by (relation "measures [\<lambda>(u, minimum, index, pending). length pending,
        \<lambda>(u, minimum, index, pending). length pending - index]")
    (auto simp: length_splice2)

declare merge_loop.simps [simp del]

definition merge_tiny_page_chunks :: "unicode \<Rightarrow> nat \<Rightarrow> chunk list \<Rightarrow> chunk list" where
  "merge_tiny_page_chunks u minimum cs = merge_loop u minimum 0 cs"

subsection \<open>Documents\<close>

definition MIN_MERGED_CHUNK_CHARS :: nat where "MIN_MERGED_CHUNK_CHARS = 80"
definition MIN_INDEXABLE_CHUNK_CHARS :: nat where "MIN_INDEXABLE_CHUNK_CHARS = 40"

fun dedup_loop_chunks :: "unicode \<Rightarrow> utext list \<Rightarrow> chunk list \<Rightarrow> chunk list" where
  "dedup_loop_chunks u seen [] = []"
| "dedup_loop_chunks u seen (c # cs) =
     (let key = normalize_content u (c_text c) in
      if length key < MIN_INDEXABLE_CHUNK_CHARS \<or> is_heading_only_chunk u c \<or> key \<in> set seen
      then dedup_loop_chunks u seen cs
      else c # dedup_loop_chunks u (key # seen) cs)"

definition deduplicate_chunks :: "unicode \<Rightarrow> chunk list \<Rightarrow> chunk list" where
  "deduplicate_chunks u cs = dedup_loop_chunks u [] cs"

fun page_chunk_loop :: "unicode \<Rightarrow> nat \<Rightarrow> nat \<Rightarrow> chunk list \<Rightarrow> parsed_block list \<Rightarrow> utext \<Rightarrow> parsed_block list \<Rightarrow> chunk list" where
  "page_chunk_loop u sz overlap acc grp active [] =
     (if grp = [] then acc else acc @ chunk_block_group u sz overlap (length acc) grp)"
| "page_chunk_loop u sz overlap acc grp active (b # bs) =
     (if grp \<noteq> [] \<and> b_section b \<noteq> active
      then page_chunk_loop u sz overlap (acc @ chunk_block_group u sz overlap (length acc) grp) [b] (b_section b) bs
      else page_chunk_loop u sz overlap acc (grp @ [b]) (b_section b) bs)"

definition page_chunks :: "unicode \<Rightarrow> nat \<Rightarrow> nat \<Rightarrow> parsed_page \<Rightarrow> chunk list" where
  "page_chunks u sz overlap p = merge_tiny_page_chunks u (min MIN_MERGED_CHUNK_CHARS sz)
     (page_chunk_loop u sz overlap [] [] [] (pg_blocks p))"

definition validate_chunk_settings :: "int \<Rightarrow> int \<Rightarrow> exn + unit" where
  "validate_chunk_settings sz overlap =
     (if sz < 1 then Inl (Exn ''ValueError'' ''CHUNK_SIZE must be positive'')
      else if overlap < 0 then Inl (Exn ''ValueError'' ''CHUNK_OVERLAP must be non-negative'')
      else if overlap \<ge> sz then Inl (Exn ''ValueError'' ''CHUNK_OVERLAP must be smaller than CHUNK_SIZE'')
      else Inr ())"

definition chunk_document :: "unicode \<Rightarrow> int \<Rightarrow> int \<Rightarrow> parsed_document \<Rightarrow> exn + chunk list" where
  "chunk_document u sz overlap d = (case validate_chunk_settings sz overlap of
      Inl e \<Rightarrow> Inl e
    | Inr _ \<Rightarrow> Inr (map (\<lambda>(i, c). c\<lparr>c_index := i\<rparr>) (enumerate 0
        (deduplicate_chunks u (concat (map (page_chunks u (nat sz) (nat overlap)) (d_pages d)))))))"

definition chunk_text :: "unicode \<Rightarrow> int \<Rightarrow> int \<Rightarrow> utext \<Rightarrow> exn + utext list" where
  "chunk_text u sz overlap t = (case validate_chunk_settings sz overlap of
      Inl e \<Rightarrow> Inl e
    | Inr _ \<Rightarrow> (let n = clean_text u t in
        if n = [] then Inr [] else Inr (split_long_text u (nat sz) (nat overlap) n)))"

definition load_pdf_chunks :: "unicode \<Rightarrow> parse_options \<Rightarrow> int \<Rightarrow> int \<Rightarrow> string \<Rightarrow> pdf_file \<Rightarrow> exn + chunk list" where
  "load_pdf_chunks u opt sz overlap name file = (case parse_pdf u opt name file of
      Inl e \<Rightarrow> Inl e
    | Inr d \<Rightarrow> (case chunk_document u sz overlap d of
          Inl e \<Rightarrow> Inl e
        | Inr [] \<Rightarrow> Inl (Exn ''DocumentProcessingError'' ''PDF produced no indexable chunks'')
        | Inr cs \<Rightarrow> Inr cs))"

subsection \<open>Size of the pieces\<close>

lemma overlap_prefix_length: "length (overlap_prefix u ov cur) \<le> ov"
  using length_lstrip_cp [of u "drop (length cur - ov) cur"] by (auto simp: overlap_prefix_def)

lemma pack_sentences_length:
  "\<forall>s \<in> set ss. length s \<le> sz \<Longrightarrow> length cur \<le> sz + ov + 1 \<Longrightarrow>
   p \<in> set (pack_sentences u sz ov cur ss) \<Longrightarrow> length p \<le> sz + ov + 1"
proof (induction ss arbitrary: cur)
  case Nil
  then show ?case by (auto split: if_splits)
next
  case (Cons s ss)
  let ?next = "strip_cp u (overlap_prefix u ov cur @ [SP] @ s)" and ?cand = "strip_cp u (cur @ [SP] @ s)"
  have nxt: "length ?next \<le> sz + ov + 1"
    using length_strip_cp [of u "overlap_prefix u ov cur @ [SP] @ s"] overlap_prefix_length [of u ov cur]
      Cons.prems(1) by simp
  have prp: "length ?cand \<le> sz + ov + 1" if "cur = [] \<or> length ?cand \<le> sz"
    using that length_strip_cp [of u "[SP] @ s"] Cons.prems(1) by auto
  from Cons.prems(3) consider "p = cur" | "p \<in> set (pack_sentences u sz ov ?next ss)"
    | "p \<in> set (pack_sentences u sz ov ?cand ss)" "cur = [] \<or> length ?cand \<le> sz"
    by (auto simp: Let_def not_less split: if_splits)
  then show ?case
    using Cons.IH [of ?next] Cons.IH [of ?cand] Cons.prems nxt prp by cases auto
qed

lemma windows_length: "p \<in> set (windows u sz st t) \<Longrightarrow> length p \<le> sz"
proof -
  assume "p \<in> set (windows u sz st t)"
  then obtain i where "p = strip_cp u (take sz (drop i t))" by (auto simp: windows_def)
  then show ?thesis using length_strip_cp [of u "take sz (drop i t)"] by simp
qed

subsection \<open>Nothing is lost by splitting\<close>

lemma window_cover:
  "0 < st \<Longrightarrow> st \<le> sz \<Longrightarrow> start \<le> i \<Longrightarrow> i < n \<Longrightarrow>
   \<exists>w \<in> set (window_starts n sz st start). w \<le> i \<and> i < w + sz"
proof (induction n sz st start rule: window_starts.induct)
  case (1 n sz st start)
  show ?case
  proof (cases "start + sz \<ge> n \<or> i < start + sz")
    case True
    then show ?thesis using "1.prems" by (subst window_starts.simps) auto
  next
    case False
    then show ?thesis using "1.IH" "1.prems" by (subst window_starts.simps) auto
  qed
qed

text \<open>A text that \<open>strip\<close> would not change.\<close>

definition trimmed :: "unicode \<Rightarrow> utext \<Rightarrow> bool" where
  "trimmed u t \<longleftrightarrow> t \<noteq> [] \<and> \<not> is_space u (hd t) \<and> \<not> is_space u (last t)"

lemma strip_cp_trimmed: "strip_cp u t \<noteq> [] \<Longrightarrow> trimmed u (strip_cp u t)"
proof -
  let ?x = "dropWhile (is_space u) t"
  assume ne: "strip_cp u t \<noteq> []"
  then have x: "?x \<noteq> []" "dropWhile (is_space u) (rev ?x) \<noteq> []"
    by (auto simp: strip_cp_def simp del: dropWhile_eq_Nil_conv)
  have "\<not> is_space u (hd (dropWhile (is_space u) (rev ?x)))" using x(2) by (rule hd_dropWhile)
  then have l: "\<not> is_space u (last (strip_cp u t))" using x(2) by (simp add: strip_cp_def last_rev)
  have "suffix (dropWhile (is_space u) (rev ?x)) (rev ?x)" by (rule suffix_dropWhile)
  then have "prefix (strip_cp u t) ?x" by (simp add: strip_cp_def suffix_to_prefix)
  then have "hd (strip_cp u t) = hd ?x" using ne by (auto simp: prefix_def)
  moreover have "\<not> is_space u (hd ?x)" using x(1) by (rule hd_dropWhile)
  ultimately show ?thesis using ne l by (simp add: trimmed_def)
qed

lemma strip_cp_keeps_last:
  assumes "t \<noteq> []" "\<not> is_space u (last t)"
  shows "strip_cp u t = dropWhile (is_space u) t"
proof -
  have ne: "dropWhile (is_space u) t \<noteq> []"
    using assms last_in_set by (auto simp: dropWhile_eq_Nil_conv)
  have "last (dropWhile (is_space u) t) = last t"
    using ne by (metis last_append takeWhile_dropWhile_id)
  then have "\<not> is_space u (hd (rev (dropWhile (is_space u) t)))"
    using assms(2) ne by (simp add: hd_rev)
  then have "dropWhile (is_space u) (rev (dropWhile (is_space u) t)) = rev (dropWhile (is_space u) t)"
    using ne by (metis dropWhile_eq_self_iff)
  then show ?thesis by (simp add: strip_cp_def)
qed

lemma strip_append_trimmed:
  assumes "trimmed u s"
  shows "suffix s (strip_cp u (x @ s))" "trimmed u (strip_cp u (x @ s))"
    "x \<noteq> [] \<Longrightarrow> \<not> is_space u (hd x) \<Longrightarrow> strip_cp u (x @ s) = x @ s"
proof -
  have s: "s \<noteq> []" "\<not> is_space u (hd s)" "\<not> is_space u (last s)" using assms by (auto simp: trimmed_def)
  then have e: "strip_cp u (x @ s) = dropWhile (is_space u) (x @ s)"
    by (intro strip_cp_keeps_last) auto
  have "dropWhile (is_space u) s = s" using s by (metis dropWhile_eq_self_iff)
  then show "suffix s (strip_cp u (x @ s))"
    unfolding e by (cases "\<forall>c \<in> set x. is_space u c") (auto simp: dropWhile_append suffix_def)
  then have "strip_cp u (x @ s) \<noteq> []" using s(1) by (auto simp: suffix_def)
  then show "trimmed u (strip_cp u (x @ s))" by (rule strip_cp_trimmed)
  show "strip_cp u (x @ s) = x @ s" if "x \<noteq> []" "\<not> is_space u (hd x)"
    unfolding e using that by (metis dropWhile_eq_self_iff hd_append2)
qed

lemma pack_sentences_keeps:
  assumes "\<forall>s \<in> set ss. trimmed u s" "cur = [] \<or> trimmed u cur" "sublist x cur \<or> x \<in> set ss" "x \<noteq> []"
  shows "\<exists>p \<in> set (pack_sentences u sz ov cur ss). sublist x p"
  using assms(1-3)
proof (induction ss arbitrary: cur)
  case Nil
  then show ?case using assms(4) by auto
next
  case (Cons s ss)
  let ?next = "strip_cp u ((overlap_prefix u ov cur @ [SP]) @ s)" and ?cand = "strip_cp u ((cur @ [SP]) @ s)"
  have s: "trimmed u s" using Cons.prems(1) by simp
  note ex = strip_append_trimmed [OF s]
  have s_in: "sublist s ?next" "sublist s ?cand" by (rule suffix_imp_sublist [OF ex(1)])+
  have tr: "trimmed u ?next" "trimmed u ?cand" by (rule ex(2))+
  have cur_in: "sublist cur ?cand" if "cur \<noteq> []"
    using that Cons.prems(2) ex(3) [of "cur @ [SP]"] by (auto simp: trimmed_def sublist_appendI)
  have IH: "\<exists>p \<in> set (pack_sentences u sz ov c ss). sublist x p"
    if "trimmed u c" "sublist x c \<or> x \<in> set ss" for c
    using Cons.IH [of c] Cons.prems(1) that by auto
  show ?case
  proof (cases "cur \<noteq> [] \<and> length ?cand > sz")
    case True
    show ?thesis
    proof (cases "sublist x cur")
      case True
      with \<open>cur \<noteq> [] \<and> length ?cand > sz\<close> show ?thesis by (auto simp: Let_def)
    next
      case False
      with Cons.prems(3) s_in have "sublist x ?next \<or> x \<in> set ss" by auto
      with IH [OF tr(1)] have "\<exists>p \<in> set (pack_sentences u sz ov ?next ss). sublist x p" by blast
      with True show ?thesis by (auto simp: Let_def)
    qed
  next
    case False
    have "sublist x ?cand \<or> x \<in> set ss"
    proof (cases "cur = []")
      case True
      with Cons.prems(3) assms(4) s_in show ?thesis by auto
    next
      case False
      with Cons.prems(3) s_in cur_in show ?thesis using sublist_order.order.trans by auto
    qed
    with IH [OF tr(2)] have "\<exists>p \<in> set (pack_sentences u sz ov ?cand ss). sublist x p" by blast
    with False show ?thesis by (auto simp: Let_def)
  qed
qed

lemma sentences_trimmed: "s \<in> set (sentences u t) \<Longrightarrow> trimmed u s"
  by (auto simp: sentences_def strip_cp_trimmed)

text \<open>
  Splitting loses nothing and its pieces are bounded. With \<open>0 \<le> overlap < chunk_size\<close>, a long text
  is cut in one of two ways. Where it consists of several sentences that each fit, every
  sentence is whole in some piece and a piece has at most
  \<open>chunk_size + overlap + 1\<close> characters. Otherwise the pieces are the trimmed windows at
  the given starts, every position of the text lies in one of the windows, and a piece has
  at most \<open>chunk_size\<close> characters.
\<close>

theorem split_long_text_correct:
  assumes "ov < sz" "length t > sz" "ss = sentences u t"
  shows "(length ss > 1 \<and> (\<forall>s \<in> set ss. length s \<le> sz) \<longrightarrow>
       (\<forall>s \<in> set ss. \<exists>p \<in> set (split_long_text u sz ov t). sublist s p) \<and>
       (\<forall>p \<in> set (split_long_text u sz ov t). length p \<le> sz + ov + 1)) \<and>
     (\<not> (length ss > 1 \<and> (\<forall>s \<in> set ss. length s \<le> sz)) \<longrightarrow>
       split_long_text u sz ov t = windows u sz (sz - ov) t \<and>
       (\<forall>i < length t. \<exists>w \<in> set (window_starts (length t) sz (sz - ov) 0). w \<le> i \<and> i < w + sz) \<and>
       (\<forall>p \<in> set (split_long_text u sz ov t). length p \<le> sz))"
proof -
  have sent: "split_long_text u sz ov t = pack_sentences u sz ov [] ss"
    if "length ss > 1" "\<forall>s \<in> set ss. length s \<le> sz"
    using that assms(2,3) by (auto simp: split_long_text_def list_all_iff Let_def)
  have win: "split_long_text u sz ov t = windows u sz (sz - ov) t"
    if "\<not> (length ss > 1 \<and> (\<forall>s \<in> set ss. length s \<le> sz))"
    using that assms(2,3) by (auto simp: split_long_text_def list_all_iff Let_def)
  have tr: "\<forall>s \<in> set ss. trimmed u s" using assms(3) sentences_trimmed by blast
  have keep: "\<exists>p \<in> set (pack_sentences u sz ov [] ss). sublist s p" if "s \<in> set ss" for s
    using pack_sentences_keeps [of ss u "[]" s sz ov] tr that by (auto simp: trimmed_def)
  have bound: "\<forall>p \<in> set (pack_sentences u sz ov [] ss). length p \<le> sz + ov + 1" if "\<forall>s \<in> set ss. length s \<le> sz"
    using pack_sentences_length [of ss sz "[]" ov] that by simp
  show ?thesis
    using sent win keep bound windows_length [of _ u sz "sz - ov" t] window_cover [of "sz - ov" sz 0 _ "length t"] assms(1)
    by simp
qed

lemma two_sentences: "sentences ascii_db (cps ''abcd. efgh.'') = [cps ''abcd.'', cps ''efgh.'']"
  by (simp add: sentences_def cps_def sentence_marks_def strip_cp_def ascii_db_def)

theorem split_long_text_correct_witness:
  "split_long_text ascii_db 5 2 (cps ''abcd. efgh.'') = [cps ''abcd.'', cps ''d. efgh.''] \<and>
   length (cps ''d. efgh.'') = 5 + 2 + 1 \<and>
   (\<exists>p \<in> set (split_long_text ascii_db 5 2 (cps ''abcd. efgh.'')). sublist (cps ''efgh.'') p) \<and>
   list_all (\<lambda>p. length p \<le> 8) (split_long_text ascii_db 5 2 (cps ''abcd. efgh.''))"
proof -
  have eq: "split_long_text ascii_db 5 2 (cps ''abcd. efgh.'') = [cps ''abcd.'', cps ''d. efgh.'']"
    unfolding split_long_text_def two_sentences
    by (simp add: cps_def strip_cp_def overlap_prefix_def lstrip_cp_def ascii_db_def)
  have len: "length (cps ''abcd.'') = 5" "length (cps ''efgh.'') = 5" "length (cps ''abcd. efgh.'') = 11"
    by (simp_all add: cps_def)
  have "(\<exists>p \<in> set (split_long_text ascii_db 5 2 (cps ''abcd. efgh.'')). sublist (cps ''efgh.'') p) \<and>
    (\<forall>p \<in> set (split_long_text ascii_db 5 2 (cps ''abcd. efgh.'')). length p \<le> 5 + 2 + 1)"
    using split_long_text_correct [of 2 5 "cps ''abcd. efgh.''" "[cps ''abcd.'', cps ''efgh.'']" ascii_db]
    by (simp add: two_sentences len)
  then show ?thesis unfolding eq by (simp add: cps_def list_all_iff)
qed

subsection \<open>Chunks stay on their page\<close>

lemma expand_block_page: "b \<in> set (expand_block u sz ov x) \<Longrightarrow> b_page b = b_page x"
  by (auto simp: expand_block_def)

lemma shrink_subset: "set (shrink sz b xs) \<subseteq> set xs"
  by (induction xs) auto

lemma overlap_loop_subset: "set (overlap_loop ov r len bs) \<subseteq> set r \<union> set bs"
proof (induction bs arbitrary: r len)
  case (Cons b bs)
  then show ?case using Cons.IH [of "b # r" "len + length (b_text b)"] by (auto simp: Let_def)
qed simp

lemma overlap_blocks_subset: "set (overlap_blocks ov bs) \<subseteq> set bs"
  using overlap_loop_subset [of ov "[]" 0 "rev bs"] by (simp add: overlap_blocks_def)

lemma pack_blocks_page:
  "\<forall>b \<in> set cur \<union> set bs. b_page b = n \<Longrightarrow> c \<in> set (pack_blocks sz ov i cur bs) \<Longrightarrow> c_page c = n"
proof (induction bs arbitrary: cur i)
  case Nil
  then show ?case by (cases cur) (auto simp: make_chunk_def)
next
  case (Cons b bs)
  let ?cur' = "shrink sz b (overlap_blocks ov cur) @ [b]"
  have "set ?cur' \<subseteq> set cur \<union> {b}"
    using shrink_subset [of sz b "overlap_blocks ov cur"] overlap_blocks_subset [of ov cur] by auto
  then have cur': "\<forall>b \<in> set ?cur' \<union> set bs. b_page b = n" using Cons.prems(1) by auto
  from Cons.prems(2) consider "cur \<noteq> []" "c = make_chunk cur i" | "c \<in> set (pack_blocks sz ov (i + 1) ?cur' bs)"
    | "c \<in> set (pack_blocks sz ov i (cur @ [b]) bs)"
    by (auto split: if_splits)
  then show ?case
  proof cases
    case 1
    then show ?thesis using Cons.prems(1) by (cases cur) (auto simp: make_chunk_def)
  next
    case 2
    then show ?thesis using Cons.IH [OF cur'] by blast
  next
    case 3
    then show ?thesis using Cons.IH [of "cur @ [b]" i] Cons.prems(1) by auto
  qed
qed

lemma chunk_block_group_page:
  "\<forall>b \<in> set bs. b_page b = n \<Longrightarrow> c \<in> set (chunk_block_group u sz ov i bs) \<Longrightarrow> c_page c = n"
  unfolding chunk_block_group_def
  by (rule pack_blocks_page [of "[]" "concat (map (expand_block u sz ov) bs)"]) (auto dest: expand_block_page)

lemma page_chunk_loop_page:
  "\<forall>b \<in> set grp \<union> set bs. b_page b = n \<Longrightarrow> \<forall>c \<in> set acc. c_page c = n \<Longrightarrow>
   \<forall>c \<in> set (page_chunk_loop u sz ov acc grp active bs). c_page c = n"
proof (induction bs arbitrary: acc grp active)
  case Nil
  then have "\<forall>c \<in> set (chunk_block_group u sz ov (length acc) grp). c_page c = n"
    using chunk_block_group_page by (metis UnCI)
  with Nil show ?case by auto
next
  case (Cons b bs)
  have grp: "\<forall>c \<in> set (chunk_block_group u sz ov (length acc) grp). c_page c = n"
    using Cons.prems(1) chunk_block_group_page by (metis UnCI)
  show ?case
  proof (cases "grp \<noteq> [] \<and> b_section b \<noteq> active")
    case True
    have "\<forall>c \<in> set (page_chunk_loop u sz ov (acc @ chunk_block_group u sz ov (length acc) grp) [b] (b_section b) bs). c_page c = n"
      by (rule Cons.IH) (use Cons.prems grp in auto)
    with True show ?thesis by simp
  next
    case False
    have "\<forall>c \<in> set (page_chunk_loop u sz ov acc (grp @ [b]) (b_section b) bs). c_page c = n"
      by (rule Cons.IH) (use Cons.prems in auto)
    with False show ?thesis by (simp only: page_chunk_loop.simps if_False)
  qed
qed

lemma splice2_subset: "set (splice2 i x xs) \<subseteq> insert x (set xs)"
  by (auto simp: splice2_def dest: in_set_takeD in_set_dropD)

lemma merge_loop_page:
  "\<forall>c \<in> set pending. c_page c = n \<Longrightarrow> \<forall>c \<in> set (merge_loop u mn i pending). c_page c = n"
proof (induction u mn i pending rule: merge_loop.induct)
  case (1 u mn i pending)
  have m: "c_page (merge_chunks u (pending ! j) c') = n" if "j < length pending" for j c'
    using that "1.prems" by (simp add: merge_chunks_def)
  have sp: "\<forall>c \<in> set (splice2 j (merge_chunks u (pending ! k) c') pending). c_page c = n" if "k < length pending" for j k c'
    using splice2_subset [of j "merge_chunks u (pending ! k) c'" pending] m [OF that] "1.prems" by auto
  let ?c = "pending ! i"
  let ?big = "length (normalize_content u (c_text ?c)) \<ge> mn \<and> \<not> is_heading_only_chunk u ?c"
  show ?case
  proof (cases "length pending > 1 \<and> i < length pending")
    case False
    then show ?thesis using "1.prems" by (subst merge_loop.simps) auto
  next
    case True
    consider "?big" | "\<not> ?big" "i + 1 < length pending" | "\<not> ?big" "\<not> i + 1 < length pending" by blast
    then show ?thesis
    proof cases
      case 1
      then show ?thesis using "1.IH"(1) [OF True refl] "1.prems" True by (subst merge_loop.simps) simp
    next
      case 2
      then show ?thesis
        using "1.IH"(2) [OF True refl 2] sp [of i i] True by (subst merge_loop.simps) (auto simp: Let_def simp del: One_nat_def)
    next
      case 3
      then show ?thesis
        using "1.IH"(3) [OF True refl 3] sp [of "i - 1" "i - 1"] True by (subst merge_loop.simps) (auto simp: Let_def simp del: One_nat_def)
    qed
  qed
qed

lemma page_chunks_page:
  "\<forall>b \<in> set (pg_blocks p). b_page b = n \<Longrightarrow> c \<in> set (page_chunks u sz ov p) \<Longrightarrow> c_page c = n"
proof -
  assume b: "\<forall>b \<in> set (pg_blocks p). b_page b = n" and c: "c \<in> set (page_chunks u sz ov p)"
  have "\<forall>c \<in> set (page_chunk_loop u sz ov [] [] [] (pg_blocks p)). c_page c = n"
    by (rule page_chunk_loop_page) (use b in auto)
  from merge_loop_page [OF this] c show ?thesis by (simp add: page_chunks_def merge_tiny_page_chunks_def)
qed

subsection \<open>Chunks of a document\<close>

definition indexable :: "unicode \<Rightarrow> chunk \<Rightarrow> bool" where
  "indexable u c \<longleftrightarrow>
     length (normalize_content u (c_text c)) \<ge> MIN_INDEXABLE_CHUNK_CHARS \<and> \<not> is_heading_only_chunk u c"

lemma dedup_loop_chunks_eq:
  "dedup_loop_chunks u seen cs = dedup_seen (\<lambda>c. normalize_content u (c_text c)) seen (filter (indexable u) cs)"
  by (induction cs arbitrary: seen) (auto simp: indexable_def Let_def)

lemma deduplicate_chunks_eq:
  "deduplicate_chunks u cs = dedup_seen (\<lambda>c. normalize_content u (c_text c)) [] (filter (indexable u) cs)"
  by (simp add: deduplicate_chunks_def dedup_loop_chunks_eq)

definition page_scoped :: "parsed_document \<Rightarrow> bool" where
  "page_scoped d \<longleftrightarrow> sorted (map pg_number (d_pages d)) \<and>
     (\<forall>p \<in> set (d_pages d). \<forall>b \<in> set (pg_blocks p). b_page b = pg_number p)"

lemma concat_pages_sorted:
  assumes "sorted (map pg_number ps)" "\<forall>p \<in> set ps. \<forall>b \<in> set (pg_blocks p). b_page b = pg_number p"
  shows "sorted (map c_page (concat (map (page_chunks u sz ov) ps))) \<and>
    c_page ` set (concat (map (page_chunks u sz ov) ps)) \<subseteq> pg_number ` set ps"
  using assms
proof (induction ps)
  case (Cons p ps)
  have p: "c_page c = pg_number p" if "c \<in> set (page_chunks u sz ov p)" for c
    using page_chunks_page [OF _ that] Cons.prems(2) by simp
  then have "map c_page (page_chunks u sz ov p) = replicate (length (page_chunks u sz ov p)) (pg_number p)"
    by (intro replicate_eqI) auto
  moreover have IH: "sorted (map c_page (concat (map (page_chunks u sz ov) ps)))"
      "c_page ` set (concat (map (page_chunks u sz ov) ps)) \<subseteq> pg_number ` set ps"
    using Cons by auto
  moreover have "pg_number p \<le> c_page c" if "c \<in> set (concat (map (page_chunks u sz ov) ps))" for c
    using IH(2) that Cons.prems(1) by force
  ultimately show ?case
    using p by (simp add: sorted_append image_Un del: set_concat) auto
qed simp

lemma deduplicate_chunks_subseq: "subseq (deduplicate_chunks u cs) cs"
  unfolding deduplicate_chunks_eq
  using dedup_loop.dedup_subseq subseq_filter_left by (rule subseq_order.trans)

lemma map_index_c_index:
  "map c_index (map (\<lambda>(i, c). c\<lparr>c_index := i\<rparr>) (enumerate n cs)) = [n..<n + length cs]"
  "map c_page (map (\<lambda>(i, c). c\<lparr>c_index := i\<rparr>) (enumerate n cs)) = map c_page cs"
  "map c_text (map (\<lambda>(i, c). c\<lparr>c_index := i\<rparr>) (enumerate n cs)) = map c_text cs"
  "map c_section (map (\<lambda>(i, c). c\<lparr>c_index := i\<rparr>) (enumerate n cs)) = map c_section cs"
  by (induction cs arbitrary: n) (simp_all add: upt_rec)

lemma chunk_document_facts:
  assumes "page_scoped d" "chunk_document u sz ov d = Inr cs"
  shows "map c_index cs = [0..<length cs]"
    and "distinct (map (normalize_content u) (map c_text cs))"
    and "\<forall>t \<in> set (map c_text cs). length (normalize_content u t) \<ge> 40"
    and "\<forall>c \<in> set cs. normalize_content u (c_text c) \<noteq> normalize_content u (c_section c)"
    and "sorted (map c_page cs)" and "set (map c_page cs) \<subseteq> set (map pg_number (d_pages d))"
proof -
  obtain ds where ds: "ds = deduplicate_chunks u (concat (map (page_chunks u (nat sz) (nat ov)) (d_pages d)))"
    and cs: "cs = map (\<lambda>(i, c). c\<lparr>c_index := i\<rparr>) (enumerate 0 ds)"
    using assms(2) by (auto simp: chunk_document_def split: sum.splits)
  note maps = map_index_c_index [of 0 ds, folded cs]
  have sub: "subseq ds (concat (map (page_chunks u (nat sz) (nat ov)) (d_pages d)))"
    unfolding ds by (rule deduplicate_chunks_subseq)
  have pages: "sorted (map c_page (concat (map (page_chunks u (nat sz) (nat ov)) (d_pages d)))) \<and>
      c_page ` set (concat (map (page_chunks u (nat sz) (nat ov)) (d_pages d))) \<subseteq> pg_number ` set (d_pages d)"
    using assms(1) concat_pages_sorted by (auto simp: page_scoped_def)
  have idx: "\<forall>c \<in> set ds. indexable u c"
    using dedup_loop.dedup_set [of "\<lambda>c. normalize_content u (c_text c)"] unfolding ds deduplicate_chunks_eq by force
  show "map c_index cs = [0..<length cs]" using maps(1) by (simp add: cs)
  show "distinct (map (normalize_content u) (map c_text cs))"
    using dedup_loop.dedup_distinct [of "\<lambda>c. normalize_content u (c_text c)"]
    unfolding maps(3) ds deduplicate_chunks_eq by (simp add: comp_def)
  show "\<forall>t \<in> set (map c_text cs). length (normalize_content u t) \<ge> 40"
    unfolding maps(3) using idx by (auto simp: indexable_def MIN_INDEXABLE_CHUNK_CHARS_def)
  show "\<forall>c \<in> set cs. normalize_content u (c_text c) \<noteq> normalize_content u (c_section c)"
    using idx by (auto simp: cs indexable_def is_heading_only_chunk_def in_set_enumerate_eq)
  show "sorted (map c_page cs)"
    unfolding maps(2) using pages sorted_subseq [OF subseq_map [OF sub]] by blast
  have "set (map c_page ds) \<subseteq> c_page ` set (concat (map (page_chunks u (nat sz) (nat ov)) (d_pages d)))"
    using image_mono [OF subseq_set_subset [OF sub]] by (simp only: set_map)
  also have "\<dots> \<subseteq> set (map pg_number (d_pages d))" using pages by (simp only: set_map)
  finally show "set (map c_page cs) \<subseteq> set (map pg_number (d_pages d))" unfolding maps(2) .
qed

text \<open>
  C31. Chunks of a document. For valid settings and a document whose blocks carry the number of their
  page, with pages in order, chunking succeeds; the chunks are numbered from 0 without
  gaps, no two have the same normalized text, each has at least 40 normalized characters
  and is more than its heading, and the page numbers never decrease and are pages of the
  document: no chunk mixes pages or is attributed to a page that is not there. Invalid
  settings are the only error.
\<close>

theorem chunk_document_correct:
  assumes "page_scoped d"
  shows "(is_ok (chunk_document u sz ov d) \<longleftrightarrow> 0 \<le> ov \<and> ov < sz) \<and>
    (\<forall>cs. chunk_document u sz ov d = Inr cs \<longrightarrow>
       map c_index cs = [0..<length cs] \<and>
       distinct (map (normalize_content u) (map c_text cs)) \<and>
       (\<forall>t \<in> set (map c_text cs). length (normalize_content u t) \<ge> 40) \<and>
       (\<forall>c \<in> set cs. normalize_content u (c_text c) \<noteq> normalize_content u (c_section c)) \<and>
       sorted (map c_page cs) \<and> set (map c_page cs) \<subseteq> set (map pg_number (d_pages d)))"
proof -
  have "is_ok (chunk_document u sz ov d) \<longleftrightarrow> 0 \<le> ov \<and> ov < sz"
    by (auto simp: chunk_document_def validate_chunk_settings_def)
  then show ?thesis by (intro conjI allI impI chunk_document_facts [OF assms]) assumption+
qed

definition demo_document :: parsed_document where
  "demo_document = \<lparr>d_filename = ''demo.pdf'', d_pages =
     [\<lparr>pg_number = 1, pg_blocks = [\<lparr>b_text = cps ''net income rose in the first quarter of the year'', b_page = 1,
         b_section = cps ''Page 1'', b_ocr = False, b_heading = False\<rparr>], pg_ocr = False\<rparr>]\<rparr>"

lemma demo_chunks: "is_ok (chunk_document ascii_db 60 10 demo_document) \<and>
    map c_page (projr (chunk_document ascii_db 60 10 demo_document)) = [1]"
  by code_simp

theorem chunk_document_correct_witness:
  "page_scoped demo_document \<and>
   (\<exists>cs. chunk_document ascii_db 60 10 demo_document = Inr cs \<and> map c_page cs = [1] \<and> map c_index cs = [0] \<and>
      distinct (map (normalize_content ascii_db) (map c_text cs)))"
proof -
  have p: "page_scoped demo_document" by (simp add: page_scoped_def demo_document_def)
  obtain cs where cs: "chunk_document ascii_db 60 10 demo_document = Inr cs" "map c_page cs = [1]"
    using demo_chunks by (cases "chunk_document ascii_db 60 10 demo_document") auto
  then have "length cs = 1" by (metis length_map length_Cons list.size(3) One_nat_def)
  with p cs chunk_document_correct [OF p, of ascii_db 60 10] show ?thesis by (auto simp: upt_rec)
qed

subsection \<open>Loading a file\<close>

lemma parse_blocks_page: "\<forall>b \<in> set (fst (parse_blocks u n ocr sect raws)). b_page b = n"
  by (induction raws arbitrary: sect) (auto simp: Let_def split_beta)

lemma parse_pages_numbers:
  "parse_pages u opt i sect ps = Inr pages \<Longrightarrow>
   map pg_number pages = [i + 1..<i + 1 + length ps] \<and>
   (\<forall>p \<in> set pages. \<forall>b \<in> set (pg_blocks p). b_page b = pg_number p)"
proof (induction ps arbitrary: i sect pages)
  case (Cons p ps)
  then obtain raws ocr rest sect' where
      rest: "parse_pages u opt (i + 1) sect' ps = Inr rest"
    and pages: "pages = \<lparr>pg_number = i + 1, pg_blocks = fst (parse_blocks u (i + 1) ocr sect raws), pg_ocr = ocr\<rparr> # rest"
    by (auto simp: Let_def split_beta split: sum.splits prod.splits)
  have "[i + 1..<i + 1 + length (p # ps)] = (i + 1) # [i + 2..<i + 2 + length ps]"
    by (simp add: upt_rec)
  then show ?case using Cons.IH [OF rest] pages parse_blocks_page [of u "i + 1" ocr sect raws] by simp
qed simp

lemma parse_pdf_page_scoped:
  assumes "parse_pdf u opt name file = Inr d"
  shows "page_scoped d \<and> (\<exists>ps. file = Pages ps \<and> set (map pg_number (d_pages d)) = {1..length ps})"
proof -
  obtain ps where ps: "file = Pages ps" "parse_pages u opt 0 [] ps = Inr (d_pages d)"
    using assms by (auto simp: parse_pdf_def split: if_splits pdf_file.splits sum.splits)
  from parse_pages_numbers [OF ps(2)] have n: "map pg_number (d_pages d) = [1..<1 + length ps]"
    and b: "\<forall>p \<in> set (d_pages d). \<forall>b \<in> set (pg_blocks p). b_page b = pg_number p" by simp_all
  have "set (map pg_number (d_pages d)) = {1..length ps}" unfolding n by auto
  moreover have "sorted (map pg_number (d_pages d))" unfolding n by (rule sorted_upt)
  ultimately show ?thesis using b ps(1) unfolding page_scoped_def by blast
qed

text \<open>
  Provenance of the chunks of a file. Whatever the pages, the OCR results and the settings,
  when \<open>load_pdf_chunks\<close> returns it returns at least one chunk, the chunks are numbered
  from 0, have pairwise different normalized texts, are in page order, and every page
  number they carry is between 1 and the number of pages of the file.
\<close>

theorem load_pdf_chunks_provenance:
  assumes "load_pdf_chunks u opt sz ov name file = Inr cs"
  shows "cs \<noteq> [] \<and> map c_index cs = [0..<length cs] \<and> distinct (map (normalize_content u) (map c_text cs)) \<and>
    sorted (map c_page cs) \<and> (\<exists>ps. file = Pages ps \<and> set (map c_page cs) \<subseteq> {1..length ps})"
proof -
  obtain d where d: "parse_pdf u opt name file = Inr d" "chunk_document u sz ov d = Inr cs" "cs \<noteq> []"
    using assms by (auto simp: load_pdf_chunks_def split: sum.splits list.splits)
  obtain ps where ps: "page_scoped d" "file = Pages ps" "set (map pg_number (d_pages d)) = {1..length ps}"
    using parse_pdf_page_scoped [OF d(1)] by blast
  show ?thesis using chunk_document_facts [OF ps(1) d(2)] d(3) ps(2,3) by auto
qed

definition demo_text :: utext where
  "demo_text = cps ''net income rose in the first quarter of the year, while costs fell.''"

definition demo_file :: pdf_file where
  "demo_file = Pages [\<lparr>native_blocks = [demo_text], ocr_blocks = Inl ''no engine''\<rparr>]"

definition demo_options :: parse_options where
  "demo_options = \<lparr>ocr_enabled = False, ocr_languages = ''eng'', ocr_dpi = 200, ocr_min_text_chars = 20\<rparr>"

lemma demo_clean: "clean_text ascii_db demo_text = demo_text"
  by (simp add: clean_text_def demo_text_def cps_def ascii_db_def strip_cp_def)

lemma demo_not_heading: "\<not> looks_like_heading ascii_db demo_text demo_text"
proof -
  have "ends_in [46, 63, 33, 12290, 65311, 65281, 59, 65307, 44, 65292] demo_text"
    by (simp add: ends_in_def demo_text_def cps_def)
  then show ?thesis by (simp add: looks_like_heading_def Let_def)
qed

lemma demo_parse: "parse_pdf ascii_db demo_options ''demo.pdf'' demo_file =
   Inr \<lparr>d_filename = ''demo.pdf'', d_pages =
     [\<lparr>pg_number = 1, pg_blocks = [\<lparr>b_text = demo_text, b_page = 1,
         b_section = page_label 1, b_ocr = False, b_heading = False\<rparr>], pg_ocr = False\<rparr>]\<rparr>"
proof -
  have "demo_text \<noteq> []" by (simp add: demo_text_def cps_def)
  then show ?thesis
  by (simp add: parse_pdf_def demo_options_def demo_file_def strip_def py_space_def choose_blocks_def demo_clean demo_not_heading)
qed

lemma demo_load: "is_ok (load_pdf_chunks ascii_db demo_options 80 10 ''demo.pdf'' demo_file)"
proof -
  have "(case chunk_document ascii_db 80 10 \<lparr>d_filename = ''demo.pdf'', d_pages =
     [\<lparr>pg_number = 1, pg_blocks = [\<lparr>b_text = demo_text, b_page = 1,
         b_section = page_label 1, b_ocr = False, b_heading = False\<rparr>], pg_ocr = False\<rparr>]\<rparr> of
     Inl e \<Rightarrow> False | Inr cs \<Rightarrow> cs \<noteq> [])"
    by code_simp
  then show ?thesis by (auto simp: load_pdf_chunks_def demo_parse split: sum.splits list.splits)
qed

theorem load_pdf_chunks_provenance_witness:
  "\<exists>cs. load_pdf_chunks ascii_db demo_options 80 10 ''demo.pdf'' demo_file = Inr cs \<and> cs \<noteq> [] \<and>
     set (map c_page cs) \<subseteq> {1}"
proof -
  obtain cs where cs: "load_pdf_chunks ascii_db demo_options 80 10 ''demo.pdf'' demo_file = Inr cs"
    using demo_load by (auto simp: is_ok_iff)
  from load_pdf_chunks_provenance [OF this] show ?thesis
    using cs by (auto simp: demo_file_def)
qed

end
