(* ===== verification/Hybrid_Retrieval.thy ===== *)
theory Hybrid_Retrieval
  imports Document_Parser Json "HOL-Library.Multiset"
begin

text \<open>
  \<^verbatim>\<open>retrieval/hybrid_retriever.py\<close>, \<^verbatim>\<open>retrieval/bm25_retriever.py\<close>, the two filters
  and \<^verbatim>\<open>storage/vector_models.py\<close>: tenant-scoped vector search, BM25 over the same
  scopes, and reciprocal-rank fusion of the two.

  The vector store, the embedding model and the BM25 scores are code outside the
  repository: \<open>similarity_search\<close>, \<open>lexical_corpus\<close>, \<open>embed\<close> and \<open>bm25_scores\<close> are
  arguments, and so is the query enrichment. Ids and contents are texts (lists of code
  points). Scores are exact rationals in place of floats; the numbers in metadata that the
  code reads as scores are finite.
\<close>

subsection \<open>Results and filters\<close>

record result =
  r_doc :: utext
  r_chunk :: utext
  r_score :: rat
  r_content :: utext
  r_meta :: obj

record retrieval_context =
  question :: utext
  ctx_company :: "string option"
  document_ids :: "utext list option"
  top_k :: int
  filters :: obj
  tenant :: int
  include_public :: bool

record hybrid_config =
  enabled_hybrid :: bool
  vector_weight :: rat
  lexical_weight :: rat
  rrf_k :: int
  candidate_multiplier :: int

definition make_config :: "bool \<Rightarrow> rat \<Rightarrow> rat \<Rightarrow> int \<Rightarrow> int \<Rightarrow> exn + hybrid_config" where
  "make_config en vw lw k m =
     (if vw < 0 \<or> lw < 0 then Inl (Exn ''ValueError'' ''hybrid retrieval weights cannot be negative'')
      else if vw + lw \<le> 0 then Inl (Exn ''ValueError'' ''at least one hybrid retrieval weight must be positive'')
      else if k < 1 then Inl (Exn ''ValueError'' ''rrf_k must be at least 1'')
      else if m < 1 then Inl (Exn ''ValueError'' ''candidate_multiplier must be at least 1'')
      else Inr \<lparr>enabled_hybrid = en, vector_weight = vw, lexical_weight = lw, rrf_k = k, candidate_multiplier = m\<rparr>)"

definition document_filter :: "utext list option \<Rightarrow> utext list" where
  "document_filter ids = (case ids of None \<Rightarrow> [] | Some xs \<Rightarrow> xs)"

definition meta_get :: "result \<Rightarrow> string \<Rightarrow> json" where
  "meta_get r k = get_or (r_meta r) k JNull"

text \<open>An empty company string is falsy and filters nothing.\<close>

definition passes_filters :: "utext list \<Rightarrow> string option \<Rightarrow> obj \<Rightarrow> result \<Rightarrow> bool" where
  "passes_filters ids co fs r \<longleftrightarrow>
     (ids = [] \<or> r_doc r \<in> set ids) \<and>
     (case co of None \<Rightarrow> True | Some c \<Rightarrow> c = '''' \<or> py_eq (meta_get r ''company'') (JStr c)) \<and>
     (\<forall>(k, v) \<in> set fs. py_eq (meta_get r k) v)"

definition apply_filters :: "utext list \<Rightarrow> string option \<Rightarrow> obj \<Rightarrow> result list \<Rightarrow> result list" where
  "apply_filters ids co fs rs = filter (passes_filters ids co fs) rs"

definition in_scope :: "int \<Rightarrow> result \<Rightarrow> bool" where
  "in_scope t r \<longleftrightarrow> meta_get r ''tenant_id'' = JNull \<or> py_eq (meta_get r ''tenant_id'') (JInt t)"

definition apply_tenant_scope :: "int \<Rightarrow> result list \<Rightarrow> result list" where
  "apply_tenant_scope t rs = filter (in_scope t) rs"

subsection \<open>Keys, duplicates, ranking\<close>

type_synonym rkey = "utext \<times> utext"

definition result_key :: "unicode \<Rightarrow> result \<Rightarrow> rkey" where
  "result_key u r = (r_doc r, let n = normalize_content u (r_content r) in if n = [] then r_chunk r else n)"

definition deduplicate :: "unicode \<Rightarrow> result list \<Rightarrow> result list" where
  "deduplicate u rs = dedup_seen (result_key u) [] rs"

interpretation retrieval_dedup: keyed_dedup "result_key u" "deduplicate u" for u
  by unfold_locales
    (simp_all add: deduplicate_def dedup_seen_subseq dedup_seen_distinct dedup_seen_keys)

fun finite_number :: "json \<Rightarrow> rat option" where
  "finite_number (JInt i) = Some (of_int i)"
| "finite_number (JFloat (Fin x)) = Some x"
| "finite_number _ = None"

definition vector_relevance :: "result \<Rightarrow> rat option" where
  "vector_relevance r = (case finite_number (meta_get r ''similarity_score'') of
      Some x \<Rightarrow> Some x
    | None \<Rightarrow> (case finite_number (meta_get r ''confidence'') of
          Some x \<Rightarrow> Some x
        | None \<Rightarrow>
            if meta_get r ''score_semantics'' = JStr ''distance'' then Some (1 / (1 + max (r_score r) 0))
            else if meta_get r ''score_semantics'' \<in> {JStr ''similarity'', JStr ''relevance''} then Some (r_score r)
            else None))"

text \<open>
  The sort key of the source is \<open>(relevance is None, -relevance, index)\<close>; sorting is
  stable, so the index is the position.
\<close>

definition globally_rank_vector_results :: "result list \<Rightarrow> result list" where
  "globally_rank_vector_results rs =
     (if list_all (\<lambda>r. vector_relevance r = None) rs then rs
      else sort_key (\<lambda>r. (vector_relevance r = None, - (case vector_relevance r of Some x \<Rightarrow> x | None \<Rightarrow> 0))) rs)"

definition merge_ranked_results :: "unicode \<Rightarrow> result list \<Rightarrow> result list \<Rightarrow> nat \<Rightarrow> result list" where
  "merge_ranked_results u primary secondary k = take k (deduplicate u (primary @ secondary))"

subsection \<open>BM25\<close>

text \<open>\<open>[^\W_]+\<close>: the runs of word characters other than the underscore.\<close>

fun token_runs :: "unicode \<Rightarrow> utext \<Rightarrow> utext \<Rightarrow> utext list" where
  "token_runs u cur [] = (if cur = [] then [] else [cur])"
| "token_runs u cur (c # cs) =
     (if is_word u c \<and> c \<noteq> 95 then token_runs u (cur @ [c]) cs
      else if cur = [] then token_runs u [] cs else cur # token_runs u [] cs)"

definition tokenize :: "unicode \<Rightarrow> utext \<Rightarrow> utext list" where
  "tokenize u t = token_runs u [] (casefold u t)"

definition with_bm25 :: "result \<times> rat \<Rightarrow> result" where
  "with_bm25 = (\<lambda>(d, s). d\<lparr>r_score := s, r_meta := AList.update ''score_semantics'' (JStr ''bm25'')
     (AList.update ''bm25_score'' (JFloat (Fin s)) (r_meta d))\<rparr>)"

definition bm25_search :: "unicode \<Rightarrow> (utext list list \<Rightarrow> utext list \<Rightarrow> rat list) \<Rightarrow> utext \<Rightarrow> result list \<Rightarrow> nat \<Rightarrow> result list" where
  "bm25_search u bm25_scores query docs k =
     (let qs = tokenize u query;
          indexed = filter (\<lambda>d. tokenize u (r_content d) \<noteq> []) docs;
          corpus = map (\<lambda>d. tokenize u (r_content d)) indexed;
          ranked = filter (\<lambda>(d, _). set qs \<inter> set (tokenize u (r_content d)) \<noteq> {}) (zip indexed (bm25_scores corpus qs))
      in if k = 0 \<or> docs = [] \<or> qs = [] \<or> corpus = [] then []
         else map with_bm25 (take k (sort_key (\<lambda>(d, s). (- s, r_doc d, r_chunk d)) ranked)))"

subsection \<open>Reciprocal-rank fusion\<close>

text \<open>\<open>dict.setdefault\<close>.\<close>

definition set_default :: "'k \<Rightarrow> 'v \<Rightarrow> ('k \<times> 'v) list \<Rightarrow> ('k \<times> 'v) list" where
  "set_default k v al = (if map_of al k = None then al @ [(k, v)] else al)"

record fusion =
  f_records :: "(rkey \<times> result) list"
  f_scores :: "(rkey \<times> rat) list"
  f_vranks :: "(rkey \<times> nat) list"
  f_lranks :: "(rkey \<times> nat) list"

definition score_in :: "(rkey \<times> rat) list \<Rightarrow> rkey \<Rightarrow> rat" where
  "score_in al k = (case map_of al k of None \<Rightarrow> 0 | Some x \<Rightarrow> x)"

definition fuse_vector :: "unicode \<Rightarrow> hybrid_config \<Rightarrow> nat \<times> result \<Rightarrow> fusion \<Rightarrow> fusion" where
  "fuse_vector u c = (\<lambda>(rank, r) f. let k = result_key u r in
     f\<lparr>f_records := set_default k r (f_records f), f_vranks := set_default k rank (f_vranks f),
       f_scores := AList.update k (score_in (f_scores f) k + vector_weight c / (of_int (rrf_k c) + of_nat rank)) (f_scores f)\<rparr>)"

definition fuse_lexical :: "unicode \<Rightarrow> hybrid_config \<Rightarrow> rat \<Rightarrow> nat \<times> result \<Rightarrow> fusion \<Rightarrow> fusion" where
  "fuse_lexical u c lw = (\<lambda>(rank, r) f. let k = result_key u r in
     f\<lparr>f_records := set_default k r (f_records f), f_lranks := set_default k rank (f_lranks f),
       f_scores := AList.update k (score_in (f_scores f) k + lw / (of_int (rrf_k c) + of_nat rank)) (f_scores f)\<rparr>)"

definition fuse_all :: "unicode \<Rightarrow> hybrid_config \<Rightarrow> rat \<Rightarrow> result list \<Rightarrow> result list \<Rightarrow> fusion" where
  "fuse_all u c lw vs ls =
     fold (fuse_lexical u c lw) (enumerate 1 ls)
       (fold (fuse_vector u c) (enumerate 1 vs) \<lparr>f_records = [], f_scores = [], f_vranks = [], f_lranks = []\<rparr>)"

definition rank_json :: "nat option \<Rightarrow> json" where
  "rank_json r = (case r of None \<Rightarrow> JNull | Some n \<Rightarrow> JInt (int n))"

definition fused_metadata :: "fusion \<Rightarrow> rat \<Rightarrow> json \<Rightarrow> rkey \<Rightarrow> obj \<Rightarrow> obj" where
  "fused_metadata f lw bm key m =
     fold (\<lambda>(k, v). AList.update k v)
       [(''retrieval_strategy'', JStr ''hybrid_rrf''), (''score_semantics'', JStr ''relevance''),
        (''rrf_score'', JFloat (Fin (score_in (f_scores f) key))),
        (''vector_rank'', rank_json (map_of (f_vranks f) key)), (''bm25_rank'', rank_json (map_of (f_lranks f) key)),
        (''bm25_score'', bm), (''lexical_weight'', JFloat (Fin lw))] m"

definition order_key :: "fusion \<Rightarrow> rkey \<Rightarrow> rat \<times> nat \<times> nat \<times> rkey" where
  "order_key f k =
     (let missing = length (f_records f) + 1; rank = (\<lambda>al. case map_of al k of None \<Rightarrow> missing | Some r \<Rightarrow> r)
      in (- score_in (f_scores f) k, rank (f_vranks f), rank (f_lranks f), k))"

definition reciprocal_rank_fusion :: "unicode \<Rightarrow> hybrid_config \<Rightarrow> rat \<Rightarrow> nat \<Rightarrow> result list \<Rightarrow> result list \<Rightarrow> result list" where
  "reciprocal_rank_fusion u c lw k vs ls =
     (let f = fuse_all u c lw vs ls;
          ordered = sort_key (order_key f) (map fst (f_records f));
          maximum = (vector_weight c + lw) / (of_int (rrf_k c) + 1);
          bm = (\<lambda>key. case find (\<lambda>r. result_key u r = key) (rev ls) of
                  Some r \<Rightarrow> meta_get r ''bm25_score'' | None \<Rightarrow> JNull)
      in map (\<lambda>key. let r = the (map_of (f_records f) key)
                    in r\<lparr>r_score := py_round 6 (score_in (f_scores f) key / maximum),
                         r_meta := fused_metadata f lw (bm key) key (r_meta r)\<rparr>)
           (take k ordered))"

subsection \<open>The retriever\<close>

record 'e store =
  similarity_search :: "'e \<Rightarrow> nat \<Rightarrow> int \<Rightarrow> result list"
  lexical_corpus :: "(int \<Rightarrow> exn + result list) option"

record 'e deps =
  embed :: "utext \<Rightarrow> 'e"
  enrich :: "utext \<Rightarrow> string option \<Rightarrow> utext"
  bm25_scores :: "utext list list \<Rightarrow> utext list \<Rightarrow> rat list"

definition tenant_scopes :: "retrieval_context \<Rightarrow> int list" where
  "tenant_scopes ctx = tenant ctx # (if include_public ctx \<and> tenant ctx \<noteq> 0 then [0] else [])"

definition scoped :: "retrieval_context \<Rightarrow> int \<Rightarrow> result list \<Rightarrow> result list" where
  "scoped ctx t rs = apply_filters (document_filter (document_ids ctx)) (ctx_company ctx) (filters ctx) (apply_tenant_scope t rs)"

fun load_scopes :: "(int \<Rightarrow> exn + result list) \<Rightarrow> retrieval_context \<Rightarrow> int list \<Rightarrow> exn + result list" where
  "load_scopes loader ctx [] = Inr []"
| "load_scopes loader ctx (t # ts) = (case loader t of
      Inl e \<Rightarrow> Inl e
    | Inr docs \<Rightarrow> (case load_scopes loader ctx ts of
          Inl e \<Rightarrow> Inl e
        | Inr rest \<Rightarrow> Inr (scoped ctx t docs @ rest)))"

text \<open>\<open>None\<close> when the store has no corpus or loading it raises.\<close>

definition load_lexical_corpus :: "unicode \<Rightarrow> 'e store \<Rightarrow> retrieval_context \<Rightarrow> result list option" where
  "load_lexical_corpus u st ctx = (case lexical_corpus st of
      None \<Rightarrow> None
    | Some loader \<Rightarrow> (case load_scopes loader ctx (tenant_scopes ctx) of
          Inl _ \<Rightarrow> None
        | Inr docs \<Rightarrow> Some (deduplicate u (sort_key (\<lambda>r. (r_doc r, r_chunk r)) docs))))"

definition vector_candidates :: "unicode \<Rightarrow> 'e deps \<Rightarrow> 'e store \<Rightarrow> retrieval_context \<Rightarrow> utext \<Rightarrow> nat \<Rightarrow> result list" where
  "vector_candidates u dep st ctx q k =
     take k (deduplicate u (globally_rank_vector_results
       (concat (map (\<lambda>t. scoped ctx t (similarity_search st (embed dep q) k t)) (tenant_scopes ctx)))))"

definition retrieve :: "unicode \<Rightarrow> hybrid_config \<Rightarrow> 'e deps \<Rightarrow> 'e store \<Rightarrow> retrieval_context \<Rightarrow> result list" where
  "retrieve u c dep st ctx =
     (if top_k ctx \<le> 0 then []
      else
        let q = enrich dep (question ctx) (ctx_company ctx);
            k = nat (top_k ctx);
            cand = nat (top_k ctx * candidate_multiplier c);
            vs = vector_candidates u dep st ctx q cand
        in if \<not> enabled_hybrid c \<or> lexical_weight c = 0 then take k vs
           else case load_lexical_corpus u st ctx of
             None \<Rightarrow> take k vs
           | Some [] \<Rightarrow> take k vs
           | Some docs \<Rightarrow>
               (let ls = bm25_search u (bm25_scores dep) q docs cand in
                if ls = [] then take k vs
                else reciprocal_rank_fusion u c
                       (if q \<noteq> question ctx then lexical_weight c * 2 else lexical_weight c) k vs ls))"

subsection \<open>What a caller may see\<close>

text \<open>
  The tenant of a result is one of the scopes of the request (or none is recorded), and
  its document, its company and its metadata are those asked for. The names that ranking
  itself writes into the metadata are the exception to the last of these.
\<close>

definition ranking_fields :: "string list" where
  "ranking_fields = [''bm25_score'', ''score_semantics'', ''retrieval_strategy'', ''rrf_score'', ''vector_rank'',
     ''bm25_rank'', ''lexical_weight'']"

definition visible :: "retrieval_context \<Rightarrow> result \<Rightarrow> bool" where
  "visible ctx r \<longleftrightarrow>
     (\<exists>t \<in> set (tenant_scopes ctx). in_scope t r) \<and>
     (document_filter (document_ids ctx) = [] \<or> r_doc r \<in> set (document_filter (document_ids ctx))) \<and>
     (case ctx_company ctx of None \<Rightarrow> True | Some c \<Rightarrow> c = [] \<or> py_eq (meta_get r ''company'') (JStr c)) \<and>
     (\<forall>(k, v) \<in> set (filters ctx). k \<in> set ranking_fields \<or> py_eq (meta_get r k) v)"

lemma distinct_map_sort_key: "distinct (map g (sort_key k xs)) = distinct (map g xs)"
  by (metis mset_map mset_sort mset_eq_imp_distinct_iff)

lemma get_or_update: "get_or (AList.update k v m) j d = (if j = k then v else get_or m j d)"
  by (simp add: get_or_def update_conv')

lemma visible_cong:
  assumes "r_doc r = r_doc r'" and "\<And>k. k \<notin> set ranking_fields \<Longrightarrow> meta_get r k = meta_get r' k"
  shows "visible ctx r = visible ctx r'"
proof -
  have "meta_get r ''tenant_id'' = meta_get r' ''tenant_id''" "meta_get r ''company'' = meta_get r' ''company''"
    by (rule assms(2), simp add: ranking_fields_def)+
  moreover have "k \<in> set ranking_fields \<or> py_eq (meta_get r k) v \<longleftrightarrow> k \<in> set ranking_fields \<or> py_eq (meta_get r' k) v"
    for k v using assms(2) by metis
  ultimately show ?thesis
    using assms(1) by (cases "ctx_company ctx") (simp_all add: visible_def in_scope_def)
qed

lemma with_bm25_fields [simp]:
  "r_doc (with_bm25 p) = r_doc (fst p)" "r_content (with_bm25 p) = r_content (fst p)"
  "r_chunk (with_bm25 p) = r_chunk (fst p)"
  by (simp_all add: with_bm25_def split_def)

lemma with_bm25_key [simp]: "result_key u (with_bm25 p) = result_key u (fst p)"
  by (simp add: result_key_def Let_def)

lemma with_bm25_visible [simp]: "visible ctx (with_bm25 p) = visible ctx (fst p)"
  by (rule visible_cong) (auto simp: with_bm25_def split_def meta_get_def get_or_update ranking_fields_def)

lemma fused_metadata_frame: "k \<notin> set ranking_fields \<Longrightarrow> get_or (fused_metadata f lw bm key m) k d = get_or m k d"
  by (simp add: fused_metadata_def get_or_update ranking_fields_def)

lemma scoped_visible: "t \<in> set (tenant_scopes ctx) \<Longrightarrow> r \<in> set (scoped ctx t rs) \<Longrightarrow> visible ctx r"
  by (auto simp: scoped_def apply_filters_def apply_tenant_scope_def passes_filters_def visible_def)

lemma set_globally_rank [simp]: "set (globally_rank_vector_results rs) = set rs"
  by (simp add: globally_rank_vector_results_def)

lemma vector_candidates_visible:
  assumes "r \<in> set (vector_candidates u dep st ctx q k)"
  shows "visible ctx r"
proof -
  have "r \<in> set (concat (map (\<lambda>t. scoped ctx t (similarity_search st (embed dep q) k t)) (tenant_scopes ctx)))"
    using assms retrieval_dedup.dedup_set unfolding vector_candidates_def
    by (metis (no_types, lifting) in_set_takeD set_globally_rank subsetD)
  then show ?thesis using scoped_visible by auto
qed

lemma load_scopes_visible:
  "load_scopes loader ctx ts = Inr docs \<Longrightarrow> set ts \<subseteq> set (tenant_scopes ctx) \<Longrightarrow> r \<in> set docs \<Longrightarrow> visible ctx r"
  by (induction ts arbitrary: docs) (auto split: sum.splits dest: scoped_visible)

lemma load_lexical_corpus_facts:
  assumes "load_lexical_corpus u st ctx = Some docs"
  shows "distinct (map (result_key u) docs)" "r \<in> set docs \<Longrightarrow> visible ctx r"
proof -
  obtain loader ds where l: "load_scopes loader ctx (tenant_scopes ctx) = Inr ds"
    and docs: "docs = deduplicate u (sort_key (\<lambda>r. (r_doc r, r_chunk r)) ds)"
    using assms by (auto simp: load_lexical_corpus_def split: option.splits sum.splits)
  show "distinct (map (result_key u) docs)" unfolding docs by (rule retrieval_dedup.dedup_distinct)
  show "visible ctx r" if "r \<in> set docs"
  proof -
    have "r \<in> set ds" using that retrieval_dedup.dedup_set unfolding docs by (metis set_sort subsetD)
    then show ?thesis using load_scopes_visible [OF l] by blast
  qed
qed

lemma bm25_search_eq:
  "bm25_search u sc q docs k = [] \<or>
   (\<exists>ps. bm25_search u sc q docs k = map with_bm25 (take k (sort_key (\<lambda>(d, s). (- s, r_doc d, r_chunk d)) ps)) \<and>
      subseq (map fst ps) docs)"
proof -
  let ?indexed = "filter (\<lambda>d. tokenize u (r_content d) \<noteq> []) docs"
  let ?scores = "sc (map (\<lambda>d. tokenize u (r_content d)) ?indexed) (tokenize u q)"
  let ?P = "\<lambda>(d, _). set (tokenize u q) \<inter> set (tokenize u (r_content d)) \<noteq> {}"
  have "subseq (filter ?P (zip ?indexed ?scores)) (zip ?indexed ?scores)" by (rule subseq_filter_left)
  then have "subseq (map fst (filter ?P (zip ?indexed ?scores))) (map fst (zip ?indexed ?scores))" by (rule subseq_map)
  moreover have "prefix (map fst (zip ?indexed ?scores)) ?indexed"
    by (simp add: map_fst_zip_take take_is_prefix)
  ultimately have "subseq (map fst (filter ?P (zip ?indexed ?scores))) docs"
    using prefix_imp_subseq subseq_filter_left subseq_order.trans by (metis (no_types, lifting))
  then show ?thesis unfolding bm25_search_def Let_def by auto
qed

lemma bm25_search_facts:
  assumes "distinct (map (result_key u) docs)"
  shows "distinct (map (result_key u) (bm25_search u sc q docs k))"
    and "(\<And>r. r \<in> set docs \<Longrightarrow> visible ctx r) \<Longrightarrow> r \<in> set (bm25_search u sc q docs k) \<Longrightarrow> visible ctx r"
proof -
  consider "bm25_search u sc q docs k = []"
    | ps where "bm25_search u sc q docs k = map with_bm25 (take k (sort_key (\<lambda>(d, s). (- s, r_doc d, r_chunk d)) ps))"
      "subseq (map fst ps) docs"
    using bm25_search_eq by blast
  note cases = this
  show "distinct (map (result_key u) (bm25_search u sc q docs k))"
  proof (cases rule: cases)
    case (2 ps)
    have "distinct (map (result_key u) (map fst ps))"
      using subseq_map [OF 2(2), of "result_key u"] assms by (rule distinct_subseq)
    then have "distinct (map (result_key u \<circ> fst) (sort_key (\<lambda>(d, s). (- s, r_doc d, r_chunk d)) ps))"
      by (simp add: distinct_map_sort_key)
    then show ?thesis unfolding 2(1) by (simp add: comp_def take_map [symmetric] distinct_take)
  qed simp
  assume vis: "\<And>r. r \<in> set docs \<Longrightarrow> visible ctx r" and r: "r \<in> set (bm25_search u sc q docs k)"
  show "visible ctx r"
  proof (cases rule: cases)
    case (2 ps)
    then obtain p where p: "p \<in> set ps" "r = with_bm25 p" using r by (auto dest: in_set_takeD)
    moreover have "fst p \<in> set docs" using subseq_set_subset [OF 2(2)] p by auto
    ultimately show ?thesis using vis by simp
  qed (use r in simp)
qed

subsection \<open>Fusion is reciprocal-rank fusion\<close>

text \<open>The share of one ranking in the score of a key: \<open>w / (K + rank)\<close> at every rank that holds it.\<close>

definition rrf_term :: "unicode \<Rightarrow> rat \<Rightarrow> int \<Rightarrow> nat \<Rightarrow> result list \<Rightarrow> rkey \<Rightarrow> rat" where
  "rrf_term u w K n rs k =
     (\<Sum>(i, r) \<leftarrow> enumerate n rs. if result_key u r = k then w / (of_int K + of_nat i) else 0)"

definition rrf_score_of :: "unicode \<Rightarrow> hybrid_config \<Rightarrow> rat \<Rightarrow> result list \<Rightarrow> result list \<Rightarrow> rkey \<Rightarrow> rat" where
  "rrf_score_of u c lw vs ls k = rrf_term u (vector_weight c) (rrf_k c) 1 vs k + rrf_term u lw (rrf_k c) 1 ls k"

lemma dedup_seen_cong: "set s = set s' \<Longrightarrow> dedup_seen key s xs = dedup_seen key s' xs"
proof (induction xs arbitrary: s s')
  case (Cons x xs)
  show ?case using Cons.prems Cons.IH [of s s'] Cons.IH [of "key x # s" "key x # s'"] by simp
qed simp

lemma fold_set_default:
  "fold (\<lambda>r. set_default (key r) r) rs al = al @ map (\<lambda>r. (key r, r)) (dedup_seen key (map fst al) rs)"
proof (induction rs arbitrary: al)
  case (Cons r rs)
  have "map_of al (key r) = None \<longleftrightarrow> key r \<notin> set (map fst al)" by (simp add: map_of_eq_None_iff)
  moreover have "dedup_seen key (map fst (al @ [(key r, r)])) rs = dedup_seen key (key r # map fst al) rs"
    by (rule dedup_seen_cong) simp
  ultimately show ?case using Cons.IH [of al] Cons.IH [of "al @ [(key r, r)]"] by (simp add: set_default_def)
qed simp

lemma fuse_vector_records:
  "f_records (fold (fuse_vector u c) (enumerate n rs) f) = fold (\<lambda>r. set_default (result_key u r) r) rs (f_records f)"
  by (induction rs arbitrary: n f) (simp_all add: fuse_vector_def Let_def)

lemma fuse_lexical_records:
  "f_records (fold (fuse_lexical u c lw) (enumerate n rs) f) = fold (\<lambda>r. set_default (result_key u r) r) rs (f_records f)"
  by (induction rs arbitrary: n f) (simp_all add: fuse_lexical_def Let_def)

lemma fuse_all_records:
  "f_records (fuse_all u c lw vs ls) = map (\<lambda>r. (result_key u r, r)) (deduplicate u (vs @ ls))"
proof -
  have "f_records (fuse_all u c lw vs ls) = fold (\<lambda>r. set_default (result_key u r) r) (vs @ ls) []"
    by (simp add: fuse_all_def fuse_vector_records fuse_lexical_records)
  then show ?thesis by (simp only: fold_set_default deduplicate_def) simp
qed

lemma score_in_update: "score_in (AList.update k x al) j = (if j = k then x else score_in al j)"
  by (simp add: score_in_def update_conv')

lemma rrf_term_Nil [simp]: "rrf_term u w K n [] k = 0"
  by (simp add: rrf_term_def)

lemma rrf_term_Cons [simp]:
  "rrf_term u w K n (r # rs) k =
     (if result_key u r = k then w / (of_int K + of_nat n) else 0) + rrf_term u w K (Suc n) rs k"
  by (simp add: rrf_term_def)

lemma fuse_vector_scores:
  "score_in (f_scores (fold (fuse_vector u c) (enumerate n rs) f)) k =
     score_in (f_scores f) k + rrf_term u (vector_weight c) (rrf_k c) n rs k"
  by (induction rs arbitrary: n f) (simp_all add: fuse_vector_def Let_def score_in_update)

lemma fuse_lexical_scores:
  "score_in (f_scores (fold (fuse_lexical u c lw) (enumerate n rs) f)) k =
     score_in (f_scores f) k + rrf_term u lw (rrf_k c) n rs k"
  by (induction rs arbitrary: n f) (simp_all add: fuse_lexical_def Let_def score_in_update)

lemma fuse_all_scores: "score_in (f_scores (fuse_all u c lw vs ls)) k = rrf_score_of u c lw vs ls k"
  by (simp add: fuse_all_def fuse_lexical_scores fuse_vector_scores rrf_score_of_def) (simp add: score_in_def)

lemma rrf_term_nonneg: "0 \<le> w \<Longrightarrow> 1 \<le> K \<Longrightarrow> 0 \<le> rrf_term u w K n rs k"
  by (induction rs arbitrary: n) simp_all

lemma rrf_term_absent: "k \<notin> result_key u ` set rs \<Longrightarrow> rrf_term u w K n rs k = 0"
  by (induction rs arbitrary: n) auto

lemma rrf_term_le:
  "0 \<le> w \<Longrightarrow> 1 \<le> K \<Longrightarrow> distinct (map (result_key u) rs) \<Longrightarrow> rrf_term u w K n rs k \<le> w / (of_int K + of_nat n)"
proof (induction rs arbitrary: n)
  case (Cons r rs)
  show ?case
  proof (cases "result_key u r = k")
    case True
    then have "k \<notin> result_key u ` set rs" using Cons.prems by auto
    then show ?thesis using True by (simp add: rrf_term_absent)
  next
    case False
    have "rrf_term u w K (Suc n) rs k \<le> w / (of_int K + of_nat (Suc n))"
      using Cons.IH [of "Suc n"] Cons.prems by simp
    also have "\<dots> \<le> w / (of_int K + of_nat n)" using Cons.prems by (intro divide_left_mono) simp_all
    finally show ?thesis using False by simp
  qed
qed simp

lemma rrf_score_bounds:
  assumes "0 \<le> vector_weight c" "0 \<le> lw" "1 \<le> rrf_k c"
    and "distinct (map (result_key u) vs)" "distinct (map (result_key u) ls)"
  shows "0 \<le> rrf_score_of u c lw vs ls k" "rrf_score_of u c lw vs ls k \<le> (vector_weight c + lw) / (of_int (rrf_k c) + 1)"
  using rrf_term_nonneg [OF assms(1,3)] rrf_term_nonneg [OF assms(2,3)]
    rrf_term_le [OF assms(1,3,4), of 1 k] rrf_term_le [OF assms(2,3,5), of 1 k]
  by (simp_all add: rrf_score_of_def add_divide_distrib add_mono)

lemma ratio_bounds:
  fixes a m :: rat
  assumes "0 \<le> a" "a \<le> m"
  shows "0 \<le> a / m" "a / m \<le> 1"
  using assms by (auto simp: divide_le_eq_1)

lemma record_of_key:
  assumes "k \<in> set (map fst (f_records (fuse_all u c lw vs ls)))"
  obtains r where "map_of (f_records (fuse_all u c lw vs ls)) k = Some r" "result_key u r = k" "r \<in> set vs \<union> set ls"
proof -
  let ?ds = "deduplicate u (vs @ ls)"
  obtain r where r: "r \<in> set ?ds" "result_key u r = k" using assms by (auto simp: fuse_all_records)
  have "distinct (map fst (map (\<lambda>r. (result_key u r, r)) ?ds))"
    using retrieval_dedup.dedup_distinct [of u "vs @ ls"] by (simp add: comp_def)
  then have "map_of (f_records (fuse_all u c lw vs ls)) k = Some r"
    unfolding fuse_all_records by (rule map_of_is_SomeI) (use r in auto)
  moreover have "r \<in> set vs \<union> set ls" using r(1) retrieval_dedup.dedup_set [of u "vs @ ls"] by auto
  ultimately show ?thesis using r(2) that by blast
qed

text \<open>The keys that fusion returns, best first, and the result it builds for one.\<close>

definition fused_keys :: "unicode \<Rightarrow> hybrid_config \<Rightarrow> rat \<Rightarrow> result list \<Rightarrow> result list \<Rightarrow> rkey list" where
  "fused_keys u c lw vs ls =
     sort_key (order_key (fuse_all u c lw vs ls)) (map fst (f_records (fuse_all u c lw vs ls)))"

lemma fused_keys_facts:
  "distinct (fused_keys u c lw vs ls)"
  "set (fused_keys u c lw vs ls) = result_key u ` (set vs \<union> set ls)"
  "sorted_wrt (\<lambda>a b. rrf_score_of u c lw vs ls b \<le> rrf_score_of u c lw vs ls a) (fused_keys u c lw vs ls)"
proof -
  let ?f = "fuse_all u c lw vs ls"
  show "distinct (fused_keys u c lw vs ls)"
    using retrieval_dedup.dedup_distinct [of u "vs @ ls"] by (simp add: fused_keys_def fuse_all_records comp_def)
  show "set (fused_keys u c lw vs ls) = result_key u ` (set vs \<union> set ls)"
    using retrieval_dedup.dedup_keys [of u "vs @ ls"] by (simp add: fused_keys_def fuse_all_records image_comp comp_def)
  have "sorted (map (order_key ?f) (fused_keys u c lw vs ls))" by (simp add: fused_keys_def)
  then have "sorted_wrt (\<lambda>a b. order_key ?f a \<le> order_key ?f b) (fused_keys u c lw vs ls)" by (simp add: sorted_map)
  then show "sorted_wrt (\<lambda>a b. rrf_score_of u c lw vs ls b \<le> rrf_score_of u c lw vs ls a) (fused_keys u c lw vs ls)"
    by (rule sorted_wrt_mono_rel [rotated])
      (auto simp: order_key_def Let_def fuse_all_scores less_eq_prod_def)
qed

definition fused_result :: "unicode \<Rightarrow> hybrid_config \<Rightarrow> rat \<Rightarrow> result list \<Rightarrow> result list \<Rightarrow> rkey \<Rightarrow> result" where
  "fused_result u c lw vs ls key =
     (let f = fuse_all u c lw vs ls; r = the (map_of (f_records f) key)
      in r\<lparr>r_score := py_round 6 (score_in (f_scores f) key / ((vector_weight c + lw) / (of_int (rrf_k c) + 1))),
           r_meta := fused_metadata f lw (case find (\<lambda>r. result_key u r = key) (rev ls) of
             Some r \<Rightarrow> meta_get r ''bm25_score'' | None \<Rightarrow> JNull) key (r_meta r)\<rparr>)"

lemma fusion_eq:
  "reciprocal_rank_fusion u c lw k vs ls = map (fused_result u c lw vs ls) (take k (fused_keys u c lw vs ls))"
  by (simp add: reciprocal_rank_fusion_def fused_result_def fused_keys_def Let_def)

lemma fused_result_facts:
  assumes "key \<in> set (fused_keys u c lw vs ls)"
  shows "result_key u (fused_result u c lw vs ls key) = key"
    and "r_score (fused_result u c lw vs ls key) =
       py_round 6 (rrf_score_of u c lw vs ls key / ((vector_weight c + lw) / (of_int (rrf_k c) + 1)))"
    and "(\<And>r. r \<in> set vs \<union> set ls \<Longrightarrow> visible ctx r) \<Longrightarrow> visible ctx (fused_result u c lw vs ls key)"
proof -
  obtain r where r: "map_of (f_records (fuse_all u c lw vs ls)) key = Some r" "result_key u r = key"
      "r \<in> set vs \<union> set ls"
    using assms record_of_key [of key u c lw vs ls] by (auto simp: fused_keys_def)
  show "result_key u (fused_result u c lw vs ls key) = key"
    using r(2) by (auto simp: fused_result_def r(1) result_key_def Let_def)
  show "r_score (fused_result u c lw vs ls key) =
       py_round 6 (rrf_score_of u c lw vs ls key / ((vector_weight c + lw) / (of_int (rrf_k c) + 1)))"
    by (simp add: fused_result_def Let_def fuse_all_scores)
  assume "\<And>r. r \<in> set vs \<union> set ls \<Longrightarrow> visible ctx r"
  moreover have "visible ctx (fused_result u c lw vs ls key) = visible ctx r"
    by (rule visible_cong) (simp_all add: fused_result_def r(1) Let_def meta_get_def fused_metadata_frame)
  ultimately show "visible ctx (fused_result u c lw vs ls key)" using r(3) by blast
qed

lemma fused_keys_of_results:
  "map (result_key u) (reciprocal_rank_fusion u c lw k vs ls) = take k (fused_keys u c lw vs ls)"
  by (auto simp: fusion_eq fused_result_facts(1) dest!: in_set_takeD intro!: map_idI)

lemma sorted_wrt_take_drop:
  "sorted_wrt P xs \<Longrightarrow> x \<in> set (take k xs) \<Longrightarrow> y \<in> set xs \<Longrightarrow> y \<notin> set (take k xs) \<Longrightarrow> P x y"
  using sorted_wrt_append [of P "take k xs" "drop k xs"] by (metis Un_iff append_take_drop_id set_append)

lemma make_config_facts:
  "make_config en vw lw k m = Inr c \<Longrightarrow> 0 \<le> vector_weight c \<and> 0 \<le> lexical_weight c \<and> 1 \<le> rrf_k c \<and>
     1 \<le> candidate_multiplier c \<and> 0 < vector_weight c + lexical_weight c"
  by (auto simp: make_config_def split: if_splits)

lemma vector_candidates_distinct: "distinct (map (result_key u) (vector_candidates u dep st ctx q k))"
  using retrieval_dedup.dedup_distinct unfolding vector_candidates_def by (metis distinct_take take_map)

lemma retrieve_forms:
  fixes dep :: "'e deps" and st :: "'e store" and ctx :: retrieval_context and c :: hybrid_config
  assumes "0 < top_k ctx"
  defines "q \<equiv> enrich dep (question ctx) (ctx_company ctx)"
    and "cand \<equiv> nat (top_k ctx * candidate_multiplier c)"
  shows "retrieve u c dep st ctx = take (nat (top_k ctx)) (vector_candidates u dep st ctx q cand) \<or>
    (\<exists>docs lw. load_lexical_corpus u st ctx = Some docs \<and>
       retrieve u c dep st ctx = reciprocal_rank_fusion u c lw (nat (top_k ctx))
         (vector_candidates u dep st ctx q cand) (bm25_search u (bm25_scores dep) q docs cand))"
proof (cases "load_lexical_corpus u st ctx")
  case (Some docs)
  show ?thesis using assms(1) Some by (cases docs) (auto simp: retrieve_def Let_def q_def cand_def)
qed (use assms in \<open>simp add: retrieve_def Let_def\<close>)

lemma retrieve_cases:
  obtains "retrieve u c dep st ctx = []"
  | q cand where "retrieve u c dep st ctx = take (nat (top_k ctx)) (vector_candidates u dep st ctx q cand)"
  | q cand docs lw where "load_lexical_corpus u st ctx = Some docs"
      "retrieve u c dep st ctx = reciprocal_rank_fusion u c lw (nat (top_k ctx))
         (vector_candidates u dep st ctx q cand) (bm25_search u (bm25_scores dep) q docs cand)"
proof (cases "top_k ctx \<le> 0")
  case True
  then show ?thesis using that(1) by (simp add: retrieve_def)
next
  case False
  then show ?thesis using retrieve_forms [of ctx u c dep st] that(2,3) by fastforce
qed

text \<open>
  C29. Reciprocal-rank fusion of two duplicate-free rankings under a valid configuration:
  every result carries the sum of \<open>weight / (rrf_k + rank)\<close> over the rankings that hold
  it, scaled to the best possible sum and rounded, which is a number between 0 and 1. The
  results are in descending order of that sum, hold no key twice, and are the best:
  everything left out has a sum no larger than everything returned. There are \<open>top_k\<close>
  of them, or as many as the rankings hold.
\<close>

theorem fusion_ranks_by_rrf:
  assumes "make_config en vw lw0 kk m = Inr c" and "lw = lexical_weight c \<or> lw = lexical_weight c * 2"
    and "distinct (map (result_key u) vs)" and "distinct (map (result_key u) ls)"
  shows "let rs = reciprocal_rank_fusion u c lw k vs ls; key = result_key u; rrf = rrf_score_of u c lw vs ls in
     length rs = min k (card (key ` (set vs \<union> set ls))) \<and>
     distinct (map key rs) \<and>
     (\<forall>r \<in> set rs. r_score r = py_round 6 (rrf (key r) / ((vector_weight c + lw) / (of_int (rrf_k c) + 1))) \<and>
        0 \<le> r_score r \<and> r_score r \<le> 1) \<and>
     sorted_wrt (\<lambda>a b. rrf (key b) \<le> rrf (key a)) rs \<and>
     (\<forall>r \<in> set rs. \<forall>x \<in> set vs \<union> set ls. key x \<notin> key ` set rs \<longrightarrow> rrf (key x) \<le> rrf (key r))"
proof -
  let ?rs = "reciprocal_rank_fusion u c lw k vs ls" and ?ks = "fused_keys u c lw vs ls" and ?rrf = "rrf_score_of u c lw vs ls"
  let ?max = "(vector_weight c + lw) / (of_int (rrf_k c) + 1)"
  have w: "0 \<le> vector_weight c" "0 \<le> lw" "1 \<le> rrf_k c" using make_config_facts [OF assms(1)] assms(2) by auto
  have keys: "result_key u ` set ?rs = set (take k ?ks)" using fused_keys_of_results by (metis set_map)
  have "length ?rs = min k (card (result_key u ` (set vs \<union> set ls)))"
    using fused_keys_facts(1,2) [of u c lw vs ls] distinct_card [of ?ks] by (simp add: fusion_eq min.commute)
  moreover have "distinct (map (result_key u) ?rs)" unfolding fused_keys_of_results by (simp add: fused_keys_facts)
  moreover have "r_score r = py_round 6 (?rrf (result_key u r) / ?max) \<and> 0 \<le> r_score r \<and> r_score r \<le> 1"
    if "r \<in> set ?rs" for r
  proof -
    have "r \<in> fused_result u c lw vs ls ` set (take k ?ks)" using that by (simp only: fusion_eq set_map)
    then obtain key where k: "key \<in> set ?ks" "r = fused_result u c lw vs ls key" by (meson imageE in_set_takeD)
    have "0 \<le> ?rrf key / ?max" "?rrf key / ?max \<le> 1"
      using ratio_bounds rrf_score_bounds [OF w assms(3,4), of key] by blast+
    then show ?thesis using k fused_result_facts(1,2) [OF k(1)] py_round_mono_bounds by simp
  qed
  moreover have "sorted_wrt (\<lambda>a b. ?rrf (result_key u b) \<le> ?rrf (result_key u a)) ?rs"
    using sorted_wrt_take [OF fused_keys_facts(3) [of u c lw vs ls], of k]
    by (simp add: fused_keys_of_results [symmetric] sorted_wrt_map)
  moreover have "?rrf (result_key u x) \<le> ?rrf (result_key u r)"
    if "r \<in> set ?rs" "x \<in> set vs \<union> set ls" "result_key u x \<notin> result_key u ` set ?rs" for r x
    using sorted_wrt_take_drop [OF fused_keys_facts(3), of "result_key u r" k u c lw vs ls "result_key u x"]
      that keys fused_keys_facts(2) [of u c lw vs ls] by (metis imageI)
  ultimately show ?thesis unfolding Let_def by blast
qed

lemma retrieve_visible: "list_all (visible ctx) (retrieve u c dep st ctx)"
proof (cases rule: retrieve_cases [of u c dep st ctx])
  case (2 q cand)
  then show ?thesis by (auto simp: list_all_iff dest!: in_set_takeD vector_candidates_visible)
next
  case (3 q cand docs lw)
  let ?vs = "vector_candidates u dep st ctx q cand" and ?ls = "bm25_search u (bm25_scores dep) q docs cand"
  note docs = load_lexical_corpus_facts [OF 3(1)]
  have "visible ctx r" if "r \<in> set ?vs \<union> set ?ls" for r
    using that vector_candidates_visible bm25_search_facts(2) [OF docs(1) docs(2)] by blast
  then show ?thesis
    using fused_result_facts(3) unfolding 3(2) fusion_eq by (auto simp: list_all_iff dest!: in_set_takeD)
qed simp

lemma retrieve_distinct: "distinct (map (result_key u) (retrieve u c dep st ctx))"
proof (cases rule: retrieve_cases [of u c dep st ctx])
  case (2 q cand)
  then show ?thesis using vector_candidates_distinct by (metis distinct_take take_map)
next
  case (3 q cand docs lw)
  show ?thesis unfolding 3(2) fused_keys_of_results by (simp add: fused_keys_facts)
qed simp

text \<open>
  C7. Isolation of retrieval: whatever the vector store, its corpus, the embedding and the
  BM25 scores return, every result handed to the caller is recorded under the caller's
  tenant or the public one (or under none) and satisfies the document, company and
  metadata filters of the request; no content is returned twice, and there are at most
  \<open>top_k\<close> results.
\<close>

theorem retrieval_isolated:
  shows "length (retrieve u c dep st ctx) \<le> nat (top_k ctx) \<and>
     distinct (map (result_key u) (retrieve u c dep st ctx)) \<and>
     list_all (visible ctx) (retrieve u c dep st ctx)"
proof -
  have "length (retrieve u c dep st ctx) \<le> nat (top_k ctx)"
    by (cases rule: retrieve_cases [of u c dep st ctx]) (simp_all add: fusion_eq)
  then show ?thesis using retrieve_distinct retrieve_visible by blast
qed

definition two_hits :: "result list" where
  "two_hits =
     [\<lparr>r_doc = [1], r_chunk = [1], r_score = 0, r_content = [97], r_meta = []\<rparr>,
      \<lparr>r_doc = [1], r_chunk = [2], r_score = 0, r_content = [98], r_meta = []\<rparr>]"

lemma two_hits_keys: "map (result_key ascii_db) two_hits = [([1], [97]), ([1], [98])]"
  by (simp add: two_hits_def result_key_def normalize_content_def strip_cp_def lstrip_cp_def ascii_db_def)

theorem fusion_ranks_by_rrf_witness:
  "let c = \<lparr>enabled_hybrid = True, vector_weight = 6 / 10, lexical_weight = 4 / 10, rrf_k = 60, candidate_multiplier = 4\<rparr>;
       rs = reciprocal_rank_fusion ascii_db c (8 / 10) 1 two_hits (rev two_hits)
   in length rs = 1 \<and> list_all (\<lambda>r. 0 \<le> r_score r \<and> r_score r \<le> 1) rs"
proof -
  let ?c = "\<lparr>enabled_hybrid = True, vector_weight = 6 / 10, lexical_weight = 4 / 10, rrf_k = 60, candidate_multiplier = 4\<rparr>"
  have "result_key ascii_db ` (set two_hits \<union> set (rev two_hits)) = set (map (result_key ascii_db) two_hits)" by simp
  then have n: "card (result_key ascii_db ` (set two_hits \<union> set (rev two_hits))) = 2" by (simp only: two_hits_keys) simp
  have "make_config True (6 / 10) (4 / 10) 60 4 = Inr ?c" by (simp add: make_config_def)
  moreover have "distinct (map (result_key ascii_db) two_hits)" "distinct (map (result_key ascii_db) (rev two_hits))"
    by (simp_all add: two_hits_keys rev_map [symmetric])
  ultimately show ?thesis
    using fusion_ranks_by_rrf [of True "6 / 10" "4 / 10" 60 4 ?c "8 / 10" ascii_db two_hits "rev two_hits" 1] n
    by (auto simp: Let_def list_all_iff)
qed

end
