(* ===== verification/Retrieval_Contract.thy ===== *)
theory Retrieval_Contract
  imports Json
begin

text \<open>
  \<^verbatim>\<open>agent/tools/retrieval_contract.py\<close> and
  \<^verbatim>\<open>agent/tools/implementations/retrieval_tool.py\<close>: how a tool context becomes a
  retrieval request, how the answer of the trusted adapter becomes evidence, and the tool
  that does both.

  The parameters of a context are a JSON object; the one entry that is not JSON, the
  adapter that the server puts under \<open>retrieval_adapter\<close>, is a field of its own. A JSON
  value under that name is not an instance of \<open>TrustedRetrievalAdapter\<close> and is ignored,
  as in the source. Parameters are a dict by construction of \<open>ToolContext\<close>, and JSON
  values are JSON-compatible, so the two checks for these never fire. The adapter is a
  state transformer on a world \<open>'w\<close>; the time that \<open>perf_counter\<close> measures is an argument.
\<close>

subsection \<open>Requests\<close>

definition MAX_QUERY_LENGTH :: int where "MAX_QUERY_LENGTH = 8000"
definition MAX_TOP_K :: int where "MAX_TOP_K = 20"
definition DEFAULT_TOP_K :: int where "DEFAULT_TOP_K = 5"

record request =
  rq_query :: string
  rq_tenant :: int
  rq_top_k :: int
  rq_company :: "string option"
  rq_document_ids :: "string list"
  rq_filters :: obj
  rq_include_public :: bool

definition contract_error :: "string \<Rightarrow> exn" where
  "contract_error m = Exn ''RetrievalContractError'' m"

fun validate_tenant_id :: "json \<Rightarrow> exn + int" where
  "validate_tenant_id (JInt t) =
     (if t < 0 then Inl (contract_error ''a non-negative tenant_id is required on the trusted tool context'') else Inr t)"
| "validate_tenant_id _ = Inl (contract_error ''a non-negative tenant_id is required on the trusted tool context'')"

fun nonblank :: "json \<Rightarrow> bool" where
  "nonblank (JStr s) = (strip s \<noteq> [])"
| "nonblank _ = False"

fun stripped :: "json \<Rightarrow> string" where
  "stripped (JStr s) = strip s"
| "stripped _ = []"

definition normalise_id_list :: "json list \<Rightarrow> exn + string list" where
  "normalise_id_list vs =
     (if list_all nonblank vs then Inr (map stripped vs)
      else Inl (contract_error ''document_ids must contain non-empty strings''))"

fun normalise_document_ids :: "json \<Rightarrow> exn + string list" where
  "normalise_document_ids JNull = Inr []"
| "normalise_document_ids (JStr s) = normalise_id_list [JStr s]"
| "normalise_document_ids (JArr vs) = normalise_id_list vs"
| "normalise_document_ids _ = Inl (contract_error ''document_ids must be a string or a sequence of strings'')"

fun normalise_filters :: "json \<Rightarrow> exn + obj" where
  "normalise_filters (JObj f) = Inr f"
| "normalise_filters _ = Inl (contract_error ''filters must be a mapping'')"

definition check_query :: "json \<Rightarrow> exn + string" where
  "check_query q =
     (if \<not> nonblank q then Inl (contract_error ''query is required'')
      else if int (length (stripped q)) > MAX_QUERY_LENGTH
      then Inl (contract_error (''query must not exceed '' @ str_int MAX_QUERY_LENGTH @ '' characters''))
      else Inr (stripped q))"

definition check_top_k :: "json \<Rightarrow> exn + int" where
  "check_top_k v = (case v of
      JInt k \<Rightarrow> if 1 \<le> k \<and> k \<le> MAX_TOP_K then Inr k
                else Inl (contract_error (''top_k must be an integer between 1 and '' @ str_int MAX_TOP_K))
    | _ \<Rightarrow> Inl (contract_error (''top_k must be an integer between 1 and '' @ str_int MAX_TOP_K)))"

definition check_company :: "json \<Rightarrow> exn + string option" where
  "check_company v =
     (if v = JNull then Inr None
      else if nonblank v then Inr (Some (stripped v))
      else Inl (contract_error ''company must be a non-empty string when provided''))"

definition check_bool :: "json \<Rightarrow> exn + bool" where
  "check_bool v = (case v of JBool b \<Rightarrow> Inr b | _ \<Rightarrow> Inl (contract_error ''include_public must be a boolean''))"

text \<open>\<open>RetrievalRequest.from_context\<close>, on the parameters and the tenant of the context.\<close>

definition request_from_context :: "obj \<Rightarrow> json \<Rightarrow> exn + request" where
  "request_from_context ps tenant =
     try_then (validate_tenant_id tenant) (\<lambda>t.
       if has_key ps ''tenant_id'' \<and> \<not> py_eq (get_or ps ''tenant_id'' JNull) tenant
       then Inl (contract_error ''tenant_id parameter does not match the trusted context scope'')
       else
         try_then (check_query (get_or ps ''query'' JNull)) (\<lambda>q.
         try_then (check_top_k (get_or ps ''top_k'' (JInt DEFAULT_TOP_K))) (\<lambda>k.
         try_then (check_company (get_or ps ''company'' JNull)) (\<lambda>co.
         try_then (normalise_document_ids (get_or ps ''document_ids'' JNull)) (\<lambda>ids.
         try_then (normalise_filters (get_or ps ''filters'' (JObj []))) (\<lambda>fs.
         try_then (check_bool (get_or ps ''include_public'' (JBool False))) (\<lambda>ip.
           Inr \<lparr>rq_query = q, rq_tenant = t, rq_top_k = k, rq_company = co,
                rq_document_ids = ids, rq_filters = fs, rq_include_public = ip\<rparr>)))))))"

subsection \<open>Evidence\<close>

record evidence =
  ev_content :: string
  ev_source :: string
  ev_score :: "pyfloat option"
  ev_document :: "string option"
  ev_chunk :: "string option"
  ev_page :: json
  ev_company :: "string option"
  ev_metadata :: obj

text \<open>
  What an adapter may hand over: a mapping, an object (the list of its attributes), or a
  \<open>RetrievalEvidence\<close>. An attribute that is missing reads as \<open>None\<close>.
\<close>

datatype evidence_input = EvMapping obj | EvObject obj | EvReady evidence

definition evidence_attributes :: "string list" where
  "evidence_attributes = [''content'', ''source'', ''score'', ''confidence'', ''document_id'', ''chunk_id'', ''page'',
     ''company'', ''metadata'']"

text \<open>\<open>float(score)\<close> of a number; an integer beyond the range of a double raises.\<close>

fun float_of :: "json \<Rightarrow> exn + pyfloat" where
  "float_of (JFloat f) = Inr f"
| "float_of (JInt i) = (if 2 ^ 1024 \<le> \<bar>i\<bar> then Inl (Exn ''OverflowError'' ''int too large to convert to float'')
     else Inr (Fin (of_int i)))"
| "float_of _ = Inl (contract_error ''retrieval evidence score must be numeric when provided'')"

definition evidence_score :: "obj \<Rightarrow> json" where
  "evidence_score data =
     (let s = get_or data ''similarity_score'' JNull;
          s1 = (if s = JNull then get_or data ''score'' JNull else s)
      in if s1 = JNull then get_or data ''confidence'' JNull else s1)"

fun page_ok :: "json \<Rightarrow> bool" where
  "page_ok JNull = True"
| "page_ok (JInt _) = True"
| "page_ok (JStr _) = True"
| "page_ok _ = False"

definition optional_string :: "json \<Rightarrow> string \<Rightarrow> exn + string option" where
  "optional_string v name =
     (if v = JNull then Inr None
      else if nonblank v then Inr (Some (stripped v))
      else Inl (contract_error (name @ '' must be a non-empty string when provided'')))"

fun numeric :: "json \<Rightarrow> bool" where
  "numeric (JInt _) = True"
| "numeric (JFloat _) = True"
| "numeric _ = False"

fun evidence_metadata :: "json \<Rightarrow> exn + obj" where
  "evidence_metadata JNull = Inr []"
| "evidence_metadata (JObj m) = Inr m"
| "evidence_metadata _ = Inl (contract_error ''retrieval evidence metadata must be a mapping'')"

definition evidence_of_data :: "obj \<Rightarrow> exn + evidence" where
  "evidence_of_data data =
     try_then (evidence_metadata (get_or data ''metadata'' (JObj []))) (\<lambda>meta.
       let content = get_or data ''content'' (get_or data ''snippet'' (get_or data ''text'' JNull));
           source = get_or data ''source_filename'' (get_or data ''source'' (get_or meta ''source'' JNull));
           score = evidence_score data;
           page = get_or data ''page'' (get_or meta ''page'' JNull)
       in if \<not> nonblank content then Inl (contract_error ''retrieval evidence requires non-empty content'')
          else if \<not> nonblank source then Inl (contract_error ''retrieval evidence requires a source filename'')
          else if score \<noteq> JNull \<and> \<not> numeric score
          then Inl (contract_error ''retrieval evidence score must be numeric when provided'')
          else if \<not> page_ok page
          then Inl (contract_error ''retrieval evidence page must be an integer or string when provided'')
          else
            try_then (if score = JNull then Inr None else try_then (float_of score) (\<lambda>f. Inr (Some f))) (\<lambda>sc.
            try_then (optional_string (get_or data ''document_id'' (get_or meta ''document_id'' JNull)) ''document_id'') (\<lambda>d.
            try_then (optional_string (get_or data ''chunk_id'' (get_or meta ''chunk_id'' JNull)) ''chunk_id'') (\<lambda>c.
            try_then (optional_string (get_or data ''company'' (get_or meta ''company'' JNull)) ''company'') (\<lambda>co.
              Inr \<lparr>ev_content = stripped content, ev_source = stripped source, ev_score = sc, ev_document = d,
                   ev_chunk = c, ev_page = page, ev_company = co, ev_metadata = meta\<rparr>)))))"

fun evidence_from_value :: "evidence_input \<Rightarrow> exn + evidence" where
  "evidence_from_value (EvReady e) = Inr e"
| "evidence_from_value (EvMapping m) = evidence_of_data m"
| "evidence_from_value (EvObject attrs) = evidence_of_data (map (\<lambda>k. (k, get_or attrs k JNull)) evidence_attributes)"

text \<open>What an adapter returns: something that is not a list of records, or the records.\<close>

datatype adapter_answer = NotRecords | Records "evidence_input list"

fun normalise_evidence :: "adapter_answer \<Rightarrow> exn + evidence list" where
  "normalise_evidence NotRecords = Inl (contract_error ''retrieval adapter must return an iterable of evidence records'')"
| "normalise_evidence (Records vs) = try_map evidence_from_value vs"

fun opt_str :: "string option \<Rightarrow> json" where
  "opt_str None = JNull"
| "opt_str (Some s) = JStr s"

fun opt_float :: "pyfloat option \<Rightarrow> json" where
  "opt_float None = JNull"
| "opt_float (Some f) = JFloat f"

definition as_dict :: "nat \<Rightarrow> evidence \<Rightarrow> json" where
  "as_dict rank e = JObj
     [(''rank'', JInt (int rank)), (''content'', JStr (ev_content e)), (''source_filename'', JStr (ev_source e)),
      (''similarity_score'', opt_float (ev_score e)), (''document_id'', opt_str (ev_document e)),
      (''chunk_id'', opt_str (ev_chunk e)), (''page'', ev_page e), (''company'', opt_str (ev_company e)),
      (''metadata'', JObj (ev_metadata e))]"

definition citation :: "nat \<Rightarrow> evidence \<Rightarrow> json" where
  "citation rank e = JObj
     [(''rank'', JInt (int rank)), (''source_filename'', JStr (ev_source e)), (''document_id'', opt_str (ev_document e)),
      (''chunk_id'', opt_str (ev_chunk e)), (''page'', ev_page e), (''similarity_score'', opt_float (ev_score e))]"

end
