(* ===== verification/Float_Rounding.thy ===== *)
theory Float_Rounding
  imports Json "HOL-Library.Log_Nat"
begin

text \<open>
  Python's numbers with rounding: \<open>decimal.Decimal\<close> in the default context (28 significant
  digits, halves to even) and \<open>float\<close> (doubles: 53 significant bits, smallest unit
  \<open>2 ^ -1074\<close>, halves to even, infinite beyond the largest). Both are rationals here, and the rounding is
  written out. The sign of zero is not modelled; the exponents of a \<open>Decimal\<close> are unbounded,
  as its limit of \<open>10 ^ 999999\<close> is out of reach of the integers that \<open>str\<close> prints.
\<close>

subsection \<open>Significant digits\<close>

text \<open>The number of digits of \<open>x\<close> before the point in base \<open>b\<close>, at most zero below one.\<close>

definition magnitude :: "nat \<Rightarrow> rat \<Rightarrow> int" where
  "magnitude b x =
     (if 1 \<le> \<bar>x\<bar> then int (floorlog b (nat \<lfloor>\<bar>x\<bar>\<rfloor>)) else 1 - int (floorlog b (nat (\<lceil>1 / \<bar>x\<bar>\<rceil> - 1))))"

text \<open>The nearest multiple of a unit, halves to even.\<close>

definition round_to_unit :: "rat \<Rightarrow> rat \<Rightarrow> rat" where
  "round_to_unit u x = py_round 0 (x / u) * u"

definition decimal_unit :: "nat \<Rightarrow> rat \<Rightarrow> rat" where
  "decimal_unit n x = power_int 10 (magnitude 10 x - int n)"

definition decimal_round :: "rat \<Rightarrow> rat" where
  "decimal_round x = (if x = 0 then 0 else round_to_unit (decimal_unit 28 x) x)"

definition double_unit :: "rat \<Rightarrow> rat" where
  "double_unit x = power_int 2 (max (magnitude 2 x - 53) (- 1074))"

definition double_round :: "rat \<Rightarrow> rat" where
  "double_round x = (if x = 0 then 0 else round_to_unit (double_unit x) x)"

definition to_float :: "rat \<Rightarrow> pyfloat" where
  "to_float x =
     (if 2 ^ 1024 \<le> double_round x then PInf else if double_round x \<le> - (2 ^ 1024) then NInf else Fin (double_round x))"

text \<open>
  \<open>Decimal(str(x))\<close> of a float: the decimal with the fewest digits that reads back as \<open>x\<close>,
  and of these the nearest. Seventeen digits are enough for every double.
\<close>

definition reading_back :: "rat \<Rightarrow> nat \<Rightarrow> rat list" where
  "reading_back x n =
     (let u = decimal_unit n x in filter (\<lambda>d. to_float d = Fin x) [of_int \<lfloor>x / u\<rfloor> * u, of_int \<lceil>x / u\<rceil> * u])"

definition repr_decimal :: "rat \<Rightarrow> rat" where
  "repr_decimal x =
     (if x = 0 then 0 else case find (\<lambda>n. reading_back x n \<noteq> []) [1..<18] of
        None \<Rightarrow> x
      | Some n \<Rightarrow> (case reading_back x n of
            [] \<Rightarrow> x
          | [d] \<Rightarrow> d
          | d # d' # _ \<Rightarrow> if \<bar>d - x\<bar> \<le> \<bar>d' - x\<bar> then d else d'))"

subsection \<open>Rounding errors\<close>

lemma magnitude_bounds:
  assumes "x \<noteq> 0" "1 < b"
  shows "power_int (of_nat b) (magnitude b x - 1) \<le> \<bar>x\<bar>" "\<bar>x\<bar> < power_int (of_nat b) (magnitude b x)"
proof -
  have "power_int (of_nat b) (magnitude b x - 1) \<le> \<bar>x\<bar> \<and> \<bar>x\<bar> < power_int (of_nat b) (magnitude b x)"
  proof (cases "1 \<le> \<bar>x\<bar>")
    case True
    define a where "a = nat \<lfloor>\<bar>x\<bar>\<rfloor>"
    have a: "0 < a" "of_nat a \<le> \<bar>x\<bar>" "\<bar>x\<bar> < of_nat (a + 1)"
      using True by (simp_all add: a_def) linarith+
    let ?k = "floorlog b a"
    have k: "b ^ (?k - 1) \<le> a" "a < b ^ ?k" "0 < ?k"
      using floorlog_bounds [OF a(1) assms(2)] a(1) assms(2) by (simp_all add: floorlog_def)
    have "(of_nat b :: rat) ^ (?k - 1) \<le> \<bar>x\<bar>"
      using k(1) a(2) by (metis of_nat_le_iff of_nat_power order_trans)
    moreover have "\<bar>x\<bar> < (of_nat b :: rat) ^ ?k"
      using k(2) a(3) by (metis Suc_eq_plus1 Suc_leI of_nat_le_iff of_nat_power order_less_le_trans)
    moreover have "magnitude b x = int ?k" "magnitude b x - 1 = int (?k - 1)"
      using True k(3) by (simp_all add: magnitude_def a_def of_nat_diff)
    ultimately show ?thesis by (simp only: power_int_of_nat)
  next
    case False
    define m where "m = nat (\<lceil>1 / \<bar>x\<bar>\<rceil> - 1)"
    have pos: "0 < \<bar>x\<bar>" using assms(1) by simp
    have "1 < 1 / \<bar>x\<bar>" using False pos by (simp add: less_divide_eq)
    then have "2 \<le> \<lceil>1 / \<bar>x\<bar>\<rceil>" by linarith
    then have m: "0 < m" "int m = \<lceil>1 / \<bar>x\<bar>\<rceil> - 1" using assms(1) by (simp_all add: m_def)
    let ?k = "floorlog b m"
    have k: "b ^ (?k - 1) \<le> m" "m < b ^ ?k" "0 < ?k"
      using floorlog_bounds [OF m(1) assms(2)] m(1) assms(2) by (simp_all add: floorlog_def)
    have "of_nat m < 1 / \<bar>x\<bar>" "1 / \<bar>x\<bar> \<le> of_nat (m + 1)" using m(2) by linarith+
    then have "(of_nat b :: rat) ^ (?k - 1) < 1 / \<bar>x\<bar>" "1 / \<bar>x\<bar> \<le> (of_nat b :: rat) ^ ?k"
      using k(1,2) by (metis of_nat_le_iff of_nat_power order_le_less_trans)
        (metis Suc_eq_plus1 Suc_leI k(2) \<open>1 / \<bar>x\<bar> \<le> of_nat (m + 1)\<close> of_nat_le_iff of_nat_power order_trans)
    moreover have bpos: "0 < (of_nat b :: rat)" using assms(2) by simp
    ultimately have "\<bar>x\<bar> < 1 / (of_nat b) ^ (?k - 1)" "1 / (of_nat b) ^ ?k \<le> \<bar>x\<bar>"
      using pos assms(1) by (simp_all add: field_simps)
    moreover have "magnitude b x = - int (?k - 1)" "magnitude b x - 1 = - int ?k"
      using False k(3) by (simp_all add: magnitude_def m_def of_nat_diff)
    ultimately show ?thesis by (simp only: power_int_minus power_int_of_nat inverse_eq_divide)
  qed
  then show "power_int (of_nat b) (magnitude b x - 1) \<le> \<bar>x\<bar>" "\<bar>x\<bar> < power_int (of_nat b) (magnitude b x)" by simp_all
qed

lemma round_to_unit_error: "0 < u \<Longrightarrow> \<bar>round_to_unit u x - x\<bar> \<le> u / 2"
proof -
  assume u: "0 < u"
  have "round_to_unit u x - x = (py_round 0 (x / u) - x / u) * u"
    using u by (simp add: round_to_unit_def left_diff_distrib)
  then have "\<bar>round_to_unit u x - x\<bar> = \<bar>py_round 0 (x / u) - x / u\<bar> * u" using u by (simp add: abs_mult)
  also have "\<dots> \<le> 1 / 2 * u" using py_round_error [of 0 "x / u"] u by (intro mult_right_mono) simp_all
  finally show ?thesis by simp
qed

lemma py_round_of_int [simp]: "py_round n (of_int i) = of_int i"
proof -
  have e: "(of_int i :: rat) * 10 ^ n = of_int (i * 10 ^ n)" by simp
  show ?thesis unfolding py_round_def Let_def e by simp
qed

lemma py_round_sign: "0 \<le> x \<Longrightarrow> 0 \<le> py_round n x" "x \<le> 0 \<Longrightarrow> py_round n x \<le> 0"
proof -
  let ?y = "x * 10 ^ n"
  have low: "of_int \<lfloor>?y\<rfloor> / 10 ^ n \<le> py_round n x" by (auto simp: py_round_def Let_def divide_right_mono)
  { assume "0 \<le> x"
    then have "0 \<le> \<lfloor>?y\<rfloor>" by simp
    then have "(0 :: rat) \<le> of_int \<lfloor>?y\<rfloor> / 10 ^ n" by simp
    with low show "0 \<le> py_round n x" by linarith }
  { assume x: "x \<le> 0"
    then have y: "?y \<le> 0" by (simp add: mult_nonpos_nonneg)
    then have f: "\<lfloor>?y\<rfloor> \<le> 0" by (simp add: floor_le_iff)
    have "\<lfloor>?y\<rfloor> + 1 \<le> 0" if "of_int \<lfloor>?y\<rfloor> < ?y"
      using that y by (metis add1_zle_eq of_int_0 of_int_less_iff order_less_le_trans)
    then show "py_round n x \<le> 0"
      using f by (auto simp: py_round_def Let_def divide_nonpos_pos not_less) }
qed

lemma round_to_unit_multiple: "u \<noteq> 0 \<Longrightarrow> round_to_unit u (of_int i * u) = of_int i * u"
  by (simp add: round_to_unit_def)

lemma round_to_unit_sign: "0 < u \<Longrightarrow> 0 \<le> x \<Longrightarrow> 0 \<le> round_to_unit u x" "0 < u \<Longrightarrow> x \<le> 0 \<Longrightarrow> round_to_unit u x \<le> 0"
  by (simp_all add: round_to_unit_def py_round_sign divide_nonpos_pos mult_nonpos_nonneg)

lemma decimal_unit_pos [simp]: "0 < decimal_unit n x" by (simp add: decimal_unit_def)
lemma double_unit_pos [simp]: "0 < double_unit x" by (simp add: double_unit_def)

lemma decimal_round_sign: "0 \<le> x \<Longrightarrow> 0 \<le> decimal_round x" "x \<le> 0 \<Longrightarrow> decimal_round x \<le> 0"
  by (simp_all add: decimal_round_def round_to_unit_sign)

lemma double_round_sign: "0 \<le> x \<Longrightarrow> 0 \<le> double_round x" "x \<le> 0 \<Longrightarrow> double_round x \<le> 0"
  by (simp_all add: double_round_def round_to_unit_sign)

lemma unit_relative:
  assumes "x \<noteq> 0" "1 < b"
  shows "power_int (of_nat b) (magnitude b x - int (Suc n)) \<le> \<bar>x\<bar> / of_nat b ^ n"
proof -
  have "power_int (of_nat b :: rat) (magnitude b x - int (Suc n)) = power_int (of_nat b) (magnitude b x - 1) / of_nat b ^ n"
    using assms(2) power_int_diff [of "of_nat b :: rat" "magnitude b x - 1" "int n"] by (simp add: algebra_simps)
  then show ?thesis using magnitude_bounds(1) [OF assms] assms(2) by (simp add: divide_right_mono)
qed

lemma decimal_round_error: "\<bar>decimal_round x - x\<bar> \<le> \<bar>x\<bar> / (2 * 10 ^ 27)"
proof (cases "x = 0")
  case False
  have "\<bar>decimal_round x - x\<bar> \<le> decimal_unit 28 x / 2"
    using False round_to_unit_error [of "decimal_unit 28 x" x] by (simp add: decimal_round_def)
  also have "\<dots> \<le> \<bar>x\<bar> / 10 ^ 27 / 2"
    using unit_relative [OF False, of 10 27] unfolding decimal_unit_def by (intro divide_right_mono) simp_all
  finally show ?thesis by simp
qed (simp add: decimal_round_def)

lemma double_round_error: "\<bar>double_round x - x\<bar> \<le> \<bar>x\<bar> / 2 ^ 53 + 1 / 2 ^ 1075"
proof (cases "x = 0")
  case False
  have "\<bar>double_round x - x\<bar> \<le> double_unit x / 2"
    using False round_to_unit_error [of "double_unit x" x] by (simp add: double_round_def)
  also have "\<dots> \<le> \<bar>x\<bar> / 2 ^ 53 + 1 / 2 ^ 1075"
  proof (cases "magnitude 2 x - 53 \<le> - 1074")
    case True
    have "(2 :: rat) powi (- 1074) / 2 = 1 / 2 ^ 1075" by (simp add: power_int_minus field_simps)
    then show ?thesis using True by (simp add: double_unit_def max_def)
  next
    case normal: False
    have "double_unit x \<le> \<bar>x\<bar> / 2 ^ 52"
      using unit_relative [OF False, of 2 52] normal by (simp add: double_unit_def max_def)
    then have "double_unit x / 2 \<le> \<bar>x\<bar> / 2 ^ 53" by simp
    then show ?thesis by (simp add: add_increasing2)
  qed
  finally show ?thesis .
qed (simp add: double_round_def)

lemma decimal_factor: "\<exists>\<delta>. decimal_round x = x * (1 + \<delta>) \<and> \<bar>\<delta>\<bar> \<le> 1 / (2 * 10 ^ 27)"
proof (cases "x = 0")
  case False
  have "decimal_round x = x * (1 + (decimal_round x - x) / x)" using False by (simp add: field_simps)
  moreover have "\<bar>(decimal_round x - x) / x\<bar> \<le> 1 / (2 * 10 ^ 27)"
    using decimal_round_error [of x] False by (simp add: abs_divide divide_le_eq)
  ultimately show ?thesis by blast
qed (auto simp: decimal_round_def intro: exI [of _ 0])

lemma to_float_finite: "\<bar>x\<bar> \<le> 2 ^ 1023 \<Longrightarrow> to_float x = Fin (double_round x)"
proof -
  assume x: "\<bar>x\<bar> \<le> 2 ^ 1023"
  define m :: rat where "m = 2 ^ 1023"
  have m: "2 \<le> m" "(2 :: rat) ^ 1024 = 2 * m" unfolding m_def using power_increasing [of 1 1023 "2 :: rat"] by simp_all
  have t: "1 / 2 ^ 1075 \<le> (1 :: rat)" by simp
  have "\<bar>x\<bar> / 2 ^ 53 \<le> m / 4" using x m(1) unfolding m_def [symmetric] by simp
  then have "\<bar>double_round x - x\<bar> \<le> m / 4 + 1" using double_round_error [of x] t by linarith
  then have "\<bar>double_round x\<bar> < 2 * m" using x m(1) unfolding m_def [symmetric] by linarith
  then show ?thesis unfolding to_float_def m(2) by auto
qed

lemma to_float_sign:
  assumes "to_float x = Fin v"
  shows "0 < v \<Longrightarrow> 0 < x" "v < 0 \<Longrightarrow> x < 0"
  using assms double_round_sign [of x] by (auto simp: to_float_def not_less [symmetric] split: if_splits)

text \<open>Rounding to \<open>n\<close> decimal places on top: \<open>round(float(x), n)\<close>.\<close>

lemma rounded_float_error:
  assumes "\<bar>x\<bar> \<le> 2 ^ 1022" "to_float x = Fin v"
  shows "to_float (py_round n v) = Fin (double_round (py_round n v)) \<and>
    \<bar>double_round (py_round n v) - x\<bar> \<le> 1 / (2 * 10 ^ n) + \<bar>x\<bar> * (3 / 2 ^ 53) + 1 / 2 ^ 52"
proof -
  define t h :: rat where "t = 1 / 2 ^ 1075" and "h = 1 / (2 * 10 ^ n)"
  have "(2 :: rat) ^ 60 \<le> 2 ^ 1075" by (rule power_increasing) simp_all
  then have t: "0 \<le> t" "t \<le> 1 / 2 ^ 60" unfolding t_def by (simp_all only: divide_le_eq) (simp_all add: divide_simps)
  have h: "0 \<le> h" "h \<le> 1 / 2" unfolding h_def by (simp_all add: divide_simps)
  define m :: rat where "m = 2 ^ 1022"
  have m: "4 \<le> m" "(2 :: rat) ^ 1023 = 2 * m" unfolding m_def using power_increasing [of 2 1022 "2 :: rat"] by simp_all
  let ?w = "py_round n v"
  have v: "\<bar>v - x\<bar> \<le> \<bar>x\<bar> / 2 ^ 53 + t"
    using assms(2) double_round_error [of x] unfolding t_def to_float_def by (auto split: if_splits)
  have w: "\<bar>?w - v\<bar> \<le> h" using py_round_error [of n v] by (simp add: h_def)
  have wx: "\<bar>?w\<bar> \<le> \<bar>x\<bar> + \<bar>x\<bar> / 2 ^ 53 + t + h" using v w by linarith
  then have "\<bar>?w\<bar> \<le> 2 * m" using assms(1) t h m(1) unfolding m_def [symmetric] by simp
  then have "to_float ?w = Fin (double_round ?w)" using to_float_finite unfolding m(2) by blast
  moreover have "\<bar>double_round ?w - ?w\<bar> \<le> \<bar>?w\<bar> / 2 ^ 53 + t" using double_round_error [of ?w] by (simp add: t_def)
  then have "\<bar>double_round ?w - x\<bar> \<le> h + \<bar>x\<bar> * (3 / 2 ^ 53) + 1 / 2 ^ 52"
    using v w wx t h by simp
  ultimately show ?thesis by (simp add: h_def)
qed

subsection \<open>Exact cases\<close>

lemma magnitude_int:
  assumes "i \<noteq> 0" "nat \<bar>i\<bar> < b ^ n" "1 < b"
  shows "0 \<le> magnitude b (of_int i)" "magnitude b (of_int i) \<le> int n"
proof -
  have "magnitude b (of_int i) = int (floorlog b (nat \<bar>i\<bar>))"
    using assms(1) linorder_not_less [of "\<bar>i\<bar>" 1] by (auto simp: magnitude_def simp flip: of_int_abs)
  then show "0 \<le> magnitude b (of_int i)" "magnitude b (of_int i) \<le> int n"
    using floorlog_leI [OF assms(2) _ assms(3)] by simp_all
qed

lemma round_exact_int:
  assumes "k \<le> (n :: int)" "0 < (b :: int)"
  shows "round_to_unit (power_int (of_int b) (k - n)) (of_int i) = of_int i"
proof -
  let ?u = "power_int (of_int b) (k - n) :: rat"
  have "power_int (of_int b) (n - k) * ?u = (1 :: rat)"
    using assms(2) by (simp flip: power_int_add)
  moreover have "power_int (of_int b) (n - k) = (of_int (b ^ nat (n - k)) :: rat)"
    using assms(1) by (simp add: power_int_def)
  ultimately have e: "of_int (i * b ^ nat (n - k)) * ?u = of_int i" by (simp add: mult.assoc)
  have "?u \<noteq> 0" using assms(2) by simp
  from round_to_unit_multiple [OF this, of "i * b ^ nat (n - k)"] show ?thesis unfolding e .
qed

lemma decimal_round_int: "\<bar>i\<bar> < 10 ^ 28 \<Longrightarrow> decimal_round (of_int i) = of_int i"
proof (cases "i = 0")
  case False
  assume "\<bar>i\<bar> < 10 ^ 28"
  then have "nat \<bar>i\<bar> < 10 ^ 28" by (simp add: nat_less_iff)
  from magnitude_int(2) [OF False this] have "magnitude 10 (of_int i) \<le> 28" by simp
  from round_exact_int [OF this, of 10 i] False show ?thesis by (simp add: decimal_round_def decimal_unit_def)
qed (simp add: decimal_round_def)

lemma double_round_int: "\<bar>i\<bar> < 2 ^ 53 \<Longrightarrow> double_round (of_int i) = of_int i"
proof (cases "i = 0")
  case False
  assume "\<bar>i\<bar> < 2 ^ 53"
  then have "nat \<bar>i\<bar> < 2 ^ 53" by (simp add: nat_less_iff)
  from magnitude_int [OF False this] have m: "0 \<le> magnitude 2 (of_int i)" "magnitude 2 (of_int i) \<le> 53" by simp_all
  then have "double_unit (of_int i) = power_int 2 (magnitude 2 (of_int i) - 53)" by (simp add: double_unit_def max_def)
  with round_exact_int [OF m(2), of 2 i] False show ?thesis by (simp add: double_round_def)
qed (simp add: double_round_def)

lemma to_float_int: "\<bar>i\<bar> < 2 ^ 53 \<Longrightarrow> to_float (of_int i) = Fin (of_int i)"
proof -
  assume i: "\<bar>i\<bar> < 2 ^ 53"
  have "(2 :: int) ^ 53 \<le> 2 ^ 1023" by (rule power_increasing) simp_all
  with i have "\<bar>i\<bar> \<le> 2 ^ 1023" by linarith
  then have "\<bar>of_int i :: rat\<bar> \<le> 2 ^ 1023"
    using of_int_le_iff [of "\<bar>i\<bar>" "2 ^ 1023", where 'a = rat] by (simp del: of_int_le_iff power_numeral)
  then show ?thesis using to_float_finite double_round_int [OF i] by simp
qed

text \<open>A float printed and read back is the same float.\<close>

lemma repr_decimal_reads_back: "to_float x = Fin x \<Longrightarrow> to_float (repr_decimal x) = Fin x"
proof -
  assume x: "to_float x = Fin x"
  have reads: "to_float d = Fin x" if "d \<in> set (reading_back x n)" for d n
    using that by (auto simp: reading_back_def Let_def split: if_splits)
  have "repr_decimal x = x \<or> (\<exists>n. repr_decimal x \<in> set (reading_back x n))"
  proof (cases "x = 0 \<or> find (\<lambda>n. reading_back x n \<noteq> []) [1..<18] = None")
    case False
    then obtain n where n: "x \<noteq> 0" "find (\<lambda>n. reading_back x n \<noteq> []) [1..<18] = Some n" by auto
    then have "reading_back x n \<noteq> []" by (auto simp: find_Some_iff)
    then have "repr_decimal x \<in> set (reading_back x n)"
      unfolding repr_decimal_def n(2) using n(1) by (auto split: list.split)
    then show ?thesis by blast
  qed (auto simp: repr_decimal_def)
  then show ?thesis using x reads by metis
qed

end
