(* ===== verification/Financial_Metrics.thy ===== *)
theory Financial_Metrics
  imports Float_Rounding
begin

text \<open>
  \<^verbatim>\<open>agent/tools/implementations/financial_metrics_tool.py\<close>: growth rate, margin,
  ratio and CAGR from explicit numbers.

  Every \<open>Decimal\<close> operation rounds to 28 significant digits, every float operation to a
  double (\<open>Float_Rounding\<close>). \<open>math.pow\<close> is an argument; it may raise \<open>OverflowError\<close>. The
  limit of \<open>str\<close> on integers of more than 4300 digits is not modelled.
\<close>

type_synonym pow_fn = "pyfloat \<Rightarrow> pyfloat \<Rightarrow> exn + pyfloat"

definition SUPPORTED_FINANCIAL_METRIC_OPERATIONS :: "string list" where
  "SUPPORTED_FINANCIAL_METRIC_OPERATIONS = [''growth_rate'', ''margin'', ''ratio'', ''cagr'']"

definition value_error :: "string \<Rightarrow> exn" where
  "value_error m = Exn ''ValueError'' m"

text \<open>\<open>_number\<close>: no booleans, no strings, no infinities; a float counts as it is printed.\<close>

definition number_param :: "obj \<Rightarrow> string \<Rightarrow> exn + rat" where
  "number_param ps name = (case get_or ps name JNull of
      JInt i \<Rightarrow> Inr (of_int i)
    | JFloat (Fin x) \<Rightarrow> Inr (repr_decimal x)
    | JFloat _ \<Rightarrow> Inl (value_error (name @ '' must be finite''))
    | _ \<Rightarrow> Inl (value_error (name @ '' must be a number'')))"

record metric =
  m_value :: pyfloat
  m_unit :: string
  m_inputs :: "(string \<times> pyfloat) list"

text \<open>\<open>1 / x\<close> and \<open>(x - 1) * 100\<close> on floats, and \<open>math.isfinite\<close>.\<close>

fun inverse_float :: "pyfloat \<Rightarrow> exn + pyfloat" where
  "inverse_float (Fin x) = (if x = 0 then Inl (Exn ''ZeroDivisionError'' ''float division by zero'') else Inr (to_float (1 / x)))"
| "inverse_float PInf = Inr (Fin 0)"
| "inverse_float NInf = Inr (Fin 0)"
| "inverse_float NaN = Inr NaN"

fun percent_above_one :: "pyfloat \<Rightarrow> pyfloat" where
  "percent_above_one (Fin x) = (case to_float (x - 1) of Fin d \<Rightarrow> to_float (d * 100) | v \<Rightarrow> v)"
| "percent_above_one x = x"

fun is_finite :: "pyfloat \<Rightarrow> bool" where
  "is_finite (Fin _) = True"
| "is_finite _ = False"

text \<open>The three quotients, each operation rounded.\<close>

definition growth_of :: "rat \<Rightarrow> rat \<Rightarrow> rat" where
  "growth_of c p = decimal_round (decimal_round (decimal_round (c - p) / decimal_round \<bar>p\<bar>) * 100)"

definition ratio_of :: "rat \<Rightarrow> rat \<Rightarrow> rat" where
  "ratio_of n d = decimal_round (n / d)"

definition margin_of :: "rat \<Rightarrow> rat \<Rightarrow> rat" where
  "margin_of n d = decimal_round (ratio_of n d * 100)"

definition two_numbers :: "obj \<Rightarrow> string \<Rightarrow> string \<Rightarrow> (rat \<Rightarrow> rat \<Rightarrow> rat) \<Rightarrow> string \<Rightarrow> exn + metric" where
  "two_numbers ps a b f unit =
     try_then (number_param ps a) (\<lambda>x. try_then (number_param ps b) (\<lambda>y.
       if y = 0 then Inl (value_error (b @ '' must be non-zero''))
       else Inr \<lparr>m_value = to_float (f x y), m_unit = unit, m_inputs = [(a, to_float x), (b, to_float y)]\<rparr>))"

definition cagr :: "pow_fn \<Rightarrow> obj \<Rightarrow> exn + metric" where
  "cagr pow ps =
     try_then (number_param ps ''starting_value'') (\<lambda>s.
     try_then (number_param ps ''ending_value'') (\<lambda>e.
     try_then (number_param ps ''periods'') (\<lambda>n.
       if s \<le> 0 \<or> e \<le> 0 then Inl (value_error ''starting_value and ending_value must be positive'')
       else if n \<le> 0 then Inl (value_error ''periods must be positive'')
       else
         try_then (inverse_float (to_float n)) (\<lambda>i.
         try_then (pow (to_float (ratio_of e s)) i) (\<lambda>p.
           if is_finite (percent_above_one p)
           then Inr \<lparr>m_value = percent_above_one p, m_unit = ''percent'',
                     m_inputs = [(''starting_value'', to_float s), (''ending_value'', to_float e), (''periods'', to_float n)]\<rparr>
           else Inl (value_error ''calculation produced a non-finite result''))))))"

definition calculate :: "pow_fn \<Rightarrow> string \<Rightarrow> obj \<Rightarrow> exn + metric" where
  "calculate pow operation ps =
     (if operation = ''growth_rate'' then two_numbers ps ''current'' ''previous'' growth_of ''percent''
      else if operation = ''margin'' then two_numbers ps ''numerator'' ''denominator'' margin_of ''percent''
      else if operation = ''ratio'' then two_numbers ps ''numerator'' ''denominator'' ratio_of ''ratio''
      else cagr pow ps)"

text \<open>\<open>round\<close> of a float: rounded to decimal places exactly, then to a double again.\<close>

fun round_float :: "nat \<Rightarrow> pyfloat \<Rightarrow> pyfloat" where
  "round_float n (Fin x) = to_float (py_round n x)"
| "round_float n x = x"

definition check_precision :: "json \<Rightarrow> exn + nat" where
  "check_precision v = (case v of
      JInt p \<Rightarrow> if 0 \<le> p \<and> p \<le> 10 then Inr (nat p) else Inl (value_error ''precision must be between 0 and 10'')
    | _ \<Rightarrow> Inl (value_error ''precision must be an integer''))"

text \<open>Membership of \<open>operation\<close> in the frozenset; a list or a dict is not hashable.\<close>

definition operation_supported :: "obj \<Rightarrow> exn + bool" where
  "operation_supported ps = (case get_or ps ''operation'' JNull of
      JStr s \<Rightarrow> Inr (s \<in> set SUPPORTED_FINANCIAL_METRIC_OPERATIONS)
    | JArr _ \<Rightarrow> Inl (Exn ''TypeError'' (''unhashable type: '' @ quoted ''list''))
    | JObj _ \<Rightarrow> Inl (Exn ''TypeError'' (''unhashable type: '' @ quoted ''dict''))
    | _ \<Rightarrow> Inr False)"

fun operation_name :: "json \<Rightarrow> string" where
  "operation_name (JStr s) = s"
| "operation_name _ = []"

text \<open>The \<open>try\<close> block of \<open>execute\<close>: the metric with its rounded value, and the precision.\<close>

definition evaluate_metric :: "pow_fn \<Rightarrow> obj \<Rightarrow> exn + metric \<times> nat" where
  "evaluate_metric pow ps =
     try_then (operation_supported ps) (\<lambda>ok.
       if \<not> ok then Inl (value_error ''operation must be one of: cagr, growth_rate, margin, ratio'')
       else try_then (check_precision (get_or ps ''precision'' (JInt 4))) (\<lambda>p.
            try_then (calculate pow (operation_name (get_or ps ''operation'' JNull)) ps) (\<lambda>m.
              Inr (m\<lparr>m_value := round_float p (m_value m)\<rparr>, p))))"

text \<open>The exceptions that the tool turns into a failed result.\<close>

definition caught :: "exn \<Rightarrow> bool" where
  "caught e \<longleftrightarrow> exn_class e \<in> {''InvalidOperation'', ''TypeError'', ''ValueError'', ''ZeroDivisionError''}"

subsection \<open>What a result means\<close>

text \<open>The operands of the three rational operations and the number they stand for.\<close>

fun operands :: "string \<Rightarrow> string \<times> string" where
  "operands op = (if op = ''growth_rate'' then (''current'', ''previous'') else (''numerator'', ''denominator''))"

definition exact_metric :: "string \<Rightarrow> rat \<Rightarrow> rat \<Rightarrow> rat" where
  "exact_metric op x y =
     (if op = ''growth_rate'' then (x - y) / \<bar>y\<bar> * 100 else if op = ''margin'' then x / y * 100 else x / y)"

definition decimal_metric :: "string \<Rightarrow> rat \<Rightarrow> rat \<Rightarrow> rat" where
  "decimal_metric op = (if op = ''growth_rate'' then growth_of else if op = ''margin'' then margin_of else ratio_of)"

lemma calculate_rational:
  assumes "op \<in> {''growth_rate'', ''margin'', ''ratio''}"
  shows "calculate pow op ps = two_numbers ps (fst (operands op)) (snd (operands op)) (decimal_metric op)
           (if op = ''ratio'' then ''ratio'' else ''percent'')"
proof -
  consider "op = ''growth_rate''" | "op = ''margin''" | "op = ''ratio''" using assms by blast
  then show ?thesis by cases (simp_all add: calculate_def decimal_metric_def)
qed

lemma factor_product:
  assumes "\<bar>a\<bar> \<le> (e :: rat)" "\<bar>b\<bar> \<le> f" "e \<le> 1"
  shows "\<exists>d. (1 + a) * (1 + b) = 1 + d \<and> \<bar>d\<bar> \<le> e + 2 * f"
proof (intro exI conjI)
  show "(1 + a) * (1 + b) = 1 + (a + b + a * b)" by (simp add: algebra_simps)
  have "\<bar>a * b\<bar> \<le> 1 * f"
    unfolding abs_mult using assms by (intro mult_mono) linarith+
  then show "\<bar>a + b + a * b\<bar> \<le> e + 2 * f" using assms by linarith
qed

lemma factor_quotient:
  assumes "\<bar>a\<bar> \<le> (e :: rat)" "\<bar>b\<bar> \<le> e" "e \<le> 1 / 2"
  shows "\<exists>d. (1 + a) / (1 + b) = 1 + d \<and> \<bar>d\<bar> \<le> 4 * e"
proof (intro exI conjI)
  have b: "1 / 2 \<le> 1 + b" using assms by linarith
  then show "(1 + a) / (1 + b) = 1 + (a - b) / (1 + b)" by (simp add: field_simps)
  have "\<bar>a - b\<bar> \<le> 2 * e" using assms by linarith
  also have "\<dots> \<le> 4 * e * (1 + b)" using b assms by (simp add: mult_left_mono [of "1 / 2" "1 + b" "4 * e", simplified])
  finally show "\<bar>(a - b) / (1 + b)\<bar> \<le> 4 * e" using b by (simp add: abs_divide divide_le_eq)
qed

text \<open>The rounding of the decimal operations changes the quotient by very little.\<close>

lemma decimal_metric_error:
  assumes "y \<noteq> 0"
  shows "\<bar>decimal_metric op x y - exact_metric op x y\<bar> \<le> \<bar>exact_metric op x y\<bar> * (4 / 10 ^ 27)"
proof -
  define e :: rat where "e = 1 / (2 * 10 ^ 27)"
  have e: "0 \<le> e" "e \<le> 1 / 100" by (simp_all add: e_def)
  have factor: "\<exists>d. decimal_round z = z * (1 + d) \<and> \<bar>d\<bar> \<le> e" for z using decimal_factor [of z] by (simp add: e_def)
  have "\<exists>d. decimal_metric op x y = exact_metric op x y * (1 + d) \<and> \<bar>d\<bar> \<le> 8 * e"
  proof -
    consider "op = ''growth_rate''" | "op = ''margin''" | "op \<noteq> ''growth_rate''" "op \<noteq> ''margin''" by blast
    then show ?thesis
    proof cases
      case 1
      obtain a where a: "decimal_round (x - y) = (x - y) * (1 + a)" "\<bar>a\<bar> \<le> e" using factor by blast
      obtain b where b: "decimal_round \<bar>y\<bar> = \<bar>y\<bar> * (1 + b)" "\<bar>b\<bar> \<le> e" using factor by blast
      obtain q where q: "(1 + a) / (1 + b) = 1 + q" "\<bar>q\<bar> \<le> 4 * e" using factor_quotient [OF a(2) b(2)] e by auto
      define z where "z = (x - y) / \<bar>y\<bar> * (1 + q)"
      have ab: "decimal_round (x - y) / decimal_round \<bar>y\<bar> = z"
        unfolding a(1) b(1) z_def q(1) [symmetric] by simp
      obtain c where c: "decimal_round z = z * (1 + c)" "\<bar>c\<bar> \<le> e" using factor by blast
      obtain g where g: "decimal_round (decimal_round z * 100) = decimal_round z * 100 * (1 + g)" "\<bar>g\<bar> \<le> e" using factor by blast
      obtain h where h: "(1 + q) * (1 + c) = 1 + h" "\<bar>h\<bar> \<le> 4 * e + 2 * e" using factor_product [OF q(2) c(2)] e by auto
      obtain k where k: "(1 + h) * (1 + g) = 1 + k" "\<bar>k\<bar> \<le> (4 * e + 2 * e) + 2 * e"
        using factor_product [OF h(2) g(2)] e by auto
      have "decimal_metric op x y = exact_metric op x y * (((1 + q) * (1 + c)) * (1 + g))"
      proof -
        have "decimal_metric op x y = z * (1 + c) * 100 * (1 + g)"
          unfolding 1 decimal_metric_def by (simp only: if_True simp_thms growth_of_def ab g(1)) (simp only: c(1))
        moreover have "exact_metric op x y = (x - y) / \<bar>y\<bar> * 100" unfolding 1 exact_metric_def by (simp only: if_True simp_thms)
        ultimately show ?thesis unfolding z_def by (simp only: ac_simps)
      qed
      then show ?thesis unfolding h(1) k(1) using k(2) by (intro exI [of _ k]) simp
    next
      case 2
      obtain c where c: "decimal_round (x / y) = x / y * (1 + c)" "\<bar>c\<bar> \<le> e" using factor by blast
      obtain g where g: "decimal_round (decimal_round (x / y) * 100) = decimal_round (x / y) * 100 * (1 + g)" "\<bar>g\<bar> \<le> e"
        using factor by blast
      obtain k where k: "(1 + c) * (1 + g) = 1 + k" "\<bar>k\<bar> \<le> e + 2 * e" using factor_product [OF c(2) g(2)] e by auto
      have "decimal_metric op x y = exact_metric op x y * ((1 + c) * (1 + g))"
        using 2 g(1) by (simp add: decimal_metric_def exact_metric_def margin_of_def ratio_of_def c(1))
      then show ?thesis unfolding k(1) using k(2) e by (intro exI [of _ k]) simp
    next
      case 3
      obtain c where c: "decimal_round (x / y) = x / y * (1 + c)" "\<bar>c\<bar> \<le> e" using factor by blast
      then show ?thesis
        using 3 e by (intro exI [of _ c]) (simp add: decimal_metric_def exact_metric_def ratio_of_def)
    qed
  qed
  then obtain d where d: "decimal_metric op x y = exact_metric op x y * (1 + d)" "\<bar>d\<bar> \<le> 8 * e" by blast
  have "decimal_metric op x y - exact_metric op x y = exact_metric op x y * d" by (simp add: d(1) algebra_simps)
  moreover have "\<bar>d\<bar> \<le> 4 / 10 ^ 27" using d(2) by (simp add: e_def)
  ultimately show ?thesis by (simp only: abs_mult) (rule mult_left_mono, simp_all)
qed

lemma growth_direction:
  assumes "y \<noteq> 0"
  shows "0 < growth_of x y \<Longrightarrow> y < x" "growth_of x y < 0 \<Longrightarrow> x < y"
proof -
  have nonneg: "0 \<le> decimal_round \<bar>y\<bar>" by (rule decimal_round_sign) simp
  { assume "0 < growth_of x y"
    then have "\<not> x \<le> y"
      using decimal_round_sign(2) nonneg unfolding growth_of_def
      by (metis diff_le_0_iff_le divide_nonpos_nonneg linorder_not_less mult_nonpos_nonneg zero_le_numeral)
    then show "y < x" by simp }
  { assume "growth_of x y < 0"
    then have "\<not> y \<le> x"
      using decimal_round_sign(1) nonneg unfolding growth_of_def
      by (metis diff_ge_0_iff_ge divide_nonneg_nonneg linorder_not_less mult_nonneg_nonneg zero_le_numeral)
    then show "x < y" by simp }
qed

lemma error_sum:
  fixes v r e h :: rat
  assumes "\<bar>v - r\<bar> \<le> h + \<bar>r\<bar> * (3 / 2 ^ 53) + 1 / 2 ^ 52" "\<bar>r - e\<bar> \<le> \<bar>e\<bar> * (4 / 10 ^ 27)"
    and "\<bar>r\<bar> \<le> \<bar>e\<bar> * (1 + 4 / 10 ^ 27)"
  shows "\<bar>v - e\<bar> \<le> h + (\<bar>e\<bar> + 1) / 2 ^ 51"
proof -
  define a b where "a = \<bar>e\<bar>" and "b = \<bar>r\<bar>"
  have "\<bar>v - e\<bar> \<le> \<bar>v - r\<bar> + \<bar>r - e\<bar>" by linarith
  also have "\<dots> \<le> h + b * (3 / 2 ^ 53) + 1 / 2 ^ 52 + a * (4 / 10 ^ 27)"
    using assms(1,2) unfolding a_def b_def by linarith
  also have "\<dots> \<le> h + (a + 1) / 2 ^ 51"
  proof -
    have "0 \<le> a" "b \<le> a * (1 + 4 / 10 ^ 27)" using assms(3) by (simp_all add: a_def b_def)
    then show ?thesis by (simp add: field_simps)
  qed
  finally show ?thesis by (simp add: a_def)
qed

lemma returned_accuracy:
  assumes "y \<noteq> 0" "\<bar>exact_metric op x y\<bar> \<le> 2 ^ 1021"
  shows "\<exists>v. round_float p (to_float (decimal_metric op x y)) = Fin v \<and>
    \<bar>v - exact_metric op x y\<bar> \<le> 1 / (2 * 10 ^ p) + (\<bar>exact_metric op x y\<bar> + 1) / 2 ^ 51"
proof -
  let ?E = "exact_metric op x y" and ?R = "decimal_metric op x y"
  define k :: rat where "k = 2 ^ 1021"
  have k: "1 \<le> k" "(2 :: rat) ^ 1022 = 2 * k" "(2 :: rat) ^ 1023 = 4 * k" by (simp_all add: k_def)
  have err: "\<bar>?R - ?E\<bar> \<le> \<bar>?E\<bar> * (4 / 10 ^ 27)" by (rule decimal_metric_error [OF assms(1)])
  have "\<bar>?R\<bar> \<le> \<bar>?E\<bar> + \<bar>?R - ?E\<bar>" by linarith
  with err have size2: "\<bar>?R\<bar> \<le> \<bar>?E\<bar> * (1 + 4 / 10 ^ 27)" unfolding distrib_left mult_1_right by linarith
  then have size: "\<bar>?R\<bar> \<le> 2 * k" using assms(2) k(1) unfolding k_def [symmetric] by simp
  define w where "w = double_round ?R"
  have w: "to_float ?R = Fin w" using to_float_finite [of ?R] size k unfolding w_def by simp
  from rounded_float_error [of ?R w p] w size k(2)
  have v: "to_float (py_round p w) = Fin (double_round (py_round p w))"
    "\<bar>double_round (py_round p w) - ?R\<bar> \<le> 1 / (2 * 10 ^ p) + \<bar>?R\<bar> * (3 / 2 ^ 53) + 1 / 2 ^ 52" by simp_all
  have "\<bar>double_round (py_round p w) - ?E\<bar> \<le> 1 / (2 * 10 ^ p) + (\<bar>?E\<bar> + 1) / 2 ^ 51"
    using v(2) err size2 by (rule error_sum)
  then show ?thesis using w v(1) by simp
qed

text \<open>
  C40. Accuracy of the rational metrics. When growth rate, margin or ratio is computed, both
  operands are finite decimals, the second is not zero and at most ten places are kept. A result of size up to
  \<open>2 ^ 1021\<close> is a finite float that differs from the exact quotient by at most half a unit in the last
  place kept plus \<open>2 ^ -51\<close> of its size and \<open>2 ^ -51\<close>: the rounding of every decimal operation to 28 digits, of
  the conversion to a double and of the last rounding included. A growth rate is taken relative to the size of the
  base: a positive one is only returned when the value went up and a negative one only when
  it went down, for negative bases as well.
\<close>

theorem metric_accurate:
  assumes "evaluate_metric pow ps = Inr (m, p)"
    and "get_or ps ''operation'' JNull = JStr op" "op \<noteq> ''cagr''"
  shows "\<exists>x y. number_param ps (fst (operands op)) = Inr x \<and> number_param ps (snd (operands op)) = Inr y \<and>
     y \<noteq> 0 \<and> p \<le> 10 \<and>
     (\<bar>exact_metric op x y\<bar> \<le> 2 ^ 1021 \<longrightarrow>
        (\<exists>v. m_value m = Fin v \<and> \<bar>v - exact_metric op x y\<bar> \<le> 1 / (2 * 10 ^ p) + (\<bar>exact_metric op x y\<bar> + 1) / 2 ^ 51)) \<and>
     (op = ''growth_rate'' \<longrightarrow> (\<forall>v. m_value m = Fin v \<longrightarrow> (0 < v \<longrightarrow> y < x) \<and> (v < 0 \<longrightarrow> x < y)))"
proof -
  obtain m0 where op: "op \<in> {''growth_rate'', ''margin'', ''ratio''}"
    and p: "check_precision (get_or ps ''precision'' (JInt 4)) = Inr p"
    and m0: "calculate pow op ps = Inr m0" "m_value m = round_float p (m_value m0)"
    using assms
    by (auto simp: evaluate_metric_def try_then_Inr operation_supported_def SUPPORTED_FINANCIAL_METRIC_OPERATIONS_def
        split: if_splits)
  obtain x y where xy: "number_param ps (fst (operands op)) = Inr x" "number_param ps (snd (operands op)) = Inr y"
      "y \<noteq> 0" "m_value m0 = to_float (decimal_metric op x y)"
    using m0(1) unfolding calculate_rational [OF op] two_numbers_def by (auto simp: try_then_Inr split: if_splits)
  have "p \<le> 10" using p by (auto simp: check_precision_def split: json.splits if_splits)
  moreover have "\<exists>v. m_value m = Fin v \<and> \<bar>v - exact_metric op x y\<bar> \<le> 1 / (2 * 10 ^ p) + (\<bar>exact_metric op x y\<bar> + 1) / 2 ^ 51"
    if "\<bar>exact_metric op x y\<bar> \<le> 2 ^ 1021"
    using returned_accuracy [OF xy(3) that, of p] m0(2) xy(4) by simp
  moreover have "(0 < v \<longrightarrow> y < x) \<and> (v < 0 \<longrightarrow> x < y)" if g: "op = ''growth_rate''" and v: "m_value m = Fin v" for v
  proof -
    have "m_value m = round_float p (to_float (growth_of x y))"
      using g m0(2) xy(4) by (simp add: decimal_metric_def)
    then obtain w where w: "to_float (growth_of x y) = Fin w" "to_float (py_round p w) = Fin v"
      using v by (cases "to_float (growth_of x y)") simp_all
    then show ?thesis
      using to_float_sign [OF w(2)] to_float_sign [OF w(1)] py_round_sign [of w p] growth_direction [OF xy(3)]
      by (metis linorder_not_less)
  qed
  ultimately show ?thesis using xy by blast
qed

lemma caught_value_error [simp]: "caught (value_error m)"
  by (simp add: caught_def value_error_def)

lemma number_param_caught: "number_param ps n = Inl e \<Longrightarrow> caught e"
  by (auto simp: number_param_def split: json.splits pyfloat.splits)

lemma inverse_float_caught: "inverse_float x = Inl e \<Longrightarrow> caught e"
  by (cases x) (auto simp: caught_def split: if_splits)

lemma two_numbers_caught: "two_numbers ps a b f un = Inl e \<Longrightarrow> caught e"
  by (auto simp: two_numbers_def try_then_Inl split: if_splits dest: number_param_caught)

lemma cagr_caught: "cagr pow ps = Inl e \<Longrightarrow> caught e \<or> (\<exists>a b. pow a b = Inl e)"
  by (auto simp: cagr_def try_then_Inl split: if_splits dest: number_param_caught inverse_float_caught)

text \<open>
  Failures of the metrics tool. Every exception of an evaluation is one that the tool reports as a
  failed result, with a single exception: what \<open>math.pow\<close> raises while a CAGR is computed.
  \<open>OverflowError\<close> is not in the list the tool catches, although the code means to
  report results that are not finite as invalid input.
\<close>

theorem metric_failures:
  assumes "evaluate_metric pow ps = Inl e"
  shows "caught e \<or> (get_or ps ''operation'' JNull = JStr ''cagr'' \<and> (\<exists>a b. pow a b = Inl e))"
proof -
  have calc: "calculate pow op ps = Inl e \<Longrightarrow> caught e \<or> op \<notin> {''growth_rate'', ''margin'', ''ratio''} \<and> (\<exists>a b. pow a b = Inl e)"
    for op by (auto simp: calculate_def split: if_splits dest: two_numbers_caught cagr_caught)
  have prec: "check_precision v = Inl e \<Longrightarrow> caught e" for v
    by (auto simp: check_precision_def split: json.splits if_splits)
  have supp: "operation_supported ps = Inl e \<Longrightarrow> caught e"
    by (auto simp: operation_supported_def caught_def split: json.splits)
  consider "operation_supported ps = Inl e" | "e = value_error ''operation must be one of: cagr, growth_rate, margin, ratio''"
    | "check_precision (get_or ps ''precision'' (JInt 4)) = Inl e"
    | "operation_supported ps = Inr True" "calculate pow (operation_name (get_or ps ''operation'' JNull)) ps = Inl e"
    using assms by (auto simp: evaluate_metric_def try_then_Inl split: if_splits)
  then show ?thesis
  proof cases
    case 4
    then obtain op where op: "get_or ps ''operation'' JNull = JStr op" "op \<in> set SUPPORTED_FINANCIAL_METRIC_OPERATIONS"
      by (cases "get_or ps ''operation'' JNull") (simp_all add: operation_supported_def)
    then have "op = ''cagr'' \<or> op \<in> {''growth_rate'', ''margin'', ''ratio''}"
      unfolding SUPPORTED_FINANCIAL_METRIC_OPERATIONS_def by (simp only: list.set insert_iff empty_iff) blast
    then show ?thesis using calc [of op] 4(2) op(1) by (metis operation_name.simps(1))
  qed (use prec supp in auto)
qed

definition no_pow :: pow_fn where
  "no_pow a b = Inl (Exn ''OverflowError'' ''math range error'')"

definition negative_base :: obj where
  "negative_base = [(''operation'', JStr ''growth_rate''), (''current'', JInt 120), (''previous'', JInt (-60)),
     (''precision'', JInt 2)]"

lemma negative_base_evaluates:
  "evaluate_metric no_pow negative_base =
     Inr (\<lparr>m_value = Fin 300, m_unit = ''percent'', m_inputs = [(''current'', Fin 120), (''previous'', Fin (-60))]\<rparr>, 2)"
proof -
  have "decimal_round 180 = 180" "decimal_round 60 = 60" "decimal_round 3 = 3" "decimal_round 300 = 300"
    using decimal_round_int [of 180] decimal_round_int [of 60] decimal_round_int [of 3] decimal_round_int [of 300] by simp_all
  then have "growth_of 120 (- 60) = 300" by (simp add: growth_of_def)
  moreover have "py_round 2 300 = 300" using py_round_of_int [of 2 300] by simp
  moreover have "to_float 300 = Fin 300" "to_float 120 = Fin 120" "to_float (- 60) = Fin (- 60)"
    using to_float_int [of 300] to_float_int [of 120] to_float_int [of "- 60"] by simp_all
  ultimately show ?thesis
    by (simp add: evaluate_metric_def negative_base_def get_or_def operation_supported_def
        SUPPORTED_FINANCIAL_METRIC_OPERATIONS_def check_precision_def calculate_def two_numbers_def number_param_def)
qed

theorem metric_accurate_witness:
  "\<exists>x y. number_param negative_base ''current'' = Inr x \<and> number_param negative_base ''previous'' = Inr y \<and>
     y < x \<and> \<bar>300 - exact_metric ''growth_rate'' x y\<bar> \<le> 1 / 200 + 301 / 2 ^ 51"
proof -
  have op: "get_or negative_base ''operation'' JNull = JStr ''growth_rate''" by (simp add: negative_base_def get_or_def)
  have xy: "number_param negative_base ''current'' = Inr 120" "number_param negative_base ''previous'' = Inr (- 60)"
    by (simp_all add: negative_base_def number_param_def get_or_def)
  have "exact_metric ''growth_rate'' 120 (- 60) = 300" by (simp add: exact_metric_def)
  with metric_accurate [OF negative_base_evaluates op] xy show ?thesis by simp
qed

end
