(* ===== verification/Tool_Engine.thy ===== *)
theory Tool_Engine
  imports Retrieval_Contract Financial_Metrics
begin

text \<open>
  The tool layer: \<^verbatim>\<open>agent/tools/tool_engine.py\<close>, \<^verbatim>\<open>tool_authorization.py\<close>,
  \<^verbatim>\<open>tool_registry.py\<close>, \<^verbatim>\<open>tool_factory.py\<close> and the five built-in tools under
  \<^verbatim>\<open>implementations/\<close>.

  A tool is the pair of its \<open>supports\<close> and \<open>execute\<close>, both over a context and, for
  \<open>execute\<close>, a world \<open>'w\<close> that only the retrieval adapter touches. The elapsed time of a
  call is an argument.
\<close>

subsection \<open>Contexts and results\<close>

datatype ToolStatus = TS_PENDING | TS_RUNNING | TS_SUCCESS | TS_FAILED | TS_SKIPPED

fun status_value :: "ToolStatus \<Rightarrow> string" where
  "status_value TS_PENDING = ''pending''"
| "status_value TS_RUNNING = ''running''"
| "status_value TS_SUCCESS = ''success''"
| "status_value TS_FAILED = ''failed''"
| "status_value TS_SKIPPED = ''skipped''"

record tool_result =
  tr_status :: ToolStatus
  tr_output :: json
  tr_artifacts :: "json list"
  tr_latency_ms :: rat
  tr_error :: "string option"
  tr_metadata :: obj

record 'w retrieval_adapter =
  ad_name :: string
  ad_retrieve :: "request \<Rightarrow> 'w \<Rightarrow> (exn + adapter_answer) \<times> 'w"

record 'w tool_context =
  tc_tenant :: json
  tc_parameters :: obj
  tc_adapter :: "'w retrieval_adapter option"

text \<open>\<open>trusted_retrieval_adapter\<close>: the wrapper keeps a stripped, non-empty name.\<close>

definition trusted_retrieval_adapter ::
    "(request \<Rightarrow> 'w \<Rightarrow> (exn + adapter_answer) \<times> 'w) \<Rightarrow> string \<Rightarrow> exn + 'w retrieval_adapter" where
  "trusted_retrieval_adapter f name =
     (if strip name = [] then Inl (value_error ''trusted retrieval adapter name must be a non-empty string'')
      else Inr \<lparr>ad_name = strip name, ad_retrieve = f\<rparr>)"

definition adapter_from_context :: "'w tool_context \<Rightarrow> 'w retrieval_adapter option" where
  "adapter_from_context ctx = tc_adapter ctx"

subsection \<open>The retrieval tool\<close>

definition retrieval_failure :: "rat \<Rightarrow> string \<Rightarrow> string \<Rightarrow> obj \<Rightarrow> tool_result" where
  "retrieval_failure ms code err meta =
     \<lparr>tr_status = TS_FAILED, tr_output = JNull, tr_artifacts = [], tr_latency_ms = ms, tr_error = Some err,
      tr_metadata = [(''tool'', JStr ''RetrievalTool''), (''failure_code'', JStr code), (''status'', JStr ''failed'')] @ meta\<rparr>"

definition retrieval_success :: "rat \<Rightarrow> string \<Rightarrow> request \<Rightarrow> evidence list \<Rightarrow> tool_result" where
  "retrieval_success ms name rq es =
     \<lparr>tr_status = TS_SUCCESS,
      tr_output = JObj
        [(''query'', JStr (rq_query rq)), (''tenant_id'', JInt (rq_tenant rq)), (''result_count'', JInt (int (length es))),
         (''evidence'', JArr (map (\<lambda>(i, e). as_dict i e) (enumerate 1 es))),
         (''citations'', JArr (map (\<lambda>(i, e). citation i e) (enumerate 1 es)))],
      tr_artifacts = [], tr_latency_ms = ms, tr_error = None,
      tr_metadata =
        [(''tool'', JStr ''RetrievalTool''), (''adapter'', JStr name), (''tenant_id'', JInt (rq_tenant rq)),
         (''include_public'', JBool (rq_include_public rq)), (''status'', JStr ''completed'')]\<rparr>"

definition retrieval_execute :: "'w retrieval_adapter option \<Rightarrow> rat \<Rightarrow> 'w tool_context \<Rightarrow> 'w
    \<Rightarrow> (exn + tool_result) \<times> 'w" where
  "retrieval_execute own ms ctx w = (case request_from_context (tc_parameters ctx) (tc_tenant ctx) of
      Inl e \<Rightarrow> (Inr (retrieval_failure ms ''invalid_request'' (exn_msg e) []), w)
    | Inr rq \<Rightarrow> (case (case own of Some a \<Rightarrow> Some a | None \<Rightarrow> adapter_from_context ctx) of
        None \<Rightarrow> (Inr (retrieval_failure ms ''adapter_unavailable''
            ''retrieval requires a trusted server-side retrieval adapter'' [(''tenant_id'', JInt (rq_tenant rq))]), w)
      | Some a \<Rightarrow>
          (let (answer, w1) = ad_retrieve a rq w;
               scope = [(''tenant_id'', JInt (rq_tenant rq)), (''adapter'', JStr (ad_name a))]
           in (Inr (case try_then answer normalise_evidence of
                 Inr es \<Rightarrow> retrieval_success ms (ad_name a) rq es
               | Inl e \<Rightarrow>
                   if exn_class e = ''RetrievalContractError''
                   then retrieval_failure ms ''invalid_adapter_result'' (exn_msg e) scope
                   else retrieval_failure ms ''adapter_failure'' ''trusted retrieval adapter failed''
                          (scope @ [(''exception_type'', JStr (exn_class e))])), w1))))"

subsection \<open>The other built-in tools\<close>

definition metrics_execute :: "pow_fn \<Rightarrow> rat \<Rightarrow> 'w tool_context \<Rightarrow> 'w \<Rightarrow> (exn + tool_result) \<times> 'w" where
  "metrics_execute pow ms ctx w =
     (let ps = tc_parameters ctx; op = get_or ps ''operation'' JNull in
      case evaluate_metric pow ps of
        Inr (m, p) \<Rightarrow>
          (Inr \<lparr>tr_status = TS_SUCCESS,
             tr_output = JObj
               [(''operation'', op), (''value'', JFloat (m_value m)), (''unit'', JStr (m_unit m)),
                (''precision'', JInt (int p)), (''inputs'', JObj (map (\<lambda>(k, v). (k, JFloat v)) (m_inputs m)))],
             tr_artifacts = [], tr_latency_ms = ms, tr_error = None,
             tr_metadata = [(''tool'', JStr ''FinancialMetricsTool''), (''operation'', op), (''deterministic'', JBool True),
               (''side_effects'', JStr ''none'')]\<rparr>, w)
      | Inl e \<Rightarrow>
          if caught e then
            (Inr \<lparr>tr_status = TS_FAILED, tr_output = JNull, tr_artifacts = [], tr_latency_ms = ms, tr_error = Some (exn_msg e),
               tr_metadata = [(''tool'', JStr ''FinancialMetricsTool''), (''operation'', op),
                 (''failure_code'', JStr ''invalid_input'')]\<rparr>, w)
          else (Inl e, w))"

definition disabled_execute :: "string \<Rightarrow> string \<Rightarrow> 'w tool_context \<Rightarrow> 'w \<Rightarrow> (exn + tool_result) \<times> 'w" where
  "disabled_execute cls err ctx w =
     (Inr \<lparr>tr_status = TS_SKIPPED, tr_output = JNull, tr_artifacts = [], tr_latency_ms = 0, tr_error = Some err,
        tr_metadata = [(''tool'', JStr cls), (''availability'', JStr ''disabled'')]\<rparr>, w)"

record 'w tool =
  t_description :: string
  t_supports :: "'w tool_context \<Rightarrow> exn + bool"
  t_execute :: "'w tool_context \<Rightarrow> 'w \<Rightarrow> (exn + tool_result) \<times> 'w"

type_synonym 'w registry = "(string \<times> 'w tool) list"

definition BUILTIN_TOOLS :: "pow_fn \<Rightarrow> rat \<Rightarrow> 'w registry" where
  "BUILTIN_TOOLS pow ms =
     [(''retrieval'', \<lparr>t_description = ''Retrieve tenant-scoped evidence through a trusted server-side adapter'',
         t_supports = (\<lambda>_. Inr True), t_execute = retrieval_execute None ms\<rparr>),
      (''financial_metrics'',
         \<lparr>t_description = ''Calculate growth rate, margin, ratio, or CAGR using explicit numeric inputs'',
          t_supports = (\<lambda>ctx. operation_supported (tc_parameters ctx)), t_execute = metrics_execute pow ms\<rparr>),
      (''python'', \<lparr>t_description = ''Disabled: arbitrary Python execution is not available'', t_supports = (\<lambda>_. Inr True),
         t_execute = disabled_execute ''PythonTool'' ''Python execution is disabled; no sandbox is configured''\<rparr>),
      (''sql'', \<lparr>t_description = ''Disabled: SQL execution has no approved read-only adapter'', t_supports = (\<lambda>_. Inr True),
         t_execute = disabled_execute ''SQLTool'' ''SQL execution is disabled; no approved database adapter is configured''\<rparr>),
      (''http'', \<lparr>t_description = ''Disabled: outbound HTTP calls are not approved'', t_supports = (\<lambda>_. Inr True),
         t_execute = disabled_execute ''HttpTool'' ''HTTP execution is disabled; no outbound network adapter is configured''\<rparr>)]"

text \<open>\<open>register_builtin_tools\<close> adds the names that are missing.\<close>

definition register_builtin_tools :: "pow_fn \<Rightarrow> rat \<Rightarrow> 'w registry \<Rightarrow> 'w registry" where
  "register_builtin_tools pow ms reg =
     fold (\<lambda>(n, t) r. if map_of r n = None then AList.update n t r else r) (BUILTIN_TOOLS pow ms) reg"

definition tool_registry_get :: "'w registry \<Rightarrow> string \<Rightarrow> exn + 'w tool" where
  "tool_registry_get reg name = (case map_of reg name of
      Some t \<Rightarrow> Inr t
    | None \<Rightarrow> Inl (Exn ''ToolNotFound'' (''Tool '' @ quoted name @ '' not registered. Available: '' @ repr_list (map fst reg))))"

subsection \<open>Authorization and the engine\<close>

record decision =
  d_allowed :: bool
  d_reason :: "string option"
  d_metadata :: obj

text \<open>What an authorization hook may do.\<close>

datatype hook_outcome = AnswerBool bool | AnswerDecision decision | AnswerOther | AnswerRaises

type_synonym 'w auth_hook = "string \<Rightarrow> 'w tool_context \<Rightarrow> hook_outcome"

fun evaluate_authorization :: "'w auth_hook \<Rightarrow> string \<Rightarrow> 'w tool_context \<Rightarrow> decision" where
  "evaluate_authorization hook name ctx = (case hook name ctx of
      AnswerRaises \<Rightarrow> \<lparr>d_allowed = False, d_reason = Some ''authorization hook failed'', d_metadata = []\<rparr>
    | AnswerBool b \<Rightarrow> \<lparr>d_allowed = b, d_reason = None, d_metadata = []\<rparr>
    | AnswerDecision d \<Rightarrow> d
    | AnswerOther \<Rightarrow> \<lparr>d_allowed = False, d_reason = Some ''authorization hook returned an invalid decision'', d_metadata = []\<rparr>)"

definition authorization_denied_result :: "'w auth_hook option \<Rightarrow> string \<Rightarrow> 'w tool_context \<Rightarrow> tool_result option" where
  "authorization_denied_result hook name ctx = (case hook of
      None \<Rightarrow> None
    | Some h \<Rightarrow>
        (let d = evaluate_authorization h name ctx in
         if d_allowed d then None
         else Some \<lparr>tr_status = TS_SKIPPED, tr_output = JNull, tr_artifacts = [], tr_latency_ms = 0,
           tr_error = Some (case d_reason d of
               Some r \<Rightarrow> (if r = [] then ''Tool '' @ quoted name @ '' was not authorized'' else r)
             | None \<Rightarrow> ''Tool '' @ quoted name @ '' was not authorized''),
           tr_metadata = [(''tool'', JStr name),
             (''governance'', JObj (fold (\<lambda>(k, v). AList.update k v) (d_metadata d)
                [(''decision'', JStr ''deny''), (''reason'', opt_str (d_reason d))]))]\<rparr>))"

definition engine_execute :: "'w auth_hook option \<Rightarrow> 'w registry \<Rightarrow> 'w tool_context \<Rightarrow> string \<Rightarrow> 'w
    \<Rightarrow> (exn + tool_result) \<times> 'w" where
  "engine_execute hook reg ctx name w = (case authorization_denied_result hook name ctx of
      Some r \<Rightarrow> (Inr r, w)
    | None \<Rightarrow> (case tool_registry_get reg name of
        Inl e \<Rightarrow> (Inl e, w)
      | Inr t \<Rightarrow> (case t_supports t ctx of
          Inl e \<Rightarrow> (Inl e, w)
        | Inr False \<Rightarrow> (Inl (Exn ''ToolNotSupported'' (''Tool '' @ quoted name @ '' does not support the given context.'')), w)
        | Inr True \<Rightarrow> t_execute t ctx w)))"

subsection \<open>Requests are scoped to the trusted tenant\<close>

definition scoped_request :: "json \<Rightarrow> request \<Rightarrow> bool" where
  "scoped_request tenant rq \<longleftrightarrow>
     tenant = JInt (rq_tenant rq) \<and> 0 \<le> rq_tenant rq \<and> 1 \<le> rq_top_k rq \<and> rq_top_k rq \<le> 20 \<and>
     rq_query rq \<noteq> [] \<and> length (rq_query rq) \<le> 8000 \<and>
     rq_company rq \<noteq> Some [] \<and> [] \<notin> set (rq_document_ids rq)"

lemma nonblank_iff: "nonblank v \<longleftrightarrow> (\<exists>s. v = JStr s \<and> strip s \<noteq> [])"
  by (cases v) auto

lemma normalise_id_list_nonempty: "normalise_id_list vs = Inr ids \<Longrightarrow> [] \<notin> set ids"
  by (fastforce simp: normalise_id_list_def list_all_iff nonblank_iff split: if_splits)

lemma normalise_document_ids_nonempty: "normalise_document_ids v = Inr ids \<Longrightarrow> [] \<notin> set ids"
  by (cases v) (auto dest: normalise_id_list_nonempty)

lemma validate_tenant_id_Inr: "validate_tenant_id v = Inr t \<longleftrightarrow> v = JInt t \<and> 0 \<le> t"
  by (cases v) auto

lemma check_query_Inr: "check_query v = Inr q \<Longrightarrow> q \<noteq> [] \<and> length q \<le> 8000"
  by (auto simp: check_query_def MAX_QUERY_LENGTH_def nonblank_iff split: if_splits)

lemma check_top_k_Inr: "check_top_k v = Inr k \<Longrightarrow> 1 \<le> k \<and> k \<le> 20"
  by (auto simp: check_top_k_def MAX_TOP_K_def split: json.splits if_splits)

lemma check_company_Inr: "check_company v = Inr c \<Longrightarrow> c \<noteq> Some []"
  by (auto simp: check_company_def nonblank_iff split: if_splits)

lemma request_from_context_scoped: "request_from_context ps tenant = Inr rq \<Longrightarrow> scoped_request tenant rq"
  unfolding request_from_context_def scoped_request_def
  by (auto simp: try_then_Inr validate_tenant_id_Inr split: if_splits
      dest: check_query_Inr check_top_k_Inr check_company_Inr normalise_document_ids_nonempty)

subsection \<open>Only the retrieval adapter touches the world\<close>

lemma map_of_builtin:
  "map_of (register_builtin_tools pow ms []) name = map_of (BUILTIN_TOOLS pow ms) name"
  by (simp add: register_builtin_tools_def BUILTIN_TOOLS_def)

lemma retrieval_execute_world:
  "snd (retrieval_execute None ms ctx w) = w \<or>
   (\<exists>rq a. request_from_context (tc_parameters ctx) (tc_tenant ctx) = Inr rq \<and> tc_adapter ctx = Some a \<and>
      snd (retrieval_execute None ms ctx w) = snd (ad_retrieve a rq w))"
  by (auto simp: retrieval_execute_def adapter_from_context_def split_def Let_def split: sum.splits option.splits)

lemma metrics_execute_world [simp]: "snd (metrics_execute pow ms ctx w) = w"
  by (auto simp: metrics_execute_def Let_def split: sum.splits prod.splits)

lemma disabled_execute_world [simp]: "snd (disabled_execute cls err ctx w) = w"
  by (simp add: disabled_execute_def)

lemma engine_execute_world:
  "snd (engine_execute hook (register_builtin_tools pow ms []) ctx name w) = w \<or>
   (\<exists>rq a. name = ''retrieval'' \<and> scoped_request (tc_tenant ctx) rq \<and> tc_adapter ctx = Some a \<and>
      snd (engine_execute hook (register_builtin_tools pow ms []) ctx name w) = snd (ad_retrieve a rq w))"
proof -
  let ?reg = "register_builtin_tools pow ms [] :: 'a registry"
  have "snd (engine_execute hook ?reg ctx name w) = w \<or>
      (\<exists>t. map_of (BUILTIN_TOOLS pow ms :: 'a registry) name = Some t \<and>
        snd (engine_execute hook ?reg ctx name w) = snd (t_execute t ctx w))"
    by (auto simp: engine_execute_def tool_registry_get_def map_of_builtin split: option.splits sum.splits bool.splits)
  then consider "snd (engine_execute hook ?reg ctx name w) = w"
    | t where "map_of (BUILTIN_TOOLS pow ms :: 'a registry) name = Some t"
        "snd (engine_execute hook ?reg ctx name w) = snd (t_execute t ctx w)"
    by blast
  then show ?thesis
  proof cases
    case (2 t)
    then consider "name = ''retrieval''" "t_execute t = retrieval_execute None ms" | "snd (t_execute t ctx w) = w"
      by (auto simp: BUILTIN_TOOLS_def split: if_splits)
    then show ?thesis
    proof cases
      case 1
      then show ?thesis
        using 2(2) retrieval_execute_world [of ms ctx w] request_from_context_scoped by metis
    qed (use 2(2) in simp)
  qed simp
qed

end
