(* ===== verification/Tool_Server.thy ===== *)
theory Tool_Server
  imports Tool_Engine Mcp_Server Hybrid_Retrieval
begin

text \<open>
  Composition: \<^verbatim>\<open>agent/tools/mcp_adapter.py\<close> (tools of the engine as MCP tools),
  \<^verbatim>\<open>mcp/app.py\<close> (the server for one tenant), \<^verbatim>\<open>core/retrieval_tool_adapter.py\<close> (the
  hybrid retriever as trusted adapter) and the evidence side of
  \<^verbatim>\<open>retrieval/hybrid_retriever.py\<close>.

  Retrieved texts are lists of code points and tool results are JSON, so rendering a text
  as a JSON string (\<open>enc\<close>) is an argument, like lower-casing.
\<close>

subsection \<open>Engine tools behind the MCP adapter\<close>

text \<open>What the surroundings give: JSON rendering, regular expressions, \<open>math.pow\<close>, elapsed time.\<close>

record env =
  env_dumps :: "json \<Rightarrow> string"
  env_regex :: regex
  env_schema_text :: "schema_error \<Rightarrow> string"
  env_pow :: pow_fn
  env_ms :: rat
  env_version :: string

definition engine_value :: "tool_result \<Rightarrow> tool_value" where
  "engine_value r = EngineResult (status_value (tr_status r)) (tr_output r) (JArr (tr_artifacts r))
     (JFloat (Fin (tr_latency_ms r))) (opt_str (tr_error r)) (JObj (tr_metadata r))"

definition engine_invoke :: "'w registry \<Rightarrow> (obj \<Rightarrow> 'w tool_context) \<Rightarrow> string \<Rightarrow> obj \<Rightarrow> 'c \<Rightarrow> 'w \<Rightarrow> handler_out \<times> 'w" where
  "engine_invoke reg factory name args c w = (case engine_execute None reg (factory args) name w of
      (Inr r, w1) \<Rightarrow> (Returns (engine_value r), w1)
    | (Inl e, w1) \<Rightarrow> (RaisesOther (exn_msg e), w1))"

definition make_local_tool :: "'w registry \<Rightarrow> (obj \<Rightarrow> 'w tool_context) \<Rightarrow> string \<times> obj \<Rightarrow> ('c, 'w) local_tool" where
  "make_local_tool reg factory = (\<lambda>(name, schema).
     \<lparr>tool_name = name,
      description = (case map_of reg name of Some t \<Rightarrow> t_description t | None \<Rightarrow> ''Local ToolEngine tool: '' @ name),
      input_schema = JObj schema, invoke = engine_invoke reg factory name\<rparr>)"

fun register_all :: "('c, 'w) local_tool list \<Rightarrow> ('c, 'w) adapter \<Rightarrow> exn + ('c, 'w) adapter" where
  "register_all [] a = Inr a"
| "register_all (t # ts) a = (case register t a of (Inl e, _) \<Rightarrow> Inl e | (Inr _, a1) \<Rightarrow> register_all ts a1)"

definition engine_mcp_adapter :: "env \<Rightarrow> 'w registry \<Rightarrow> (string \<times> obj) list \<Rightarrow> string list
    \<Rightarrow> (obj \<Rightarrow> 'w tool_context) \<Rightarrow> exn + ('c, 'w) adapter" where
  "engine_mcp_adapter ev reg schemas allowed factory =
     try_then (make_governance allowed None) (\<lambda>g.
       register_all (map (make_local_tool reg factory) schemas)
         \<lparr>governance_of = g, tools = [], dumps_of = env_dumps ev, regex_of = env_regex ev, schema_text = env_schema_text ev\<rparr>)"

subsection \<open>The server for one tenant\<close>

definition SUPPORTED_MCP_TOOLS :: "string list" where
  "SUPPORTED_MCP_TOOLS = [''financial_metrics'', ''retrieval'']"

definition positive_tenant :: "json \<Rightarrow> bool" where
  "positive_tenant v = (case v of JInt t \<Rightarrow> 0 < t | _ \<Rightarrow> False)"

definition context_factory :: "json \<Rightarrow> 'w retrieval_adapter option \<Rightarrow> obj \<Rightarrow> 'w tool_context" where
  "context_factory tn trusted args = \<lparr>tc_tenant = tn, tc_parameters = args, tc_adapter = trusted\<rparr>"

definition build_mcp_server :: "env \<Rightarrow> json \<Rightarrow> string list \<Rightarrow> (request \<Rightarrow> 'w \<Rightarrow> (exn + adapter_answer) \<times> 'w) \<Rightarrow> 'w
    \<Rightarrow> exn + ('c, 'w) server" where
  "build_mcp_server ev tn allowed retrieve_fn w =
     (let unsupported = filter (\<lambda>n. n \<notin> set SUPPORTED_MCP_TOOLS) (remdups allowed) in
      if unsupported \<noteq> [] then Inl (value_error (''unsupported MCP tools: '' @ join '', '' (sort unsupported)))
      else if allowed \<noteq> [] \<and> \<not> positive_tenant tn
      then Inl (value_error ''a positive tenant_id is required when tools are enabled'')
      else
        try_then (if ''retrieval'' \<in> set allowed
                  then try_then (trusted_retrieval_adapter retrieve_fn ''mcp_hybrid_retriever'') (\<lambda>a. Inr (Some a))
                  else Inr None) (\<lambda>trusted.
        try_then (engine_mcp_adapter ev (register_builtin_tools (env_pow ev) (env_ms ev) [])
                   [(''financial_metrics'', FINANCIAL_METRICS_TOOL_SCHEMA), (''retrieval'', RETRIEVAL_TOOL_SCHEMA)]
                   allowed (context_factory tn trusted)) (\<lambda>a.
        try_then (make_server_info ''financial-agent-tools'' (env_version ev)
                   (Some ''Tools are tenant-scoped and default-deny. The process operator controls the allowlist.'')) (\<lambda>i.
          Inr (make_server a i w)))))"

subsection \<open>The retriever only ever sees the operator's tenant\<close>

text \<open>A world reached from another by asking the adapter a list of scoped requests.\<close>

definition asked :: "(request \<Rightarrow> 'w \<Rightarrow> 'r \<times> 'w) \<Rightarrow> json \<Rightarrow> request list \<Rightarrow> 'w \<Rightarrow> 'w \<Rightarrow> bool" where
  "asked fn tn rqs w w' \<longleftrightarrow> list_all (scoped_request tn) rqs \<and> w' = fold (\<lambda>rq. snd \<circ> fn rq) rqs w"

lemma asked_refl: "asked fn tn [] w w"
  by (simp add: asked_def)

lemma asked_trans: "asked fn tn r1 w w1 \<Longrightarrow> asked fn tn r2 w1 w2 \<Longrightarrow> asked fn tn (r1 @ r2) w w2"
  by (simp add: asked_def)

lemma asked_one: "scoped_request tn rq \<Longrightarrow> asked fn tn [rq] w (snd (fn rq w))"
  by (simp add: asked_def)

lemma engine_invoke_world:
  "snd (engine_invoke reg factory n v c w) = snd (engine_execute None reg (factory v) n w)"
  by (auto simp: engine_invoke_def split: prod.splits sum.splits)

lemma register_two:
  assumes "register_all [t1, t2] a = Inr a'" "tools a = []"
  shows "tools a' = [(tool_name t1, t1), (tool_name t2, t2)] \<and> governance_of a' = governance_of a"
  using assms by (auto simp: register_def split: prod.splits sum.splits if_splits)

text \<open>A tool that the server of one tenant may run asks at most one request, for that tenant.\<close>

lemma built_tool_asks:
  assumes "build_mcp_server ev tn allowed fn w0 = Inr s" "cleared (adapter_of s) c n v t"
  shows "\<exists>rqs. asked fn tn rqs w (snd (invoke t v c w)) \<and> length rqs \<le> 1 \<and> (''retrieval'' \<notin> set allowed \<longrightarrow> rqs = [])"
proof -
  let ?reg = "register_builtin_tools (env_pow ev) (env_ms ev) [] :: 'b registry"
  obtain trusted a where tr: "trusted = (if ''retrieval'' \<in> set allowed
        then Some \<lparr>ad_name = strip ''mcp_hybrid_retriever'', ad_retrieve = fn\<rparr> else None)"
    and a: "engine_mcp_adapter ev ?reg
        [(''financial_metrics'', FINANCIAL_METRICS_TOOL_SCHEMA), (''retrieval'', RETRIEVAL_TOOL_SCHEMA)] allowed
        (context_factory tn trusted) = Inr a"
    and s: "adapter_of s = a"
    using assms(1)
    by (auto simp: build_mcp_server_def Let_def try_then_Inr trusted_retrieval_adapter_def make_server_def
        split: if_splits)
  let ?mk = "make_local_tool ?reg (context_factory tn trusted) :: string \<times> obj \<Rightarrow> ('a, 'b) local_tool"
  have "tools a = [(''financial_metrics'', ?mk (''financial_metrics'', FINANCIAL_METRICS_TOOL_SCHEMA)),
      (''retrieval'', ?mk (''retrieval'', RETRIEVAL_TOOL_SCHEMA))]"
    using a register_two by (fastforce simp: engine_mcp_adapter_def try_then_Inr make_local_tool_def)
  moreover have "map_of (tools a) n = Some t" using assms(2) s by (simp add: cleared_def)
  ultimately have inv: "invoke t = engine_invoke ?reg (context_factory tn trusted) n"
    by (auto simp: make_local_tool_def split: if_splits)
  let ?ctx = "context_factory tn trusted v"
  consider "snd (invoke t v c w) = w"
    | rq ad where "scoped_request (tc_tenant ?ctx) rq" "tc_adapter ?ctx = Some ad"
        "snd (invoke t v c w) = snd (ad_retrieve ad rq w)"
    using engine_execute_world [of None "env_pow ev" "env_ms ev" ?ctx n w] by (auto simp: inv engine_invoke_world)
  then show ?thesis
  proof cases
    case 1
    then show ?thesis using asked_refl by (intro exI [of _ "[]"]) simp
  next
    case (2 rq ad)
    then have "''retrieval'' \<in> set allowed" "ad_retrieve ad = fn"
      by (auto simp: context_factory_def tr split: if_splits)
    then show ?thesis using 2 asked_one by (intro exI [of _ "[rq]"]) (simp add: context_factory_def)
  qed
qed

lemma handle_asks:
  assumes "build_mcp_server ev tn allowed fn w0 = Inr s0" "adapter_of s = adapter_of s0" "handle req c s = (resp, s')"
  shows "adapter_of s' = adapter_of s0 \<and>
    (\<exists>rqs. asked fn tn rqs (sworld s) (sworld s') \<and> (''retrieval'' \<notin> set allowed \<longrightarrow> rqs = []))"
proof -
  note h = handle_cases [OF assms(3)]
  from h consider "sworld s' = sworld s"
    | n v t where "cleared (adapter_of s0) c n v t" "sworld s' = snd (invoke t v c (sworld s))"
    using assms(2) by auto
  then show ?thesis
  proof cases
    case 1
    then show ?thesis using h assms(2) asked_refl by (metis (no_types))
  next
    case (2 n v t)
    then show ?thesis using h assms(2) built_tool_asks [OF assms(1) 2(1), of "sworld s"] by (metis (no_types))
  qed
qed

lemma serve_stdio_asks:
  assumes "build_mcp_server ev tn allowed fn w0 = Inr s0"
  shows "adapter_of s = adapter_of s0 \<Longrightarrow> serve_stdio c ls s = (outs, s') \<Longrightarrow>
    \<exists>rqs. asked fn tn rqs (sworld s) (sworld s') \<and> (''retrieval'' \<notin> set allowed \<longrightarrow> rqs = [])"
proof (induction ls arbitrary: s outs)
  case Nil
  then show ?case using asked_refl by fastforce
next
  case (Cons l ls)
  obtain o1 s1 where l: "serve_line c l s = (o1, s1)" by (cases "serve_line c l s")
  obtain o2 where ls: "serve_stdio c ls s1 = (o2, s')" using Cons.prems(2) l by (auto split: prod.splits)
  have "adapter_of s1 = adapter_of s0 \<and>
      (\<exists>rqs. asked fn tn rqs (sworld s) (sworld s1) \<and> (''retrieval'' \<notin> set allowed \<longrightarrow> rqs = []))"
  proof (cases l)
    case (Parsed req)
    then obtain resp where "handle req c s = (resp, s1)" using l by (auto split: prod.splits)
    then show ?thesis using handle_asks [OF assms Cons.prems(1)] by blast
  qed (use l Cons.prems(1) asked_refl in fastforce)+
  then obtain r1 where r1: "adapter_of s1 = adapter_of s0" "asked fn tn r1 (sworld s) (sworld s1)"
      "''retrieval'' \<notin> set allowed \<longrightarrow> r1 = []" by blast
  then obtain r2 where r2: "asked fn tn r2 (sworld s1) (sworld s')" "''retrieval'' \<notin> set allowed \<longrightarrow> r2 = []"
    using Cons.IH [OF r1(1) ls] by blast
  show ?case using asked_trans [OF r1(2) r2(1)] r1(3) r2(2) by (intro exI [of _ "r1 @ r2"]) simp
qed

lemma build_mcp_server_world: "build_mcp_server ev tn allowed fn w0 = Inr s \<Longrightarrow> sworld s = w0"
  by (auto simp: build_mcp_server_def Let_def try_then_Inr make_server_def split: if_splits)

lemma build_mcp_server_tenant: "build_mcp_server ev tn allowed fn w0 = Inr s \<Longrightarrow> allowed \<noteq> [] \<Longrightarrow> positive_tenant tn"
  by (auto simp: build_mcp_server_def Let_def split: if_splits)

text \<open>
  C26. A tenant's MCP server. However a client drives the server built for one tenant, over any lines on
  its standard input, whatever the tools do to the outside world is a sequence of requests
  to the trusted retriever, and each of these is for the operator's tenant, a positive
  number, with a non-empty query of at most 8000 characters and at most 20 results. When
  \<open>retrieval\<close> is not on the allowlist there are none.
\<close>

theorem mcp_requests_scoped:
  assumes "build_mcp_server ev tn allowed fn w0 = Inr s0" "serve_stdio c ls s0 = (outs, s')"
  shows "\<exists>rqs. sworld s' = fold (\<lambda>rq. snd \<circ> fn rq) rqs w0 \<and> (''retrieval'' \<notin> set allowed \<longrightarrow> rqs = []) \<and>
    (\<forall>rq \<in> set rqs. 0 < rq_tenant rq \<and> tn = JInt (rq_tenant rq) \<and> 1 \<le> rq_top_k rq \<and> rq_top_k rq \<le> 20 \<and>
       rq_query rq \<noteq> [] \<and> length (rq_query rq) \<le> 8000)"
proof -
  obtain rqs where rqs: "asked fn tn rqs w0 (sworld s')" "''retrieval'' \<notin> set allowed \<longrightarrow> rqs = []"
    using serve_stdio_asks [OF assms(1) refl assms(2)] build_mcp_server_world [OF assms(1)] by auto
  have "0 < rq_tenant rq" if "rq \<in> set rqs" for rq
  proof -
    have "positive_tenant tn" using that rqs(2) build_mcp_server_tenant [OF assms(1)] by force
    then show ?thesis using that rqs(1) by (auto simp: asked_def list_all_iff scoped_request_def positive_tenant_def)
  qed
  then show ?thesis using rqs by (intro exI [of _ rqs]) (auto simp: asked_def list_all_iff scoped_request_def)
qed

subsection \<open>Evidence of the hybrid retriever\<close>

record texts =
  lower :: "utext \<Rightarrow> utext"
  enc :: "utext \<Rightarrow> string"

text \<open>\<open>re.findall(r'\w+', t)\<close>\<close>

fun word_runs :: "unicode \<Rightarrow> utext \<Rightarrow> utext \<Rightarrow> utext list" where
  "word_runs u cur [] = (if cur = [] then [] else [cur])"
| "word_runs u cur (c # cs) =
     (if is_word u c then word_runs u (cur @ [c]) cs
      else if cur = [] then word_runs u [] cs else cur # word_runs u [] cs)"

text \<open>\<open>max(words, key=len)\<close> gives the first of the longest.\<close>

fun first_longest :: "utext \<Rightarrow> utext list \<Rightarrow> utext" where
  "first_longest best [] = best"
| "first_longest best (w # ws) = first_longest (if length best < length w then w else best) ws"

definition extract_keyword :: "unicode \<Rightarrow> texts \<Rightarrow> utext \<Rightarrow> utext" where
  "extract_keyword u tx q = (case filter (\<lambda>w. 3 < length w) (word_runs u [] (lower tx q)) of
      [] \<Rightarrow> lower tx q
    | w # ws \<Rightarrow> first_longest w ws)"

text \<open>\<open>re.split(r'(?<=[.!?])\s+', t)\<close>; \<open>cur\<close> is the piece under construction.\<close>

function split_after_marks :: "unicode \<Rightarrow> utext \<Rightarrow> utext \<Rightarrow> utext list" where
  "split_after_marks u cur [] = [cur]"
| "split_after_marks u cur (c # cs) =
     (if is_space u c \<and> cur \<noteq> [] \<and> last cur \<in> {46, 33, 63}
      then cur # split_after_marks u [] (dropWhile (is_space u) cs)
      else split_after_marks u (cur @ [c]) cs)"
  by pat_completeness auto
termination
  by (relation "measure (\<lambda>(u, cur, cs). length cs)") (auto simp: less_Suc_eq_le length_dropWhile_le)

fun first_hit :: "texts \<Rightarrow> utext \<Rightarrow> nat \<Rightarrow> utext list \<Rightarrow> nat option" where
  "first_hit tx k i [] = None"
| "first_hit tx k i (s # ss) = (if sublist k (lower tx s) then Some i else first_hit tx k (Suc i) ss)"

definition extract_local_context :: "unicode \<Rightarrow> texts \<Rightarrow> utext \<Rightarrow> utext \<Rightarrow> nat \<Rightarrow> utext" where
  "extract_local_context u tx chunk q window =
     (let ss = split_after_marks u [] chunk in
      case first_hit tx (extract_keyword u tx q) 0 ss of
        None \<Rightarrow> chunk
      | Some i \<Rightarrow> join_cp [SP] (take (min (length ss) (i + window + 1) - (i - window)) (drop (i - window) ss)))"

definition clamp01 :: "rat \<Rightarrow> rat" where
  "clamp01 x = min (max x 0) 1"

definition evidence_confidence :: "result \<Rightarrow> rat" where
  "evidence_confidence r = py_round 4 (clamp01 (case finite_number (meta_get r ''similarity_score'') of
      Some x \<Rightarrow> x
    | None \<Rightarrow> (case finite_number (meta_get r ''confidence'') of
        Some x \<Rightarrow> x
      | None \<Rightarrow> if meta_get r ''score_semantics'' = JStr ''distance'' then 1 / (1 + max (r_score r) 0) else r_score r)))"

definition evidence_fields :: "string list" where
  "evidence_fields = [''retrieval_strategy'', ''rrf_score'', ''vector_rank'', ''bm25_rank'', ''bm25_score'', ''page'', ''section'',
     ''ocr_used'', ''parser_version'', ''chunker_version'', ''embedding_model'', ''embedding_revision'', ''content_sha256'']"

record core_evidence =
  ce_content :: string
  ce_source :: json
  ce_company :: json
  ce_confidence :: pyfloat
  ce_metadata :: obj

definition copy_field :: "result \<Rightarrow> string \<Rightarrow> obj \<Rightarrow> obj" where
  "copy_field r k m = (if meta_get r k = JNull then m else AList.update k (meta_get r k) m)"

definition evidence_of_result :: "unicode \<Rightarrow> texts \<Rightarrow> retrieval_context \<Rightarrow> nat \<times> result \<Rightarrow> core_evidence" where
  "evidence_of_result u tx ctx = (\<lambda>(rank, r).
     \<lparr>ce_content = enc tx (extract_local_context u tx (r_content r) (question ctx) 2),
      ce_source = get_or (r_meta r) ''source'' (JStr []),
      ce_company = get_or (r_meta r) ''company'' (JStr (case ctx_company ctx of Some c \<Rightarrow> c | None \<Rightarrow> [])),
      ce_confidence = Fin (evidence_confidence r),
      ce_metadata = fold (copy_field r) evidence_fields
        [(''rank'', JInt (int rank)), (''chunk_id'', JStr (enc tx (r_chunk r))), (''document_id'', JStr (enc tx (r_doc r)))]\<rparr>)"

definition retrieve_evidence :: "unicode \<Rightarrow> texts \<Rightarrow> hybrid_config \<Rightarrow> 'e deps \<Rightarrow> 'e store \<Rightarrow> retrieval_context \<Rightarrow> core_evidence list" where
  "retrieve_evidence u tx c dep st ctx = map (evidence_of_result u tx ctx) (enumerate 1 (retrieve u c dep st ctx))"

subsection \<open>The retriever as a trusted adapter\<close>

definition runtime_context :: "request \<Rightarrow> retrieval_context" where
  "runtime_context rq =
     \<lparr>question = cps (rq_query rq), ctx_company = rq_company rq,
      document_ids = (if rq_document_ids rq = [] then None else Some (map cps (rq_document_ids rq))),
      top_k = rq_top_k rq, filters = rq_filters rq, tenant = rq_tenant rq, include_public = rq_include_public rq\<rparr>"

definition evidence_object :: "core_evidence \<Rightarrow> evidence_input" where
  "evidence_object e = EvObject [(''content'', JStr (ce_content e)), (''source'', ce_source e), (''company'', ce_company e),
     (''confidence'', JFloat (ce_confidence e)), (''metadata'', JObj (ce_metadata e))]"

definition runtime_retrieve :: "unicode \<Rightarrow> texts \<Rightarrow> hybrid_config \<Rightarrow> 'e deps \<Rightarrow> 'e store \<Rightarrow> request \<Rightarrow> adapter_answer" where
  "runtime_retrieve u tx c dep st rq = Records (map evidence_object (retrieve_evidence u tx c dep st (runtime_context rq)))"

text \<open>\<open>evidence_from_tool_output\<close>: what the runtime reads back from a tool result.\<close>

definition tool_error :: "string \<Rightarrow> exn" where
  "tool_error m = Exn ''RetrievalToolExecutionError'' m"

definition rehydrate_field :: "obj \<Rightarrow> string \<Rightarrow> obj \<Rightarrow> obj" where
  "rehydrate_field r k m = (if get_or r k JNull = JNull then m else AList.update k (get_or r k JNull) m)"

definition rehydrate :: "json \<Rightarrow> exn + core_evidence" where
  "rehydrate v = (case v of
      JObj r \<Rightarrow> (case (get_or r ''content'' JNull, get_or r ''source_filename'' JNull) of
          (JStr content, JStr source) \<Rightarrow>
            (let score = get_or r ''similarity_score'' JNull;
                 meta = (case get_or r ''metadata'' JNull of JObj m \<Rightarrow> m | _ \<Rightarrow> []);
                 company = get_or r ''company'' JNull
             in try_then (if numeric score then float_of score else Inr (Fin 0)) (\<lambda>conf.
                  Inr \<lparr>ce_content = content, ce_source = JStr source,
                     ce_company = (case company of JStr c \<Rightarrow> JStr c | _ \<Rightarrow> JStr []), ce_confidence = conf,
                     ce_metadata = fold (rehydrate_field r) [''document_id'', ''chunk_id'', ''page'', ''rank''] meta\<rparr>))
        | _ \<Rightarrow> Inl (tool_error ''retrieval tool returned incomplete evidence''))
    | _ \<Rightarrow> Inl (tool_error ''retrieval tool returned an invalid evidence record''))"

definition evidence_from_tool_output :: "json \<Rightarrow> exn + core_evidence list" where
  "evidence_from_tool_output v = (case v of
      JObj ob \<Rightarrow> (case get_or ob ''evidence'' JNull of
          JArr rs \<Rightarrow> try_map rehydrate rs
        | _ \<Rightarrow> Inl (tool_error ''retrieval tool output is missing evidence records''))
    | _ \<Rightarrow> Inl (tool_error ''retrieval tool returned a non-mapping output''))"

text \<open>\<open>TenantRetrievalToolExecutor.execute\<close>, over an engine without authorization hook.\<close>

definition tenant_execute :: "pow_fn \<Rightarrow> rat \<Rightarrow> (request \<Rightarrow> adapter_answer) \<Rightarrow> string \<Rightarrow> int \<Rightarrow> string option \<Rightarrow> string list
    \<Rightarrow> json \<Rightarrow> obj \<Rightarrow> bool \<Rightarrow> exn + core_evidence list" where
  "tenant_execute pow ms answer q tn co ids k fs pub =
     try_then (trusted_retrieval_adapter (\<lambda>rq w. (Inr (answer rq), w)) ''hybrid_retriever'') (\<lambda>a.
     try_then (fst (engine_execute None (register_builtin_tools pow ms [])
         \<lparr>tc_tenant = JInt tn,
          tc_parameters = [(''query'', JStr q), (''company'', opt_str co), (''document_ids'', JArr (map JStr ids)),
            (''top_k'', k), (''filters'', JObj fs), (''include_public'', JBool pub)],
          tc_adapter = Some a\<rparr>
         ''retrieval'' ())) (\<lambda>r.
       if tr_status r \<noteq> TS_SUCCESS
       then Inl (tool_error (''tenant-scoped retrieval tool failed: '' @
              (case tr_error r of Some e \<Rightarrow> (if e = [] then ''unknown error'' else e) | None \<Rightarrow> ''unknown error'')))
       else evidence_from_tool_output (tr_output r)))"

subsection \<open>From a request to the results and back\<close>

text \<open>The runtime's retriever, keeping a log of every result it has produced.\<close>

definition logged_retrieve :: "unicode \<Rightarrow> texts \<Rightarrow> hybrid_config \<Rightarrow> 'e deps \<Rightarrow> 'e store \<Rightarrow> request \<Rightarrow> result list
    \<Rightarrow> (exn + adapter_answer) \<times> result list" where
  "logged_retrieve u tx c dep st rq w = (Inr (runtime_retrieve u tx c dep st rq), w @ retrieve u c dep st (runtime_context rq))"

lemma logged_fold:
  "fold (\<lambda>rq. snd \<circ> logged_retrieve u tx c dep st rq) rqs w =
     w @ concat (map (\<lambda>rq. retrieve u c dep st (runtime_context rq)) rqs)"
  by (induction rqs arbitrary: w) (simp_all add: logged_retrieve_def)

text \<open>
  C11. Isolation from the client to the store. Wire the MCP server of a tenant to the hybrid retriever,
  over any vector store: whatever lines a client sends, every result that retrieval has
  produced is recorded under the operator's tenant or under the public tenant 0 (or under
  none); no argument of a tool call can widen this.
\<close>

theorem mcp_results_isolated:
  assumes "build_mcp_server ev tn allowed (logged_retrieve u tx c dep st) [] = Inr s0"
    and "serve_stdio ctx ls s0 = (outs, s')" "r \<in> set (sworld s')"
  shows "\<exists>t. tn = JInt t \<and> 0 \<le> t \<and> (in_scope t r \<or> in_scope 0 r)"
proof -
  obtain rqs where rqs: "asked (logged_retrieve u tx c dep st) tn rqs [] (sworld s')"
    using serve_stdio_asks [OF assms(1) refl assms(2)] build_mcp_server_world [OF assms(1)] by auto
  then obtain rq where rq: "rq \<in> set rqs" "r \<in> set (retrieve u c dep st (runtime_context rq))"
    using assms(3) by (auto simp: asked_def logged_fold)
  have "list_all (visible (runtime_context rq)) (retrieve u c dep st (runtime_context rq))"
    by (rule retrieve_visible)
  then have "\<exists>t \<in> set (tenant_scopes (runtime_context rq)). in_scope t r"
    using rq(2) by (simp add: list_all_iff visible_def)
  moreover have "tn = JInt (rq_tenant rq) \<and> 0 \<le> rq_tenant rq"
    using rqs rq(1) by (simp add: asked_def list_all_iff scoped_request_def)
  ultimately show ?thesis by (auto simp: tenant_scopes_def runtime_context_def)
qed

definition rehydrated :: "nat \<Rightarrow> evidence \<Rightarrow> core_evidence" where
  "rehydrated i e =
     \<lparr>ce_content = ev_content e, ce_source = JStr (ev_source e),
      ce_company = JStr (case ev_company e of Some c \<Rightarrow> c | None \<Rightarrow> []),
      ce_confidence = (case ev_score e of Some f \<Rightarrow> f | None \<Rightarrow> Fin 0),
      ce_metadata = fold (rehydrate_field (case as_dict i e of JObj r \<Rightarrow> r | _ \<Rightarrow> []))
        [''document_id'', ''chunk_id'', ''page'', ''rank''] (ev_metadata e)\<rparr>"

lemma rehydrate_as_dict: "rehydrate (as_dict i e) = Inr (rehydrated i e)"
  by (cases "ev_score e"; cases "ev_company e") (simp_all add: rehydrate_def rehydrated_def as_dict_def get_or_def Let_def)

lemma try_map_map: "(\<And>x. f (g x) = Inr (h x)) \<Longrightarrow> try_map f (map g xs) = Inr (map h xs)"
  by (induction xs) simp_all

lemma get_or_rehydrate_field:
  "get_or (rehydrate_field r k m) j d = (if j = k \<and> get_or r k JNull \<noteq> JNull then get_or r k JNull else get_or m j d)"
  by (simp add: rehydrate_field_def get_or_update)

lemma rehydrated_rank: "get_or (ce_metadata (rehydrated i e)) ''rank'' JNull = JInt (int i)"
  by (simp add: rehydrated_def get_or_rehydrate_field) (simp add: as_dict_def get_or_def)

lemma rehydrated_other:
  "k \<notin> {''document_id'', ''chunk_id'', ''page'', ''rank''} \<Longrightarrow>
   get_or (ce_metadata (rehydrated i e)) k d = get_or (ev_metadata e) k d"
  by (simp add: rehydrated_def get_or_rehydrate_field)

text \<open>
  Nothing is lost on the way through the tool. What the runtime reads back from a successful
  retrieval result is the evidence that went in, in the same order: content, source,
  company and score (0 when there was none) are unchanged, the rank is the position, and
  metadata other than the four fields taken from the record survives.
\<close>

theorem evidence_roundtrip:
  "\<exists>cs. evidence_from_tool_output (tr_output (retrieval_success ms name rq es)) = Inr cs \<and>
     list_all2 (\<lambda>(i, e) c. ce_content c = ev_content e \<and> ce_source c = JStr (ev_source e) \<and>
        ce_company c = JStr (case ev_company e of Some x \<Rightarrow> x | None \<Rightarrow> []) \<and>
        ce_confidence c = (case ev_score e of Some f \<Rightarrow> f | None \<Rightarrow> Fin 0) \<and>
        get_or (ce_metadata c) ''rank'' JNull = JInt (int i) \<and>
        get_or (ce_metadata c) ''source'' JNull = get_or (ev_metadata e) ''source'' JNull)
       (enumerate 1 es) cs"
proof -
  let ?f = "\<lambda>(i, e). rehydrated i e"
  have "evidence_from_tool_output (tr_output (retrieval_success ms name rq es)) = Inr (map ?f (enumerate 1 es))"
    by (simp add: evidence_from_tool_output_def retrieval_success_def get_or_def try_map_map rehydrate_as_dict split_def)
  moreover have "ce_content (rehydrated i e) = ev_content e \<and> ce_source (rehydrated i e) = JStr (ev_source e) \<and>
      ce_company (rehydrated i e) = JStr (case ev_company e of Some x \<Rightarrow> x | None \<Rightarrow> []) \<and>
      ce_confidence (rehydrated i e) = (case ev_score e of Some f \<Rightarrow> f | None \<Rightarrow> Fin 0)" for i e
    by (simp add: rehydrated_def)
  ultimately show ?thesis
    by (intro exI [of _ "map ?f (enumerate 1 es)"]) (simp add: list_all2_map2 list.rel_refl split_def rehydrated_rank rehydrated_other)
qed

definition demo_env :: env where
  "demo_env = \<lparr>env_dumps = (\<lambda>_. []), env_regex = (\<lambda>_ _. None), env_schema_text = (\<lambda>_. []), env_pow = no_pow,
     env_ms = 0, env_version = ''1''\<rparr>"

definition recording_fn :: "request \<Rightarrow> int list \<Rightarrow> (exn + adapter_answer) \<times> int list" where
  "recording_fn rq w = (Inr (Records []), w @ [rq_tenant rq])"

definition retrieval_call :: json where
  "retrieval_call = JObj [(''jsonrpc'', JStr ''2.0''), (''id'', JInt 3), (''method'', JStr ''tools/call''),
     (''params'', JObj [(''name'', JStr ''retrieval''), (''arguments'', JObj [(''query'', JStr ''revenue'')])])]"

lemma recorded_session:
  "(case build_mcp_server demo_env (JInt 7) [''retrieval''] recording_fn [] of
      Inl _ \<Rightarrow> False
    | Inr s0 \<Rightarrow> sworld (snd (serve_stdio () [Parsed init_request, Parsed ready_note, Parsed retrieval_call] s0)) = [7])"
  by code_simp

theorem mcp_requests_scoped_witness:
  "\<exists>s0 rqs. build_mcp_server demo_env (JInt 7) [''retrieval''] recording_fn [] = Inr s0 \<and>
     sworld (snd (serve_stdio () [Parsed init_request, Parsed ready_note, Parsed retrieval_call] s0)) = [7] \<and>
     fold (\<lambda>rq. snd \<circ> recording_fn rq) rqs [] = [7] \<and> list_all (\<lambda>rq. rq_tenant rq = 7) rqs"
proof -
  obtain s0 where s0: "build_mcp_server demo_env (JInt 7) [''retrieval''] recording_fn [] = Inr s0"
    and w: "sworld (snd (serve_stdio () [Parsed init_request, Parsed ready_note, Parsed retrieval_call] s0)) = [7]"
    using recorded_session by (auto split: sum.splits)
  show ?thesis
    using mcp_requests_scoped [OF s0 prod.collapse [symmetric],
        of "()" "[Parsed init_request, Parsed ready_note, Parsed retrieval_call]"] s0 w
    by (auto simp: list_all_iff)
qed

definition demo_store :: "unit store" where
  "demo_store = \<lparr>similarity_search = (\<lambda>_ _ t.
       [\<lparr>r_doc = [1], r_chunk = [1], r_score = 0, r_content = [97], r_meta = [(''tenant_id'', JInt t)]\<rparr>,
        \<lparr>r_doc = [2], r_chunk = [2], r_score = 0, r_content = [98], r_meta = [(''tenant_id'', JInt 8)]\<rparr>]),
     lexical_corpus = None\<rparr>"

definition demo_deps :: "unit deps" where
  "demo_deps = \<lparr>embed = (\<lambda>_. ()), enrich = (\<lambda>q _. q), bm25_scores = (\<lambda>_ _. [])\<rparr>"

definition demo_texts :: texts where
  "demo_texts = \<lparr>lower = (\<lambda>t. t), enc = (\<lambda>_. ''a'')\<rparr>"

definition vector_only :: hybrid_config where
  "vector_only = \<lparr>enabled_hybrid = False, vector_weight = 1, lexical_weight = 0, rrf_k = 60, candidate_multiplier = 4\<rparr>"

lemma logged_session:
  "(case build_mcp_server demo_env (JInt 7) [''retrieval''] (logged_retrieve ascii_db demo_texts vector_only demo_deps demo_store) [] of
      Inl _ \<Rightarrow> False
    | Inr s0 \<Rightarrow> map r_doc (sworld (snd (serve_stdio () [Parsed init_request, Parsed ready_note, Parsed retrieval_call] s0))) = [[1]])"
  by code_simp

theorem mcp_results_isolated_witness:
  "\<exists>s0 r. build_mcp_server demo_env (JInt 7) [''retrieval'']
       (logged_retrieve ascii_db demo_texts vector_only demo_deps demo_store) [] = Inr s0 \<and>
     sworld (snd (serve_stdio () [Parsed init_request, Parsed ready_note, Parsed retrieval_call] s0)) = [r] \<and>
     r_doc r = [1] \<and> (in_scope 7 r \<or> in_scope 0 r)"
proof -
  obtain s0 where s0: "build_mcp_server demo_env (JInt 7) [''retrieval'']
      (logged_retrieve ascii_db demo_texts vector_only demo_deps demo_store) [] = Inr s0"
    and w: "map r_doc (sworld (snd (serve_stdio () [Parsed init_request, Parsed ready_note, Parsed retrieval_call] s0))) = [[1]]"
    using logged_session by (auto split: sum.splits)
  obtain r where r: "sworld (snd (serve_stdio () [Parsed init_request, Parsed ready_note, Parsed retrieval_call] s0)) = [r]"
      "r_doc r = [1]" using w by auto
  show ?thesis
    using mcp_results_isolated [OF s0 prod.collapse [symmetric],
        of r "()" "[Parsed init_request, Parsed ready_note, Parsed retrieval_call]"] s0 r by auto
qed

subsection \<open>Citations of runtime evidence\<close>

lemma object_attributes:
  assumes "k \<in> set evidence_attributes"
  shows "get_or (map (\<lambda>k. (k, get_or attrs k JNull)) evidence_attributes) k d = get_or attrs k JNull"
proof -
  have "map_of (map (\<lambda>k. (k, f k)) ks) k = Some (f k)" if "k \<in> set ks" for f :: "string \<Rightarrow> json" and ks
    using that by (induction ks) auto
  then show ?thesis using assms by (simp add: get_or_def [of "map _ _"])
qed

lemma evidence_of_data_ids:
  assumes "evidence_of_data data = Inr e" "\<And>k d. k \<in> {''document_id'', ''chunk_id'', ''page''} \<Longrightarrow> get_or data k d = JNull"
  shows "ev_document e = None \<and> ev_chunk e = None \<and> ev_page e = JNull"
  using assms by (auto simp: evidence_of_data_def try_then_Inr Let_def optional_string_def split: if_splits)

lemma evidence_object_ids:
  assumes "evidence_from_value (evidence_object c) = Inr e"
  shows "ev_document e = None \<and> ev_chunk e = None \<and> ev_page e = JNull"
proof (rule evidence_of_data_ids)
  let ?attrs = "[(''content'', JStr (ce_content c)), (''source'', ce_source c), (''company'', ce_company c),
     (''confidence'', JFloat (ce_confidence c)), (''metadata'', JObj (ce_metadata c))]"
  show "evidence_of_data (map (\<lambda>k. (k, get_or ?attrs k JNull)) evidence_attributes) = Inr e"
    using assms by (simp add: evidence_object_def)
  show "get_or (map (\<lambda>k. (k, get_or ?attrs k JNull)) evidence_attributes) k d = JNull"
    if "k \<in> {''document_id'', ''chunk_id'', ''page''}" for k d
  proof -
    have "k \<in> set evidence_attributes" "get_or ?attrs k JNull = JNull"
      using that by (auto simp: evidence_attributes_def get_or_def)
    then show ?thesis using object_attributes [of k ?attrs d] by simp
  qed
qed

text \<open>
  Citations of the runtime's own evidence name no document. The contract means to fall back on the
  metadata for \<open>document_id\<close>, \<open>chunk_id\<close> and \<open>page\<close>, and the hybrid retriever puts the
  first two there for every result. But for an object without these attributes the data
  hold the keys with the value \<open>None\<close>, so the fallback is never reached: every evidence
  record that comes from the hybrid retriever has no document, no chunk and no page.
\<close>

theorem runtime_evidence_unlocated:
  assumes "normalise_evidence (runtime_retrieve u tx c dep st rq) = Inr es" "e \<in> set es"
  shows "ev_document e = None \<and> ev_chunk e = None \<and> ev_page e = JNull"
proof -
  have "list_all2 (\<lambda>x y. evidence_from_value x = Inr y)
      (map evidence_object (retrieve_evidence u tx c dep st (runtime_context rq))) es"
    using assms(1) by (simp add: runtime_retrieve_def try_map_Inr)
  then obtain x where "evidence_from_value (evidence_object x) = Inr e"
    using assms(2) by (auto simp: list_all2_conv_all_nth in_set_conv_nth)
  then show ?thesis by (rule evidence_object_ids)
qed

definition located_store :: "unit store" where
  "located_store = \<lparr>similarity_search = (\<lambda>_ _ t.
       [\<lparr>r_doc = [1], r_chunk = [2], r_score = 0, r_content = [97],
         r_meta = [(''tenant_id'', JInt t), (''source'', JStr ''a.pdf''), (''company'', JStr ''Apple''), (''page'', JInt 3)]\<rparr>]),
     lexical_corpus = None\<rparr>"

definition located_request :: request where
  "located_request = \<lparr>rq_query = ''revenue'', rq_tenant = 7, rq_top_k = 5, rq_company = None, rq_document_ids = [],
     rq_filters = [], rq_include_public = False\<rparr>"

lemma located_evidence:
  "(case normalise_evidence (runtime_retrieve ascii_db demo_texts vector_only demo_deps located_store located_request) of
      Inr [e] \<Rightarrow> get_or (ev_metadata e) ''document_id'' JNull = JStr ''a'' \<and> get_or (ev_metadata e) ''page'' JNull = JInt 3
    | _ \<Rightarrow> False)"
  by code_simp

theorem runtime_evidence_unlocated_witness:
  "\<exists>e. normalise_evidence (runtime_retrieve ascii_db demo_texts vector_only demo_deps located_store located_request) = Inr [e] \<and>
     get_or (ev_metadata e) ''document_id'' JNull = JStr ''a'' \<and> get_or (ev_metadata e) ''page'' JNull = JInt 3 \<and>
     ev_document e = None \<and> ev_page e = JNull"
proof -
  obtain e where e: "normalise_evidence (runtime_retrieve ascii_db demo_texts vector_only demo_deps located_store located_request) = Inr [e]"
    "get_or (ev_metadata e) ''document_id'' JNull = JStr ''a''" "get_or (ev_metadata e) ''page'' JNull = JInt 3"
    using located_evidence by (auto split: sum.splits list.splits)
  show ?thesis using runtime_evidence_unlocated [OF e(1), of e] e by auto
qed

end
