(* ===== verification/Billing_Quota.thy ===== *)
theory Billing_Quota
  imports Json
begin

text \<open>
  Plans, quotas, usage and cost: \<^verbatim>\<open>services/plan_service.py\<close>,
  \<^verbatim>\<open>services/usage_service.py\<close>, \<^verbatim>\<open>billing/plans.py\<close>, \<^verbatim>\<open>billing/service.py\<close>,
  \<^verbatim>\<open>billing/calculator.py\<close>, \<^verbatim>\<open>billing/dashboard.py\<close>, and the chat end points of
  \<^verbatim>\<open>api/routers/agent.py\<close> that check the quota and record the usage.

  The database is a record of tables; a commit that fails is an argument (\<open>ok\<close>). An
  instant is year, month, day and microsecond of the day in UTC, ordered lexicographically. An
  environment variable is \<open>None\<close> when it is not set. Prices are exact rationals.
\<close>

subsection \<open>Tables\<close>

type_synonym instant = "int \<times> int \<times> int \<times> nat"

record plan =
  p_name :: string
  p_slug :: string
  max_documents :: int
  max_chats_per_day :: int
  max_embeddings :: int
  p_price :: rat

record subscription =
  sub_tenant :: int
  sub_status :: string
  sub_plan :: "plan option"

record usage =
  u_tenant :: int
  u_user :: "int option"
  u_event :: string
  u_resource :: string
  u_quantity :: int
  u_meta :: obj
  u_created :: instant

record billing_record =
  b_tenant :: int
  b_user :: "int option"
  b_resource :: string
  b_quantity :: int
  b_unit_price :: rat
  b_amount :: rat
  b_currency :: string
  b_created :: instant

record billing_db =
  plans :: "plan list"
  subscriptions :: "subscription list"
  documents :: "int list"
  usages :: "usage list"
  billings :: "billing_record list"

subsection \<open>Switches of the environment\<close>

definition TRUE_VALUES :: "string list" where "TRUE_VALUES = [''1'', ''true'', ''yes'', ''on'']"
definition FALSE_VALUES :: "string list" where "FALSE_VALUES = [''0'', ''false'', ''no'', ''off'']"

definition chat_plan_limits_enabled :: "string option \<Rightarrow> bool" where
  "chat_plan_limits_enabled raw = (case raw of
      None \<Rightarrow> True
    | Some s \<Rightarrow> if normal s \<in> set TRUE_VALUES then True else if normal s \<in> set FALSE_VALUES then False else True)"

definition evaluation_bypass_enabled :: "string option \<Rightarrow> bool" where
  "evaluation_bypass_enabled raw \<longleftrightarrow> normal (case raw of None \<Rightarrow> ''false'' | Some s \<Rightarrow> s) \<in> set TRUE_VALUES"

definition evaluation_tenant_ids :: "string option \<Rightarrow> int list" where
  "evaluation_tenant_ids raw =
     List.map_filter (\<lambda>s. if strip s = [] then None else parse_int (strip s))
       (split_commas [] (case raw of None \<Rightarrow> [] | Some s \<Rightarrow> s))"

record environment =
  CHAT_PLAN_LIMITS_ENABLED :: "string option"
  EVALUATION_BYPASS_PLAN_LIMITS :: "string option"
  EVALUATION_BYPASS_TENANT_IDS :: "string option"

definition should_bypass_plan_limit :: "environment \<Rightarrow> int \<Rightarrow> string \<Rightarrow> bool" where
  "should_bypass_plan_limit env t cx \<longleftrightarrow>
     cx = ''evaluation'' \<and> evaluation_bypass_enabled (EVALUATION_BYPASS_PLAN_LIMITS env) \<and>
     t \<in> set (evaluation_tenant_ids (EVALUATION_BYPASS_TENANT_IDS env))"

subsection \<open>Plans and limits\<close>

definition DEFAULT_PLAN_SLUG :: string where "DEFAULT_PLAN_SLUG = ''free''"

definition active_subscription :: "billing_db \<Rightarrow> int \<Rightarrow> subscription option" where
  "active_subscription db t = find (\<lambda>s. sub_tenant s = t \<and> sub_status s = ''active'') (subscriptions db)"

definition get_default_plan :: "billing_db \<Rightarrow> plan option" where
  "get_default_plan db = find (\<lambda>p. p_slug p = DEFAULT_PLAN_SLUG) (plans db)"

definition fallback_plan :: plan where
  "fallback_plan = \<lparr>p_name = ''Fallback'', p_slug = ''fallback'', max_documents = 10, max_chats_per_day = 50,
     max_embeddings = 1000, p_price = 0\<rparr>"

definition subscribed_plan :: "billing_db \<Rightarrow> int \<Rightarrow> plan option" where
  "subscribed_plan db t = Option.bind (active_subscription db t) sub_plan"

definition get_tenant_plan :: "billing_db \<Rightarrow> int \<Rightarrow> plan" where
  "get_tenant_plan db t = (case subscribed_plan db t of
      Some p \<Rightarrow> p
    | None \<Rightarrow> (case get_default_plan db of Some p \<Rightarrow> p | None \<Rightarrow> fallback_plan))"

definition get_document_quota :: "billing_db \<Rightarrow> int \<Rightarrow> int \<times> int \<times> int" where
  "get_document_quota db t =
     (let limit = max_documents (get_tenant_plan db t); used = int (length (filter (\<lambda>d. d = t) (documents db)))
      in (used, limit, max 0 (limit - used)))"

definition day_start :: "instant \<Rightarrow> instant" where
  "day_start = (\<lambda>(y, m, d, s). (y, m, d, 0))"

definition month_start :: "instant \<Rightarrow> instant" where
  "month_start = (\<lambda>(y, m, d, s). (y, m, 1, 0))"

definition usage_count :: "billing_db \<Rightarrow> int \<Rightarrow> string \<Rightarrow> (instant \<Rightarrow> bool) \<Rightarrow> int" where
  "usage_count db t ev P = int (length (filter (\<lambda>u. u_tenant u = t \<and> u_event u = ev \<and> P (u_created u)) (usages db)))"

definition check_plan_limit :: "instant \<Rightarrow> billing_db \<Rightarrow> int \<Rightarrow> string \<Rightarrow> string \<Rightarrow> bool" where
  "check_plan_limit now db t ev ltype =
     (let p = get_tenant_plan db t in
      if ltype = ''documents'' then (case get_document_quota db t of (used, limit, _) \<Rightarrow> used < limit)
      else if ltype = ''chats'' then usage_count db t ev (\<lambda>c. day_start now \<le> c) < max_chats_per_day p
      else if ltype = ''embeddings'' then usage_count db t ev (\<lambda>_. True) < max_embeddings p
      else True)"

definition can_upload :: "instant \<Rightarrow> billing_db \<Rightarrow> int \<Rightarrow> bool" where
  "can_upload now db t = check_plan_limit now db t ''document_upload'' ''documents''"

definition can_chat :: "environment \<Rightarrow> instant \<Rightarrow> billing_db \<Rightarrow> int \<Rightarrow> bool" where
  "can_chat env now db t =
     (if \<not> chat_plan_limits_enabled (CHAT_PLAN_LIMITS_ENABLED env) then True
      else if should_bypass_plan_limit env t ''evaluation'' then True
      else check_plan_limit now db t ''chat_request'' ''chats'')"

definition add_plan_if_missing :: "plan \<Rightarrow> plan list \<Rightarrow> plan list" where
  "add_plan_if_missing p ps = (if find (\<lambda>q. p_slug q = p_slug p) ps = None then ps @ [p] else ps)"

definition initialize_default_plans :: "billing_db \<Rightarrow> billing_db" where
  "initialize_default_plans db = db\<lparr>plans := fold add_plan_if_missing
     [\<lparr>p_name = ''Free'', p_slug = ''free'', max_documents = 10, max_chats_per_day = 50, max_embeddings = 1000, p_price = 0\<rparr>,
      \<lparr>p_name = ''Pro'', p_slug = ''pro'', max_documents = 100, max_chats_per_day = 500, max_embeddings = 10000,
       p_price = 2999 / 100\<rparr>,
      \<lparr>p_name = ''Enterprise'', p_slug = ''enterprise'', max_documents = 1000, max_chats_per_day = 5000,
       max_embeddings = 100000, p_price = 9999 / 100\<rparr>] (plans db)\<rparr>"

subsection \<open>Monthly quotas\<close>

record plan_limits =
  agent_chats_per_month :: int
  max_tokens_per_request :: int
  l_max_documents :: int
  l_max_chats_per_day :: int
  l_max_embeddings :: int
  priority_support :: bool
  custom_tools :: bool

definition PLANS :: "(string \<times> plan_limits) list" where
  "PLANS =
     [(''free'', \<lparr>agent_chats_per_month = 50, max_tokens_per_request = 4096, l_max_documents = 10, l_max_chats_per_day = 50,
         l_max_embeddings = 1000, priority_support = False, custom_tools = False\<rparr>),
      (''pro'', \<lparr>agent_chats_per_month = 2000, max_tokens_per_request = 16384, l_max_documents = 100,
         l_max_chats_per_day = 500, l_max_embeddings = 10000, priority_support = True, custom_tools = False\<rparr>),
      (''enterprise'', \<lparr>agent_chats_per_month = -1, max_tokens_per_request = 32768, l_max_documents = 1000,
         l_max_chats_per_day = 5000, l_max_embeddings = 100000, priority_support = True, custom_tools = True\<rparr>)]"

definition get_plan_limits :: "string \<Rightarrow> plan_limits" where
  "get_plan_limits slug = (case map_of PLANS slug of Some l \<Rightarrow> l | None \<Rightarrow> the (map_of PLANS ''free''))"

definition is_enterprise :: "string \<Rightarrow> bool" where
  "is_enterprise slug \<longleftrightarrow> agent_chats_per_month (get_plan_limits slug) = -1"

definition get_tenant_plan_slug :: "billing_db \<Rightarrow> int \<Rightarrow> string" where
  "get_tenant_plan_slug db t = (case subscribed_plan db t of Some p \<Rightarrow> p_slug p | None \<Rightarrow> ''free'')"

definition check_agent_chat_quota :: "instant \<Rightarrow> billing_db \<Rightarrow> int \<Rightarrow> bool \<times> string" where
  "check_agent_chat_quota now db t =
     (let slug = get_tenant_plan_slug db t; l = agent_chats_per_month (get_plan_limits slug) in
      if is_enterprise slug then (True, [])
      else if usage_count db t ''chat_request'' (\<lambda>c. month_start now \<le> c) \<ge> l
      then (False, ''Monthly agent chat limit ('' @ str_int l @ '') exceeded'') else (True, []))"

definition check_document_quota :: "billing_db \<Rightarrow> int \<Rightarrow> bool \<times> string" where
  "check_document_quota db t = (case get_document_quota db t of (used, limit, _) \<Rightarrow>
     if used \<ge> limit then (False, ''Document upload limit ('' @ str_int limit @ '') exceeded'') else (True, []))"

definition check_quota :: "instant \<Rightarrow> billing_db \<Rightarrow> int \<Rightarrow> string \<Rightarrow> bool \<times> string" where
  "check_quota now db t resource =
     (if resource = ''agent_chat'' then check_agent_chat_quota now db t
      else if resource = ''document'' then check_document_quota db t
      else (True, []))"

subsection \<open>Usage and cost\<close>

text \<open>\<open>record_usage\<close>; \<open>ok\<close> tells whether the commit succeeds. A failure is logged and swallowed.\<close>

definition record_usage :: "bool \<Rightarrow> instant \<Rightarrow> int option \<Rightarrow> int option \<Rightarrow> string \<Rightarrow> string \<Rightarrow> int \<Rightarrow> obj \<Rightarrow> billing_db
    \<Rightarrow> (exn + usage option) \<times> billing_db" where
  "record_usage ok now t user ev res n meta db = (case t of
      None \<Rightarrow> (Inl (Exn ''ValueError'' ''tenant_id is required to record usage''), db)
    | Some t \<Rightarrow>
        (let u = \<lparr>u_tenant = t, u_user = user, u_event = ev, u_resource = res, u_quantity = n, u_meta = meta, u_created = now\<rparr>
         in if ok then (Inr (Some u), db\<lparr>usages := usages db @ [u]\<rparr>) else (Inr None, db)))"

record batch_event =
  be_tenant :: "int option"
  be_user :: "int option"
  be_event :: string
  be_resource :: string
  be_quantity :: int
  be_meta :: obj

text \<open>
  \<open>record_batch_usage\<close>: events without a tenant are skipped; the count is returned even when
  the final commit fails and everything is rolled back.
\<close>

definition record_batch_usage :: "bool \<Rightarrow> instant \<Rightarrow> batch_event list \<Rightarrow> billing_db \<Rightarrow> nat \<times> billing_db" where
  "record_batch_usage ok now es db =
     (let us = List.map_filter (\<lambda>e. map_option (\<lambda>t. \<lparr>u_tenant = t, u_user = be_user e, u_event = be_event e,
                 u_resource = be_resource e, u_quantity = be_quantity e, u_meta = be_meta e, u_created = now\<rparr>) (be_tenant e)) es
      in (length us, if ok then db\<lparr>usages := usages db @ us\<rparr> else db))"

text \<open>\<open>get_usage_summary\<close>: count and total per event type; groups in order of first occurrence.\<close>

definition usage_summary :: "billing_db \<Rightarrow> int \<Rightarrow> instant option \<Rightarrow> (string \<times> nat \<times> int) list" where
  "usage_summary db t since =
     (let us = filter (\<lambda>u. u_tenant u = t \<and> (case since of None \<Rightarrow> True | Some i \<Rightarrow> i \<le> u_created u)) (usages db)
      in map (\<lambda>ev. let g = filter (\<lambda>u. u_event u = ev) us in (ev, length g, sum_list (map u_quantity g)))
           (dedup_seen (\<lambda>e. e) [] (map u_event us)))"

record cost =
  c_input_tokens :: int
  c_output_tokens :: int
  c_total_tokens :: int
  c_input_cost :: rat
  c_output_cost :: rat
  c_tool_cost :: rat
  c_total_cost :: rat

definition calculate_cost :: "int option \<Rightarrow> int option \<Rightarrow> int option \<Rightarrow> int \<Rightarrow> cost" where
  "calculate_cost inp outp tot tool_calls =
     (let i = (case inp of Some x \<Rightarrow> x | None \<Rightarrow> 0); out = (case outp of Some x \<Rightarrow> x | None \<Rightarrow> 0);
          t0 = (case tot of Some x \<Rightarrow> x | None \<Rightarrow> i + out);
          t = (if t0 = 0 \<and> i + out > 0 then i + out else t0);
          ic = of_int i / 1000 * (15 / 10000); oc = of_int out / 1000 * (6 / 1000); tc = of_int tool_calls * (1 / 1000)
      in \<lparr>c_input_tokens = i, c_output_tokens = out, c_total_tokens = t, c_input_cost = py_round 6 ic,
          c_output_cost = py_round 6 oc, c_tool_cost = py_round 6 tc, c_total_cost = py_round 6 (ic + oc + tc)\<rparr>)"

subsection \<open>Chat end points\<close>

datatype http = Ok_200 | Err_429 string

text \<open>
  \<open>agent_chat\<close>: quota, run, record. \<open>run\<close> is the agent; \<open>ok\<close> is the commit of the usage
  record. \<open>create_agent_task\<close> checks the same quota but only queues the work.
\<close>

definition agent_chat :: "environment \<Rightarrow> instant \<Rightarrow> instant \<Rightarrow> bool \<Rightarrow> int \<Rightarrow> int \<Rightarrow> obj \<Rightarrow> billing_db \<Rightarrow> http \<times> billing_db" where
  "agent_chat env now done_at ok t user meta db =
     (if \<not> can_chat env now db t
      then (Err_429 ''Agent chat limit exceeded. Upgrade your plan for more agent interactions.'', db)
      else (Ok_200, snd (record_usage ok done_at (Some t) (Some user) ''chat_request'' ''chat'' 1 meta db)))"

definition create_agent_task_quota :: "environment \<Rightarrow> instant \<Rightarrow> int \<Rightarrow> billing_db \<Rightarrow> http \<times> billing_db" where
  "create_agent_task_quota env now t db =
     (if \<not> can_chat env now db t
      then (Err_429 ''Agent chat limit exceeded. Upgrade your plan for more agent interactions.'', db)
      else (Ok_200, db))"

subsection \<open>The daily limit\<close>

lemma day_start_le: "day_start c \<le> c"
  by (cases c) (simp add: day_start_def)

lemma day_start_mono: "a \<le> b \<Longrightarrow> day_start a \<le> day_start b"
  by (cases a; cases b) (auto simp: day_start_def)

lemma usage_count_mono: "(\<And>c. P c \<Longrightarrow> Q c) \<Longrightarrow> usage_count db t ev P \<le> usage_count db t ev Q"
proof -
  assume pq: "\<And>c. P c \<Longrightarrow> Q c"
  have "length (filter (\<lambda>u. u_tenant u = t \<and> u_event u = ev \<and> P (u_created u)) us)
      \<le> length (filter (\<lambda>u. u_tenant u = t \<and> u_event u = ev \<and> Q (u_created u)) us)" for us
    using pq by (induction us) auto
  then show ?thesis by (simp add: usage_count_def)
qed

lemma get_tenant_plan_usages [simp]: "get_tenant_plan (db\<lparr>usages := us\<rparr>) t = get_tenant_plan db t"
  by (simp add: get_tenant_plan_def subscribed_plan_def active_subscription_def get_default_plan_def cong: option.case_cong)

lemma record_usage_count:
  "usage_count (snd (record_usage ok at_time (Some t') user ev' res n meta db)) t ev P =
     usage_count db t ev P + (if ok \<and> t' = t \<and> ev' = ev \<and> P at_time then 1 else 0)"
  by (simp add: record_usage_def usage_count_def Let_def)

lemma record_usage_plan [simp]:
  "get_tenant_plan (snd (record_usage ok at_time t' user ev' res n meta db)) t = get_tenant_plan db t"
  by (simp add: record_usage_def Let_def split: option.splits)

text \<open>A chat request as the end point sees it: when it came and when it was done, who, and whether the record was written.\<close>

record chat_request =
  cr_now :: instant
  cr_done :: instant
  cr_ok :: bool
  cr_tenant :: int
  cr_user :: int
  cr_meta :: obj

definition serve_chat :: "environment \<Rightarrow> chat_request \<Rightarrow> billing_db \<Rightarrow> billing_db" where
  "serve_chat env r db = snd (agent_chat env (cr_now r) (cr_done r) (cr_ok r) (cr_tenant r) (cr_user r) (cr_meta r) db)"

definition metered :: "environment \<Rightarrow> int \<Rightarrow> bool" where
  "metered env t \<longleftrightarrow> chat_plan_limits_enabled (CHAT_PLAN_LIMITS_ENABLED env) \<and> \<not> should_bypass_plan_limit env t ''evaluation''"

definition chats_on :: "instant \<Rightarrow> billing_db \<Rightarrow> int \<Rightarrow> int" where
  "chats_on day db t = usage_count db t ''chat_request'' (\<lambda>c. day_start c = day)"

lemma serve_chat_plan [simp]: "get_tenant_plan (serve_chat env r db) t = get_tenant_plan db t"
  by (simp add: serve_chat_def agent_chat_def)

lemma serve_chat_limit:
  assumes "metered env t" "cr_now r \<le> cr_done r" "chats_on day db t \<le> max_chats_per_day (get_tenant_plan db t)"
  shows "chats_on day (serve_chat env r db) t \<le> max_chats_per_day (get_tenant_plan db t)"
proof (cases "can_chat env (cr_now r) db (cr_tenant r) \<and> cr_tenant r = t \<and> day_start (cr_done r) = day")
  case True
  have "day_start (cr_now r) \<le> c" if "day_start c = day" for c
    using that True day_start_mono [OF assms(2)] day_start_le [of c] by simp
  then have "chats_on day db t \<le> usage_count db t ''chat_request'' (\<lambda>c. day_start (cr_now r) \<le> c)"
    unfolding chats_on_def by (rule usage_count_mono)
  also have "\<dots> < max_chats_per_day (get_tenant_plan db t)"
    using True assms(1) by (auto simp: can_chat_def metered_def check_plan_limit_def)
  finally show ?thesis by (simp add: serve_chat_def agent_chat_def chats_on_def record_usage_count)
next
  case False
  then show ?thesis using assms(3) by (auto simp: serve_chat_def agent_chat_def chats_on_def record_usage_count)
qed

text \<open>
  C18. The daily chat limit. For a tenant whose limit is neither switched off nor bypassed, and any
  sequence of chat requests by any tenants, answered one after the other: on no day are
  more chats recorded for the tenant than its plan allows, also when a request that began
  on one day is finished on the next.
\<close>

theorem chat_quota_daily:
  assumes "metered env t" "list_all (\<lambda>r. cr_now r \<le> cr_done r) rs"
    and "chats_on day db t \<le> max_chats_per_day (get_tenant_plan db t)"
  shows "chats_on day (fold (serve_chat env) rs db) t \<le> max_chats_per_day (get_tenant_plan db t)"
  using assms
proof (induction rs arbitrary: db)
  case (Cons r rs)
  then show ?case using serve_chat_limit [of env t r day db] Cons.IH [of "serve_chat env r db"] by simp
qed simp

definition demo_db :: billing_db where
  "demo_db = \<lparr>plans = [], subscriptions = [\<lparr>sub_tenant = 7, sub_status = ''active'', sub_plan = Some (fallback_plan\<lparr>max_chats_per_day := 1\<rparr>)\<rparr>],
     documents = [], usages = [], billings = []\<rparr>"

definition strict_env :: environment where
  "strict_env = \<lparr>CHAT_PLAN_LIMITS_ENABLED = Some ''maybe'', EVALUATION_BYPASS_PLAN_LIMITS = None,
     EVALUATION_BYPASS_TENANT_IDS = Some ''7''\<rparr>"

definition two_chats :: "chat_request list" where
  "two_chats = replicate 2 \<lparr>cr_now = (2026, 7, 29, 5), cr_done = (2026, 7, 29, 9), cr_ok = True, cr_tenant = 7, cr_user = 1, cr_meta = []\<rparr>"

theorem chat_quota_daily_witness:
  "chats_on (2026, 7, 29, 0) (fold (serve_chat strict_env) two_chats demo_db) 7 = 1 \<and>
   chats_on (2026, 7, 29, 0) (fold (serve_chat strict_env) two_chats demo_db) 7 \<le> max_chats_per_day (get_tenant_plan demo_db 7)"
proof -
  have "metered strict_env 7" by code_simp
  moreover have "list_all (\<lambda>r. cr_now r \<le> cr_done r) two_chats" by code_simp
  moreover have "chats_on (2026, 7, 29, 0) demo_db 7 \<le> max_chats_per_day (get_tenant_plan demo_db 7)" by code_simp
  moreover have "chats_on (2026, 7, 29, 0) (fold (serve_chat strict_env) two_chats demo_db) 7 = 1" by code_simp
  ultimately show ?thesis using chat_quota_daily by blast
qed

subsection \<open>Switching limits off\<close>

text \<open>
  Limits fail closed. A chat beyond the daily limit of the plan is let through only if the operator
  set the switch to one of the four words for false, or turned the evaluation bypass on
  with one of the four words for true and listed this very tenant. Anything else, unset,
  misspelt or malformed, keeps the limit.
\<close>

theorem chat_limit_fails_closed:
  assumes "can_chat env now db t" "usage_count db t ''chat_request'' (\<lambda>c. day_start now \<le> c) \<ge> max_chats_per_day (get_tenant_plan db t)"
  shows "(\<exists>s. CHAT_PLAN_LIMITS_ENABLED env = Some s \<and> normal s \<in> {''0'', ''false'', ''no'', ''off''}) \<or>
    (\<exists>s ids. EVALUATION_BYPASS_PLAN_LIMITS env = Some s \<and> normal s \<in> {''1'', ''true'', ''yes'', ''on''} \<and>
       EVALUATION_BYPASS_TENANT_IDS env = Some ids \<and>
       (\<exists>x \<in> set (split_commas [] ids). parse_int (strip x) = Some t))"
proof (cases "chat_plan_limits_enabled (CHAT_PLAN_LIMITS_ENABLED env)")
  case False
  then show ?thesis by (auto simp: chat_plan_limits_enabled_def FALSE_VALUES_def split: option.splits if_splits)
next
  case True
  then have "should_bypass_plan_limit env t ''evaluation''"
    using assms by (auto simp: can_chat_def check_plan_limit_def split: if_splits)
  moreover have "normal ''false'' \<notin> set TRUE_VALUES" by code_simp
  moreover have "strip [] = []" by (simp add: strip_def)
  ultimately show ?thesis
    by (auto simp: should_bypass_plan_limit_def evaluation_bypass_enabled_def evaluation_tenant_ids_def TRUE_VALUES_def
        List.map_filter_def split: option.splits if_splits)
qed

definition evaluation_env :: environment where
  "evaluation_env = \<lparr>CHAT_PLAN_LIMITS_ENABLED = None, EVALUATION_BYPASS_PLAN_LIMITS = Some '' Yes '',
     EVALUATION_BYPASS_TENANT_IDS = Some ''3, x, 7''\<rparr>"

theorem chat_limit_fails_closed_witness:
  "can_chat evaluation_env (2026, 7, 29, 5) (fold (serve_chat strict_env) two_chats demo_db) 7 \<and>
   \<not> can_chat evaluation_env (2026, 7, 29, 5) (fold (serve_chat strict_env) two_chats (demo_db\<lparr>subscriptions := []\<rparr>
      \<lparr>plans := [fallback_plan\<lparr>p_slug := ''free'', max_chats_per_day := 0\<rparr>]\<rparr>)) 8 \<and>
   (\<exists>x \<in> set (split_commas [] ''3, x, 7''). parse_int (strip x) = Some 7)"
proof -
  let ?db = "fold (serve_chat strict_env) two_chats demo_db"
  have c: "can_chat evaluation_env (2026, 7, 29, 5) ?db 7" by code_simp
  have u: "usage_count ?db 7 ''chat_request'' (\<lambda>c. day_start (2026, 7, 29, 5) \<le> c) \<ge> max_chats_per_day (get_tenant_plan ?db 7)"
    by code_simp
  have n: "\<not> can_chat evaluation_env (2026, 7, 29, 5) (fold (serve_chat strict_env) two_chats (demo_db\<lparr>subscriptions := []\<rparr>
      \<lparr>plans := [fallback_plan\<lparr>p_slug := ''free'', max_chats_per_day := 0\<rparr>]\<rparr>)) 8"
    by code_simp
  show ?thesis using chat_limit_fails_closed [OF c u] c n by (simp add: evaluation_env_def)
qed

subsection \<open>Cost and summary\<close>

text \<open>
  Cost of a request. The total is within half a millionth of the exact price of tokens and tool
  calls, the three parts add up to the total within two millionths, nothing is negative
  when nothing is used negatively, and tokens that were used are never reported as zero.
\<close>

theorem cost_accurate:
  assumes "0 \<le> i" "0 \<le> out" "0 \<le> tools"
  shows "let c = calculate_cost (Some i) (Some out) tot tools;
       exact = of_int i * (15 / 10000000) + of_int out * (6 / 1000000) + of_int tools * (1 / 1000) in
     \<bar>c_total_cost c - exact\<bar> \<le> 1 / 2000000 \<and>
     \<bar>c_input_cost c + c_output_cost c + c_tool_cost c - c_total_cost c\<bar> \<le> 2 / 1000000 \<and>
     0 \<le> c_total_cost c \<and> (0 < i + out \<longrightarrow> c_total_tokens c \<noteq> 0)"
proof -
  have err: "\<bar>py_round 6 x - x\<bar> \<le> 1 / 2000000" for x using py_round_error [of 6 x] by simp
  have nonneg: "0 \<le> py_round 6 x" if "0 \<le> x" for x
    using that by (auto simp: py_round_def Let_def)
  let ?ic = "of_int i / 1000 * (15 / 10000) :: rat" and ?oc = "of_int out / 1000 * (6 / 1000) :: rat"
    and ?tc = "of_int tools * (1 / 1000) :: rat"
  have "\<bar>py_round 6 ?ic + py_round 6 ?oc + py_round 6 ?tc - py_round 6 (?ic + ?oc + ?tc)\<bar> \<le> 2 / 1000000"
    using err [of ?ic] err [of ?oc] err [of ?tc] err [of "?ic + ?oc + ?tc"] by linarith
  moreover have "0 \<le> py_round 6 (?ic + ?oc + ?tc)" using assms by (intro nonneg) simp
  moreover have "\<bar>py_round 6 (?ic + ?oc + ?tc) - (?ic + ?oc + ?tc)\<bar> \<le> 1 / 2000000" by (rule err)
  ultimately show ?thesis by (auto simp: calculate_cost_def Let_def split: option.splits)
qed

theorem cost_accurate_witness:
  "let c = calculate_cost (Some 1234) (Some 567) (Some 0) 2 in
     c_total_tokens c \<noteq> 0 \<and> \<bar>c_total_cost c - (1234 * (15 / 10000000) + 567 * (6 / 1000000) + 2 * (1 / 1000))\<bar> \<le> 1 / 2000000"
  using cost_accurate [of 1234 567 2 "Some 0"] by (simp add: Let_def)

lemma sum_one_key:
  fixes x :: "'m :: comm_monoid_add"
  shows "distinct ks \<Longrightarrow> k \<in> set ks \<Longrightarrow> sum_list (map (\<lambda>j. if k = j then x else 0) ks) = x"
proof (induction ks)
  case (Cons j ks)
  have "k \<notin> set ks \<Longrightarrow> sum_list (map (\<lambda>j. if k = j then x else 0) ks) = 0" by (induction ks) auto
  then show ?case using Cons by auto
qed simp

lemma sum_by_groups:
  fixes g :: "'a \<Rightarrow> 'm :: comm_monoid_add"
  assumes "distinct ks"
  shows "f ` set us \<subseteq> set ks \<Longrightarrow>
    sum_list (map (\<lambda>k. sum_list (map g (filter (\<lambda>u. f u = k) us))) ks) = sum_list (map g us)"
proof (induction us)
  case (Cons u us)
  have "map (\<lambda>k. sum_list (map g (filter (\<lambda>u. f u = k) (u # us)))) ks =
      map (\<lambda>k. (if f u = k then g u else 0) + sum_list (map g (filter (\<lambda>u. f u = k) us))) ks" (is "?l = ?r") by simp
  moreover have "sum_list ?r = g u + sum_list (map g us)"
    using Cons sum_one_key [OF assms, of "f u" "g u"] by (simp add: sum_list_addf)
  ultimately show ?case by (simp only: list.map sum_list.Cons)
qed simp

text \<open>
  The usage summary is complete: every event type of the tenant has exactly one line, and the counts
  and quantities of the lines add up to those of all the tenant's records in the period.
\<close>

theorem usage_summary_complete:
  "let us = filter (\<lambda>u. u_tenant u = t \<and> (case since of None \<Rightarrow> True | Some i \<Rightarrow> i \<le> u_created u)) (usages db);
       rows = usage_summary db t since in
     distinct (map fst rows) \<and> set (map fst rows) = u_event ` set us \<and>
     sum_list (map (\<lambda>(ev, n, q). n) rows) = length us \<and>
     sum_list (map (\<lambda>(ev, n, q). q) rows) = sum_list (map u_quantity us)"
proof -
  let ?us = "filter (\<lambda>u. u_tenant u = t \<and> (case since of None \<Rightarrow> True | Some i \<Rightarrow> i \<le> u_created u)) (usages db)"
  let ?ks = "dedup_seen (\<lambda>e. e) [] (map u_event ?us)"
  have ks: "distinct ?ks" "set ?ks = u_event ` set ?us"
    using dedup_loop.dedup_distinct [of "\<lambda>e. e" "map u_event ?us"] dedup_loop.dedup_keys [of "\<lambda>e. e" "map u_event ?us"]
    by simp_all
  have "sum_list (map (\<lambda>k. sum_list (map (\<lambda>_. 1 :: nat) (filter (\<lambda>u. u_event u = k) ?us))) ?ks) = sum_list (map (\<lambda>_. 1) ?us)"
    by (rule sum_by_groups) (use ks in auto)
  moreover have "sum_list (map (\<lambda>k. sum_list (map u_quantity (filter (\<lambda>u. u_event u = k) ?us))) ?ks) = sum_list (map u_quantity ?us)"
    by (rule sum_by_groups) (use ks in auto)
  moreover have "map fst (usage_summary db t since) = ?ks"
      "map (\<lambda>(ev, n, q). n) (usage_summary db t since) =
         map (\<lambda>k. sum_list (map (\<lambda>_. 1) (filter (\<lambda>u. u_event u = k) ?us))) ?ks"
      "map (\<lambda>(ev, n, q). q) (usage_summary db t since) =
         map (\<lambda>k. sum_list (map u_quantity (filter (\<lambda>u. u_event u = k) ?us))) ?ks"
    by (simp_all add: usage_summary_def Let_def comp_def sum_list_triv)
  ultimately show ?thesis using ks unfolding Let_def by (simp only: sum_list_triv) simp
qed

end
