(* ===== verification/Vector_Store.thy ===== *)
theory Vector_Store
  imports Hybrid_Retrieval
begin

text \<open>
  \<^verbatim>\<open>storage/chroma_store.py\<close>, \<^verbatim>\<open>storage/embedding_store.py\<close> and
  \<^verbatim>\<open>storage/vector_models.py\<close>: the vector store behind retrieval and indexing.

  The Chroma client is a package outside the repository. It is the record \<open>chroma\<close> of the
  calls the wrapper makes, over a state of type \<open>'c\<close>; \<open>chroma_ok\<close> says what the wrapper
  relies on when a call returns: the collections and the rows in them change as documented
  (\<open>upsert\<close> replaces rows by id, \<open>delete\<close> removes the rows that match, \<open>get\<close> and \<open>query\<close>
  give rows that match). Nothing is assumed of a call that raises. Ids and collection names
  are strings; \<open>strf\<close> is \<open>str()\<close> on the JSON values that are neither strings nor integers.
\<close>

subsection \<open>The client\<close>

record 'e row =
  row_id :: string
  row_content :: "utext option"
  row_embedding :: 'e
  row_meta :: "obj option"

text \<open>A \<open>where\<close> clause: a conjunction of equations on metadata.\<close>

type_synonym where_clause = obj

definition matches :: "where_clause \<Rightarrow> 'e row \<Rightarrow> bool" where
  "matches w r = list_all (\<lambda>(k, v). Option.bind (row_meta r) (\<lambda>m. map_of m k) = Some v) w"

record ('c, 'e) chroma =
  ch_list :: "'c \<Rightarrow> exn + string list"
  ch_get_or_create :: "string \<Rightarrow> 'c \<Rightarrow> (exn + unit) \<times> 'c"
  ch_drop :: "string \<Rightarrow> 'c \<Rightarrow> (exn + unit) \<times> 'c"
  ch_upsert :: "string \<Rightarrow> 'e row list \<Rightarrow> 'c \<Rightarrow> (exn + unit) \<times> 'c"
  ch_query :: "string \<Rightarrow> 'e \<Rightarrow> int \<Rightarrow> where_clause \<Rightarrow> 'c \<Rightarrow> exn + ('e row \<times> rat) list"
  ch_get :: "string \<Rightarrow> where_clause \<Rightarrow> 'c \<Rightarrow> exn + 'e row list"
  ch_delete :: "string \<Rightarrow> where_clause \<Rightarrow> 'c \<Rightarrow> (exn + unit) \<times> 'c"
  ch_count :: "string \<Rightarrow> 'c \<Rightarrow> exn + nat"

text \<open>Sequencing of calls that change the state and may raise.\<close>

fun each :: "('a \<Rightarrow> 'c \<Rightarrow> (exn + unit) \<times> 'c) \<Rightarrow> 'a list \<Rightarrow> 'c \<Rightarrow> (exn + unit) \<times> 'c" where
  "each f [] c = (Inr (), c)"
| "each f (x # xs) c = (case f x c of (Inl e, c1) \<Rightarrow> (Inl e, c1) | (Inr _, c1) \<Rightarrow> each f xs c1)"

text \<open>\<open>raise EmbeddingStoreError(f"{what}: {e}")\<close>.\<close>

fun store_error :: "string \<Rightarrow> exn + 'a \<Rightarrow> exn + 'a" where
  "store_error what (Inl e) = Inl (Exn ''EmbeddingStoreError'' (what @ '': '' @ exn_msg e))"
| "store_error what (Inr x) = Inr x"

definition wrapped :: "string \<Rightarrow> (exn + 'a) \<times> 'c \<Rightarrow> (exn + 'a) \<times> 'c" where
  "wrapped what p = (store_error what (fst p), snd p)"

subsection \<open>Documents\<close>

record 'e vector_document =
  vd_document_id :: string
  vd_chunk_id :: string
  vd_company :: string
  vd_content :: utext
  vd_embedding :: 'e
  vd_metadata :: obj

definition create_collection :: "('c, 'e) chroma \<Rightarrow> string \<Rightarrow> 'c \<Rightarrow> (exn + unit) \<times> 'c" where
  "create_collection ch n c = wrapped ''Create collection failed'' (ch_get_or_create ch n c)"

definition delete_collection :: "('c, 'e) chroma \<Rightarrow> string \<Rightarrow> 'c \<Rightarrow> (exn + unit) \<times> 'c" where
  "delete_collection ch n c = wrapped ''Delete collection failed'' (ch_drop ch n c)"

definition list_collections :: "('c, 'e) chroma \<Rightarrow> 'c \<Rightarrow> exn + string list" where
  "list_collections ch c = store_error ''List collections failed'' (ch_list ch c)"

definition text_value :: "(json \<Rightarrow> string) \<Rightarrow> json \<Rightarrow> string" where
  "text_value strf v = (case v of JStr s \<Rightarrow> s | JInt i \<Rightarrow> str_int i | _ \<Rightarrow> strf v)"

definition collection_of :: "(json \<Rightarrow> string) \<Rightarrow> 'e vector_document \<Rightarrow> string" where
  "collection_of strf d = text_value strf (get_or (vd_metadata d) ''collection'' (JStr ''default''))"

text \<open>\<open>documents_by_collection\<close>: a dictionary of lists, in the order of first use.\<close>

fun group_by_collection :: "(json \<Rightarrow> string) \<Rightarrow> (string \<times> 'e vector_document list) list \<Rightarrow> 'e vector_document list
    \<Rightarrow> (string \<times> 'e vector_document list) list" where
  "group_by_collection strf g [] = g"
| "group_by_collection strf g (d # ds) =
     (let n = collection_of strf d; old = (case map_of g n of None \<Rightarrow> [] | Some xs \<Rightarrow> xs)
      in group_by_collection strf (AList.update n (old @ [d]) g) ds)"

definition row_of :: "'e vector_document \<Rightarrow> 'e row" where
  "row_of d = \<lparr>row_id = vd_chunk_id d, row_content = Some (vd_content d), row_embedding = vd_embedding d,
     row_meta = Some (fold (\<lambda>(k, v). AList.update k v) (vd_metadata d)
       [(''document_id'', JStr (vd_document_id d)), (''company'', JStr (vd_company d))])\<rparr>"

definition add_group :: "('c, 'e) chroma \<Rightarrow> string \<times> 'e vector_document list \<Rightarrow> 'c \<Rightarrow> (exn + unit) \<times> 'c" where
  "add_group ch = (\<lambda>(n, ds) c. case ch_get_or_create ch n c of
      (Inl e, c1) \<Rightarrow> (Inl e, c1)
    | (Inr _, c1) \<Rightarrow> ch_upsert ch n (map row_of ds) c1)"

definition add_documents :: "('c, 'e) chroma \<Rightarrow> (json \<Rightarrow> string) \<Rightarrow> 'e vector_document list \<Rightarrow> 'c \<Rightarrow> (exn + unit) \<times> 'c" where
  "add_documents ch strf ds c = wrapped ''Add documents failed'' (each (add_group ch) (group_by_collection strf [] ds) c)"

subsection \<open>Queries\<close>

text \<open>\<open>xs[:k]\<close>.\<close>

definition py_take :: "int \<Rightarrow> 'a list \<Rightarrow> 'a list" where
  "py_take k xs = (if 0 \<le> k then take (nat k) xs else take (length xs - nat (- k)) xs)"

definition tenant_where :: "int option \<Rightarrow> where_clause" where
  "tenant_where t = (case t of None \<Rightarrow> [] | Some i \<Rightarrow> [(''tenant_id'', JInt i)])"

text \<open>
  \<open>dict(None)\<close> is a \<open>TypeError\<close> and a missing \<open>document_id\<close> a \<open>KeyError\<close>. A row without
  text has the content \<open>None\<close> in a search result; it is read as the empty text.
\<close>

definition search_result :: "(json \<Rightarrow> string) \<Rightarrow> 'e row \<times> rat \<Rightarrow> exn + result" where
  "search_result strf = (\<lambda>(r, dist). case row_meta r of
      None \<Rightarrow> Inl (Exn ''TypeError'' ([CHR 0x27] @ ''NoneType'' @ [CHR 0x27] @ '' object is not iterable''))
    | Some m \<Rightarrow>
        (let m' = AList.update ''score_semantics'' (JStr ''distance'') m in
         case map_of m' ''document_id'' of
           None \<Rightarrow> Inl (Exn ''KeyError'' (quoted ''document_id''))
         | Some d \<Rightarrow> Inr \<lparr>r_doc = cps (text_value strf d), r_chunk = cps (row_id r), r_score = dist,
             r_content = (case row_content r of None \<Rightarrow> [] | Some t \<Rightarrow> t), r_meta = m'\<rparr>))"

definition query_collection :: "('c, 'e) chroma \<Rightarrow> (json \<Rightarrow> string) \<Rightarrow> 'e \<Rightarrow> int \<Rightarrow> int option \<Rightarrow> 'c \<Rightarrow> string \<Rightarrow> exn + result list" where
  "query_collection ch strf q k t c n =
     try_then (ch_query ch n q k (tenant_where t) c) (try_map (search_result strf))"

definition chroma_similarity_search :: "('c, 'e) chroma \<Rightarrow> (json \<Rightarrow> string) \<Rightarrow> 'e \<Rightarrow> int \<Rightarrow> int option \<Rightarrow> 'c \<Rightarrow> exn + result list" where
  "chroma_similarity_search ch strf q k t c = store_error ''Search failed''
     (try_then (ch_list ch c) (\<lambda>ns. try_then (try_map (query_collection ch strf q k t c) ns)
        (\<lambda>rss. Inr (py_take k (sort_key r_score (concat rss))))))"

text \<open>\<open>bool(v)\<close>.\<close>

fun truthy :: "json \<Rightarrow> bool" where
  "truthy JNull = False"
| "truthy (JBool b) = b"
| "truthy (JInt i) = (i \<noteq> 0)"
| "truthy (JFloat f) = (f \<noteq> Fin 0)"
| "truthy (JStr s) = (s \<noteq> [])"
| "truthy (JArr xs) = (xs \<noteq> [])"
| "truthy (JObj ob) = (ob \<noteq> [])"

definition corpus_row :: "(json \<Rightarrow> string) \<Rightarrow> 'e row \<Rightarrow> result option" where
  "corpus_row strf r =
     (let m = (case row_meta r of None \<Rightarrow> [] | Some m \<Rightarrow> m);
          content = (case row_content r of None \<Rightarrow> [] | Some t \<Rightarrow> t);
          d = get_or m ''document_id'' JNull
      in if \<not> truthy d \<or> content = [] then None
         else Some \<lparr>r_doc = cps (text_value strf d), r_chunk = cps (row_id r), r_score = 0, r_content = content, r_meta = m\<rparr>)"

definition chroma_lexical_corpus :: "('c, 'e) chroma \<Rightarrow> (json \<Rightarrow> string) \<Rightarrow> int option \<Rightarrow> 'c \<Rightarrow> exn + result list" where
  "chroma_lexical_corpus ch strf t c = store_error ''Lexical corpus load failed''
     (try_then (ch_list ch c) (\<lambda>ns. try_then (try_map (\<lambda>n. ch_get ch n (tenant_where t) c) ns)
        (\<lambda>rss. Inr (sort_key (\<lambda>r. (r_doc r, r_chunk r)) (List.map_filter (corpus_row strf) (concat rss))))))"

subsection \<open>Deletion and counting\<close>

definition document_where :: "string \<Rightarrow> int \<Rightarrow> where_clause" where
  "document_where d t = [(''tenant_id'', JInt t), (''document_id'', JStr d)]"

definition delete_everywhere :: "('c, 'e) chroma \<Rightarrow> where_clause \<Rightarrow> 'c \<Rightarrow> (exn + unit) \<times> 'c" where
  "delete_everywhere ch w c = (case ch_list ch c of
      Inl e \<Rightarrow> (Inl e, c)
    | Inr ns \<Rightarrow> each (\<lambda>n. ch_delete ch n w) ns c)"

definition delete_document :: "('c, 'e) chroma \<Rightarrow> string \<Rightarrow> int \<Rightarrow> 'c \<Rightarrow> (exn + unit) \<times> 'c" where
  "delete_document ch d t c = wrapped ''Delete document failed'' (delete_everywhere ch (document_where d t) c)"

definition delete_by_tenant :: "('c, 'e) chroma \<Rightarrow> int \<Rightarrow> 'c \<Rightarrow> (exn + unit) \<times> 'c" where
  "delete_by_tenant ch t c = wrapped ''Delete tenant documents failed'' (delete_everywhere ch (tenant_where (Some t)) c)"

definition store_count :: "('c, 'e) chroma \<Rightarrow> 'c \<Rightarrow> exn + nat" where
  "store_count ch c = store_error ''Count failed''
     (try_then (ch_list ch c) (\<lambda>ns. try_then (try_map (\<lambda>n. ch_count ch n c) ns) (\<lambda>xs. Inr (sum_list xs))))"

subsection \<open>Opening the store\<close>

record store_env =
  CHROMA_HOST :: "string option"
  CHROMA_PORT :: "string option"
  CHROMA_SSL :: "string option"
  CHROMA_PATH :: "string option"
  APP_ENV :: "string option"

datatype store_mode = Http string int bool | Persistent string

definition env_or :: "string option \<Rightarrow> string \<Rightarrow> string" where
  "env_or v d = (case v of None \<Rightarrow> d | Some s \<Rightarrow> s)"

definition resolve_host :: "store_env \<Rightarrow> string option \<Rightarrow> string" where
  "resolve_host env explicit = (case explicit of Some h \<Rightarrow> strip h | None \<Rightarrow> strip (env_or (CHROMA_HOST env) []))"

definition resolve_port :: "store_env \<Rightarrow> int option \<Rightarrow> exn + int" where
  "resolve_port env explicit = (case explicit of
      Some p \<Rightarrow> Inr p
    | None \<Rightarrow> (case parse_int (strip (env_or (CHROMA_PORT env) ''8000'')) of
          None \<Rightarrow> Inl (Exn ''ValueError'' ''CHROMA_PORT must be an integer'')
        | Some p \<Rightarrow> if 1 \<le> p \<and> p \<le> 65535 then Inr p
            else Inl (Exn ''ValueError'' ''CHROMA_PORT must be between 1 and 65535'')))"

definition resolve_ssl :: "store_env \<Rightarrow> bool option \<Rightarrow> bool" where
  "resolve_ssl env explicit = (case explicit of
      Some b \<Rightarrow> b
    | None \<Rightarrow> normal (env_or (CHROMA_SSL env) ''false'') \<in> {''1'', ''true'', ''yes'', ''on''})"

definition ensure_local_mode_is_safe :: "store_env \<Rightarrow> exn + unit" where
  "ensure_local_mode_is_safe env =
     (if normal (env_or (APP_ENV env) []) \<in> {''production'', ''prod''}
      then Inl (Exn ''EmbeddingStoreError'' ''CHROMA_HOST must be set in production; PersistentClient is not supported in production mode'')
      else Inr ())"

text \<open>\<open>ChromaEmbeddingStore.__init__\<close> up to the call of the client's constructor. An empty directory is falsy.\<close>

definition open_store :: "store_env \<Rightarrow> string option \<Rightarrow> string option \<Rightarrow> int option \<Rightarrow> bool option \<Rightarrow> exn + store_mode" where
  "open_store env dir host port ssl = store_error ''Failed to init Chroma''
     (let h = resolve_host env host in
      if h \<noteq> [] then try_then (resolve_port env port) (\<lambda>p. Inr (Http h p (resolve_ssl env ssl)))
      else try_then (ensure_local_mode_is_safe env)
             (\<lambda>_. Inr (Persistent (case dir of
                 Some d \<Rightarrow> if d \<noteq> [] then d else env_or (CHROMA_PATH env) ''./chroma_db''
               | None \<Rightarrow> env_or (CHROMA_PATH env) ''./chroma_db''))))"

subsection \<open>What the client promises\<close>

text \<open>
  \<open>names\<close> and \<open>rows\<close> read the collections and their rows from the state. However they end,
  \<open>upsert\<close> and \<open>delete\<close> touch only the rows they address, and write only the rows they are
  given; when they return, all rows given are there and all rows addressed are gone. \<open>get\<close>
  gives the matching rows and \<open>query\<close> some of them.
\<close>

definition collections_ok :: "('c, 'e) chroma \<Rightarrow> ('c \<Rightarrow> string set) \<Rightarrow> ('c \<Rightarrow> (string \<times> 'e row) set) \<Rightarrow> bool" where
  "collections_ok ch names rows \<longleftrightarrow>
     (\<forall>c ns. ch_list ch c = Inr ns \<longrightarrow> set ns = names c) \<and> (\<forall>c. fst ` rows c \<subseteq> names c) \<and>
     (\<forall>n c v c'. ch_get_or_create ch n c = (v, c') \<longrightarrow> rows c' = rows c)"

definition delete_ok :: "('c, 'e) chroma \<Rightarrow> ('c \<Rightarrow> (string \<times> 'e row) set) \<Rightarrow> bool" where
  "delete_ok ch rows \<longleftrightarrow> (\<forall>n w c v c'. ch_delete ch n w c = (v, c') \<longrightarrow>
     rows c' \<subseteq> rows c \<and> {(m, r). (m, r) \<in> rows c \<and> (m \<noteq> n \<or> \<not> matches w r)} \<subseteq> rows c' \<and>
     (v = Inr () \<longrightarrow> (\<forall>r. (n, r) \<in> rows c' \<longrightarrow> \<not> matches w r)))"

definition upsert_ok :: "('c, 'e) chroma \<Rightarrow> ('c \<Rightarrow> (string \<times> 'e row) set) \<Rightarrow> bool" where
  "upsert_ok ch rows \<longleftrightarrow> (\<forall>n rs c v c'. ch_upsert ch n rs c = (v, c') \<longrightarrow>
     rows c' \<subseteq> rows c \<union> Pair n ` set rs \<and>
     {(m, r). (m, r) \<in> rows c \<and> (m \<noteq> n \<or> row_id r \<notin> row_id ` set rs)} \<subseteq> rows c' \<and>
     (v = Inr () \<longrightarrow> distinct (map row_id rs) \<longrightarrow> Pair n ` set rs \<subseteq> rows c'))"

definition reads_ok :: "('c, 'e) chroma \<Rightarrow> ('c \<Rightarrow> (string \<times> 'e row) set) \<Rightarrow> bool" where
  "reads_ok ch rows \<longleftrightarrow>
     (\<forall>n w c rs. ch_get ch n w c = Inr rs \<longrightarrow> set rs = {r. (n, r) \<in> rows c \<and> matches w r}) \<and>
     (\<forall>n q k w c ps. ch_query ch n q k w c = Inr ps \<longrightarrow> fst ` set ps \<subseteq> {r. (n, r) \<in> rows c \<and> matches w r})"

definition chroma_ok :: "('c, 'e) chroma \<Rightarrow> ('c \<Rightarrow> string set) \<Rightarrow> ('c \<Rightarrow> (string \<times> 'e row) set) \<Rightarrow> bool" where
  "chroma_ok ch names rows \<longleftrightarrow> collections_ok ch names rows \<and> delete_ok ch rows \<and> upsert_ok ch rows \<and> reads_ok ch rows"

lemma chroma_collections:
  assumes "chroma_ok ch names rows"
  shows "ch_list ch c = Inr ns \<Longrightarrow> set ns = names c" "fst ` rows c \<subseteq> names c"
    and "ch_get_or_create ch n c = (v, c') \<Longrightarrow> rows c' = rows c"
  using assms by (simp_all add: chroma_ok_def collections_ok_def)

lemma chroma_delete:
  assumes "chroma_ok ch names rows" "ch_delete ch n w c = (v, c')"
  shows "rows c' \<subseteq> rows c" "{(m, r). (m, r) \<in> rows c \<and> (m \<noteq> n \<or> \<not> matches w r)} \<subseteq> rows c'"
    and "v = Inr () \<Longrightarrow> (n, r) \<in> rows c' \<Longrightarrow> \<not> matches w r"
proof -
  have d: "delete_ok ch rows" using assms(1) by (simp add: chroma_ok_def)
  note d [unfolded delete_ok_def, rule_format, OF assms(2)]
  then show "rows c' \<subseteq> rows c" "{(m, r). (m, r) \<in> rows c \<and> (m \<noteq> n \<or> \<not> matches w r)} \<subseteq> rows c'"
    "v = Inr () \<Longrightarrow> (n, r) \<in> rows c' \<Longrightarrow> \<not> matches w r" by simp_all
qed

lemma chroma_upsert:
  assumes "chroma_ok ch names rows" "ch_upsert ch n rs c = (v, c')"
  shows "rows c' \<subseteq> rows c \<union> Pair n ` set rs"
    and "{(m, r). (m, r) \<in> rows c \<and> (m \<noteq> n \<or> row_id r \<notin> row_id ` set rs)} \<subseteq> rows c'"
    and "v = Inr () \<Longrightarrow> distinct (map row_id rs) \<Longrightarrow> Pair n ` set rs \<subseteq> rows c'"
proof -
  have d: "upsert_ok ch rows" using assms(1) by (simp add: chroma_ok_def)
  note d [unfolded upsert_ok_def, rule_format, OF assms(2)]
  then show "rows c' \<subseteq> rows c \<union> Pair n ` set rs"
    "{(m, r). (m, r) \<in> rows c \<and> (m \<noteq> n \<or> row_id r \<notin> row_id ` set rs)} \<subseteq> rows c'"
    "v = Inr () \<Longrightarrow> distinct (map row_id rs) \<Longrightarrow> Pair n ` set rs \<subseteq> rows c'" by simp_all
qed

lemma chroma_reads:
  assumes "chroma_ok ch names rows"
  shows "ch_get ch n w c = Inr rs \<Longrightarrow> set rs = {r. (n, r) \<in> rows c \<and> matches w r}"
    and "ch_query ch n q k w c = Inr ps \<Longrightarrow> fst ` set ps \<subseteq> {r. (n, r) \<in> rows c \<and> matches w r}"
  using assms by (simp_all add: chroma_ok_def reads_ok_def)

lemma store_error_Inr [simp]: "store_error w r = Inr x \<longleftrightarrow> r = Inr x"
  by (cases r) auto

lemma wrapped_Inr [simp]: "wrapped w p = (Inr x, c) \<longleftrightarrow> p = (Inr x, c)"
  by (cases p) (auto simp: wrapped_def)

lemma snd_wrapped [simp]: "snd (wrapped w p) = snd p"
  by (simp add: wrapped_def)

lemma each_rule:
  assumes "\<And>x c v c'. x \<in> set xs \<Longrightarrow> P c \<Longrightarrow> f x c = (v, c') \<Longrightarrow> P c'" "P c" "each f xs c = (v, c')"
  shows "P c'"
  using assms
proof (induction xs arbitrary: c)
  case (Cons x xs)
  obtain v1 c1 where f: "f x c = (v1, c1)" by fastforce
  with Cons.prems have "P c1" by auto
  show ?case
  proof (cases v1)
    case (Inl e) with f Cons.prems(3) \<open>P c1\<close> show ?thesis by simp
  next
    case (Inr u)
    then have "each f xs c1 = (v, c')" using f Cons.prems(3) by simp
    with Cons.IH [of c1] Cons.prems(1) \<open>P c1\<close> show ?thesis by (metis list.set_intros(2))
  qed
qed simp

lemma delete_loop:
  assumes "chroma_ok ch names rows" "each (\<lambda>n. ch_delete ch n w) ns c = (v, c')"
  shows "rows c' \<subseteq> rows c" "{(m, r). (m, r) \<in> rows c \<and> \<not> matches w r} \<subseteq> rows c'"
    and "v = Inr () \<Longrightarrow> m \<in> set ns \<Longrightarrow> (m, r) \<in> rows c' \<Longrightarrow> \<not> matches w r"
proof -
  let ?P = "\<lambda>d. rows d \<subseteq> rows c \<and> {(m, r). (m, r) \<in> rows c \<and> \<not> matches w r} \<subseteq> rows d"
  have "?P c'"
  proof (rule each_rule [where P = ?P, OF _ _ assms(2)])
    show "?P d'" if "?P d" "ch_delete ch n w d = (u, d')" for n d u d'
      using that(1) chroma_delete(1,2) [OF assms(1) that(2)] by fast
  qed auto
  then show "rows c' \<subseteq> rows c" "{(m, r). (m, r) \<in> rows c \<and> \<not> matches w r} \<subseteq> rows c'" by auto
  show "\<not> matches w r" if "v = Inr ()" "m \<in> set ns" "(m, r) \<in> rows c'"
    using that assms(2)
  proof (induction ns arbitrary: c)
    case (Cons n ns)
    from Cons.prems(1,4) obtain c1 where c1: "ch_delete ch n w c = (Inr (), c1)" "each (\<lambda>n. ch_delete ch n w) ns c1 = (v, c')"
      by (auto split: prod.splits sum.splits)
    have "rows c' \<subseteq> rows c1"
    proof (rule each_rule [where P = "\<lambda>d. rows d \<subseteq> rows c1", OF _ _ c1(2)])
      show "rows d' \<subseteq> rows c1" if "rows d \<subseteq> rows c1" "ch_delete ch n w d = (u, d')" for n d u d'
        using that(1) chroma_delete(1) [OF assms(1) that(2)] by fast
    qed simp
    then show ?case
      using Cons.IH [OF Cons.prems(1) _ Cons.prems(3) c1(2)] Cons.prems(2,3) chroma_delete(3) [OF assms(1) c1(1), of r] by auto
  qed simp
qed

lemma delete_everywhere_rows:
  assumes "chroma_ok ch names rows" "delete_everywhere ch w c = (v, c')"
  shows "rows c' \<subseteq> rows c" "{(m, r). (m, r) \<in> rows c \<and> \<not> matches w r} \<subseteq> rows c'"
proof -
  have "rows c' \<subseteq> rows c \<and> {(m, r). (m, r) \<in> rows c \<and> \<not> matches w r} \<subseteq> rows c'"
  proof (cases "ch_list ch c")
    case (Inl e) with assms(2) show ?thesis by (auto simp: delete_everywhere_def)
  next
    case (Inr ns)
    with assms(2) delete_loop(1,2) [OF assms(1), of w ns c v c'] show ?thesis by (simp add: delete_everywhere_def)
  qed
  then show "rows c' \<subseteq> rows c" "{(m, r). (m, r) \<in> rows c \<and> \<not> matches w r} \<subseteq> rows c'" by simp_all
qed

lemma delete_everywhere_exact:
  assumes "chroma_ok ch names rows" "delete_everywhere ch w c = (Inr (), c')"
  shows "rows c' = {(m, r). (m, r) \<in> rows c \<and> \<not> matches w r}"
proof -
  from assms(2) obtain ns where ns: "ch_list ch c = Inr ns" "each (\<lambda>n. ch_delete ch n w) ns c = (Inr (), c')"
    by (cases "ch_list ch c") (simp_all add: delete_everywhere_def)
  note foot = delete_everywhere_rows [OF assms]
  have "\<not> matches w r" if "(m, r) \<in> rows c'" for m r
  proof -
    have "m \<in> set ns"
      using that foot(1) chroma_collections(1) [OF assms(1) ns(1)] chroma_collections(2) [OF assms(1), of c] by fastforce
    then show ?thesis using delete_loop(3) [OF assms(1) ns(2)] that by blast
  qed
  with foot show ?thesis by blast
qed

subsection \<open>Adding documents\<close>

definition list_at :: "(string \<times> 'a list) list \<Rightarrow> string \<Rightarrow> 'a list" where
  "list_at g n = (case map_of g n of None \<Rightarrow> [] | Some xs \<Rightarrow> xs)"

lemma list_at_group:
  "list_at (group_by_collection strf g ds) n = list_at g n @ filter (\<lambda>d. collection_of strf d = n) ds"
  by (induction ds arbitrary: g) (auto simp: list_at_def Let_def update_conv' split: option.splits)

lemma group_distinct: "distinct (map fst g) \<Longrightarrow> distinct (map fst (group_by_collection strf g ds))"
  by (induction ds arbitrary: g) (simp_all add: Let_def distinct_update)

lemma group_entries:
  assumes "(n, xs) \<in> set (group_by_collection strf [] ds)"
  shows "xs = filter (\<lambda>d. collection_of strf d = n) ds"
proof -
  have "map_of (group_by_collection strf [] ds) n = Some xs"
    by (rule map_of_is_SomeI) (simp_all add: group_distinct assms)
  then show ?thesis using list_at_group [of strf "[]" ds n] by (simp add: list_at_def)
qed

lemma group_complete:
  assumes "d \<in> set ds"
  shows "\<exists>xs. (collection_of strf d, xs) \<in> set (group_by_collection strf [] ds) \<and> d \<in> set xs"
proof -
  let ?g = "group_by_collection strf [] ds" and ?n = "collection_of strf d"
  have "d \<in> set (list_at ?g ?n)" using assms list_at_group [of strf "[]" ds ?n] by simp
  then obtain xs where "map_of ?g ?n = Some xs" "d \<in> set xs"
    by (cases "map_of ?g ?n") (simp_all add: list_at_def)
  then show ?thesis by (blast dest: map_of_SomeD)
qed

definition new_rows :: "(json \<Rightarrow> string) \<Rightarrow> 'e vector_document list \<Rightarrow> (string \<times> 'e row) set" where
  "new_rows strf ds = (\<lambda>d. (collection_of strf d, row_of d)) ` set ds"

definition group_rows :: "(string \<times> 'e vector_document list) list \<Rightarrow> (string \<times> 'e row) set" where
  "group_rows g = (\<Union>(n, xs) \<in> set g. Pair n ` row_of ` set xs)"

lemma group_rows_group: "group_rows (group_by_collection strf [] ds) = new_rows strf ds"
proof (rule set_eqI, rule iffI)
  fix x assume "x \<in> group_rows (group_by_collection strf [] ds)"
  then show "x \<in> new_rows strf ds" by (auto simp: group_rows_def new_rows_def dest: group_entries)
next
  fix x assume "x \<in> new_rows strf ds"
  then obtain d where d: "d \<in> set ds" "x = (collection_of strf d, row_of d)" by (auto simp: new_rows_def)
  with group_complete [OF d(1), of strf] show "x \<in> group_rows (group_by_collection strf [] ds)"
    by (force simp: group_rows_def)
qed

lemma add_group_rows:
  assumes "chroma_ok ch names rows" "add_group ch (n, xs) c = (v, c')"
  shows "rows c' \<subseteq> rows c \<union> Pair n ` row_of ` set xs"
    and "{(m, r). (m, r) \<in> rows c \<and> (m \<noteq> n \<or> row_id r \<notin> vd_chunk_id ` set xs)} \<subseteq> rows c'"
    and "v = Inr () \<Longrightarrow> distinct (map vd_chunk_id xs) \<Longrightarrow> Pair n ` row_of ` set xs \<subseteq> rows c'"
proof -
  obtain u c1 where c1: "ch_get_or_create ch n c = (u, c1)" by fastforce
  have r1: "rows c1 = rows c" by (rule chroma_collections(3) [OF assms(1) c1])
  have ids: "row_id ` row_of ` set xs = vd_chunk_id ` set xs" "map row_id (map row_of xs) = map vd_chunk_id xs"
    by (simp_all add: row_of_def image_image)
  have "rows c' \<subseteq> rows c \<union> Pair n ` row_of ` set xs \<and>
    {(m, r). (m, r) \<in> rows c \<and> (m \<noteq> n \<or> row_id r \<notin> vd_chunk_id ` set xs)} \<subseteq> rows c' \<and>
    (v = Inr () \<longrightarrow> distinct (map vd_chunk_id xs) \<longrightarrow> Pair n ` row_of ` set xs \<subseteq> rows c')"
  proof (cases u)
    case (Inl e)
    with c1 assms(2) have "c' = c1" "v = Inl e" by (simp_all add: add_group_def)
    then show ?thesis by (auto simp: r1)
  next
    case (Inr w)
    with c1 assms(2) have up: "ch_upsert ch n (map row_of xs) c1 = (v, c')" by (simp add: add_group_def)
    show ?thesis using chroma_upsert [OF assms(1) up] by (simp only: r1 ids set_map) simp
  qed
  then show "rows c' \<subseteq> rows c \<union> Pair n ` row_of ` set xs"
    "{(m, r). (m, r) \<in> rows c \<and> (m \<noteq> n \<or> row_id r \<notin> vd_chunk_id ` set xs)} \<subseteq> rows c'"
    "v = Inr () \<Longrightarrow> distinct (map vd_chunk_id xs) \<Longrightarrow> Pair n ` row_of ` set xs \<subseteq> rows c'" by simp_all
qed

lemma add_groups_rows:
  assumes "chroma_ok ch names rows" "each (add_group ch) g c = (v, c')"
  shows "rows c' \<subseteq> rows c \<union> group_rows g"
    and "{(m, r). (m, r) \<in> rows c \<and> (\<forall>xs. (m, xs) \<in> set g \<longrightarrow> row_id r \<notin> vd_chunk_id ` set xs)} \<subseteq> rows c'"
proof -
  let ?P = "\<lambda>d. rows d \<subseteq> rows c \<union> group_rows g \<and>
    {(m, r). (m, r) \<in> rows c \<and> (\<forall>xs. (m, xs) \<in> set g \<longrightarrow> row_id r \<notin> vd_chunk_id ` set xs)} \<subseteq> rows d"
  have "?P c'"
  proof (rule each_rule [where P = ?P, OF _ _ assms(2)])
    fix x d u d' assume x: "x \<in> set g" and d: "?P d" and step: "add_group ch x d = (u, d')"
    obtain n xs where nx: "x = (n, xs)" by fastforce
    note r = add_group_rows(1,2) [OF assms(1) step [unfolded nx]]
    have "Pair n ` row_of ` set xs \<subseteq> group_rows g" using x nx by (auto simp: group_rows_def)
    with d r(1) have "rows d' \<subseteq> rows c \<union> group_rows g" by blast
    moreover have "p \<in> rows d'"
      if "p \<in> {(m, r). (m, r) \<in> rows c \<and> (\<forall>xs. (m, xs) \<in> set g \<longrightarrow> row_id r \<notin> vd_chunk_id ` set xs)}" for p
    proof -
      have "p \<in> rows d" using d that by blast
      moreover have "fst p \<noteq> n \<or> row_id (snd p) \<notin> vd_chunk_id ` set xs" using that x nx by auto
      ultimately show ?thesis using r(2) by (cases p) auto
    qed
    ultimately show "?P d'" by blast
  qed auto
  then show "rows c' \<subseteq> rows c \<union> group_rows g"
    "{(m, r). (m, r) \<in> rows c \<and> (\<forall>xs. (m, xs) \<in> set g \<longrightarrow> row_id r \<notin> vd_chunk_id ` set xs)} \<subseteq> rows c'" by simp_all
qed

lemma add_groups_complete:
  assumes "chroma_ok ch names rows" "each (add_group ch) g c = (Inr (), c')"
    and "distinct (map fst g)" "\<forall>(n, xs) \<in> set g. distinct (map vd_chunk_id xs)"
  shows "group_rows g \<subseteq> rows c'"
  using assms(2-)
proof (induction g arbitrary: c)
  case (Cons x g)
  obtain n xs where x: "x = (n, xs)" by fastforce
  from Cons.prems(1) obtain c1 where c1: "add_group ch x c = (Inr (), c1)" "each (add_group ch) g c1 = (Inr (), c')"
    by (auto split: prod.splits sum.splits)
  have "Pair n ` row_of ` set xs \<subseteq> rows c1"
    using add_group_rows(3) [OF assms(1) c1(1) [unfolded x]] Cons.prems(3) x by simp
  moreover have "n \<notin> fst ` set g" using Cons.prems(2) x by simp
  ultimately have "Pair n ` row_of ` set xs \<subseteq> rows c'"
    using add_groups_rows(2) [OF assms(1) c1(2)] by force
  moreover have "group_rows g \<subseteq> rows c'" using Cons.IH [OF c1(2)] Cons.prems(2,3) by simp
  ultimately show ?case by (auto simp: group_rows_def x)
qed (simp add: group_rows_def)

subsection \<open>The contract of a document store\<close>

text \<open>
  \<open>EmbeddingStore\<close> as its clients use it. Items belong to keys; removal takes the items of a
  key, addition puts items in and displaces only items that clash with them. The footprint
  holds however a call ends, the effect when it returns.
\<close>

locale document_store =
  fixes ok :: bool and contents :: "'s \<Rightarrow> 'x set" and owned :: "'k \<Rightarrow> 'x \<Rightarrow> bool"
    and remove :: "'k \<Rightarrow> 's \<Rightarrow> (exn + unit) \<times> 's" and add :: "'d list \<Rightarrow> 's \<Rightarrow> (exn + unit) \<times> 's"
    and item :: "'d \<Rightarrow> 'x" and clash :: "'x \<Rightarrow> 'x \<Rightarrow> bool" and addable :: "'d list \<Rightarrow> bool"
  assumes remove_frame: "ok \<Longrightarrow> remove k s = (v, s') \<Longrightarrow> contents s' \<subseteq> contents s \<and> {x \<in> contents s. \<not> owned k x} \<subseteq> contents s'"
    and remove_done: "ok \<Longrightarrow> remove k s = (Inr (), s') \<Longrightarrow> x \<in> contents s' \<Longrightarrow> \<not> owned k x"
    and add_frame: "ok \<Longrightarrow> add ds s = (v, s') \<Longrightarrow> contents s' \<subseteq> contents s \<union> item ` set ds \<and>
          {x \<in> contents s. \<forall>d \<in> set ds. \<not> clash x (item d)} \<subseteq> contents s'"
    and add_done: "ok \<Longrightarrow> add ds s = (Inr (), s') \<Longrightarrow> addable ds \<Longrightarrow> item ` set ds \<subseteq> contents s'"
begin

lemma replace_frame:
  assumes "ok" "remove k s = (u, s1)" "add ds s1 = (v, s2)"
  shows "contents s2 \<subseteq> contents s \<union> item ` set ds"
    and "x \<in> contents s \<Longrightarrow> \<not> owned k x \<Longrightarrow> \<forall>d \<in> set ds. \<not> clash x (item d) \<Longrightarrow> x \<in> contents s2"
  using remove_frame [OF assms(1,2)] add_frame [OF assms(1,3)] by auto

lemma replace_exact:
  assumes "ok" "remove k s = (Inr (), s1)" "add ds s1 = (Inr (), s2)" "addable ds"
    and "\<And>x d. x \<in> contents s \<Longrightarrow> \<not> owned k x \<Longrightarrow> d \<in> set ds \<Longrightarrow> \<not> clash x (item d)"
  shows "contents s2 = {x \<in> contents s. \<not> owned k x} \<union> item ` set ds"
proof
  show "contents s2 \<subseteq> {x \<in> contents s. \<not> owned k x} \<union> item ` set ds"
    using add_frame [OF assms(1,3)] remove_frame [OF assms(1,2)] remove_done [OF assms(1,2)] by auto
  show "{x \<in> contents s. \<not> owned k x} \<union> item ` set ds \<subseteq> contents s2"
    using replace_frame(2) [OF assms(1-3)] add_done [OF assms(1,3,4)] assms(5) by auto
qed

end

definition owns :: "string \<times> int \<Rightarrow> string \<times> 'e row \<Rightarrow> bool" where
  "owns k x \<longleftrightarrow> matches (document_where (fst k) (snd k)) (snd x)"

definition same_slot :: "string \<times> 'e row \<Rightarrow> string \<times> 'e row \<Rightarrow> bool" where
  "same_slot x y \<longleftrightarrow> fst x = fst y \<and> row_id (snd x) = row_id (snd y)"

definition placed :: "(json \<Rightarrow> string) \<Rightarrow> 'e vector_document \<Rightarrow> string \<times> 'e row" where
  "placed strf d = (collection_of strf d, row_of d)"

lemma new_rows_placed: "new_rows strf ds = placed strf ` set ds"
  by (simp add: new_rows_def placed_def)

lemma delete_document_frame:
  assumes ok: "chroma_ok ch names rows" and del: "delete_document ch d t s = (v, s')"
  shows "rows s' \<subseteq> rows s \<and> {x \<in> rows s. \<not> owns (d, t) x} \<subseteq> rows s'"
proof -
  obtain u where u: "delete_everywhere ch (document_where d t) s = (u, s')"
    using del by (metis delete_document_def prod.collapse snd_conv snd_wrapped)
  show ?thesis using delete_everywhere_rows [OF ok u] by (auto simp: owns_def)
qed

lemma delete_document_done:
  assumes ok: "chroma_ok ch names rows" and del: "delete_document ch d t s = (Inr (), s')" and x: "x \<in> rows s'"
  shows "\<not> owns (d, t) x"
proof -
  have "delete_everywhere ch (document_where d t) s = (Inr (), s')" using del by (simp add: delete_document_def)
  with x show ?thesis using delete_everywhere_exact [OF ok] by (auto simp: owns_def)
qed

lemma add_documents_frame:
  assumes ok: "chroma_ok ch names rows" and add: "add_documents ch strf ds s = (v, s')"
  shows "rows s' \<subseteq> rows s \<union> placed strf ` set ds \<and> {x \<in> rows s. \<forall>d \<in> set ds. \<not> same_slot x (placed strf d)} \<subseteq> rows s'"
proof -
  let ?g = "group_by_collection strf [] ds"
  obtain u where g: "each (add_group ch) ?g s = (u, s')"
    using add by (metis add_documents_def prod.collapse snd_conv snd_wrapped)
  have "x \<in> rows s'" if x: "x \<in> rows s" "\<forall>d \<in> set ds. \<not> same_slot x (placed strf d)" for x
  proof -
    have "row_id (snd x) \<notin> vd_chunk_id ` set xs" if "(fst x, xs) \<in> set ?g" for xs
      using x(2) group_entries [OF that] by (auto simp: same_slot_def placed_def row_of_def)
    then show ?thesis using add_groups_rows(2) [OF ok g] x(1) by (cases x) auto
  qed
  then show ?thesis using add_groups_rows(1) [OF ok g] by (auto simp: group_rows_group new_rows_placed)
qed

lemma add_documents_done:
  assumes ok: "chroma_ok ch names rows" and add: "add_documents ch strf ds s = (Inr (), s')"
    and dis: "distinct (map vd_chunk_id ds)"
  shows "placed strf ` set ds \<subseteq> rows s'"
proof -
  have "each (add_group ch) (group_by_collection strf [] ds) s = (Inr (), s')" using add by (simp add: add_documents_def)
  moreover have "distinct (map vd_chunk_id xs)" if "(n, xs) \<in> set (group_by_collection strf [] ds)" for n xs
    using group_entries [OF that] dis by (simp add: distinct_map_filter)
  ultimately have "group_rows (group_by_collection strf [] ds) \<subseteq> rows s'"
    using add_groups_complete [OF ok, of "group_by_collection strf [] ds" s s'] by (auto simp: group_distinct)
  then show ?thesis by (simp add: group_rows_group new_rows_placed)
qed

interpretation chroma_store: document_store "chroma_ok ch names rows" rows owns
  "\<lambda>(d, t). delete_document ch d t" "add_documents ch strf" "placed strf" same_slot
  "\<lambda>ds. distinct (map vd_chunk_id ds)" for ch :: "('c, 'e) chroma" and names rows strf
  by unfold_locales
    (auto split: prod.splits dest: delete_document_frame delete_document_done add_documents_frame add_documents_done)

subsection \<open>What a search returns\<close>

lemma set_py_take: "set (py_take k xs) \<subseteq> set xs"
  by (auto simp: py_take_def dest: in_set_takeD)

lemma similarity_search_sound:
  assumes ok: "chroma_ok ch names rows" and res: "chroma_similarity_search ch strf q k t c = Inr rs" and r: "r \<in> set rs"
  shows "\<exists>n w m d. (n, w) \<in> rows c \<and> matches (tenant_where t) w \<and> row_meta w = Some m \<and>
    map_of m ''document_id'' = Some d \<and> r_doc r = cps (text_value strf d) \<and> r_chunk r = cps (row_id w) \<and>
    r_content r = (case row_content w of None \<Rightarrow> [] | Some x \<Rightarrow> x)"
proof -
  obtain ns rss where ns: "try_map (query_collection ch strf q k t c) ns = Inr rss" "rs = py_take k (sort_key r_score (concat rss))"
    using res by (auto simp: chroma_similarity_search_def try_then_Inr)
  then obtain xs where "xs \<in> set rss" "r \<in> set xs" using r set_py_take by fastforce
  then obtain n where "query_collection ch strf q k t c n = Inr xs" using try_map_mem [OF ns(1)] by blast
  then obtain ps where ps: "ch_query ch n q k (tenant_where t) c = Inr ps" "try_map (search_result strf) ps = Inr xs"
    by (auto simp: query_collection_def try_then_Inr)
  obtain w x where w: "(w, x) \<in> set ps" "search_result strf (w, x) = Inr r"
    using try_map_mem [OF ps(2) \<open>r \<in> set xs\<close>] by fastforce
  have "(n, w) \<in> rows c \<and> matches (tenant_where t) w" using chroma_reads(2) [OF ok ps(1)] w(1) by force
  moreover have "\<exists>m d. row_meta w = Some m \<and> map_of m ''document_id'' = Some d \<and> r_doc r = cps (text_value strf d) \<and>
      r_chunk r = cps (row_id w) \<and> r_content r = (case row_content w of None \<Rightarrow> [] | Some x \<Rightarrow> x)"
    using w(2) by (auto simp: search_result_def Let_def update_conv' split: option.splits)
  ultimately show ?thesis by blast
qed

end
