(* ===== verification/Knowledge_Base.thy ===== *)
theory Knowledge_Base
  imports Vector_Store Document_Chunker Task_Worker Billing_Quota
begin

text \<open>
  The life of a document: \<^verbatim>\<open>api/routers/upload.py\<close> accepts it, the handler of
  \<^verbatim>\<open>tasks/knowledge_tasks.py\<close> indexes it, \<^verbatim>\<open>api/routers/knowledge.py\<close> deletes it;
  \<^verbatim>\<open>refresh_knowledge_base\<close> of \<^verbatim>\<open>core/core_engine.py\<close> replaces the public documents,
  and \<^verbatim>\<open>embedding.py\<close> prepares the texts for the embedding model.

  One state holds the tables, the upload directories, the vector store and the broker calls.
  Requests and handlers run one after the other, each as one step, and the clock stands
  still in a step; so the constraint that a flush checks has just been checked by the same
  request. Outside the model are the Chroma client, PDF reading and OCR (\<open>pdf_of\<close>,
  \<open>probe_pdf\<close>), the embedding model (\<open>encode\<close>), SHA-256 and random names: they are fields of
  \<open>kenv\<close> or arguments. File names are strings of characters below code point 256; bytes are
  characters. \<open>text_of\<close> writes a text into a JSON string.
\<close>

subsection \<open>File names\<close>

fun is_prefix_of :: "string \<Rightarrow> string \<Rightarrow> bool" where
  "is_prefix_of [] ys = True"
| "is_prefix_of (x # xs) [] = False"
| "is_prefix_of (x # xs) (y # ys) = (x = y \<and> is_prefix_of xs ys)"

fun contains :: "string \<Rightarrow> string \<Rightarrow> bool" where
  "contains p [] = (p = [])"
| "contains p (c # cs) = (is_prefix_of p (c # cs) \<or> contains p cs)"

definition lower :: "string \<Rightarrow> string" where
  "lower s = map lower_char s"

definition get_company :: "string \<Rightarrow> string" where
  "get_company filename =
     (let n = lower filename in
      if contains ''apple'' n then ''Apple'' else if contains ''nvidia'' n then ''NVIDIA''
      else if contains ''tesla'' n then ''Tesla'' else ''Unknown'')"

text \<open>
  \<open>re.search(r"(Q\d.*)\.pdf", filename, flags=re.IGNORECASE)\<close>: the first \<open>Q\<close> followed by a
  digit after which \<open>.pdf\<close> still comes on the same line; the group extends to the last such
  \<open>.pdf\<close>. \<open>before_last_pdf\<close> gives what precedes it.
\<close>

fun before_last_pdf :: "string \<Rightarrow> string option" where
  "before_last_pdf [] = None"
| "before_last_pdf (c # cs) =
     (case (if c = CHR 0x0A then None else before_last_pdf cs) of
        Some r \<Rightarrow> Some (c # r)
      | None \<Rightarrow> if is_prefix_of ''.pdf'' (lower (c # cs)) then Some [] else None)"

fun quarter_match :: "string \<Rightarrow> string option" where
  "quarter_match (c # d # cs) =
     (case (if lower_char c = CHR ''q'' \<and> is_digit d then before_last_pdf cs else None) of
        Some r \<Rightarrow> Some (c # d # r)
      | None \<Rightarrow> quarter_match (d # cs))"
| "quarter_match _ = None"

definition get_quarter :: "string \<Rightarrow> string" where
  "get_quarter filename = (case quarter_match filename of Some q \<Rightarrow> q | None \<Rightarrow> ''Unknown'')"

fun split_on :: "char \<Rightarrow> string \<Rightarrow> string \<Rightarrow> string list" where
  "split_on sep cur [] = [cur]"
| "split_on sep cur (c # cs) = (if c = sep then cur # split_on sep [] cs else split_on sep (cur @ [c]) cs)"

definition basename :: "string \<Rightarrow> string" where
  "basename p = last (split_on (CHR ''/'') [] p)"

text \<open>\<open>Path(p).name\<close>: empty and \<open>.\<close> components do not count.\<close>

definition path_name :: "string \<Rightarrow> string" where
  "path_name p = (case rev (filter (\<lambda>x. x \<noteq> [] \<and> x \<noteq> ''.'') (split_on (CHR ''/'') [] p)) of [] \<Rightarrow> [] | x # _ \<Rightarrow> x)"

fun remove_all :: "string \<Rightarrow> nat \<Rightarrow> string \<Rightarrow> string" where
  "remove_all p skip [] = []"
| "remove_all p (Suc skip) (c # cs) = remove_all p skip cs"
| "remove_all p 0 (c # cs) = (if is_prefix_of p (c # cs) then remove_all p (length p - 1) cs else c # remove_all p 0 cs)"

definition underscored :: "string \<Rightarrow> string" where
  "underscored s = map (\<lambda>c. if c = CHR '' '' \<or> c = CHR ''-'' then CHR ''_'' else c) s"

text \<open>\<open>filename.lower().replace(".pdf", "").replace(" ", "_").replace("-", "_")\<close>.\<close>

definition name_document_id :: "string \<Rightarrow> string" where
  "name_document_id filename = underscored (remove_all ''.pdf'' 0 (lower filename))"

subsection \<open>State\<close>

record document =
  d_id :: int
  d_fname :: string
  d_company :: string
  d_period :: string
  d_status :: string
  d_tenant :: int
  d_sha :: "string option"
  d_bytes :: "int option"
  d_uploader :: "int option"
  d_chunks :: "int option"

text \<open>A file under \<open>UPLOAD_DIR/<tenant>/<directory>/<name>\<close>.\<close>

record upload_file =
  uf_root :: string
  uf_dir :: string
  uf_name :: string
  uf_bytes :: string

record 'c kbase =
  kb_documents :: "document list"
  kb_next :: int
  kb_tasks :: "obj table"
  kb_billing :: billing_db
  kb_store :: 'c
  kb_files :: "upload_file list"
  kb_events :: "broker_event list"
  kb_now :: rat
  kb_utc :: instant

datatype pdf_probe = Unopenable | Opened bool int

record ('c, 'e) kenv =
  chroma_of :: "('c, 'e) chroma"
  store_opens :: "exn + unit"
  strf_of :: "json \<Rightarrow> string"
  text_of :: "utext \<Rightarrow> string"
  uni :: unicode
  pdf_options :: parse_options
  CHUNK_SIZE :: int
  CHUNK_OVERLAP :: int
  pdf_of :: "string \<Rightarrow> pdf_file"
  probe_pdf :: "string \<Rightarrow> pdf_probe"
  encode :: "utext list \<Rightarrow> exn + 'e list"
  EMBEDDING_MODEL :: string
  EMBEDDING_MODEL_REVISION :: string
  sha256 :: "string \<Rightarrow> string"
  UPLOAD_DIR :: string
  MAX_UPLOAD_BYTES :: nat
  broker_on :: bool

definition file_path_of :: "('c, 'e) kenv \<Rightarrow> upload_file \<Rightarrow> string" where
  "file_path_of env f = UPLOAD_DIR env @ ''/'' @ uf_root f @ ''/'' @ uf_dir f @ ''/'' @ uf_name f"

definition filename_of :: "('c, 'e) kenv \<Rightarrow> upload_file \<Rightarrow> string" where
  "filename_of env f = basename (file_path_of env f)"

definition file_at :: "('c, 'e) kenv \<Rightarrow> string \<Rightarrow> 'c kbase \<Rightarrow> upload_file option" where
  "file_at env p s = find (\<lambda>f. file_path_of env f = p) (kb_files s)"

definition get_document :: "'c kbase \<Rightarrow> int \<Rightarrow> document option" where
  "get_document s i = find (\<lambda>d. d_id d = i) (kb_documents s)"

text \<open>The quota reads the tenants of the document table.\<close>

definition billing_view :: "'c kbase \<Rightarrow> billing_db" where
  "billing_view s = (kb_billing s)\<lparr>documents := map d_tenant (kb_documents s)\<rparr>"

definition kb_write_task :: "string \<Rightarrow> obj task_update \<Rightarrow> 'c kbase \<Rightarrow> 'c kbase" where
  "kb_write_task pid up s = s\<lparr>kb_tasks := snd (update_task pid up (kb_now s) (kb_tasks s))\<rparr>"

definition kb_record_usage :: "int \<Rightarrow> int option \<Rightarrow> string \<Rightarrow> string \<Rightarrow> int \<Rightarrow> obj \<Rightarrow> 'c kbase \<Rightarrow> 'c kbase" where
  "kb_record_usage t us ev res n meta s =
     s\<lparr>kb_billing := snd (record_usage True (kb_utc s) (Some t) us ev res n meta (kb_billing s))\<rparr>"

subsection \<open>Embedding\<close>

definition PASSAGE_PREFIX :: utext where "PASSAGE_PREFIX = cps ''passage: ''"
definition QUERY_PREFIX :: utext where "QUERY_PREFIX = cps ''query: ''"

definition with_prefix :: "unicode \<Rightarrow> utext \<Rightarrow> utext \<Rightarrow> utext" where
  "with_prefix u text pre =
     (let n = strip_cp u text in if prefix pre (casefold u n) then n else pre @ n)"

definition embed_passages :: "('c, 'e) kenv \<Rightarrow> utext list \<Rightarrow> exn + 'e list" where
  "embed_passages env texts =
     (if texts = [] then Inr [] else encode env (map (\<lambda>t. with_prefix (uni env) t PASSAGE_PREFIX) texts))"

subsection \<open>Indexing a document\<close>

text \<open>Straight-line code over a state that may raise: what was written before the exception stays.\<close>

definition andthen :: "(exn + 'a) \<times> 's \<Rightarrow> ('a \<Rightarrow> 's \<Rightarrow> (exn + 'b) \<times> 's) \<Rightarrow> (exn + 'b) \<times> 's" where
  "andthen p k = (case p of (Inl e, s) \<Rightarrow> (Inl e, s) | (Inr x, s) \<Rightarrow> k x s)"

definition set_document_status :: "json \<Rightarrow> int \<Rightarrow> string \<Rightarrow> (string \<times> string \<times> int) option \<Rightarrow> 'c kbase \<Rightarrow> bool \<times> 'c kbase" where
  "set_document_status doc t st extra s = (case doc of
      JNull \<Rightarrow> (True, s)
    | JInt i \<Rightarrow> (case get_document s i of
          None \<Rightarrow> (False, s)
        | Some d \<Rightarrow>
            if d_tenant d \<noteq> t then (False, s)
            else (True, s\<lparr>kb_documents := modify_first (\<lambda>d. d_id d = i)
              (\<lambda>d. case extra of
                  None \<Rightarrow> d\<lparr>d_status := st\<rparr>
                | Some (co, pe, n) \<Rightarrow> d\<lparr>d_status := st, d_company := co, d_period := pe, d_chunks := Some n\<rparr>)
              (kb_documents s)\<rparr>))
    | _ \<Rightarrow> (False, s))"

definition vector_document_id :: "int \<Rightarrow> json \<Rightarrow> (json \<Rightarrow> string) \<Rightarrow> string \<Rightarrow> string" where
  "vector_document_id t doc strf filename =
     (if doc = JNull then name_document_id filename else ''tenant_'' @ str_int t @ ''_document_'' @ text_value strf doc)"

definition chunk_identity :: "json \<Rightarrow> string \<Rightarrow> string" where
  "chunk_identity sha doc_id = (case sha of JStr h \<Rightarrow> if h = [] then doc_id else h | _ \<Rightarrow> doc_id)"

definition tenant_chunk_id :: "int \<Rightarrow> string \<Rightarrow> nat \<Rightarrow> string" where
  "tenant_chunk_id t ident i = ''tenant_'' @ str_int t @ ''_'' @ ident @ ''_'' @ str_nat i"

definition chunk_metadata :: "('c, 'e) kenv \<Rightarrow> string \<Rightarrow> int \<Rightarrow> json \<Rightarrow> chunk \<Rightarrow> obj" where
  "chunk_metadata env filename t sha c =
     [(''source'', JStr filename), (''quarter'', JStr (get_quarter filename)), (''collection'', JStr ''financial_reports''),
      (''tenant_id'', JInt t), (''page'', JInt (int (c_page c))), (''section'', JStr (text_of env (c_section c))),
      (''ocr_used'', JBool (c_ocr c)), (''parser_version'', JStr ''pymupdf-blocks-ocr-v3''),
      (''chunker_version'', JStr ''page-block-section-v2''), (''embedding_model'', JStr (EMBEDDING_MODEL env)),
      (''embedding_revision'', JStr (if EMBEDDING_MODEL_REVISION env = [] then ''unversioned'' else EMBEDDING_MODEL_REVISION env))]
     @ (case sha of JStr h \<Rightarrow> if h = [] then [] else [(''content_sha256'', sha)] | _ \<Rightarrow> [])"

definition chunk_vector :: "('c, 'e) kenv \<Rightarrow> string \<Rightarrow> int \<Rightarrow> json \<Rightarrow> json \<Rightarrow> chunk \<times> 'e \<Rightarrow> 'e vector_document" where
  "chunk_vector env filename t doc sha = (\<lambda>(c, e).
     (let doc_id = vector_document_id t doc (strf_of env) filename in
      \<lparr>vd_document_id = doc_id, vd_chunk_id = tenant_chunk_id t (chunk_identity sha doc_id) (c_index c),
       vd_company = get_company filename, vd_content = c_text c, vd_embedding = e,
       vd_metadata = chunk_metadata env filename t sha c\<rparr>))"

definition kb_progress :: "string \<Rightarrow> int \<Rightarrow> 'c kbase \<Rightarrow> 'c kbase" where
  "kb_progress pid n s = kb_write_task pid (no_update\<lparr>u_progress := Some n\<rparr>) s"

definition with_store :: "('c \<Rightarrow> (exn + 'a) \<times> 'c) \<Rightarrow> 'c kbase \<Rightarrow> (exn + 'a) \<times> 'c kbase" where
  "with_store f s = (case f (kb_store s) of (r, c) \<Rightarrow> (r, s\<lparr>kb_store := c\<rparr>))"

text \<open>From the opened file to the list of chunks with their vectors: nothing but the progress is written.\<close>

definition prepare_vectors :: "('c, 'e) kenv \<Rightarrow> string \<Rightarrow> upload_file \<Rightarrow> 'c kbase \<Rightarrow> (exn + (chunk \<times> 'e) list) \<times> 'c kbase" where
  "prepare_vectors env pid f s =
     (if uf_bytes f = [] then (Inl (Exn ''ValueError'' ''PDF file is empty''), s)
      else
        let s1 = kb_progress pid 10 s in
        case load_pdf_chunks (uni env) (pdf_options env) (CHUNK_SIZE env) (CHUNK_OVERLAP env) (filename_of env f) (pdf_of env (uf_bytes f)) of
          Inl e \<Rightarrow> (Inl e, s1)
        | Inr chunks \<Rightarrow>
            if chunks = [] then (Inl (Exn ''ValueError'' ''PDF produced no indexable chunks''), s1)
            else
              let s2 = kb_progress pid 30 s1 in
              case embed_passages env (map c_text chunks) of
                Inl e \<Rightarrow> (Inl e, s2)
              | Inr vs \<Rightarrow>
                  if length vs \<noteq> length chunks
                  then (Inl (Exn ''ValueError'' ''Embedding model returned an unexpected vector count''), s2)
                  else (Inr (zip chunks vs), kb_progress pid 50 s2))"

text \<open>Opening the collection and replacing the document in the store.\<close>

definition store_vectors :: "('c, 'e) kenv \<Rightarrow> string \<Rightarrow> string \<Rightarrow> int \<Rightarrow> 'e vector_document list \<Rightarrow> 'c kbase \<Rightarrow> (exn + unit) \<times> 'c kbase" where
  "store_vectors env pid doc_id t ds s =
     andthen (store_opens env, s) (\<lambda>_ s.
     andthen (with_store (create_collection (chroma_of env) ''financial_reports'') s) (\<lambda>_ s.
     andthen (with_store (delete_document (chroma_of env) doc_id t) (kb_progress pid 80 s)) (\<lambda>_ s.
       with_store (add_documents (chroma_of env) (strf_of env) ds) s)))"

definition finish_indexing :: "string \<Rightarrow> int \<Rightarrow> json \<Rightarrow> string \<Rightarrow> int \<Rightarrow> 'c kbase \<Rightarrow> 'c kbase" where
  "finish_indexing pid t doc filename n s =
     (let meta = [(''task_id'', JStr pid), (''chunks'', JInt n), (''document_id'', doc)];
          s1 = kb_write_task pid \<lparr>u_status = Some SUCCESS, u_progress = Some 100, u_error = None,
                 u_result = Some [(''chunks'', JInt n), (''company'', JStr (get_company filename)), (''document_id'', doc)]\<rparr> s;
          s2 = snd (set_document_status doc t ''indexed'' (Some (get_company filename, get_quarter filename, n)) s1)
      in kb_record_usage t None ''vector_insert'' ''vector'' n meta
           (kb_record_usage t None ''embedding_generation'' ''embedding'' n meta
             (kb_record_usage t None ''document_process'' ''document'' 1 [(''task_id'', JStr pid), (''document_id'', doc)] s2)))"

definition index_document :: "('c, 'e) kenv \<Rightarrow> string \<Rightarrow> int \<Rightarrow> json \<Rightarrow> json \<Rightarrow> upload_file \<Rightarrow> 'c kbase \<Rightarrow> (exn + unit) \<times> 'c kbase" where
  "index_document env pid t doc sha f s =
     andthen (prepare_vectors env pid f s) (\<lambda>cvs s.
     andthen (store_vectors env pid (vector_document_id t doc (strf_of env) (filename_of env f)) t
         (map (chunk_vector env (filename_of env f) t doc sha) cvs) s) (\<lambda>_ s.
       (Inr (), finish_indexing pid t doc (filename_of env f) (int (length cvs)) s)))"

definition file_of_payload :: "('c, 'e) kenv \<Rightarrow> json \<Rightarrow> 'c kbase \<Rightarrow> upload_file option" where
  "file_of_payload env p s = (case p of JStr q \<Rightarrow> if q = [] then None else file_at env q s | _ \<Rightarrow> None)"

definition process_document_task :: "('c, 'e) kenv \<Rightarrow> string \<Rightarrow> 'c kbase \<Rightarrow> 'c kbase" where
  "process_document_task env pid s = (case get_task (kb_tasks s) pid of
      None \<Rightarrow> s
    | Some task \<Rightarrow>
        (let t = tenant_id task; p = get_or (payload task) ''file_path'' JNull; doc = get_or (payload task) ''document_id'' JNull;
             sha = get_or (payload task) ''content_sha256'' JNull;
             (mine, s1) = set_document_status doc t ''processing'' None s
         in if \<not> mine then kb_write_task pid (fail_update ''Document does not belong to this tenant'') s1
            else case file_of_payload env p s1 of
                None \<Rightarrow> snd (set_document_status doc t ''failed'' None
                  (kb_write_task pid (fail_update (''File not found: '' @ text_value (strf_of env) p)) s1))
              | Some f \<Rightarrow> (case index_document env pid t doc sha f s1 of
                    (Inr _, s2) \<Rightarrow> s2
                  | (Inl e, s2) \<Rightarrow> snd (set_document_status doc t ''failed'' None (kb_write_task pid (fail_update (exn_msg e)) s2)))))"

subsection \<open>Upload\<close>

type_synonym http_error = "int \<times> string"

definition safe_filename :: "string option \<Rightarrow> http_error + string" where
  "safe_filename name =
     (let candidate = path_name (map (\<lambda>c. if c = CHR 0x5C then CHR ''/'' else c) (case name of None \<Rightarrow> [] | Some n \<Rightarrow> n)) in
      if candidate = [] \<or> candidate = ''.'' \<or> candidate = ''..'' then Inl (400, ''A valid filename is required'')
      else Inr candidate)"

definition has_pdf_signature :: "string \<Rightarrow> bool" where
  "has_pdf_signature content \<longleftrightarrow> is_prefix_of ''%PDF-'' content \<and> contains ''%%EOF'' (drop (length content - 1024) content)"

definition validate_pdf_structure :: "('c, 'e) kenv \<Rightarrow> string \<Rightarrow> http_error + unit" where
  "validate_pdf_structure env content = (case probe_pdf env content of
      Unopenable \<Rightarrow> Inl (400, ''Uploaded PDF could not be opened'')
    | Opened locked_pdf n \<Rightarrow>
        if locked_pdf then Inl (400, ''Encrypted PDF documents are not supported'')
        else if n < 1 then Inl (400, ''Uploaded PDF must contain at least one page'')
        else Inr ())"

definition check_content :: "('c, 'e) kenv \<Rightarrow> string \<Rightarrow> http_error + unit" where
  "check_content env content =
     (if length content > MAX_UPLOAD_BYTES env
      then Inl (413, ''File exceeds the '' @ str_nat (MAX_UPLOAD_BYTES env div (1024 * 1024)) @ '' MB upload limit'')
      else if \<not> has_pdf_signature content then Inl (400, ''Uploaded content is not a valid PDF document'')
      else validate_pdf_structure env content)"

definition known_content :: "int \<Rightarrow> string \<Rightarrow> 'c kbase \<Rightarrow> bool" where
  "known_content t h s = list_ex (\<lambda>d. d_tenant d = t \<and> d_sha d = Some h) (kb_documents s)"

definition new_document :: "string \<Rightarrow> string \<Rightarrow> string \<Rightarrow> int \<Rightarrow> int \<Rightarrow> int \<Rightarrow> document" where
  "new_document filename content h t us i =
     \<lparr>d_id = i, d_fname = filename, d_company = get_company filename, d_period = get_quarter filename,
      d_status = ''processing'', d_tenant = t, d_sha = Some h, d_bytes = Some (int (length content)),
      d_uploader = Some us, d_chunks = Some 0\<rparr>"

text \<open>
  The part of the end point after the checks. \<open>uuid\<close> names the directory, \<open>pid\<close> the task, and
  \<open>disk_ok\<close> tells whether the file can be written.
\<close>

definition accept_upload :: "('c, 'e) kenv \<Rightarrow> int \<Rightarrow> int \<Rightarrow> string \<Rightarrow> string \<Rightarrow> string \<Rightarrow> string \<Rightarrow> bool \<Rightarrow> 'c kbase
    \<Rightarrow> (http_error + obj) \<times> 'c kbase" where
  "accept_upload env t us filename content uuid pid disk_ok s =
     (if \<not> disk_ok then (Inl (500, ''Unable to persist uploaded file''), s)
      else
        let i = kb_next s; h = sha256 env content;
            f = \<lparr>uf_root = str_int t, uf_dir = str_int i @ ''-'' @ uuid, uf_name = filename, uf_bytes = content\<rparr>;
            pay = [(''file_path'', JStr (file_path_of env f)), (''document_id'', JInt i), (''content_sha256'', JStr h)];
            s1 = s\<lparr>kb_files := kb_files s @ [f]\<rparr>
        in case create_task pid PROCESS_DOCUMENT pay (Some t) us (kb_now s) (kb_tasks s) of
             (Inl e, _) \<Rightarrow> (Inl (500, exn_msg e), s1)
           | (Inr task, tasks') \<Rightarrow>
               (let s2 = s1\<lparr>kb_documents := kb_documents s @ [new_document filename content h t us i], kb_next := i + 1,
                            kb_tasks := tasks',
                            kb_events := kb_events s @ (if broker_on env then [Publish pid t (task_type task)] else [])\<rparr>;
                    s3 = kb_record_usage t (Some us) ''document_upload'' ''document'' 1
                           [(''filename'', JStr filename), (''document_id'', JInt i), (''task_id'', JStr pid)] s2
                in (Inr [(''message'', JStr ''upload success''), (''file'', JStr filename), (''document_id'', JInt i),
                         (''task_id'', JStr pid), (''status'', JStr ''pending'')], s3)))"

definition upload_pdf :: "('c, 'e) kenv \<Rightarrow> int \<Rightarrow> int \<Rightarrow> string option \<Rightarrow> string \<Rightarrow> string \<Rightarrow> string \<Rightarrow> bool \<Rightarrow> 'c kbase
    \<Rightarrow> (http_error + obj) \<times> 'c kbase" where
  "upload_pdf env t us name body uuid pid disk_ok s = (case safe_filename name of
      Inl e \<Rightarrow> (Inl e, s)
    | Inr filename \<Rightarrow>
        if \<not> suffix ''.pdf'' (lower filename) then (Inl (400, ''Only PDF files are accepted''), s)
        else
          let content = take (MAX_UPLOAD_BYTES env + 1) body in
          case check_content env content of
            Inl e \<Rightarrow> (Inl e, s)
          | Inr _ \<Rightarrow>
              if known_content t (sha256 env content) s then (Inl (409, ''This document already exists in your workspace.''), s)
              else if \<not> can_upload (kb_utc s) (billing_view s) t then (Inl (429, ''Upload limit exceeded. Upgrade your plan.''), s)
              else accept_upload env t us filename content uuid pid disk_ok s)"

subsection \<open>Deletion\<close>

definition rename_dir :: "string \<Rightarrow> string \<Rightarrow> string \<Rightarrow> upload_file list \<Rightarrow> upload_file list" where
  "rename_dir base old new fs = map (\<lambda>f. if uf_root f = base \<and> uf_dir f = old then f\<lparr>uf_dir := new\<rparr> else f) fs"

definition dir_exists :: "string \<Rightarrow> string \<Rightarrow> upload_file list \<Rightarrow> bool" where
  "dir_exists base d fs = list_ex (\<lambda>f. uf_root f = base \<and> uf_dir f = d) fs"

definition upload_directories :: "int \<Rightarrow> int \<Rightarrow> upload_file list \<Rightarrow> string list" where
  "upload_directories t i fs = sort (remdups (map uf_dir
     (filter (\<lambda>f. uf_root f = str_int t \<and> is_prefix_of (str_int i @ ''-'') (uf_dir f)) fs)))"

definition restore_upload_directories :: "string \<Rightarrow> (string \<times> string) list \<Rightarrow> upload_file list \<Rightarrow> upload_file list" where
  "restore_upload_directories base staged fs =
     fold (\<lambda>(old, new) fs. if dir_exists base new fs \<and> \<not> dir_exists base old fs then rename_dir base new old fs else fs)
       (rev staged) fs"

text \<open>\<open>rnd d\<close> is the random name for directory \<open>d\<close> and whether the renaming succeeds.\<close>

fun stage_upload_directories :: "string \<Rightarrow> int \<Rightarrow> (string \<Rightarrow> string \<times> bool) \<Rightarrow> string list \<Rightarrow> (string \<times> string) list
    \<Rightarrow> upload_file list \<Rightarrow> (string \<times> string) list option \<times> upload_file list" where
  "stage_upload_directories base i rnd [] staged fs = (Some staged, fs)"
| "stage_upload_directories base i rnd (d # ds) staged fs =
     (let new = ''.deleting-'' @ str_int i @ ''-'' @ fst (rnd d) in
      if snd (rnd d) then stage_upload_directories base i rnd ds (staged @ [(d, new)]) (rename_dir base d new fs)
      else (None, restore_upload_directories base staged fs))"

definition remove_staged :: "string \<Rightarrow> (string \<times> string) list \<Rightarrow> upload_file list \<Rightarrow> upload_file list" where
  "remove_staged base staged fs = filter (\<lambda>f. \<not> (uf_root f = base \<and> uf_dir f \<in> snd ` set staged)) fs"

definition document_tasks :: "int \<Rightarrow> int \<Rightarrow> 'c kbase \<Rightarrow> obj task list" where
  "document_tasks t i s = filter (\<lambda>k. tenant_id k = t \<and> task_type k = task_type_value PROCESS_DOCUMENT \<and>
     py_eq (get_or (payload k) ''document_id'' JNull) (JInt i)) (kb_tasks s)"

definition remove_document :: "int \<Rightarrow> 'c kbase \<Rightarrow> 'c kbase" where
  "remove_document i s = s\<lparr>kb_documents := remove_first (\<lambda>d. d_id d = i) (kb_documents s)\<rparr>"

text \<open>Vectors, row and files go in this order; a failure on the way restores the files.\<close>

definition delete_parts :: "('c, 'e) kenv \<Rightarrow> int \<Rightarrow> int \<Rightarrow> (string \<times> string) list \<Rightarrow> bool \<Rightarrow> bool \<Rightarrow> 'c kbase
    \<Rightarrow> (http_error + obj) \<times> 'c kbase" where
  "delete_parts env t i staged commit_ok cleanup_ok s =
     (let restored = (\<lambda>s. s\<lparr>kb_files := restore_upload_directories (str_int t) staged (kb_files s)\<rparr>) in
      case andthen (store_opens env, s) (\<lambda>_. with_store (delete_document (chroma_of env)
             (''tenant_'' @ str_int t @ ''_document_'' @ str_int i) t)) of
        (Inl _, s1) \<Rightarrow> (Inl (503, ''Unable to delete document vectors.''), restored s1)
      | (Inr _, s1) \<Rightarrow>
          if \<not> commit_ok then (Inl (500, ''Internal Server Error''), restored s1)
          else
            let s2 = remove_document i s1 in
            if \<not> cleanup_ok then (Inl (500, ''Document was deleted but storage cleanup is pending.''), s2)
            else (Inr [(''deleted'', JBool True), (''document_id'', JInt i)],
                  s2\<lparr>kb_files := remove_staged (str_int t) staged (kb_files s2)\<rparr>))"

definition delete_knowledge_document :: "('c, 'e) kenv \<Rightarrow> int \<Rightarrow> int \<Rightarrow> int \<Rightarrow> (string \<Rightarrow> string \<times> bool) \<Rightarrow> bool \<Rightarrow> bool \<Rightarrow> 'c kbase
    \<Rightarrow> (http_error + obj) \<times> 'c kbase" where
  "delete_knowledge_document env t us i rnd commit_ok cleanup_ok s =
     (case find (\<lambda>d. d_id d = i \<and> d_tenant d = t) (kb_documents s) of
        None \<Rightarrow> (Inl (404, ''Document not found''), s)
      | Some d \<Rightarrow>
          if d_uploader d \<noteq> Some us then (Inl (403, ''You do not have permission to delete this document.''), s)
          else if d_status d = ''processing'' \<or> list_ex (\<lambda>k. status k = PENDING \<or> status k = RUNNING) (document_tasks t i s)
          then (Inl (409, ''Document is still processing and cannot be deleted.''), s)
          else case stage_upload_directories (str_int t) i rnd (upload_directories t i (kb_files s)) [] (kb_files s) of
              (None, fs) \<Rightarrow> (Inl (500, ''Unable to prepare document storage for deletion.''), s\<lparr>kb_files := fs\<rparr>)
            | (Some staged, fs) \<Rightarrow> delete_parts env t i staged commit_ok cleanup_ok (s\<lparr>kb_files := fs\<rparr>))"

subsection \<open>Public documents\<close>

definition is_pdf_name :: "string \<Rightarrow> bool" where
  "is_pdf_name n \<longleftrightarrow> suffix ''.pdf'' (lower n) \<and> length n > 4"

definition stem :: "string \<Rightarrow> string" where
  "stem n = take (length n - 4) n"

text \<open>
  \<open>load_documents\<close> on a folder given as its files (name and bytes) in sorted order. A chunk
  comes with its file's name and content hash. Lower case stands for \<open>casefold\<close>, from which it
  differs on two characters below code point 256 only.
\<close>

definition load_documents :: "('c, 'e) kenv \<Rightarrow> (string \<times> string) list \<Rightarrow> exn + (string \<times> string \<times> chunk) list" where
  "load_documents env folder = try_then
     (try_map (\<lambda>(name, bytes). try_then
         (load_pdf_chunks (uni env) (pdf_options env) (CHUNK_SIZE env) (CHUNK_OVERLAP env) name (pdf_of env bytes))
         (\<lambda>cs. Inr (map (\<lambda>c. (name, sha256 env bytes, c)) cs)))
       (filter (\<lambda>(name, _). is_pdf_name name) folder))
     (\<lambda>css. Inr (concat css))"

definition PUBLIC_TENANT_ID :: int where "PUBLIC_TENANT_ID = 0"

definition public_vector :: "('c, 'e) kenv \<Rightarrow> (string \<times> string \<times> chunk) \<times> 'e \<Rightarrow> 'e vector_document" where
  "public_vector env = (\<lambda>((name, h, c), e).
     \<lparr>vd_document_id = underscored (lower (stem name)), vd_chunk_id = ''public_'' @ h @ ''_'' @ str_nat (c_index c),
      vd_company = get_company name, vd_content = c_text c, vd_embedding = e,
      vd_metadata =
        [(''source'', JStr name), (''quarter'', JStr (get_quarter name)), (''collection'', JStr ''financial_reports''),
         (''tenant_id'', JInt PUBLIC_TENANT_ID), (''page'', JInt (int (c_page c))), (''section'', JStr (text_of env (c_section c))),
         (''ocr_used'', JBool (c_ocr c)), (''parser_version'', JStr ''pymupdf-blocks-ocr-v3''),
         (''chunker_version'', JStr ''page-block-section-v2''), (''embedding_model'', JStr (EMBEDDING_MODEL env)),
         (''embedding_revision'', JStr (if EMBEDDING_MODEL_REVISION env = [] then ''unversioned'' else EMBEDDING_MODEL_REVISION env)),
         (''content_sha256'', JStr h)]\<rparr>)"

definition refresh_knowledge_base :: "('c, 'e) kenv \<Rightarrow> (string \<times> string) list \<Rightarrow> 'c kbase \<Rightarrow> (exn + unit) \<times> 'c kbase" where
  "refresh_knowledge_base env folder s =
     andthen (store_opens env, s) (\<lambda>_ s.
     andthen (load_documents env folder, s) (\<lambda>chunks s.
     andthen (embed_passages env (map (\<lambda>(_, _, c). c_text c) chunks), s) (\<lambda>vs s.
       if length vs \<noteq> length chunks
       then (Inl (Exn ''ValueError'' ''Embedding model returned an unexpected vector count''), s)
       else
         andthen (with_store (create_collection (chroma_of env) ''financial_reports'') s) (\<lambda>_ s.
         andthen (with_store (delete_by_tenant (chroma_of env) PUBLIC_TENANT_ID) s) (\<lambda>_ s.
           with_store (add_documents (chroma_of env) (strf_of env) (map (public_vector env) (zip chunks vs))) s)))))"

subsection \<open>Reading the table\<close>

definition document_item :: "int \<Rightarrow> document \<Rightarrow> int \<times> string \<times> int \<times> bool" where
  "document_item us d = (d_id d, d_status d, (case d_chunks d of None \<Rightarrow> 0 | Some n \<Rightarrow> n), d_uploader d = Some us)"

definition tenant_documents :: "int \<Rightarrow> 'c kbase \<Rightarrow> document list" where
  "tenant_documents t s = filter (\<lambda>d. d_tenant d = t) (kb_documents s)"

definition knowledge_statistics :: "int \<Rightarrow> 'c kbase \<Rightarrow> nat \<times> nat \<times> int" where
  "knowledge_statistics t s =
     (let ds = tenant_documents t s in
      (length ds, length (remdups (filter (\<lambda>c. c \<noteq> []) (map d_company ds))),
       sum_list (map (\<lambda>d. case d_chunks d of None \<Rightarrow> 0 | Some n \<Rightarrow> n) ds)))"

subsection \<open>Runs\<close>

text \<open>
  What may happen to the system: requests, indexing of a document task, a refresh of the public
  documents, and the worker's bookkeeping, which changes neither type nor tenant nor payload
  of a task.
\<close>

definition same_task :: "obj task \<Rightarrow> obj task \<Rightarrow> bool" where
  "same_task k k' \<longleftrightarrow> public_id k = public_id k' \<and> task_type k = task_type k' \<and> tenant_id k = tenant_id k' \<and> payload k = payload k'"

inductive kb_step :: "('c, 'e) kenv \<Rightarrow> 'c kbase \<Rightarrow> 'c kbase \<Rightarrow> bool" for env where
  upload: "kb_step env s (snd (upload_pdf env t us name body uuid pid disk_ok s))"
| index: "get_task (kb_tasks s) pid = Some k \<Longrightarrow> task_type k = task_type_value PROCESS_DOCUMENT \<Longrightarrow>
    kb_step env s (process_document_task env pid s)"
| delete: "kb_step env s (snd (delete_knowledge_document env t us i rnd commit_ok cleanup_ok s))"
| refresh: "kb_step env s (snd (refresh_knowledge_base env folder s))"
| worker: "list_all2 same_task (kb_tasks s) tasks' \<Longrightarrow> kb_step env s (s\<lparr>kb_tasks := tasks', kb_now := n, kb_utc := u\<rparr>)"

inductive kb_reachable :: "('c, 'e) kenv \<Rightarrow> 'c kbase \<Rightarrow> 'c kbase \<Rightarrow> bool" for env s0 where
  start: "kb_reachable env s0 s0"
| step: "kb_reachable env s0 s \<Longrightarrow> kb_step env s s' \<Longrightarrow> kb_reachable env s0 s'"

subsection \<open>The invariant\<close>

definition document_key :: "int \<Rightarrow> int \<Rightarrow> string" where
  "document_key t i = ''tenant_'' @ str_int t @ ''_document_'' @ str_int i"

definition live_row :: "document list \<Rightarrow> string \<times> 'e row \<Rightarrow> bool" where
  "live_row ds x \<longleftrightarrow> (\<exists>d \<in> set ds. \<exists>h i. d_sha d = Some h \<and> owns (document_key (d_tenant d) (d_id d), d_tenant d) x \<and>
     row_id (snd x) = tenant_chunk_id (d_tenant d) h i)"

definition public_row :: "string \<times> 'e row \<Rightarrow> bool" where
  "public_row x \<longleftrightarrow> matches (tenant_where (Some 0)) (snd x) \<and> prefix ''public_'' (row_id (snd x))"

definition documents_ok :: "document list \<Rightarrow> int \<Rightarrow> bool" where
  "documents_ok ds n \<longleftrightarrow> distinct (map d_id ds) \<and> (\<forall>d \<in> set ds. d_id d < n) \<and>
     distinct (map (\<lambda>d. (d_tenant d, d_sha d)) ds) \<and>
     (\<forall>d \<in> set ds. \<exists>h. d_sha d = Some h \<and> h \<noteq> [] \<and> CHR ''_'' \<notin> set h)"

definition task_ok :: "document list \<Rightarrow> int \<Rightarrow> obj task \<Rightarrow> bool" where
  "task_ok ds n k \<longleftrightarrow> (\<exists>i h. get_or (payload k) ''document_id'' JNull = JInt i \<and> i < n \<and>
     get_or (payload k) ''content_sha256'' JNull = JStr h \<and>
     (\<forall>d \<in> set ds. d_id d = i \<longrightarrow> d_sha d = Some h \<and> d_tenant d = tenant_id k))"

definition kb_inv :: "('c \<Rightarrow> (string \<times> 'e row) set) \<Rightarrow> 'c kbase \<Rightarrow> bool" where
  "kb_inv rows s \<longleftrightarrow> documents_ok (kb_documents s) (kb_next s) \<and>
     (\<forall>k \<in> set (kb_tasks s). task_type k = task_type_value PROCESS_DOCUMENT \<longrightarrow> task_ok (kb_documents s) (kb_next s) k) \<and>
     (\<forall>x \<in> rows (kb_store s). live_row (kb_documents s) x \<or> public_row x)"

text \<open>What is relied on outside: the client, and that a SHA-256 digest is written in hexadecimal.\<close>

definition kenv_ok :: "('c, 'e) kenv \<Rightarrow> ('c \<Rightarrow> string set) \<Rightarrow> ('c \<Rightarrow> (string \<times> 'e row) set) \<Rightarrow> bool" where
  "kenv_ok env names rows \<longleftrightarrow> chroma_ok (chroma_of env) names rows \<and>
     (\<forall>b. sha256 env b \<noteq> [] \<and> set (sha256 env b) \<subseteq> set ''0123456789abcdef'')"

end
