(* ===== verification/Knowledge_Invariant.thy ===== *)
theory Knowledge_Invariant
  imports Knowledge_Base
begin

text \<open>
  What holds of the knowledge base in every reachable state: every vector belongs to a live
  document of its own tenant or to the public tenant, and indexing replaces exactly the
  vectors of its document. The proofs follow the footprint of each operation (\<open>evolves\<close>).
\<close>

subsection \<open>Ids of chunks\<close>

lemma separator_unique:
  "c \<notin> set xs \<Longrightarrow> c \<notin> set xs' \<Longrightarrow> xs @ c # ys = xs' @ c # ys' \<Longrightarrow> xs = xs' \<and> ys = ys'"
proof (induction xs arbitrary: xs')
  case Nil
  then show ?case by (cases xs') auto
next
  case (Cons x xs)
  then show ?case by (cases xs') auto
qed

lemma underscore_not_in_str_int: "CHR ''_'' \<notin> set (str_int i)"
  using str_int_chars [of i] by auto

lemma tenant_chunk_id_inj:
  assumes "tenant_chunk_id t h i = tenant_chunk_id t' h' i'" "CHR ''_'' \<notin> set h" "CHR ''_'' \<notin> set h'"
  shows "t = t' \<and> h = h' \<and> i = i'"
proof -
  have "str_int t @ CHR ''_'' # (h @ CHR ''_'' # str_nat i) = str_int t' @ CHR ''_'' # (h' @ CHR ''_'' # str_nat i')"
    using assms(1) by (simp add: tenant_chunk_id_def)
  then have "str_int t = str_int t'" "h @ CHR ''_'' # str_nat i = h' @ CHR ''_'' # str_nat i'"
    using separator_unique [OF underscore_not_in_str_int underscore_not_in_str_int] by blast+
  then show ?thesis using separator_unique [OF assms(2,3)] str_int_inj str_nat_inj by blast
qed

lemma public_id_not_tenant: "prefix ''public_'' x \<Longrightarrow> x \<noteq> tenant_chunk_id t h i"
  by (auto simp: tenant_chunk_id_def prefix_def)

lemma document_key_inj: "document_key t i = document_key t i' \<Longrightarrow> i = i'"
  by (auto simp: document_key_def dest: str_int_inj)

subsection \<open>Footprints\<close>

definition identity :: "document \<Rightarrow> int \<times> int \<times> string option" where
  "identity d = (d_id d, d_tenant d, d_sha d)"

lemma same_identities:
  assumes "map identity ds' = map identity ds"
  shows "documents_ok ds' n = documents_ok ds n" "task_ok ds' n k = task_ok ds n k" "live_row ds' x = live_row ds x"
proof -
  have ids: "map d_id ds' = map d_id ds" and keys: "map (\<lambda>d. (d_tenant d, d_sha d)) ds' = map (\<lambda>d. (d_tenant d, d_sha d)) ds"
    using arg_cong [OF assms, of "map fst"] arg_cong [OF assms, of "map snd"] by (simp_all add: identity_def comp_def)
  have ball: "(\<forall>d \<in> set ds'. P (identity d)) = (\<forall>d \<in> set ds. P (identity d))" for P
    using arg_cong [OF assms, of set] by (metis (no_types, lifting) imageE imageI list.set_map)
  note b = ball [of "\<lambda>(i, t, h). Q i t h" for Q, unfolded identity_def split_conv]
  show "documents_ok ds' n = documents_ok ds n"
    using ids keys b [of "\<lambda>i t h. i < n"] b [of "\<lambda>i t h. \<exists>g. h = Some g \<and> g \<noteq> [] \<and> CHR ''_'' \<notin> set g"]
    by (simp add: documents_ok_def)
  show "task_ok ds' n k = task_ok ds n k"
    using b [of "\<lambda>i t h. i = j \<longrightarrow> h = Some g \<and> t = tenant_id k" for j g] by (simp add: task_ok_def)
  show "live_row ds' x = live_row ds x"
    using b [of "\<lambda>i t h. \<not> (\<exists>g j. h = Some g \<and> owns (document_key t i, t) x \<and> row_id (snd x) = tenant_chunk_id t g j)"]
    by (auto simp: live_row_def)
qed

definition evolves :: "('c \<Rightarrow> (string \<times> 'e row) set) \<Rightarrow> (string \<times> 'e row) set \<Rightarrow> 'c kbase \<Rightarrow> 'c kbase \<Rightarrow> bool" where
  "evolves rows X s s' \<longleftrightarrow> map identity (kb_documents s') = map identity (kb_documents s) \<and> kb_next s' = kb_next s \<and>
     list_all2 same_task (kb_tasks s) (kb_tasks s') \<and> rows (kb_store s') \<subseteq> rows (kb_store s) \<union> X"

lemma same_task_refl [simp]: "same_task k k"
  by (simp add: same_task_def)

lemma same_task_trans: "same_task a b \<Longrightarrow> same_task b c \<Longrightarrow> same_task a c"
  by (simp add: same_task_def)

lemma evolves_refl [simp]: "evolves rows X s s"
  by (simp add: evolves_def list_all2_refl)

lemma evolves_trans: "evolves rows X s s1 \<Longrightarrow> evolves rows X s1 s2 \<Longrightarrow> evolves rows X s s2"
  unfolding evolves_def using list_all2_trans [where ?P1.0 = same_task and ?P2.0 = same_task and ?P3.0 = same_task]
  by (auto intro: same_task_trans)

lemma kb_inv_evolves:
  assumes "kb_inv rows s" "evolves rows X s s'" "\<forall>x \<in> X. live_row (kb_documents s) x \<or> public_row x"
  shows "kb_inv rows s'"
proof -
  note ev = assms(2) [unfolded evolves_def]
  note eq = same_identities [OF conjunct1 [OF ev]]
  have "task_ok (kb_documents s) (kb_next s) k'"
    if k': "k' \<in> set (kb_tasks s')" "task_type k' = task_type_value PROCESS_DOCUMENT" for k'
  proof -
    obtain k where "k \<in> set (kb_tasks s)" "same_task k k'"
      using ev k'(1) by (metis in_set_conv_nth list_all2_conv_all_nth)
    then show ?thesis using assms(1) k'(2) by (auto simp: kb_inv_def same_task_def task_ok_def)
  qed
  moreover have "live_row (kb_documents s) x \<or> public_row x" if "x \<in> rows (kb_store s')" for x
    using that ev assms(1,3) by (auto simp: kb_inv_def)
  ultimately show ?thesis using assms(1) ev by (simp add: kb_inv_def eq)
qed

lemma same_task_apply_update [simp]: "same_task k (apply_update n up k)"
  by (simp add: same_task_def apply_update_def Let_def split: option.splits)

lemma same_task_modify_first: "(\<And>k. same_task k (f k)) \<Longrightarrow> list_all2 same_task tb (modify_first P f tb)"
  by (induction tb) (auto simp: list_all2_refl)

lemma same_task_update: "list_all2 same_task tb (snd (update_task pid up n tb))"
  by (simp add: update_task_def Let_def modify_task_def same_task_modify_first list_all2_refl split: option.splits)

lemma identity_modify_first: "(\<And>d. identity (f d) = identity d) \<Longrightarrow> map identity (modify_first P f ds) = map identity ds"
  by (induction ds) auto

lemma set_document_status_documents:
  assumes "set_document_status doc t st extra s = (b, s')"
  shows "\<exists>ds. s' = s\<lparr>kb_documents := ds\<rparr> \<and> map identity ds = map identity (kb_documents s)"
proof (cases "\<exists>i d. doc = JInt i \<and> get_document s i = Some d \<and> d_tenant d = t")
  case True
  then obtain i d where d: "doc = JInt i" "get_document s i = Some d" "d_tenant d = t" by blast
  define f :: "document \<Rightarrow> document" where "f = (\<lambda>d. case extra of None \<Rightarrow> d\<lparr>d_status := st\<rparr>
    | Some (co, pe, n) \<Rightarrow> d\<lparr>d_status := st, d_company := co, d_period := pe, d_chunks := Some n\<rparr>)"
  have "identity (f d) = identity d" for d by (simp add: f_def identity_def split: option.splits prod.splits)
  then have "map identity (modify_first (\<lambda>d. d_id d = i) f (kb_documents s)) = map identity (kb_documents s)"
    by (rule identity_modify_first)
  moreover have "s' = s\<lparr>kb_documents := modify_first (\<lambda>d. d_id d = i) f (kb_documents s)\<rparr>"
    using assms d by (simp add: set_document_status_def f_def)
  ultimately show ?thesis by blast
next
  case False
  then have "s' = s" using assms by (auto simp: set_document_status_def split: json.splits option.splits if_splits)
  then show ?thesis by (intro exI [of _ "kb_documents s"]) simp
qed

lemma evolves_pieces [simp, intro]:
  "evolves rows X s (kb_write_task pid up s)" "evolves rows X s (kb_progress pid n s)"
  "evolves rows X s (kb_record_usage t us ev res m meta s)" "evolves rows X s (snd (set_document_status doc t st extra s))"
proof -
  obtain b s' where s': "set_document_status doc t st extra s = (b, s')" by fastforce
  with set_document_status_documents [OF s'] show "evolves rows X s (snd (set_document_status doc t st extra s))"
    by (auto simp: evolves_def list_all2_refl)
qed (simp_all add: evolves_def kb_write_task_def kb_progress_def kb_record_usage_def same_task_update list_all2_refl)

lemma evolves_finish: "evolves rows X s (finish_indexing pid t doc f n s)"
  unfolding finish_indexing_def Let_def
  by (rule evolves_trans, rule evolves_trans, rule evolves_trans, rule evolves_trans) (rule evolves_pieces)+

lemma evolves_andthen:
  assumes "evolves rows X s (snd p)" "\<And>x s1. fst p = Inr x \<Longrightarrow> s1 = snd p \<Longrightarrow> evolves rows X s1 (snd (k x s1))"
  shows "evolves rows X s (snd (andthen p k))"
proof (cases p)
  case (Pair r s1)
  with assms show ?thesis by (cases r) (auto simp: andthen_def intro: evolves_trans)
qed

lemma evolves_with_store:
  "(\<And>v c'. f (kb_store s) = (v, c') \<Longrightarrow> rows c' \<subseteq> rows (kb_store s) \<union> X) \<Longrightarrow> evolves rows X s (snd (with_store f s))"
  by (auto simp: evolves_def with_store_def list_all2_refl split: prod.splits)

lemma evolves_prepare: "evolves rows X s (snd (prepare_vectors env pid f s))"
proof -
  have e: "evolves rows X s (kb_progress pid 10 s)" "evolves rows X s (kb_progress pid 30 (kb_progress pid 10 s))"
    "evolves rows X s (kb_progress pid 50 (kb_progress pid 30 (kb_progress pid 10 s)))"
    by (meson evolves_pieces evolves_trans)+
  show ?thesis
    unfolding prepare_vectors_def Let_def by (auto simp: e split: sum.splits simp del: evolves_pieces)
qed

lemma wrapped_state: "wrapped w p = (v, c) \<Longrightarrow> \<exists>u. p = (u, c)"
  by (cases p) (simp add: wrapped_def)

lemma store_deletes:
  assumes "chroma_ok ch names rows"
  shows "delete_document ch d t c = (v, c') \<Longrightarrow> rows c' \<subseteq> rows c"
    and "delete_by_tenant ch t c = (v, c') \<Longrightarrow> rows c' \<subseteq> rows c"
    and "create_collection ch n c = (v, c') \<Longrightarrow> rows c' = rows c"
proof -
  show "delete_document ch d t c = (v, c') \<Longrightarrow> rows c' \<subseteq> rows c"
    using delete_document_frame [OF assms] by blast
  show "rows c' \<subseteq> rows c" if a: "delete_by_tenant ch t c = (v, c')"
  proof -
    obtain u where "delete_everywhere ch (tenant_where (Some t)) c = (u, c')"
      using wrapped_state [OF a [unfolded delete_by_tenant_def]] by blast
    then show ?thesis using delete_everywhere_rows(1) [OF assms] by blast
  qed
  show "rows c' = rows c" if a: "create_collection ch n c = (v, c')"
  proof -
    obtain u where "ch_get_or_create ch n c = (u, c')"
      using wrapped_state [OF a [unfolded create_collection_def]] by blast
    then show ?thesis by (rule chroma_collections(3) [OF assms])
  qed
qed

lemma evolves_store_vectors:
  assumes "chroma_ok (chroma_of env) names rows"
  shows "evolves rows (placed (strf_of env) ` set ds) s (snd (store_vectors env pid doc_id t ds s))"
  unfolding store_vectors_def
proof (intro evolves_andthen)
  let ?X = "placed (strf_of env) ` set ds" and ?ch = "chroma_of env"
  show "evolves rows ?X s (snd (with_store (create_collection ?ch ''financial_reports'') s))" for s
    by (rule evolves_with_store) (use store_deletes(3) [OF assms] in blast)
  show "evolves rows ?X s (snd (with_store (delete_document ?ch doc_id t) (kb_progress pid 80 s)))" for s
    by (rule evolves_trans [OF evolves_pieces(2)], rule evolves_with_store) (use store_deletes(1) [OF assms] in blast)
  show "evolves rows ?X s (snd (with_store (add_documents ?ch (strf_of env) ds) s))" for s
    by (rule evolves_with_store) (use add_documents_frame [OF assms] in blast)
qed simp

subsection \<open>Indexing keeps the invariant\<close>

lemma evolves_mono: "evolves rows X s s' \<Longrightarrow> X \<subseteq> Y \<Longrightarrow> evolves rows Y s s'"
  by (auto simp: evolves_def)

lemma map_of_fold_update:
  "map_of (fold (\<lambda>(k, v). AList.update k v) m b) k = (case map_of (rev m) k of None \<Rightarrow> map_of b k | Some v \<Rightarrow> Some v)"
  by (induction m arbitrary: b) (auto simp: update_conv' map_add_def split: option.splits)

definition index_rows :: "('c, 'e) kenv \<Rightarrow> string \<Rightarrow> int \<Rightarrow> int \<Rightarrow> string \<Rightarrow> (chunk \<times> 'e) list \<Rightarrow> (string \<times> 'e row) set" where
  "index_rows env fn t i h cvs = placed (strf_of env) ` chunk_vector env fn t (JInt i) (JStr h) ` set cvs"

lemma chunk_vector_row:
  assumes "h \<noteq> []"
  shows "collection_of strf (chunk_vector env fn t (JInt i) (JStr h) (c, e)) = ''financial_reports''"
    and "owns (document_key t i, t) (n, row_of (chunk_vector env fn t (JInt i) (JStr h) (c, e)))"
    and "row_id (row_of (chunk_vector env fn t (JInt i) (JStr h) (c, e))) = tenant_chunk_id t h (c_index c)"
  using assms
  by (simp_all add: collection_of_def chunk_vector_def chunk_metadata_def text_value_def get_or_def owns_def matches_def
      document_where_def row_of_def map_of_fold_update vector_document_id_def document_key_def chunk_identity_def Let_def)

lemma index_rows_live:
  assumes "d \<in> set ds" "d_id d = i" "d_tenant d = t" "d_sha d = Some h" "h \<noteq> []" "x \<in> index_rows env fn t i h cvs"
  shows "live_row ds x"
proof -
  obtain c e where x: "x = placed (strf_of env) (chunk_vector env fn t (JInt i) (JStr h) (c, e))"
    using assms(6) by (auto simp: index_rows_def)
  then have "owns (document_key t i, t) x" "row_id (snd x) = tenant_chunk_id t h (c_index c)"
    using chunk_vector_row [OF assms(5)] by (simp_all add: placed_def)
  then show ?thesis using assms(1-4) by (auto simp: live_row_def)
qed

lemma evolves_index_document:
  assumes "chroma_ok (chroma_of env) names rows" "\<And>cvs. index_rows env (filename_of env f) t i h cvs \<subseteq> Y"
  shows "evolves rows Y s (snd (index_document env pid t (JInt i) (JStr h) f s))"
  unfolding index_document_def
proof (rule evolves_andthen [OF evolves_prepare], rule evolves_andthen)
  fix cvs s1
  show "evolves rows Y s1 (snd (store_vectors env pid (vector_document_id t (JInt i) (strf_of env) (filename_of env f)) t
      (map (chunk_vector env (filename_of env f) t (JInt i) (JStr h)) cvs) s1))"
    by (rule evolves_mono [OF evolves_store_vectors [OF assms(1)]])
      (use assms(2) [of cvs] in \<open>simp add: index_rows_def image_image\<close>)
qed (simp add: evolves_finish)

lemma get_document_mem: "get_document s i = Some d \<Longrightarrow> d \<in> set (kb_documents s) \<and> d_id d = i"
  by (auto simp: get_document_def find_Some_iff)

lemma set_document_status_mine:
  assumes "set_document_status (JInt i) t st extra s = (True, s')"
  shows "\<exists>d \<in> set (kb_documents s). d_id d = i \<and> d_tenant d = t"
  using assms get_document_mem by (auto simp: set_document_status_def split: option.splits if_splits)

text \<open>A document task that refers to a document of its tenant refers to its content as well.\<close>

lemma task_document:
  assumes "kb_inv rows s" "get_task (kb_tasks s) pid = Some k" "task_type k = task_type_value PROCESS_DOCUMENT"
  obtains i h where "get_or (payload k) ''document_id'' JNull = JInt i" "get_or (payload k) ''content_sha256'' JNull = JStr h"
    and "\<forall>d \<in> set (kb_documents s). d_id d = i \<longrightarrow> d_sha d = Some h \<and> d_tenant d = tenant_id k \<and> h \<noteq> []"
proof -
  have "k \<in> set (kb_tasks s)" using assms(2) by (auto simp: get_task_def find_Some_iff)
  then have "task_ok (kb_documents s) (kb_next s) k" using assms(1,3) by (simp add: kb_inv_def)
  moreover have "\<forall>d \<in> set (kb_documents s). \<exists>h. d_sha d = Some h \<and> h \<noteq> []"
    using assms(1) by (auto simp: kb_inv_def documents_ok_def)
  ultimately show ?thesis using that by (fastforce simp: task_ok_def)
qed

lemma process_document_task_inv:
  assumes ok: "kenv_ok env names rows" and inv: "kb_inv rows s" and task: "get_task (kb_tasks s) pid = Some k"
    and type: "task_type k = task_type_value PROCESS_DOCUMENT"
  shows "kb_inv rows (process_document_task env pid s)"
proof -
  obtain i h where pay: "get_or (payload k) ''document_id'' JNull = JInt i" "get_or (payload k) ''content_sha256'' JNull = JStr h"
    and dh: "\<forall>d \<in> set (kb_documents s). d_id d = i \<longrightarrow> d_sha d = Some h \<and> d_tenant d = tenant_id k \<and> h \<noteq> []"
    by (rule task_document [OF inv task type])
  let ?t = "tenant_id k" and ?p = "get_or (payload k) ''file_path'' JNull" and ?Y = "{x. live_row (kb_documents s) x}"
  obtain mine s1 where s1: "set_document_status (JInt i) ?t ''processing'' None s = (mine, s1)" by fastforce
  have e1: "evolves rows ?Y s s1" using evolves_pieces(4) [of rows ?Y s "JInt i" ?t "''processing''" None] s1 by simp
  have idx: "evolves rows ?Y s1 (snd (index_document env pid ?t (JInt i) (JStr h) f s1))" if m: "mine" for f
  proof (rule evolves_index_document)
    show "chroma_ok (chroma_of env) names rows" using ok by (simp add: kenv_ok_def)
    obtain d where "d \<in> set (kb_documents s)" "d_id d = i" "d_tenant d = ?t"
      using set_document_status_mine [of i ?t "''processing''" None s s1] s1 m by auto
    then show "index_rows env (filename_of env f) ?t i h cvs \<subseteq> ?Y" for cvs using index_rows_live dh by blast
  qed
  have fail: "evolves rows ?Y s2 (snd (set_document_status (JInt i) ?t st None (kb_write_task pid up s2)))" for st up s2
    by (rule evolves_trans) (rule evolves_pieces)+
  have "evolves rows ?Y s1 (process_document_task env pid s)"
  proof (cases "mine \<and> file_of_payload env ?p s1 \<noteq> None")
    case True
    then obtain f where f: "file_of_payload env ?p s1 = Some f" by blast
    obtain r s2 where s2: "index_document env pid ?t (JInt i) (JStr h) f s1 = (r, s2)" by fastforce
    then have "evolves rows ?Y s1 s2" using idx True by (metis snd_conv)
    then show ?thesis
      using task pay s1 True f s2 fail by (cases r) (auto simp: process_document_task_def Let_def intro: evolves_trans)
  next
    case False
    then show ?thesis using task pay s1 fail by (auto simp: process_document_task_def Let_def)
  qed
  then show ?thesis using kb_inv_evolves [OF inv evolves_trans [OF e1]] by blast
qed

subsection \<open>Uploads, deletions, refreshes\<close>

lemma live_row_mono: "live_row ds x \<Longrightarrow> set ds \<subseteq> set ds' \<Longrightarrow> live_row ds' x"
  by (auto simp: live_row_def)

lemma documents_ok_add:
  assumes "documents_ok ds n" "\<not> list_ex (\<lambda>d. d_tenant d = t \<and> d_sha d = Some h) ds" "h \<noteq> []" "CHR ''_'' \<notin> set h"
  shows "documents_ok (ds @ [new_document fn content h t us n]) (n + 1)"
  using assms by (fastforce simp: documents_ok_def new_document_def list_ex_iff)

lemma accept_upload_inv:
  assumes ok: "kenv_ok env names rows" and inv: "kb_inv rows s" and new: "\<not> known_content t (sha256 env content) s"
  shows "kb_inv rows (snd (accept_upload env t us fn content uuid pid disk_ok s))"
proof (cases "disk_ok \<and> get_task (kb_tasks s) pid = None")
  case True
  let ?h = "sha256 env content" and ?n = "kb_next s"
  let ?d = "new_document fn content ?h t us ?n" and ?s = "snd (accept_upload env t us fn content uuid pid disk_ok s)"
  obtain k where k: "kb_documents ?s = kb_documents s @ [?d]" "kb_next ?s = ?n + 1" "kb_store ?s = kb_store s"
    "kb_tasks ?s = kb_tasks s @ [k]" "tenant_id k = t"
    "get_or (payload k) ''document_id'' JNull = JInt ?n" "get_or (payload k) ''content_sha256'' JNull = JStr ?h"
    using True by (simp add: accept_upload_def create_task_def kb_record_usage_def new_task_def get_or_def Let_def)
  have "documents_ok (kb_documents s @ [?d]) (?n + 1)"
  proof (rule documents_ok_add)
    show "\<not> list_ex (\<lambda>d. d_tenant d = t \<and> d_sha d = Some ?h) (kb_documents s)" using new by (simp add: known_content_def)
    show "?h \<noteq> []" "CHR ''_'' \<notin> set ?h" using ok by (auto simp: kenv_ok_def)
  qed (use inv in \<open>simp add: kb_inv_def\<close>)
  moreover have "task_ok (kb_documents s @ [?d]) (?n + 1) k"
    using k(5-7) inv by (auto simp: task_ok_def new_document_def kb_inv_def documents_ok_def)
  moreover have "task_ok (kb_documents s @ [?d]) (?n + 1) j" if "task_ok (kb_documents s) ?n j" for j
    using that by (auto simp: task_ok_def new_document_def)
  moreover have "live_row (kb_documents s @ [?d]) x" if "live_row (kb_documents s) x" for x :: "string \<times> 'b row"
    using that by (rule live_row_mono) auto
  ultimately show ?thesis using inv k by (auto simp: kb_inv_def)
next
  case False
  then show ?thesis
    using inv by (auto simp: accept_upload_def create_task_def kb_inv_def Let_def)
qed

lemma upload_pdf_inv:
  assumes "kenv_ok env names rows" "kb_inv rows s"
  shows "kb_inv rows (snd (upload_pdf env t us name body uuid pid disk_ok s))"
  using assms accept_upload_inv [OF assms]
  by (auto simp: upload_pdf_def Let_def split: sum.splits)

lemma set_remove_first: "set (remove_first P xs) \<subseteq> set xs"
  by (induction xs) auto

lemma remove_first_keeps: "x \<in> set xs \<Longrightarrow> \<not> P x \<Longrightarrow> x \<in> set (remove_first P xs)"
  by (induction xs) auto

lemma distinct_remove_first: "distinct (map f xs) \<Longrightarrow> distinct (map f (remove_first P xs))"
  by (induction xs) (use set_remove_first in \<open>fastforce+\<close>)

lemma documents_ok_remove: "documents_ok ds n \<Longrightarrow> documents_ok (remove_first P ds) n"
  unfolding documents_ok_def using set_remove_first [of P ds] by (auto simp: distinct_remove_first)

lemma kb_inv_files: "kb_inv rows (s\<lparr>kb_files := fs\<rparr>) = kb_inv rows s"
  by (simp add: kb_inv_def)

lemma kb_inv_fewer_rows:
  "kb_inv rows s \<Longrightarrow> rows c \<subseteq> rows (kb_store s) \<Longrightarrow> kb_inv rows (s\<lparr>kb_store := c\<rparr>)"
  by (auto simp: kb_inv_def)

lemma remove_document_inv:
  assumes inv: "kb_inv rows s" and d: "d \<in> set (kb_documents s)" "d_id d = i" "d_tenant d = t"
    and gone: "\<forall>x \<in> rows (kb_store s). \<not> owns (document_key t i, t) x"
  shows "kb_inv rows (remove_document i s)"
proof -
  let ?ds = "kb_documents s"
  have only: "d' = d" if "d' \<in> set ?ds" "d_id d' = i" for d'
    using inv d(1,2) that by (auto simp: kb_inv_def documents_ok_def distinct_map inj_on_def)
  have "live_row (remove_first (\<lambda>d. d_id d = i) ?ds) x"
    if x: "x \<in> rows (kb_store s)" "live_row ?ds x" for x
  proof -
    obtain d' h j where d': "d' \<in> set ?ds" "d_sha d' = Some h" "owns (document_key (d_tenant d') (d_id d'), d_tenant d') x"
      "row_id (snd x) = tenant_chunk_id (d_tenant d') h j" using x(2) by (auto simp: live_row_def)
    have "d_id d' \<noteq> i" using only [OF d'(1)] d'(3) gone x(1) d by blast
    then have "d' \<in> set (remove_first (\<lambda>d. d_id d = i) ?ds)" using d'(1) remove_first_keeps by metis
    then show ?thesis using d'(2-4) by (auto simp: live_row_def)
  qed
  moreover have "task_ok (remove_first (\<lambda>d. d_id d = i) ?ds) n k" if "task_ok ?ds n k" for n k
    using that set_remove_first [of "\<lambda>d. d_id d = i" ?ds] by (fastforce simp: task_ok_def)
  ultimately show ?thesis
    using inv by (auto simp: kb_inv_def remove_document_def documents_ok_remove)
qed

lemma delete_parts_inv:
  assumes ok: "kenv_ok env names rows" and inv: "kb_inv rows s" and d: "d \<in> set (kb_documents s)" "d_id d = i" "d_tenant d = t"
  shows "kb_inv rows (snd (delete_parts env t i staged commit_ok cleanup_ok s))"
proof -
  have ch: "chroma_ok (chroma_of env) names rows" using ok by (simp add: kenv_ok_def)
  obtain r c where rc: "delete_document (chroma_of env) (document_key t i) t (kb_store s) = (r, c)" by fastforce
  let ?s = "s\<lparr>kb_store := c\<rparr>"
  have inv': "kb_inv rows ?s" by (rule kb_inv_fewer_rows [OF inv store_deletes(1) [OF ch rc]])
  have rem: "kb_inv rows (remove_document i ?s)" if "r = Inr ()"
  proof (rule remove_document_inv [OF inv'])
    show "\<forall>x \<in> rows (kb_store ?s). \<not> owns (document_key t i, t) x"
      using delete_document_done [OF ch] rc that by auto
  qed (use d in simp_all)
  show ?thesis
    using inv inv' rem rc [unfolded document_key_def]
    by (cases r; cases "store_opens env"; cases commit_ok; cases cleanup_ok)
      (simp_all add: delete_parts_def andthen_def with_store_def kb_inv_files Let_def)
qed

lemma delete_knowledge_document_inv:
  assumes ok: "kenv_ok env names rows" and inv: "kb_inv rows s"
  shows "kb_inv rows (snd (delete_knowledge_document env t us i rnd commit_ok cleanup_ok s))"
proof (cases "find (\<lambda>d. d_id d = i \<and> d_tenant d = t) (kb_documents s)")
  case (Some d)
  then have d: "d \<in> set (kb_documents s)" "d_id d = i" "d_tenant d = t" by (auto simp: find_Some_iff)
  have "kb_inv rows (snd (delete_parts env t i staged commit_ok cleanup_ok (s\<lparr>kb_files := fs\<rparr>)))" for staged fs
    by (rule delete_parts_inv [OF ok, of _ d]) (use inv d in \<open>simp_all add: kb_inv_files\<close>)
  then show ?thesis
    using inv Some by (auto simp: delete_knowledge_document_def kb_inv_files split: prod.splits option.splits)
qed (use inv in \<open>simp add: delete_knowledge_document_def\<close>)

lemma public_vector_row: "public_row (placed strf (public_vector env p))"
  by (simp add: public_row_def placed_def public_vector_def matches_def tenant_where_def row_of_def map_of_fold_update
      PUBLIC_TENANT_ID_def split: prod.splits)

lemma refresh_inv:
  assumes ok: "kenv_ok env names rows" and inv: "kb_inv rows s"
  shows "kb_inv rows (snd (refresh_knowledge_base env folder s))"
proof -
  have ch: "chroma_ok (chroma_of env) names rows" using ok by (simp add: kenv_ok_def)
  let ?X = "{x :: string \<times> 'b row. public_row x}"
  have add: "evolves rows ?X s1 (snd (with_store (add_documents (chroma_of env) (strf_of env) (map (public_vector env) cvs)) s1))" for s1 cvs
  proof (rule evolves_with_store)
    fix v c' assume "add_documents (chroma_of env) (strf_of env) (map (public_vector env) cvs) (kb_store s1) = (v, c')"
    from add_documents_frame [OF ch this] show "rows c' \<subseteq> rows (kb_store s1) \<union> ?X"
      using public_vector_row [of "strf_of env" env] by auto
  qed
  have "evolves rows ?X s (snd (refresh_knowledge_base env folder s))"
    unfolding refresh_knowledge_base_def
  proof (intro evolves_andthen)
    fix chunks and vs :: "'b list" and s1
    have "evolves rows ?X s1 (snd (andthen (with_store (create_collection (chroma_of env) ''financial_reports'') s1) (\<lambda>_ s.
         andthen (with_store (delete_by_tenant (chroma_of env) PUBLIC_TENANT_ID) s) (\<lambda>_ s.
           with_store (add_documents (chroma_of env) (strf_of env) (map (public_vector env) (zip chunks vs))) s))))"
    proof (intro evolves_andthen add)
      show "evolves rows ?X s (snd (with_store (create_collection (chroma_of env) ''financial_reports'') s))" for s
        by (rule evolves_with_store) (use store_deletes(3) [OF ch] in blast)
      show "evolves rows ?X s (snd (with_store (delete_by_tenant (chroma_of env) PUBLIC_TENANT_ID) s))" for s
        by (rule evolves_with_store) (use store_deletes(2) [OF ch] in blast)
    qed
    then show "evolves rows ?X s1 (snd (if length vs \<noteq> length chunks
       then (Inl (Exn ''ValueError'' ''Embedding model returned an unexpected vector count''), s1)
       else andthen (with_store (create_collection (chroma_of env) ''financial_reports'') s1) (\<lambda>_ s.
         andthen (with_store (delete_by_tenant (chroma_of env) PUBLIC_TENANT_ID) s) (\<lambda>_ s.
           with_store (add_documents (chroma_of env) (strf_of env) (map (public_vector env) (zip chunks vs))) s))))"
      by simp
  qed simp_all
  then show ?thesis using kb_inv_evolves [OF inv] by simp
qed

lemma kb_step_inv:
  assumes "kb_step env s s'" "kenv_ok env names rows" "kb_inv rows s"
  shows "kb_inv rows s'"
  using assms(1)
proof cases
  case (worker tasks' n u)
  then have "evolves rows {} s s'" by (simp add: evolves_def)
  then show ?thesis using kb_inv_evolves [OF assms(3)] by simp
next
  case (index pid k)
  then show ?thesis using process_document_task_inv [OF assms(2,3)] by simp
qed (simp_all add: upload_pdf_inv [OF assms(2,3)] delete_knowledge_document_inv [OF assms(2,3)] refresh_inv [OF assms(2,3)])

lemma kb_reachable_inv:
  "kb_reachable env s0 s \<Longrightarrow> kenv_ok env names rows \<Longrightarrow> kb_inv rows s0 \<Longrightarrow> kb_inv rows s"
  by (induction rule: kb_reachable.induct) (auto intro: kb_step_inv)

subsection \<open>Properties\<close>

definition kb_start :: "('c \<Rightarrow> (string \<times> 'e row) set) \<Rightarrow> 'c kbase \<Rightarrow> bool" where
  "kb_start rows s \<longleftrightarrow> kb_documents s = [] \<and> kb_tasks s = [] \<and> rows (kb_store s) = {}"

lemma kb_start_inv: "kb_start rows s \<Longrightarrow> kb_inv rows s"
  by (simp add: kb_start_def kb_inv_def documents_ok_def)

lemma owns_metadata:
  "owns (k, t) (n, w) \<Longrightarrow> row_meta w = Some m \<Longrightarrow> map_of m ''document_id'' = Some (JStr k) \<and> map_of m ''tenant_id'' = Some (JInt t)"
  by (simp add: owns_def matches_def document_where_def)

text \<open>
  C2. A search never leaves the tenant's live documents. Start with an empty knowledge base and let
  uploads, indexing runs (also failing ones), deletions, refreshes of the public documents and
  the worker's bookkeeping happen in any order: every result of a similarity search for a
  tenant other than the public one is a chunk of a document that is in the document table at
  that moment and belongs to that very tenant. So deletion leaves no vector behind that could
  still be found, and no indexing run of one tenant writes where another tenant reads.
\<close>

theorem search_finds_live_documents:
  assumes "kenv_ok env names rows" "kb_start rows s0" "kb_reachable env s0 s" "t \<noteq> 0"
    and "chroma_similarity_search (chroma_of env) (strf_of env) q k (Some t) (kb_store s) = Inr rs" "r \<in> set rs"
  shows "\<exists>d h i. d \<in> set (kb_documents s) \<and> d_tenant d = t \<and> r_doc r = cps (document_key t (d_id d)) \<and>
    d_sha d = Some h \<and> r_chunk r = cps (tenant_chunk_id t h i)"
proof -
  have inv: "kb_inv rows s" by (rule kb_reachable_inv [OF assms(3,1) kb_start_inv [OF assms(2)]])
  have "chroma_ok (chroma_of env) names rows" using assms(1) by (simp add: kenv_ok_def)
  then obtain n w m d where w: "(n, w) \<in> rows (kb_store s)" "matches (tenant_where (Some t)) w" "row_meta w = Some m"
    "map_of m ''document_id'' = Some d" "r_doc r = cps (text_value (strf_of env) d)" "r_chunk r = cps (row_id w)"
    using similarity_search_sound [OF _ assms(5,6)] by blast
  have t: "map_of m ''tenant_id'' = Some (JInt t)" using w(2,3) by (simp add: matches_def tenant_where_def)
  have "\<not> public_row (n, w)" using t w(3) assms(4) by (auto simp: public_row_def matches_def tenant_where_def)
  then have "live_row (kb_documents s) (n, w)" using inv w(1) by (auto simp: kb_inv_def)
  then obtain e h i where e: "e \<in> set (kb_documents s)" "d_sha e = Some h"
    "owns (document_key (d_tenant e) (d_id e), d_tenant e) (n, w)" "row_id w = tenant_chunk_id (d_tenant e) h i"
    by (auto simp: live_row_def)
  with owns_metadata [OF e(3) w(3)] t w(4) have "d_tenant e = t" "d = JStr (document_key t (d_id e))" by auto
  then show ?thesis using e w(5,6) by (auto simp: text_value_def)
qed

subsection \<open>The outcome of an indexing run\<close>

definition task_has :: "string \<Rightarrow> (obj task \<Rightarrow> bool) \<Rightarrow> 'c kbase \<Rightarrow> bool" where
  "task_has pid P s \<longleftrightarrow> (\<exists>k. get_task (kb_tasks s) pid = Some k \<and> P k)"

lemma task_has_write:
  assumes "task_has pid P s" "\<And>k. P k \<Longrightarrow> Q (apply_update (kb_now s) up k)"
  shows "task_has pid Q (kb_write_task pid up s)"
proof -
  obtain k where k: "get_task (kb_tasks s) pid = Some k" "P k" using assms(1) by (auto simp: task_has_def)
  then have "get_task (kb_tasks (kb_write_task pid up s)) pid = Some (apply_update (kb_now s) up k)"
    using tasks.lookup_modify_same [of "apply_update (kb_now s) up" "kb_tasks s" pid k]
    by (simp add: kb_write_task_def update_task_def Let_def)
  then show ?thesis using assms(2) k(2) by (auto simp: task_has_def)
qed

lemma set_document_status_keeps:
  "kb_tasks (snd (set_document_status doc t st extra s)) = kb_tasks s" "kb_store (snd (set_document_status doc t st extra s)) = kb_store s"
  "kb_files (snd (set_document_status doc t st extra s)) = kb_files s" "kb_now (snd (set_document_status doc t st extra s)) = kb_now s"
proof -
  obtain b s' where s': "set_document_status doc t st extra s = (b, s')" by fastforce
  with set_document_status_documents [OF s'] show
    "kb_tasks (snd (set_document_status doc t st extra s)) = kb_tasks s" "kb_store (snd (set_document_status doc t st extra s)) = kb_store s"
    "kb_files (snd (set_document_status doc t st extra s)) = kb_files s" "kb_now (snd (set_document_status doc t st extra s)) = kb_now s"
    by auto
qed

lemma task_has_keeps [simp]:
  "task_has pid P (kb_record_usage t us ev res n meta s) = task_has pid P s"
  "task_has pid P (snd (set_document_status doc t st extra s)) = task_has pid P s"
  "task_has pid P (s\<lparr>kb_store := c\<rparr>) = task_has pid P s"
  by (simp_all add: task_has_def kb_record_usage_def set_document_status_keeps)

abbreviation "running k \<equiv> status k = RUNNING"

lemma running_progress: "task_has pid running s \<Longrightarrow> task_has pid running (kb_progress pid n s)"
  unfolding kb_progress_def by (erule task_has_write) (simp add: no_update_def)

lemma progress_keeps:
  "kb_store (kb_progress pid n s) = kb_store s" "kb_documents (kb_progress pid n s) = kb_documents s"
  by (simp_all add: kb_progress_def kb_write_task_def)

lemma running_prepare:
  assumes "task_has pid running s" "prepare_vectors env pid f s = (r, s')"
  shows "task_has pid running s'" "kb_store s' = kb_store s" "kb_documents s' = kb_documents s"
proof -
  have "s' \<in> {s, kb_progress pid 10 s, kb_progress pid 30 (kb_progress pid 10 s), kb_progress pid 50 (kb_progress pid 30 (kb_progress pid 10 s))}"
    using assms(2) by (auto simp: prepare_vectors_def Let_def split: if_splits sum.splits)
  then show "task_has pid running s'" "kb_store s' = kb_store s" "kb_documents s' = kb_documents s"
    using assms(1) by (auto simp: running_progress progress_keeps)
qed

lemma prepare_vectors_Inr:
  assumes "prepare_vectors env pid f s = (Inr cvs, s')"
  shows "load_pdf_chunks (uni env) (pdf_options env) (CHUNK_SIZE env) (CHUNK_OVERLAP env) (filename_of env f)
      (pdf_of env (uf_bytes f)) = Inr (map fst cvs)"
    and "embed_passages env (map c_text (map fst cvs)) = Inr (map snd cvs)"
  using assms by (auto simp: prepare_vectors_def Let_def simp del: map_map split: if_splits sum.splits)

lemma load_pdf_chunks_indices:
  assumes "load_pdf_chunks u opt sz ov name file = Inr cs"
  shows "distinct (map c_index cs)"
proof -
  obtain d where "chunk_document u sz ov d = Inr cs"
    using assms by (auto simp: load_pdf_chunks_def split: sum.splits list.splits)
  then obtain xs where "cs = map (\<lambda>(i, c). c\<lparr>c_index := i\<rparr>) (enumerate 0 xs)"
    by (auto simp: chunk_document_def split: sum.splits)
  then show ?thesis using map_index_c_index(1) [of 0 xs] by simp
qed

lemma with_store_result: "with_store f s = (r, s') \<longleftrightarrow> (\<exists>c. f (kb_store s) = (r, c) \<and> s' = s\<lparr>kb_store := c\<rparr>)"
  by (auto simp: with_store_def split: prod.splits)

lemma andthen_Inr: "andthen p k = (Inr y, s') \<longleftrightarrow> (\<exists>x s1. p = (Inr x, s1) \<and> k x s1 = (Inr y, s'))"
  by (auto simp: andthen_def split: prod.splits sum.splits)

lemma andthen_keeps:
  "P (snd p) \<Longrightarrow> (\<And>x s1. P s1 \<Longrightarrow> P (snd (k x s1))) \<Longrightarrow> P (snd (andthen p k))"
  by (cases p; cases "fst p") (auto simp: andthen_def)

lemma running_store_vectors:
  assumes "task_has pid running s" "store_vectors env pid doc_id t ds s = (r, s')"
  shows "task_has pid running s' \<and> kb_documents s' = kb_documents s"
proof -
  let ?P = "\<lambda>s'. task_has pid running s' \<and> kb_documents s' = kb_documents s"
  have st: "?P (snd (with_store g s1))" if "?P s1" for g s1
    using that by (simp add: with_store_def split: prod.splits)
  have pr: "?P (kb_progress pid 80 s1)" if "?P s1" for s1
    using that by (simp add: running_progress progress_keeps)
  have "?P (snd (store_vectors env pid doc_id t ds s))"
    unfolding store_vectors_def by (intro andthen_keeps [where P = ?P] st pr) (use assms(1) in simp_all)
  then show ?thesis by (simp add: assms(2))
qed

lemma store_vectors_Inr:
  assumes "store_vectors env pid doc_id t ds s = (Inr (), s')" and ok: "chroma_ok (chroma_of env) names rows"
  obtains c1 c2 where "rows c1 = rows (kb_store s)" "delete_document (chroma_of env) doc_id t c1 = (Inr (), c2)"
    "add_documents (chroma_of env) (strf_of env) ds c2 = (Inr (), kb_store s')"
proof -
  from assms(1) obtain c1 c2 c3 where "create_collection (chroma_of env) ''financial_reports'' (kb_store s) = (Inr (), c1)"
    "delete_document (chroma_of env) doc_id t c1 = (Inr (), c2)"
    "add_documents (chroma_of env) (strf_of env) ds c2 = (Inr (), c3)" "kb_store s' = c3"
    by (auto simp: store_vectors_def andthen_Inr with_store_result kb_progress_def kb_write_task_def)
  then show ?thesis using that store_deletes(3) [OF ok] by blast
qed

lemma no_foreign_slot:
  assumes inv: "kb_inv rows s" and d: "d \<in> set (kb_documents s)" "d_id d = i" "d_tenant d = t" "d_sha d = Some h"
    and x: "x \<in> rows (kb_store s)" "\<not> owns (document_key t i, t) x"
  shows "row_id (snd x) \<noteq> tenant_chunk_id t h j"
proof
  assume eq: "row_id (snd x) = tenant_chunk_id t h j"
  have docs: "documents_ok (kb_documents s) (kb_next s)" using inv by (simp add: kb_inv_def)
  have "\<not> public_row x" using eq public_id_not_tenant by (auto simp: public_row_def)
  then have "live_row (kb_documents s) x" using inv x(1) by (auto simp: kb_inv_def)
  then obtain e g l where e: "e \<in> set (kb_documents s)" "d_sha e = Some g"
    "owns (document_key (d_tenant e) (d_id e), d_tenant e) x" "row_id (snd x) = tenant_chunk_id (d_tenant e) g l"
    by (auto simp: live_row_def)
  have "CHR ''_'' \<notin> set h" "CHR ''_'' \<notin> set g" using docs d(1,4) e(1,2) by (fastforce simp: documents_ok_def)+
  then have "d_tenant e = t" "g = h" using tenant_chunk_id_inj e(4) eq by metis+
  then have "(d_tenant e, d_sha e) = (d_tenant d, d_sha d)" using e(2) d(3,4) by simp
  then have "e = d" using docs e(1) d(1) unfolding documents_ok_def distinct_map inj_on_def by blast
  then show False using e(3) x(2) d(2,3) by simp
qed

lemma index_replaces:
  assumes ok: "kenv_ok env names rows" and inv: "kb_inv rows s"
    and d: "d \<in> set (kb_documents s)" "d_id d = i" "d_tenant d = t" "d_sha d = Some h" "h \<noteq> []"
    and prep: "prepare_vectors env pid f s = (Inr cvs, s1)"
    and st: "store_vectors env pid (vector_document_id t (JInt i) (strf_of env) (filename_of env f)) t
        (map (chunk_vector env (filename_of env f) t (JInt i) (JStr h)) cvs) s1 = (Inr (), s2)"
    and run: "task_has pid running s"
  shows "rows (kb_store s2) = {x \<in> rows (kb_store s). \<not> owns (document_key t i, t) x} \<union> index_rows env (filename_of env f) t i h cvs"
proof -
  let ?ds = "map (chunk_vector env (filename_of env f) t (JInt i) (JStr h)) cvs"
  have ch: "chroma_ok (chroma_of env) names rows" using ok by (simp add: kenv_ok_def)
  have key: "vector_document_id t (JInt i) (strf_of env) (filename_of env f) = document_key t i"
    by (simp add: vector_document_id_def document_key_def text_value_def)
  obtain c1 c2 where c: "rows c1 = rows (kb_store s1)" "delete_document (chroma_of env) (document_key t i) t c1 = (Inr (), c2)"
    "add_documents (chroma_of env) (strf_of env) ?ds c2 = (Inr (), kb_store s2)"
    using store_vectors_Inr [OF st ch] unfolding key by blast
  have r1: "rows c1 = rows (kb_store s)" using c(1) running_prepare(2) [OF run prep] by simp
  have ids: "map vd_chunk_id ?ds = map (tenant_chunk_id t h) (map c_index (map fst cvs))"
    using d(5) by (simp add: chunk_vector_def chunk_identity_def Let_def split_def comp_def)
  have "inj (tenant_chunk_id t h)" by (auto simp: inj_on_def tenant_chunk_id_def dest: str_nat_inj)
  then have "distinct (map vd_chunk_id ?ds)"
    unfolding ids using load_pdf_chunks_indices [OF prepare_vectors_Inr(1) [OF prep]] by (simp add: distinct_map inj_on_def)
  moreover have "\<not> same_slot x (placed (strf_of env) v)"
    if x: "x \<in> rows c1" "\<not> owns (document_key t i, t) x" and v: "v \<in> set ?ds" for x v
  proof -
    obtain j where "row_id (row_of v) = tenant_chunk_id t h j" using v by (auto simp: chunk_vector_row(3) [OF d(5)])
    then show ?thesis
      using no_foreign_slot [OF inv d(1-4), of x j] x r1 by (simp add: same_slot_def placed_def)
  qed
  ultimately have "rows (kb_store s2) = {x \<in> rows c1. \<not> owns (document_key t i, t) x} \<union> placed (strf_of env) ` set ?ds"
    using chroma_store.replace_exact [OF ch, where k = "(document_key t i, t)" and s = c1 and ?s1.0 = c2 and strf = "strf_of env"
        and ds = ?ds and ?s2.0 = "kb_store s2"] c(2,3) by (simp del: set_map)
  then show ?thesis by (simp add: index_rows_def r1 image_image)
qed

lemma modify_first_only:
  assumes "distinct (map g xs)" "\<And>x. g (f x) = g x" "y \<in> set (modify_first (\<lambda>x. g x = i) f xs)" "g y = i"
  shows "\<exists>x \<in> set xs. y = f x"
  using assms
proof (induction xs)
  case (Cons x xs)
  show ?case
  proof (cases "g x = i")
    case True
    then have "y \<notin> set xs" using Cons.prems(1,4) by (auto simp: image_iff)
    then show ?thesis using Cons.prems(3) True by auto
  next
    case False
    then show ?thesis using Cons by auto
  qed
qed simp

lemma set_document_status_effect:
  assumes "distinct (map d_id (kb_documents s))" "set_document_status (JInt i) t st extra s = (b, s')"
    and "\<exists>d \<in> set (kb_documents s). d_id d = i \<and> d_tenant d = t" "d \<in> set (kb_documents s')" "d_id d = i"
  shows "b \<and> d_status d = st \<and> (\<forall>co pe n. extra = Some (co, pe, n) \<longrightarrow> d_chunks d = Some n)"
proof -
  obtain e where e: "e \<in> set (kb_documents s)" "d_id e = i" "d_tenant e = t" using assms(3) by blast
  define f :: "document \<Rightarrow> document" where "f = (\<lambda>d. case extra of None \<Rightarrow> d\<lparr>d_status := st\<rparr>
    | Some (co, pe, n) \<Rightarrow> d\<lparr>d_status := st, d_company := co, d_period := pe, d_chunks := Some n\<rparr>)"
  have f: "d_id (f x) = d_id x" "d_status (f x) = st" "extra = Some (co, pe, n) \<Longrightarrow> d_chunks (f x) = Some n" for x co pe n
    by (simp_all add: f_def split: option.splits prod.splits)
  have "get_document s i = Some e"
    using assms(1) e by (auto simp: get_document_def find_Some_iff distinct_conv_nth in_set_conv_nth)
  then have b: "b" "kb_documents s' = modify_first (\<lambda>d. d_id d = i) f (kb_documents s)"
    using assms(2) e(3) by (auto simp: set_document_status_def f_def)
  obtain x where "d = f x"
    using modify_first_only [where g = d_id and f = f, OF assms(1) f(1) assms(4) [unfolded b(2)] assms(5)] by blast
  then show ?thesis using b(1) f by simp
qed

lemma record_usage_keeps [simp]:
  "kb_documents (kb_record_usage t us ev res n meta s) = kb_documents s" "kb_store (kb_record_usage t us ev res n meta s) = kb_store s"
  by (simp_all add: kb_record_usage_def)

lemma write_task_keeps [simp]:
  "kb_documents (kb_write_task pid up s) = kb_documents s" "kb_store (kb_write_task pid up s) = kb_store s"
  by (simp_all add: kb_write_task_def)

lemma finish_indexing_facts:
  assumes "task_has pid running s" "distinct (map d_id (kb_documents s))" "\<exists>d \<in> set (kb_documents s). d_id d = i \<and> d_tenant d = t"
  shows "task_has pid (\<lambda>k. status k = SUCCESS) (finish_indexing pid t (JInt i) fn n s)"
    and "kb_store (finish_indexing pid t (JInt i) fn n s) = kb_store s"
    and "d \<in> set (kb_documents (finish_indexing pid t (JInt i) fn n s)) \<Longrightarrow> d_id d = i \<Longrightarrow> d_status d = ''indexed'' \<and> d_chunks d = Some n"
proof -
  define up where "up = \<lparr>u_status = Some SUCCESS, u_progress = Some 100, u_error = None,
    u_result = Some [(''chunks'', JInt n), (''company'', JStr (get_company fn)), (''document_id'', JInt i)]\<rparr>"
  let ?s1 = "kb_write_task pid up s"
  have s1: "task_has pid (\<lambda>k. status k = SUCCESS) ?s1" by (rule task_has_write [OF assms(1)]) (simp add: up_def)
  show "task_has pid (\<lambda>k. status k = SUCCESS) (finish_indexing pid t (JInt i) fn n s)"
    using s1 by (simp add: finish_indexing_def Let_def up_def)
  show "kb_store (finish_indexing pid t (JInt i) fn n s) = kb_store s"
    by (simp add: finish_indexing_def Let_def set_document_status_keeps)
  obtain b s2 where s2: "set_document_status (JInt i) t ''indexed'' (Some (get_company fn, get_quarter fn, n)) ?s1 = (b, s2)"
    by fastforce
  assume "d \<in> set (kb_documents (finish_indexing pid t (JInt i) fn n s))" "d_id d = i"
  then have "d \<in> set (kb_documents s2)" using s2 by (simp add: finish_indexing_def Let_def up_def)
  then show "d_status d = ''indexed'' \<and> d_chunks d = Some n"
    using set_document_status_effect [OF _ s2 _ _ \<open>d_id d = i\<close>] assms(2,3) by simp
qed

lemma fail_facts:
  fixes s :: "'c kbase" and e :: string
  assumes "task_has pid running s" "distinct (map d_id (kb_documents s))"
    and "\<forall>d \<in> set (kb_documents s). d_id d = i \<longrightarrow> d_tenant d = t"
  defines "s' \<equiv> snd (set_document_status (JInt i) t ''failed'' None (kb_write_task pid (fail_update e) s))"
  shows "task_has pid (\<lambda>k. status k = FAILED \<and> error_message k = Some e) s'"
    and "d \<in> set (kb_documents s') \<Longrightarrow> d_id d = i \<Longrightarrow> d_status d = ''failed''"
proof -
  let ?s1 = "kb_write_task pid (fail_update e) s"
  have "task_has pid (\<lambda>k. status k = FAILED \<and> error_message k = Some e) ?s1"
    by (rule task_has_write [OF assms(1)]) (simp add: fail_update_def no_update_def apply_update_def Let_def)
  then show "task_has pid (\<lambda>k. status k = FAILED \<and> error_message k = Some e) s'" by (simp add: s'_def)
  obtain b s2 where s2: "set_document_status (JInt i) t ''failed'' None ?s1 = (b, s2)" by fastforce
  assume d: "d \<in> set (kb_documents s')" "d_id d = i"
  have "map identity (kb_documents s') = map identity (kb_documents s)"
    using set_document_status_documents [OF s2] s2 by (auto simp: s'_def)
  then have "identity d \<in> identity ` set (kb_documents s)" using d(1) by (metis image_eqI list.set_map)
  then have "\<exists>d \<in> set (kb_documents ?s1). d_id d = i \<and> d_tenant d = t" using assms(3) d(2) by (auto simp: identity_def)
  then show "d_status d = ''failed''"
    using set_document_status_effect [OF _ s2 _ _ d(2)] assms(2) d(1) s2 by (simp add: s'_def)
qed

text \<open>What the parser and the embedding model give for a file.\<close>

definition parse_of :: "('c, 'e) kenv \<Rightarrow> upload_file \<Rightarrow> (chunk \<times> 'e) list \<Rightarrow> bool" where
  "parse_of env f cvs \<longleftrightarrow>
     load_pdf_chunks (uni env) (pdf_options env) (CHUNK_SIZE env) (CHUNK_OVERLAP env) (filename_of env f)
       (pdf_of env (uf_bytes f)) = Inr (map fst cvs) \<and>
     embed_passages env (map c_text (map fst cvs)) = Inr (map snd cvs)"

text \<open>The two ways an indexing run may end, seen from the state after it.\<close>

definition indexed_state :: "('c, 'e) kenv \<Rightarrow> ('c \<Rightarrow> (string \<times> 'e row) set) \<Rightarrow> string \<Rightarrow> int \<Rightarrow> int \<Rightarrow> string \<Rightarrow> upload_file
    \<Rightarrow> 'c kbase \<Rightarrow> 'c kbase \<Rightarrow> bool" where
  "indexed_state env rows pid t i h f s s' \<longleftrightarrow> task_has pid (\<lambda>k. status k = SUCCESS) s' \<and> (\<exists>cvs. parse_of env f cvs \<and>
     rows (kb_store s') = {x \<in> rows (kb_store s). \<not> owns (document_key t i, t) x} \<union> index_rows env (filename_of env f) t i h cvs \<and>
     (\<forall>d \<in> set (kb_documents s'). d_id d = i \<longrightarrow> d_status d = ''indexed'' \<and> d_chunks d = Some (int (length cvs))))"

definition failed_state :: "string \<Rightarrow> int \<Rightarrow> 'c kbase \<Rightarrow> bool" where
  "failed_state pid i s' \<longleftrightarrow> task_has pid (\<lambda>k. status k = FAILED \<and> error_message k \<noteq> None) s' \<and>
     (\<forall>d \<in> set (kb_documents s'). d_id d = i \<longrightarrow> d_status d = ''failed'')"

lemma failed_state_fail:
  assumes "task_has pid running s" "distinct (map d_id (kb_documents s))" "\<forall>d \<in> set (kb_documents s). d_id d = i \<longrightarrow> d_tenant d = t"
  shows "failed_state pid i (snd (set_document_status (JInt i) t ''failed'' None (kb_write_task pid (fail_update e) s)))"
  using fail_facts [where pid = pid and s = s and i = i and t = t and e = e, OF assms]
  by (auto simp: failed_state_def task_has_def)

lemma index_document_outcome:
  assumes ok: "kenv_ok env names rows" and inv: "kb_inv rows s" and run: "task_has pid running s"
    and d: "d \<in> set (kb_documents s)" "d_id d = i" "d_tenant d = t" "d_sha d = Some h" "h \<noteq> []"
    and idx: "index_document env pid t (JInt i) (JStr h) f s = (r, s')"
  shows "is_ok r \<and> indexed_state env rows pid t i h f s s' \<or> \<not> is_ok r \<and> task_has pid running s' \<and> kb_documents s' = kb_documents s"
proof -
  let ?n = "filename_of env f"
  obtain r2 s2 where prep: "prepare_vectors env pid f s = (r2, s2)" by fastforce
  note p2 = running_prepare [OF run prep]
  show ?thesis
  proof (cases r2)
    case (Inl e)
    then show ?thesis using idx prep p2 by (auto simp: index_document_def andthen_def)
  next
    case (Inr cvs)
    obtain r3 s3 where st: "store_vectors env pid (vector_document_id t (JInt i) (strf_of env) ?n) t
        (map (chunk_vector env ?n t (JInt i) (JStr h)) cvs) s2 = (r3, s3)" by fastforce
    have p3: "task_has pid running s3" "kb_documents s3 = kb_documents s"
      using running_store_vectors [OF p2(1) st] p2(3) by simp_all
    show ?thesis
    proof (cases r3)
      case l: (Inl e)
      then show ?thesis using idx prep Inr st p3 by (auto simp: index_document_def andthen_def)
    next
      case r: (Inr u)
      have s': "r = Inr ()" "s' = finish_indexing pid t (JInt i) ?n (int (length cvs)) s3"
        using idx prep Inr st r by (simp_all add: index_document_def andthen_def)
      have "distinct (map d_id (kb_documents s3))" "\<exists>d \<in> set (kb_documents s3). d_id d = i \<and> d_tenant d = t"
        using d inv p3(2) by (auto simp: kb_inv_def documents_ok_def)
      note fin = finish_indexing_facts [where fn = ?n and n = "int (length cvs)", OF p3(1) this, folded s'(2)]
      have "rows (kb_store s3) = {x \<in> rows (kb_store s). \<not> owns (document_key t i, t) x} \<union> index_rows env ?n t i h cvs"
        using index_replaces [OF ok inv d prep [unfolded Inr] _ run] st r by simp
      then have "indexed_state env rows pid t i h f s s'"
        unfolding indexed_state_def parse_of_def using fin prepare_vectors_Inr [OF prep [unfolded Inr]] by (metis (no_types, lifting))
      then show ?thesis by (simp add: s'(1))
    qed
  qed
qed

lemma not_mine:
  assumes "set_document_status (JInt i) t st extra s = (False, s')" "distinct (map d_id (kb_documents s))"
    and "\<forall>d \<in> set (kb_documents s). d_id d = i \<longrightarrow> d_tenant d = t"
  shows "s' = s \<and> (\<forall>d \<in> set (kb_documents s). d_id d \<noteq> i)"
proof -
  have "get_document s i = None" "s' = s"
    using assms get_document_mem by (fastforce simp: set_document_status_def split: option.splits if_splits)+
  then show ?thesis by (auto simp: get_document_def find_None_iff)
qed

lemma file_of_payload_files: "kb_files s1 = kb_files s \<Longrightarrow> file_of_payload env p s1 = file_of_payload env p s"
  by (cases p) (simp_all add: file_of_payload_def file_at_def)

lemma process_document_task_outcome:
  assumes ok: "kenv_ok env names rows" and inv: "kb_inv rows s"
    and task: "get_task (kb_tasks s) pid = Some k" "task_type k = task_type_value PROCESS_DOCUMENT" "status k = RUNNING"
  obtains i h where "get_or (payload k) ''document_id'' JNull = JInt i" "get_or (payload k) ''content_sha256'' JNull = JStr h"
    "(\<exists>f. file_of_payload env (get_or (payload k) ''file_path'' JNull) s = Some f \<and>
        indexed_state env rows pid (tenant_id k) i h f s (process_document_task env pid s)) \<or>
     failed_state pid i (process_document_task env pid s)"
proof -
  obtain i h where pay: "get_or (payload k) ''document_id'' JNull = JInt i" "get_or (payload k) ''content_sha256'' JNull = JStr h"
    and dh: "\<forall>d \<in> set (kb_documents s). d_id d = i \<longrightarrow> d_sha d = Some h \<and> d_tenant d = tenant_id k \<and> h \<noteq> []"
    by (rule task_document [OF inv task(1,2)])
  let ?t = "tenant_id k" and ?p = "get_or (payload k) ''file_path'' JNull" and ?s' = "process_document_task env pid s"
  obtain mine s1 where s1: "set_document_status (JInt i) ?t ''processing'' None s = (mine, s1)" by fastforce
  have ids1: "map identity (kb_documents s1) = map identity (kb_documents s)"
    using set_document_status_documents [OF s1] by auto
  have inv1: "kb_inv rows s1"
    using kb_inv_evolves [OF inv evolves_pieces(4) [of rows "{}" s "JInt i" ?t "''processing''" None]] s1 by simp
  have keep: "kb_store s1 = kb_store s" "task_has pid running s1" "kb_files s1 = kb_files s"
    using set_document_status_keeps(1-3) [of "JInt i" ?t "''processing''" None s] s1 task by (simp_all add: task_has_def)
  have path: "file_of_payload env p s1 = file_of_payload env p s" for p by (rule file_of_payload_files [OF keep(3)])
  have dist: "distinct (map d_id (kb_documents s1))" using inv1 by (simp add: kb_inv_def documents_ok_def)
  have same: "identity ` set (kb_documents s1) = identity ` set (kb_documents s)" using ids1 by (metis list.set_map)
  have dh1: "d_sha d = Some h \<and> d_tenant d = ?t \<and> h \<noteq> []" if "d \<in> set (kb_documents s1)" "d_id d = i" for d
  proof -
    have "identity d \<in> identity ` set (kb_documents s)" using same that(1) by blast
    then show ?thesis using dh that(2) by (auto simp: identity_def)
  qed
  have "(\<exists>f. file_of_payload env ?p s = Some f \<and> indexed_state env rows pid ?t i h f s ?s') \<or> failed_state pid i ?s'"
  proof (cases mine)
    case False
    then have "s1 = s" "\<forall>d \<in> set (kb_documents s). d_id d \<noteq> i"
      using not_mine [of i ?t _ _ s s1] s1 dh inv by (auto simp: kb_inv_def documents_ok_def)
    moreover have "?s' = kb_write_task pid (fail_update ''Document does not belong to this tenant'') s1"
      using task(1) pay s1 False by (simp add: process_document_task_def Let_def)
    moreover have "task_has pid (\<lambda>k. status k = FAILED \<and> error_message k \<noteq> None) ?s'"
      unfolding calculation(3) by (rule task_has_write [OF keep(2)]) (simp add: fail_update_def no_update_def apply_update_def Let_def)
    ultimately show ?thesis by (simp add: failed_state_def)
  next
    case True
    show ?thesis
    proof (cases "file_of_payload env ?p s1")
      case None
      then have "?s' = snd (set_document_status (JInt i) ?t ''failed'' None
          (kb_write_task pid (fail_update (''File not found: '' @ text_value (strf_of env) ?p)) s1))"
        using task(1) pay s1 True by (simp add: process_document_task_def Let_def)
      then show ?thesis using failed_state_fail [OF keep(2) dist] dh1 by simp
    next
      case (Some f)
      obtain d0 where "d0 \<in> set (kb_documents s)" "d_id d0 = i"
        using set_document_status_mine [of i ?t "''processing''" None s s1] s1 True by auto
      then have "identity d0 \<in> identity ` set (kb_documents s1)" using same by blast
      then obtain d where d: "d \<in> set (kb_documents s1)" "d_id d = i" using \<open>d_id d0 = i\<close> by (auto simp: identity_def)
      obtain r s2 where idx: "index_document env pid ?t (JInt i) (JStr h) f s1 = (r, s2)" by fastforce
      have sp: "?s' = (case r of Inr _ \<Rightarrow> s2
          | Inl e \<Rightarrow> snd (set_document_status (JInt i) ?t ''failed'' None (kb_write_task pid (fail_update (exn_msg e)) s2)))"
        using task(1) pay s1 True Some idx by (simp add: process_document_task_def Let_def)
      show ?thesis
        using index_document_outcome [OF ok inv1 keep(2) d _ _ _ idx] dh1 [OF d] sp dist keep(1)
          failed_state_fail [of pid s2 i ?t] dh1 Some [unfolded path]
        by (cases r) (auto simp: indexed_state_def)
    qed
  qed
  with pay show thesis by (rule that)
qed

subsection \<open>What an indexing run leaves alone\<close>

text \<open>
  The vectors that do not belong to the document, the rows of all other documents, the other tasks and the files are
  the same after the run, and the vectors that are new come from \<open>X\<close>.
\<close>

definition confined :: "('c \<Rightarrow> (string \<times> 'e row) set) \<Rightarrow> int \<Rightarrow> int \<Rightarrow> string \<Rightarrow> 'c kbase \<Rightarrow> 'c kbase \<Rightarrow> bool" where
  "confined rows t i pid s s' \<longleftrightarrow>
     (\<forall>x. \<not> owns (document_key t i, t) x \<longrightarrow> (x \<in> rows (kb_store s') \<longleftrightarrow> x \<in> rows (kb_store s))) \<and>
     (\<forall>d. d_id d \<noteq> i \<longrightarrow> (d \<in> set (kb_documents s') \<longleftrightarrow> d \<in> set (kb_documents s))) \<and>
     (\<forall>j. j \<noteq> pid \<longrightarrow> get_task (kb_tasks s') j = get_task (kb_tasks s) j) \<and> kb_files s' = kb_files s"

lemma confined_refl [simp]: "confined rows t i pid s s"
  by (simp add: confined_def)

lemma confined_trans: "confined rows t i pid s s1 \<Longrightarrow> confined rows t i pid s1 s2 \<Longrightarrow> confined rows t i pid s s2"
  by (simp add: confined_def)

lemma get_task_update_other: "j \<noteq> pid \<Longrightarrow> get_task (snd (update_task pid u tm d)) j = get_task d j"
  by (auto simp: update_task_def Let_def tasks.lookup_modify_other split: option.splits)

lemma set_modify_first_other:
  "(\<And>x. g (f x) = g x) \<Longrightarrow> g y \<noteq> i \<Longrightarrow> y \<in> set (modify_first (\<lambda>x. g x = i) f xs) \<longleftrightarrow> y \<in> set xs"
  by (induction xs) auto

lemma confined_pieces [simp, intro]:
  "confined rows t i pid s (kb_write_task pid up s)" "confined rows t i pid s (kb_progress pid n s)"
  "confined rows t i pid s (kb_record_usage t' us ev res m meta s)" "confined rows t i pid s (snd (set_document_status (JInt i) t' st extra s))"
proof -
  show "confined rows t i pid s (snd (set_document_status (JInt i) t' st extra s))"
  proof (cases "\<exists>d. get_document s i = Some d \<and> d_tenant d = t'")
    case True
    then obtain d where d: "get_document s i = Some d" "d_tenant d = t'" by blast
    define f :: "document \<Rightarrow> document" where "f = (\<lambda>d. case extra of None \<Rightarrow> d\<lparr>d_status := st\<rparr>
      | Some (co, pe, n) \<Rightarrow> d\<lparr>d_status := st, d_company := co, d_period := pe, d_chunks := Some n\<rparr>)"
    have f: "d_id (f x) = d_id x" for x by (simp add: f_def split: option.splits prod.splits)
    have "snd (set_document_status (JInt i) t' st extra s) = s\<lparr>kb_documents := modify_first (\<lambda>d. d_id d = i) f (kb_documents s)\<rparr>"
      using d by (simp add: set_document_status_def f_def)
    then show ?thesis using set_modify_first_other [where g = d_id and f = f, OF f] by (simp add: confined_def)
  next
    case False
    then have "snd (set_document_status (JInt i) t' st extra s) = s"
      by (auto simp: set_document_status_def split: option.splits)
    then show ?thesis by simp
  qed
qed (simp_all add: confined_def kb_write_task_def kb_progress_def kb_record_usage_def get_task_update_other)

lemma confined_with_store:
  assumes "\<And>v c' x. f (kb_store s) = (v, c') \<Longrightarrow> \<not> owns (document_key t i, t) x \<Longrightarrow> x \<in> rows c' \<longleftrightarrow> x \<in> rows (kb_store s)"
  shows "confined rows t i pid s (snd (with_store f s))"
  using assms by (auto simp: confined_def with_store_def split: prod.splits)

lemma confined_prepare: "confined rows t i pid s (snd (prepare_vectors env pid f s))"
proof -
  have e: "confined rows t i pid s (kb_progress pid 10 s)" "confined rows t i pid s (kb_progress pid 30 (kb_progress pid 10 s))"
    "confined rows t i pid s (kb_progress pid 50 (kb_progress pid 30 (kb_progress pid 10 s)))"
    by (meson confined_pieces confined_trans)+
  show ?thesis
    unfolding prepare_vectors_def Let_def by (auto simp: e split: sum.splits simp del: confined_pieces)
qed

lemma confined_finish: "confined rows t i pid s (finish_indexing pid t (JInt i) fn n s)"
  unfolding finish_indexing_def Let_def
  by (rule confined_trans, rule confined_trans, rule confined_trans, rule confined_trans) (rule confined_pieces)+

text \<open>Replacing the vectors of the document: its new chunks displace none of the others.\<close>

lemma confined_store_vectors:
  assumes ok: "chroma_ok (chroma_of env) names rows"
    and new: "\<forall>v \<in> set ds. owns (document_key t i, t) (placed (strf_of env) v)"
    and apart: "\<forall>x \<in> rows (kb_store s). \<not> owns (document_key t i, t) x \<longrightarrow> (\<forall>v \<in> set ds. \<not> same_slot x (placed (strf_of env) v))"
    and start: "confined rows t i pid s s1"
  shows "confined rows t i pid s (snd (store_vectors env pid (document_key t i) t ds s1))"
  unfolding store_vectors_def
proof (intro andthen_keeps [where P = "confined rows t i pid s"])
  show "confined rows t i pid s (snd (store_opens env, s1))" using start by simp
next
  fix s2 assume s2: "confined rows t i pid s s2"
  show "confined rows t i pid s (snd (with_store (create_collection (chroma_of env) ''financial_reports'') s2))"
    by (rule confined_trans [OF s2], rule confined_with_store) (use store_deletes(3) [OF ok] in blast)
next
  fix s2 assume s2: "confined rows t i pid s s2"
  show "confined rows t i pid s (snd (with_store (delete_document (chroma_of env) (document_key t i) t) (kb_progress pid 80 s2)))"
    by (rule confined_trans [OF s2], rule confined_trans [OF confined_pieces(2)], rule confined_with_store)
      (use delete_document_frame [OF ok] in blast)
next
  fix s2 assume s2: "confined rows t i pid s s2"
  show "confined rows t i pid s (snd (with_store (add_documents (chroma_of env) (strf_of env) ds) s2))"
  proof (rule confined_trans [OF s2], rule confined_with_store)
    fix v c' and x :: "string \<times> 'b row"
    assume add: "add_documents (chroma_of env) (strf_of env) ds (kb_store s2) = (v, c')" and x: "\<not> owns (document_key t i, t) x"
    have "x \<in> rows (kb_store s2) \<longleftrightarrow> x \<in> rows (kb_store s)" using s2 x unfolding confined_def by blast
    then show "x \<in> rows c' \<longleftrightarrow> x \<in> rows (kb_store s2)"
      using add_documents_frame [OF ok add] apart new x by blast
  qed
qed

lemma confined_index_document:
  assumes ok: "kenv_ok env names rows" and inv: "kb_inv rows s"
    and d: "d \<in> set (kb_documents s)" "d_id d = i" "d_tenant d = t" "d_sha d = Some h" "h \<noteq> []"
  shows "confined rows t i pid s (snd (index_document env pid t (JInt i) (JStr h) f s))"
proof -
  have ch: "chroma_ok (chroma_of env) names rows" using ok by (simp add: kenv_ok_def)
  have key: "vector_document_id t (JInt i) (strf_of env) (filename_of env f) = document_key t i"
    by (simp add: vector_document_id_def document_key_def text_value_def)
  let ?vs = "\<lambda>cvs. map (chunk_vector env (filename_of env f) t (JInt i) (JStr h)) cvs"
  have new: "\<forall>v \<in> set (?vs cvs). owns (document_key t i, t) (placed (strf_of env) v)" for cvs
    using chunk_vector_row(2) [OF d(5)] by (auto simp: placed_def)
  have apart: "\<forall>x \<in> rows (kb_store s). \<not> owns (document_key t i, t) x \<longrightarrow> (\<forall>v \<in> set (?vs cvs). \<not> same_slot x (placed (strf_of env) v))" for cvs
    using no_foreign_slot [OF inv d(1-4)] by (auto simp: same_slot_def placed_def chunk_vector_row(3) [OF d(5)])
  show ?thesis
    unfolding index_document_def key
    by (intro andthen_keeps [where P = "confined rows t i pid s"] confined_prepare confined_store_vectors [OF ch new apart])
      (auto intro: confined_trans confined_finish)
qed

lemma evolves_index_parse:
  assumes "chroma_ok (chroma_of env) names rows"
  shows "evolves rows {x. \<exists>cvs. parse_of env f cvs \<and> x \<in> index_rows env (filename_of env f) t i h cvs} s
    (snd (index_document env pid t (JInt i) (JStr h) f s))"
  unfolding index_document_def
proof (rule evolves_andthen [OF evolves_prepare], rule evolves_andthen)
  fix cvs s1
  assume "fst (prepare_vectors env pid f s) = Inr cvs"
  then have "parse_of env f cvs" unfolding parse_of_def using prepare_vectors_Inr by (metis prod.collapse)
  then show "evolves rows {x. \<exists>cvs. parse_of env f cvs \<and> x \<in> index_rows env (filename_of env f) t i h cvs} s1
      (snd (store_vectors env pid (vector_document_id t (JInt i) (strf_of env) (filename_of env f)) t
      (map (chunk_vector env (filename_of env f) t (JInt i) (JStr h)) cvs) s1))"
    by (intro evolves_mono [OF evolves_store_vectors [OF assms]]) (auto simp: index_rows_def)
qed (simp add: evolves_finish)

text \<open>The footprint of a whole run, however it ends.\<close>

lemma process_document_task_confined:
  assumes ok: "kenv_ok env names rows" and inv: "kb_inv rows s"
    and task: "get_task (kb_tasks s) pid = Some k" "task_type k = task_type_value PROCESS_DOCUMENT"
    and pay: "get_or (payload k) ''document_id'' JNull = JInt i" "get_or (payload k) ''content_sha256'' JNull = JStr h"
  shows "confined rows (tenant_id k) i pid s (process_document_task env pid s)"
    and "rows (kb_store (process_document_task env pid s)) \<subseteq> rows (kb_store s) \<union>
      {x. \<exists>f cvs. file_of_payload env (get_or (payload k) ''file_path'' JNull) s = Some f \<and> parse_of env f cvs \<and>
        x \<in> index_rows env (filename_of env f) (tenant_id k) i h cvs}"
proof -
  let ?t = "tenant_id k" and ?p = "get_or (payload k) ''file_path'' JNull" and ?s' = "process_document_task env pid s"
  let ?X = "{x. \<exists>f cvs. file_of_payload env ?p s = Some f \<and> parse_of env f cvs \<and> x \<in> index_rows env (filename_of env f) ?t i h cvs}"
  have dh: "d_sha d = Some h \<and> d_tenant d = ?t \<and> h \<noteq> []" if "d \<in> set (kb_documents s)" "d_id d = i" for d
    by (rule task_document [OF inv task]) (use pay that in auto)
  obtain mine s1 where s1: "set_document_status (JInt i) ?t ''processing'' None s = (mine, s1)" by fastforce
  have c1: "confined rows ?t i pid s s1" and e1: "evolves rows ?X s s1"
    using confined_pieces(4) [of rows ?t i pid s ?t "''processing''" None] evolves_pieces(4) [of rows ?X s "JInt i" ?t "''processing''" None] s1
    by simp_all
  have inv1: "kb_inv rows s1"
    using kb_inv_evolves [OF inv evolves_pieces(4) [of rows "{}" s "JInt i" ?t "''processing''" None]] s1 by simp
  have path: "file_of_payload env ?p s1 = file_of_payload env ?p s"
    using c1 by (intro file_of_payload_files) (simp add: confined_def)
  have fail: "confined rows ?t i pid s2 (snd (set_document_status (JInt i) ?t st None (kb_write_task pid up s2)))"
    "evolves rows ?X s2 (snd (set_document_status (JInt i) ?t st None (kb_write_task pid up s2)))" for st up s2
    by (rule confined_trans [OF confined_pieces(1) confined_pieces(4)], rule evolves_trans [OF evolves_pieces(1) evolves_pieces(4)])
  have "confined rows ?t i pid s1 ?s' \<and> evolves rows ?X s1 ?s'"
  proof (cases "mine \<and> file_of_payload env ?p s1 \<noteq> None")
    case True
    then obtain f where f: "file_of_payload env ?p s1 = Some f" by blast
    obtain d0 where "d0 \<in> set (kb_documents s)" "d_id d0 = i"
      using set_document_status_mine [of i ?t "''processing''" None s s1] s1 True by auto
    moreover have "map identity (kb_documents s1) = map identity (kb_documents s)" using e1 by (simp add: evolves_def)
    then have "identity ` set (kb_documents s1) = identity ` set (kb_documents s)" by (metis list.set_map)
    ultimately have "identity d0 \<in> identity ` set (kb_documents s1)" by blast
    then obtain d where d: "d \<in> set (kb_documents s1)" "identity d = identity d0" by auto
    then have d1: "d_id d = i" "d_tenant d = ?t" "d_sha d = Some h" "h \<noteq> []"
      using dh [OF \<open>d0 \<in> set (kb_documents s)\<close> \<open>d_id d0 = i\<close>] \<open>d_id d0 = i\<close> by (auto simp: identity_def)
    obtain r s2 where s2: "index_document env pid ?t (JInt i) (JStr h) f s1 = (r, s2)" by fastforce
    have "confined rows ?t i pid s1 s2" using confined_index_document [OF ok inv1 d(1) d1, of pid f] s2 by simp
    moreover have "evolves rows {x. \<exists>cvs. parse_of env f cvs \<and> x \<in> index_rows env (filename_of env f) ?t i h cvs} s1 s2"
      using evolves_index_parse [of env names rows f ?t i h s1 pid] ok s2 by (simp add: kenv_ok_def)
    then have "evolves rows ?X s1 s2" by (rule evolves_mono) (use f path in auto)
    ultimately show ?thesis
      using task pay s1 True f s2 fail by (cases r) (auto simp: process_document_task_def Let_def intro: evolves_trans confined_trans)
  next
    case False
    then show ?thesis using task pay s1 fail by (auto simp: process_document_task_def Let_def)
  qed
  with c1 e1 have "confined rows ?t i pid s ?s'" "evolves rows ?X s ?s'" by (blast intro: confined_trans evolves_trans)+
  then show "confined rows ?t i pid s ?s'" "rows (kb_store ?s') \<subseteq> rows (kb_store s) \<union> ?X" by (simp_all add: evolves_def)
qed

text \<open>
  C24. An indexing run has one of two outcomes, and table, store and task agree on it. In every
  reachable state, running the handler on a claimed document task touches nothing else, however it ends: the
  vectors of all other documents, their rows, the other tasks and the files stay exactly as they are. It ends either with the task
  \<open>SUCCESS\<close>, the document marked \<open>indexed\<close> with its number of chunks, and the vectors of the document being
  exactly the chunks of the file the task names, parsed and embedded now, under the content hash of the task
  (chunks of an earlier, longer version do not survive); or with the task \<open>FAILED\<close> with a message, the document marked
  \<open>failed\<close>, and its vectors being some of those it had and of those of that file.
\<close>

theorem indexing_outcome:
  assumes "kenv_ok env names rows" "kb_start rows s0" "kb_reachable env s0 s"
    and "get_task (kb_tasks s) pid = Some k" "task_type k = task_type_value PROCESS_DOCUMENT" "status k = RUNNING"
    and "s' = process_document_task env pid s" "file = file_of_payload env (get_or (payload k) ''file_path'' JNull) s"
  shows "\<exists>i h k'. get_or (payload k) ''document_id'' JNull = JInt i \<and> get_or (payload k) ''content_sha256'' JNull = JStr h \<and>
    get_task (kb_tasks s') pid = Some k' \<and>
    (\<forall>x. \<not> owns (document_key (tenant_id k) i, tenant_id k) x \<longrightarrow> (x \<in> rows (kb_store s') \<longleftrightarrow> x \<in> rows (kb_store s))) \<and>
    (\<forall>d. d_id d \<noteq> i \<longrightarrow> (d \<in> set (kb_documents s') \<longleftrightarrow> d \<in> set (kb_documents s))) \<and>
    (\<forall>j. j \<noteq> pid \<longrightarrow> get_task (kb_tasks s') j = get_task (kb_tasks s) j) \<and> kb_files s' = kb_files s \<and>
    (status k' = SUCCESS \<and> (\<exists>f cvs. file = Some f \<and> parse_of env f cvs \<and>
        rows (kb_store s') = {x \<in> rows (kb_store s). \<not> owns (document_key (tenant_id k) i, tenant_id k) x} \<union>
          index_rows env (filename_of env f) (tenant_id k) i h cvs \<and>
        (\<forall>d \<in> set (kb_documents s'). d_id d = i \<longrightarrow> d_status d = ''indexed'' \<and> d_chunks d = Some (int (length cvs)))) \<or>
     status k' = FAILED \<and> error_message k' \<noteq> None \<and> (\<forall>d \<in> set (kb_documents s'). d_id d = i \<longrightarrow> d_status d = ''failed'') \<and>
       (\<forall>x \<in> rows (kb_store s'). x \<in> rows (kb_store s) \<or>
          (\<exists>f cvs. file = Some f \<and> parse_of env f cvs \<and> x \<in> index_rows env (filename_of env f) (tenant_id k) i h cvs)))"
proof -
  have inv: "kb_inv rows s" by (rule kb_reachable_inv [OF assms(3,1) kb_start_inv [OF assms(2)]])
  obtain i h where pay: "get_or (payload k) ''document_id'' JNull = JInt i" "get_or (payload k) ''content_sha256'' JNull = JStr h"
    and out: "(\<exists>f. file = Some f \<and> indexed_state env rows pid (tenant_id k) i h f s s') \<or> failed_state pid i s'"
    using process_document_task_outcome [OF assms(1) inv assms(4-6)] assms(7,8) by metis
  have conf: "confined rows (tenant_id k) i pid s s'"
    and old_or_new: "\<forall>x \<in> rows (kb_store s'). x \<in> rows (kb_store s) \<or>
      (\<exists>f cvs. file = Some f \<and> parse_of env f cvs \<and> x \<in> index_rows env (filename_of env f) (tenant_id k) i h cvs)"
    using process_document_task_confined [OF assms(1) inv assms(4,5) pay] unfolding assms(7,8) by blast+
  note frame = conf [unfolded confined_def, THEN conjunct1] conf [unfolded confined_def, THEN conjunct2, THEN conjunct1]
    conf [unfolded confined_def, THEN conjunct2, THEN conjunct2, THEN conjunct1]
    conf [unfolded confined_def, THEN conjunct2, THEN conjunct2, THEN conjunct2]
  from out show ?thesis
  proof
    assume "\<exists>f. file = Some f \<and> indexed_state env rows pid (tenant_id k) i h f s s'"
    then obtain f where f: "file = Some f" "indexed_state env rows pid (tenant_id k) i h f s s'" by blast
    then obtain k' cvs where k': "get_task (kb_tasks s') pid = Some k'" "status k' = SUCCESS"
      and cvs: "parse_of env f cvs"
        "rows (kb_store s') = {x \<in> rows (kb_store s). \<not> owns (document_key (tenant_id k) i, tenant_id k) x} \<union>
          index_rows env (filename_of env f) (tenant_id k) i h cvs"
        "\<forall>d \<in> set (kb_documents s'). d_id d = i \<longrightarrow> d_status d = ''indexed'' \<and> d_chunks d = Some (int (length cvs))"
      unfolding indexed_state_def task_has_def by blast
    show ?thesis
      by (intro exI [of _ i] exI [of _ h] exI [of _ k'] conjI pay k' frame disjI1 exI [of _ f] exI [of _ cvs] f(1) cvs)
  next
    assume "failed_state pid i s'"
    then obtain k' where k': "get_task (kb_tasks s') pid = Some k'" "status k' = FAILED" "error_message k' \<noteq> None"
      and docs: "\<forall>d \<in> set (kb_documents s'). d_id d = i \<longrightarrow> d_status d = ''failed''"
      unfolding failed_state_def task_has_def by blast
    show ?thesis
      by (intro exI [of _ i] exI [of _ h] exI [of _ k'] conjI pay k' frame disjI2 docs old_or_new)
  qed
qed

subsection \<open>Deletion is all or nothing\<close>

definition staged_name :: "int \<Rightarrow> (string \<Rightarrow> string \<times> bool) \<Rightarrow> string \<Rightarrow> string" where
  "staged_name i rnd d = ''.deleting-'' @ str_int i @ ''-'' @ fst (rnd d)"

lemma dir_exists_rename:
  "dir_exists base x (rename_dir base old new fs) \<longleftrightarrow> (x \<noteq> old \<and> dir_exists base x fs) \<or> (x = new \<and> dir_exists base old fs)"
proof (induction fs)
  case (Cons f fs)
  then show ?case
    by (cases "uf_root f = base"; cases "uf_dir f = old"; cases "uf_dir f = x") (auto simp: dir_exists_def rename_dir_def)
qed (simp add: dir_exists_def rename_dir_def)

lemma rename_back: "\<not> dir_exists base new fs \<Longrightarrow> rename_dir base new old (rename_dir base old new fs) = fs"
  unfolding rename_dir_def map_map
proof (rule map_idI)
  fix f assume "\<not> dir_exists base new fs" "f \<in> set fs"
  then have "\<not> (uf_root f = base \<and> uf_dir f = new)" by (auto simp: dir_exists_def list_ex_iff)
  moreover have "f\<lparr>uf_dir := old\<rparr> = f" if "uf_dir f = old" using that by (cases f) simp
  ultimately show "((\<lambda>f. if uf_root f = base \<and> uf_dir f = new then f\<lparr>uf_dir := old\<rparr> else f) \<circ>
      (\<lambda>f. if uf_root f = base \<and> uf_dir f = old then f\<lparr>uf_dir := new\<rparr> else f)) f = f"
    by auto
qed

lemma restore_last:
  assumes "dir_exists base d fs" "\<not> dir_exists base new fs" "d \<noteq> new"
  shows "restore_upload_directories base (staged @ [(d, new)]) (rename_dir base d new fs) = restore_upload_directories base staged fs"
  using assms by (simp add: restore_upload_directories_def dir_exists_rename rename_back)

lemma remove_last:
  assumes "\<not> dir_exists base new fs"
  shows "remove_staged base (staged @ [(d, new)]) (rename_dir base d new fs) =
    filter (\<lambda>f. \<not> (uf_root f = base \<and> uf_dir f = d)) (remove_staged base staged fs)"
  using assms by (induction fs) (auto simp: remove_staged_def rename_dir_def dir_exists_def)

lemma stage_facts:
  assumes "stage_upload_directories base i rnd ds staged fs = (r, fs')"
    and "distinct ds" "\<forall>d \<in> set ds. dir_exists base d fs" "\<forall>d \<in> set ds. \<not> dir_exists base (staged_name i rnd d) fs"
    and "inj_on (fst \<circ> rnd) (set ds)"
  shows "case r of
      None \<Rightarrow> fs' = restore_upload_directories base staged fs
    | Some staged' \<Rightarrow> restore_upload_directories base staged' fs' = restore_upload_directories base staged fs \<and>
        remove_staged base staged' fs' = filter (\<lambda>f. \<not> (uf_root f = base \<and> uf_dir f \<in> set ds)) (remove_staged base staged fs)"
  using assms
proof (induction ds arbitrary: staged fs)
  case (Cons d ds)
  let ?new = "staged_name i rnd d"
  have d: "dir_exists base d fs" "\<not> dir_exists base ?new fs" "d \<noteq> ?new" using Cons.prems(3,4) by auto
  show ?case
  proof (cases "snd (rnd d)")
    case False
    then show ?thesis using Cons.prems(1) by auto
  next
    case True
    let ?st = "staged @ [(d, ?new)]" and ?fs = "rename_dir base d ?new fs"
    have run: "stage_upload_directories base i rnd ds ?st ?fs = (r, fs')"
      using Cons.prems(1) True by (simp add: staged_name_def Let_def)
    have other: "staged_name i rnd e \<noteq> ?new" if "e \<in> set ds" for e
      using Cons.prems(2,5) that by (auto simp: staged_name_def inj_on_def)
    have "case r of
        None \<Rightarrow> fs' = restore_upload_directories base ?st ?fs
      | Some staged' \<Rightarrow> restore_upload_directories base staged' fs' = restore_upload_directories base ?st ?fs \<and>
          remove_staged base staged' fs' = filter (\<lambda>f. \<not> (uf_root f = base \<and> uf_dir f \<in> set ds)) (remove_staged base ?st ?fs)"
    proof (rule Cons.IH [OF run])
      show "\<forall>e \<in> set ds. dir_exists base e ?fs" using Cons.prems(2,3) by (auto simp: dir_exists_rename)
      show "\<forall>e \<in> set ds. \<not> dir_exists base (staged_name i rnd e) ?fs" using Cons.prems(4) other by (auto simp: dir_exists_rename)
      show "inj_on (fst \<circ> rnd) (set ds)" using Cons.prems(5) by (auto simp: inj_on_def)
    qed (use Cons.prems(2) in simp)
    moreover have "filter (\<lambda>f. \<not> (uf_root f = base \<and> uf_dir f \<in> set ds)) (remove_staged base ?st ?fs) =
        filter (\<lambda>f. \<not> (uf_root f = base \<and> uf_dir f \<in> set (d # ds))) (remove_staged base staged fs)"
      unfolding remove_last [OF d(2)] filter_filter by (rule filter_cong) auto
    ultimately show ?thesis using restore_last [OF d] by (simp split: option.splits)
  qed
qed auto

lemma upload_directories_facts:
  "distinct (upload_directories t i fs)" "\<forall>d \<in> set (upload_directories t i fs). dir_exists (str_int t) d fs"
  "filter (\<lambda>f. \<not> (uf_root f = str_int t \<and> uf_dir f \<in> set (upload_directories t i fs))) fs =
   filter (\<lambda>f. \<not> (uf_root f = str_int t \<and> is_prefix_of (str_int i @ ''-'') (uf_dir f))) fs"
  by (auto simp: upload_directories_def dir_exists_def list_ex_iff intro!: filter_cong)

text \<open>Staging gives every file of the directories its new directory and moves no other file.\<close>

definition relocated :: "string \<Rightarrow> int \<Rightarrow> (string \<Rightarrow> string \<times> bool) \<Rightarrow> string list \<Rightarrow> upload_file \<Rightarrow> upload_file" where
  "relocated base i rnd ds f =
     (if uf_root f = base \<and> uf_dir f \<in> set ds then f\<lparr>uf_dir := staged_name i rnd (uf_dir f)\<rparr> else f)"

lemma stage_relocates:
  assumes "stage_upload_directories base i rnd ds staged fs = (Some st, fs')"
    and "distinct ds" "\<forall>d \<in> set ds. dir_exists base d fs" "\<forall>d \<in> set ds. \<not> dir_exists base (staged_name i rnd d) fs"
    and "inj_on (fst \<circ> rnd) (set ds)"
  shows "fs' = map (relocated base i rnd ds) fs"
  using assms
proof (induction ds arbitrary: staged fs)
  case Nil
  then show ?case by (simp add: relocated_def)
next
  case (Cons d ds)
  let ?new = "staged_name i rnd d"
  let ?fs = "rename_dir base d ?new fs"
  have run: "stage_upload_directories base i rnd ds (staged @ [(d, ?new)]) ?fs = (Some st, fs')"
    using Cons.prems(1) by (simp add: staged_name_def Let_def split: if_splits)
  have other: "staged_name i rnd e \<noteq> ?new" "?new \<noteq> e" if "e \<in> set ds" for e
    using Cons.prems(2-5) that by (auto simp: staged_name_def inj_on_def)
  have "fs' = map (relocated base i rnd ds) ?fs"
  proof (rule Cons.IH [OF run])
    show "\<forall>e \<in> set ds. dir_exists base e ?fs" using Cons.prems(2,3) by (auto simp: dir_exists_rename)
    show "\<forall>e \<in> set ds. \<not> dir_exists base (staged_name i rnd e) ?fs" using Cons.prems(4) other by (auto simp: dir_exists_rename)
    show "inj_on (fst \<circ> rnd) (set ds)" using Cons.prems(5) by (auto simp: inj_on_def)
  qed (use Cons.prems(2) in simp)
  moreover have "relocated base i rnd ds (if uf_root f = base \<and> uf_dir f = d then f\<lparr>uf_dir := ?new\<rparr> else f) = relocated base i rnd (d # ds) f" for f
    using other(2) Cons.prems(2) by (auto simp: relocated_def)
  ultimately show ?case by (simp add: rename_dir_def)
qed

definition document_file :: "int \<Rightarrow> int \<Rightarrow> upload_file \<Rightarrow> bool" where
  "document_file t i f \<longleftrightarrow> uf_root f = str_int t \<and> is_prefix_of (str_int i @ ''-'') (uf_dir f)"

definition staged_file :: "int \<Rightarrow> int \<Rightarrow> upload_file \<Rightarrow> bool" where
  "staged_file t i f \<longleftrightarrow> uf_root f = str_int t \<and> is_prefix_of (''.deleting-'' @ str_int i @ ''-'') (uf_dir f)"

lemma is_prefix_of_iff: "is_prefix_of p x \<longleftrightarrow> prefix p x"
  by (induction p x rule: is_prefix_of.induct) auto

lemma staged_not_document: "staged_file t i f \<Longrightarrow> \<not> document_file t j f"
proof
  assume st: "staged_file t i f" and doc: "document_file t j f"
  have "is_prefix_of (''.deleting-'' @ str_int i @ ''-'') (uf_dir f)" using st unfolding staged_file_def by (rule conjunct2)
  then obtain x where x: "uf_dir f = ''.deleting-'' @ x" unfolding is_prefix_of_iff prefix_def append_assoc by blast
  have j: "is_prefix_of (str_int j @ ''-'') (uf_dir f)" using doc unfolding document_file_def by (rule conjunct2)
  show False
  proof (cases "str_int j")
    case (Cons a as)
    then have "a \<in> set (str_int j)" by simp
    then have "a \<noteq> CHR ''.''" using str_int_chars [of j] by auto
    then show False using Cons j unfolding x by simp
  qed (use j in \<open>simp add: x\<close>)
qed

lemma staged_files:
  assumes "fs' = map (relocated (str_int t) i rnd (upload_directories t i fs)) fs"
  shows "\<forall>f \<in> set fs'. \<not> document_file t i f"
    and "\<not> document_file t i f \<Longrightarrow> \<not> staged_file t i f \<Longrightarrow> f \<in> set fs' \<longleftrightarrow> f \<in> set fs"
proof -
  have moved: "relocated (str_int t) i rnd (upload_directories t i fs) f =
      (if document_file t i f then f\<lparr>uf_dir := staged_name i rnd (uf_dir f)\<rparr> else f)" if "f \<in> set fs" for f
    using that by (auto simp: relocated_def document_file_def upload_directories_def)
  have st: "staged_file t i (f\<lparr>uf_dir := staged_name i rnd (uf_dir f)\<rparr>)" if "document_file t i f" for f
    using that by (simp add: staged_file_def document_file_def staged_name_def is_prefix_of_iff)
  have split: "\<exists>g \<in> set fs. if document_file t i g then staged_file t i f else f = g" if "f \<in> set fs'" for f
    using that moved st unfolding assms by auto
  show "\<forall>f \<in> set fs'. \<not> document_file t i f" using split staged_not_document by metis
  show "f \<in> set fs' \<longleftrightarrow> f \<in> set fs" if "\<not> document_file t i f" "\<not> staged_file t i f"
  proof
    show "f \<in> set fs' \<Longrightarrow> f \<in> set fs" using split [of f] that by (metis (full_types))
    assume "f \<in> set fs"
    then show "f \<in> set fs'" using moved [of f] that unfolding assms by (metis image_eqI list.set_map)
  qed
qed

lemma remove_first_distinct: "distinct (map g xs) \<Longrightarrow> remove_first (\<lambda>x. g x = i) xs = filter (\<lambda>x. g x \<noteq> i) xs"
proof (induction xs)
  case (Cons x xs)
  then show ?case by (cases "g x = i") (auto simp: image_iff intro!: filter_True [symmetric])
qed simp

lemma find_conj:
  "distinct (map g xs) \<Longrightarrow> find (\<lambda>x. g x = i \<and> P x) xs =
     (case find (\<lambda>x. g x = i) xs of None \<Rightarrow> None | Some x \<Rightarrow> if P x then Some x else None)"
proof (induction xs)
  case (Cons x xs)
  have "find (\<lambda>y. g y = i) xs = None" if "g x = i" using Cons.prems that by (auto simp: find_None_iff image_iff)
  then show ?case using Cons by (auto split: option.splits)
qed simp

text \<open>Who may delete the document now.\<close>

definition deletable :: "int \<Rightarrow> int \<Rightarrow> int \<Rightarrow> 'c kbase \<Rightarrow> bool" where
  "deletable t us i s \<longleftrightarrow> (\<exists>d. get_document s i = Some d \<and> d_tenant d = t \<and> d_uploader d = Some us \<and> d_status d \<noteq> ''processing'') \<and>
     \<not> list_ex (\<lambda>k. status k = PENDING \<or> status k = RUNNING) (document_tasks t i s)"

definition delete_result :: "('c \<Rightarrow> (string \<times> 'e row) set) \<Rightarrow> int \<Rightarrow> int \<Rightarrow> http_error + obj \<Rightarrow> 'c kbase \<Rightarrow> 'c kbase \<Rightarrow> bool" where
  "delete_result rows t i r s s' \<longleftrightarrow> kb_tasks s' = kb_tasks s \<and>
    (\<forall>x. \<not> owns (document_key t i, t) x \<longrightarrow> (x \<in> rows (kb_store s') \<longleftrightarrow> x \<in> rows (kb_store s))) \<and>
    (case r of
       Inr _ \<Rightarrow> kb_documents s' = filter (\<lambda>d. d_id d \<noteq> i) (kb_documents s) \<and>
         (\<forall>x \<in> rows (kb_store s'). \<not> owns (document_key t i, t) x) \<and>
         kb_files s' = filter (\<lambda>f. \<not> document_file t i f) (kb_files s)
     | Inl (code, msg) \<Rightarrow>
         if msg = ''Document was deleted but storage cleanup is pending.''
         then code = 500 \<and> kb_documents s' = filter (\<lambda>d. d_id d \<noteq> i) (kb_documents s) \<and>
           (\<forall>x \<in> rows (kb_store s'). \<not> owns (document_key t i, t) x) \<and> (\<forall>f \<in> set (kb_files s'). \<not> document_file t i f) \<and>
           (\<forall>f. \<not> document_file t i f \<and> \<not> staged_file t i f \<longrightarrow> (f \<in> set (kb_files s') \<longleftrightarrow> f \<in> set (kb_files s)))
         else code \<in> {403, 404, 409, 500, 503} \<and> kb_documents s' = kb_documents s \<and> kb_files s' = kb_files s)"

lemma delete_parts_outcome:
  assumes "chroma_ok (chroma_of env) names rows" "distinct (map d_id (kb_documents s))"
    and "delete_parts env t i staged commit_ok cleanup_ok (s\<lparr>kb_files := fs\<rparr>) = (r, s')"
    and "restore_upload_directories (str_int t) staged fs = kb_files s"
    and "remove_staged (str_int t) staged fs = filter (\<lambda>f. \<not> document_file t i f) (kb_files s)"
    and "\<forall>f \<in> set fs. \<not> document_file t i f"
    and "\<And>f. \<not> document_file t i f \<Longrightarrow> \<not> staged_file t i f \<Longrightarrow> f \<in> set fs \<longleftrightarrow> f \<in> set (kb_files s)"
  shows "delete_result rows t i r s s'"
proof -
  obtain v c where del: "delete_document (chroma_of env) (document_key t i) t (kb_store s) = (v, c)" by fastforce
  note frame = delete_document_frame [OF assms(1) del]
  have kept: "x \<in> rows c \<longleftrightarrow> x \<in> rows (kb_store s)" if "\<not> owns (document_key t i, t) x" for x using frame that by blast
  have gone: "\<forall>x \<in> rows c. \<not> owns (document_key t i, t) x" if "v = Inr ()"
    using delete_document_done [OF assms(1), of "document_key t i" t _ c] del that by blast
  note docs = remove_first_distinct [OF assms(2), of i]
  show ?thesis
  proof (cases "store_opens env")
    case (Inl e)
    then show ?thesis
      using assms(3,4) by (auto simp: delete_result_def delete_parts_def andthen_def Let_def)
  next
    case opens: (Inr u)
    note parts = assms(3) del [unfolded document_key_def] opens
    show ?thesis
    proof (cases v)
      case (Inl e)
      then show ?thesis using parts assms(4) kept
        by (auto simp: delete_result_def delete_parts_def andthen_def with_store_def Let_def)
    next
      case (Inr u)
      then have "\<forall>x \<in> rows c. \<not> owns (document_key t i, t) x" using gone by simp
      then show ?thesis
        using parts Inr assms(4-7) kept docs by (cases commit_ok; cases cleanup_ok) 
          (auto simp: delete_result_def remove_document_def delete_parts_def andthen_def with_store_def Let_def)
    qed
  qed
qed


subsection \<open>Example runs\<close>

text \<open>A reference client, and a document uploaded, claimed and indexed with it.\<close>

definition demo_chunk :: chunk where
  "demo_chunk = \<lparr>c_text = demo_text, c_page = 1, c_section = page_label 1, c_ocr = False, c_index = 0\<rparr>"

lemma kb_demo_chunks: "chunk_document ascii_db 80 10 \<lparr>d_filename = ''demo.pdf'', d_pages =
     [\<lparr>pg_number = 1, pg_blocks = [\<lparr>b_text = demo_text, b_page = 1,
         b_section = page_label 1, b_ocr = False, b_heading = False\<rparr>], pg_ocr = False\<rparr>]\<rparr> = Inr [demo_chunk]"
  by code_simp

lemma demo_load_eq: "load_pdf_chunks ascii_db demo_options 80 10 ''demo.pdf'' demo_file = Inr [demo_chunk]"
  by (simp add: load_pdf_chunks_def demo_parse kb_demo_chunks del: One_nat_def)

type_synonym ref_state = "string list \<times> (string \<times> unit row) list"

definition ref_chroma :: "(ref_state, unit) chroma" where
  "ref_chroma = \<lparr>ch_list = (\<lambda>(ns, rs). Inr (remdups (ns @ map fst rs))),
     ch_get_or_create = (\<lambda>n (ns, rs). (Inr (), List.insert n ns, rs)),
     ch_drop = (\<lambda>n (ns, rs). (Inr (), removeAll n ns, filter (\<lambda>(m, _). m \<noteq> n) rs)),
     ch_upsert = (\<lambda>n xs (ns, rs). (Inr (), ns, filter (\<lambda>(m, r). m \<noteq> n \<or> row_id r \<notin> set (map row_id xs)) rs @ map (Pair n) xs)),
     ch_query = (\<lambda>n q k w (ns, rs). Inr (take (nat k) (map (\<lambda>(m, r). (r, 0)) (filter (\<lambda>(m, r). m = n \<and> matches w r) rs)))),
     ch_get = (\<lambda>n w (ns, rs). Inr (map snd (filter (\<lambda>(m, r). m = n \<and> matches w r) rs))),
     ch_delete = (\<lambda>n w (ns, rs). (Inr (), ns, filter (\<lambda>(m, r). m \<noteq> n \<or> \<not> matches w r) rs)),
     ch_count = (\<lambda>n (ns, rs). Inr (length (filter (\<lambda>(m, _). m = n) rs)))\<rparr>"

definition ref_names :: "ref_state \<Rightarrow> string set" where "ref_names c = set (fst c) \<union> fst ` set (snd c)"
definition ref_rows :: "ref_state \<Rightarrow> (string \<times> unit row) set" where "ref_rows c = set (snd c)"

lemma ref_chroma_ok: "chroma_ok ref_chroma ref_names ref_rows"
proof -
  have "collections_ok ref_chroma ref_names ref_rows" by (auto simp: collections_ok_def ref_chroma_def ref_names_def ref_rows_def)
  moreover have "delete_ok ref_chroma ref_rows" by (auto simp: delete_ok_def ref_chroma_def ref_rows_def)
  moreover have "upsert_ok ref_chroma ref_rows" by (auto simp: upsert_ok_def ref_chroma_def ref_rows_def)
  moreover have "reads_ok ref_chroma ref_rows"
    by (force simp: reads_ok_def ref_chroma_def ref_rows_def dest: in_set_takeD)
  ultimately show ?thesis by (simp add: chroma_ok_def)
qed

definition demo_env :: "(ref_state, unit) kenv" where
  "demo_env = \<lparr>chroma_of = ref_chroma, store_opens = Inr (), strf_of = (\<lambda>_. []), text_of = (\<lambda>_. []), uni = ascii_db,
     pdf_options = demo_options, CHUNK_SIZE = 80, CHUNK_OVERLAP = 10, pdf_of = (\<lambda>_. demo_file), probe_pdf = (\<lambda>_. Opened False 1),
     encode = (\<lambda>ts. Inr (map (\<lambda>_. ()) ts)), EMBEDDING_MODEL = ''m'', EMBEDDING_MODEL_REVISION = [],
     sha256 = (\<lambda>_. ''ab''), UPLOAD_DIR = ''u'', MAX_UPLOAD_BYTES = 100, broker_on = True\<rparr>"

lemma demo_env_ok: "kenv_ok demo_env ref_names ref_rows"
  by (simp add: kenv_ok_def demo_env_def ref_chroma_ok)

definition demo_base :: "ref_state kbase" where
  "demo_base = \<lparr>kb_documents = [], kb_next = 7, kb_tasks = [],
     kb_billing = \<lparr>plans = [], subscriptions = [], documents = [], usages = [], billings = []\<rparr>, kb_store = ([], []),
     kb_files = [], kb_events = [], kb_now = 0, kb_utc = (2026, 1, 1, 0)\<rparr>"

definition demo_uploaded :: "ref_state kbase" where
  "demo_uploaded = snd (upload_pdf demo_env 1 5 (Some ''demo.pdf'') ''%PDF-1%%EOF'' ''x'' ''p'' True demo_base)"

lemma demo_uploaded_docs:
  "kb_documents demo_uploaded = [new_document ''demo.pdf'' ''%PDF-1%%EOF'' ''ab'' 1 5 7]"
  by code_simp
lemma demo_uploaded_files:
  "kb_files demo_uploaded = [\<lparr>uf_root = ''1'', uf_dir = ''7-x'', uf_name = ''demo.pdf'', uf_bytes = ''%PDF-1%%EOF''\<rparr>]"
  by code_simp
lemma demo_uploaded_tasks:
  "kb_tasks demo_uploaded = [new_task ''p'' PROCESS_DOCUMENT [(''file_path'', JStr ''u/1/7-x/demo.pdf''), (''document_id'', JInt 7), (''content_sha256'', JStr ''ab'')] 1 5 0]"
  by code_simp

definition demo_running :: "ref_state kbase" where
  "demo_running = demo_uploaded\<lparr>kb_tasks := map (\<lambda>k. k\<lparr>status := RUNNING\<rparr>) (kb_tasks demo_uploaded), kb_now := 1, kb_utc := (2026, 1, 1, 0)\<rparr>"

lemma demo_reach: "kb_reachable demo_env demo_base demo_running"
proof -
  have "kb_reachable demo_env demo_base demo_uploaded"
    unfolding demo_uploaded_def by (rule kb_reachable.step [OF kb_reachable.start]) (rule kb_step.upload)
  moreover have "kb_step demo_env demo_uploaded demo_running"
    unfolding demo_running_def by (rule kb_step.worker) (simp add: list_all2_conv_all_nth same_task_def)
  ultimately show ?thesis by (rule kb_reachable.step)
qed

lemma demo_running_task: "get_task (kb_tasks demo_running) ''p'' =
   Some ((new_task ''p'' PROCESS_DOCUMENT [(''file_path'', JStr ''u/1/7-x/demo.pdf''), (''document_id'', JInt 7), (''content_sha256'', JStr ''ab'')] 1 5 0)\<lparr>status := RUNNING\<rparr>)"
  by (simp add: demo_running_def demo_uploaded_tasks get_task_def new_task_def)

definition demo_indexed :: "ref_state kbase" where
  "demo_indexed = process_document_task demo_env ''p'' demo_running"

definition demo_file_record :: upload_file where
  "demo_file_record = \<lparr>uf_root = ''1'', uf_dir = ''7-x'', uf_name = ''demo.pdf'', uf_bytes = ''%PDF-1%%EOF''\<rparr>"

lemma demo_names: "filename_of demo_env demo_file_record = ''demo.pdf''" "file_path_of demo_env demo_file_record = ''u/1/7-x/demo.pdf''"
  by code_simp+

lemma demo_prepare: "prepare_vectors demo_env ''p'' demo_file_record s =
   (Inr [(demo_chunk, ())], kb_progress ''p'' 50 (kb_progress ''p'' 30 (kb_progress ''p'' 10 s)))"
proof -
  have "uf_bytes demo_file_record \<noteq> []" by (simp add: demo_file_record_def)
  moreover have "load_pdf_chunks (uni demo_env) (pdf_options demo_env) (CHUNK_SIZE demo_env) (CHUNK_OVERLAP demo_env)
    (filename_of demo_env demo_file_record) (pdf_of demo_env (uf_bytes demo_file_record)) = Inr [demo_chunk]"
    unfolding demo_names by (simp add: demo_env_def demo_load_eq)
  moreover have "embed_passages demo_env [c_text demo_chunk] = Inr [()]" by (simp add: embed_passages_def demo_env_def)
  ultimately show ?thesis by (simp add: prepare_vectors_def Let_def)
qed

lemma demo_store: "kb_store demo_indexed = ([''financial_reports''],
   [placed (strf_of demo_env) (chunk_vector demo_env ''demo.pdf'' 1 (JInt 7) (JStr ''ab'') (demo_chunk, ()))])"
proof -
  let ?v = "chunk_vector demo_env ''demo.pdf'' 1 (JInt 7) (JStr ''ab'') (demo_chunk, ())"
  have docs: "kb_documents demo_running = [new_document ''demo.pdf'' ''%PDF-1%%EOF'' ''ab'' 1 5 7]"
    and files: "kb_files demo_running = [demo_file_record]" and store: "kb_store demo_running = ([], [])"
    by (simp_all add: demo_running_def demo_uploaded_docs demo_uploaded_files demo_file_record_def) (code_simp)
  obtain s1 where s1: "set_document_status (JInt 7) 1 ''processing'' None demo_running = (True, s1)" "kb_files s1 = kb_files demo_running" "kb_store s1 = ([], [])"
    by (simp add: set_document_status_def get_document_def docs new_document_def store)
  have f: "file_of_payload demo_env (JStr ''u/1/7-x/demo.pdf'') s1 = Some demo_file_record"
    by (simp add: file_of_payload_def file_at_def s1(2) files demo_names)
  have st: "store_vectors demo_env pid did 1 [?v] s = (Inr (), (kb_progress pid 80 s)\<lparr>kb_store := ([''financial_reports''], [placed (strf_of demo_env) ?v])\<rparr>)"
    if "kb_store s = ([], [])" for pid did s
    using that by (simp add: store_vectors_def andthen_def with_store_def demo_env_def ref_chroma_def create_collection_def
      delete_document_def delete_everywhere_def add_documents_def add_group_def placed_def wrapped_def progress_keeps
      collection_of_def chunk_vector_def chunk_metadata_def text_value_def get_or_def Let_def kb_progress_def kb_write_task_def)
  show ?thesis
    using s1(1) f st s1(3)
    by (simp add: demo_indexed_def process_document_task_def demo_running_task new_task_def get_or_def index_document_def demo_prepare
      andthen_def demo_names progress_keeps finish_indexing_def set_document_status_keeps Let_def)
qed

theorem search_finds_live_documents_witness:
  "\<exists>rs. kb_reachable demo_env demo_base demo_indexed \<and>
     chroma_similarity_search ref_chroma (strf_of demo_env) () 3 (Some 1) (kb_store demo_indexed) = Inr rs \<and> rs \<noteq> [] \<and>
     list_all (\<lambda>r. \<exists>d \<in> set (kb_documents demo_indexed). d_tenant d = 1 \<and> r_doc r = cps (document_key 1 (d_id d))) rs"
proof -
  let ?v = "chunk_vector demo_env ''demo.pdf'' 1 (JInt 7) (JStr ''ab'') (demo_chunk, ())"
  have reach: "kb_reachable demo_env demo_base demo_indexed"
    unfolding demo_indexed_def using kb_step.index [OF demo_running_task]
    by (intro kb_reachable.step [OF demo_reach]) (simp add: new_task_def)
  have start: "kb_start ref_rows demo_base" by (simp add: kb_start_def demo_base_def ref_rows_def)
  have "is_ok (chroma_similarity_search ref_chroma (strf_of demo_env) () 3 (Some 1) (kb_store demo_indexed)) \<and>
    chroma_similarity_search ref_chroma (strf_of demo_env) () 3 (Some 1) (kb_store demo_indexed) \<noteq> Inr []"
    unfolding demo_store by code_simp
  then obtain rs where rs: "chroma_similarity_search ref_chroma (strf_of demo_env) () 3 (Some 1) (kb_store demo_indexed) = Inr rs" "rs \<noteq> []"
    by (auto simp: is_ok_iff)
  have ch: "chroma_of demo_env = ref_chroma" by (simp add: demo_env_def)
  have "\<exists>d \<in> set (kb_documents demo_indexed). d_tenant d = 1 \<and> r_doc r = cps (document_key 1 (d_id d))" if "r \<in> set rs" for r
    using search_finds_live_documents [OF demo_env_ok start reach _ rs(1) [folded ch] that] by auto
  then show ?thesis using rs reach by (auto simp: list_all_iff)
qed

theorem indexing_outcome_witness:
  "\<exists>k'. get_task (kb_tasks demo_indexed) ''p'' = Some k' \<and>
    ((status k' = SUCCESS \<and> (\<exists>f cvs. parse_of demo_env f cvs \<and> ref_rows (kb_store demo_indexed) =
        {x \<in> ref_rows (kb_store demo_running). \<not> owns (document_key 1 7, 1) x} \<union> index_rows demo_env (filename_of demo_env f) 1 7 ''ab'' cvs)) \<or>
     status k' = FAILED)"
proof -
  let ?k = "(new_task ''p'' PROCESS_DOCUMENT [(''file_path'', JStr ''u/1/7-x/demo.pdf''), (''document_id'', JInt 7),
    (''content_sha256'', JStr ''ab'')] 1 5 0)\<lparr>status := RUNNING\<rparr> :: obj task"
  have start: "kb_start ref_rows demo_base" by (simp add: kb_start_def demo_base_def ref_rows_def)
  have k: "task_type ?k = task_type_value PROCESS_DOCUMENT" "status ?k = RUNNING" "tenant_id ?k = 1"
    "get_or (payload ?k) ''document_id'' JNull = JInt 7" "get_or (payload ?k) ''content_sha256'' JNull = JStr ''ab''"
    by (simp_all add: new_task_def get_or_def)
  from indexing_outcome [OF demo_env_ok start demo_reach demo_running_task k(1,2) refl refl, unfolded k(3-5), folded demo_indexed_def]
  show ?thesis
    by (elim exE conjE) (rule exI, rule conjI, assumption, elim disjE conjE, blast+)
qed

definition demo_delete :: "(http_error + obj) \<times> ref_state kbase" where
  "demo_delete = delete_knowledge_document demo_env 1 5 7 (\<lambda>d. (''z'', True)) True True
     (demo_base\<lparr>kb_documents := [(new_document ''demo.pdf'' ''x'' ''ab'' 1 5 7)\<lparr>d_status := ''indexed''\<rparr>],
        kb_files := [demo_file_record, demo_file_record\<lparr>uf_dir := ''8-y''\<rparr>]\<rparr>)"


end
