(* ===== verification/Planning.thy ===== *)
theory Planning
  imports Document_Parser Json
begin

text \<open>
  The planning layer: \<^verbatim>\<open>agent/planning/\<close> (keyword rules, entity extraction, task and
  complexity analysis), \<^verbatim>\<open>core/intent_analyzer.py\<close>, \<^verbatim>\<open>research_mode.py\<close>,
  \<^verbatim>\<open>agent/execution_plan.py\<close> and \<^verbatim>\<open>agent/query_planner.py\<close>.

  A text is a list of code points, so the Chinese keywords are written as numbers. What the
  planner takes from the Unicode database is the record \<open>lang\<close>: lower-casing, the value of a
  decimal digit (\<open>\d\<close> of a pattern), and the character classes of \<open>unicode\<close>. Scores and
  confidences are exact rationals; for each of the finitely many combinations of factors the
  level and the score rounded to four places are the same in double precision.
\<close>

record lang =
  lg_db :: unicode
  lg_lower :: "utext \<Rightarrow> utext"
  lg_decimal :: "nat \<Rightarrow> nat option"

abbreviation word_cp :: "lang \<Rightarrow> nat \<Rightarrow> bool" where "word_cp lg \<equiv> is_word (lg_db lg)"

text \<open>\<open>key in text\<close> and \<open>str.isdigit()\<close>.\<close>

definition contains_text :: "utext \<Rightarrow> utext \<Rightarrow> bool" where
  "contains_text t key \<longleftrightarrow> sublist key t"

definition isdigit :: "lang \<Rightarrow> utext \<Rightarrow> bool" where
  "isdigit lg t \<longleftrightarrow> t \<noteq> [] \<and> list_all (is_digit_cp (lg_db lg)) t"

subsection \<open>Task types and keyword rules\<close>

datatype TaskType = CHAT | DOCUMENT_QA | RESEARCH | FINANCIAL_ANALYSIS | COMPARISON | SUMMARIZATION | OCR
  | IMAGE_ANALYSIS | CODE_GENERATION | UNKNOWN

fun TaskType_value :: "TaskType \<Rightarrow> string" where
  "TaskType_value CHAT = ''chat''"
| "TaskType_value DOCUMENT_QA = ''document_qa''"
| "TaskType_value RESEARCH = ''research''"
| "TaskType_value FINANCIAL_ANALYSIS = ''financial_analysis''"
| "TaskType_value COMPARISON = ''comparison''"
| "TaskType_value SUMMARIZATION = ''summarization''"
| "TaskType_value OCR = ''ocr''"
| "TaskType_value IMAGE_ANALYSIS = ''image_analysis''"
| "TaskType_value CODE_GENERATION = ''code_generation''"
| "TaskType_value UNKNOWN = ''unknown''"

datatype ComplexityLevel = LOW | MEDIUM | HIGH

definition OCR_KEYWORDS :: "utext list" where
  "OCR_KEYWORDS =
     [cps ''ocr'', cps ''scan'', [25195, 25551], [35782, 21035]]"

definition IMAGE_ANALYSIS_KEYWORDS :: "utext list" where
  "IMAGE_ANALYSIS_KEYWORDS =
     [cps ''image'', cps ''photo'', cps ''picture'', cps ''chart'', [22270, 29255], [25130, 22270], [22270, 34920]]"

definition COMPARISON_KEYWORDS :: "utext list" where
  "COMPARISON_KEYWORDS =
     [cps ''compare'', cps ''comparison'', cps ''vs'', cps ''versus'', [27604, 36739], [23545, 27604]]"

definition DOCUMENT_QA_KEYWORDS :: "utext list" where
  "DOCUMENT_QA_KEYWORDS =
     [cps ''10-k'', cps ''10-q'', cps ''annual report'', cps ''annual reports'', cps ''financial report'',
      cps ''financial statement'', cps ''filing'', [36130, 25253], [24180, 25253], [23395, 25253],
      [36130, 21153, 25253, 21578], cps ''risk factor'', cps ''risk factors'', cps ''risk'', cps ''revenue'',
      cps ''profit'', cps ''margin'', cps ''ebitda'', cps ''balance sheet'', cps ''income statement'',
      cps ''cash flow'', cps ''cap'', cps ''market cap'', cps ''dividend'', cps ''earnings'', cps ''eps'',
      cps ''p/e'', cps ''pe ratio'', [22686, 38271, 29575], [33829, 25910], [21033, 28070], [20928, 21033, 28070],
      [27611, 21033, 29575], [20928, 21033, 29575], [29616, 37329, 27969], [32929, 24687], [24066, 30408, 29575],
      [24066, 20928, 29575]]"

definition RESEARCH_KEYWORDS :: "utext list" where
  "RESEARCH_KEYWORDS =
     [cps ''research'', cps ''analyze'', cps ''analysis'', [30740, 31350], [28145, 20837], [20998, 26512],
      cps ''deep dive'', cps ''deep research'', cps ''investigate'', [35843, 26597], [35843, 30740], [35780, 20272],
      cps ''assessment'', [23637, 26395], cps ''outlook'', cps ''forecast'', [39044, 27979], cps ''trend'',
      [36235, 21183], cps ''strategy'', [25112, 30053], cps ''market'', cps ''industry'', [34892, 19994],
      cps ''sector'']"

definition PRIORITY_ORDER :: "(TaskType \<times> utext list) list" where
  "PRIORITY_ORDER = [(OCR, OCR_KEYWORDS), (IMAGE_ANALYSIS, IMAGE_ANALYSIS_KEYWORDS), (COMPARISON, COMPARISON_KEYWORDS),
     (DOCUMENT_QA, DOCUMENT_QA_KEYWORDS), (RESEARCH, RESEARCH_KEYWORDS)]"

fun first_rule :: "(TaskType \<times> utext list) list \<Rightarrow> utext \<Rightarrow> TaskType \<times> utext option" where
  "first_rule [] q = (CHAT, None)"
| "first_rule ((ty, kws) # rules) q = (case find (contains_text q) kws of
      Some kw \<Rightarrow> (ty, Some kw)
    | None \<Rightarrow> first_rule rules q)"

definition classify_by_keyword :: "utext \<Rightarrow> TaskType \<times> utext option" where
  "classify_by_keyword q = first_rule PRIORITY_ORDER q"

subsection \<open>Entities\<close>

definition COMPANY_MAP :: "(utext \<times> utext) list" where
  "COMPANY_MAP =
     [(cps ''apple'', cps ''Apple''), ([33529, 26524], cps ''Apple''), (cps ''tesla'', cps ''Tesla''),
      ([29305, 26031, 25289], cps ''Tesla''), (cps ''nvidia'', cps ''NVIDIA''),
      ([33521, 20255, 36798], cps ''NVIDIA''), (cps ''amd'', cps ''AMD''), ([36229, 23041], cps ''AMD''),
      (cps ''microsoft'', cps ''Microsoft''), ([24494, 36719], cps ''Microsoft''), (cps ''google'', cps ''Google''),
      (cps ''alphabet'', cps ''Alphabet''), ([35895, 27468], cps ''Google''), (cps ''amazon'', cps ''Amazon''),
      ([20122, 39532, 36874], cps ''Amazon''), (cps ''meta'', cps ''Meta''), (cps ''facebook'', cps ''Meta''),
      (cps ''netflix'', cps ''Netflix''), ([22856, 39134], cps ''Netflix''), (cps ''intel'', cps ''Intel''),
      ([33521, 29305, 23572], cps ''Intel''), (cps ''tsmc'', cps ''TSMC''), ([21488, 31215, 30005], cps ''TSMC''),
      (cps ''samsung'', cps ''Samsung''), ([19977, 26143], cps ''Samsung''), (cps ''qualcomm'', cps ''Qualcomm''),
      ([39640, 36890], cps ''Qualcomm''), (cps ''broadcom'', cps ''Broadcom''), ([21338, 36890], cps ''Broadcom''),
      (cps ''jpmorgan'', cps ''JPMorgan''), ([25705, 26681, 22823, 36890], cps ''JPMorgan''),
      (cps ''berkshire'', cps ''Berkshire Hathaway''), ([20271, 20811, 24076, 23572], cps ''Berkshire Hathaway''),
      (cps ''visa'', cps ''Visa''), (cps ''mastercard'', cps ''Mastercard''),
      ([19975, 20107, 36798], cps ''Mastercard''), (cps ''walmart'', cps ''Walmart''),
      ([27779, 23572, 29595], cps ''Walmart''), (cps ''cocacola'', cps ''Coca-Cola''),
      (cps ''coca-cola'', cps ''Coca-Cola''), ([21487, 21475, 21487, 20048], cps ''Coca-Cola''),
      (cps ''pepsi'', cps ''Pepsi''), ([30334, 20107], cps ''Pepsi''), (cps ''disney'', cps ''Disney''),
      ([36842, 22763, 23612], cps ''Disney''), (cps ''toyota'', cps ''Toyota''), ([20016, 30000], cps ''Toyota''),
      (cps ''alibaba'', cps ''Alibaba''), ([38463, 37324, 24052, 24052], cps ''Alibaba''),
      (cps ''tencent'', cps ''Tencent''), ([33150, 35759], cps ''Tencent''), (cps ''byd'', cps ''BYD''),
      ([27604, 20122, 36842], cps ''BYD''), (cps ''huawei'', cps ''Huawei''), ([21326, 20026], cps ''Huawei''),
      (cps ''xiaomi'', cps ''Xiaomi''), ([23567, 31859], cps ''Xiaomi''), (cps ''baidu'', cps ''Baidu''),
      ([30334, 24230], cps ''Baidu''), (cps ''jd'', cps ''JD.com''), ([20140, 19996], cps ''JD.com''),
      (cps ''pdd'', cps ''Pinduoduo''), ([25340, 22810, 22810], cps ''Pinduoduo''),
      (cps ''meituan'', cps ''Meituan''), ([32654, 22242], cps ''Meituan''), (cps ''netease'', cps ''NetEase''),
      ([32593, 26131], cps ''NetEase'')]"

fun company_loop :: "(utext \<times> utext) list \<Rightarrow> utext \<Rightarrow> utext list \<Rightarrow> utext list" where
  "company_loop [] low seen = []"
| "company_loop ((key, name) # rest) low seen =
     (if contains_text low key \<and> name \<notin> set seen then name # company_loop rest low (name # seen)
      else company_loop rest low seen)"

definition extract_companies :: "lang \<Rightarrow> utext \<Rightarrow> utext list" where
  "extract_companies lg q = company_loop COMPANY_MAP (lg_lower lg q) []"

text \<open>
  \<open>re.findall(r'\b(20[012]\d)\b', t)\<close>. \<open>before\<close> says whether the character before the
  current position is a word character.
\<close>

definition word_head :: "lang \<Rightarrow> utext \<Rightarrow> bool" where
  "word_head lg t = (case t of [] \<Rightarrow> False | c # _ \<Rightarrow> word_cp lg c)"

fun find_years :: "lang \<Rightarrow> bool \<Rightarrow> utext \<Rightarrow> utext list" where
  "find_years lg before (a # b # c # d # rest) =
     (if before \<noteq> word_cp lg a \<and> a = 50 \<and> b = 48 \<and> c \<in> {48, 49, 50} \<and> lg_decimal lg d \<noteq> None \<and>
         word_cp lg d \<noteq> word_head lg rest
      then [a, b, c, d] # find_years lg (word_cp lg d) rest
      else find_years lg (word_cp lg a) (b # c # d # rest))"
| "find_years lg before t = []"

definition extract_years :: "lang \<Rightarrow> utext \<Rightarrow> utext list" where
  "extract_years lg q = dedup_seen (\<lambda>y. y) [] (find_years lg False q)"

subsection \<open>Task analysis\<close>

record planning_context =
  pc_question :: utext
  pc_companies :: "utext list"
  pc_years :: "utext list"

record task_model =
  tm_type :: TaskType
  tm_confidence :: rat
  tm_complexity :: ComplexityLevel

record task_result =
  tk_task :: task_model
  tk_reason :: utext
  tk_entities :: "utext list"
  tk_tokens :: int

text \<open>Two loops over one \<open>seen\<close> set are one loop over the two lists.\<close>

definition merge_entities :: "utext list \<Rightarrow> utext list \<Rightarrow> utext list" where
  "merge_entities context_entities extracted = dedup_seen (\<lambda>e. e) [] (context_entities @ extracted)"

definition task_confidence :: "TaskType \<Rightarrow> utext option \<Rightarrow> rat" where
  "task_confidence ty kw = (if kw \<noteq> None then 19 / 20 else if ty = CHAT then 4 / 5 else 1 / 2)"

definition estimate_complexity :: "TaskType \<Rightarrow> nat \<Rightarrow> ComplexityLevel" where
  "estimate_complexity ty company_count =
     (if ty \<in> {RESEARCH, FINANCIAL_ANALYSIS} then (if company_count \<ge> 2 then HIGH else MEDIUM)
      else if ty = COMPARISON then (if company_count \<ge> 2 then HIGH else MEDIUM)
      else if company_count \<ge> 2 then MEDIUM
      else LOW)"

definition task_reason :: "TaskType \<Rightarrow> utext option \<Rightarrow> utext" where
  "task_reason ty kw = (case kw of
      Some k \<Rightarrow> cps (''Detected '' @ TaskType_value ty @ '' keyword: '') @ [39] @ k @ [39]
    | None \<Rightarrow> if ty = FINANCIAL_ANALYSIS then cps ''Detected financial analysis task''
              else cps (''Default '' @ TaskType_value ty))"

definition task_tokens :: "nat \<Rightarrow> nat \<Rightarrow> nat \<Rightarrow> int" where
  "task_tokens question_len company_count year_count =
     128 + int (question_len div 4) + 32 * int company_count + 8 * int year_count"

definition task_analyze :: "lang \<Rightarrow> planning_context \<Rightarrow> task_result" where
  "task_analyze lg ctx =
     (let q = pc_question ctx;
          (ty, kw) = classify_by_keyword (lg_lower lg q);
          companies = merge_entities (pc_companies ctx) (extract_companies lg q);
          years = merge_entities (pc_years ctx) (extract_years lg q)
      in \<lparr>tk_task = \<lparr>tm_type = ty, tm_confidence = task_confidence ty kw,
                     tm_complexity = estimate_complexity ty (length companies)\<rparr>,
          tk_reason = task_reason ty kw, tk_entities = companies @ years,
          tk_tokens = task_tokens (length q) (length companies) (length years)\<rparr>)"

subsection \<open>Complexity analysis\<close>

record complexity_weights =
  prompt_length_weight :: rat
  company_count_weight :: rat
  year_count_weight :: rat
  task_weight_weight :: rat
  comparison_weight :: rat

definition ComplexityWeights :: complexity_weights where
  "ComplexityWeights = \<lparr>prompt_length_weight = 1 / 10, company_count_weight = 1 / 5, year_count_weight = 1 / 10,
     task_weight_weight = 1 / 2, comparison_weight = 1 / 10\<rparr>"

record complexity_model =
  cm_level :: ComplexityLevel
  cm_score :: rat
  cm_tokens :: int
  cm_latency_ms :: int
  cm_cost :: rat

record complexity_factors =
  prompt_length :: rat
  company_count :: rat
  year_count :: rat
  task_weight :: rat
  comparison :: rat

record complexity_result =
  cr_complexity :: complexity_model
  cr_reason :: string
  cr_factors :: complexity_factors

fun LATENCY :: "ComplexityLevel \<Rightarrow> int" where
  "LATENCY LOW = 700" | "LATENCY MEDIUM = 1500" | "LATENCY HIGH = 3000"

fun COST :: "ComplexityLevel \<Rightarrow> rat" where
  "COST LOW = 2 / 1000" | "COST MEDIUM = 8 / 1000" | "COST HIGH = 20 / 1000"

definition prompt_score :: "nat \<Rightarrow> nat \<Rightarrow> rat" where
  "prompt_score cs ys = (let base = 1 + cs + ys in if base \<le> 1 then 1 / 5 else if base \<le> 3 then 1 / 2 else 4 / 5)"

definition company_score :: "nat \<Rightarrow> rat" where
  "company_score n = (if n = 0 then 0 else if n = 1 then 3 / 10 else if n = 2 then 6 / 10 else 9 / 10)"

definition year_score :: "nat \<Rightarrow> rat" where
  "year_score n = (if n = 0 then 0 else if n = 1 then 3 / 10 else if n = 2 then 5 / 10 else 8 / 10)"

fun task_type_score :: "TaskType \<Rightarrow> rat" where
  "task_type_score CHAT = 0"
| "task_type_score DOCUMENT_QA = 1 / 2"
| "task_type_score SUMMARIZATION = 1 / 2"
| "task_type_score OCR = 3 / 10"
| "task_type_score IMAGE_ANALYSIS = 1 / 2"
| "task_type_score COMPARISON = 7 / 10"
| "task_type_score RESEARCH = 1"
| "task_type_score FINANCIAL_ANALYSIS = 1"
| "task_type_score CODE_GENERATION = 6 / 10"
| "task_type_score UNKNOWN = 3 / 10"

definition comparison_score :: "TaskType \<Rightarrow> nat \<Rightarrow> rat" where
  "comparison_score ty n = (if ty = COMPARISON \<and> n \<ge> 2 then 8 / 10 else if n \<ge> 2 then 1 / 2 else 0)"

definition score_to_level :: "rat \<Rightarrow> ComplexityLevel" where
  "score_to_level s = (if s \<le> 3 / 10 then LOW else if s \<le> 1 / 2 then MEDIUM else HIGH)"

definition estimate_tokens :: "nat \<Rightarrow> nat \<Rightarrow> ComplexityLevel \<Rightarrow> int" where
  "estimate_tokens cs ys level = 128 + (1 + int cs + int ys) * 50 + int cs * 64 + int ys * 16 +
     (case level of LOW \<Rightarrow> 100 | MEDIUM \<Rightarrow> 300 | HIGH \<Rightarrow> 500)"

definition complexity_reason :: "TaskType \<Rightarrow> nat \<Rightarrow> nat \<Rightarrow> string" where
  "complexity_reason ty cs ys =
     (let parts =
        (if ty = COMPARISON \<and> cs \<ge> 2 then [''Multi-company comparison'']
         else if ty = COMPARISON then [''Comparison task'']
         else if ty = FINANCIAL_ANALYSIS then [''Financial analysis task'']
         else if ty = RESEARCH then [''Research task'']
         else if ty = DOCUMENT_QA then [''Document QA task'']
         else []) @
        (if cs \<ge> 3 then [''multiple companies''] else if cs = 2 then [''two companies''] else []) @
        (if ys \<ge> 2 then [''multiple years''] else [])
      in if parts = [] then ''Simple task'' else join '', '' parts)"

definition weighted_score :: "complexity_weights \<Rightarrow> complexity_factors \<Rightarrow> rat" where
  "weighted_score w f = prompt_length f * prompt_length_weight w + company_count f * company_count_weight w +
     year_count f * year_count_weight w + task_weight f * task_weight_weight w + comparison f * comparison_weight w"

definition factors_of :: "TaskType \<Rightarrow> nat \<Rightarrow> nat \<Rightarrow> complexity_factors" where
  "factors_of ty cs ys = \<lparr>prompt_length = prompt_score cs ys, company_count = company_score cs, year_count = year_score ys,
     task_weight = task_type_score ty, comparison = comparison_score ty cs\<rparr>"

definition complexity_analyze :: "lang \<Rightarrow> task_result \<Rightarrow> complexity_result" where
  "complexity_analyze lg tr =
     (let ty = tm_type (tk_task tr);
          companies = filter (\<lambda>e. \<not> isdigit lg e) (tk_entities tr);
          years = filter (isdigit lg) (tk_entities tr);
          factors = factors_of ty (length companies) (length years);
          score = weighted_score ComplexityWeights factors;
          level = score_to_level score
      in \<lparr>cr_complexity = \<lparr>cm_level = level, cm_score = py_round 4 score,
            cm_tokens = estimate_tokens (length companies) (length years) level,
            cm_latency_ms = LATENCY level, cm_cost = COST level\<rparr>,
          cr_reason = complexity_reason ty (length companies) (length years), cr_factors = factors\<rparr>)"

end
