(* ===== verification/Metric_Parser.thy ===== *)
theory Metric_Parser
  imports Planning Financial_Metrics
begin

text \<open>
  \<^verbatim>\<open>agent/planning/financial_metric_parser.py\<close>: a small grammar of calculations in
  plain words. The five patterns of the source are lists of items; a matcher maps a position
  of the text to the positions where the item may end, in the order in which Python's
  backtracking tries them, so the first success is the match that \<open>re\<close> reports.
  An alternation in front of a pattern is one item list per alternative, tried in order at
  the same position.
\<close>

subsection \<open>Characters\<close>

text \<open>\<open>re.IGNORECASE\<close> on the letters of the patterns, with the four letters beyond ASCII that fold to them.\<close>

definition letter_variants :: "nat \<Rightarrow> nat list" where
  "letter_variants c = (if 97 \<le> c \<and> c \<le> 122 then
     [c, c - 32] @ (if c = 105 then [304, 305] else if c = 107 then [8490] else if c = 115 then [383] else []) else [c])"

definition digit_at :: "lang \<Rightarrow> utext \<Rightarrow> nat \<Rightarrow> bool" where
  "digit_at lg s i \<longleftrightarrow> i < length s \<and> lg_decimal lg (s ! i) \<noteq> None"

definition char_at :: "utext \<Rightarrow> nat \<Rightarrow> nat \<Rightarrow> bool" where
  "char_at s i c \<longleftrightarrow> i < length s \<and> s ! i = c"

definition word_at :: "lang \<Rightarrow> utext \<Rightarrow> nat \<Rightarrow> bool" where
  "word_at lg s i \<longleftrightarrow> i < length s \<and> word_cp lg (s ! i)"

definition boundary :: "lang \<Rightarrow> utext \<Rightarrow> nat \<Rightarrow> bool" where
  "boundary lg s i \<longleftrightarrow> (0 < i \<and> word_at lg s (i - 1)) \<noteq> word_at lg s i"

text \<open>The ends of a greedy run \<open>P+\<close> that starts at \<open>i\<close>, longest first, and of \<open>P{1,n}\<close>.\<close>

definition run_length :: "(nat \<Rightarrow> bool) \<Rightarrow> utext \<Rightarrow> nat \<Rightarrow> nat" where
  "run_length P s i = length (takeWhile P (drop i s))"

definition greedy_ends :: "nat \<Rightarrow> nat \<Rightarrow> nat list" where
  "greedy_ends i n = rev [Suc i..<Suc (i + n)]"

subsection \<open>Numbers\<close>

text \<open>\<open>(?:,\d{3})+\<close>\<close>

function group_ends :: "lang \<Rightarrow> utext \<Rightarrow> nat \<Rightarrow> nat list" where
  "group_ends lg s i =
     (if char_at s i 44 \<and> digit_at lg s (i + 1) \<and> digit_at lg s (i + 2) \<and> digit_at lg s (i + 3)
      then group_ends lg s (i + 4) @ [i + 4] else [])"
  by pat_completeness auto
termination
  by (relation "measure (\<lambda>(lg, s, i). length s - i)") (auto simp: char_at_def digit_at_def)

declare group_ends.simps [simp del]

definition digit_run :: "lang \<Rightarrow> utext \<Rightarrow> nat \<Rightarrow> nat" where
  "digit_run lg s i = run_length (\<lambda>c. lg_decimal lg c \<noteq> None) s i"

text \<open>\<open>(?:\d{1,3}(?:,\d{3})+|\d+)\<close>, then \<open>(?:\.\d+)?\<close>, after \<open>[-+]?\<close>.\<close>

definition integer_ends :: "lang \<Rightarrow> utext \<Rightarrow> nat \<Rightarrow> nat list" where
  "integer_ends lg s i = concat (map (group_ends lg s) (greedy_ends i (min 3 (digit_run lg s i)))) @
     greedy_ends i (digit_run lg s i)"

definition fraction_ends :: "lang \<Rightarrow> utext \<Rightarrow> nat \<Rightarrow> nat list" where
  "fraction_ends lg s i = (if char_at s i 46 then greedy_ends (i + 1) (digit_run lg s (i + 1)) else []) @ [i]"

definition unsigned_ends :: "lang \<Rightarrow> utext \<Rightarrow> nat \<Rightarrow> nat list" where
  "unsigned_ends lg s i = concat (map (fraction_ends lg s) (integer_ends lg s i))"

definition number_ends :: "lang \<Rightarrow> utext \<Rightarrow> nat \<Rightarrow> nat list" where
  "number_ends lg s i = (if char_at s i 45 \<or> char_at s i 43 then unsigned_ends lg s (i + 1) else []) @ unsigned_ends lg s i"

text \<open>\<open>_NUMBER_TOKEN.findall\<close>\<close>

definition slice :: "utext \<Rightarrow> nat \<Rightarrow> nat \<Rightarrow> utext" where
  "slice s i j = take (j - i) (drop i s)"

function number_tokens :: "lang \<Rightarrow> utext \<Rightarrow> nat \<Rightarrow> utext list" where
  "number_tokens lg s i =
     (if length s \<le> i then []
      else case number_ends lg s i of
        j # _ \<Rightarrow> if i < j then slice s i j # number_tokens lg s j else number_tokens lg s (i + 1)
      | [] \<Rightarrow> number_tokens lg s (i + 1))"
  by pat_completeness auto
termination
  by (relation "measure (\<lambda>(lg, s, i). length s - i)") auto

declare number_tokens.simps [simp del]

subsection \<open>Patterns\<close>

datatype item =
    Lit "utext list"
  | LitCase "utext list"
  | Boundary
  | Spaces bool
  | AnyLazy
  | Num string

text \<open>\<open>Lit\<close>: one of several words without regard to case; \<open>Spaces True\<close> is \<open>\s+\<close>, \<open>Spaces False\<close> is \<open>\s*\<close>.\<close>

definition lit_end :: "(nat \<Rightarrow> nat \<Rightarrow> bool) \<Rightarrow> utext \<Rightarrow> nat \<Rightarrow> utext \<Rightarrow> nat list" where
  "lit_end same s i w = (if list_all2 same w (take (length w) (drop i s)) then [i + length w] else [])"

fun item_ends :: "lang \<Rightarrow> item \<Rightarrow> utext \<Rightarrow> nat \<Rightarrow> nat list" where
  "item_ends lg (Lit ws) s i = concat (map (lit_end (\<lambda>p c. c \<in> set (letter_variants p)) s i) ws)"
| "item_ends lg (LitCase ws) s i = concat (map (lit_end (=) s i) ws)"
| "item_ends lg Boundary s i = (if boundary lg s i then [i] else [])"
| "item_ends lg (Spaces some) s i = greedy_ends i (run_length (is_space (lg_db lg)) s i) @ (if some then [] else [i])"
| "item_ends lg AnyLazy s i = [i..<Suc (i + run_length (\<lambda>c. c \<noteq> 10) s i)]"
| "item_ends lg (Num name) s i = number_ends lg s i"

fun capture :: "item \<Rightarrow> utext \<Rightarrow> nat \<Rightarrow> nat \<Rightarrow> (string \<times> utext) list" where
  "capture (Num name) s i j = [(name, slice s i j)]"
| "capture _ s i j = []"

text \<open>Backtracking: the first end of an item from which the rest of the pattern matches.\<close>

fun match_items :: "lang \<Rightarrow> item list \<Rightarrow> utext \<Rightarrow> nat \<Rightarrow> (string \<times> utext) list option"
  and try_ends :: "lang \<Rightarrow> item \<Rightarrow> item list \<Rightarrow> utext \<Rightarrow> nat \<Rightarrow> nat list \<Rightarrow> (string \<times> utext) list option" where
  "match_items lg [] s i = Some []"
| "match_items lg (it # its) s i = try_ends lg it its s i (item_ends lg it s i)"
| "try_ends lg it its s i [] = None"
| "try_ends lg it its s i (j # js) = (case match_items lg its s j of
      Some caps \<Rightarrow> Some (capture it s i j @ caps)
    | None \<Rightarrow> try_ends lg it its s i js)"

text \<open>\<open>pattern.search\<close>: the first alternative that matches at the first position that has one.\<close>

fun match_alternatives :: "lang \<Rightarrow> item list list \<Rightarrow> utext \<Rightarrow> nat \<Rightarrow> (string \<times> utext) list option" where
  "match_alternatives lg [] s i = None"
| "match_alternatives lg (its # rest) s i = (case match_items lg its s i of
      Some caps \<Rightarrow> Some caps
    | None \<Rightarrow> match_alternatives lg rest s i)"

fun search_from :: "lang \<Rightarrow> item list list \<Rightarrow> utext \<Rightarrow> nat list \<Rightarrow> (string \<times> utext) list option" where
  "search_from lg alts s [] = None"
| "search_from lg alts s (i # is) = (case match_alternatives lg alts s i of
      Some caps \<Rightarrow> Some caps
    | None \<Rightarrow> search_from lg alts s is)"

definition search :: "lang \<Rightarrow> item list list \<Rightarrow> utext \<Rightarrow> (string \<times> utext) list option" where
  "search lg alts s = search_from lg alts s [0..<Suc (length s)]"

definition word_item :: "string \<Rightarrow> item" where
  "word_item w = Lit [cps w]"

definition labelled_number :: "string \<Rightarrow> string \<Rightarrow> item list" where
  "labelled_number label name = [Boundary, word_item label, Spaces True, Num name]"

definition keyword_items :: "string list \<Rightarrow> item list" where
  "keyword_items ws = Boundary # (case ws of [] \<Rightarrow> [] | w # rest \<Rightarrow>
      word_item w # concat (map (\<lambda>v. [Spaces True, word_item v]) rest)) @ [Boundary, AnyLazy]"

record metric_pattern =
  mp_operation :: string
  mp_pattern :: "item list list"
  mp_names :: "string list"

definition PATTERNS :: "metric_pattern list" where
  "PATTERNS =
     [\<lparr>mp_operation = ''cagr'',
       mp_pattern = [keyword_items [''cagr''] @ labelled_number ''from'' ''starting_value'' @ [Spaces True] @
         labelled_number ''to'' ''ending_value'' @ [Spaces True] @ labelled_number ''over'' ''periods'' @
         [Spaces True, Lit (map cps [''periods'', ''period'', ''years'', ''year'']), Boundary]],
       mp_names = [''starting_value'', ''ending_value'', ''periods'']\<rparr>,
      \<lparr>mp_operation = ''growth_rate'',
       mp_pattern = map (\<lambda>ws. keyword_items ws @ labelled_number ''from'' ''previous'' @ [Spaces True] @
           labelled_number ''to'' ''current'' @ [Boundary])
         [[''growth''], [''growth'', ''rate''], [''percentage'', ''growth''], [''revenue'', ''growth'']],
       mp_names = [''previous'', ''current'']\<rparr>,
      \<lparr>mp_operation = ''growth_rate'',
       mp_pattern = [[LitCase [[22686, 38271, 29575], [22686, 38271, 30334, 20998, 27604]], AnyLazy, LitCase [[20174]], Spaces False,
           Num ''previous'', Spaces False, LitCase [[22686, 38271], []], LitCase [[21040]], Spaces False, Num ''current'']],
       mp_names = [''previous'', ''current'']\<rparr>,
      \<lparr>mp_operation = ''margin'',
       mp_pattern = [keyword_items [''margin''] @ labelled_number ''of'' ''numerator'' @ [Spaces True] @
         labelled_number ''on'' ''denominator'' @ [Boundary]],
       mp_names = [''numerator'', ''denominator'']\<rparr>,
      \<lparr>mp_operation = ''ratio'',
       mp_pattern = [keyword_items [''ratio''] @ labelled_number ''of'' ''numerator'' @ [Spaces True] @
         labelled_number ''to'' ''denominator'' @ [Boundary]],
       mp_names = [''numerator'', ''denominator'']\<rparr>]"

subsection \<open>Values\<close>

definition drop_sign :: "utext \<Rightarrow> utext" where
  "drop_sign t = (case t of c # r \<Rightarrow> if c = 45 \<or> c = 43 then r else t | [] \<Rightarrow> [])"

fun digits_value :: "lang \<Rightarrow> rat \<Rightarrow> utext \<Rightarrow> rat option" where
  "digits_value lg acc [] = Some acc"
| "digits_value lg acc (c # cs) = (case lg_decimal lg c of
      Some d \<Rightarrow> digits_value lg (acc * 10 + of_nat d) cs
    | None \<Rightarrow> None)"

text \<open>\<open>Decimal(raw)\<close> on a sign, digits and a fraction; \<open>None\<close> is \<open>InvalidOperation\<close>.\<close>

definition decimal_of :: "lang \<Rightarrow> utext \<Rightarrow> rat option" where
  "decimal_of lg t =
     (let body = drop_sign t; whole = takeWhile (\<lambda>c. c \<noteq> 46) body; frac = drop (Suc (length whole)) body;
          sign = (if t \<noteq> [] \<and> hd t = 45 then - 1 else 1)
      in if whole @ frac = [] then None
         else map_option (\<lambda>v. sign * v / 10 ^ length frac) (digits_value lg 0 (whole @ frac)))"

definition decimal_to_number :: "lang \<Rightarrow> utext \<Rightarrow> json option" where
  "decimal_to_number lg raw = map_option
     (\<lambda>v. if v = of_int \<lfloor>v\<rfloor> then JInt \<lfloor>v\<rfloor> else JFloat (to_float v)) (decimal_of lg (filter (\<lambda>c. c \<noteq> 44) raw))"

record invocation =
  inv_operation :: string
  inv_parameters :: obj
  inv_tool_name :: string

text \<open>The dict comprehension over the names of the groups; a failing conversion ends the parse.\<close>

definition group_value :: "lang \<Rightarrow> (string \<times> utext) list \<Rightarrow> string \<Rightarrow> json option" where
  "group_value lg caps name = Option.bind (map_of caps name) (decimal_to_number lg)"

fun collect_parameters :: "lang \<Rightarrow> (string \<times> utext) list \<Rightarrow> string list \<Rightarrow> obj option" where
  "collect_parameters lg caps [] = Some []"
| "collect_parameters lg caps (n # ns) = (case group_value lg caps n of
      None \<Rightarrow> None
    | Some v \<Rightarrow> map_option ((#) (n, v)) (collect_parameters lg caps ns))"

fun try_patterns :: "lang \<Rightarrow> utext \<Rightarrow> nat \<Rightarrow> metric_pattern list \<Rightarrow> invocation option" where
  "try_patterns lg s tokens [] = None"
| "try_patterns lg s tokens (p # ps) = (case search lg (mp_pattern p) s of
      None \<Rightarrow> try_patterns lg s tokens ps
    | Some caps \<Rightarrow>
        if tokens \<noteq> length (mp_names p) then try_patterns lg s tokens ps
        else map_option (\<lambda>ps. \<lparr>inv_operation = mp_operation p, inv_parameters = ps @ [(''operation'', JStr (mp_operation p))],
               inv_tool_name = ''financial_metrics''\<rparr>) (collect_parameters lg caps (mp_names p)))"

definition normalise_question :: "lang \<Rightarrow> utext \<Rightarrow> utext" where
  "normalise_question lg q = join_cp [SP] (words (lg_db lg) (strip_cp (lg_db lg) q))"

definition parse_financial_metric_query :: "lang \<Rightarrow> utext \<Rightarrow> invocation option" where
  "parse_financial_metric_query lg q =
     (let s = normalise_question lg q in
      if s = [] then None else try_patterns lg s (length (number_tokens lg s 0)) PATTERNS)"

subsection \<open>What a parse tells\<close>

lemma PATTERNS_cases:
  assumes "p \<in> set PATTERNS"
  shows "mp_operation p \<in> set SUPPORTED_FINANCIAL_METRIC_OPERATIONS"
    "mp_names p = (if mp_operation p = ''cagr'' then [''starting_value'', ''ending_value'', ''periods'']
       else if mp_operation p = ''growth_rate'' then [''previous'', ''current''] else [''numerator'', ''denominator''])"
  using assms by (auto simp: PATTERNS_def SUPPORTED_FINANCIAL_METRIC_OPERATIONS_def)

text \<open>Everything the loop over the patterns can return.\<close>

lemma try_patterns_Some:
  "try_patterns lg s tokens ps = Some iv \<Longrightarrow>
   \<exists>p caps vs. p \<in> set ps \<and> search lg (mp_pattern p) s = Some caps \<and> tokens = length (mp_names p) \<and>
     collect_parameters lg caps (mp_names p) = Some vs \<and> inv_operation iv = mp_operation p \<and>
     inv_parameters iv = vs @ [(''operation'', JStr (mp_operation p))] \<and> inv_tool_name iv = ''financial_metrics''"
proof (induction ps)
  case (Cons p ps)
  show ?case
  proof (cases "search lg (mp_pattern p) s = None \<or> tokens \<noteq> length (mp_names p)")
    case True
    with Cons.prems have "try_patterns lg s tokens ps = Some iv" by (auto split: option.splits)
    from Cons.IH [OF this] show ?thesis unfolding list.set by blast
  next
    case False
    with Cons.prems show ?thesis by (intro exI [of _ p]) auto
  qed
qed simp

lemma parse_tool_name: "parse_financial_metric_query lg q = Some iv \<Longrightarrow> inv_tool_name iv = ''financial_metrics''"
  by (auto simp: parse_financial_metric_query_def Let_def split: if_splits dest: try_patterns_Some)

lemma collect_parameters_spec:
  "collect_parameters lg caps ns = Some vs \<Longrightarrow>
   map fst vs = ns \<and> list_all (\<lambda>(n, v). \<exists>raw. map_of caps n = Some raw \<and> decimal_to_number lg raw = Some v) vs"
proof (induction ns arbitrary: vs)
  case (Cons n ns)
  then obtain v vs' where v: "group_value lg caps n = Some v" "collect_parameters lg caps ns = Some vs'" "vs = (n, v) # vs'"
    by (auto split: option.splits)
  from v(1) obtain raw where "map_of caps n = Some raw" "decimal_to_number lg raw = Some v"
    by (auto simp: group_value_def bind_eq_Some_conv)
  with v(3) Cons.IH [OF v(2)] show ?case by auto
qed simp

lemma sublist_slice [simp]: "sublist (slice s i j) s"
  by (metis slice_def sublist_order.dual_order.trans sublist_drop sublist_take)

lemma match_captures:
  "match_items lg its s i = Some caps \<Longrightarrow> (n, raw) \<in> set caps \<Longrightarrow> sublist raw s"
  "try_ends lg it its s i js = Some caps \<Longrightarrow> (n, raw) \<in> set caps \<Longrightarrow> sublist raw s"
proof (induction lg its s i and lg it its s i js arbitrary: caps and caps rule: match_items_try_ends.induct)
  case (4 lg it its s i j js)
  show ?case
  proof (cases "match_items lg its s j")
    case None
    with 4 show ?thesis by auto
  next
    case (Some cs)
    with 4 show ?thesis by (cases it) auto
  qed
qed auto

lemma match_alternatives_captures:
  "match_alternatives lg alts s i = Some caps \<Longrightarrow> (n, raw) \<in> set caps \<Longrightarrow> sublist raw s"
  by (induction lg alts s i rule: match_alternatives.induct) (auto split: option.splits dest: match_captures(1))

lemma search_captures:
  assumes "search lg alts s = Some caps" "(n, raw) \<in> set caps"
  shows "sublist raw s"
proof -
  have "search_from lg alts s is = Some caps \<Longrightarrow> sublist raw s" for "is"
    using assms(2)
    by (induction "is") (auto split: option.splits dest: match_alternatives_captures)
  then show ?thesis using assms(1) by (simp only: search_def)
qed

text \<open>
  How the tool reads the decimal value of a piece of text as an operand: a whole number exactly, any
  other number through the nearest float, and a number beyond the floats not at all.
\<close>

definition reads_as :: "obj \<Rightarrow> string \<Rightarrow> rat \<Rightarrow> bool" where
  "reads_as ps n x \<longleftrightarrow>
     (if x = of_int \<lfloor>x\<rfloor> then number_param ps n = Inr x
      else case to_float x of
          Fin v \<Rightarrow> number_param ps n = Inr (repr_decimal v)
        | _ \<Rightarrow> number_param ps n = Inl (value_error (n @ '' must be finite'')) \<and> 2 ^ 1023 < \<bar>x\<bar>)"

lemma decimal_to_number_value:
  assumes "decimal_to_number lg raw = Some v" "get_or ps n JNull = v"
  shows "\<exists>x. decimal_of lg (filter (\<lambda>c. c \<noteq> 44) raw) = Some x \<and> reads_as ps n x"
proof -
  obtain x where x: "decimal_of lg (filter (\<lambda>c. c \<noteq> 44) raw) = Some x"
    and v: "v = (if x = of_int \<lfloor>x\<rfloor> then JInt \<lfloor>x\<rfloor> else JFloat (to_float x))"
    using assms(1) by (auto simp: decimal_to_number_def)
  have "reads_as ps n x"
  proof (cases "x = of_int \<lfloor>x\<rfloor>")
    case True
    then show ?thesis using assms(2) v by (simp add: reads_as_def number_param_def)
  next
    case False
    then have "get_or ps n JNull = JFloat (to_float x)" using assms(2) v by simp
    moreover have "(2 :: rat) ^ 1023 < \<bar>x\<bar>" if "\<And>w. to_float x \<noteq> Fin w"
      using that to_float_finite [of x] by (metis not_le)
    ultimately show ?thesis
      using False by (auto simp: reads_as_def number_param_def simp del: power_numeral split: pyfloat.split)
  qed
  with x show ?thesis by blast
qed

lemma parse_Some:
  assumes "parse_financial_metric_query lg q = Some iv"
  shows "\<exists>p caps vs. p \<in> set PATTERNS \<and> search lg (mp_pattern p) (normalise_question lg q) = Some caps \<and>
     length (number_tokens lg (normalise_question lg q) 0) = length (mp_names p) \<and>
     collect_parameters lg caps (mp_names p) = Some vs \<and> inv_operation iv = mp_operation p \<and>
     inv_parameters iv = vs @ [(''operation'', JStr (mp_operation p))]"
  using assms try_patterns_Some [of lg "normalise_question lg q" _ PATTERNS iv]
  by (fastforce simp: parse_financial_metric_query_def Let_def split: if_splits)

lemma names_no_clash: "p \<in> set PATTERNS \<Longrightarrow> distinct (mp_names p @ [''operation'', ''precision''])"
  by (auto simp: PATTERNS_def)

lemma get_or_distinct: "distinct (map fst ob) \<Longrightarrow> (k, v) \<in> set ob \<Longrightarrow> get_or ob k d = v"
  by (simp add: get_or_def)

lemma get_or_absent: "k \<notin> set (map fst ob) \<Longrightarrow> get_or ob k d = d"
  by (simp add: get_or_def map_of_eq_None_iff [THEN iffD2])

text \<open>What the tool reads as an operand: the value of a piece of the question.\<close>

definition operand_read :: "lang \<Rightarrow> utext \<Rightarrow> obj \<Rightarrow> string \<Rightarrow> bool" where
  "operand_read lg s ps n \<longleftrightarrow>
     (\<exists>raw x. sublist raw s \<and> decimal_of lg (filter (\<lambda>c. c \<noteq> 44) raw) = Some x \<and> reads_as ps n x)"

lemma collected_operand:
  assumes "search lg pat s = Some caps" "collect_parameters lg caps ns = Some vs" "n \<in> set ns"
    and "ps = vs @ rest" "distinct (map fst ps)"
  shows "operand_read lg s ps n"
proof -
  note vs = collect_parameters_spec [OF assms(2)]
  obtain v where v: "(n, v) \<in> set vs" using assms(3) vs by force
  then obtain raw where raw: "map_of caps n = Some raw" "decimal_to_number lg raw = Some v"
    using vs by (auto simp: list_all_iff)
  have "get_or ps n JNull = v" using get_or_distinct [OF assms(5), of n v] v assms(4) by simp
  from decimal_to_number_value [OF raw(2) this] search_captures [OF assms(1) map_of_SomeD [OF raw(1)]]
  show ?thesis unfolding operand_read_def by blast
qed

text \<open>
  A parsed calculation is one the tool accepts. When the parser turns a question into an invocation, the
  operation is supported, the parameters are exactly the operands of that operation in order, the question
  holds exactly as many numbers as the operation has operands, the tool finds the operation
  supported and the default precision, and every operand it reads is the decimal value of a
  piece of the question, through the nearest float when it is not whole; only a number beyond the range of a double
  is refused, as not finite.
\<close>

theorem parsed_calculation_accepted:
  assumes "parse_financial_metric_query lg q = Some iv"
  shows "inv_operation iv \<in> set SUPPORTED_FINANCIAL_METRIC_OPERATIONS \<and>
    (\<exists>names. map fst (inv_parameters iv) = names @ [''operation''] \<and>
      names = (if inv_operation iv = ''cagr'' then [''starting_value'', ''ending_value'', ''periods'']
        else if inv_operation iv = ''growth_rate'' then [''previous'', ''current''] else [''numerator'', ''denominator'']) \<and>
      length (number_tokens lg (normalise_question lg q) 0) = length names \<and>
      list_all (operand_read lg (normalise_question lg q) (inv_parameters iv)) names) \<and>
    operation_supported (inv_parameters iv) = Inr True \<and>
    check_precision (get_or (inv_parameters iv) ''precision'' (JInt 4)) = Inr 4"
proof -
  let ?s = "normalise_question lg q"
  obtain p caps vs where p: "p \<in> set PATTERNS" "search lg (mp_pattern p) ?s = Some caps"
      "length (number_tokens lg ?s 0) = length (mp_names p)" "collect_parameters lg caps (mp_names p) = Some vs"
    and iv: "inv_operation iv = mp_operation p" "inv_parameters iv = vs @ [(''operation'', JStr (mp_operation p))]"
    using parse_Some [OF assms] by blast
  note vs = collect_parameters_spec [OF p(4)] and cases = PATTERNS_cases [OF p(1)]
  have keys: "map fst (inv_parameters iv) = mp_names p @ [''operation'']" using vs iv(2) by simp
  then have dist: "distinct (map fst (inv_parameters iv))" "''precision'' \<notin> set (map fst (inv_parameters iv))"
    using names_no_clash [OF p(1)] by auto
  have operand: "operand_read lg ?s (inv_parameters iv) n" if "n \<in> set (mp_names p)" for n
    using collected_operand [OF p(2,4) that iv(2) dist(1)] .
  have op: "get_or (inv_parameters iv) ''operation'' JNull = JStr (mp_operation p)"
    using get_or_distinct [OF dist(1)] iv(2) by simp
  have prec: "get_or (inv_parameters iv) ''precision'' (JInt 4) = JInt 4" by (rule get_or_absent [OF dist(2)])
  have supported: "operation_supported (inv_parameters iv) = Inr True"
    using cases(1) op by (simp add: operation_supported_def)
  have precision: "check_precision (get_or (inv_parameters iv) ''precision'' (JInt 4)) = Inr 4"
    unfolding prec by (simp add: check_precision_def)
  show ?thesis
    unfolding list_all_iff
    by (intro conjI exI [of _ "mp_names p"] ballI supported precision keys p(3) operand)
      (use cases iv(1) in simp_all)
qed

subsection \<open>Examples\<close>

lemma parse_eval:
  assumes "normalise_question lg q = s" "s \<noteq> []" "length (number_tokens lg s 0) = n" "try_patterns lg s n PATTERNS = r"
  shows "parse_financial_metric_query lg q = r"
  using assms by (simp add: parse_financial_metric_query_def)

definition plain_lang :: lang where
  "plain_lang = \<lparr>lg_db = ascii_db\<lparr>is_word := (\<lambda>c. (48 \<le> c \<and> c \<le> 57) \<or> (65 \<le> c \<and> c \<le> 90) \<or> c = 95 \<or> (97 \<le> c \<and> c \<le> 122))\<rparr>,
     lg_lower = map (\<lambda>c. if 65 \<le> c \<and> c \<le> 90 then c + 32 else c),
     lg_decimal = (\<lambda>c. if 48 \<le> c \<and> c \<le> 57 then Some (c - 48) else None)\<rparr>"

lemmas number_eval = number_ends_def unsigned_ends_def integer_ends_def fraction_ends_def char_at_def digit_at_def
  digit_run_def run_length_def greedy_ends_def group_ends.simps slice_def

lemmas pattern_eval = PATTERNS_def search_def upt_rec keyword_items_def labelled_number_def word_item_def boundary_def
  word_at_def lit_end_def letter_variants_def

lemmas lang_eval = plain_lang_def ascii_db_def cps_def

lemmas value_eval = group_value_def decimal_to_number_def decimal_of_def drop_sign_def

lemma growth_example:
  "parse_financial_metric_query plain_lang (cps ''Growth from 80 to 100'') =
     Some \<lparr>inv_operation = ''growth_rate'',
       inv_parameters = [(''previous'', JInt 80), (''current'', JInt 100), (''operation'', JStr ''growth_rate'')],
       inv_tool_name = ''financial_metrics''\<rparr>"
proof (rule parse_eval)
  show "normalise_question plain_lang (cps ''Growth from 80 to 100'') = cps ''Growth from 80 to 100''"
    by (simp add: normalise_question_def lang_eval words.simps strip_cp_def)
  show "length (number_tokens plain_lang (cps ''Growth from 80 to 100'') 0) = 2"
    by (simp add: lang_eval number_tokens.simps number_eval)
qed (simp_all add: pattern_eval lang_eval number_eval value_eval)

theorem parsed_calculation_accepted_witness:
  "\<exists>iv. parse_financial_metric_query plain_lang (cps ''Growth from 80 to 100'') = Some iv \<and>
     inv_operation iv = ''growth_rate'' \<and> operation_supported (inv_parameters iv) = Inr True \<and>
     number_param (inv_parameters iv) ''previous'' = Inr 80 \<and> number_param (inv_parameters iv) ''current'' = Inr 100"
  using parsed_calculation_accepted [OF growth_example] growth_example by (auto simp: number_param_def get_or_def)

text \<open>
  A unit behind the last number is misread when the number has a thousands separator or a
  fraction: the closing \<open>\b\<close> makes the pattern back off to the part before the separator, and
  the count of the numbers does not notice. The growth from 100 to 1,500k is planned as the growth from 100 to 1.
\<close>

theorem unit_suffix_misread:
  "parse_financial_metric_query plain_lang (cps ''growth from 100 to 1,500k'') =
     Some \<lparr>inv_operation = ''growth_rate'',
       inv_parameters = [(''previous'', JInt 100), (''current'', JInt 1), (''operation'', JStr ''growth_rate'')],
       inv_tool_name = ''financial_metrics''\<rparr>"
proof (rule parse_eval)
  show "normalise_question plain_lang (cps ''growth from 100 to 1,500k'') = cps ''growth from 100 to 1,500k''"
    by (simp add: normalise_question_def lang_eval words.simps strip_cp_def)
  show "length (number_tokens plain_lang (cps ''growth from 100 to 1,500k'') 0) = 2"
    by (simp add: lang_eval number_tokens.simps number_eval)
qed (simp_all add: pattern_eval lang_eval number_eval value_eval)

end
