(* ===== verification/Query_Planner.thy ===== *)
theory Query_Planner
  imports Metric_Parser
begin

text \<open>
  \<^verbatim>\<open>core/intent_analyzer.py\<close>, \<^verbatim>\<open>research_mode.py\<close>, \<^verbatim>\<open>agent/execution_plan.py\<close> and
  \<^verbatim>\<open>agent/query_planner.py\<close>: the intent and the research mode of a question, the data
  model of a plan, and the planner. The planner object keeps one counter for step ids; it is
  threaded through the builders as in the source, and the lock of \<open>plan\<close> makes a call atomic.
  The result of a step is a type parameter, filled in by the execution layer.
\<close>

subsection \<open>Intents\<close>

definition RESEARCH_SIGNALS :: "utext list" where
  "RESEARCH_SIGNALS =
     [cps ''revenue'', cps ''profit'', cps ''margin'', cps ''ebitda'', cps ''earnings'', cps ''eps'',
      cps ''balance sheet'', cps ''income statement'', cps ''cash flow'', cps ''market cap'', cps ''dividend'',
      cps ''risk'', cps ''growth'', cps ''trend'', cps ''forecast'', cps ''outlook'', cps ''strategy'',
      cps ''analysis'', cps ''analyze'', cps ''research'', cps ''financial'', cps ''investment'', cps ''sector'',
      cps ''industry'', cps ''market'', cps ''stock'', cps ''price'', cps ''economy'', cps ''economic'',
      cps ''interest rate'', cps ''inflation'', cps ''gdp'', [33829, 25910], [21033, 28070], [20928, 21033, 28070],
      [27611, 21033, 29575], [29616, 37329, 27969], [32929, 24687], [24066, 30408, 29575], [20998, 26512],
      [30740, 31350], [39118, 38505], [22686, 38271], [36235, 21183], [25237, 36164], [24066, 22330], [34892, 19994],
      [36130, 21153], [32463, 27982]]"

record intent_result =
  ir_intent :: string
  ir_companies :: "utext list option"

definition INTENT_COMPANIES :: "(utext \<times> utext) list" where
  "INTENT_COMPANIES =
     [(cps ''apple'', cps ''Apple''), ([33529, 26524], cps ''Apple''), (cps ''tesla'', cps ''Tesla''),
      ([29305, 26031, 25289], cps ''Tesla''), (cps ''nvidia'', cps ''NVIDIA''), ([33521, 20255, 36798], cps ''NVIDIA''),
      (cps ''amd'', cps ''AMD''), ([36229, 23041], cps ''AMD'')]"

definition intent_companies :: "lang \<Rightarrow> utext \<Rightarrow> utext list" where
  "intent_companies lg q = map snd (filter (\<lambda>(k, v). contains_text (lg_lower lg q) k) INTENT_COMPANIES)"

text \<open>\<open>re.search(a + '.*' + b, t)\<close>: \<open>b\<close> after \<open>a\<close> on the same line.\<close>

fun gap_match :: "utext \<Rightarrow> utext \<Rightarrow> utext \<Rightarrow> bool" where
  "gap_match a b [] = False"
| "gap_match a b (c # cs) =
     ((prefix a (c # cs) \<and> contains_text (takeWhile (\<lambda>x. x \<noteq> 10) (drop (length a) (c # cs))) b) \<or> gap_match a b cs)"

definition is_compare :: "utext \<Rightarrow> bool" where
  "is_compare low \<longleftrightarrow>
     list_ex (contains_text low) [cps ''vs'', cps ''compare'', [23545, 27604], [27604, 36739], cps ''versus''] \<or>
     gap_match [21644] [21738, 20010] low \<or> gap_match [19982] [21738, 20010] low"

definition is_direct_chat :: "utext \<Rightarrow> bool" where
  "is_direct_chat low \<longleftrightarrow> \<not> list_ex (contains_text low) RESEARCH_SIGNALS"

definition intent_analyze :: "lang \<Rightarrow> utext \<Rightarrow> intent_result" where
  "intent_analyze lg q =
     (let low = lg_lower lg q; companies = intent_companies lg q in
      if is_compare low then \<lparr>ir_intent = ''COMPARE_COMPANIES'', ir_companies = Some companies\<rparr>
      else if length companies = 1 then \<lparr>ir_intent = ''SINGLE_COMPANY'', ir_companies = Some companies\<rparr>
      else if length companies > 1 then \<lparr>ir_intent = ''UNKNOWN'', ir_companies = Some companies\<rparr>
      else if is_direct_chat low then \<lparr>ir_intent = ''DIRECT_CHAT'', ir_companies = None\<rparr>
      else \<lparr>ir_intent = ''GLOBAL_RESEARCH'', ir_companies = None\<rparr>)"

subsection \<open>Research mode\<close>

definition RESEARCH_MODES :: "(string \<times> string list) list" where
  "RESEARCH_MODES =
     [(''compare'', [''compare'', ''comparison'', ''vs'', ''versus'', ''difference'']),
      (''leader'', [''stronger'', ''leader'', ''leading'', ''best'', ''largest'', ''dominant'', ''moat'']),
      (''risk'', [''risk'', ''challenge'', ''threat'', ''weakness'']),
      (''growth'', [''growth'', ''future'', ''opportunity'', ''expand'']),
      (''investment'', [''investment'', ''invest'', ''buy'', ''position'', ''outlook''])]"

definition detect_research_mode :: "lang \<Rightarrow> utext \<Rightarrow> string" where
  "detect_research_mode lg q =
     (case find (\<lambda>(mode, kws). list_ex (\<lambda>k. contains_text (lg_lower lg q) (cps k)) kws) RESEARCH_MODES of
        Some (mode, _) \<Rightarrow> mode
      | None \<Rightarrow> ''default'')"

subsection \<open>Plans\<close>

datatype StepType = RETRIEVE | COMPARE | SYNTHESIS | TOOL_CALL | REASONING

fun StepType_value :: "StepType \<Rightarrow> string" where
  "StepType_value RETRIEVE = ''retrieve''"
| "StepType_value COMPARE = ''compare''"
| "StepType_value SYNTHESIS = ''synthesis''"
| "StepType_value TOOL_CALL = ''tool_call''"
| "StepType_value REASONING = ''reasoning''"

datatype StepStatus = SS_PENDING | SS_RUNNING | SS_COMPLETED | SS_FAILED | SS_SKIPPED

text \<open>A parameter of a step: a JSON value, or a list of texts.\<close>

datatype param = PJson json | PTexts "utext list"

record 'r plan_step =
  ps_id :: int
  ps_type :: StepType
  ps_description :: utext
  ps_query :: "utext option"
  ps_company :: "utext option"
  ps_document_ids :: "utext list"
  ps_depends_on :: "int list"
  ps_parameters :: "(string \<times> param) list"
  ps_status :: StepStatus
  ps_result :: "'r option"
  ps_tool_name :: "string option"

definition PlanStep :: "int \<Rightarrow> StepType \<Rightarrow> utext \<Rightarrow> utext \<Rightarrow> 'r plan_step" where
  "PlanStep i ty desc q = \<lparr>ps_id = i, ps_type = ty, ps_description = desc, ps_query = Some q, ps_company = None,
     ps_document_ids = [], ps_depends_on = [], ps_parameters = [], ps_status = SS_PENDING, ps_result = None, ps_tool_name = None\<rparr>"

record 'r execution_plan =
  pl_intent :: string
  pl_query :: utext
  pl_tasks :: "'r plan_step list"
  pl_metadata :: obj
  pl_task_type :: "TaskType option"
  pl_complexity :: "ComplexityLevel option"
  pl_complexity_score :: rat
  pl_tokens :: int
  pl_latency_ms :: int
  pl_cost :: rat
  pl_planner_reason :: utext
  pl_complexity_reason :: string
  pl_version :: string

definition ExecutionPlan :: "string \<Rightarrow> utext \<Rightarrow> 'r plan_step list \<Rightarrow> 'r execution_plan" where
  "ExecutionPlan intent q tasks = \<lparr>pl_intent = intent, pl_query = q, pl_tasks = tasks, pl_metadata = [], pl_task_type = None,
     pl_complexity = None, pl_complexity_score = 0, pl_tokens = 0, pl_latency_ms = 0, pl_cost = 0, pl_planner_reason = [],
     pl_complexity_reason = [], pl_version = ''rule-v1''\<rparr>"

subsection \<open>The planner\<close>

record planner =
  step_counter :: int

definition next_id :: "planner \<Rightarrow> int \<times> planner" where
  "next_id p = (step_counter p, p\<lparr>step_counter := step_counter p + 1\<rparr>)"

definition reset_counter :: "planner \<Rightarrow> planner" where
  "reset_counter p = p\<lparr>step_counter := 1\<rparr>"

definition build_financial_metric_plan :: "utext \<Rightarrow> invocation \<Rightarrow> planner \<Rightarrow> 'r execution_plan \<times> planner" where
  "build_financial_metric_plan q iv p =
     (let (i, p1) = next_id p in
      ((ExecutionPlan ''financial_calculation'' q
          [(PlanStep i TOOL_CALL (cps (''Calculate '' @ inv_operation iv)) q)
             \<lparr>ps_parameters := map (\<lambda>(k, v). (k, PJson v)) (inv_parameters iv), ps_tool_name := Some (inv_tool_name iv)\<rparr>])
         \<lparr>pl_metadata := [(''tool_policy'', JStr ''financial_metrics_only''), (''deterministic'', JBool True)]\<rparr>, p1))"

definition metrics_parameter :: param where
  "metrics_parameter = PJson (JArr [JStr ''revenue'', JStr ''margin'', JStr ''risk''])"

fun compare_retrievals :: "utext \<Rightarrow> utext list \<Rightarrow> planner \<Rightarrow> 'r plan_step list \<times> planner" where
  "compare_retrievals q [] p = ([], p)"
| "compare_retrievals q (c # cs) p =
     (let (i, p1) = next_id p;
          step = (PlanStep i RETRIEVE (cps ''Retrieve '' @ c @ cps '' financial report'') q)
            \<lparr>ps_company := Some c, ps_parameters := [(''metrics'', metrics_parameter)]\<rparr>;
          (steps, p2) = compare_retrievals q cs p1
      in (step # steps, p2))"

definition build_compare_plan :: "utext \<Rightarrow> utext list \<Rightarrow> planner \<Rightarrow> 'r execution_plan \<times> planner" where
  "build_compare_plan q companies p =
     (let (retrievals, p1) = compare_retrievals q companies p;
          (i, p2) = next_id p1;
          compare_step = (PlanStep i COMPARE (cps ''Compare '' @ join_cp (cps '', '') companies) q)
            \<lparr>ps_parameters := [(''companies'', PTexts companies)], ps_depends_on := map ps_id retrievals\<rparr>;
          (j, p3) = next_id p2;
          synthesis_step = (PlanStep j SYNTHESIS (cps ''Synthesize comparison results'') q)\<lparr>ps_depends_on := [i]\<rparr>
      in (ExecutionPlan ''comparison'' q (retrievals @ [compare_step, synthesis_step]), p3))"

definition build_single_plan :: "utext \<Rightarrow> utext list \<Rightarrow> planner \<Rightarrow> 'r execution_plan \<times> planner" where
  "build_single_plan q companies p =
     (let company = (case companies of [] \<Rightarrow> None | c # _ \<Rightarrow> Some c);
          (i, p1) = next_id p;
          retrieve_step = (PlanStep i RETRIEVE
            (case company of Some c \<Rightarrow> (if c = [] then cps ''Retrieve relevant documents'' else cps ''Retrieve '' @ c @ cps '' documents'')
             | None \<Rightarrow> cps ''Retrieve relevant documents'') q)\<lparr>ps_company := company\<rparr>;
          (j, p2) = next_id p1;
          analysis_step = (PlanStep j REASONING (cps ''Analyze retrieved data'') q)\<lparr>ps_depends_on := [i]\<rparr>
      in (ExecutionPlan ''single_company'' q [retrieve_step, analysis_step], p2))"

definition build_global_plan :: "utext \<Rightarrow> planner \<Rightarrow> 'r execution_plan \<times> planner" where
  "build_global_plan q p =
     (let (i, p1) = next_id p;
          retrieve_step = (PlanStep i RETRIEVE (cps ''Retrieve industry-wide documents'') q)
            \<lparr>ps_parameters := [(''top_k'', PJson (JInt 6))]\<rparr>;
          (j, p2) = next_id p1;
          synthesis_step = (PlanStep j SYNTHESIS (cps ''Synthesize research findings'') q)\<lparr>ps_depends_on := [i]\<rparr>
      in (ExecutionPlan ''global_research'' q [retrieve_step, synthesis_step], p2))"

definition build_generic_plan :: "utext \<Rightarrow> planner \<Rightarrow> 'r execution_plan \<times> planner" where
  "build_generic_plan q p =
     (let (i, p1) = next_id p in
      (ExecutionPlan ''generic'' q [PlanStep i RETRIEVE (cps ''Retrieve relevant documents'') q], p1))"

text \<open>The choice of the builder, and the fields that \<open>_plan_serialized\<close> copies onto the plan.\<close>

definition choose_plan :: "invocation option \<Rightarrow> TaskType \<Rightarrow> utext \<Rightarrow> utext list \<Rightarrow> planner \<Rightarrow> 'r execution_plan \<times> planner" where
  "choose_plan metric ty q companies p = (case metric of
      Some iv \<Rightarrow> build_financial_metric_plan q iv p
    | None \<Rightarrow>
        if ty = COMPARISON then build_compare_plan q companies p
        else if ty = DOCUMENT_QA then build_single_plan q companies p
        else if ty \<in> {RESEARCH, FINANCIAL_ANALYSIS} then build_global_plan q p
        else build_generic_plan q p)"

definition annotate :: "task_result \<Rightarrow> complexity_result \<Rightarrow> 'r execution_plan \<Rightarrow> 'r execution_plan" where
  "annotate tr cr pl = pl\<lparr>pl_task_type := Some (tm_type (tk_task tr)), pl_complexity := Some (cm_level (cr_complexity cr)),
     pl_complexity_score := cm_score (cr_complexity cr), pl_tokens := cm_tokens (cr_complexity cr),
     pl_latency_ms := cm_latency_ms (cr_complexity cr), pl_cost := cm_cost (cr_complexity cr),
     pl_planner_reason := tk_reason tr, pl_complexity_reason := cr_reason cr\<rparr>"

definition make_plan :: "lang \<Rightarrow> planning_context \<Rightarrow> planner \<Rightarrow> ('r execution_plan \<times> task_result \<times> complexity_result) \<times> planner" where
  "make_plan lg ctx p =
     (let tr = task_analyze lg ctx;
          cr = complexity_analyze lg tr;
          companies = filter (\<lambda>e. \<not> isdigit lg e) (tk_entities tr);
          (pl, p1) = choose_plan (parse_financial_metric_query lg (pc_question ctx)) (tm_type (tk_task tr))
            (pc_question ctx) companies (reset_counter p)
      in ((annotate tr cr pl, tr, cr), p1))"

subsection \<open>Plans are well formed\<close>

text \<open>Ids count from one, a dependency names an earlier step, nothing has run yet, and only the governed tool is called.\<close>

definition wf_steps :: "'r plan_step list \<Rightarrow> bool" where
  "wf_steps ss \<longleftrightarrow> map ps_id ss = [1..int (length ss)] \<and>
     list_all (\<lambda>s. list_all (\<lambda>d. 1 \<le> d \<and> d < ps_id s) (ps_depends_on s)) ss"

definition fresh_step :: "'r plan_step \<Rightarrow> bool" where
  "fresh_step s \<longleftrightarrow> ps_status s = SS_PENDING \<and> Option.is_none (ps_result s) \<and>
     ps_tool_name s = (if ps_type s = TOOL_CALL then Some ''financial_metrics'' else None)"

definition good_plan :: "'r execution_plan \<Rightarrow> bool" where
  "good_plan pl \<longleftrightarrow> wf_steps (pl_tasks pl) \<and> list_all fresh_step (pl_tasks pl) \<and> pl_tasks pl \<noteq> []"

lemma PlanStep_simps [simp]:
  "ps_id (PlanStep i ty d q) = i" "ps_type (PlanStep i ty d q) = ty" "ps_depends_on (PlanStep i ty d q) = []"
  "ps_status (PlanStep i ty d q) = SS_PENDING" "ps_result (PlanStep i ty d q) = None"
  "ps_tool_name (PlanStep i ty d q) = None" "ps_company (PlanStep i ty d q) = None"
  "ps_parameters (PlanStep i ty d q) = []" "ps_query (PlanStep i ty d q) = Some q"
  by (simp_all add: PlanStep_def)

lemma ExecutionPlan_tasks [simp]: "pl_tasks (ExecutionPlan i q ts) = ts"
  by (simp add: ExecutionPlan_def)

lemma compare_retrievals_spec:
  assumes "compare_retrievals q cs p = (ss, p')"
  shows "map ps_id ss = [step_counter p..step_counter p' - 1]" "step_counter p' = step_counter p + int (length cs)"
    "length ss = length cs" "map ps_company ss = map Some cs"
    "list_all (\<lambda>s. ps_depends_on s = [] \<and> fresh_step s \<and> ps_type s = RETRIEVE) ss"
proof -
  have "map ps_id ss = [step_counter p..step_counter p' - 1] \<and> step_counter p' = step_counter p + int (length cs) \<and>
      length ss = length cs \<and> map ps_company ss = map Some cs \<and>
      list_all (\<lambda>s. ps_depends_on s = [] \<and> fresh_step s \<and> ps_type s = RETRIEVE) ss"
    using assms
  proof (induction cs arbitrary: p ss)
    case (Cons c cs)
    then obtain ss' where ss': "compare_retrievals q cs (p\<lparr>step_counter := step_counter p + 1\<rparr>) = (ss', p')"
      and ss: "ss = (PlanStep (step_counter p) RETRIEVE (cps ''Retrieve '' @ c @ cps '' financial report'') q)
            \<lparr>ps_company := Some c, ps_parameters := [(''metrics'', metrics_parameter)]\<rparr> # ss'"
      by (auto simp: next_id_def Let_def split: prod.splits)
    show ?case
      using Cons.IH [OF ss'] by (simp add: ss upto_rec1 [of "step_counter p"] fresh_step_def)
  qed simp
  then show "map ps_id ss = [step_counter p..step_counter p' - 1]" "step_counter p' = step_counter p + int (length cs)"
    "length ss = length cs" "map ps_company ss = map Some cs"
    "list_all (\<lambda>s. ps_depends_on s = [] \<and> fresh_step s \<and> ps_type s = RETRIEVE) ss" by simp_all
qed

lemma upto_two: "0 \<le> n \<Longrightarrow> [1..n + 2] = [1..n] @ [n + 1, n + 2]" for n :: int
  using upto_split1 [of 1 "n + 1" "n + 2"] by (simp add: upto_rec1)

lemma compare_plan_wf: "good_plan (fst (build_compare_plan q cs (reset_counter p)) :: 'r execution_plan)"
proof (cases "compare_retrievals q cs (reset_counter p) :: 'r plan_step list \<times> planner")
  case (Pair ss p')
  note spec = compare_retrievals_spec [OF Pair]
  have ids: "map ps_id ss = [1..int (length ss)]" "step_counter p' = int (length ss) + 1"
    using spec(1-3) by (simp_all add: reset_counter_def)
  have deps: "d \<in> set (map ps_id ss) \<Longrightarrow> 1 \<le> d \<and> d < int (length ss) + 1" for d
    unfolding ids(1) by simp
  have "good_plan (fst (build_compare_plan q cs (reset_counter p)) :: 'r execution_plan)"
    using spec(5) deps by (auto simp: build_compare_plan_def Pair Let_def next_id_def wf_steps_def good_plan_def ids
        fresh_step_def list_all_iff upto_two add.commute)
  then show "good_plan (fst (build_compare_plan q cs (reset_counter p)) :: 'r execution_plan)" .
qed

lemma small_plans_wf:
  "good_plan (fst (build_single_plan q cs (reset_counter p)))"
  "good_plan (fst (build_global_plan q (reset_counter p)))"
  "good_plan (fst (build_generic_plan q (reset_counter p)))"
  by (simp_all add: build_single_plan_def build_global_plan_def build_generic_plan_def reset_counter_def next_id_def
      wf_steps_def fresh_step_def good_plan_def upto_rec1 Let_def split: option.splits list.splits)

lemma choose_plan_wf:
  assumes "\<And>iv. metric = Some iv \<Longrightarrow> inv_tool_name iv = ''financial_metrics''"
  shows "good_plan (fst (choose_plan metric ty q cs (reset_counter p)) :: 'r execution_plan)"
proof (cases metric)
  case (Some iv)
  then show ?thesis
    using assms by (simp add: choose_plan_def build_financial_metric_plan_def reset_counter_def next_id_def good_plan_def
        wf_steps_def fresh_step_def Let_def)
qed (simp add: choose_plan_def compare_plan_wf small_plans_wf)

text \<open>
  C9. Every plan is well formed. Whatever the question, the companies and the years that come with it, and
  whatever the planner served before: the steps are numbered 1, 2, \<open>\<dots>\<close>, \<open>n\<close> with \<open>n > 0\<close>, every dependency
  names an earlier step (so the dependency graph has no cycle and no missing node), no step has run, a
  tool is named by tool-call steps only and is always \<open>financial_metrics\<close>, the plan carries the type and
  the complexity of the analysis, and it does not depend on the state in which an earlier
  request left the planner.
\<close>

theorem plan_wellformed:
  "case make_plan lg ctx p of ((pl, tr, cr), p1) \<Rightarrow>
     map ps_id (pl_tasks pl) = [1..int (length (pl_tasks pl))] \<and> pl_tasks pl \<noteq> [] \<and>
     list_all (\<lambda>s. list_all (\<lambda>d. 1 \<le> d \<and> d < ps_id s) (ps_depends_on s)) (pl_tasks pl) \<and>
     list_all (\<lambda>s. ps_status s = SS_PENDING \<and> Option.is_none (ps_result s) \<and>
       ps_tool_name s = (if ps_type s = TOOL_CALL then Some ''financial_metrics'' else None)) (pl_tasks pl) \<and>
     pl_task_type pl = Some (tm_type (tk_task tr)) \<and> pl_complexity pl = Some (cm_level (cr_complexity cr)) \<and>
     make_plan lg ctx p2 = ((pl, tr, cr), p1)"
proof -
  let ?m = "parse_financial_metric_query lg (pc_question ctx)"
  let ?c = "choose_plan ?m (tm_type (tk_task (task_analyze lg ctx))) (pc_question ctx)
     (filter (\<lambda>e. \<not> isdigit lg e) (tk_entities (task_analyze lg ctx))) (reset_counter p) :: 'a execution_plan \<times> planner"
  have "good_plan (fst ?c)"
    by (rule choose_plan_wf) (rule parse_tool_name)
  moreover have "reset_counter p2 = reset_counter p" by (simp add: reset_counter_def)
  ultimately show ?thesis
    by (auto simp: make_plan_def Let_def annotate_def good_plan_def wf_steps_def fresh_step_def list_all_iff
        split: prod.splits if_splits)
qed

end
