(* ===== verification/Plan_Execution.thy ===== *)
theory Plan_Execution
  imports Query_Planner "HOL-Library.Multiset"
begin

text \<open>
  \<^verbatim>\<open>agent/execution_engine.py\<close> (the step engine) and \<^verbatim>\<open>agent/execution/plan_execution.py\<close>
  (the coordinator that runs a plan step by step or with concurrent retrievals).

  A handler is a function of the step, of the shared context and of a world \<open>'w\<close>. The
  shared context is a record: the request-scoped values \<open>'b\<close>, the evidence list, the snapshot
  of results and the tool trace. Steps are objects with identity: they are addressed by
  position in the plan, and a run updates them in place. Of a concurrent batch the order in which the
  pool runs the handlers is an argument \<open>sched\<close>, any permutation of the batch.
\<close>

record 'o step_result =
  sr_step_id :: int
  sr_success :: bool
  sr_output :: "'o option"
  sr_error :: "string option"

type_synonym 'o step = "'o step_result plan_step"

record ('b, 'o, 'e) shared =
  sh_base :: 'b
  sh_evidence :: "'e list"
  sh_results :: "(int \<times> 'o) list"
  sh_trace :: "obj list"

type_synonym ('b, 'o, 'e, 'w) handler =
  "'o step \<Rightarrow> ('b, 'o, 'e) shared \<Rightarrow> 'w \<Rightarrow> (exn + 'o) \<times> ('b, 'o, 'e) shared \<times> 'w"

type_synonym ('b, 'o, 'e, 'w) handlers = "(StepType \<times> ('b, 'o, 'e, 'w) handler) list"

subsection \<open>The step engine\<close>

definition register_handler ::
    "StepType \<Rightarrow> ('b, 'o, 'e, 'w) handler \<Rightarrow> ('b, 'o, 'e, 'w) handlers \<Rightarrow> ('b, 'o, 'e, 'w) handlers" where
  "register_handler ty h hs = AList.update ty h hs"

definition dependencies_met :: "'o step \<Rightarrow> (int \<times> 'o) list \<Rightarrow> bool" where
  "dependencies_met step completed \<longleftrightarrow> list_all (\<lambda>d. d \<in> set (map fst completed)) (ps_depends_on step)"

definition failed_result :: "int \<Rightarrow> string \<Rightarrow> 'o step_result" where
  "failed_result i err = \<lparr>sr_step_id = i, sr_success = False, sr_output = None, sr_error = Some err\<rparr>"

definition ok_result :: "int \<Rightarrow> 'o \<Rightarrow> 'o step_result" where
  "ok_result i out = \<lparr>sr_step_id = i, sr_success = True, sr_output = Some out, sr_error = None\<rparr>"

definition finish_step :: "'o step \<Rightarrow> StepStatus \<Rightarrow> 'o step_result \<Rightarrow> 'o step" where
  "finish_step step st r = step\<lparr>ps_status := st, ps_result := Some r\<rparr>"

definition execute_step :: "('b, 'o, 'e, 'w) handlers \<Rightarrow> 'o step \<Rightarrow> ('b, 'o, 'e) shared \<Rightarrow> (int \<times> 'o) list \<Rightarrow> 'w
    \<Rightarrow> 'o step \<times> ('b, 'o, 'e) shared \<times> (int \<times> 'o) list \<times> 'w" where
  "execute_step hs step sh completed w =
     (let sh1 = sh\<lparr>sh_results := completed\<rparr>; i = ps_id step in
      if \<not> dependencies_met step completed
      then (finish_step step SS_SKIPPED (failed_result i ''Dependencies not met''), sh1, completed, w)
      else case map_of hs (ps_type step) of
        None \<Rightarrow> (finish_step step SS_FAILED (failed_result i (''No handler registered for '' @ StepType_value (ps_type step))),
                sh1, completed, w)
      | Some h \<Rightarrow> (case h (step\<lparr>ps_status := SS_RUNNING\<rparr>) sh1 w of
          (Inr out, sh2, w1) \<Rightarrow>
            (let completed1 = AList.update i out completed in
             (finish_step step SS_COMPLETED (ok_result i out), sh2\<lparr>sh_results := completed1\<rparr>, completed1, w1))
        | (Inl e, sh2, w1) \<Rightarrow> (finish_step step SS_FAILED (failed_result i (exn_msg e)), sh2, completed, w1)))"

text \<open>\<open>ExecutionEngine.execute\<close>: the whole plan on one shared context.\<close>

fun execute_plan :: "('b, 'o, 'e, 'w) handlers \<Rightarrow> 'o step list \<Rightarrow> ('b, 'o, 'e) shared \<Rightarrow> (int \<times> 'o) list \<Rightarrow> 'w
    \<Rightarrow> 'o step list \<times> ('b, 'o, 'e) shared \<times> 'w" where
  "execute_plan hs [] sh completed w = ([], sh, w)"
| "execute_plan hs (s # ss) sh completed w =
     (let (s1, sh1, completed1, w1) = execute_step hs s sh completed w;
          (ss1, sh2, w2) = execute_plan hs ss sh1 completed1 w1
      in (s1 # ss1, sh2, w2))"

subsection \<open>The coordinator\<close>

definition MAX_RETRIEVAL_WORKERS :: int where "MAX_RETRIEVAL_WORKERS = 4"

record ('o, 'e, 'w) run =
  rn_steps :: "'o step list"
  rn_completed :: "(int \<times> 'o) list"
  rn_evidence :: "'e list"
  rn_world :: 'w

definition execute_isolated_step :: "('b, 'o, 'e, 'w) handlers \<Rightarrow> 'b \<Rightarrow> 'o step \<Rightarrow> (int \<times> 'o) list \<Rightarrow> 'w \<Rightarrow> ('o step \<times> 'e list) \<times> 'w" where
  "execute_isolated_step hs b step completed w =
     (let (st, sh, _, w1) = execute_step hs step \<lparr>sh_base = b, sh_evidence = [], sh_results = [], sh_trace = []\<rparr> completed w
      in ((st, sh_evidence sh), w1))"

text \<open>What the caller does with an outcome: a success is recorded under the id of the step, and its evidence appended.\<close>

definition merge_outcome :: "int \<Rightarrow> 'o step \<times> 'e list \<Rightarrow> ('o, 'e, 'w) run \<Rightarrow> ('o, 'e, 'w) run" where
  "merge_outcome i outcome s = (case ps_result (fst outcome) of
      Some r \<Rightarrow> (case (sr_success r, sr_output r) of
          (True, Some out) \<Rightarrow> s\<lparr>rn_completed := AList.update i out (rn_completed s), rn_evidence := rn_evidence s @ snd outcome\<rparr>
        | _ \<Rightarrow> s)
    | None \<Rightarrow> s)"

definition run_one :: "('b, 'o, 'e, 'w) handlers \<Rightarrow> 'b \<Rightarrow> nat \<Rightarrow> ('o, 'e, 'w) run \<Rightarrow> ('o, 'e, 'w) run" where
  "run_one hs b k s =
     (let (outcome, w) = execute_isolated_step hs b (rn_steps s ! k) (rn_completed s) (rn_world s)
      in merge_outcome (ps_id (rn_steps s ! k)) outcome (s\<lparr>rn_steps := (rn_steps s)[k := fst outcome], rn_world := w\<rparr>))"

definition start_run :: "'o step list \<Rightarrow> 'w \<Rightarrow> ('o, 'e, 'w) run" where
  "start_run tasks w = \<lparr>rn_steps = tasks, rn_completed = [], rn_evidence = [], rn_world = w\<rparr>"

definition execute_sequential :: "('b, 'o, 'e, 'w) handlers \<Rightarrow> 'b \<Rightarrow> 'o step list \<Rightarrow> 'w \<Rightarrow> ('o, 'e, 'w) run" where
  "execute_sequential hs b tasks w = fold (run_one hs b) [0..<length tasks] (start_run tasks w)"

text \<open>
  \<open>_execute_retrieval_batch\<close>: every worker sees the same snapshot; the pool runs the steps in
  the order \<open>order\<close>; the outcomes are a dictionary by step id, filled in the order of submission.
\<close>

fun run_pool :: "('b, 'o, 'e, 'w) handlers \<Rightarrow> 'b \<Rightarrow> (int \<times> 'o) list \<Rightarrow> nat list \<Rightarrow> 'o step list \<Rightarrow> 'w
    \<Rightarrow> (nat \<times> 'o step \<times> 'e list) list \<times> 'o step list \<times> 'w" where
  "run_pool hs b snapshot [] steps w = ([], steps, w)"
| "run_pool hs b snapshot (k # ks) steps w =
     (let (outcome, w1) = execute_isolated_step hs b (steps ! k) snapshot w;
          (outcomes, steps2, w2) = run_pool hs b snapshot ks (steps[k := fst outcome]) w1
      in ((k, outcome) # outcomes, steps2, w2))"

definition outcome_dict :: "'o step list \<Rightarrow> nat list \<Rightarrow> (nat \<times> 'o step \<times> 'e list) list \<Rightarrow> (int \<times> 'o step \<times> 'e list) list" where
  "outcome_dict steps ks outcomes = fold (\<lambda>k d. case map_of outcomes k of
      Some out \<Rightarrow> AList.update (ps_id (steps ! k)) out d
    | None \<Rightarrow> d) ks []"

definition merge_by_id :: "(int \<times> 'o step \<times> 'e list) list \<Rightarrow> nat \<Rightarrow> ('o, 'e, 'w) run \<Rightarrow> ('o, 'e, 'w) run" where
  "merge_by_id d k s = (case map_of d (ps_id (rn_steps s ! k)) of
      Some out \<Rightarrow> merge_outcome (ps_id (rn_steps s ! k)) out s
    | None \<Rightarrow> s)"

definition run_batch :: "('b, 'o, 'e, 'w) handlers \<Rightarrow> 'b \<Rightarrow> (nat list \<Rightarrow> nat list) \<Rightarrow> nat list \<Rightarrow> ('o, 'e, 'w) run \<Rightarrow> ('o, 'e, 'w) run" where
  "run_batch hs b sched ks s =
     (let (outcomes, steps, w) = run_pool hs b (rn_completed s) (sched ks) (rn_steps s) (rn_world s)
      in fold (merge_by_id (outcome_dict steps ks outcomes)) ks (s\<lparr>rn_steps := steps, rn_world := w\<rparr>))"

text \<open>Steps that can no longer become ready go through the engine on the caller's own context.\<close>

definition run_blocked :: "('b, 'o, 'e, 'w) handlers \<Rightarrow> 'b \<Rightarrow> nat \<Rightarrow> ('o, 'e, 'w) run \<Rightarrow> ('o, 'e, 'w) run" where
  "run_blocked hs b k s =
     (let (st, sh, completed, w) = execute_step hs (rn_steps s ! k)
        \<lparr>sh_base = b, sh_evidence = rn_evidence s, sh_results = rn_completed s, sh_trace = []\<rparr> (rn_completed s) (rn_world s)
      in \<lparr>rn_steps = (rn_steps s)[k := st], rn_completed = completed, rn_evidence = sh_evidence sh, rn_world = w\<rparr>)"

definition ready_steps :: "('o, 'e, 'w) run \<Rightarrow> nat list \<Rightarrow> nat list" where
  "ready_steps s pending = filter (\<lambda>k. dependencies_met (rn_steps s ! k) (rn_completed s)) pending"

definition is_retrieval :: "('o, 'e, 'w) run \<Rightarrow> nat \<Rightarrow> bool" where
  "is_retrieval s k \<longleftrightarrow> ps_type (rn_steps s ! k) = RETRIEVE"

definition run_round :: "('b, 'o, 'e, 'w) handlers \<Rightarrow> 'b \<Rightarrow> int \<Rightarrow> (nat list \<Rightarrow> nat list) \<Rightarrow> nat list \<Rightarrow> ('o, 'e, 'w) run \<Rightarrow> ('o, 'e, 'w) run" where
  "run_round hs b max_workers sched ready s =
     (let retrievals = filter (is_retrieval s) ready;
          other_steps = filter (\<lambda>k. \<not> is_retrieval s k) ready;
          s1 = (if length retrievals > 1 \<and> max_workers > 1 then run_batch hs b sched retrievals s
                else fold (run_one hs b) retrievals s)
      in fold (run_one hs b) other_steps s1)"

function parallel_loop :: "('b, 'o, 'e, 'w) handlers \<Rightarrow> 'b \<Rightarrow> int \<Rightarrow> (nat list \<Rightarrow> nat list) \<Rightarrow> nat list \<Rightarrow> ('o, 'e, 'w) run \<Rightarrow> ('o, 'e, 'w) run" where
  "parallel_loop hs b max_workers sched pending s =
     (if pending = [] then s
      else if ready_steps s pending = [] then fold (run_blocked hs b) pending s
      else parallel_loop hs b max_workers sched (filter (\<lambda>k. k \<notin> set (ready_steps s pending)) pending)
             (run_round hs b max_workers sched (ready_steps s pending) s))"
  by pat_completeness auto
termination
proof (relation "measure (\<lambda>(hs, b, m, sched, pending, s). length pending)")
  fix hs :: "('b, 'o, 'e, 'w) handlers" and b m sched pending and s :: "('o, 'e, 'w) run"
  assume "ready_steps s pending \<noteq> []"
  then obtain k where "k \<in> set (ready_steps s pending)" by (cases "ready_steps s pending") auto
  then have "length (filter (\<lambda>k. k \<notin> set (ready_steps s pending)) pending) < length pending"
    by (intro length_filter_less [of k]) (auto simp: ready_steps_def)
  then show "((hs, b, m, sched, filter (\<lambda>k. k \<notin> set (ready_steps s pending)) pending,
      run_round hs b m sched (ready_steps s pending) s), hs, b, m, sched, pending, s)
      \<in> measure (\<lambda>(hs, b, m, sched, pending, s). length pending)" by simp
qed simp

declare parallel_loop.simps [simp del]

definition execute_parallel_retrievals ::
    "('b, 'o, 'e, 'w) handlers \<Rightarrow> 'b \<Rightarrow> int \<Rightarrow> (nat list \<Rightarrow> nat list) \<Rightarrow> 'o step list \<Rightarrow> 'w \<Rightarrow> ('o, 'e, 'w) run" where
  "execute_parallel_retrievals hs b parallelism sched tasks w =
     parallel_loop hs b (max 1 (min parallelism MAX_RETRIEVAL_WORKERS)) sched [0..<length tasks] (start_run tasks w)"

text \<open>\<open>[step.result for step in steps if step.result is not None]\<close>\<close>

definition collected_results :: "'o step list \<Rightarrow> 'o step_result list" where
  "collected_results steps = map (\<lambda>s. the (ps_result s)) (filter (\<lambda>s. \<not> Option.is_none (ps_result s)) steps)"

subsection \<open>Every step is settled, once\<close>

definition settled :: "'o step \<Rightarrow> bool" where
  "settled st \<longleftrightarrow> (case ps_result st of
      None \<Rightarrow> False
    | Some r \<Rightarrow> sr_step_id r = ps_id st \<and>
        (if sr_success r then ps_status st = SS_COMPLETED else ps_status st \<in> {SS_FAILED, SS_SKIPPED}))"

definition shape :: "'o step \<Rightarrow> int \<times> StepType \<times> int list" where
  "shape st = (ps_id st, ps_type st, ps_depends_on st)"

text \<open>A measure of the world that one call of a handler raises by at most one, such as a log of the calls.\<close>

definition one_call :: "('b, 'o, 'e, 'w) handlers \<Rightarrow> ('w \<Rightarrow> nat) \<Rightarrow> bool" where
  "one_call hs c \<longleftrightarrow> (\<forall>h \<in> snd ` set hs. \<forall>st sh w. c (snd (snd (h st sh w))) \<le> c w + 1)"

definition settles :: "('w \<Rightarrow> nat) \<Rightarrow> nat list \<Rightarrow> ('o, 'e, 'w) run \<Rightarrow> ('o, 'e, 'w) run \<Rightarrow> bool" where
  "settles c ks s s' \<longleftrightarrow>
     map shape (rn_steps s') = map shape (rn_steps s) \<and> c (rn_world s') \<le> c (rn_world s) + length ks \<and>
     (\<forall>k < length (rn_steps s). if k \<in> set ks then settled (rn_steps s' ! k) else rn_steps s' ! k = rn_steps s ! k)"

lemma settles_length: "settles c ks s s' \<Longrightarrow> length (rn_steps s') = length (rn_steps s)"
  unfolding settles_def by (metis length_map)

lemma settles_refl: "settles c [] s s"
  by (simp add: settles_def)

lemma settles_trans: "settles c ks s s1 \<Longrightarrow> settles c ls s1 s2 \<Longrightarrow> settles c (ks @ ls) s s2"
  using settles_length [of c ks s s1] unfolding settles_def
  by (auto split: if_splits)

lemma settles_mset: "mset ks = mset ls \<Longrightarrow> settles c ks s s' \<Longrightarrow> settles c ls s s'"
  using mset_eq_setD [of ks ls] mset_eq_length [of ks ls] by (simp add: settles_def)

lemma settles_steps:
  "settles c ks s s' \<Longrightarrow> rn_steps s'' = rn_steps s' \<Longrightarrow> rn_world s'' = rn_world s' \<Longrightarrow> settles c ks s s''"
  by (simp add: settles_def)

lemma fold_settles:
  assumes "\<And>k s. k \<in> set ks \<Longrightarrow> settles c [k] s (f k s)"
  shows "settles c ks s (fold f ks s)"
  using assms
proof (induction ks arbitrary: s)
  case (Cons k ks)
  have "settles c ks (f k s) (fold f ks (f k s))" using Cons by simp
  then show ?case using settles_trans [OF Cons.prems [of k s]] by simp
qed (simp add: settles_refl)

lemma execute_step_settled:
  assumes "execute_step hs st sh completed w = (st', sh', completed', w')"
  shows "settled st'" "shape st' = shape st" "one_call hs c \<Longrightarrow> c w' \<le> c w + 1"
proof -
  have "settled st' \<and> shape st' = shape st \<and> (one_call hs c \<longrightarrow> c w' \<le> c w + 1)"
  proof (cases "\<not> dependencies_met st completed \<or> map_of hs (ps_type st) = None")
    case True
    then show ?thesis
      using assms by (auto simp: execute_step_def Let_def finish_step_def failed_result_def settled_def shape_def split: if_splits)
  next
    case False
    then obtain h where h: "map_of hs (ps_type st) = Some h" by auto
    obtain r sh2 w2 where r: "h (st\<lparr>ps_status := SS_RUNNING\<rparr>) (sh\<lparr>sh_results := completed\<rparr>) w = (r, sh2, w2)"
      using prod_cases3 by blast
    have "h \<in> snd ` set hs" using map_of_SomeD [OF h] by force
    then have "one_call hs c \<longrightarrow> c w2 \<le> c w + 1" using r unfolding one_call_def by (metis snd_conv)
    moreover have "settled st'" "shape st' = shape st" "w' = w2"
      using assms False h r by (auto simp: execute_step_def Let_def finish_step_def failed_result_def ok_result_def settled_def
          shape_def split: sum.splits)
    ultimately show ?thesis by simp
  qed
  then show "settled st'" "shape st' = shape st" "one_call hs c \<Longrightarrow> c w' \<le> c w + 1" by simp_all
qed

lemma isolated_settled:
  assumes "execute_isolated_step hs b st completed w = ((st', ev), w')"
  shows "settled st'" "shape st' = shape st" "one_call hs c \<Longrightarrow> c w' \<le> c w + 1"
  using assms execute_step_settled [of hs st _ completed w]
  by (auto simp: execute_isolated_step_def Let_def split: prod.splits)

lemma update_settles:
  assumes "settled st" "shape st = shape (rn_steps s ! k)" "c w \<le> c (rn_world s) + 1"
    and "rn_steps s' = (rn_steps s)[k := st]" "rn_world s' = w"
  shows "settles c [k] s s'"
proof -
  have "map shape ((rn_steps s)[k := st]) = map shape (rn_steps s)"
    by (metis assms(2) list_update_beyond list_update_id map_update not_le nth_map)
  then show ?thesis using assms by (auto simp: settles_def nth_list_update)
qed

lemma merge_outcome_frame [simp]:
  "rn_steps (merge_outcome i out s) = rn_steps s" "rn_world (merge_outcome i out s) = rn_world s"
  by (auto simp: merge_outcome_def split: option.splits bool.splits)

lemma run_one_settles:
  assumes "one_call hs c"
  shows "settles c [k] s (run_one hs b k s)"
proof -
  obtain st ev w where r: "execute_isolated_step hs b (rn_steps s ! k) (rn_completed s) (rn_world s) = ((st, ev), w)"
    by (metis prod.collapse)
  show ?thesis
    by (rule update_settles [OF isolated_settled(1,2) [OF r] isolated_settled(3) [OF r assms]]) (simp_all add: run_one_def r)
qed

lemma run_blocked_settles:
  assumes "one_call hs c"
  shows "settles c [k] s (run_blocked hs b k s)"
proof -
  obtain st sh completed w where r: "execute_step hs (rn_steps s ! k)
      \<lparr>sh_base = b, sh_evidence = rn_evidence s, sh_results = rn_completed s, sh_trace = []\<rparr> (rn_completed s) (rn_world s) =
      (st, sh, completed, w)" by (metis prod.collapse)
  show ?thesis
    by (rule update_settles [OF execute_step_settled(1,2) [OF r] execute_step_settled(3) [OF r assms]])
      (simp_all add: run_blocked_def r)
qed

lemma run_pool_settles:
  assumes "one_call hs c"
  shows "run_pool hs b snap ks (rn_steps s) (rn_world s) = (outs, steps, w) \<Longrightarrow>
    settles c ks s (s\<lparr>rn_steps := steps, rn_world := w\<rparr>)"
proof (induction ks arbitrary: s outs)
  case (Cons k ks)
  obtain st ev w1 where r: "execute_isolated_step hs b (rn_steps s ! k) snap (rn_world s) = ((st, ev), w1)"
    by (metis prod.collapse)
  let ?s1 = "s\<lparr>rn_steps := (rn_steps s)[k := st], rn_world := w1\<rparr>"
  obtain outs' where "run_pool hs b snap ks (rn_steps ?s1) (rn_world ?s1) = (outs', steps, w)"
    using Cons.prems r by (auto split: prod.splits)
  from Cons.IH [OF this] have "settles c ks ?s1 (?s1\<lparr>rn_steps := steps, rn_world := w\<rparr>)" .
  moreover have "settles c [k] s ?s1"
    by (rule update_settles [OF isolated_settled(1,2) [OF r] isolated_settled(3) [OF r assms]]) simp_all
  ultimately show ?case using settles_trans by fastforce
qed (simp add: settles_def)

lemma merge_by_id_frame:
  "rn_steps (fold (merge_by_id d) ks s) = rn_steps s \<and> rn_world (fold (merge_by_id d) ks s) = rn_world s"
  by (induction ks arbitrary: s) (simp_all add: merge_by_id_def split: option.splits)

lemma run_batch_settles:
  assumes "one_call hs c" "mset (sched ks) = mset ks"
  shows "settles c ks s (run_batch hs b sched ks s)"
proof -
  obtain outs steps w where r: "run_pool hs b (rn_completed s) (sched ks) (rn_steps s) (rn_world s) = (outs, steps, w)"
    by (metis prod.collapse)
  have "settles c (sched ks) s (run_batch hs b sched ks s)"
    by (rule settles_steps [OF run_pool_settles [OF assms(1) r]]) (simp_all add: run_batch_def r merge_by_id_frame)
  then show ?thesis by (rule settles_mset [OF assms(2)])
qed

lemma run_round_settles:
  assumes "one_call hs c" "\<And>ks. mset (sched ks) = mset ks"
  shows "settles c ready s (run_round hs b m sched ready s)"
proof -
  let ?r = "filter (is_retrieval s) ready" and ?o = "filter (\<lambda>k. \<not> is_retrieval s k) ready"
  let ?s1 = "if length ?r > 1 \<and> m > 1 then run_batch hs b sched ?r s else fold (run_one hs b) ?r s"
  have "settles c ?r s ?s1"
    using assms by (simp add: run_batch_settles fold_settles run_one_settles)
  moreover have "settles c ?o ?s1 (fold (run_one hs b) ?o ?s1)"
    using assms(1) by (intro fold_settles run_one_settles)
  moreover have "mset (?r @ ?o) = mset ready" by (simp flip: multiset_partition)
  ultimately show ?thesis
    using settles_mset settles_trans unfolding run_round_def Let_def by blast
qed

lemma ready_partition:
  "mset (ready_steps s pending) + mset (filter (\<lambda>k. k \<notin> set (ready_steps s pending)) pending) = mset pending"
proof -
  have "filter (\<lambda>k. k \<notin> set (ready_steps s pending)) pending =
      filter (\<lambda>k. \<not> dependencies_met (rn_steps s ! k) (rn_completed s)) pending"
    by (rule filter_cong) (auto simp: ready_steps_def)
  then show ?thesis unfolding ready_steps_def by (simp flip: multiset_partition)
qed

lemma parallel_loop_settles:
  assumes "one_call hs c" "\<And>ks. mset (sched ks) = mset ks"
  shows "settles c pending s (parallel_loop hs b m sched pending s)"
proof (induction pending arbitrary: s rule: length_induct)
  case (1 pending)
  let ?ready = "ready_steps s pending" and ?rest = "filter (\<lambda>k. k \<notin> set (ready_steps s pending)) pending"
  show ?case
  proof (cases "pending = [] \<or> ?ready = []")
    case True
    then show ?thesis
      using fold_settles [OF run_blocked_settles [OF assms(1)]] by (auto simp: parallel_loop.simps [of hs b m sched pending] settles_refl)
  next
    case False
    then obtain k where "k \<in> set ?ready" by (cases ?ready) auto
    then have "length ?rest < length pending"
      by (intro length_filter_less [of k]) (auto simp: ready_steps_def)
    then have "settles c ?rest (run_round hs b m sched ?ready s)
        (parallel_loop hs b m sched ?rest (run_round hs b m sched ?ready s))"
      using 1 by blast
    moreover have "settles c ?ready s (run_round hs b m sched ?ready s)"
      by (rule run_round_settles [OF assms])
    moreover have "mset (?ready @ ?rest) = mset pending" using ready_partition [of s pending] by simp
    ultimately have "settles c pending s (parallel_loop hs b m sched ?rest (run_round hs b m sched ?ready s))"
      using settles_mset settles_trans by blast
    then show ?thesis using False by (simp add: parallel_loop.simps [of hs b m sched pending])
  qed
qed

definition complete_run :: "('w \<Rightarrow> nat) \<Rightarrow> 'o step list \<Rightarrow> 'w \<Rightarrow> ('o, 'e, 'w) run \<Rightarrow> bool" where
  "complete_run c tasks w s \<longleftrightarrow> list_all settled (rn_steps s) \<and>
     map sr_step_id (collected_results (rn_steps s)) = map ps_id tasks \<and> c (rn_world s) \<le> c w + length tasks"

lemma settles_all:
  assumes "settles c ks (start_run tasks w) s" "set ks = {..<length tasks}" "length ks = length tasks"
  shows "complete_run c tasks w s"
proof -
  have len: "length (rn_steps s) = length tasks" using settles_length [OF assms(1)] by (simp add: start_run_def)
  have all: "list_all settled (rn_steps s)"
    using assms(1,2) len by (auto simp: settles_def start_run_def list_all_length)
  have "map fst (map shape (rn_steps s)) = map fst (map shape tasks)" using assms(1) by (simp add: settles_def start_run_def)
  then have ids: "map ps_id (rn_steps s) = map ps_id tasks" by (simp add: shape_def comp_def)
  have "map sr_step_id (collected_results steps) = map ps_id steps" if "list_all settled steps" for steps :: "'b step list"
    using that by (induction steps) (auto simp: collected_results_def settled_def split: option.splits)
  from this [OF all] ids have "map sr_step_id (collected_results (rn_steps s)) = map ps_id tasks" by simp
  with all assms(1,3) show ?thesis by (simp add: complete_run_def settles_def start_run_def)
qed

text \<open>
  C20. Running a plan ends, and settles every step. For every plan (also one with cyclic, missing or forward
  dependencies or repeated ids), every set of handlers and every order in which the pool runs a
  batch: both the sequential run and the run with concurrent retrievals return, every step is then completed, failed
  or skipped, the results are one per step in plan order under the ids of the steps, and no handler
  is called more than once per step: a measure that a call raises by at most one grows by at most the
  number of steps.
\<close>

theorem every_step_settled:
  assumes "\<And>ks. mset (sched ks) = mset ks" "one_call hs c"
  shows "complete_run c tasks w (execute_parallel_retrievals hs b parallelism sched tasks w) \<and>
    complete_run c tasks w (execute_sequential hs b tasks w)"
  unfolding execute_parallel_retrievals_def execute_sequential_def
  by (intro conjI; rule settles_all [of c "[0..<length tasks]"];
      force simp: assms intro: parallel_loop_settles fold_settles run_one_settles)

definition counting_handlers :: "(unit, unit, unit, nat) handlers" where
  "counting_handlers = [(RETRIEVE, \<lambda>st sh w. (Inr (), sh, w + 1))]"

definition bare_step :: "int \<Rightarrow> StepType \<Rightarrow> int list \<Rightarrow> 'r plan_step" where
  "bare_step i ty ds = (PlanStep i ty [] [])\<lparr>ps_depends_on := ds\<rparr>"

definition cyclic_plan :: "unit step list" where
  "cyclic_plan = [bare_step 1 RETRIEVE [], bare_step 2 RETRIEVE [3], bare_step 3 RETRIEVE [2], bare_step 4 RETRIEVE []]"

theorem every_step_settled_witness:
  "complete_run (\<lambda>w. w) cyclic_plan 0 (execute_parallel_retrievals counting_handlers () 4 rev cyclic_plan 0) \<and>
   map ps_status (rn_steps (execute_parallel_retrievals counting_handlers () 4 rev cyclic_plan 0)) =
     [SS_COMPLETED, SS_SKIPPED, SS_SKIPPED, SS_COMPLETED] \<and>
   rn_world (execute_parallel_retrievals counting_handlers () 4 rev cyclic_plan 0) = 2"
proof -
  have "one_call counting_handlers (\<lambda>w. w)" by (simp add: one_call_def counting_handlers_def)
  then have "complete_run (\<lambda>w. w) cyclic_plan 0 (execute_parallel_retrievals counting_handlers () 4 rev cyclic_plan 0)"
    using every_step_settled [of rev counting_handlers "\<lambda>w. w" cyclic_plan 0 "()" 4] by simp
  moreover have "map ps_status (rn_steps (execute_parallel_retrievals counting_handlers () 4 rev cyclic_plan 0)) =
     [SS_COMPLETED, SS_SKIPPED, SS_SKIPPED, SS_COMPLETED]" by code_simp
  moreover have "rn_world (execute_parallel_retrievals counting_handlers () 4 rev cyclic_plan 0) = 2" by code_simp
  ultimately show ?thesis by simp
qed

subsection \<open>Concurrency does not change the answer\<close>

text \<open>
  The contract of handlers whose answer is a function of the step and of the request:
  they read neither the results of other steps nor the world, and add to the evidence only at its end.
  \<open>answer\<close> gives outcome and evidence per type of step.
\<close>

type_synonym ('b, 'o, 'e) answers = "StepType \<Rightarrow> ('o step \<Rightarrow> 'b \<Rightarrow> (exn + 'o) \<times> 'e list) option"

definition answered :: "('b, 'o, 'e) answers \<Rightarrow> 'b \<Rightarrow> bool \<Rightarrow> 'o step \<Rightarrow> 'o step \<times> 'e list" where
  "answered answer b met st =
     (if \<not> met then (finish_step st SS_SKIPPED (failed_result (ps_id st) ''Dependencies not met''), [])
      else case answer (ps_type st) of
        None \<Rightarrow> (finish_step st SS_FAILED (failed_result (ps_id st)
            (''No handler registered for '' @ StepType_value (ps_type st))), [])
      | Some f \<Rightarrow> (case f (st\<lparr>ps_status := SS_RUNNING\<rparr>) b of
          (Inr out, ev) \<Rightarrow> (finish_step st SS_COMPLETED (ok_result (ps_id st) out), ev)
        | (Inl e, ev) \<Rightarrow> (finish_step st SS_FAILED (failed_result (ps_id st) (exn_msg e)), ev)))"

definition runs_ok :: "('b, 'o, 'e) answers \<Rightarrow> 'b \<Rightarrow> 'o step \<Rightarrow> bool" where
  "runs_ok answer b st = (case answer (ps_type st) of
      None \<Rightarrow> False
    | Some f \<Rightarrow> is_ok (fst (f (st\<lparr>ps_status := SS_RUNNING\<rparr>) b)))"

lemma answered_step [simp]: "shape (fst (answered answer b met st)) = shape st"
  by (auto simp: answered_def finish_step_def shape_def split: option.splits prod.splits sum.splits)

lemma merge_answered:
  "merge_outcome i (answered answer b met st) s =
     (if met \<and> runs_ok answer b st
      then s\<lparr>rn_completed := AList.update i (the (sr_output (the (ps_result (fst (answered answer b met st)))))) (rn_completed s),
             rn_evidence := rn_evidence s @ snd (answered answer b met st)\<rparr>
      else s)"
  by (auto simp: answered_def runs_ok_def merge_outcome_def finish_step_def ok_result_def failed_result_def
      split: option.splits prod.splits sum.splits)

text \<open>The ids of the steps that succeed, computed along the plan.\<close>

fun good_ids :: "('b, 'o, 'e) answers \<Rightarrow> 'b \<Rightarrow> int set \<Rightarrow> 'o step list \<Rightarrow> int set" where
  "good_ids answer b G [] = G"
| "good_ids answer b G (st # sts) =
     good_ids answer b (if set (ps_depends_on st) \<subseteq> G \<and> runs_ok answer b st then insert (ps_id st) G else G) sts"

lemma good_ids_mono: "G \<subseteq> good_ids answer b G sts"
proof (induction sts arbitrary: G)
  case (Cons st sts)
  show ?case using Cons.IH [of G] Cons.IH [of "insert (ps_id st) G"] by auto
qed simp

lemma good_ids_bound: "good_ids answer b G sts \<subseteq> G \<union> ps_id ` set sts"
proof (induction sts arbitrary: G)
  case (Cons st sts)
  show ?case using Cons.IH [of G] Cons.IH [of "insert (ps_id st) G"] by auto
qed simp

lemma good_ids_fixpoint:
  assumes "distinct (map ps_id sts)" "G \<inter> ps_id ` set sts = {}"
    and "\<And>i. i < length sts \<Longrightarrow> set (ps_depends_on (sts ! i)) \<inter> ps_id ` set (drop i sts) = {}"
    and "k < length sts"
  shows "ps_id (sts ! k) \<in> good_ids answer b G sts \<longleftrightarrow>
    set (ps_depends_on (sts ! k)) \<subseteq> good_ids answer b G sts \<and> runs_ok answer b (sts ! k)"
  using assms
proof (induction sts arbitrary: G k)
  case (Cons st sts)
  let ?ok = "set (ps_depends_on st) \<subseteq> G \<and> runs_ok answer b st"
  let ?G = "if ?ok then insert (ps_id st) G else G"
  have fresh: "ps_id st \<notin> ps_id ` set sts" "ps_id st \<notin> G" using Cons.prems(1,2) by auto
  have disj: "?G \<inter> ps_id ` set sts = {}" using Cons.prems(2) fresh by auto
  have bound: "good_ids answer b ?G sts \<subseteq> ?G \<union> ps_id ` set sts" by (rule good_ids_bound)
  have mono: "?G \<subseteq> good_ids answer b ?G sts" by (rule good_ids_mono)
  show ?case
  proof (cases k)
    case 0
    have "set (ps_depends_on st) \<inter> (insert (ps_id st) (ps_id ` set sts)) = {}" using Cons.prems(3) [of 0] by simp
    moreover have "?G \<subseteq> insert (ps_id st) G" "G \<subseteq> ?G" by auto
    ultimately have "set (ps_depends_on st) \<subseteq> good_ids answer b ?G sts \<longleftrightarrow> set (ps_depends_on st) \<subseteq> G"
      using bound mono by blast
    moreover have "ps_id st \<in> good_ids answer b ?G sts \<longleftrightarrow> ?ok" using bound mono fresh by (auto split: if_splits)
    ultimately show ?thesis using 0 by auto
  next
    case (Suc j)
    have deps: "set (ps_depends_on (sts ! i)) \<inter> ps_id ` set (drop i sts) = {}" if "i < length sts" for i
      using Cons.prems(3) [of "Suc i"] that by simp
    show ?thesis using Cons.IH [OF _ disj deps, of j] Cons.prems(1,4) Suc by simp
  qed
qed simp

locale stateless_handlers =
  fixes hs :: "('b, 'o, 'e, 'w) handlers" and answer :: "('b, 'o, 'e) answers"
  assumes unregistered: "map_of hs ty = None \<longleftrightarrow> answer ty = None"
    and outcome_law: "map_of hs ty = Some h \<Longrightarrow> answer ty = Some f \<Longrightarrow> fst (h st sh w) = fst (f st (sh_base sh))"
    and evidence_law: "map_of hs ty = Some h \<Longrightarrow> answer ty = Some f \<Longrightarrow>
      sh_evidence (fst (snd (h st sh w))) = sh_evidence sh @ snd (f st (sh_base sh))"
begin

lemma execute_answered:
  assumes "execute_step hs st sh completed w = (st', sh', completed', w')"
  shows "(st', sh_evidence sh') = (fst (answered answer (sh_base sh) (dependencies_met st completed) st),
      sh_evidence sh @ snd (answered answer (sh_base sh) (dependencies_met st completed) st))"
proof (cases "\<not> dependencies_met st completed \<or> map_of hs (ps_type st) = None")
  case True
  then show ?thesis
    using assms unregistered [of "ps_type st"]
    by (auto simp: execute_step_def answered_def Let_def split: if_splits option.splits)
next
  case False
  then obtain h f where h: "map_of hs (ps_type st) = Some h" and f: "answer (ps_type st) = Some f"
    using unregistered [of "ps_type st"] by auto
  let ?st = "st\<lparr>ps_status := SS_RUNNING\<rparr>" and ?sh = "sh\<lparr>sh_results := completed\<rparr>"
  have "fst (h ?st ?sh w) = fst (f ?st (sh_base sh))"
    "sh_evidence (fst (snd (h ?st ?sh w))) = sh_evidence sh @ snd (f ?st (sh_base sh))"
    using outcome_law [OF h f, of ?st ?sh w] evidence_law [OF h f, of ?st ?sh w] by simp_all
  then show ?thesis
    using assms False h f
    by (auto simp: execute_step_def answered_def Let_def split: sum.splits prod.splits)
qed

lemma isolated_answered:
  "fst (execute_isolated_step hs b st completed w) = answered answer b (dependencies_met st completed) st"
  using execute_answered [of st "\<lparr>sh_base = b, sh_evidence = [], sh_results = [], sh_trace = []\<rparr>" completed w]
  by (auto simp: execute_isolated_step_def Let_def prod_eq_iff split: prod.splits)

end

text \<open>
  The state of a run after the steps at the positions \<open>L\<close>, in that order: these steps have their
  final form, the others are untouched, and the evidence is that of \<open>L\<close> in order. \<open>G\<close> is the set of the
  ids of all steps that will succeed.
\<close>

definition final_step :: "('b, 'o, 'e) answers \<Rightarrow> 'b \<Rightarrow> int set \<Rightarrow> 'o step \<Rightarrow> 'o step \<times> 'e list" where
  "final_step answer b G st = answered answer b (set (ps_depends_on st) \<subseteq> G) st"

definition final_evidence :: "('b, 'o, 'e) answers \<Rightarrow> 'b \<Rightarrow> int set \<Rightarrow> 'o step \<Rightarrow> 'e list" where
  "final_evidence answer b G st = (if ps_id st \<in> G then snd (final_step answer b G st) else [])"

definition run_inv :: "('b, 'o, 'e) answers \<Rightarrow> 'b \<Rightarrow> int set \<Rightarrow> 'o step list \<Rightarrow> nat list \<Rightarrow> ('o, 'e, 'w) run \<Rightarrow> bool" where
  "run_inv answer b G tasks L s \<longleftrightarrow>
     length (rn_steps s) = length tasks \<and>
     (\<forall>k < length tasks. rn_steps s ! k = (if k \<in> set L then fst (final_step answer b G (tasks ! k)) else tasks ! k)) \<and>
     set (map fst (rn_completed s)) = G \<inter> (\<lambda>k. ps_id (tasks ! k)) ` set L \<and>
     rn_evidence s = concat (map (\<lambda>k. final_evidence answer b G (tasks ! k)) L)"

text \<open>Plans as the planner builds them: distinct ids, dependencies on earlier steps; \<open>G\<close> as above.\<close>

definition consistent :: "('b, 'o, 'e) answers \<Rightarrow> 'b \<Rightarrow> int set \<Rightarrow> 'o step list \<Rightarrow> bool" where
  "consistent answer b G tasks \<longleftrightarrow>
     distinct (map ps_id tasks) \<and>
     (\<forall>k < length tasks. set (ps_depends_on (tasks ! k)) \<subseteq> (\<lambda>j. ps_id (tasks ! j)) ` {..<k}) \<and>
     (\<forall>k < length tasks. ps_id (tasks ! k) \<in> G \<longleftrightarrow> set (ps_depends_on (tasks ! k)) \<subseteq> G \<and> runs_ok answer b (tasks ! k))"

lemma update_key_image: "fst ` set (AList.update k v al) = insert k (fst ` set al)"
  using alist_update_keys_subset [of k v al] by simp

lemma run_inv_start: "run_inv answer b G tasks [] (start_run tasks w)"
  by (simp add: run_inv_def start_run_def)

lemma run_inv_step:
  assumes "run_inv answer b G tasks L s" "consistent answer b G tasks" "k < length tasks" "k \<notin> set L"
  shows "run_inv answer b G tasks (L @ [k])
    (merge_outcome (ps_id (tasks ! k)) (final_step answer b G (tasks ! k))
       (s\<lparr>rn_steps := (rn_steps s)[k := fst (final_step answer b G (tasks ! k))], rn_world := w\<rparr>))"
  using assms
  by (auto simp: run_inv_def consistent_def final_step_def final_evidence_def merge_answered nth_list_update
      update_key_image)

text \<open>Whether the engine finds the dependencies met is whether they will succeed, for a step whose predecessors are done or that is ready.\<close>

lemma run_inv_completed:
  "run_inv answer b G tasks L s \<Longrightarrow> dependencies_met st (rn_completed s) \<longleftrightarrow>
     set (ps_depends_on st) \<subseteq> G \<inter> (\<lambda>k. ps_id (tasks ! k)) ` set L"
  by (auto simp: run_inv_def dependencies_met_def list_all_iff)

lemma run_inv_untouched: "run_inv answer b G tasks L s \<Longrightarrow> k < length tasks \<Longrightarrow> k \<notin> set L \<Longrightarrow> rn_steps s ! k = tasks ! k"
  by (simp add: run_inv_def)

lemma predecessors_met:
  assumes "run_inv answer b G tasks L s" "consistent answer b G tasks" "k < length tasks" "{..<k} \<subseteq> set L"
  shows "dependencies_met (tasks ! k) (rn_completed s) \<longleftrightarrow> set (ps_depends_on (tasks ! k)) \<subseteq> G"
proof -
  have "set (ps_depends_on (tasks ! k)) \<subseteq> (\<lambda>j. ps_id (tasks ! j)) ` set L"
    using assms(2-4) unfolding consistent_def by blast
  then show ?thesis using run_inv_completed [OF assms(1)] by blast
qed

text \<open>When no pending step is ready, none of them will ever have its dependencies met.\<close>

lemma blocked_forever:
  assumes inv: "run_inv answer b G tasks L s" and con: "consistent answer b G tasks"
    and "ready_steps s (filter (\<lambda>k. k \<notin> set L) [0..<length tasks]) = []" "k < length tasks" "k \<notin> set L"
  shows "\<not> set (ps_depends_on (tasks ! k)) \<subseteq> G"
  using assms(4,5)
proof (induction k rule: less_induct)
  case (less k)
  have "\<not> dependencies_met (tasks ! k) (rn_completed s)"
    using assms(3) less.prems run_inv_untouched [OF inv] by (auto simp: ready_steps_def filter_empty_conv)
  then obtain d where d: "d \<in> set (ps_depends_on (tasks ! k))" "d \<notin> G \<or> d \<notin> (\<lambda>j. ps_id (tasks ! j)) ` set L"
    using run_inv_completed [OF inv] by blast
  then obtain j where j: "j < k" "d = ps_id (tasks ! j)" using con less.prems(1) unfolding consistent_def by blast
  have "d \<notin> G"
  proof (cases "j \<in> set L")
    case False
    then have "\<not> set (ps_depends_on (tasks ! j)) \<subseteq> G" using less.IH [OF j(1)] j(1) less.prems(1) by simp
    then show ?thesis using con j less.prems(1) unfolding consistent_def by auto
  qed (use d(2) j(2) in auto)
  then show ?case using d(1) by blast
qed

context stateless_handlers
begin

lemma run_one_inv:
  assumes "run_inv answer b G tasks L s" "consistent answer b G tasks" "k < length tasks" "k \<notin> set L"
    and "dependencies_met (tasks ! k) (rn_completed s) \<longleftrightarrow> set (ps_depends_on (tasks ! k)) \<subseteq> G"
  shows "run_inv answer b G tasks (L @ [k]) (run_one hs b k s)"
proof -
  have "fst (execute_isolated_step hs b (rn_steps s ! k) (rn_completed s) (rn_world s)) = final_step answer b G (tasks ! k)"
    using assms(5) by (simp add: isolated_answered run_inv_untouched [OF assms(1,3,4)] final_step_def)
  then obtain w where "execute_isolated_step hs b (rn_steps s ! k) (rn_completed s) (rn_world s) =
      (final_step answer b G (tasks ! k), w)" by (metis prod.collapse)
  then show ?thesis
    using run_inv_step [OF assms(1-4), of w] run_inv_untouched [OF assms(1,3,4)]
    by (simp add: run_one_def)
qed

lemma sequential_inv:
  assumes con: "consistent answer b G tasks"
  shows "run_inv answer b G tasks [0..<length tasks] (execute_sequential hs b tasks w)"
proof -
  have "run_inv answer b G tasks [0..<n] (fold (run_one hs b) [0..<n] (start_run tasks w))" if "n \<le> length tasks" for n
    using that
  proof (induction n)
    case (Suc n)
    then have inv: "run_inv answer b G tasks [0..<n] (fold (run_one hs b) [0..<n] (start_run tasks w))" by simp
    have "run_inv answer b G tasks ([0..<n] @ [n]) (run_one hs b n (fold (run_one hs b) [0..<n] (start_run tasks w)))"
      using Suc.prems by (intro run_one_inv [OF inv con] predecessors_met [OF inv con]) auto
    then show ?case by simp
  qed (simp add: run_inv_start)
  then show ?thesis by (simp add: execute_sequential_def)
qed

lemma blocked_inv:
  assumes inv: "run_inv answer b G tasks L s" and con: "consistent answer b G tasks"
    and "k < length tasks" "k \<notin> set L" "\<not> set (ps_depends_on (tasks ! k)) \<subseteq> G"
  shows "run_inv answer b G tasks (L @ [k]) (run_blocked hs b k s)"
proof -
  have "\<not> dependencies_met (rn_steps s ! k) (rn_completed s)"
    using run_inv_completed [OF inv] run_inv_untouched [OF inv assms(3,4)] assms(5) by auto
  moreover have "ps_id (tasks ! k) \<notin> G" using con assms(3,5) by (auto simp: consistent_def)
  ultimately show ?thesis
    using inv assms(3-5) run_inv_untouched [OF inv assms(3,4)]
    by (auto simp: run_inv_def run_blocked_def execute_step_def final_step_def final_evidence_def answered_def nth_list_update)
qed

end

text \<open>The dictionary of a batch: with distinct ids every step finds its own outcome.\<close>

lemma outcome_dict_lookup:
  assumes "distinct (map (\<lambda>k. ps_id (steps ! k)) ks)" "\<And>k. k \<in> set ks \<Longrightarrow> map_of outs k = Some (f k)" "k \<in> set ks"
  shows "map_of (outcome_dict steps ks outs) (ps_id (steps ! k)) = Some (f k)"
  unfolding outcome_dict_def using assms
proof (induction ks rule: rev_induct)
  case (snoc j ks)
  then show ?case by (auto simp: update_conv image_iff)
qed simp

lemma merge_answers_inv:
  assumes "consistent answer b G tasks" "run_inv answer b G tasks L s"
    and "distinct ks" "set ks \<subseteq> {..<length tasks} - set L"
    and "rn_steps s' = fold (\<lambda>k ss. ss[k := fst (final_step answer b G (tasks ! k))]) ks (rn_steps s)"
    and "rn_completed s' = rn_completed s" "rn_evidence s' = rn_evidence s"
  shows "run_inv answer b G tasks (L @ ks)
    (fold (\<lambda>k. merge_outcome (ps_id (tasks ! k)) (final_step answer b G (tasks ! k))) ks s')"
  using assms
proof (induction ks arbitrary: L s s')
  case Nil
  then show ?case by (simp add: run_inv_def)
next
  case (Cons k ks)
  let ?s1 = "merge_outcome (ps_id (tasks ! k)) (final_step answer b G (tasks ! k))
     (s\<lparr>rn_steps := (rn_steps s)[k := fst (final_step answer b G (tasks ! k))], rn_world := rn_world s\<rparr>)"
  let ?s1' = "merge_outcome (ps_id (tasks ! k)) (final_step answer b G (tasks ! k)) s'"
  have inv: "run_inv answer b G tasks (L @ [k]) ?s1"
    using Cons.prems(4) by (intro run_inv_step Cons.prems) auto
  have same: "rn_completed ?s1' = rn_completed ?s1" "rn_evidence ?s1' = rn_evidence ?s1"
    using Cons.prems(6,7) by (simp_all add: final_step_def merge_answered)
  have steps: "rn_steps ?s1' = fold (\<lambda>k ss. ss[k := fst (final_step answer b G (tasks ! k))]) ks (rn_steps ?s1)"
    using Cons.prems(5) by simp
  have "distinct ks" "set ks \<subseteq> {..<length tasks} - set (L @ [k])" using Cons.prems(3,4) by auto
  from Cons.IH [OF Cons.prems(1) inv this steps same]
  have "run_inv answer b G tasks ((L @ [k]) @ ks)
      (fold (\<lambda>k. merge_outcome (ps_id (tasks ! k)) (final_step answer b G (tasks ! k))) ks ?s1')" .
  then show ?case by simp
qed

lemma fold_updates:
  "k < length ss \<Longrightarrow> fold (\<lambda>k ss. ss[k := f k]) ks ss ! k = (if k \<in> set ks then f k else ss ! k)"
  "length (fold (\<lambda>k ss. ss[k := f k]) ks ss) = length ss"
  by (induction ks arbitrary: ss) (auto simp: nth_list_update)

lemma fold_updates_cong:
  assumes "set ks = set ls"
  shows "fold (\<lambda>k ss. ss[k := f k]) ks ss = fold (\<lambda>k ss. ss[k := f k]) ls ss"
  by (rule nth_equalityI) (simp_all add: fold_updates assms)

context stateless_handlers
begin

lemma run_pool_answers:
  assumes "run_pool hs b snap ks steps w = (outs, steps', w')" "distinct ks"
  shows "outs = map (\<lambda>k. (k, answered answer b (dependencies_met (steps ! k) snap) (steps ! k))) ks \<and>
    steps' = fold (\<lambda>k ss. ss[k := fst (answered answer b (dependencies_met (steps ! k) snap) (steps ! k))]) ks steps"
  using assms
proof (induction ks arbitrary: steps w outs)
  case (Cons k ks)
  obtain out w1 where r: "execute_isolated_step hs b (steps ! k) snap w = (out, w1)" by (metis prod.collapse)
  then have out: "out = answered answer b (dependencies_met (steps ! k) snap) (steps ! k)"
    using isolated_answered [of b "steps ! k" snap w] by simp
  obtain outs' where p: "run_pool hs b snap ks (steps[k := fst out]) w1 = (outs', steps', w')" and o: "outs = (k, out) # outs'"
    using Cons.prems(1) r by (auto split: prod.splits)
  have other: "steps[k := fst out] ! j = steps ! j" if "j \<in> set ks" for j
    using Cons.prems(2) that by (metis distinct.simps(2) nth_list_update_neq)
  show ?case
    using Cons.IH [OF p] Cons.prems(2) other by (simp add: o out cong: map_cong fold_cong)
qed simp

lemma run_batch_inv:
  assumes con: "consistent answer b G tasks" and inv: "run_inv answer b G tasks L s" and perm: "mset (sched ks) = mset ks"
    and ks: "distinct ks" "set ks \<subseteq> {..<length tasks} - set L"
    and met: "\<And>k. k \<in> set ks \<Longrightarrow> dependencies_met (tasks ! k) (rn_completed s) \<longleftrightarrow> set (ps_depends_on (tasks ! k)) \<subseteq> G"
  shows "run_inv answer b G tasks (L @ ks) (run_batch hs b sched ks s)"
proof -
  let ?f = "\<lambda>k. final_step answer b G (tasks ! k)"
  obtain outs steps w where r: "run_pool hs b (rn_completed s) (sched ks) (rn_steps s) (rn_world s) = (outs, steps, w)"
    by (metis prod.collapse)
  have set: "set (sched ks) = set ks" and dist: "distinct (sched ks)"
    using perm ks(1) by (metis mset_eq_setD, metis mset_eq_imp_distinct_iff)
  have ans: "answered answer b (dependencies_met (rn_steps s ! k) (rn_completed s)) (rn_steps s ! k) = ?f k"
    if "k \<in> set ks" for k
    using that ks(2) met run_inv_untouched [OF inv, of k] by (auto simp: final_step_def)
  have outs: "outs = map (\<lambda>k. (k, ?f k)) (sched ks)"
    using run_pool_answers [OF r dist] ans set by simp
  have "fold (\<lambda>k ss. ss[k := fst (answered answer b (dependencies_met (rn_steps s ! k) (rn_completed s)) (rn_steps s ! k))])
      (sched ks) (rn_steps s) = fold (\<lambda>k ss. ss[k := fst (?f k)]) (sched ks) (rn_steps s)"
    by (rule fold_cong) (use ans set in simp_all)
  then have steps: "steps = fold (\<lambda>k ss. ss[k := fst (?f k)]) (sched ks) (rn_steps s)"
    using run_pool_answers [OF r dist] by simp
  have steps': "steps = fold (\<lambda>k ss. ss[k := fst (?f k)]) ks (rn_steps s)"
    using steps fold_updates_cong [OF set, of "\<lambda>k. fst (?f k)" "rn_steps s"] by simp
  have id: "ps_id (steps ! k) = ps_id (tasks ! k)" if "k \<in> set ks" for k
  proof -
    have "k < length (rn_steps s)" using that ks(2) inv by (auto simp: run_inv_def)
    then have "steps ! k = fst (?f k)"
      using that fold_updates(1) [of k "rn_steps s" "\<lambda>k. fst (?f k)" ks] steps' by simp
    then show ?thesis using answered_step [of answer b _ "tasks ! k"] by (simp add: final_step_def shape_def)
  qed
  have distinct_ids: "distinct (map (\<lambda>k. ps_id (steps ! k)) ks)"
  proof -
    have "x = y" if "x \<in> set ks" "y \<in> set ks" "ps_id (tasks ! x) = ps_id (tasks ! y)" for x y
      using con ks(2) that nth_eq_iff_index_eq [of "map ps_id tasks" x y] by (auto simp: consistent_def subset_iff)
    then have "inj_on (\<lambda>k. ps_id (tasks ! k)) (set ks)" by (simp add: inj_on_def)
    then show ?thesis using ks(1) id by (simp add: distinct_map cong: inj_on_cong)
  qed
  have lookup: "map_of (outcome_dict steps ks outs) (ps_id (tasks ! k)) = Some (?f k)" if "k \<in> set ks" for k
    unfolding id [OF that, symmetric]
    by (rule outcome_dict_lookup [OF distinct_ids _ that]) (simp add: outs map_of_map_restrict set)
  have merge: "fold (merge_by_id (outcome_dict steps ks outs)) js s1 =
      fold (\<lambda>k. merge_outcome (ps_id (tasks ! k)) (?f k)) js s1"
    if "rn_steps s1 = steps" "set js \<subseteq> set ks" for js and s1 :: "('o, 'e, 'w) run"
    using that by (induction js arbitrary: s1) (simp_all add: merge_by_id_def lookup id)
  show ?thesis
    unfolding run_batch_def r Let_def prod.case
    by (subst merge) (auto intro!: merge_answers_inv [OF con inv ks] simp: steps')
qed

end

text \<open>The rounds of the parallel run, and the whole of it.\<close>

context stateless_handlers
begin

lemma ready_met:
  assumes "run_inv answer b G tasks L s" "k \<in> set (ready_steps s pending)" "set pending \<subseteq> {..<length tasks} - set L"
  shows "dependencies_met (tasks ! k) (rn_completed s)" "set (ps_depends_on (tasks ! k)) \<subseteq> G"
proof -
  have "k < length tasks" "k \<notin> set L" using assms(2,3) by (auto simp: ready_steps_def)
  then have "rn_steps s ! k = tasks ! k" by (rule run_inv_untouched [OF assms(1)])
  then show met: "dependencies_met (tasks ! k) (rn_completed s)" using assms(2) by (auto simp: ready_steps_def)
  show "set (ps_depends_on (tasks ! k)) \<subseteq> G" using met run_inv_completed [OF assms(1)] by auto
qed

lemma run_ones_inv:
  assumes "consistent answer b G tasks" "run_inv answer b G tasks L s" "distinct ks" "set ks \<subseteq> {..<length tasks} - set L"
    and "\<And>k. k \<in> set ks \<Longrightarrow> set (ps_depends_on (tasks ! k)) \<subseteq> G \<inter> (\<lambda>j. ps_id (tasks ! j)) ` set L"
  shows "run_inv answer b G tasks (L @ ks) (fold (run_one hs b) ks s)"
  using assms
proof (induction ks arbitrary: L s)
  case (Cons k ks)
  have "dependencies_met (tasks ! k) (rn_completed s) \<longleftrightarrow> set (ps_depends_on (tasks ! k)) \<subseteq> G"
    using Cons.prems(5) [of k] run_inv_completed [OF Cons.prems(2)] by auto
  then have "run_inv answer b G tasks (L @ [k]) (run_one hs b k s)"
    using Cons.prems(4) run_one_inv [OF Cons.prems(2,1), of k] by simp
  moreover have "set (ps_depends_on (tasks ! j)) \<subseteq> G \<inter> (\<lambda>j. ps_id (tasks ! j)) ` set (L @ [k])" if "j \<in> set ks" for j
    using Cons.prems(5) [of j] that by auto
  moreover have "distinct ks" "set ks \<subseteq> {..<length tasks} - set (L @ [k])" using Cons.prems(3,4) by auto
  ultimately have "run_inv answer b G tasks ((L @ [k]) @ ks) (fold (run_one hs b) ks (run_one hs b k s))"
    using Cons.IH [OF Cons.prems(1)] by blast
  then show ?case by simp
qed simp

lemma run_round_inv:
  assumes con: "consistent answer b G tasks" and inv: "run_inv answer b G tasks L s" and perm: "\<And>ks. mset (sched ks) = mset ks"
    and pending: "distinct pending" "set pending \<subseteq> {..<length tasks} - set L" and ready: "ready = ready_steps s pending"
  shows "run_inv answer b G tasks (L @ filter (\<lambda>k. ps_type (tasks ! k) = RETRIEVE) ready @
      filter (\<lambda>k. ps_type (tasks ! k) \<noteq> RETRIEVE) ready) (run_round hs b m sched ready s)"
proof -
  let ?r = "filter (is_retrieval s) ready" and ?o = "filter (\<lambda>k. \<not> is_retrieval s k) ready"
  let ?s1 = "if length ?r > 1 \<and> m > 1 then run_batch hs b sched ?r s else fold (run_one hs b) ?r s"
  have sub: "set ready \<subseteq> {..<length tasks} - set L" and dist: "distinct ready"
    using pending by (auto simp: ready ready_steps_def)
  have deps: "set (ps_depends_on (tasks ! k)) \<subseteq> G \<inter> (\<lambda>j. ps_id (tasks ! j)) ` set L" if "k \<in> set ready" for k
    using that ready_met(1) [OF inv _ pending(2)] run_inv_completed [OF inv] ready by blast
  have met: "dependencies_met (tasks ! k) (rn_completed s) \<longleftrightarrow> set (ps_depends_on (tasks ! k)) \<subseteq> G" if "k \<in> set ready" for k
    using that ready_met [OF inv _ pending(2)] ready by blast
  have retr: "is_retrieval s k \<longleftrightarrow> ps_type (tasks ! k) = RETRIEVE" if "k \<in> set ready" for k
    using that sub run_inv_untouched [OF inv, of k] by (auto simp: is_retrieval_def)
  have "run_inv answer b G tasks (L @ ?r) ?s1"
  proof (cases "length ?r > 1 \<and> m > 1")
    case True
    have "run_inv answer b G tasks (L @ ?r) (run_batch hs b sched ?r s)"
      by (rule run_batch_inv [OF con inv perm]) (use dist sub met in auto)
    with True show ?thesis by simp
  next
    case False
    have "run_inv answer b G tasks (L @ ?r) (fold (run_one hs b) ?r s)"
      by (rule run_ones_inv [OF con inv]) (use dist sub deps in auto)
    with False show ?thesis by (auto split: if_split)
  qed
  then have "run_inv answer b G tasks ((L @ ?r) @ ?o) (fold (run_one hs b) ?o ?s1)"
    by (rule run_ones_inv [OF con]) (use dist sub deps in \<open>auto, blast\<close>)
  then have "run_inv answer b G tasks (L @ ?r @ ?o) (run_round hs b m sched ready s)"
    unfolding run_round_def Let_def append_assoc .
  moreover have "?r = filter (\<lambda>k. ps_type (tasks ! k) = RETRIEVE) ready" "?o = filter (\<lambda>k. ps_type (tasks ! k) \<noteq> RETRIEVE) ready"
    by (rule filter_cong; simp add: retr)+
  ultimately show ?thesis by simp
qed

lemma blocked_all_inv:
  assumes con: "consistent answer b G tasks" and "run_inv answer b G tasks L s" "distinct ks" "set ks \<subseteq> {..<length tasks} - set L"
    and "\<And>k. k \<in> set ks \<Longrightarrow> \<not> set (ps_depends_on (tasks ! k)) \<subseteq> G"
  shows "run_inv answer b G tasks (L @ ks) (fold (run_blocked hs b) ks s)"
  using assms(2-)
proof (induction ks arbitrary: L s)
  case (Cons k ks)
  have "run_inv answer b G tasks (L @ [k]) (run_blocked hs b k s)"
    using Cons.prems by (intro blocked_inv [OF _ con]) auto
  then have "run_inv answer b G tasks ((L @ [k]) @ ks) (fold (run_blocked hs b) ks (run_blocked hs b k s))"
    by (rule Cons.IH) (use Cons.prems in auto)
  then show ?case by simp
qed simp

end

context stateless_handlers
begin

lemma parallel_loop_inv:
  assumes con: "consistent answer b G tasks" and perm: "\<And>ks. mset (sched ks) = mset ks"
  shows "run_inv answer b G tasks L s \<Longrightarrow> pending = filter (\<lambda>k. k \<notin> set L) [0..<length tasks] \<Longrightarrow>
    \<exists>M. mset M = mset pending \<and> run_inv answer b G tasks (L @ M) (parallel_loop hs b m sched pending s)"
proof (induction pending arbitrary: L s rule: length_induct)
  case (1 pending)
  note inv = 1(2) and pending = 1(3)
  let ?ready = "ready_steps s pending" and ?rest = "filter (\<lambda>k. k \<notin> set (ready_steps s pending)) pending"
  have sub: "distinct pending" "set pending \<subseteq> {..<length tasks} - set L" by (auto simp: pending)
  show ?case
  proof (cases "pending = [] \<or> ?ready = []")
    case True
    then have "?ready = []" by (auto simp: ready_steps_def)
    then have "run_inv answer b G tasks (L @ pending) (fold (run_blocked hs b) pending s)"
      using blocked_forever [OF inv con] sub(2) unfolding pending by (intro blocked_all_inv [OF con inv]) auto
    then show ?thesis
      using True by (intro exI [of _ pending]) (auto simp: parallel_loop.simps [of hs b m sched pending])
  next
    case False
    let ?N = "filter (\<lambda>k. ps_type (tasks ! k) = RETRIEVE) ?ready @ filter (\<lambda>k. ps_type (tasks ! k) \<noteq> RETRIEVE) ?ready"
    from False obtain k where "k \<in> set ?ready" by (cases ?ready) auto
    then have "length ?rest < length pending"
      by (intro length_filter_less [of k]) (auto simp: ready_steps_def)
    moreover have "run_inv answer b G tasks (L @ ?N) (run_round hs b m sched ?ready s)"
      by (rule run_round_inv [OF con inv perm sub refl])
    moreover have "?rest = filter (\<lambda>k. k \<notin> set (L @ ?N)) [0..<length tasks]"
      using pending by (auto intro: filter_cong)
    ultimately obtain M where M: "mset M = mset ?rest"
        "run_inv answer b G tasks ((L @ ?N) @ M) (parallel_loop hs b m sched ?rest (run_round hs b m sched ?ready s))"
      using 1(1) by blast
    have "mset ?N = mset ?ready" by (simp flip: multiset_partition)
    then have "mset (?N @ M) = mset pending" using M(1) ready_partition [of s pending] by (simp only: mset_append)
    then show ?thesis
      using M(2) False by (intro exI [of _ "?N @ M"]) (simp add: parallel_loop.simps [of hs b m sched pending])
  qed
qed

text \<open>Only retrievals bring evidence and they depend on nothing: all of them run in the first round, in plan order.\<close>

lemma parallel_evidence:
  assumes con: "consistent answer b G tasks" and perm: "\<And>ks. mset (sched ks) = mset ks"
    and free: "\<And>k. k < length tasks \<Longrightarrow> ps_type (tasks ! k) = RETRIEVE \<Longrightarrow> ps_depends_on (tasks ! k) = []"
    and only: "\<And>k. k < length tasks \<Longrightarrow> ps_type (tasks ! k) \<noteq> RETRIEVE \<Longrightarrow> final_evidence answer b G (tasks ! k) = []"
  shows "\<exists>L. set L = {..<length tasks} \<and> run_inv answer b G tasks L (parallel_loop hs b m sched [0..<length tasks] (start_run tasks w)) \<and>
    concat (map (\<lambda>k. final_evidence answer b G (tasks ! k)) L) =
    concat (map (\<lambda>k. final_evidence answer b G (tasks ! k)) [0..<length tasks])"
proof -
  let ?ev = "\<lambda>k. final_evidence answer b G (tasks ! k)" and ?s = "start_run tasks w :: ('o, 'e, 'w) run" and ?p = "[0..<length tasks]"
  let ?ready = "ready_steps ?s ?p"
  let ?R = "filter (\<lambda>k. ps_type (tasks ! k) = RETRIEVE) ?p"
  have drop: "concat (map ?ev ks) = concat (map ?ev (filter (\<lambda>k. ps_type (tasks ! k) = RETRIEVE) ks))"
    if "set ks \<subseteq> {..<length tasks}" for ks
    using that only by (induction ks) auto
  have none: "concat (map ?ev ks) = []" if "set ks \<subseteq> {..<length tasks}" "\<forall>k \<in> set ks. ps_type (tasks ! k) \<noteq> RETRIEVE" for ks
    using that only by auto
  show ?thesis
  proof (cases "?ready = []")
    case True
    obtain M where "mset M = mset ?p" "run_inv answer b G tasks M (parallel_loop hs b m sched ?p ?s)"
      using parallel_loop_inv [OF con perm run_inv_start, of ?p m w] by auto
    moreover have "\<forall>k \<in> set ?p. ps_type (tasks ! k) \<noteq> RETRIEVE"
      using True free by (auto simp: ready_steps_def filter_empty_conv start_run_def dependencies_met_def)
    moreover have "set M = {..<length tasks}" using mset_eq_setD [OF calculation(1)] by (simp add: atLeast0LessThan)
    ultimately have "concat (map ?ev M) = [] \<and> concat (map ?ev ?p) = []"
      by (intro conjI none) (auto simp: atLeast0LessThan)
    then show ?thesis
      using \<open>run_inv answer b G tasks M _\<close> \<open>set M = _\<close> by (intro exI [of _ M] conjI) (assumption | simp only:)+
  next
    case False
    let ?N = "filter (\<lambda>k. ps_type (tasks ! k) = RETRIEVE) ?ready @ filter (\<lambda>k. ps_type (tasks ! k) \<noteq> RETRIEVE) ?ready"
    let ?rest = "filter (\<lambda>k. k \<notin> set ?ready) ?p"
    have R: "filter (\<lambda>k. ps_type (tasks ! k) = RETRIEVE) ?ready = ?R"
      using free unfolding ready_steps_def filter_filter
      by (intro filter_cong) (auto simp: start_run_def dependencies_met_def)
    have inv: "run_inv answer b G tasks ([] @ ?N) (run_round hs b m sched ?ready ?s)"
      by (rule run_round_inv [OF con run_inv_start perm _ _ refl]) auto
    have rest: "?rest = filter (\<lambda>k. k \<notin> set ([] @ ?N)) ?p" by (rule filter_cong) auto
    obtain M where M: "mset M = mset ?rest"
        "run_inv answer b G tasks (?N @ M) (parallel_loop hs b m sched ?rest (run_round hs b m sched ?ready ?s))"
      using parallel_loop_inv [OF con perm inv rest, of m] by auto
    have setM: "set M = set ?rest" using M(1) by (rule mset_eq_setD)
    have "set (?N @ M) = {..<length tasks}"
      unfolding set_append setM by (auto simp: ready_steps_def)
    moreover have "concat (map ?ev (?N @ M)) = concat (map ?ev ?R)"
    proof -
      have "k \<in> set ?ready" if "k < length tasks" "ps_type (tasks ! k) = RETRIEVE" for k
        using free [OF that] that by (simp add: ready_steps_def start_run_def dependencies_met_def)
      then have "concat (map ?ev M) = []" by (intro none) (auto simp: setM)
      moreover have "concat (map ?ev (filter (\<lambda>k. ps_type (tasks ! k) \<noteq> RETRIEVE) ?ready)) = []"
        by (intro none) (auto simp: ready_steps_def)
      ultimately show ?thesis unfolding map_append concat_append R by simp
    qed
    moreover have "concat (map ?ev ?p) = concat (map ?ev ?R)" by (rule drop) auto
    moreover have "parallel_loop hs b m sched ?p ?s = parallel_loop hs b m sched ?rest (run_round hs b m sched ?ready ?s)"
      using False by (subst parallel_loop.simps) (auto simp: ready_steps_def)
    ultimately show ?thesis using M(2) by (intro exI [of _ "?N @ M"]) simp
  qed
qed

end

text \<open>Two runs that have done all steps agree on them.\<close>

lemma run_inv_steps_unique:
  assumes "run_inv answer b G tasks L s" "run_inv answer b G tasks L' s'" "set L = {..<length tasks}" "set L' = {..<length tasks}"
  shows "rn_steps s = rn_steps s'"
  using assms by (auto simp: run_inv_def intro: nth_equalityI)

lemma wf_steps_ids:
  assumes "wf_steps tasks" "k < length tasks"
  shows "ps_id (tasks ! k) = int k + 1"
proof -
  have "map ps_id tasks ! k = [1..int (length tasks)] ! k" using assms(1) by (simp add: wf_steps_def)
  then show ?thesis using assms(2) by simp
qed

lemma wf_steps_consistent:
  assumes wf: "wf_steps tasks"
  shows "consistent answer b (good_ids answer b {} tasks) tasks"
proof -
  have dist: "distinct (map ps_id tasks)" using wf by (simp add: wf_steps_def)
  have deps: "1 \<le> d \<and> d < int k + 1" if "k < length tasks" "d \<in> set (ps_depends_on (tasks ! k))" for k d
  proof -
    have "list_all (\<lambda>d. 1 \<le> d \<and> d < ps_id (tasks ! k)) (ps_depends_on (tasks ! k))"
      using wf that(1) by (simp add: wf_steps_def list_all_length)
    then show ?thesis using that wf_steps_ids [OF wf that(1)] by (simp add: list_all_iff)
  qed
  have earlier: "set (ps_depends_on (tasks ! k)) \<subseteq> (\<lambda>j. ps_id (tasks ! j)) ` {..<k}" if k: "k < length tasks" for k
  proof
    fix d assume "d \<in> set (ps_depends_on (tasks ! k))"
    then have "1 \<le> d \<and> d < int k + 1" by (rule deps [OF k])
    then have "nat (d - 1) < k" "int (nat (d - 1)) + 1 = d" by linarith+
    then have "d = ps_id (tasks ! nat (d - 1))" "nat (d - 1) < k"
      using k wf_steps_ids [OF wf, of "nat (d - 1)"] by simp_all
    then show "d \<in> (\<lambda>j. ps_id (tasks ! j)) ` {..<k}" by blast
  qed
  have later: "set (ps_depends_on (tasks ! i)) \<inter> ps_id ` set (drop i tasks) = {}" if i: "i < length tasks" for i
  proof -
    have "int i + 1 \<le> ps_id st" if st: "st \<in> set (drop i tasks)" for st
    proof -
      obtain j where "j < length (drop i tasks)" "st = drop i tasks ! j" using st by (metis in_set_conv_nth)
      then show ?thesis using wf_steps_ids [OF wf, of "i + j"] by simp
    qed
    then have "d \<notin> ps_id ` set (drop i tasks)" if "d \<in> set (ps_depends_on (tasks ! i))" for d
      using deps [OF i that] by fastforce
    then show ?thesis by blast
  qed
  show ?thesis
    unfolding consistent_def
    by (intro conjI allI impI dist earlier good_ids_fixpoint [OF dist _ later]) simp_all
qed

context stateless_handlers
begin

lemma parallel_is_sequential:
  assumes wf: "wf_steps tasks" and perm: "\<And>ks. mset (sched ks) = mset ks"
    and free: "\<And>st. st \<in> set tasks \<Longrightarrow> ps_type st = RETRIEVE \<Longrightarrow> ps_depends_on st = []"
    and only: "\<And>ty f st. answer ty = Some f \<Longrightarrow> ty \<noteq> RETRIEVE \<Longrightarrow> snd (f st b) = []"
  shows "rn_steps (execute_parallel_retrievals hs b parallelism sched tasks w) = rn_steps (execute_sequential hs b tasks w') \<and>
    rn_evidence (execute_parallel_retrievals hs b parallelism sched tasks w) = rn_evidence (execute_sequential hs b tasks w')"
proof -
  let ?G = "good_ids answer b {} tasks"
  note con = wf_steps_consistent [OF wf, of answer b]
  have none: "final_evidence answer b ?G st = []" if ty: "ps_type st \<noteq> RETRIEVE" for st
    using only [OF _ ty, of _ "st\<lparr>ps_status := SS_RUNNING\<rparr>"]
    by (auto simp: final_evidence_def final_step_def answered_def split: option.splits prod.splits sum.splits)
  obtain L where L: "set L = {..<length tasks}"
      "run_inv answer b ?G tasks L (execute_parallel_retrievals hs b parallelism sched tasks w)"
      "concat (map (\<lambda>k. final_evidence answer b ?G (tasks ! k)) L) =
       concat (map (\<lambda>k. final_evidence answer b ?G (tasks ! k)) [0..<length tasks])"
    using parallel_evidence [OF con perm, of "max 1 (min parallelism MAX_RETRIEVAL_WORKERS)" w] free none
    unfolding execute_parallel_retrievals_def by (metis nth_mem)
  note seq = sequential_inv [OF con, of w']
  have "rn_steps (execute_parallel_retrievals hs b parallelism sched tasks w) = rn_steps (execute_sequential hs b tasks w')"
    by (rule run_inv_steps_unique [OF L(2) seq L(1)]) auto
  moreover have "rn_evidence (execute_parallel_retrievals hs b parallelism sched tasks w) =
      rn_evidence (execute_sequential hs b tasks w')"
    using L(2,3) seq unfolding run_inv_def by metis
  ultimately show ?thesis by blast
qed

end

end
