(* ===== verification/Agent_Strategy.thy ===== *)
theory Agent_Strategy
  imports Plan_Execution Tool_Server
begin

text \<open>
  How a planned question is to be executed: the strategies under
  \<^verbatim>\<open>agent/execution/strategies/\<close>, the strategy engine of
  \<^verbatim>\<open>agent/execution/execution_engine.py\<close> with its registry, and the workflow layer
  \<^verbatim>\<open>agent/workflow/\<close>.

  A strategy is the record of its priority, \<open>supports\<close> and \<open>build\<close>. Reasons are texts,
  since some of them hold characters beyond Latin-1. The direct tool entry of the strategy
  engine (\<open>context.tool_context\<close>) is not used by the runtime and not modelled.
\<close>

subsection \<open>Strategies\<close>

datatype ExecutionStrategyType = DIRECT_LLM | RAG | MULTI_DOCUMENT | MULTI_STEP | PARALLEL | HYBRID | TOOL_CALLING | AGENT_WORKFLOW

fun strategy_value :: "ExecutionStrategyType \<Rightarrow> string" where
  "strategy_value DIRECT_LLM = ''direct_llm''"
| "strategy_value RAG = ''rag''"
| "strategy_value MULTI_DOCUMENT = ''multi_document''"
| "strategy_value MULTI_STEP = ''multi_step''"
| "strategy_value PARALLEL = ''parallel''"
| "strategy_value HYBRID = ''hybrid''"
| "strategy_value TOOL_CALLING = ''tool_calling''"
| "strategy_value AGENT_WORKFLOW = ''agent_workflow''"

record strategy_result =
  sx_strategy :: ExecutionStrategyType
  sx_reason :: utext
  sx_steps :: int
  sx_parallelism :: int
  sx_use_retrieval :: bool
  sx_use_tools :: bool
  sx_confidence :: rat
  sx_tool_results :: "tool_result list"

datatype WorkflowType = WT_DIRECT_CHAT | WT_RAG | WT_RETRIEVE_THEN_REASON | WT_MULTI_STEP | WT_PARALLEL | WT_VERIFY
  | WT_SUMMARIZE | WT_TOOL_PIPELINE

fun workflow_value :: "WorkflowType \<Rightarrow> string" where
  "workflow_value WT_DIRECT_CHAT = ''direct_chat''"
| "workflow_value WT_RAG = ''rag''"
| "workflow_value WT_RETRIEVE_THEN_REASON = ''retrieve_then_reason''"
| "workflow_value WT_MULTI_STEP = ''multi_step''"
| "workflow_value WT_PARALLEL = ''parallel''"
| "workflow_value WT_VERIFY = ''verify''"
| "workflow_value WT_SUMMARIZE = ''summarize''"
| "workflow_value WT_TOOL_PIPELINE = ''tool_pipeline''"

datatype WorkflowStatus = WS_PENDING | WS_RUNNING | WS_DONE | WS_FAILED

record workflow_step =
  wf_step_id :: string
  wf_name :: string
  wf_description :: string
  wf_required :: bool
  wf_depends_on :: "string list"
  wf_strategy :: string
  wf_tool :: "(string \<times> obj) option"

record workflow_result =
  wr_workflow :: WorkflowType
  wr_steps :: "workflow_step list"
  wr_time_ms :: int
  wr_requires_tools :: bool
  wr_requires_memory :: bool
  wr_confidence :: rat
  wr_reason :: utext
  wr_strategy :: ExecutionStrategyType
  wr_requires_retrieval :: bool
  wr_requires_parallel :: bool
  wr_execution_steps :: int
  wr_status :: WorkflowStatus
  wr_current :: "workflow_step option"
  wr_completed :: "workflow_step list"

record 'r execution_context =
  ec_task :: task_result
  ec_complexity :: complexity_result
  ec_plan :: "'r execution_plan option"
  ec_workflow :: "workflow_result option"

record 'r strategy =
  sg_priority :: int
  sg_supports :: "'r execution_context \<Rightarrow> bool"
  sg_build :: "'r execution_context \<Rightarrow> strategy_result"

abbreviation ctx_type :: "'r execution_context \<Rightarrow> TaskType" where
  "ctx_type c \<equiv> tm_type (tk_task (ec_task c))"

abbreviation ctx_level :: "'r execution_context \<Rightarrow> ComplexityLevel" where
  "ctx_level c \<equiv> cm_level (cr_complexity (ec_complexity c))"

definition type_text :: "'r execution_context \<Rightarrow> utext" where
  "type_text c = cps (TaskType_value (ctx_type c))"

definition em_dash :: utext where "em_dash = [32, 8212, 32]"

definition strategy_answer :: "ExecutionStrategyType \<Rightarrow> utext \<Rightarrow> int \<Rightarrow> int \<Rightarrow> bool \<Rightarrow> bool \<Rightarrow> rat \<Rightarrow> strategy_result" where
  "strategy_answer s reason n par retr tls conf =
     \<lparr>sx_strategy = s, sx_reason = reason, sx_steps = n, sx_parallelism = par, sx_use_retrieval = retr,
      sx_use_tools = tls, sx_confidence = conf, sx_tool_results = []\<rparr>"

definition DirectLLMStrategy :: "'r strategy" where
  "DirectLLMStrategy = \<lparr>sg_priority = 10,
     sg_supports = (\<lambda>c. ctx_type c \<in> {CHAT, SUMMARIZATION} \<and> ctx_level c \<in> {LOW, MEDIUM}),
     sg_build = (\<lambda>c. strategy_answer DIRECT_LLM
       (cps ''Simple '' @ type_text c @ cps '' task'' @ em_dash @ cps ''direct LLM sufficient'') 1 1 False False (95 / 100))\<rparr>"

definition RagStrategy :: "'r strategy" where
  "RagStrategy = \<lparr>sg_priority = 90,
     sg_supports = (\<lambda>c. ctx_type c \<in> {DOCUMENT_QA, RESEARCH, FINANCIAL_ANALYSIS} \<and> ctx_level c \<in> {LOW, MEDIUM}),
     sg_build = (\<lambda>c. strategy_answer RAG (type_text c @ cps '' task'' @ em_dash @ cps ''RAG with retrieval'') 3 1 True False (9 / 10))\<rparr>"

definition ParallelStrategy :: "'r strategy" where
  "ParallelStrategy = \<lparr>sg_priority = 85,
     sg_supports = (\<lambda>c. ctx_type c = COMPARISON \<and> ctx_level c \<in> {MEDIUM, HIGH} \<and> length (tk_entities (ec_task c)) \<ge> 2),
     sg_build = (\<lambda>c. let n = length (tk_entities (ec_task c)) in strategy_answer PARALLEL
       (cps (''Multi-entity comparison ('' @ str_nat n @ '' entities)'') @ em_dash @ cps ''parallel execution'')
       2 (min (int n) 4) True False (85 / 100))\<rparr>"

definition MultiStepStrategy :: "'r strategy" where
  "MultiStepStrategy = \<lparr>sg_priority = 80,
     sg_supports = (\<lambda>c. ctx_type c \<in> {COMPARISON, RESEARCH, FINANCIAL_ANALYSIS} \<and> ctx_level c = HIGH),
     sg_build = (\<lambda>c. strategy_answer MULTI_STEP
       (cps ''High-complexity '' @ type_text c @ em_dash @ cps ''multi-step reasoning required'') 4 1 True False (8 / 10))\<rparr>"

definition has_governed_financial_plan :: "'r execution_context \<Rightarrow> bool" where
  "has_governed_financial_plan c = (case ec_plan c of
      Some pl \<Rightarrow> (case pl_tasks pl of
          [s] \<Rightarrow> ps_type s = TOOL_CALL \<and> ps_tool_name s = Some ''financial_metrics''
        | _ \<Rightarrow> False)
    | None \<Rightarrow> False)"

text \<open>\<open>step.parameters.get('operation', 'unknown')\<close> of the only step.\<close>

definition governed_operation :: "'r execution_context \<Rightarrow> string" where
  "governed_operation c = (case ec_plan c of
      Some pl \<Rightarrow> (case pl_tasks pl of
          s # _ \<Rightarrow> (case map_of (ps_parameters s) ''operation'' of Some (PJson (JStr op)) \<Rightarrow> op | _ \<Rightarrow> ''unknown'')
        | [] \<Rightarrow> ''unknown'')
    | None \<Rightarrow> ''unknown'')"

definition ToolCallingStrategy :: "'r strategy" where
  "ToolCallingStrategy = \<lparr>sg_priority = 100,
     sg_supports = (\<lambda>c. has_governed_financial_plan c \<or> ctx_type c \<in> {OCR, IMAGE_ANALYSIS, CODE_GENERATION}),
     sg_build = (\<lambda>c. if has_governed_financial_plan c
       then strategy_answer TOOL_CALLING (cps (''Explicit governed financial_metrics tool call: '' @ governed_operation c)) 1 1 False True 1
       else strategy_answer TOOL_CALLING (type_text c @ cps '' task'' @ em_dash @ cps ''tool calling required'') 3 1 False True (85 / 100))\<rparr>"

subsection \<open>The strategy engine\<close>

type_synonym 'r strategy_registry = "(string \<times> 'r strategy) list"

definition BUILTIN_STRATEGIES :: "'r strategy_registry" where
  "BUILTIN_STRATEGIES = [(''rag'', RagStrategy), (''direct_llm'', DirectLLMStrategy), (''parallel'', ParallelStrategy),
     (''multi_step'', MultiStepStrategy), (''tool_calling'', ToolCallingStrategy)]"

definition register_builtin_strategies :: "'r strategy_registry \<Rightarrow> 'r strategy_registry" where
  "register_builtin_strategies reg =
     fold (\<lambda>(n, s) r. if n \<in> set (map fst r) then r else AList.update n s r) BUILTIN_STRATEGIES reg"

record 'r strategy_engine =
  se_registry :: "'r strategy_registry"
  se_fallback :: "string option"

definition make_strategy_engine :: "'r strategy_registry \<Rightarrow> 'r strategy_engine" where
  "make_strategy_engine reg = \<lparr>se_registry = register_builtin_strategies reg, se_fallback = None\<rparr>"

definition set_fallback :: "string \<Rightarrow> 'r strategy_engine \<Rightarrow> exn + 'r strategy_engine" where
  "set_fallback name e = (if name \<in> set (map fst (se_registry e)) then Inr (e\<lparr>se_fallback := Some name\<rparr>)
     else Inl (Exn ''KeyError'' (''Fallback strategy '' @ quoted name @ '' not registered. Available: '' @
       repr_list (map fst (se_registry e)))))"

text \<open>\<open>strategies.sort(key=priority, reverse=True)\<close> keeps the order of equal priorities.\<close>

definition sorted_strategies :: "'r strategy_engine \<Rightarrow> 'r strategy list" where
  "sorted_strategies e = sort_key (\<lambda>s. - sg_priority s) (map snd (se_registry e))"

definition fallback_execute :: "'r strategy_engine \<Rightarrow> 'r execution_context \<Rightarrow> strategy_result" where
  "fallback_execute e c = (case Option.bind (se_fallback e) (map_of (se_registry e)) of
      Some s \<Rightarrow> sg_build s c
    | None \<Rightarrow> strategy_answer DIRECT_LLM (cps ''No strategy matched; using direct LLM fallback'') 1 1 False False (1 / 2))"

text \<open>
  \<open>_execute_workflow_tools\<close>: the tools that the workflow steps name, run by a fresh engine without
  authorization hook, without tenant and without adapter; a raised exception is dropped.
\<close>

definition workflow_tool_context :: "workflow_step \<Rightarrow> obj \<Rightarrow> unit tool_context" where
  "workflow_tool_context st ps = \<lparr>tc_tenant = JNull,
     tc_parameters = AList.update ''step_name'' (JStr (wf_name st)) (AList.update ''step_id'' (JStr (wf_step_id st)) ps),
     tc_adapter = None\<rparr>"

definition run_workflow_tool :: "pow_fn \<Rightarrow> rat \<Rightarrow> workflow_step \<Rightarrow> strategy_result \<Rightarrow> strategy_result" where
  "run_workflow_tool pow ms st r = (case wf_tool st of
      None \<Rightarrow> r
    | Some (name, ps) \<Rightarrow>
        (case fst (engine_execute None (register_builtin_tools pow ms []) (workflow_tool_context st ps) name ()) of
           Inr t \<Rightarrow> r\<lparr>sx_tool_results := sx_tool_results r @ [t]\<rparr>
         | Inl _ \<Rightarrow> r))"

definition execute_from_workflow :: "pow_fn \<Rightarrow> rat \<Rightarrow> 'r strategy_engine \<Rightarrow> 'r execution_context \<Rightarrow> workflow_result \<Rightarrow> strategy_result" where
  "execute_from_workflow pow ms e c wk = (case map_of (se_registry e) (strategy_value (wr_strategy wk)) of
      Some s \<Rightarrow> fold (run_workflow_tool pow ms) (wr_steps wk) (sg_build s c)
    | None \<Rightarrow> fallback_execute e c)"

definition strategy_execute :: "pow_fn \<Rightarrow> rat \<Rightarrow> 'r strategy_engine \<Rightarrow> 'r execution_context \<Rightarrow> strategy_result" where
  "strategy_execute pow ms e c = (case ec_workflow c of
      Some wk \<Rightarrow> execute_from_workflow pow ms e c wk
    | None \<Rightarrow> (case find (\<lambda>s. sg_supports s c) (sorted_strategies e) of
        Some s \<Rightarrow> sg_build s c
      | None \<Rightarrow> fallback_execute e c))"

subsection \<open>Workflows\<close>

definition simple_step :: "string \<Rightarrow> string \<Rightarrow> string \<Rightarrow> string list \<Rightarrow> string \<Rightarrow> workflow_step" where
  "simple_step i name desc deps strat = \<lparr>wf_step_id = i, wf_name = name, wf_description = desc, wf_required = True,
     wf_depends_on = deps, wf_strategy = strat, wf_tool = None\<rparr>"

definition WorkflowResult :: "WorkflowType \<Rightarrow> workflow_step list \<Rightarrow> int \<Rightarrow> rat \<Rightarrow> utext \<Rightarrow> ExecutionStrategyType \<Rightarrow> workflow_result" where
  "WorkflowResult ty steps ms conf reason strat = \<lparr>wr_workflow = ty, wr_steps = steps, wr_time_ms = ms, wr_requires_tools = False,
     wr_requires_memory = False, wr_confidence = conf, wr_reason = reason, wr_strategy = strat, wr_requires_retrieval = False,
     wr_requires_parallel = False, wr_execution_steps = int (length steps), wr_status = WS_PENDING, wr_current = None, wr_completed = []\<rparr>"

definition arrow :: utext where "arrow = [32, 8594, 32]"

definition DirectChatWorkflow :: workflow_result where
  "DirectChatWorkflow = WorkflowResult WT_DIRECT_CHAT [simple_step ''chat'' ''Direct Chat'' ''Single-step LLM response'' [] ''direct_llm'']
     500 1 (cps ''Direct chat'' @ em_dash @ cps ''no retrieval or multi-step needed'') DIRECT_LLM"

definition RAGWorkflow :: workflow_result where
  "RAGWorkflow = (WorkflowResult WT_RAG
     [(simple_step ''retrieve'' ''Retrieve'' ''Retrieve relevant documents from knowledge base'' [] ''rag'')
        \<lparr>wf_tool := Some (''retrieval'', [(''top_k'', JInt 5)])\<rparr>,
      simple_step ''reason'' ''Reason'' ''Reason over retrieved evidence'' [''retrieve''] ''rag'',
      simple_step ''answer'' ''Answer'' ''Generate final answer with citations'' [''reason''] ''rag'']
     2000 (95 / 100) (cps ''Standard RAG: Retrieve'' @ arrow @ cps ''Reason'' @ arrow @ cps ''Answer'') RAG)
     \<lparr>wr_requires_retrieval := True\<rparr>"

definition ResearchWorkflow :: workflow_result where
  "ResearchWorkflow = (WorkflowResult WT_MULTI_STEP
     [simple_step ''plan'' ''Plan'' ''Decompose research question into sub-questions'' [] ''multi_step'',
      (simple_step ''retrieve'' ''Retrieve'' ''Retrieve documents for each sub-question'' [''plan''] ''multi_step'')
        \<lparr>wf_tool := Some (''retrieval'', [(''top_k'', JInt 10), (''threshold'', JFloat (Fin (7 / 10)))])\<rparr>,
      (simple_step ''analyze'' ''Analyze'' ''Analyze evidence across sub-questions'' [''retrieve''] ''multi_step'')
        \<lparr>wf_tool := Some (''python'', [(''mode'', JStr ''analysis'')])\<rparr>,
      simple_step ''synthesize'' ''Synthesize'' ''Synthesize findings into coherent report'' [''analyze''] ''multi_step'',
      (simple_step ''verify'' ''Verify'' ''Verify claims against source documents'' [''synthesize''] ''multi_step'')\<lparr>wf_required := False\<rparr>]
     5000 (85 / 100) (cps ''Multi-step research: Plan'' @ arrow @ cps ''Retrieve'' @ arrow @ cps ''Analyze'' @ arrow @
        cps ''Synthesize'' @ arrow @ cps ''Verify'') MULTI_STEP)
     \<lparr>wr_requires_retrieval := True, wr_requires_memory := True\<rparr>"

definition ComparisonWorkflow :: workflow_result where
  "ComparisonWorkflow = (WorkflowResult WT_PARALLEL
     [(simple_step ''retrieve_a'' ''Retrieve Entity A'' ''Retrieve documents for first entity'' [] ''parallel'')
        \<lparr>wf_tool := Some (''retrieval'', [(''top_k'', JInt 5), (''entity'', JStr ''A'')])\<rparr>,
      (simple_step ''retrieve_b'' ''Retrieve Entity B'' ''Retrieve documents for second entity'' [] ''parallel'')
        \<lparr>wf_tool := Some (''retrieval'', [(''top_k'', JInt 5), (''entity'', JStr ''B'')])\<rparr>,
      simple_step ''compare'' ''Compare'' ''Compare and contrast findings across entities'' [''retrieve_a'', ''retrieve_b''] ''parallel'',
      simple_step ''synthesize'' ''Synthesize'' ''Synthesize comparison into structured output'' [''compare''] ''parallel'']
     3000 (9 / 10) (cps ''Parallel comparison: Retrieve A '' @ [8214] @ cps '' Retrieve B'' @ arrow @ cps ''Compare'' @ arrow @
        cps ''Synthesize'') PARALLEL)
     \<lparr>wr_requires_retrieval := True, wr_requires_parallel := True\<rparr>"

definition ToolPipelineWorkflow :: workflow_result where
  "ToolPipelineWorkflow = (WorkflowResult WT_TOOL_PIPELINE
     [simple_step ''governed_tool_call'' ''Governed Financial Metric'' ''Execute the planner-approved financial metric'' [] ''tool_calling'']
     10 1 (cps ''Planner-approved deterministic financial calculation'') TOOL_CALLING)\<lparr>wr_requires_tools := True\<rparr>"

type_synonym workflow_registry = "(string \<times> workflow_result) list"

definition BUILTIN_WORKFLOWS :: workflow_registry where
  "BUILTIN_WORKFLOWS = [(''direct_chat'', DirectChatWorkflow), (''rag'', RAGWorkflow), (''multi_step'', ResearchWorkflow),
     (''parallel'', ComparisonWorkflow), (''tool_pipeline'', ToolPipelineWorkflow)]"

fun STRATEGY_TO_WORKFLOW :: "ExecutionStrategyType \<Rightarrow> WorkflowType" where
  "STRATEGY_TO_WORKFLOW DIRECT_LLM = WT_DIRECT_CHAT"
| "STRATEGY_TO_WORKFLOW RAG = WT_RAG"
| "STRATEGY_TO_WORKFLOW MULTI_STEP = WT_MULTI_STEP"
| "STRATEGY_TO_WORKFLOW PARALLEL = WT_PARALLEL"
| "STRATEGY_TO_WORKFLOW TOOL_CALLING = WT_TOOL_PIPELINE"
| "STRATEGY_TO_WORKFLOW MULTI_DOCUMENT = WT_RAG"
| "STRATEGY_TO_WORKFLOW HYBRID = WT_MULTI_STEP"
| "STRATEGY_TO_WORKFLOW AGENT_WORKFLOW = WT_MULTI_STEP"

definition workflow_create :: "workflow_registry \<Rightarrow> WorkflowType \<Rightarrow> exn + workflow_result" where
  "workflow_create reg ty = (case map_of reg (workflow_value ty) of
      Some w \<Rightarrow> Inr w
    | None \<Rightarrow> Inl (Exn ''WorkflowNotFound'' (''Workflow '' @ quoted (workflow_value ty) @ '' not registered. Available: '' @
        repr_list (map fst reg))))"

definition workflow_build :: "workflow_registry \<Rightarrow> strategy_result \<Rightarrow> exn + workflow_result" where
  "workflow_build reg r = workflow_create reg (STRATEGY_TO_WORKFLOW (sx_strategy r))"

text \<open>The executor drives the runner once per step; an exception marks the workflow as failed and is raised again.\<close>

fun workflow_steps :: "(unit \<Rightarrow> exn + 'a) \<Rightarrow> workflow_step list \<Rightarrow> workflow_result \<Rightarrow> (exn + unit) \<times> workflow_result" where
  "workflow_steps runner [] w = (Inr (), w)"
| "workflow_steps runner (st # sts) w =
     (let w1 = w\<lparr>wr_current := Some st\<rparr> in
      case runner () of
        Inl e \<Rightarrow> (Inl e, w1)
      | Inr _ \<Rightarrow> workflow_steps runner sts (w1\<lparr>wr_completed := wr_completed w1 @ [st]\<rparr>))"

definition workflow_execute :: "(unit \<Rightarrow> exn + 'a) \<Rightarrow> workflow_result \<Rightarrow> (exn + unit) \<times> workflow_result" where
  "workflow_execute runner w = (case workflow_steps runner (wr_steps w) (w\<lparr>wr_status := WS_RUNNING\<rparr>) of
      (Inr _, w1) \<Rightarrow> (Inr (), w1\<lparr>wr_current := None, wr_status := WS_DONE\<rparr>)
    | (Inl e, w1) \<Rightarrow> (Inl e, w1\<lparr>wr_status := WS_FAILED\<rparr>))"

subsection \<open>Which strategy a question gets\<close>

definition level_of :: "TaskType \<Rightarrow> nat \<Rightarrow> nat \<Rightarrow> ComplexityLevel" where
  "level_of ty c y = score_to_level (weighted_score ComplexityWeights (factors_of ty c y))"

lemmas score_defs = level_of_def score_to_level_def weighted_score_def factors_of_def ComplexityWeights_def
  prompt_score_def company_score_def year_score_def comparison_score_def

lemma small_cases: "(n :: nat) = 0 \<or> n = 1 \<or> n = 2 \<or> n \<ge> 3"
  by linarith

lemma level_research: "level_of RESEARCH c y = HIGH"
  using small_cases [of c] small_cases [of y] by (auto simp: score_defs)

lemma level_comparison: "level_of COMPARISON c y \<noteq> LOW" "c + y < 2 \<Longrightarrow> level_of COMPARISON c y = MEDIUM"
  using small_cases [of c] small_cases [of y] by (auto simp: score_defs)

lemma level_chat: "level_of CHAT c y \<noteq> HIGH"
  using small_cases [of c] small_cases [of y] by (auto simp: score_defs)

lemma level_document_qa: "level_of DOCUMENT_QA c y = HIGH \<longleftrightarrow> c \<ge> 3 \<or> c \<ge> 2 \<and> y \<ge> 1"
  using small_cases [of c] small_cases [of y] by (auto simp: score_defs)

lemma complexity_level:
  "cm_level (cr_complexity (complexity_analyze lg tr)) =
     level_of (tm_type (tk_task tr)) (length (filter (\<lambda>e. \<not> isdigit lg e) (tk_entities tr)))
       (length (filter (isdigit lg) (tk_entities tr)))"
  by (simp add: complexity_analyze_def level_of_def Let_def)

lemma first_rule_type: "fst (first_rule rules q) \<in> insert CHAT (fst ` set rules)"
  by (induction rules) (auto split: option.splits intro: rev_image_eqI)

lemma classified_type: "fst (classify_by_keyword q) \<in> {CHAT, OCR, IMAGE_ANALYSIS, COMPARISON, DOCUMENT_QA, RESEARCH}"
  using first_rule_type [of PRIORITY_ORDER q] by (auto simp: classify_by_keyword_def PRIORITY_ORDER_def)

lemma task_analyze_type: "tm_type (tk_task (task_analyze lg ctx)) \<in> {CHAT, OCR, IMAGE_ANALYSIS, COMPARISON, DOCUMENT_QA, RESEARCH}"
  using classified_type [of "lg_lower lg (pc_question ctx)"] by (auto simp: task_analyze_def Let_def split: prod.splits)

lemma strategies_in_order:
  "sorted_strategies (make_strategy_engine []) =
     [ToolCallingStrategy, RagStrategy, ParallelStrategy, MultiStepStrategy, DirectLLMStrategy]"
  by (simp add: sorted_strategies_def make_strategy_engine_def register_builtin_strategies_def BUILTIN_STRATEGIES_def
      ToolCallingStrategy_def RagStrategy_def ParallelStrategy_def MultiStepStrategy_def DirectLLMStrategy_def)

lemma no_fallback: "se_fallback (make_strategy_engine reg) = None"
  by (simp add: make_strategy_engine_def)

text \<open>Only a recognised calculation is planned as one governed tool call.\<close>

lemma compare_plan_no_tool: "st \<in> set (pl_tasks (fst (build_compare_plan q cs p))) \<Longrightarrow> ps_type st \<noteq> TOOL_CALL"
proof -
  obtain ss p' where r: "compare_retrievals q cs p = (ss :: 'a plan_step list, p')"
    by (cases "compare_retrievals q cs p :: 'a plan_step list \<times> planner")
  show "st \<in> set (pl_tasks (fst (build_compare_plan q cs p))) \<Longrightarrow> ps_type st \<noteq> TOOL_CALL" for st :: "'a plan_step"
    using compare_retrievals_spec(5) [OF r] by (auto simp: build_compare_plan_def r Let_def next_id_def list_all_iff)
qed

lemma other_plans_no_tool:
  "st \<in> set (pl_tasks (fst (choose_plan None ty q cs p))) \<Longrightarrow> ps_type st \<noteq> TOOL_CALL"
  by (auto simp: choose_plan_def compare_plan_no_tool build_single_plan_def build_global_plan_def build_generic_plan_def
      next_id_def Let_def split: if_splits)

lemma make_plan_parts:
  assumes "make_plan lg pc p = ((pl, tr, cr), p')"
  shows "tr = task_analyze lg pc" "cr = complexity_analyze lg tr"
    "pl_tasks pl = pl_tasks (fst (choose_plan (parse_financial_metric_query lg (pc_question pc)) (tm_type (tk_task tr))
        (pc_question pc) (filter (\<lambda>e. \<not> isdigit lg e) (tk_entities tr)) (reset_counter p) :: 'r execution_plan \<times> planner))"
  using assms by (auto simp: make_plan_def Let_def annotate_def split: prod.splits)

lemma governed_plan_iff:
  assumes "make_plan lg pc p = ((pl, tr, cr), p')"
  shows "has_governed_financial_plan \<lparr>ec_task = tr, ec_complexity = cr, ec_plan = Some pl, ec_workflow = w\<rparr> \<longleftrightarrow>
    parse_financial_metric_query lg (pc_question pc) \<noteq> None"
proof (cases "parse_financial_metric_query lg (pc_question pc)")
  case None
  then have "ps_type st \<noteq> TOOL_CALL" if "st \<in> set (pl_tasks pl)" for st
    using that make_plan_parts(3) [OF assms] other_plans_no_tool by metis
  with None show ?thesis by (auto simp: has_governed_financial_plan_def split: list.splits)
next
  case (Some iv)
  with make_plan_parts(3) [OF assms] parse_tool_name [OF Some] show ?thesis
    by (simp add: has_governed_financial_plan_def choose_plan_def build_financial_metric_plan_def next_id_def Let_def)
qed

lemmas strategy_defs = ToolCallingStrategy_def RagStrategy_def ParallelStrategy_def MultiStepStrategy_def DirectLLMStrategy_def
  strategy_answer_def

text \<open>
  C34. Which strategy a question gets. For every question that the planner has planned, with \<open>c\<close> entities that are
  no numbers and \<open>y\<close> that are: a recognised calculation, and every question classified as OCR or image
  analysis, goes to the tool strategy; a comparison runs in parallel when there are two entities and is otherwise
  answered by the model alone; a document question retrieves unless it names three companies, or two and a
  year, when it too is answered by the model alone; research always takes the multi-step strategy; all
  else is direct chat. So no level of complexity sends a research question to the plain
  retrieval strategy, and the more demanding document questions lose retrieval.
\<close>

theorem strategy_selection:
  assumes "make_plan lg pc p = ((pl, tr, cr), p')"
    and "c = length (filter (\<lambda>e. \<not> isdigit lg e) (tk_entities tr))" "y = length (filter (isdigit lg) (tk_entities tr))"
  shows "sx_strategy (strategy_execute pow ms (make_strategy_engine [])
      \<lparr>ec_task = tr, ec_complexity = cr, ec_plan = Some pl, ec_workflow = None\<rparr>) =
    (if parse_financial_metric_query lg (pc_question pc) \<noteq> None then TOOL_CALLING
     else case tm_type (tk_task tr) of
        OCR \<Rightarrow> TOOL_CALLING
      | IMAGE_ANALYSIS \<Rightarrow> TOOL_CALLING
      | COMPARISON \<Rightarrow> if c + y \<ge> 2 then PARALLEL else DIRECT_LLM
      | DOCUMENT_QA \<Rightarrow> if c \<ge> 3 \<or> c \<ge> 2 \<and> y \<ge> 1 then DIRECT_LLM else RAG
      | RESEARCH \<Rightarrow> MULTI_STEP
      | _ \<Rightarrow> DIRECT_LLM)"
proof -
  let ?ctx = "\<lparr>ec_task = tr, ec_complexity = cr, ec_plan = Some pl, ec_workflow = None\<rparr>" and ?ty = "tm_type (tk_task tr)"
  note parts = make_plan_parts [OF assms(1)] and governed = governed_plan_iff [OF assms(1), of None]
  have level: "cm_level (cr_complexity cr) = level_of ?ty c y"
    using parts(2) assms(2,3) by (simp add: complexity_level)
  have entities: "length (tk_entities tr) = c + y"
    using sum_length_filter_compl [of "isdigit lg" "tk_entities tr"] assms(2,3) by simp
  have eq: "sx_strategy (strategy_execute pow ms (make_strategy_engine []) ?ctx) =
      (if parse_financial_metric_query lg (pc_question pc) \<noteq> None \<or> ?ty \<in> {OCR, IMAGE_ANALYSIS, CODE_GENERATION} then TOOL_CALLING
       else if ?ty \<in> {DOCUMENT_QA, RESEARCH, FINANCIAL_ANALYSIS} \<and> level_of ?ty c y \<in> {LOW, MEDIUM} then RAG
       else if ?ty = COMPARISON \<and> level_of ?ty c y \<in> {MEDIUM, HIGH} \<and> c + y \<ge> 2 then PARALLEL
       else if ?ty \<in> {COMPARISON, RESEARCH, FINANCIAL_ANALYSIS} \<and> level_of ?ty c y = HIGH then MULTI_STEP
       else DIRECT_LLM)"
    by (simp add: strategy_execute_def strategies_in_order strategy_defs governed level entities fallback_execute_def
        no_fallback)
  have "?ty \<in> {CHAT, OCR, IMAGE_ANALYSIS, COMPARISON, DOCUMENT_QA, RESEARCH}"
    using task_analyze_type [of lg pc] parts(1) by simp
  then show ?thesis
    unfolding eq
    using level_research [of c y] level_comparison [of c y] level_chat [of c y] level_document_qa [of c y]
    by (cases ?ty; cases "level_of ?ty c y") auto
qed

lemmas contains_eval = contains_text_def sublist_code

definition two_companies_question :: planning_context where
  "two_companies_question = \<lparr>pc_question = cps ''revenue of Apple and Tesla in 2024'', pc_companies = [], pc_years = []\<rparr>"

lemma two_companies_analysis:
  "task_analyze plain_lang two_companies_question =
     \<lparr>tk_task = \<lparr>tm_type = DOCUMENT_QA, tm_confidence = 19 / 20, tm_complexity = MEDIUM\<rparr>,
      tk_reason = task_reason DOCUMENT_QA (Some (cps ''revenue'')),
      tk_entities = [cps ''Apple'', cps ''Tesla'', cps ''2024''], tk_tokens = 208\<rparr>"
proof -
  let ?q = "cps ''revenue of Apple and Tesla in 2024''" and ?l = "cps ''revenue of apple and tesla in 2024''"
  have low: "lg_lower plain_lang ?q = ?l" by (simp add: lang_eval)
  have rule: "classify_by_keyword ?l = (DOCUMENT_QA, Some (cps ''revenue''))"
    by (simp add: classify_by_keyword_def PRIORITY_ORDER_def OCR_KEYWORDS_def IMAGE_ANALYSIS_KEYWORDS_def COMPARISON_KEYWORDS_def
        DOCUMENT_QA_KEYWORDS_def contains_eval cps_def)
  have companies: "extract_companies plain_lang ?q = [cps ''Apple'', cps ''Tesla'']"
    unfolding extract_companies_def low by (simp add: COMPANY_MAP_def contains_eval cps_def)
  have years: "extract_years plain_lang ?q = [cps ''2024'']"
    by (simp add: extract_years_def lang_eval word_head_def)
  have rest: "merge_entities [] [cps ''Apple'', cps ''Tesla''] = [cps ''Apple'', cps ''Tesla'']"
    "merge_entities [] [cps ''2024''] = [cps ''2024'']"
    by (simp_all add: merge_entities_def cps_def)
  show ?thesis
    by (simp add: task_analyze_def two_companies_question_def low rule companies years rest Let_def)
      (simp add: task_confidence_def estimate_complexity_def task_tokens_def cps_def)
qed

lemma two_companies_no_calculation:
  "parse_financial_metric_query plain_lang (cps ''revenue of Apple and Tesla in 2024'') = None"
proof (rule parse_eval)
  show "normalise_question plain_lang (cps ''revenue of Apple and Tesla in 2024'') = cps ''revenue of Apple and Tesla in 2024''"
    by (simp add: normalise_question_def lang_eval words.simps strip_cp_def)
  show "length (number_tokens plain_lang (cps ''revenue of Apple and Tesla in 2024'') 0) = 1"
    by (simp add: lang_eval number_tokens.simps number_eval)
qed (simp_all add: pattern_eval lang_eval number_eval value_eval)

theorem strategy_selection_witness:
  "\<exists>pl tr cr p'. make_plan plain_lang two_companies_question \<lparr>step_counter = 0\<rparr> = ((pl :: nat execution_plan, tr, cr), p') \<and>
     tm_type (tk_task tr) = DOCUMENT_QA \<and>
     sx_strategy (strategy_execute (\<lambda>_ _. Inl (Exn ''OverflowError'' [])) 0 (make_strategy_engine [])
        \<lparr>ec_task = tr, ec_complexity = cr, ec_plan = Some pl, ec_workflow = None\<rparr>) = DIRECT_LLM"
proof -
  obtain pl :: "nat execution_plan" and tr cr p' where made: "make_plan plain_lang two_companies_question \<lparr>step_counter = 0\<rparr> = ((pl, tr, cr), p')"
    by (metis prod_cases3 surj_pair)
  have task: "tr = task_analyze plain_lang two_companies_question" by (rule make_plan_parts(1) [OF made])
  have counts: "2 = length (filter (\<lambda>e. \<not> isdigit plain_lang e) (tk_entities tr))" "1 = length (filter (isdigit plain_lang) (tk_entities tr))"
    unfolding task two_companies_analysis by (simp_all add: isdigit_def lang_eval)
  have no_calculation: "parse_financial_metric_query plain_lang (pc_question two_companies_question) = None"
    by (simp add: two_companies_question_def two_companies_no_calculation)
  show ?thesis
    using made strategy_selection [OF made counts] by (simp add: no_calculation) (simp add: task two_companies_analysis)
qed

end
