(* ===== verification/Answer_Report.thy ===== *)
theory Answer_Report
  imports Plan_Execution Tool_Server
begin

text \<open>
  From evidence to the texts a user and a model see: \<^verbatim>\<open>core/context_builder.py\<close>,
  \<^verbatim>\<open>core/citation_formatter.py\<close>, \<^verbatim>\<open>core/research_analyzer.py\<close>, \<^verbatim>\<open>core/report_builder.py\<close>,
  \<^verbatim>\<open>agent/reasoning_engine.py\<close>, \<^verbatim>\<open>prompts/registry.py\<close> and the rendering of \<^verbatim>\<open>prompt_builder.py\<close>.

  Evidence, context and citations are strings as in the tool layer; questions, reports and prompts are texts of
  code points. \<open>str()\<close> of a float, a list or a dictionary is the argument \<open>fs\<close>. A prompt
  template is a list of literal pieces and fields; the wording of the three templates is an argument, as is SHA-256.
\<close>

definition NLS :: string where "NLS = [CHR 0x0A]"

text \<open>\<open>str(v)\<close> and \<open>f'{v}'\<close>\<close>

definition py_str :: "(json \<Rightarrow> string) \<Rightarrow> json \<Rightarrow> string" where
  "py_str fs v = (case v of
      JNull \<Rightarrow> ''None''
    | JBool b \<Rightarrow> if b then ''True'' else ''False''
    | JInt i \<Rightarrow> str_int i
    | JStr s \<Rightarrow> s
    | _ \<Rightarrow> fs v)"

subsection \<open>Context and citations\<close>

definition citation_fields :: "string list" where
  "citation_fields = [''page'', ''section'', ''ocr_used'', ''parser_version'', ''chunker_version'', ''embedding_model'',
     ''embedding_revision'', ''content_sha256'']"

definition build_citation :: "nat \<Rightarrow> core_evidence \<Rightarrow> obj" where
  "build_citation i ev = fold (\<lambda>k c. if get_or (ce_metadata ev) k JNull = JNull then c else AList.update k (get_or (ce_metadata ev) k JNull) c)
     citation_fields
     [(''rank'', JInt (int i)), (''source'', ce_source ev), (''chunk_id'', get_or (ce_metadata ev) ''chunk_id'' (JStr [])),
      (''similarity'', JFloat (ce_confidence ev)), (''preview'', JStr (take 150 (ce_content ev)))]"

definition evidence_block :: "(json \<Rightarrow> string) \<Rightarrow> nat \<Rightarrow> core_evidence \<Rightarrow> string" where
  "evidence_block fs i ev = NLS @ ''[Evidence '' @ str_nat i @ '']'' @ NLS @ ''Source: '' @ py_str fs (ce_source ev) @ NLS @
     ''Chunk: '' @ py_str fs (get_or (ce_metadata ev) ''chunk_id'' (JStr [])) @ NLS @ NLS @ ce_content ev @ NLS @ NLS"

definition build_context_from_evidence :: "(json \<Rightarrow> string) \<Rightarrow> core_evidence list \<Rightarrow> string \<times> obj list" where
  "build_context_from_evidence fs evs =
     fold (\<lambda>(i, ev) (context, citations). (context @ evidence_block fs i ev, citations @ [build_citation i ev])) (enumerate 1 evs) ([], [])"

definition format_citations :: "(json \<Rightarrow> string) \<Rightarrow> obj list \<Rightarrow> string" where
  "format_citations fs cs = join NLS ([[], ''Evidence References'', replicate 60 (CHR ''='')] @
     concat (map (\<lambda>c. [''[Evidence '' @ py_str fs (get_or c ''rank'' JNull) @ '']'', ''Source: '' @ py_str fs (get_or c ''source'' JNull),
       ''Chunk: '' @ py_str fs (get_or c ''chunk_id'' JNull), ''Confidence: '' @ py_str fs (get_or c ''similarity'' JNull), [],
       ''Preview:'', py_str fs (get_or c ''preview'' JNull), [], replicate 60 (CHR ''-'')]) cs))"

text \<open>\<open>Counter\<close> over the sources, in order of first occurrence.\<close>

definition analyze_evidence :: "obj list \<Rightarrow> (json \<times> nat) list" where
  "analyze_evidence cs = fold (\<lambda>c d. AList.update (get_or c ''source'' JNull)
     (case map_of d (get_or c ''source'' JNull) of Some n \<Rightarrow> n + 1 | None \<Rightarrow> 1) d) cs []"

subsection \<open>The reasoning engine\<close>

datatype step_output = NoOutput | Evidences "core_evidence list" | ToolOutput json

record reasoning_result =
  re_facts :: "string list"
  re_risks :: "string list"
  re_opportunities :: "string list"
  re_conclusion :: string

definition collect_evidence :: "step_output step_result list \<Rightarrow> core_evidence list" where
  "collect_evidence rs = concat (map (\<lambda>r. if \<not> sr_success r then []
     else case sr_output r of Some (Evidences es) \<Rightarrow> es | _ \<Rightarrow> []) rs)"

definition mentioning :: "string list \<Rightarrow> core_evidence list \<Rightarrow> string list" where
  "mentioning keywords es = map ce_content (filter (\<lambda>e. list_ex (\<lambda>k. sublist k (map lower_char (ce_content e))) keywords) es)"

definition extract_facts :: "core_evidence list \<Rightarrow> string list" where
  "extract_facts = mentioning [''revenue'', ''profit'', ''margin'']"

definition extract_risks :: "core_evidence list \<Rightarrow> string list" where
  "extract_risks = mentioning [''risk'', ''uncertain'', ''decline'', ''decrease'', ''weak'', ''challenge'']"

definition extract_opportunities :: "core_evidence list \<Rightarrow> string list" where
  "extract_opportunities = mentioning [''growth'', ''increase'', ''expand'', ''strong'', ''guidance'']"

definition build_conclusion :: "string list \<Rightarrow> string list \<Rightarrow> string list \<Rightarrow> string" where
  "build_conclusion facts risks opps = ''Collected '' @ str_nat (length facts) @ '' financial facts, '' @ str_nat (length risks) @
     '' risk signals, and '' @ str_nat (length opps) @ '' opportunity signals.''"

definition reasoning_analyze :: "step_output step_result list \<Rightarrow> reasoning_result" where
  "reasoning_analyze rs =
     (let es = collect_evidence rs; facts = extract_facts es; risks = extract_risks es; opps = extract_opportunities es
      in \<lparr>re_facts = facts, re_risks = risks, re_opportunities = opps, re_conclusion = build_conclusion facts risks opps\<rparr>)"

subsection \<open>The report\<close>

record report_labels =
  lb_title :: utext
  lb_question :: utext
  lb_answer :: utext
  lb_analysis :: utext
  lb_facts :: utext
  lb_risks :: utext
  lb_opportunities :: utext
  lb_conclusion :: utext
  lb_coverage :: utext
  lb_chunks :: utext

definition LABELS_EN :: report_labels where
  "LABELS_EN = \<lparr>lb_title = cps ''Research Report'', lb_question = cps ''Question'', lb_answer = cps ''Answer (LLM Answer)'',
     lb_analysis = cps ''Agent Evidence Analysis'', lb_facts = cps ''Key Facts'', lb_risks = cps ''Risk Signals'',
     lb_opportunities = cps ''Opportunity Signals'', lb_conclusion = cps ''AI Conclusion'', lb_coverage = cps ''Source Coverage'',
     lb_chunks = cps ''chunks''\<rparr>"

definition LABELS_ZH :: report_labels where
  "LABELS_ZH = \<lparr>lb_title = [30740, 31350, 25253, 21578], lb_question = [38382, 39064],
     lb_answer = [22238, 31572, 65288] @ cps ''LLM '' @ [27169, 22411, 22238, 31572, 65289], lb_analysis = [26234, 33021, 20307, 35777, 25454, 20998, 26512],
     lb_facts = [20851, 38190, 20107, 23454], lb_risks = [39118, 38505, 20449, 21495], lb_opportunities = [26426, 20250, 20449, 21495],
     lb_conclusion = cps ''AI '' @ [32467, 35770], lb_coverage = [26469, 28304, 35206, 30422], lb_chunks = [20010, 25991, 26412, 22359]\<rparr>"

definition has_chinese :: "utext \<Rightarrow> bool" where
  "has_chinese t \<longleftrightarrow> list_ex (\<lambda>c. 13312 \<le> c \<and> c \<le> 40959) t"

definition labels_for_question :: "utext \<Rightarrow> report_labels" where
  "labels_for_question q = (if has_chinese q then LABELS_ZH else LABELS_EN)"

definition heading :: "utext \<Rightarrow> utext" where
  "heading t = [10] @ cps ''## '' @ t @ [10]"

definition bullet_section :: "utext \<Rightarrow> string list \<Rightarrow> utext" where
  "bullet_section label items = (if items = [] then [] else heading label @ concat (map (\<lambda>f. cps ''- '' @ cps f @ [10]) items))"

definition build_research_report :: "(json \<Rightarrow> string) \<Rightarrow> utext \<Rightarrow> utext \<Rightarrow> (json \<times> nat) list \<Rightarrow> reasoning_result \<Rightarrow> utext" where
  "build_research_report fs q answer stats re =
     (let lb = labels_for_question q;
          coverage = concat (map (\<lambda>(src, n). cps ''- '' @ cps (py_str fs src) @ cps '': '' @ cps (str_nat n) @ [32] @ lb_chunks lb @ [10]) stats)
      in [10] @ cps ''# '' @ lb_title lb @ [10] @ heading (lb_question lb) @ q @ [10] @ heading (lb_answer lb) @ answer @ [10] @
         heading (lb_analysis lb) @ bullet_section (lb_facts lb) (re_facts re) @ bullet_section (lb_risks lb) (re_risks re) @
         bullet_section (lb_opportunities lb) (re_opportunities re) @
         (if re_conclusion re = [] then [] else heading (lb_conclusion lb) @ [10] @ cps (re_conclusion re) @ [10]) @
         heading (lb_coverage lb) @ coverage @ [10])"

subsection \<open>Prompts\<close>

datatype prompt_piece = Literal utext | Field string

record prompt_definition =
  pt_name :: string
  pt_version :: string
  pt_content :: "prompt_piece list"
  pt_system :: utext

type_synonym prompt_registry = "((string \<times> string) \<times> prompt_definition) list"

definition prompt_register :: "(prompt_definition \<Rightarrow> string) \<Rightarrow> prompt_definition \<Rightarrow> prompt_registry \<Rightarrow> exn + prompt_registry" where
  "prompt_register checksum d reg = (case map_of reg (pt_name d, pt_version d) of
      Some old \<Rightarrow> if checksum old \<noteq> checksum d
        then Inl (Exn ''ValueError'' (''Prompt '' @ pt_name d @ ''@'' @ pt_version d @ '' is immutable''))
        else Inr (AList.update (pt_name d, pt_version d) d reg)
    | None \<Rightarrow> Inr (AList.update (pt_name d, pt_version d) d reg))"

definition prompt_get :: "prompt_registry \<Rightarrow> string \<Rightarrow> string \<Rightarrow> exn + prompt_definition" where
  "prompt_get reg name version = (case map_of reg (name, version) of
      Some d \<Rightarrow> Inr d
    | None \<Rightarrow> Inl (Exn ''PromptNotFound'' (''Prompt '' @ name @ ''@'' @ version @ '' is not registered'')))"

definition PROMPT_DEFAULTS :: "(string \<times> string) list" where
  "PROMPT_DEFAULTS = [(''financial_rag'', ''2.2.0''), (''financial_compare'', ''2.2.0''), (''direct_chat'', ''1.0.0'')]"

text \<open>\<open>role.title()\<close> of the two roles that pass.\<close>

definition history_line :: "(json \<Rightarrow> string) \<Rightarrow> obj \<Rightarrow> string option" where
  "history_line fs item =
     (let role = normal (py_str fs (get_or item ''role'' (JStr ''user'')));
          content = strip (py_str fs (get_or item ''content'' (JStr [])))
      in if role \<in> {''user'', ''assistant''} \<and> content \<noteq> []
         then Some ((if role = ''user'' then ''User'' else ''Assistant'') @ '': '' @ take 1500 content) else None)"

definition last_items :: "nat \<Rightarrow> 'a list \<Rightarrow> 'a list" where
  "last_items n xs = drop (length xs - n) xs"

definition format_history :: "(json \<Rightarrow> string) \<Rightarrow> obj list \<Rightarrow> string" where
  "format_history fs history =
     (if history = [] then []
      else if list_ex (\<lambda>item. has_key item ''role'' \<or> has_key item ''content'') history
      then join NLS (List.map_filter (history_line fs) (last_items 8 history))
      else join NLS (map (\<lambda>item. ''Q: '' @ py_str fs (get_or item ''q'' (JStr [])) @ NLS @ ''A: '' @ py_str fs (get_or item ''a'' (JStr [])))
        (last_items 3 history)))"

fun fill_pieces :: "(string \<Rightarrow> utext option) \<Rightarrow> prompt_piece list \<Rightarrow> exn + utext" where
  "fill_pieces env [] = Inr []"
| "fill_pieces env (Literal t # ps) = try_then (fill_pieces env ps) (\<lambda>r. Inr (t @ r))"
| "fill_pieces env (Field k # ps) = (case env k of
      None \<Rightarrow> Inl (Exn ''KeyError'' (quoted k))
    | Some t \<Rightarrow> try_then (fill_pieces env ps) (\<lambda>r. Inr (t @ r)))"

definition default_prompt :: "prompt_registry \<Rightarrow> string \<Rightarrow> exn + prompt_definition" where
  "default_prompt reg name = (case map_of PROMPT_DEFAULTS name of
      Some v \<Rightarrow> prompt_get reg name v
    | None \<Rightarrow> Inl (Exn ''KeyError'' (quoted name)))"

definition render_prompt :: "(json \<Rightarrow> string) \<Rightarrow> prompt_registry \<Rightarrow> string \<Rightarrow> utext \<Rightarrow> obj list \<Rightarrow> string \<Rightarrow> exn + utext" where
  "render_prompt fs reg name q history ctx =
     try_then (default_prompt reg name) (\<lambda>d.
       fill_pieces [''question'' \<mapsto> q, ''context'' \<mapsto> cps ctx, ''history_text'' \<mapsto> cps (format_history fs history)] (pt_content d))"

subsection \<open>Citations say where the context comes from\<close>

lemma context_split:
  "fold (\<lambda>(i, ev) (context, citations). (context @ evidence_block fs i ev, citations @ [build_citation i ev])) xs (c, cs) =
     (c @ concat (map (\<lambda>(i, ev). evidence_block fs i ev) xs), cs @ map (\<lambda>(i, ev). build_citation i ev) xs)"
  by (induction xs arbitrary: c cs) auto

lemma build_context_eq:
  "build_context_from_evidence fs evs =
     (concat (map (\<lambda>(i, ev). evidence_block fs i ev) (enumerate 1 evs)), map (\<lambda>(i, ev). build_citation i ev) (enumerate 1 evs))"
  by (simp add: build_context_from_evidence_def context_split)

lemma map_of_update [simp]: "map_of (AList.update k v al) = (map_of al)(k \<mapsto> v)"
  by (simp add: update_conv')

lemma get_or_fold_update:
  "k \<notin> set ks \<Longrightarrow> get_or (fold (\<lambda>k c. if P k then c else AList.update k (f k) c) ks c) k d = get_or c k d"
  by (induction ks arbitrary: c) (auto simp: get_or_def)

lemma build_citation_fields:
  "get_or (build_citation i ev) ''rank'' JNull = JInt (int i)" "get_or (build_citation i ev) ''source'' JNull = ce_source ev"
  "get_or (build_citation i ev) ''chunk_id'' JNull = get_or (ce_metadata ev) ''chunk_id'' (JStr [])"
  "get_or (build_citation i ev) ''similarity'' JNull = JFloat (ce_confidence ev)"
  "get_or (build_citation i ev) ''preview'' JNull = JStr (take 150 (ce_content ev))"
proof -
  have other: "k \<notin> set citation_fields \<Longrightarrow> get_or (build_citation i ev) k JNull = get_or
     [(''rank'', JInt (int i)), (''source'', ce_source ev), (''chunk_id'', get_or (ce_metadata ev) ''chunk_id'' (JStr [])),
      (''similarity'', JFloat (ce_confidence ev)), (''preview'', JStr (take 150 (ce_content ev)))] k JNull" for k
    unfolding build_citation_def by (rule get_or_fold_update)
  show "get_or (build_citation i ev) ''rank'' JNull = JInt (int i)" "get_or (build_citation i ev) ''source'' JNull = ce_source ev"
    "get_or (build_citation i ev) ''chunk_id'' JNull = get_or (ce_metadata ev) ''chunk_id'' (JStr [])"
    "get_or (build_citation i ev) ''similarity'' JNull = JFloat (ce_confidence ev)"
    "get_or (build_citation i ev) ''preview'' JNull = JStr (take 150 (ce_content ev))"
    by (subst other, simp add: citation_fields_def, simp add: get_or_def [of "_ # _"])+
qed

lemma sublist_concat: "x \<in> set xs \<Longrightarrow> sublist x (concat xs)"
  by (metis concat.simps(2) concat_append split_list sublist_appendI)

text \<open>
  Citations and context tell the same story. For every list of evidence the model sees one block per record, in order,
  numbered from one, with source, chunk and the complete content; the citation at the same position carries the
  same number, source, chunk and confidence, and previews the first 150 characters of that very content. So the marker
  \<open>[Evidence n]\<close> in an answer always denotes citation \<open>n\<close>.
\<close>

theorem citations_faithful:
  assumes "build_context_from_evidence fs evs = (ctx, cs)" "n < length evs"
  shows "length cs = length evs \<and> sublist (evidence_block fs (n + 1) (evs ! n)) ctx \<and>
    get_or (cs ! n) ''rank'' JNull = JInt (int n + 1) \<and> get_or (cs ! n) ''source'' JNull = ce_source (evs ! n) \<and>
    get_or (cs ! n) ''chunk_id'' JNull = get_or (ce_metadata (evs ! n)) ''chunk_id'' (JStr []) \<and>
    get_or (cs ! n) ''similarity'' JNull = JFloat (ce_confidence (evs ! n)) \<and>
    (\<exists>p. get_or (cs ! n) ''preview'' JNull = JStr p \<and> prefix p (ce_content (evs ! n)) \<and> length p \<le> 150)"
proof -
  have cs: "cs = map (\<lambda>(i, ev). build_citation i ev) (enumerate 1 evs)" and
    ctx: "ctx = concat (map (\<lambda>(i, ev). evidence_block fs i ev) (enumerate 1 evs))"
    using assms(1) by (simp_all add: build_context_eq)
  have nth: "enumerate 1 evs ! n = (n + 1, evs ! n)" using assms(2) by (simp add: nth_enumerate_eq)
  have "(n + 1, evs ! n) \<in> set (enumerate 1 evs)" using nth nth_mem [of n "enumerate 1 evs"] assms(2) by simp
  then have "evidence_block fs (n + 1) (evs ! n) \<in> set (map (\<lambda>(i, ev). evidence_block fs i ev) (enumerate 1 evs))" by force
  then have "sublist (evidence_block fs (n + 1) (evs ! n)) ctx" unfolding ctx by (rule sublist_concat)
  moreover have "cs ! n = build_citation (n + 1) (evs ! n)" using assms(2) nth by (simp add: cs)
  ultimately show ?thesis
    using cs by (simp add: build_citation_fields take_is_prefix)
qed

definition cited_evidence :: "core_evidence list" where
  "cited_evidence = [\<lparr>ce_content = ''Revenue rose.'', ce_source = JStr ''a.pdf'', ce_company = JStr ''Apple'', ce_confidence = Fin (1 / 2),
     ce_metadata = [(''chunk_id'', JStr ''c1''), (''page'', JInt 3)]\<rparr>]"

theorem citations_faithful_witness:
  "\<exists>ctx cs. build_context_from_evidence (\<lambda>_. []) cited_evidence = (ctx, cs) \<and>
     sublist (evidence_block (\<lambda>_. []) 1 (cited_evidence ! 0)) ctx \<and> get_or (cs ! 0) ''source'' JNull = JStr ''a.pdf'' \<and>
     get_or (cs ! 0) ''page'' JNull = JInt 3"
proof -
  obtain ctx cs where b: "build_context_from_evidence (\<lambda>_. []) cited_evidence = (ctx, cs)" by fastforce
  have "get_or (cs ! 0) ''page'' JNull = JInt 3"
    using b by (auto simp: build_context_eq cited_evidence_def build_citation_def citation_fields_def get_or_def)
  then show ?thesis
    using b citations_faithful [OF b, of 0] by (simp add: cited_evidence_def)
qed

end
