(* ===== verification/Llm_Providers.thy ===== *)
theory Llm_Providers
  imports Json
begin

text \<open>
  The provider layer under \<^verbatim>\<open>llm/providers/\<close>, \<^verbatim>\<open>llm/factory/\<close> and \<^verbatim>\<open>llm/adapters/\<close>: one adapter per
  vendor behind a common request and response, with its own retry loop.

  The vendor SDKs are arguments: a call takes the payload and a world and gives a reply or an
  exception, of which the adapters read the class name, the status code and the text. Pausing is an
  argument too. Reading a reply can itself raise (an empty list of choices); the adapters catch
  that like an exception of the SDK. The client object that an adapter caches is part of the
  payload (key, base URL and timeout).
\<close>

subsection \<open>Requests, responses and configuration\<close>

record provider_config =
  pv_provider :: string
  pv_model :: string
  pv_api_key :: string
  pv_base_url :: "string option"
  pv_temperature :: rat
  pv_max_tokens :: int
  pv_timeout :: int
  pv_stream :: bool

record provider_capability =
  supports_stream :: bool
  supports_function_call :: bool
  supports_image :: bool
  supports_audio :: bool
  supports_video :: bool
  supports_json_mode :: bool
  supports_embedding :: bool
  supports_reranking :: bool
  supports_reasoning_effort :: bool
  supports_system_prompt :: bool
  supports_tools :: bool
  supports_multimodal :: bool
  max_context_tokens :: int

definition ProviderCapability :: provider_capability where
  "ProviderCapability = \<lparr>supports_stream = False, supports_function_call = False, supports_image = False, supports_audio = False,
     supports_video = False, supports_json_mode = False, supports_embedding = False, supports_reranking = False,
     supports_reasoning_effort = False, supports_system_prompt = False, supports_tools = False, supports_multimodal = False,
     max_context_tokens = 4096\<rparr>"

type_synonym message = "string \<times> string"

record provider_request =
  cq_messages :: "message list"
  cq_temperature :: rat
  cq_max_tokens :: "int option"
  cq_system_prompt :: "string option"

record chat_response =
  cs_content :: string
  cs_provider :: string
  cs_model :: string
  cs_prompt_tokens :: int
  cs_completion_tokens :: int
  cs_total_tokens :: int
  cs_finish_reason :: string

definition AuthenticationError :: "string \<Rightarrow> exn" where "AuthenticationError = Exn ''AuthenticationError''"
definition RateLimitError :: "string \<Rightarrow> exn" where "RateLimitError = Exn ''RateLimitError''"
definition ModelNotFoundError :: "string \<Rightarrow> exn" where "ModelNotFoundError = Exn ''ModelNotFoundError''"
definition ProviderConnectionError :: "string \<Rightarrow> exn" where "ProviderConnectionError = Exn ''ProviderConnectionError''"
definition ProviderError :: "string \<Rightarrow> exn" where "ProviderError = Exn ''ProviderError''"
definition ProviderNotFound :: "string \<Rightarrow> exn" where "ProviderNotFound = Exn ''ProviderNotFound''"

text \<open>The classes that derive from \<open>ProviderError\<close>.\<close>

definition provider_errors :: "string list" where
  "provider_errors = [''ProviderError'', ''ProviderNotFound'', ''AuthenticationError'', ''RateLimitError'', ''ModelNotFoundError'',
     ''ProviderConnectionError'']"

subsection \<open>The SDKs\<close>

record sdk_error =
  er_class :: string
  er_status :: "int option"
  er_text :: string

record payload =
  pd_api_key :: string
  pd_base_url :: "string option"
  pd_timeout :: int
  pd_model :: string
  pd_messages :: "message list"
  pd_system :: "string option"
  pd_temperature :: "rat option"
  pd_max_tokens :: int
  pd_effort :: "string option"
  pd_thinking :: bool

record completion =
  co_choices :: "(string option \<times> string) list"
  co_usage :: "(int \<times> int \<times> int) option"

record claude_message =
  cm_blocks :: "(string \<times> string) list"
  cm_input_tokens :: int
  cm_output_tokens :: int
  cm_stop_reason :: string

record gemini_reply =
  gr_text :: "string option"
  gr_usage :: "(int option \<times> int option \<times> int option) option"
  gr_finish :: "string list"

record 'w sdks =
  openai_create :: "payload \<Rightarrow> 'w \<Rightarrow> (sdk_error + completion) \<times> 'w"
  anthropic_create :: "payload \<Rightarrow> 'w \<Rightarrow> (sdk_error + claude_message) \<times> 'w"
  gemini_generate :: "payload \<Rightarrow> 'w \<Rightarrow> (sdk_error + gemini_reply) \<times> 'w"
  pause :: "nat \<Rightarrow> 'w \<Rightarrow> 'w"

definition with_default :: "int option \<Rightarrow> int \<Rightarrow> int" where
  "with_default v d = (case v of Some n \<Rightarrow> if n = 0 then d else n | None \<Rightarrow> d)"

text \<open>\<open>[system message, if any] + messages\<close>, and \<open>a or b\<close> on texts.\<close>

definition system_first :: "provider_request \<Rightarrow> message list" where
  "system_first rq = (case cq_system_prompt rq of
      Some s \<Rightarrow> (if s = [] then [] else [(''system'', s)])
    | None \<Rightarrow> []) @ cq_messages rq"

definition text_or :: "string option \<Rightarrow> string \<Rightarrow> string" where
  "text_or v d = (case v of Some s \<Rightarrow> if s = [] then d else s | None \<Rightarrow> d)"

subsection \<open>The retry loop\<close>

text \<open>
  \<open>for attempt in range(max_retry)\<close> of every adapter: \<open>verdict\<close> is what the \<open>except\<close> branch does with an
  exception, raise one of its own or go round again after a pause of \<open>2 ** attempt\<close> seconds.
\<close>

fun chat_loop :: "(nat \<Rightarrow> sdk_error \<Rightarrow> exn + unit) \<Rightarrow> ('w \<Rightarrow> (sdk_error + 'a) \<times> 'w) \<Rightarrow> (nat \<Rightarrow> 'w \<Rightarrow> 'w) \<Rightarrow> exn \<Rightarrow> nat \<Rightarrow> nat
    \<Rightarrow> 'w \<Rightarrow> (exn + 'a) \<times> 'w" where
  "chat_loop verdict call psw exhausted attempt 0 w = (Inl exhausted, w)"
| "chat_loop verdict call psw exhausted attempt (Suc n) w =
     (case call w of
        (Inr r, w1) \<Rightarrow> (Inr r, w1)
      | (Inl e, w1) \<Rightarrow> (case verdict attempt e of
            Inl x \<Rightarrow> (Inl x, w1)
          | Inr _ \<Rightarrow> chat_loop verdict call psw exhausted (Suc attempt) n (psw (2 ^ attempt) w1)))"

definition max_retry :: nat where "max_retry = 3"

text \<open>An exception raised while a reply is read, from Python itself.\<close>

definition index_error :: sdk_error where
  "index_error = \<lparr>er_class = ''IndexError'', er_status = None, er_text = ''list index out of range''\<rparr>"

definition mentions :: "string \<Rightarrow> string list \<Rightarrow> bool" where
  "mentions t ms \<longleftrightarrow> list_ex (\<lambda>m. sublist m t) ms"

subsection \<open>Adapters that read the text of the exception\<close>

definition deepseek_retryable :: "string \<Rightarrow> bool" where
  "deepseek_retryable t \<longleftrightarrow> mentions t [''timeout'', ''connection'', ''nameresolution'', ''429'', ''500'', ''503'']"

definition deepseek_verdict :: "string \<Rightarrow> nat \<Rightarrow> sdk_error \<Rightarrow> exn + unit" where
  "deepseek_verdict model attempt e =
     (let t = map lower_char (er_text e);
          again = deepseek_retryable t \<and> attempt < max_retry - 1
      in if mentions t [''401'', ''unauthorized''] then Inl (AuthenticationError ''Invalid DeepSeek API key'')
         else if mentions t [''402''] then Inl (RateLimitError ''Insufficient balance'')
         else if mentions t [''429''] then Inl (RateLimitError ''Rate limit exceeded'')
         else if mentions t [''404'', ''model not found''] then Inl (ModelNotFoundError (''Model not found: '' @ model))
         else if again then Inr ()
         else if mentions t [''connection'', ''timeout''] then Inl (ProviderConnectionError (''Cannot connect to DeepSeek: '' @ er_text e))
         else Inl (ProviderError (''DeepSeek error: '' @ er_text e)))"

definition gemini_retryable :: "string \<Rightarrow> bool" where
  "gemini_retryable t \<longleftrightarrow> mentions t [''timeout'', ''connection'', ''429'', ''500'', ''503'', ''resource exhausted'']"

definition gemini_verdict :: "string \<Rightarrow> nat \<Rightarrow> sdk_error \<Rightarrow> exn + unit" where
  "gemini_verdict model attempt e =
     (let t = map lower_char (er_text e);
          again = gemini_retryable t \<and> attempt < max_retry - 1
      in if mentions t [''401'', ''unauthorized'', ''permission''] then Inl (AuthenticationError ''Invalid Gemini API key'')
         else if mentions t [''429'', ''resource exhausted''] then Inl (RateLimitError ''Gemini rate limit exceeded'')
         else if mentions t [''404'', ''model not found''] then Inl (ModelNotFoundError (''Model not found: '' @ model))
         else if again then Inr ()
         else if mentions t [''connection'', ''timeout''] then Inl (ProviderConnectionError (''Cannot connect to Gemini: '' @ er_text e))
         else Inl (ProviderError (''Gemini error: '' @ er_text e)))"

subsection \<open>Adapters that read status and class\<close>

definition status_retryable :: "sdk_error \<Rightarrow> bool" where
  "status_retryable e \<longleftrightarrow> er_status e \<in> {Some 408, Some 429, Some 500, Some 502, Some 503, Some 504} \<or>
     mentions (map lower_char (er_class e)) [''timeout'', ''connection'']"

definition raise_or_retry :: "string \<Rightarrow> string \<Rightarrow> nat \<Rightarrow> sdk_error \<Rightarrow> exn + unit" where
  "raise_or_retry vendor model attempt e =
     (let name = map lower_char (er_class e) in
      if er_status e \<in> {Some 401, Some 403} \<or> mentions name [''authentication'']
      then Inl (AuthenticationError (vendor @ '' authentication failed''))
      else if er_status e = Some 404 \<or> mentions name [''notfound''] then Inl (ModelNotFoundError (''Model not found: '' @ model))
      else if er_status e = Some 429 \<or> mentions name [''ratelimit''] then Inl (RateLimitError (vendor @ '' rate limit exceeded''))
      else if status_retryable e \<and> attempt < max_retry - 1 then Inr ()
      else if mentions name [''timeout'', ''connection''] then Inl (ProviderConnectionError (''Cannot connect to '' @ vendor))
      else Inl (ProviderError (vendor @ '' request failed'')))"

subsection \<open>The five adapters\<close>

definition respond :: "provider_config \<Rightarrow> string \<Rightarrow> string \<Rightarrow> int \<times> int \<times> int \<Rightarrow> string \<Rightarrow> chat_response" where
  "respond cfg provider content usage finish = \<lparr>cs_content = content, cs_provider = provider, cs_model = pv_model cfg,
     cs_prompt_tokens = fst usage, cs_completion_tokens = fst (snd usage), cs_total_tokens = snd (snd usage), cs_finish_reason = finish\<rparr>"

text \<open>\<open>response.choices[0]\<close> and the usage, as the three OpenAI-compatible adapters read them.\<close>

definition read_completion :: "provider_config \<Rightarrow> string \<Rightarrow> completion \<Rightarrow> sdk_error + chat_response" where
  "read_completion cfg provider c = (case co_choices c of
      [] \<Rightarrow> Inl index_error
    | (content, finish) # _ \<Rightarrow> Inr (respond cfg provider (strip (text_or content [])) (case co_usage c of Some u \<Rightarrow> u | None \<Rightarrow> (0, 0, 0)) finish))"

fun read_reply :: "('r \<Rightarrow> sdk_error + 'a) \<Rightarrow> (sdk_error + 'r) \<times> 'w \<Rightarrow> (sdk_error + 'a) \<times> 'w" where
  "read_reply rd (Inl e, w) = (Inl e, w)"
| "read_reply rd (Inr r, w) = (rd r, w)"

definition base_payload :: "provider_config \<Rightarrow> provider_request \<Rightarrow> payload" where
  "base_payload cfg rq = \<lparr>pd_api_key = pv_api_key cfg, pd_base_url = pv_base_url cfg, pd_timeout = pv_timeout cfg, pd_model = pv_model cfg,
     pd_messages = system_first rq, pd_system = None, pd_temperature = None,
     pd_max_tokens = with_default (cq_max_tokens rq) (pv_max_tokens cfg), pd_effort = None, pd_thinking = False\<rparr>"

definition DEEPSEEK_MODELS :: "string list" where
  "DEEPSEEK_MODELS = [''deepseek-v4-flash'', ''deepseek-v4-pro'']"

definition deepseek_payload :: "provider_config \<Rightarrow> provider_request \<Rightarrow> payload" where
  "deepseek_payload cfg rq = (let p = (base_payload cfg rq)\<lparr>pd_base_url := Some (text_or (pv_base_url cfg) ''https://api.deepseek.com'')\<rparr> in
     if pv_model cfg \<in> set DEEPSEEK_MODELS then p\<lparr>pd_effort := Some ''high'', pd_thinking := True\<rparr>
     else p\<lparr>pd_temperature := Some (cq_temperature rq)\<rparr>)"

definition deepseek_chat :: "'w sdks \<Rightarrow> provider_config \<Rightarrow> provider_request \<Rightarrow> 'w \<Rightarrow> (exn + chat_response) \<times> 'w" where
  "deepseek_chat sdk cfg rq w =
     (if pv_api_key cfg = [] then (Inl (AuthenticationError ''DEEPSEEK_API_KEY not set in environment''), w)
      else chat_loop (deepseek_verdict (pv_model cfg))
        (\<lambda>w. read_reply (read_completion cfg ''deepseek'') (openai_create sdk (deepseek_payload cfg rq) w))
        (pause sdk) (ProviderError ''Max retries exceeded'') 0 max_retry w)"

definition openai_payload :: "provider_config \<Rightarrow> provider_request \<Rightarrow> payload" where
  "openai_payload cfg rq = (base_payload cfg rq)\<lparr>pd_effort := Some ''medium''\<rparr>"

definition openai_chat :: "'w sdks \<Rightarrow> provider_config \<Rightarrow> provider_request \<Rightarrow> 'w \<Rightarrow> (exn + chat_response) \<times> 'w" where
  "openai_chat sdk cfg rq w =
     (if pv_api_key cfg = [] then (Inl (AuthenticationError ''OpenAI API key is not configured''), w)
      else chat_loop (raise_or_retry ''OpenAI'' (pv_model cfg))
        (\<lambda>w. read_reply (read_completion cfg ''openai'') (openai_create sdk (openai_payload cfg rq) w))
        (pause sdk) (ProviderError ''OpenAI request failed after retries'') 0 max_retry w)"

definition doubao_default_url :: string where
  "doubao_default_url = ''https://ark.cn-beijing.volces.com/api/v3''"

definition doubao_payload :: "provider_config \<Rightarrow> provider_request \<Rightarrow> payload" where
  "doubao_payload cfg rq = (base_payload cfg rq)\<lparr>pd_base_url := Some (text_or (pv_base_url cfg) doubao_default_url),
     pd_temperature := Some (cq_temperature rq)\<rparr>"

definition doubao_chat :: "'w sdks \<Rightarrow> provider_config \<Rightarrow> provider_request \<Rightarrow> 'w \<Rightarrow> (exn + chat_response) \<times> 'w" where
  "doubao_chat sdk cfg rq w =
     (if pv_api_key cfg = [] then (Inl (AuthenticationError ''Doubao API key is not configured''), w)
      else chat_loop (raise_or_retry ''Doubao'' (pv_model cfg))
        (\<lambda>w. read_reply (read_completion cfg ''doubao'') (openai_create sdk (doubao_payload cfg rq) w))
        (pause sdk) (ProviderError ''Doubao request failed after retries'') 0 max_retry w)"

definition claude_payload :: "provider_config \<Rightarrow> provider_request \<Rightarrow> payload" where
  "claude_payload cfg rq = (base_payload cfg rq)\<lparr>pd_messages := cq_messages rq, pd_temperature := Some (cq_temperature rq),
     pd_system := (case cq_system_prompt rq of Some s \<Rightarrow> if s = [] then None else Some s | None \<Rightarrow> None)\<rparr>"

definition read_claude :: "provider_config \<Rightarrow> claude_message \<Rightarrow> sdk_error + chat_response" where
  "read_claude cfg m = Inr (respond cfg ''anthropic''
     (strip (concat (map snd (filter (\<lambda>b. fst b = ''text'') (cm_blocks m)))))
     (cm_input_tokens m, cm_output_tokens m, cm_input_tokens m + cm_output_tokens m) (cm_stop_reason m))"

definition claude_chat :: "'w sdks \<Rightarrow> provider_config \<Rightarrow> provider_request \<Rightarrow> 'w \<Rightarrow> (exn + chat_response) \<times> 'w" where
  "claude_chat sdk cfg rq w =
     (if pv_api_key cfg = [] then (Inl (AuthenticationError ''Anthropic API key is not configured''), w)
      else chat_loop (raise_or_retry ''Anthropic'' (pv_model cfg))
        (\<lambda>w. read_reply (read_claude cfg) (anthropic_create sdk (claude_payload cfg rq) w))
        (pause sdk) (ProviderError ''Anthropic request failed after retries'') 0 max_retry w)"

text \<open>Gemini takes one prompt: the system prompt, an empty part and the contents, joined by blank lines.\<close>

definition gemini_contents :: "provider_request \<Rightarrow> string list" where
  "gemini_contents rq = (case cq_system_prompt rq of
      Some s \<Rightarrow> if s = [] then [] else [s, []]
    | None \<Rightarrow> []) @ filter (\<lambda>c. c \<noteq> []) (map snd (cq_messages rq))"

definition gemini_payload :: "provider_config \<Rightarrow> provider_request \<Rightarrow> payload" where
  "gemini_payload cfg rq = (base_payload cfg rq)\<lparr>pd_base_url := None, pd_timeout := pv_timeout cfg * 1000,
     pd_messages := [(''user'', join [CHR 0x0A, CHR 0x0A] (gemini_contents rq))]\<rparr>"

definition read_gemini :: "provider_config \<Rightarrow> gemini_reply \<Rightarrow> sdk_error + chat_response" where
  "read_gemini cfg r = Inr (respond cfg ''gemini'' (strip (text_or (gr_text r) []))
     (case gr_usage r of
        Some (p, c, t) \<Rightarrow> (with_default p 0, with_default c 0, with_default t 0)
      | None \<Rightarrow> (0, 0, 0))
     (case gr_finish r of f # _ \<Rightarrow> f | [] \<Rightarrow> ''unknown''))"

definition gemini_chat :: "'w sdks \<Rightarrow> provider_config \<Rightarrow> provider_request \<Rightarrow> 'w \<Rightarrow> (exn + chat_response) \<times> 'w" where
  "gemini_chat sdk cfg rq w =
     (if pv_api_key cfg = [] then (Inl (AuthenticationError ''GEMINI_API_KEY not set in environment''), w)
      else chat_loop (gemini_verdict (pv_model cfg))
        (\<lambda>w. read_reply (read_gemini cfg) (gemini_generate sdk (gemini_payload cfg rq) w))
        (pause sdk) (ProviderError ''Max retries exceeded'') 0 max_retry w)"

subsection \<open>Registry and factory\<close>

record 'w provider_class =
  pk_capability :: "string \<Rightarrow> provider_capability"
  pk_chat :: "'w sdks \<Rightarrow> provider_config \<Rightarrow> provider_request \<Rightarrow> 'w \<Rightarrow> (exn + chat_response) \<times> 'w"

type_synonym 'w provider_registry = "(string \<times> 'w provider_class) list"

definition text_only :: provider_capability where
  "text_only = ProviderCapability\<lparr>supports_system_prompt := True\<rparr>"

definition deepseek_capability :: "string \<Rightarrow> provider_capability" where
  "deepseek_capability model = text_only\<lparr>max_context_tokens := 1000000\<rparr>"

definition gemini_capability :: "string \<Rightarrow> provider_capability" where
  "gemini_capability model = text_only\<lparr>max_context_tokens := 1048576\<rparr>"

definition openai_capability :: "string \<Rightarrow> provider_capability" where
  "openai_capability model = text_only\<lparr>supports_reasoning_effort := True,
     max_context_tokens := (if model \<in> {''gpt-5.5'', ''gpt-5.4''} then 1050000 else 400000)\<rparr>"

definition claude_capability :: "string \<Rightarrow> provider_capability" where
  "claude_capability model = text_only\<lparr>max_context_tokens :=
     (if model \<in> {''claude-fable-5'', ''claude-opus-4-8'', ''claude-sonnet-5''} then 1000000 else 200000)\<rparr>"

definition doubao_capability :: "string \<Rightarrow> provider_capability" where
  "doubao_capability model = text_only\<lparr>max_context_tokens := 256000\<rparr>"

definition REGISTERED_PROVIDERS :: "'w provider_registry" where
  "REGISTERED_PROVIDERS =
     [(''deepseek'', \<lparr>pk_capability = deepseek_capability, pk_chat = deepseek_chat\<rparr>),
      (''gemini'', \<lparr>pk_capability = gemini_capability, pk_chat = gemini_chat\<rparr>),
      (''openai'', \<lparr>pk_capability = openai_capability, pk_chat = openai_chat\<rparr>),
      (''anthropic'', \<lparr>pk_capability = claude_capability, pk_chat = claude_chat\<rparr>),
      (''doubao'', \<lparr>pk_capability = doubao_capability, pk_chat = doubao_chat\<rparr>)]"

record 'w provider_instance =
  pi_class :: "'w provider_class"
  pi_config :: provider_config

definition factory_create :: "'w provider_registry \<Rightarrow> provider_config \<Rightarrow> exn + 'w provider_instance" where
  "factory_create reg cfg = (case map_of reg (pv_provider cfg) of
      None \<Rightarrow> Inl (ProviderNotFound (''Provider '' @ quoted (pv_provider cfg) @ '' not registered. Available: '' @ repr_list (map fst reg)))
    | Some c \<Rightarrow> Inr \<lparr>pi_class = c, pi_config = cfg\<rparr>)"

definition provider_chat :: "'w sdks \<Rightarrow> 'w provider_instance \<Rightarrow> provider_request \<Rightarrow> 'w \<Rightarrow> (exn + chat_response) \<times> 'w" where
  "provider_chat sdk p = pk_chat (pi_class p) sdk (pi_config p)"

text \<open>\<open>call_llm\<close>: one user message through the given provider, or through the configured one.\<close>

record llm_env =
  LLM_PROVIDER :: string
  LLM_MODEL :: string
  LLM_API_KEY :: string
  LLM_BASE_URL :: string
  LLM_TEMPERATURE :: rat
  LLM_MAX_TOKENS :: int
  LLM_TIMEOUT :: int
  LLM_STREAM :: bool
  DEEPSEEK_API_KEY :: string
  DEEPSEEK_MODEL :: string
  DEEPSEEK_BASE_URL :: string
  GEMINI_API_KEY :: string
  GEMINI_MODEL :: string
  OPENAI_API_KEY :: string
  OPENAI_MODEL :: string
  OPENAI_BASE_URL :: string
  ANTHROPIC_API_KEY :: string
  ANTHROPIC_MODEL :: string
  ANTHROPIC_BASE_URL :: string
  DOUBAO_API_KEY :: string
  DOUBAO_MODEL :: string
  DOUBAO_BASE_URL :: string

definition build_config :: "llm_env \<Rightarrow> provider_config" where
  "build_config ev = \<lparr>pv_provider = LLM_PROVIDER ev, pv_model = LLM_MODEL ev, pv_api_key = LLM_API_KEY ev,
     pv_base_url = Some (LLM_BASE_URL ev), pv_temperature = LLM_TEMPERATURE ev, pv_max_tokens = LLM_MAX_TOKENS ev,
     pv_timeout = LLM_TIMEOUT ev, pv_stream = LLM_STREAM ev\<rparr>"

definition call_llm :: "llm_env \<Rightarrow> 'w sdks \<Rightarrow> 'w provider_registry \<Rightarrow> string \<Rightarrow> 'w provider_instance option \<Rightarrow> string \<Rightarrow> 'w
    \<Rightarrow> (exn + string) \<times> 'w" where
  "call_llm ev sdk reg prompt provider system_prompt w =
     (case (case provider of Some p \<Rightarrow> Inr p | None \<Rightarrow> factory_create reg (build_config ev)) of
        Inl e \<Rightarrow> (Inl e, w)
      | Inr p \<Rightarrow>
          (case provider_chat sdk p \<lparr>cq_messages = [(''user'', prompt)], cq_temperature = LLM_TEMPERATURE ev,
               cq_max_tokens = Some (LLM_MAX_TOKENS ev), cq_system_prompt = Some system_prompt\<rparr> w of
             (Inl e, w1) \<Rightarrow> (Inl e, w1)
           | (Inr r, w1) \<Rightarrow> (Inr (cs_content r), w1)))"


subsection \<open>Every adapter gives up after three attempts\<close>

text \<open>
  What the retry loop relies on: a verdict goes round again exactly for a transient exception before the
  last attempt, and otherwise raises an exception of the provider hierarchy.
\<close>

locale vendor_verdict =
  fixes verdict :: "nat \<Rightarrow> sdk_error \<Rightarrow> exn + unit" and transient :: "sdk_error \<Rightarrow> bool"
  assumes retried: "verdict a e = Inr u \<longleftrightarrow> transient e \<and> a < max_retry - 1"
    and raised: "verdict a e = Inl x \<Longrightarrow> exn_class x \<in> set provider_errors"
begin

lemma verdict_cases:
  obtains "verdict a e = Inr ()" "transient e" "a < 2"
  | x where "verdict a e = Inl x" "exn_class x \<in> set provider_errors" "\<not> transient e \<or> a \<ge> 2"
  using retried [of a e "()"] raised [of a e] by (cases "verdict a e") (auto simp: max_retry_def)

text \<open>
  From attempt \<open>a\<close> on, attempt \<open>k\<close> is the last one made. \<open>calls\<close> and \<open>secs\<close> count the calls of the SDK and
  the seconds paused.
\<close>

lemma loop_counts:
  assumes counted: "\<And>w. calls (snd (call w)) = calls w + 1 \<and> secs (snd (call w)) = secs w"
      "\<And>n w. calls (psw n w) = calls w \<and> secs (psw n w) = secs w + n"
    and "chat_loop verdict call psw ex a n w = (r, w')" "a + n = 3" "0 < n"
  shows "\<exists>k. a \<le> k \<and> k < 3 \<and> calls w' = calls w + (k - a) + 1 \<and> secs w' + 2 ^ a = secs w + 2 ^ k \<and>
    (case r of Inl x \<Rightarrow> exn_class x \<in> set provider_errors | Inr y \<Rightarrow> \<exists>v v'. call v = (Inr y, v'))"
  using assms(3-)
proof (induction n arbitrary: a w)
  case (Suc n)
  obtain o1 w1 where c: "call w = (o1, w1)" by fastforce
  have w1: "calls w1 = calls w + 1" "secs w1 = secs w" using counted(1) [of w] c by simp_all
  show ?case
  proof (cases o1)
    case (Inr y)
    then have "\<exists>v v'. call v = (Inr y, v')" using c by blast
    moreover have "r = Inr y" "w1 = w'" using Suc.prems c Inr by simp_all
    ultimately show ?thesis using Suc.prems w1 by (intro exI [of _ a]) simp
  next
    case (Inl e)
    show ?thesis
    proof (cases rule: verdict_cases [of a e])
      case 1
      then have loop: "chat_loop verdict call psw ex (Suc a) n (psw (2 ^ a) w1) = (r, w')"
        using Suc.prems(1) c Inl by simp
      obtain k where "Suc a \<le> k" "k < 3" "calls w' = calls (psw (2 ^ a) w1) + (k - Suc a) + 1"
          "secs w' + 2 ^ Suc a = secs (psw (2 ^ a) w1) + 2 ^ k"
          "case r of Inl x \<Rightarrow> exn_class x \<in> set provider_errors | Inr y \<Rightarrow> \<exists>v v'. call v = (Inr y, v')"
        using Suc.IH [OF loop] Suc.prems(2) 1(3) by auto
      then show ?thesis using counted(2) [of "2 ^ a" w1] w1 by (intro exI [of _ k]) auto
    next
      case (2 x)
      then show ?thesis using Suc.prems c Inl w1 by (intro exI [of _ a]) auto
    qed
  qed
qed simp

end

definition deepseek_transient :: "sdk_error \<Rightarrow> bool" where
  "deepseek_transient e \<longleftrightarrow> (let t = map lower_char (er_text e) in
     deepseek_retryable t \<and> \<not> mentions t [''401'', ''unauthorized'', ''402'', ''429'', ''404'', ''model not found''])"

definition gemini_transient :: "sdk_error \<Rightarrow> bool" where
  "gemini_transient e \<longleftrightarrow> (let t = map lower_char (er_text e) in
     gemini_retryable t \<and> \<not> mentions t [''401'', ''unauthorized'', ''permission'', ''429'', ''resource exhausted'', ''404'', ''model not found''])"

definition status_transient :: "sdk_error \<Rightarrow> bool" where
  "status_transient e \<longleftrightarrow> (let name = map lower_char (er_class e) in
     status_retryable e \<and> er_status e \<notin> {Some 401, Some 403, Some 404, Some 429} \<and>
     \<not> mentions name [''authentication'', ''notfound'', ''ratelimit''])"

lemmas error_classes = AuthenticationError_def RateLimitError_def ModelNotFoundError_def ProviderConnectionError_def ProviderError_def
  ProviderNotFound_def provider_errors_def

interpretation deepseek: vendor_verdict "deepseek_verdict model" deepseek_transient for model
  by unfold_locales (auto simp: deepseek_verdict_def deepseek_transient_def mentions_def Let_def error_classes split: if_splits)

interpretation gemini: vendor_verdict "gemini_verdict model" gemini_transient for model
  by unfold_locales (auto simp: gemini_verdict_def gemini_transient_def mentions_def Let_def error_classes split: if_splits)

interpretation by_status: vendor_verdict "raise_or_retry vendor model" status_transient for vendor model
  by unfold_locales (auto simp: raise_or_retry_def status_transient_def mentions_def Let_def error_classes split: if_splits)


text \<open>A view of the world that counts SDK calls and paused seconds.\<close>

definition counts_sdks :: "'w sdks \<Rightarrow> ('w \<Rightarrow> nat) \<Rightarrow> ('w \<Rightarrow> nat) \<Rightarrow> bool" where
  "counts_sdks sdk calls secs \<longleftrightarrow>
     (\<forall>p w. calls (snd (openai_create sdk p w)) = calls w + 1 \<and> secs (snd (openai_create sdk p w)) = secs w) \<and>
     (\<forall>p w. calls (snd (anthropic_create sdk p w)) = calls w + 1 \<and> secs (snd (anthropic_create sdk p w)) = secs w) \<and>
     (\<forall>p w. calls (snd (gemini_generate sdk p w)) = calls w + 1 \<and> secs (snd (gemini_generate sdk p w)) = secs w) \<and>
     (\<forall>n w. calls (pause sdk n w) = calls w \<and> secs (pause sdk n w) = secs w + n)"

lemma snd_read_reply [simp]: "snd (read_reply rd x) = snd x"
  by (cases "(rd, x)" rule: read_reply.cases) auto

lemma counts_read:
  assumes "counts_sdks sdk calls secs"
  shows "calls (snd (read_reply rd (openai_create sdk p w))) = calls w + 1 \<and> secs (snd (read_reply rd (openai_create sdk p w))) = secs w"
    "calls (snd (read_reply rd' (anthropic_create sdk p w))) = calls w + 1 \<and> secs (snd (read_reply rd' (anthropic_create sdk p w))) = secs w"
    "calls (snd (read_reply rd'' (gemini_generate sdk p w))) = calls w + 1 \<and> secs (snd (read_reply rd'' (gemini_generate sdk p w))) = secs w"
    "calls (pause sdk n w) = calls w \<and> secs (pause sdk n w) = secs w + n"
  using assms by (simp_all add: counts_sdks_def)

lemma read_reply_Inr: "read_reply rd x = (Inr y, w) \<Longrightarrow> \<exists>r. rd r = Inr y"
  by (cases "(rd, x)" rule: read_reply.cases) auto

definition chat_bounded :: "('w \<Rightarrow> nat) \<Rightarrow> ('w \<Rightarrow> nat) \<Rightarrow> string \<Rightarrow> provider_config \<Rightarrow> 'w \<Rightarrow> (exn + chat_response) \<times> 'w \<Rightarrow> bool" where
  "chat_bounded calls secs name cfg w = (\<lambda>(r, w').
     if pv_api_key cfg = [] then w' = w \<and> (\<exists>m. r = Inl (AuthenticationError m))
     else \<exists>k < 3. calls w' = calls w + k + 1 \<and> secs w' + 1 = secs w + 2 ^ k \<and>
       (case r of Inl x \<Rightarrow> exn_class x \<in> set provider_errors
        | Inr y \<Rightarrow> cs_provider y = name \<and> cs_model y = pv_model cfg))"

context vendor_verdict
begin

lemma loop_bounded:
  assumes "\<And>w. calls (snd (call w)) = calls w + 1 \<and> secs (snd (call w)) = secs w"
    and "\<And>n w. calls (psw n w) = calls w \<and> secs (psw n w) = secs w + n"
    and "\<And>y v v'. call v = (Inr y, v') \<Longrightarrow> cs_provider y = name \<and> cs_model y = pv_model cfg"
    and "pv_api_key cfg \<noteq> []"
  shows "chat_bounded calls secs name cfg w (chat_loop verdict call psw ex 0 3 w)"
proof -
  obtain r w' where l: "chat_loop verdict call psw ex 0 3 w = (r, w')" by fastforce
  obtain k where "k < 3" "calls w' = calls w + k + 1" "secs w' + 1 = secs w + 2 ^ k"
    "case r of Inl x \<Rightarrow> exn_class x \<in> set provider_errors | Inr y \<Rightarrow> \<exists>v v'. call v = (Inr y, v')"
    using loop_counts [OF assms(1,2) l] by auto
  then show ?thesis
    using assms(3,4) unfolding l chat_bounded_def by (auto split: sum.splits)
qed

end

lemma respond_names: "cs_provider (respond cfg n t u f) = n" "cs_model (respond cfg n t u f) = pv_model cfg"
  by (simp_all add: respond_def)

lemma completion_names: "read_completion cfg n r = Inr y \<Longrightarrow> cs_provider y = n \<and> cs_model y = pv_model cfg"
  by (auto simp: read_completion_def respond_names split: list.splits)

lemma adapters_bounded:
  assumes "counts_sdks sdk calls secs"
  shows "chat_bounded calls secs ''deepseek'' cfg w (deepseek_chat sdk cfg rq w)"
    "chat_bounded calls secs ''openai'' cfg w (openai_chat sdk cfg rq w)"
    "chat_bounded calls secs ''doubao'' cfg w (doubao_chat sdk cfg rq w)"
    "chat_bounded calls secs ''anthropic'' cfg w (claude_chat sdk cfg rq w)"
    "chat_bounded calls secs ''gemini'' cfg w (gemini_chat sdk cfg rq w)"
proof -
  note counts = counts_read [OF assms]
  have no_key: "pv_api_key cfg = [] \<Longrightarrow> chat_bounded calls secs n cfg w (Inl (AuthenticationError m), w)" for n m
    by (auto simp: chat_bounded_def AuthenticationError_def)
  show "chat_bounded calls secs ''deepseek'' cfg w (deepseek_chat sdk cfg rq w)"
    unfolding deepseek_chat_def max_retry_def using no_key
    by (auto intro!: deepseek.loop_bounded counts dest!: read_reply_Inr completion_names)
  show "chat_bounded calls secs ''openai'' cfg w (openai_chat sdk cfg rq w)"
    unfolding openai_chat_def max_retry_def using no_key
    by (auto intro!: by_status.loop_bounded counts dest!: read_reply_Inr completion_names)
  show "chat_bounded calls secs ''doubao'' cfg w (doubao_chat sdk cfg rq w)"
    unfolding doubao_chat_def max_retry_def using no_key
    by (auto intro!: by_status.loop_bounded counts dest!: read_reply_Inr completion_names)
  show "chat_bounded calls secs ''anthropic'' cfg w (claude_chat sdk cfg rq w)"
    unfolding claude_chat_def max_retry_def using no_key
    by (auto intro!: by_status.loop_bounded counts dest!: read_reply_Inr simp: read_claude_def respond_names)
  show "chat_bounded calls secs ''gemini'' cfg w (gemini_chat sdk cfg rq w)"
    unfolding gemini_chat_def max_retry_def using no_key
    by (auto intro!: gemini.loop_bounded counts dest!: read_reply_Inr simp: read_gemini_def respond_names)
qed

lemma registered_bounded:
  assumes "map_of REGISTERED_PROVIDERS name = Some c" "counts_sdks sdk calls secs"
  shows "chat_bounded calls secs name cfg w (provider_chat sdk \<lparr>pi_class = c, pi_config = cfg\<rparr> rq w)"
  using assms(1) adapters_bounded [OF assms(2)]
  by (auto simp: REGISTERED_PROVIDERS_def provider_chat_def split: if_splits)

text \<open>
  C36. No adapter hammers a vendor. For each of the five registered providers, any configuration, any request and
  whatever the SDK does: without a key the call ends with an authentication error before anything is
  sent; otherwise the SDK is called \<open>k + 1\<close> times with \<open>k < 3\<close>, pausing \<open>2 ^ k - 1\<close> seconds (at most 3) in
  all; what is raised is always a class of the provider hierarchy, and a response carries
  the name of the provider and the configured model.
\<close>

theorem provider_calls_bounded:
  assumes "map_of REGISTERED_PROVIDERS name = Some c" "counts_sdks sdk calls secs"
    and "provider_chat sdk \<lparr>pi_class = c, pi_config = cfg\<rparr> rq w = (r, w')"
  shows "if pv_api_key cfg = [] then w' = w \<and> (\<exists>m. r = Inl (AuthenticationError m))
    else \<exists>k < 3. calls w' = calls w + k + 1 \<and> secs w' + 1 = secs w + 2 ^ k \<and>
      (case r of Inl x \<Rightarrow> exn_class x \<in> set provider_errors
       | Inr y \<Rightarrow> cs_provider y = name \<and> cs_model y = pv_model cfg)"
  using registered_bounded [OF assms(1,2), of cfg w rq] unfolding assms(3) chat_bounded_def by simp

text \<open>An SDK that is unreachable twice and then answers; the world counts calls and seconds.\<close>

definition flaky_sdks :: "(nat \<times> nat) sdks" where
  "flaky_sdks = \<lparr>
     openai_create = (\<lambda>p w. (if fst w < 2 then Inl \<lparr>er_class = ''APIConnectionError'', er_status = None, er_text = ''Connection error.''\<rparr>
        else Inr \<lparr>co_choices = [(Some ''ok '', ''stop'')], co_usage = None\<rparr>, (fst w + 1, snd w))),
     anthropic_create = (\<lambda>p w. (Inl index_error, (fst w + 1, snd w))),
     gemini_generate = (\<lambda>p w. (Inl index_error, (fst w + 1, snd w))),
     pause = (\<lambda>n w. (fst w, snd w + n))\<rparr>"

definition demo_config :: provider_config where
  "demo_config = \<lparr>pv_provider = ''openai'', pv_model = ''gpt-5.4'', pv_api_key = ''key'', pv_base_url = None, pv_temperature = 0,
     pv_max_tokens = 4096, pv_timeout = 60, pv_stream = False\<rparr>"

definition demo_chat :: provider_request where
  "demo_chat = \<lparr>cq_messages = [(''user'', ''hi'')], cq_temperature = 0, cq_max_tokens = None, cq_system_prompt = None\<rparr>"

theorem provider_calls_bounded_witness:
  "map_option (\<lambda>c. provider_chat flaky_sdks \<lparr>pi_class = c, pi_config = demo_config\<rparr> demo_chat (0, 0)) (map_of REGISTERED_PROVIDERS ''openai'') =
     Some (Inr (respond demo_config ''openai'' ''ok'' (0, 0, 0) ''stop''), (3, 3)) \<and>
   (\<exists>k < 3. fst (3::nat, 3::nat) = 0 + k + 1 \<and> snd (3::nat, 3::nat) + 1 = 0 + 2 ^ k)"
proof -
  let ?c = "\<lparr>pk_capability = openai_capability, pk_chat = openai_chat\<rparr> :: (nat \<times> nat) provider_class"
  have c: "map_of REGISTERED_PROVIDERS ''openai'' = Some ?c" by (simp add: REGISTERED_PROVIDERS_def)
  have run: "provider_chat flaky_sdks \<lparr>pi_class = ?c, pi_config = demo_config\<rparr> demo_chat (0, 0) =
      (Inr (respond demo_config ''openai'' ''ok'' (0, 0, 0) ''stop''), (3, 3))" by code_simp
  have "counts_sdks flaky_sdks fst snd" by (simp add: counts_sdks_def flaky_sdks_def)
  from provider_calls_bounded [OF c this run] show ?thesis
    using c run by (simp add: demo_config_def)
qed


end
