(* ===== verification/Model_Router.thy ===== *)
theory Model_Router
  imports Llm_Providers Query_Planner
begin

text \<open>
  Which model answers: the routing context that the planner fills
  (\<^verbatim>\<open>agent/query_planner.py\<close>), the capability policy and the router of \<^verbatim>\<open>llm/router/\<close>.

  The environment variables of \<^verbatim>\<open>config/llm.py\<close> are the record \<open>llm_env\<close>. The time that a decision took is
  an argument. Providers are asked for their capabilities by name, which raises a
  \<open>KeyError\<close> for a name that is not registered.
\<close>

datatype RoutingPriority = RP_COST | RP_SPEED | RP_QUALITY | RP_BALANCED

record routing_context =
  rc_task :: TaskType
  rc_priority :: RoutingPriority
  rc_image :: bool
  rc_audio :: bool
  rc_video :: bool
  rc_reasoning :: bool
  rc_tools :: bool
  rc_stream :: bool
  rc_json :: bool
  rc_tokens :: int
  rc_max_cost :: "rat option"
  rc_complexity :: "rat option"
  rc_preferred :: "string option"

definition RoutingContext :: "TaskType \<Rightarrow> routing_context" where
  "RoutingContext ty = \<lparr>rc_task = ty, rc_priority = RP_BALANCED, rc_image = False, rc_audio = False, rc_video = False, rc_reasoning = False,
     rc_tools = False, rc_stream = False, rc_json = False, rc_tokens = 0, rc_max_cost = None, rc_complexity = None, rc_preferred = None\<rparr>"

definition priority_for :: "TaskType \<Rightarrow> RoutingPriority" where
  "priority_for ty = (if ty \<in> {RESEARCH, FINANCIAL_ANALYSIS} then RP_QUALITY else RP_BALANCED)"

definition build_routing_context :: "task_result \<Rightarrow> complexity_result \<Rightarrow> routing_context" where
  "build_routing_context tr cr = (RoutingContext (tm_type (tk_task tr)))
     \<lparr>rc_priority := priority_for (tm_type (tk_task tr)), rc_tokens := tk_tokens tr, rc_complexity := Some (cm_score (cr_complexity cr))\<rparr>"

record routing_result =
  rr_provider :: string
  rr_model :: string
  rr_reason :: string
  rr_confidence :: rat
  rr_fallback :: "string option"
  rr_decision_ms :: "rat option"

subsection \<open>The capability policy\<close>

record capability_policy =
  po_default_provider :: string
  po_default_model :: string
  po_models :: "(string \<times> string) list"

definition DEFAULT_MODELS :: "llm_env \<Rightarrow> (string \<times> string) list" where
  "DEFAULT_MODELS ev = [(''deepseek'', DEEPSEEK_MODEL ev), (''gemini'', GEMINI_MODEL ev), (''openai'', OPENAI_MODEL ev),
     (''anthropic'', ANTHROPIC_MODEL ev), (''doubao'', DOUBAO_MODEL ev)]"

definition CapabilityRoutingPolicy :: "llm_env \<Rightarrow> string option \<Rightarrow> string option \<Rightarrow> (string \<times> string) list \<Rightarrow> capability_policy" where
  "CapabilityRoutingPolicy ev provider model models = \<lparr>po_default_provider = text_or provider (LLM_PROVIDER ev),
     po_default_model = text_or model (LLM_MODEL ev), po_models = (if models = [] then DEFAULT_MODELS ev else models)\<rparr>"

definition dict_get :: "(string \<times> string) list \<Rightarrow> string \<Rightarrow> string \<Rightarrow> string" where
  "dict_get d k v = (case map_of d k of Some x \<Rightarrow> x | None \<Rightarrow> v)"

definition result_for :: "capability_policy \<Rightarrow> string \<Rightarrow> string \<Rightarrow> rat \<Rightarrow> routing_result" where
  "result_for po name reason conf = \<lparr>rr_provider = name, rr_model = dict_get (po_models po) name (po_default_model po),
     rr_reason = reason, rr_confidence = conf,
     rr_fallback = (if name \<noteq> po_default_provider po then Some (po_default_provider po) else None), rr_decision_ms = None\<rparr>"

definition get_capability :: "'w provider_registry \<Rightarrow> capability_policy \<Rightarrow> string \<Rightarrow> exn + provider_capability" where
  "get_capability reg po name = (case map_of reg name of
      Some c \<Rightarrow> Inr (pk_capability c (dict_get (po_models po) name ''default''))
    | None \<Rightarrow> Inl (Exn ''KeyError'' (quoted name)))"

definition capability_checks :: "routing_context \<Rightarrow> provider_capability \<Rightarrow> (bool \<times> bool \<times> string) list" where
  "capability_checks ctx cap =
     [(rc_image ctx, supports_image cap, ''image''), (rc_audio ctx, supports_audio cap, ''audio''),
      (rc_video ctx, supports_video cap, ''video''), (rc_reasoning ctx, supports_reasoning_effort cap, ''reasoning''),
      (rc_tools ctx, supports_tools cap, ''tools''), (rc_stream ctx, supports_stream cap, ''stream''),
      (rc_json ctx, supports_json_mode cap, ''json'')]"

definition match_capability :: "capability_policy \<Rightarrow> routing_context \<Rightarrow> provider_capability \<Rightarrow> string \<Rightarrow> string \<times> rat" where
  "match_capability po ctx cap name =
     (let needed = filter fst (capability_checks ctx cap);
          found = filter (\<lambda>c. fst (snd c)) needed
      in if needed = [] then
           (if rc_task ctx = CHAT \<and> name = po_default_provider po then (''Default chat provider'', 85 / 100)
            else (''General purpose'', 1 / 2))
         else if length found \<noteq> length needed then (''No capability match'', 0)
         else (''Supports: '' @ join '', '' (map (snd \<circ> snd) found), 1))"

text \<open>The best provider so far: a name, its reason and its confidence, replaced only by a higher confidence.\<close>

fun best_provider :: "'w provider_registry \<Rightarrow> capability_policy \<Rightarrow> routing_context \<Rightarrow> string list \<Rightarrow> string option \<times> string \<times> rat
    \<Rightarrow> exn + string option \<times> string \<times> rat" where
  "best_provider reg po ctx [] best = Inr best"
| "best_provider reg po ctx (name # names) best =
     try_then (get_capability reg po name) (\<lambda>cap.
       let (reason, conf) = match_capability po ctx cap name in
       best_provider reg po ctx names (if conf > snd (snd best) then (Some name, reason, conf) else best))"

definition route_by_capability :: "'w provider_registry \<Rightarrow> capability_policy \<Rightarrow> routing_context \<Rightarrow> string list \<Rightarrow> exn + routing_result option" where
  "route_by_capability reg po ctx names = try_then (best_provider reg po ctx names (None, [], 0)) (\<lambda>(name, reason, conf).
     Inr (case name of
        Some n \<Rightarrow> if n \<noteq> [] \<and> conf > 0 then Some (result_for po n reason conf) else None
      | None \<Rightarrow> None))"

definition policy_select :: "'w provider_registry \<Rightarrow> capability_policy \<Rightarrow> routing_context \<Rightarrow> string list \<Rightarrow> exn + routing_result" where
  "policy_select reg po ctx names = (case text_or (rc_preferred ctx) [] of
      p # ps \<Rightarrow> Inr (result_for po (p # ps) ''Preferred provider'' 1)
    | [] \<Rightarrow> try_then (route_by_capability reg po ctx names) (\<lambda>found. Inr (case found of
          Some r \<Rightarrow> r
        | None \<Rightarrow> result_for po (po_default_provider po) ''Default provider'' (7 / 10))))"

subsection \<open>The router\<close>

record model_router =
  mr_policy :: capability_policy
  mr_configs :: "(string \<times> (string \<times> string) list) list"
  mr_available :: "string list option"

definition PROVIDER_CONFIG_OVERRIDES :: "llm_env \<Rightarrow> (string \<times> (string \<times> string) list) list" where
  "PROVIDER_CONFIG_OVERRIDES ev =
     [(''deepseek'', [(''api_key'', DEEPSEEK_API_KEY ev), (''base_url'', DEEPSEEK_BASE_URL ev)]),
      (''gemini'', [(''api_key'', GEMINI_API_KEY ev)]),
      (''openai'', [(''api_key'', OPENAI_API_KEY ev), (''base_url'', OPENAI_BASE_URL ev)]),
      (''anthropic'', [(''api_key'', ANTHROPIC_API_KEY ev), (''base_url'', ANTHROPIC_BASE_URL ev)]),
      (''doubao'', [(''api_key'', DOUBAO_API_KEY ev), (''base_url'', DOUBAO_BASE_URL ev)])]"

definition ModelRouter :: "llm_env \<Rightarrow> capability_policy \<Rightarrow> (string \<times> (string \<times> string) list) list \<Rightarrow> string list option \<Rightarrow> model_router" where
  "ModelRouter ev po configs available = \<lparr>mr_policy = po,
     mr_configs = (if configs = [] then PROVIDER_CONFIG_OVERRIDES ev else configs), mr_available = available\<rparr>"

definition router_config :: "llm_env \<Rightarrow> model_router \<Rightarrow> routing_result \<Rightarrow> provider_config" where
  "router_config ev rt r =
     (let overrides = (case map_of (mr_configs rt) (rr_provider r) of Some d \<Rightarrow> d | None \<Rightarrow> []) in
      \<lparr>pv_provider = rr_provider r, pv_model = rr_model r, pv_api_key = dict_get overrides ''api_key'' (LLM_API_KEY ev),
       pv_base_url = Some (dict_get overrides ''base_url'' (LLM_BASE_URL ev)), pv_temperature = LLM_TEMPERATURE ev,
       pv_max_tokens = LLM_MAX_TOKENS ev, pv_timeout = LLM_TIMEOUT ev, pv_stream = LLM_STREAM ev\<rparr>)"

definition usable_providers :: "'w provider_registry \<Rightarrow> model_router \<Rightarrow> string list" where
  "usable_providers reg rt = (case mr_available rt of
      Some av \<Rightarrow> filter (\<lambda>p. p \<in> set av) (map fst reg)
    | None \<Rightarrow> map fst reg)"

definition route :: "llm_env \<Rightarrow> 'w provider_registry \<Rightarrow> rat \<Rightarrow> model_router \<Rightarrow> routing_context \<Rightarrow> exn + 'w provider_instance \<times> routing_result" where
  "route ev reg ms rt ctx =
     (if usable_providers reg rt = [] then Inl (Exn ''ValueError'' ''No configured LLM provider is available'')
      else try_then (policy_select reg (mr_policy rt) ctx (usable_providers reg rt)) (\<lambda>r.
        let r1 = r\<lparr>rr_decision_ms := Some ms\<rparr> in
        try_then (factory_create reg (router_config ev rt r1)) (\<lambda>p. Inr (p, r1))))"

subsection \<open>What the planner's contexts get\<close>

text \<open>The provider of a question: the default one for chat, when it is usable, else the first usable one.\<close>

definition routed_name :: "capability_policy \<Rightarrow> TaskType \<Rightarrow> string list \<Rightarrow> string" where
  "routed_name po ty names = (if ty = CHAT \<and> po_default_provider po \<in> set names then po_default_provider po else hd names)"

lemma plain_context:
  assumes "ctx = build_routing_context tr cr"
  shows "rc_preferred ctx = None" "rc_task ctx = tm_type (tk_task tr)"
    "match_capability po ctx cap name = (if tm_type (tk_task tr) = CHAT \<and> name = po_default_provider po
       then (''Default chat provider'', 85 / 100) else (''General purpose'', 1 / 2))"
  using assms by (simp_all add: build_routing_context_def RoutingContext_def match_capability_def capability_checks_def)

lemma best_provider_settled:
  assumes "set names \<subseteq> set (map fst reg)" "ctx = build_routing_context tr cr" "1 / 2 \<le> conf"
    and "tm_type (tk_task tr) = CHAT \<longrightarrow> conf = 85 / 100 \<or> po_default_provider po \<notin> set names"
  shows "best_provider reg po ctx names (best, reason, conf) = Inr (best, reason, conf)"
  using assms(1,3,4)
proof (induction names)
  case (Cons n ns)
  then obtain c where "map_of reg n = Some c" by (metis list.set_intros(1) map_of_eq_None_iff not_None_eq set_map subset_code(1))
  then show ?case using Cons by (auto simp: get_capability_def plain_context(3) [OF assms(2)])
qed simp

lemma best_provider_chat:
  assumes "set names \<subseteq> set (map fst reg)" "ctx = build_routing_context tr cr" "tm_type (tk_task tr) = CHAT"
    and "po_default_provider po \<in> set names" "conf < 85 / 100"
  shows "best_provider reg po ctx names (best, reason, conf) = Inr (Some (po_default_provider po), ''Default chat provider'', 85 / 100)"
  using assms(1,4,5)
proof (induction names arbitrary: best reason conf)
  case (Cons n ns)
  then obtain c where c: "map_of reg n = Some c" by (metis list.set_intros(1) map_of_eq_None_iff not_None_eq set_map subset_code(1))
  show ?case
  proof (cases "n = po_default_provider po")
    case True
    then show ?thesis
      using c Cons.prems best_provider_settled [of ns reg ctx tr cr "85 / 100" po "Some n" "''Default chat provider''"] assms(2,3)
      by (simp add: get_capability_def plain_context(3) [OF refl])
  next
    case False
    then show ?thesis
      using c Cons.prems Cons.IH [of "1 / 2" "Some n" "''General purpose''"] Cons.IH [of conf best reason] assms(3)
      by (auto simp: get_capability_def plain_context(3) [OF assms(2)])
  qed
qed simp

lemma best_provider_plain:
  assumes "set names \<subseteq> set (map fst reg)" "ctx = build_routing_context tr cr" "names \<noteq> []"
  shows "\<exists>reason conf. best_provider reg po ctx names (None, [], 0) =
    Inr (Some (routed_name po (tm_type (tk_task tr)) names), reason, conf) \<and> conf > 0"
proof (cases "tm_type (tk_task tr) = CHAT \<and> po_default_provider po \<in> set names")
  case True
  then show ?thesis
    using best_provider_chat [OF assms(1,2), of po 0 None "[]"]
    by (intro exI [of _ "''Default chat provider''"] exI [of _ "85 / 100"]) (simp add: routed_name_def)
next
  case False
  obtain n ns where names: "names = n # ns" using assms(3) by (cases names) auto
  then obtain c where "map_of reg n = Some c"
    using assms(1) by (metis list.set_intros(1) map_of_eq_None_iff not_None_eq set_map subset_code(1))
  then have "best_provider reg po ctx names (None, [], 0) = Inr (Some n, ''General purpose'', 1 / 2)"
    using False names assms(1) best_provider_settled [of ns reg ctx tr cr "1 / 2" po "Some n" "''General purpose''"] assms(2)
    by (auto simp: get_capability_def plain_context(3) [OF refl])
  then show ?thesis
    using False names by (intro exI [of _ "''General purpose''"] exI [of _ "1 / 2"]) (auto simp: routed_name_def)
qed

lemma route_plain:
  assumes "[] \<notin> set (map fst reg)" "names = usable_providers reg rt" "name = routed_name (mr_policy rt) (tm_type (tk_task tr)) names"
    "names \<noteq> []"
  obtains r c where "route ev reg ms rt (build_routing_context tr cr) = Inr (\<lparr>pi_class = c, pi_config = router_config ev rt r\<rparr>, r)"
    "name \<in> set names" "map_of reg name = Some c" "rr_provider r = name"
    "rr_model r = dict_get (po_models (mr_policy rt)) name (po_default_model (mr_policy rt))"
proof -
  let ?ctx = "build_routing_context tr cr"
  have sub: "set names \<subseteq> set (map fst reg)"
    by (auto simp: assms(2) usable_providers_def split: option.splits)
  obtain reason conf where best: "best_provider reg (mr_policy rt) ?ctx names (None, [], 0) = Inr (Some name, reason, conf)" "conf > 0"
    using best_provider_plain [OF sub refl assms(4)] unfolding assms(3) by blast
  have mem: "name \<in> set names" using assms(4) by (simp add: assms(3) routed_name_def)
  then obtain c where c: "map_of reg name = Some c" using sub by (metis map_of_eq_None_iff not_None_eq set_map subsetD)
  have reg_name: "name \<in> set (map fst reg)" using mem sub by blast
  have "name \<noteq> []"
  proof
    assume "name = []"
    with reg_name assms(1) show False by simp
  qed
  then have sel: "policy_select reg (mr_policy rt) ?ctx names = Inr (result_for (mr_policy rt) name reason conf)"
    using best by (simp add: policy_select_def plain_context(1) [OF refl] text_or_def route_by_capability_def)
  let ?r = "(result_for (mr_policy rt) name reason conf)\<lparr>rr_decision_ms := Some ms\<rparr>"
  have "route ev reg ms rt ?ctx = Inr (\<lparr>pi_class = c, pi_config = router_config ev rt ?r\<rparr>, ?r)"
    using assms(4) sel c by (simp add: route_def assms(2) factory_create_def router_config_def result_for_def Let_def)
  then show thesis by (rule that) (use mem c in \<open>simp_all add: result_for_def\<close>)
qed

text \<open>
  C37. Where a question goes. With any registry of distinct non-empty names, any policy, any set of configured
  providers and any question the planner has analysed: routing fails exactly when no registered provider is
  configured; otherwise the model instance belongs to a configured provider, with
  that provider's model, key and address. Which one it is depends on chat alone: a chat goes to the
  default provider when it is configured, and every other question goes to the first
  registered provider that is configured, whatever the default, its priority and its complexity.
\<close>

theorem routing_decision:
  assumes "[] \<notin> set (map fst reg)" "names = usable_providers reg rt" "name = routed_name (mr_policy rt) (tm_type (tk_task tr)) names"
  shows "if names = [] then route ev reg ms rt (build_routing_context tr cr) =
      Inl (Exn ''ValueError'' ''No configured LLM provider is available'')
    else \<exists>p r. route ev reg ms rt (build_routing_context tr cr) = Inr (p, r) \<and> name \<in> set names \<and>
      map_of reg name = Some (pi_class p) \<and> rr_provider r = name \<and> pv_provider (pi_config p) = name \<and>
      pv_model (pi_config p) = dict_get (po_models (mr_policy rt)) name (po_default_model (mr_policy rt)) \<and>
      pv_api_key (pi_config p) = dict_get (case map_of (mr_configs rt) name of Some d \<Rightarrow> d | None \<Rightarrow> []) ''api_key'' (LLM_API_KEY ev) \<and>
      pv_base_url (pi_config p) = Some (dict_get (case map_of (mr_configs rt) name of Some d \<Rightarrow> d | None \<Rightarrow> []) ''base_url'' (LLM_BASE_URL ev))"
proof (cases "names = []")
  case False
  show ?thesis
    by (rule route_plain [OF assms False, of ev ms cr]) (use False in \<open>simp add: router_config_def Let_def\<close>)
qed (simp add: route_def assms(2))

text \<open>A user with two providers and the second one as default: a document question does not go to the default.\<close>

definition demo_llm_env :: llm_env where
  "demo_llm_env = \<lparr>LLM_PROVIDER = ''deepseek'', LLM_MODEL = ''deepseek-v4-flash'', LLM_API_KEY = ''server'',
     LLM_BASE_URL = ''https://api.deepseek.com'', LLM_TEMPERATURE = 0, LLM_MAX_TOKENS = 4096, LLM_TIMEOUT = 60, LLM_STREAM = False,
     DEEPSEEK_API_KEY = [], DEEPSEEK_MODEL = ''deepseek-v4-flash'', DEEPSEEK_BASE_URL = ''https://api.deepseek.com'',
     GEMINI_API_KEY = [], GEMINI_MODEL = ''gemini-3.6-flash'', OPENAI_API_KEY = [], OPENAI_MODEL = ''gpt-5.5'',
     OPENAI_BASE_URL = ''https://api.openai.com/v1'', ANTHROPIC_API_KEY = [], ANTHROPIC_MODEL = ''claude-fable-5'',
     ANTHROPIC_BASE_URL = ''https://api.anthropic.com'', DOUBAO_API_KEY = [], DOUBAO_MODEL = ''doubao-seed-2-0-pro-260215'',
     DOUBAO_BASE_URL = doubao_default_url\<rparr>"

definition user_router :: model_router where
  "user_router = ModelRouter demo_llm_env
     (CapabilityRoutingPolicy demo_llm_env (Some ''openai'') None [(''deepseek'', ''deepseek-v4-pro''), (''openai'', ''gpt-5.4'')])
     [(''deepseek'', [(''api_key'', ''ds-key'')]), (''openai'', [(''api_key'', ''oa-key'')])] (Some [''deepseek'', ''openai''])"

definition demo_task :: task_result where
  "demo_task = \<lparr>tk_task = \<lparr>tm_type = DOCUMENT_QA, tm_confidence = 1 / 2, tm_complexity = LOW\<rparr>, tk_reason = [], tk_entities = [], tk_tokens = 128\<rparr>"

theorem routing_decision_witness:
  "\<exists>p r. route demo_llm_env (REGISTERED_PROVIDERS :: unit provider_registry) 0 user_router
       (build_routing_context demo_task (complexity_analyze plain_lang demo_task)) = Inr (p, r) \<and>
     po_default_provider (mr_policy user_router) = ''openai'' \<and> rr_provider r = ''deepseek'' \<and>
     pv_api_key (pi_config p) = ''ds-key'' \<and> pv_model (pi_config p) = ''deepseek-v4-pro''"
proof -
  let ?reg = "REGISTERED_PROVIDERS :: unit provider_registry"
  have names: "usable_providers ?reg user_router = [''deepseek'', ''openai'']"
    by (simp add: usable_providers_def user_router_def ModelRouter_def REGISTERED_PROVIDERS_def)
  have name: "routed_name (mr_policy user_router) (tm_type (tk_task demo_task)) [''deepseek'', ''openai''] = ''deepseek''"
    by (simp add: routed_name_def demo_task_def)
  have "[] \<notin> set (map fst ?reg)" by (simp add: REGISTERED_PROVIDERS_def)
  from routing_decision [OF this names [symmetric] name [symmetric], of demo_llm_env 0 "complexity_analyze plain_lang demo_task"]
  show ?thesis
    by (auto simp: user_router_def ModelRouter_def CapabilityRoutingPolicy_def dict_get_def text_or_def)
qed


end
