(* ===== verification/Llm_Settings.thy ===== *)
theory Llm_Settings
  imports Model_Router
begin

text \<open>
  The providers a user has configured: \<^verbatim>\<open>services/llm_settings_service.py\<close>, its table
  \<^verbatim>\<open>models/llm_provider_setting.py\<close>, the routes of \<^verbatim>\<open>api/routers/settings.py\<close> and the request-scoped router of
  \<^verbatim>\<open>core/core_engine.py\<close>.

  The cipher (Fernet under keys derived by SHA-256) is an argument: a function from the
  configured secrets to encryption, which takes a nonce, and decryption, which may fail. The law that
  decryption undoes encryption is the hypothesis \<open>sound_cipher\<close>. Time, row revisions and the digest
  of the revision records are arguments. A row update reaches the database at the commit at the end of
  each operation; an exception before it leaves the table as it was.
\<close>

subsection \<open>Supported providers\<close>

record provider_definition =
  df_display :: utext
  df_default_model :: string
  df_base_url :: "string option"
  df_models :: "string list"

definition SUPPORTED_LLM_PROVIDERS :: "llm_env \<Rightarrow> (string \<times> provider_definition) list" where
  "SUPPORTED_LLM_PROVIDERS ev =
     [(''deepseek'', \<lparr>df_display = cps ''DeepSeek'', df_default_model = DEEPSEEK_MODEL ev, df_base_url = Some (DEEPSEEK_BASE_URL ev),
         df_models = [''deepseek-v4-flash'', ''deepseek-v4-pro'']\<rparr>),
      (''gemini'', \<lparr>df_display = cps ''Google Gemini'', df_default_model = GEMINI_MODEL ev, df_base_url = None,
         df_models = [''gemini-3.6-flash'', ''gemini-3.5-flash'', ''gemini-3.5-flash-lite'', ''gemini-3.1-flash-lite'']\<rparr>),
      (''openai'', \<lparr>df_display = cps ''OpenAI / ChatGPT'', df_default_model = OPENAI_MODEL ev, df_base_url = Some (OPENAI_BASE_URL ev),
         df_models = [''gpt-5.5'', ''gpt-5.4'', ''gpt-5.4-mini'', ''gpt-5.4-nano'']\<rparr>),
      (''anthropic'', \<lparr>df_display = cps ''Anthropic Claude'', df_default_model = ANTHROPIC_MODEL ev,
         df_base_url = Some (ANTHROPIC_BASE_URL ev),
         df_models = [''claude-fable-5'', ''claude-opus-4-8'', ''claude-sonnet-5'', ''claude-haiku-4-5-20251001'']\<rparr>),
      (''doubao'', \<lparr>df_display = [35910, 21253, 65288, 28779, 23665, 26041, 33311, 65289], df_default_model = DOUBAO_MODEL ev,
         df_base_url = Some (DOUBAO_BASE_URL ev),
         df_models = [''doubao-seed-2-0-pro-260215'', ''doubao-seed-2-0-lite-260215'', ''doubao-seed-2-0-mini-260215'']\<rparr>)]"

subsection \<open>Credentials\<close>

definition CredentialEncryptionError :: "string \<Rightarrow> exn" where
  "CredentialEncryptionError = Exn ''CredentialEncryptionError''"

record cipher =
  cy_encrypt :: "nat \<Rightarrow> string \<Rightarrow> string"
  cy_decrypt :: "string \<Rightarrow> string option"

text \<open>What reading the key file gives, and what creating it gives when it is missing.\<close>

datatype key_file = KeyText string | KeyMissing | KeyUnreadable

datatype key_creation = KeyCreated | KeyExists string | KeyNotCreated string

definition load_or_create_key_file :: "key_file \<Rightarrow> key_creation \<Rightarrow> string \<Rightarrow> exn + string" where
  "load_or_create_key_file rd cr generated =
     try_then (case rd of
        KeyText t \<Rightarrow> Inr (strip t)
      | KeyMissing \<Rightarrow> (case cr of
            KeyCreated \<Rightarrow> Inr generated
          | KeyExists t \<Rightarrow> Inr (strip t)
          | KeyNotCreated m \<Rightarrow> Inl (Exn ''OSError'' m))
      | KeyUnreadable \<Rightarrow> Inl (CredentialEncryptionError ''LLM credential encryption key file is unavailable''))
     (\<lambda>v. if length v < 32 then Inl (CredentialEncryptionError ''LLM credential encryption key material is invalid'') else Inr v)"

definition configured_keys :: "string \<Rightarrow> string list" where
  "configured_keys env = filter (\<lambda>k. k \<noteq> []) (map strip (split_commas [] env))"

definition fernet :: "(string list \<Rightarrow> cipher) \<Rightarrow> string \<Rightarrow> string \<Rightarrow> (exn + string) \<Rightarrow> exn + cipher" where
  "fernet multi env file loaded =
     (if configured_keys env \<noteq> [] then Inr (multi (configured_keys env))
      else if strip file \<noteq> [] then try_then loaded (\<lambda>k. Inr (multi [k]))
      else Inl (CredentialEncryptionError ''LLM credential encryption is not configured on the backend''))"

definition encrypt_api_key :: "exn + cipher \<Rightarrow> nat \<Rightarrow> string \<Rightarrow> exn + string" where
  "encrypt_api_key f nonce key = try_then f (\<lambda>c. Inr (cy_encrypt c nonce key))"

definition decrypt_api_key :: "exn + cipher \<Rightarrow> string \<Rightarrow> exn + string" where
  "decrypt_api_key f token = try_then f (\<lambda>c. case cy_decrypt c token of
      Some key \<Rightarrow> Inr key
    | None \<Rightarrow> Inl (CredentialEncryptionError ''Stored LLM credential could not be decrypted''))"

subsection \<open>The table\<close>

record llm_setting =
  st_id :: int
  st_tenant :: int
  st_user :: int
  st_provider :: string
  st_key :: string
  st_hint :: string
  st_model :: string
  st_default :: bool
  st_revision :: string
  st_updated :: int

record settings_db =
  sd_rows :: "llm_setting list"
  sd_next :: int

text \<open>Who asks, and what the operation is stamped with.\<close>

record principal =
  pr_tenant :: int
  pr_user :: int

record stamp =
  sp_nonce :: nat
  sp_revision :: string
  sp_time :: int

definition owned :: "principal \<Rightarrow> llm_setting \<Rightarrow> bool" where
  "owned pr s \<longleftrightarrow> st_tenant s = pr_tenant pr \<and> st_user s = pr_user pr"

definition setting_query :: "principal \<Rightarrow> settings_db \<Rightarrow> llm_setting list" where
  "setting_query pr db = filter (owned pr) (sd_rows db)"

definition get_provider_setting :: "principal \<Rightarrow> string \<Rightarrow> settings_db \<Rightarrow> llm_setting option" where
  "get_provider_setting pr provider db = find (\<lambda>s. st_provider s = provider) (setting_query pr db)"

definition list_provider_settings :: "principal \<Rightarrow> settings_db \<Rightarrow> llm_setting list" where
  "list_provider_settings pr db = sort_key st_provider (setting_query pr db)"

definition update_row :: "int \<Rightarrow> (llm_setting \<Rightarrow> llm_setting) \<Rightarrow> settings_db \<Rightarrow> settings_db" where
  "update_row i f db = db\<lparr>sd_rows := map (\<lambda>s. if st_id s = i then f s else s) (sd_rows db)\<rparr>"

definition touch :: "stamp \<Rightarrow> llm_setting \<Rightarrow> llm_setting" where
  "touch sp s = s\<lparr>st_revision := sp_revision sp, st_updated := sp_time sp\<rparr>"

definition last_four :: "string \<Rightarrow> string" where
  "last_four k = drop (length k - 4) k"

definition settings_error :: "string \<Rightarrow> exn" where
  "settings_error m = Exn ''ValueError'' m"

definition check_key :: "string option \<Rightarrow> llm_setting option \<Rightarrow> string option \<Rightarrow> exn + unit" where
  "check_key key setting model = (case key of
      Some k \<Rightarrow> if k = [] then Inl (settings_error ''API key cannot be blank'')
               else if \<not> (8 \<le> length k \<and> length k \<le> 4096) then Inl (settings_error ''API key must contain between 8 and 4096 characters'')
               else Inr ()
    | None \<Rightarrow> if setting = None then Inl (settings_error ''API key is required when configuring a provider'')
             else if model = None then Inl (settings_error ''API key or model must be provided'')
             else Inr ())"

definition new_setting :: "principal \<Rightarrow> string \<Rightarrow> stamp \<Rightarrow> string \<Rightarrow> string \<Rightarrow> string \<Rightarrow> settings_db \<Rightarrow> llm_setting" where
  "new_setting pr provider sp token key model db = \<lparr>st_id = sd_next db, st_tenant = pr_tenant pr, st_user = pr_user pr,
     st_provider = provider, st_key = token, st_hint = last_four key, st_model = model, st_default = (setting_query pr db = []),
     st_revision = sp_revision sp, st_updated = sp_time sp\<rparr>"

definition selected_model :: "string option \<Rightarrow> llm_setting option \<Rightarrow> provider_definition \<Rightarrow> string" where
  "selected_model model setting df = text_or model (case setting of Some s \<Rightarrow> st_model s | None \<Rightarrow> df_default_model df)"

text \<open>
  All that can fail in an upsert happens before it writes: the checks, and the encryption of a given key.
  They give the row that exists, the token with its key, and the model.
\<close>

definition upsert_checks :: "llm_env \<Rightarrow> exn + cipher \<Rightarrow> stamp \<Rightarrow> principal \<Rightarrow> string \<Rightarrow> string option \<Rightarrow> string option
    \<Rightarrow> settings_db \<Rightarrow> exn + llm_setting option \<times> (string \<times> string) option \<times> string" where
  "upsert_checks ev f sp pr provider api_key model db =
     (case map_of (SUPPORTED_LLM_PROVIDERS ev) provider of
        None \<Rightarrow> Inl (Exn ''KeyError'' (quoted provider))
      | Some df \<Rightarrow>
          (let setting = get_provider_setting pr provider db;
               key = map_option strip api_key;
               selected = selected_model model setting df
           in try_then (check_key key setting model) (\<lambda>_.
                if selected \<notin> set (df_models df) then Inl (settings_error ''Unsupported model for LLM provider'')
                else try_then (case key of
                    Some k \<Rightarrow> try_then (encrypt_api_key f (sp_nonce sp) k) (\<lambda>token. Inr (Some (token, k)))
                  | None \<Rightarrow> Inr None) (\<lambda>tk. Inr (setting, tk, selected)))))"

text \<open>The row of the provider revised: a new key, if one is given, and the selected model.\<close>

definition revise :: "stamp \<Rightarrow> (string \<times> string) option \<Rightarrow> string \<Rightarrow> llm_setting \<Rightarrow> llm_setting" where
  "revise sp tk model s = touch sp ((case tk of Some (token, k) \<Rightarrow> s\<lparr>st_key := token, st_hint := last_four k\<rparr> | None \<Rightarrow> s)\<lparr>st_model := model\<rparr>)"

definition upsert_provider_setting :: "llm_env \<Rightarrow> exn + cipher \<Rightarrow> stamp \<Rightarrow> principal \<Rightarrow> string \<Rightarrow> string option \<Rightarrow> string option
    \<Rightarrow> settings_db \<Rightarrow> (exn + llm_setting) \<times> settings_db" where
  "upsert_provider_setting ev f sp pr provider api_key model db =
     (case upsert_checks ev f sp pr provider api_key model db of
        Inl e \<Rightarrow> (Inl e, db)
      | Inr (Some s, tk, selected) \<Rightarrow> (Inr (revise sp tk selected s), update_row (st_id s) (revise sp tk selected) db)
      | Inr (None, Some (token, k), selected) \<Rightarrow>
          (let s = new_setting pr provider sp token k selected db
           in (Inr s, \<lparr>sd_rows = sd_rows db @ [s], sd_next = sd_next db + 1\<rparr>))
      | Inr (None, None, selected) \<Rightarrow> (Inl (Exn ''AssertionError'' []), db))"

definition preferred_setting :: "llm_env \<Rightarrow> llm_setting list \<Rightarrow> llm_setting option" where
  "preferred_setting ev ss = (case ss of
      [] \<Rightarrow> None
    | s # _ \<Rightarrow> (case find (\<lambda>s. st_provider s = LLM_PROVIDER ev) ss of Some p \<Rightarrow> Some p | None \<Rightarrow> Some s))"

definition make_default :: "stamp \<Rightarrow> llm_setting \<Rightarrow> llm_setting" where
  "make_default sp s = touch sp (s\<lparr>st_default := True\<rparr>)"

definition delete_provider_setting :: "llm_env \<Rightarrow> stamp \<Rightarrow> principal \<Rightarrow> string \<Rightarrow> settings_db \<Rightarrow> bool \<times> settings_db" where
  "delete_provider_setting ev sp pr provider db = (case get_provider_setting pr provider db of
      None \<Rightarrow> (False, db)
    | Some s \<Rightarrow>
        (let db1 = db\<lparr>sd_rows := filter (\<lambda>r. st_id r \<noteq> st_id s) (sd_rows db)\<rparr> in
         if st_default s then (case preferred_setting ev (list_provider_settings pr db1) of
             Some r \<Rightarrow> (True, update_row (st_id r) (make_default sp) db1)
           | None \<Rightarrow> (True, db1))
         else (True, db1)))"

definition clear_default :: "principal \<Rightarrow> llm_setting \<Rightarrow> llm_setting" where
  "clear_default pr s = (if owned pr s \<and> st_default s then s\<lparr>st_default := False\<rparr> else s)"

definition set_default_provider :: "stamp \<Rightarrow> principal \<Rightarrow> string \<Rightarrow> settings_db \<Rightarrow> (exn + llm_setting) \<times> settings_db" where
  "set_default_provider sp pr provider db = (case get_provider_setting pr provider db of
      None \<Rightarrow> (Inl (settings_error ''LLM provider must be configured before it can be selected''), db)
    | Some s \<Rightarrow>
        (let db1 = db\<lparr>sd_rows := map (clear_default pr) (sd_rows db)\<rparr>
         in (Inr (make_default sp s), update_row (st_id s) (make_default sp) db1)))"

subsection \<open>Settings of a request\<close>

record runtime_settings =
  rs_configs :: "(string \<times> (string \<times> string) list) list"
  rs_models :: "(string \<times> string) list"
  rs_default :: "string option"
  rs_revision :: string

type_synonym revision_record = "int \<times> string \<times> string \<times> string \<times> bool \<times> int"

record settings_acc =
  ac_configs :: "(string \<times> (string \<times> string) list) list"
  ac_models :: "(string \<times> string) list"
  ac_default :: "string option"
  ac_records :: "revision_record list"

definition load_setting :: "llm_env \<Rightarrow> exn + cipher \<Rightarrow> llm_setting \<Rightarrow> settings_acc \<Rightarrow> exn + settings_acc" where
  "load_setting ev f s acc = (case map_of (SUPPORTED_LLM_PROVIDERS ev) (st_provider s) of
      None \<Rightarrow> Inr acc
    | Some df \<Rightarrow> try_then (decrypt_api_key f (st_key s)) (\<lambda>key. Inr
        \<lparr>ac_configs = AList.update (st_provider s)
           ((''api_key'', key) # (case df_base_url df of Some u \<Rightarrow> if u = [] then [] else [(''base_url'', u)] | None \<Rightarrow> [])) (ac_configs acc),
         ac_models = AList.update (st_provider s) (st_model s) (ac_models acc),
         ac_default = (if st_default s \<and> ac_default acc = None then Some (st_provider s) else ac_default acc),
         ac_records = ac_records acc @ [(st_id s, st_provider s, st_model s, st_revision s, st_default s, st_updated s)]\<rparr>))"

fun load_settings :: "llm_env \<Rightarrow> exn + cipher \<Rightarrow> llm_setting list \<Rightarrow> settings_acc \<Rightarrow> exn + settings_acc" where
  "load_settings ev f [] acc = Inr acc"
| "load_settings ev f (s # ss) acc = try_then (load_setting ev f s acc) (load_settings ev f ss)"

definition get_runtime_llm_settings :: "llm_env \<Rightarrow> exn + cipher \<Rightarrow> (revision_record list \<Rightarrow> string) \<Rightarrow> principal \<Rightarrow> settings_db
    \<Rightarrow> exn + runtime_settings" where
  "get_runtime_llm_settings ev f digest pr db =
     try_then (load_settings ev f (list_provider_settings pr db) \<lparr>ac_configs = [], ac_models = [], ac_default = None, ac_records = []\<rparr>) (\<lambda>acc.
       Inr \<lparr>rs_configs = ac_configs acc, rs_models = ac_models acc,
          rs_default = (case ac_default acc of
              Some d \<Rightarrow> Some d
            | None \<Rightarrow> if LLM_PROVIDER ev \<in> set (map fst (ac_configs acc)) then Some (LLM_PROVIDER ev)
                     else (case ac_configs acc of (p, _) # _ \<Rightarrow> Some p | [] \<Rightarrow> None)),
          rs_revision = digest (ac_records acc)\<rparr>)"

text \<open>\<open>_get_request_runtime\<close>: the router of the server, or one of the user's own providers.\<close>

definition server_router :: "llm_env \<Rightarrow> model_router" where
  "server_router ev = ModelRouter ev (CapabilityRoutingPolicy ev None None []) [] None"

definition request_router :: "llm_env \<Rightarrow> runtime_settings option \<Rightarrow> model_router" where
  "request_router ev settings = (case settings of
      None \<Rightarrow> server_router ev
    | Some rs \<Rightarrow> if rs_configs rs = [] then server_router ev
        else ModelRouter ev (CapabilityRoutingPolicy ev (rs_default rs) None (rs_models rs)) (rs_configs rs) (Some (map fst (rs_configs rs))))"

subsection \<open>Routes\<close>

record provider_view =
  vw_provider :: string
  vw_display :: utext
  vw_models :: "string list"
  vw_configured :: bool
  vw_is_default :: bool
  vw_key_hint :: "utext option"
  vw_model :: string
  vw_updated :: "int option"

definition provider_definition_of :: "llm_env \<Rightarrow> string \<Rightarrow> (int \<times> string) + provider_definition" where
  "provider_definition_of ev provider = (case map_of (SUPPORTED_LLM_PROVIDERS ev) (normal provider) of
      Some df \<Rightarrow> Inr df
    | None \<Rightarrow> Inl (404, ''Unsupported LLM provider''))"

definition serialize_provider :: "llm_env \<Rightarrow> string \<Rightarrow> llm_setting option \<Rightarrow> (int \<times> string) + provider_view" where
  "serialize_provider ev provider setting = try_then (provider_definition_of ev provider) (\<lambda>df. Inr
     \<lparr>vw_provider = provider, vw_display = df_display df, vw_models = df_models df, vw_configured = (setting \<noteq> None),
      vw_is_default = (case setting of Some s \<Rightarrow> st_default s | None \<Rightarrow> False),
      vw_key_hint = map_option (\<lambda>s. [8226, 8226, 8226, 8226] @ cps (st_hint s)) setting,
      vw_model = (case setting of Some s \<Rightarrow> st_model s | None \<Rightarrow> df_default_model df), vw_updated = map_option st_updated setting\<rparr>)"

definition serialize_settings :: "llm_env \<Rightarrow> principal \<Rightarrow> settings_db \<Rightarrow> (int \<times> string) + provider_view list \<times> string option" where
  "serialize_settings ev pr db =
     (let settings = fold (\<lambda>s d. AList.update (st_provider s) s d) (list_provider_settings pr db) [] in
      try_then (try_map (\<lambda>p. serialize_provider ev p (map_of settings p)) (map fst (SUPPORTED_LLM_PROVIDERS ev))) (\<lambda>vs.
        Inr (vs, map_option st_provider (find st_default (map snd settings)))))"

definition put_default_llm_provider :: "llm_env \<Rightarrow> stamp \<Rightarrow> principal \<Rightarrow> string \<Rightarrow> settings_db
    \<Rightarrow> ((int \<times> string) + provider_view list \<times> string option) \<times> settings_db" where
  "put_default_llm_provider ev sp pr provider db = (case provider_definition_of ev (normal provider) of
      Inl e \<Rightarrow> (Inl e, db)
    | Inr _ \<Rightarrow> (case set_default_provider sp pr (normal provider) db of
        (Inl e, db1) \<Rightarrow> (Inl (422, exn_msg e), db1)
      | (Inr _, db1) \<Rightarrow> (serialize_settings ev pr db1, db1)))"

text \<open>Of the exceptions of the service, a \<open>ValueError\<close> gives 422 and a missing cipher 503; others are not caught.\<close>

definition upsert_http_error :: "exn \<Rightarrow> int \<times> string" where
  "upsert_http_error e = (if exn_class e = ''ValueError'' then (422, exn_msg e)
     else if exn_class e = ''CredentialEncryptionError'' then (503, ''LLM credential storage is not configured'')
     else (500, []))"

definition put_llm_setting :: "llm_env \<Rightarrow> exn + cipher \<Rightarrow> stamp \<Rightarrow> principal \<Rightarrow> string \<Rightarrow> string option \<Rightarrow> string option \<Rightarrow> settings_db
    \<Rightarrow> ((int \<times> string) + provider_view) \<times> settings_db" where
  "put_llm_setting ev f sp pr provider api_key model db = (case provider_definition_of ev (normal provider) of
      Inl e \<Rightarrow> (Inl e, db)
    | Inr _ \<Rightarrow> (case upsert_provider_setting ev f sp pr (normal provider) api_key model db of
        (Inl e, db1) \<Rightarrow> (Inl (upsert_http_error e), db1)
      | (Inr s, db1) \<Rightarrow> (serialize_provider ev (normal provider) (Some s), db1)))"

definition clear_llm_setting :: "llm_env \<Rightarrow> stamp \<Rightarrow> principal \<Rightarrow> string \<Rightarrow> settings_db \<Rightarrow> ((int \<times> string) + provider_view) \<times> settings_db" where
  "clear_llm_setting ev sp pr provider db = (case provider_definition_of ev (normal provider) of
      Inl e \<Rightarrow> (Inl e, db)
    | Inr _ \<Rightarrow> (let db1 = snd (delete_provider_setting ev sp pr (normal provider) db)
        in (serialize_provider ev (normal provider) (get_provider_setting pr (normal provider) db1), db1)))"

subsection \<open>What the table keeps\<close>

definition owner :: "llm_setting \<Rightarrow> principal" where
  "owner s = \<lparr>pr_tenant = st_tenant s, pr_user = st_user s\<rparr>"

lemma owned_owner: "owned pr s \<longleftrightarrow> owner s = pr"
  by (auto simp: owned_def owner_def)

definition row_ok :: "llm_env \<Rightarrow> cipher \<Rightarrow> llm_setting \<Rightarrow> bool" where
  "row_ok ev c s \<longleftrightarrow>
     (case map_of (SUPPORTED_LLM_PROVIDERS ev) (st_provider s) of Some df \<Rightarrow> st_model s \<in> set (df_models df) | None \<Rightarrow> False) \<and>
     (case cy_decrypt c (st_key s) of Some k \<Rightarrow> 8 \<le> length k \<and> length k \<le> 4096 \<and> st_hint s = last_four k | None \<Rightarrow> False)"

text \<open>\<open>one_default\<close>: whoever owns a row owns exactly one row that is the default.\<close>

definition one_default :: "llm_setting set \<Rightarrow> bool" where
  "one_default R \<longleftrightarrow> (\<forall>s \<in> R. \<exists>!d. d \<in> R \<and> owner d = owner s \<and> st_default d)"

definition settings_ok :: "llm_env \<Rightarrow> cipher \<Rightarrow> settings_db \<Rightarrow> bool" where
  "settings_ok ev c db \<longleftrightarrow> distinct (map st_id (sd_rows db)) \<and> (\<forall>s \<in> set (sd_rows db). st_id s < sd_next db) \<and>
     distinct (map (\<lambda>s. (owner s, st_provider s)) (sd_rows db)) \<and> one_default (set (sd_rows db)) \<and>
     (\<forall>s \<in> set (sd_rows db). row_ok ev c s)"

lemma distinct_map_inj: "distinct (map f xs) \<Longrightarrow> x \<in> set xs \<Longrightarrow> y \<in> set xs \<Longrightarrow> f x = f y \<longleftrightarrow> x = y"
  by (auto simp: distinct_map inj_on_def)

lemma ok_id_inj: "settings_ok ev c db \<Longrightarrow> s \<in> set (sd_rows db) \<Longrightarrow> r \<in> set (sd_rows db) \<Longrightarrow> st_id s = st_id r \<longleftrightarrow> s = r"
  unfolding settings_ok_def by (blast dest: distinct_map_inj)

lemma ok_key_inj:
  "settings_ok ev c db \<Longrightarrow> s \<in> set (sd_rows db) \<Longrightarrow> r \<in> set (sd_rows db) \<Longrightarrow> owner s = owner r \<Longrightarrow> st_provider s = st_provider r \<Longrightarrow> s = r"
  using distinct_map_inj [of "\<lambda>s. (owner s, st_provider s)" "sd_rows db" s r] unfolding settings_ok_def by simp

lemma get_Some: "get_provider_setting pr p db = Some s \<Longrightarrow> s \<in> set (sd_rows db) \<and> owner s = pr \<and> st_provider s = p"
  by (auto simp: get_provider_setting_def setting_query_def owned_owner find_Some_iff dest: nth_mem)

lemma get_None: "get_provider_setting pr p db = None \<longleftrightarrow> (\<forall>s \<in> set (sd_rows db). owner s = pr \<longrightarrow> st_provider s \<noteq> p)"
  by (auto simp: get_provider_setting_def setting_query_def owned_owner find_None_iff)

lemma get_iff:
  assumes "settings_ok ev c db"
  shows "get_provider_setting pr p db = Some s \<longleftrightarrow> s \<in> set (sd_rows db) \<and> owner s = pr \<and> st_provider s = p"
proof
  assume s: "s \<in> set (sd_rows db) \<and> owner s = pr \<and> st_provider s = p"
  then obtain r where r: "get_provider_setting pr p db = Some r"
    using get_None [of pr p db] by (cases "get_provider_setting pr p db") auto
  have "r = s" using ok_key_inj [OF assms, of r s] get_Some [OF r] s by simp
  then show "get_provider_setting pr p db = Some s" using r by simp
qed (rule get_Some)

text \<open>An update in place that keeps id, owner, provider and default.\<close>

lemma one_default_image:
  assumes "one_default R" "\<And>s. s \<in> R \<Longrightarrow> owner (g s) = owner s \<and> st_default (g s) = st_default s"
  shows "one_default (g ` R)"
  unfolding one_default_def
proof
  fix s' assume "s' \<in> g ` R"
  then obtain s where s: "s \<in> R" "s' = g s" by blast
  then have ex1: "\<exists>!d. d \<in> R \<and> owner d = owner s \<and> st_default d"
    using assms(1) by (simp add: one_default_def)
  then obtain d where d: "d \<in> R" "owner d = owner s" "st_default d" by blast
  have u: "e = d" if "e \<in> R" "owner e = owner s" "st_default e" for e
    using ex1 d that by blast
  show "\<exists>!d. d \<in> g ` R \<and> owner d = owner s' \<and> st_default d"
  proof (rule ex1I)
    show "g d \<in> g ` R \<and> owner (g d) = owner s' \<and> st_default (g d)" using d s assms(2) by simp
    fix e' assume e': "e' \<in> g ` R \<and> owner e' = owner s' \<and> st_default e'"
    then obtain e where "e \<in> R" "e' = g e" by blast
    then show "e' = g d" using e' u [of e] s assms(2) by simp
  qed
qed

lemma update_row_rows: "sd_rows (update_row i f db) = map (\<lambda>s. if st_id s = i then f s else s) (sd_rows db)"
  "sd_next (update_row i f db) = sd_next db"
  by (simp_all add: update_row_def)

lemma map_fields: "(\<And>x. x \<in> set xs \<Longrightarrow> F (g x) = F x) \<Longrightarrow> map F (map g xs) = map F xs"
  by simp

lemma update_ok:
  assumes "settings_ok ev c db"
    and keep: "\<And>s. st_id (f s) = st_id s \<and> owner (f s) = owner s \<and> st_provider (f s) = st_provider s \<and> st_default (f s) = st_default s"
    and row: "\<And>s. s \<in> set (sd_rows db) \<Longrightarrow> st_id s = i \<Longrightarrow> row_ok ev c (f s)"
  shows "settings_ok ev c (update_row i f db)"
proof -
  let ?g = "\<lambda>s. if st_id s = i then f s else s"
  have "one_default (?g ` set (sd_rows db))"
    using assms(1) keep by (intro one_default_image) (auto simp: settings_ok_def)
  moreover have "map st_id (map ?g (sd_rows db)) = map st_id (sd_rows db)"
    "map (\<lambda>s. (owner s, st_provider s)) (map ?g (sd_rows db)) = map (\<lambda>s. (owner s, st_provider s)) (sd_rows db)"
    by (intro map_fields; simp add: keep)+
  moreover have "\<forall>s \<in> ?g ` set (sd_rows db). st_id s < sd_next db \<and> row_ok ev c s"
    using assms(1) keep row by (auto simp: settings_ok_def)
  ultimately show ?thesis
    using assms(1) unfolding settings_ok_def update_row_rows set_map by (intro conjI) (simp_all del: map_map set_map)
qed

lemma get_map:
  assumes "\<And>s. owner (g s) = owner s \<and> st_provider (g s) = st_provider s"
  shows "get_provider_setting pr p (db\<lparr>sd_rows := map g (sd_rows db)\<rparr>) = map_option g (get_provider_setting pr p db)"
proof -
  have "find P (map g (filter Q xs)) = map_option g (find P (filter Q xs))" if "\<And>x. P (g x) = P x" for P Q xs
    using that by (induction xs) auto
  moreover have "filter Q (map g xs) = map g (filter Q xs)" if "\<And>x. Q (g x) = Q x" for Q xs
    using that by (induction xs) auto
  ultimately show ?thesis
    using assms by (simp add: get_provider_setting_def setting_query_def owned_owner [abs_def])
qed

lemma get_update:
  assumes "\<And>s. owner (f s) = owner s \<and> st_provider (f s) = st_provider s"
  shows "get_provider_setting pr p (update_row i f db) =
    map_option (\<lambda>s. if st_id s = i then f s else s) (get_provider_setting pr p db)"
  unfolding update_row_def using assms by (intro get_map) simp

text \<open>Decryption undoes encryption; a deployment offers this cipher or, while it is misconfigured, none.\<close>

definition sound_cipher :: "cipher \<Rightarrow> bool" where
  "sound_cipher c \<longleftrightarrow> (\<forall>n k. cy_decrypt c (cy_encrypt c n k) = Some k)"

definition offers :: "cipher \<Rightarrow> exn + cipher \<Rightarrow> bool" where
  "offers c f \<longleftrightarrow> (\<forall>c'. f = Inr c' \<longrightarrow> c' = c)"

lemma revise_keeps: "st_id (revise sp tk m s) = st_id s \<and> owner (revise sp tk m s) = owner s \<and>
    st_provider (revise sp tk m s) = st_provider s \<and> st_default (revise sp tk m s) = st_default s"
  by (simp add: revise_def touch_def owner_def split: option.splits)

text \<open>What passes the checks: a supported model, and a key of admissible length, encrypted by the cipher.\<close>

lemma upsert_checks_Inr:
  assumes "upsert_checks ev f sp pr p api_key model db = Inr (setting, tk, m)" "offers c f"
  shows "setting = get_provider_setting pr p db"
    and "case map_of (SUPPORTED_LLM_PROVIDERS ev) p of Some df \<Rightarrow> m = selected_model model setting df \<and> m \<in> set (df_models df) | None \<Rightarrow> False"
    and "case api_key of
        Some k \<Rightarrow> tk = Some (cy_encrypt c (sp_nonce sp) (strip k), strip k) \<and> 8 \<le> length (strip k) \<and> length (strip k) \<le> 4096
      | None \<Rightarrow> tk = None \<and> setting \<noteq> None"
proof -
  obtain df where df: "map_of (SUPPORTED_LLM_PROVIDERS ev) p = Some df"
    using assms(1) by (auto simp: upsert_checks_def split: option.splits)
  note parts = assms(1) [unfolded upsert_checks_def df option.case Let_def try_then_Inr]
  show "setting = get_provider_setting pr p db"
    using parts by (auto simp: try_then_Inr split: if_splits)
  then show "case map_of (SUPPORTED_LLM_PROVIDERS ev) p of Some df \<Rightarrow> m = selected_model model setting df \<and> m \<in> set (df_models df) | None \<Rightarrow> False"
    using parts df by (auto simp: try_then_Inr split: if_splits)
  show "case api_key of
        Some k \<Rightarrow> tk = Some (cy_encrypt c (sp_nonce sp) (strip k), strip k) \<and> 8 \<le> length (strip k) \<and> length (strip k) \<le> 4096
      | None \<Rightarrow> tk = None \<and> setting \<noteq> None"
    using parts assms(2)
    by (cases api_key) (auto simp: try_then_Inr check_key_def encrypt_api_key_def offers_def split: if_splits)
qed

subsection \<open>The table refines a vault of keys\<close>

text \<open>
  Abstractly the settings are a vault: for a principal and a provider, the key and the model. What the operations
  do to it is \<open>vault_put\<close> and removal; which provider is the default is kept beside it.
\<close>

type_synonym vault = "principal \<times> string \<Rightarrow> (string \<times> string) option"

definition entry :: "cipher \<Rightarrow> llm_setting \<Rightarrow> (string \<times> string) option" where
  "entry c s = map_option (\<lambda>k. (k, st_model s)) (cy_decrypt c (st_key s))"

definition vault :: "cipher \<Rightarrow> settings_db \<Rightarrow> vault" where
  "vault c db = (\<lambda>(pr, p). Option.bind (get_provider_setting pr p db) (entry c))"

definition vault_put :: "llm_env \<Rightarrow> principal \<Rightarrow> string \<Rightarrow> string option \<Rightarrow> string option \<Rightarrow> vault \<Rightarrow> vault" where
  "vault_put ev pr p api_key model v = v((pr, p) \<mapsto>
     (case api_key of Some k \<Rightarrow> strip k | None \<Rightarrow> fst (the (v (pr, p))),
      text_or model (case v (pr, p) of Some (_, m) \<Rightarrow> m | None \<Rightarrow> df_default_model (the (map_of (SUPPORTED_LLM_PROVIDERS ev) p)))))"

lemma get_append:
  "get_provider_setting pr p (db\<lparr>sd_rows := sd_rows db @ [s]\<rparr>) = (case get_provider_setting pr p db of
      Some r \<Rightarrow> Some r
    | None \<Rightarrow> if owner s = pr \<and> st_provider s = p then Some s else None)"
proof -
  have "find P (xs @ ys) = (case find P xs of Some r \<Rightarrow> Some r | None \<Rightarrow> find P ys)" for P :: "llm_setting \<Rightarrow> bool" and xs ys
    by (induction xs) auto
  then show ?thesis by (simp add: get_provider_setting_def setting_query_def owned_owner split: option.splits)
qed

lemma get_rows: "sd_rows db = sd_rows db' \<Longrightarrow> get_provider_setting pr p db = get_provider_setting pr p db'"
  by (simp add: get_provider_setting_def setting_query_def)

lemma row_decrypts: "row_ok ev c s \<Longrightarrow> \<exists>k. cy_decrypt c (st_key s) = Some k"
  by (auto simp: row_ok_def split: option.splits)

lemma one_default_insert:
  assumes "one_default R" "s \<notin> R" "st_default s \<longleftrightarrow> (\<forall>r \<in> R. owner r \<noteq> owner s)"
  shows "one_default (insert s R)"
  unfolding one_default_def
proof
  fix r assume r: "r \<in> insert s R"
  show "\<exists>!d. d \<in> insert s R \<and> owner d = owner r \<and> st_default d"
  proof (cases "\<exists>x \<in> R. owner x = owner r")
    case True
    then obtain x where x: "x \<in> R" "owner x = owner r" by blast
    then have "\<exists>!d. d \<in> R \<and> owner d = owner x \<and> st_default d" using assms(1) unfolding one_default_def by blast
    then have ex1: "\<exists>!d. d \<in> R \<and> owner d = owner r \<and> st_default d" by (simp add: x(2))
    have "\<not> (owner s = owner r \<and> st_default s)" using assms(3) x by auto
    then have "(d \<in> insert s R \<and> owner d = owner r \<and> st_default d) \<longleftrightarrow> (d \<in> R \<and> owner d = owner r \<and> st_default d)" for d by blast
    then show ?thesis using ex1 by simp
  next
    case False
    then have "r = s" "st_default s" using r assms(3) by auto
    then show ?thesis using False by (intro ex1I [of _ s]) auto
  qed
qed

lemma new_setting_fields:
  "owner (new_setting pr p sp t k m db) = pr" "st_provider (new_setting pr p sp t k m db) = p" "st_id (new_setting pr p sp t k m db) = sd_next db"
  "st_key (new_setting pr p sp t k m db) = t" "st_model (new_setting pr p sp t k m db) = m" "st_hint (new_setting pr p sp t k m db) = last_four k"
  "st_default (new_setting pr p sp t k m db) \<longleftrightarrow> (\<forall>r \<in> set (sd_rows db). owner r \<noteq> pr)"
  by (auto simp: new_setting_def owner_def setting_query_def owned_def filter_empty_conv)

lemma insert_ok:
  assumes ok: "settings_ok ev c db" and s: "s = new_setting pr p sp t k m db" and none: "get_provider_setting pr p db = None" and row: "row_ok ev c s"
  shows "settings_ok ev c \<lparr>sd_rows = sd_rows db @ [s], sd_next = sd_next db + 1\<rparr>"
proof -
  have fresh: "st_id s \<notin> st_id ` set (sd_rows db)" using ok unfolding s new_setting_fields settings_ok_def by fastforce
  then have "s \<notin> set (sd_rows db)" by blast
  then have "one_default (insert s (set (sd_rows db)))"
    using ok by (intro one_default_insert) (auto simp: settings_ok_def s new_setting_fields)
  moreover have "(owner s, st_provider s) \<notin> (\<lambda>s. (owner s, st_provider s)) ` set (sd_rows db)"
    using none by (auto simp: get_None s new_setting_fields)
  moreover have "\<forall>r \<in> set (sd_rows db). st_id r < sd_next db + 1" using ok by (fastforce simp: settings_ok_def)
  ultimately show ?thesis
    using ok fresh row by (simp add: settings_ok_def s new_setting_fields)
qed

lemma revised_row_ok:
  assumes row: "row_ok ev c s" and m: "case map_of (SUPPORTED_LLM_PROVIDERS ev) (st_provider s) of Some df \<Rightarrow> m \<in> set (df_models df) | None \<Rightarrow> False"
    and tk: "case tk of Some (t, k) \<Rightarrow> cy_decrypt c t = Some k \<and> 8 \<le> length k \<and> length k \<le> 4096 | None \<Rightarrow> True"
  shows "row_ok ev c (revise sp tk m s)"
  using row m tk by (auto simp: row_ok_def revise_def touch_def split: option.splits)

lemma upsert_refines:
  assumes ok: "settings_ok ev c db" and c: "sound_cipher c" "offers c f"
    and up: "upsert_provider_setting ev f sp pr p api_key model db = (r, db')"
  shows "settings_ok ev c db'" "vault c db' = (case r of Inl _ \<Rightarrow> vault c db | Inr _ \<Rightarrow> vault_put ev pr p api_key model (vault c db))"
proof -
  have "settings_ok ev c db' \<and> vault c db' = (case r of Inl _ \<Rightarrow> vault c db | Inr _ \<Rightarrow> vault_put ev pr p api_key model (vault c db))"
  proof (cases "upsert_checks ev f sp pr p api_key model db")
    case (Inl e)
    then show ?thesis using up ok by (auto simp: upsert_provider_setting_def)
  next
    case (Inr x)
    obtain setting tk m where x: "upsert_checks ev f sp pr p api_key model db = Inr (setting, tk, m)" using Inr by (cases x) auto
    note chk = upsert_checks_Inr [OF x c(2)]
    obtain df where df: "map_of (SUPPORTED_LLM_PROVIDERS ev) p = Some df" "m = selected_model model setting df" "m \<in> set (df_models df)"
      using chk(2) by (auto split: option.splits)
    have dec: "cy_decrypt c (cy_encrypt c n k) = Some k" for n k using c(1) by (simp add: sound_cipher_def)
    show ?thesis
    proof (cases setting)
      case None
      then obtain k where k: "api_key = Some k" "tk = Some (cy_encrypt c (sp_nonce sp) (strip k), strip k)" "8 \<le> length (strip k)" "length (strip k) \<le> 4096"
        using chk(3) by (auto split: option.splits)
      let ?s = "new_setting pr p sp (cy_encrypt c (sp_nonce sp) (strip k)) (strip k) m db"
      have r: "r = Inr ?s" "db' = \<lparr>sd_rows = sd_rows db @ [?s], sd_next = sd_next db + 1\<rparr>"
        using up x None k by (auto simp: upsert_provider_setting_def Let_def)
      have none: "get_provider_setting pr p db = None" using chk(1) None by simp
      have row: "row_ok ev c ?s" using df k by (simp add: row_ok_def new_setting_fields dec)
      have "get_provider_setting pr' p' db' = (if (pr', p') = (pr, p) then Some ?s else get_provider_setting pr' p' db)" for pr' p'
        using none get_append [of pr' p' db ?s] get_rows [of db' "db\<lparr>sd_rows := sd_rows db @ [?s]\<rparr>" pr' p']
        by (auto simp: r new_setting_fields split: option.splits)
      then have "vault c db' = vault_put ev pr p api_key model (vault c db)"
        using none k df None by (auto simp: vault_def vault_put_def fun_eq_iff entry_def new_setting_fields dec selected_model_def)
      then show ?thesis using insert_ok [OF ok refl none row] r by simp
    next
      case (Some s)
      have r: "r = Inr (revise sp tk m s)" "db' = update_row (st_id s) (revise sp tk m) db"
        using up x Some by (auto simp: upsert_provider_setting_def)
      have s: "s \<in> set (sd_rows db)" "owner s = pr" "st_provider s = p" "get_provider_setting pr p db = Some s"
        using get_Some chk(1) Some by force+
      then have row: "row_ok ev c s" using ok by (simp add: settings_ok_def)
      then obtain old where old: "cy_decrypt c (st_key s) = Some old" by (blast dest: row_decrypts)
      have tk: "case tk of Some (t, k) \<Rightarrow> cy_decrypt c t = Some k \<and> 8 \<le> length k \<and> length k \<le> 4096 | None \<Rightarrow> True"
        using chk(3) by (auto simp: dec split: option.splits)
      have row': "row_ok ev c (revise sp tk m r')" if "r' \<in> set (sd_rows db)" "st_id r' = st_id s" for r'
        using that ok_id_inj [OF ok _ s(1)] row tk df s by (auto intro!: revised_row_ok)
      have "get_provider_setting pr' p' db' = (if (pr', p') = (pr, p) then Some (revise sp tk m s) else get_provider_setting pr' p' db)" for pr' p'
        unfolding r(2) get_update [of "revise sp tk m", OF conjI, OF revise_keeps [THEN conjunct2, THEN conjunct1]
            revise_keeps [THEN conjunct2, THEN conjunct2, THEN conjunct1]]
        using s(2-4) ok_id_inj [OF ok _ s(1)] get_Some [of pr' p' db] by (cases "get_provider_setting pr' p' db") auto
      moreover have "entry c (revise sp tk m s) = Some (case api_key of Some k \<Rightarrow> strip k | None \<Rightarrow> old, m)"
        using chk(3) old by (auto simp: entry_def revise_def touch_def dec split: option.splits)
      ultimately have "vault c db' = (vault c db)((pr, p) \<mapsto> (case api_key of Some k \<Rightarrow> strip k | None \<Rightarrow> old, m))"
        by (auto simp: vault_def fun_eq_iff)
      moreover have "vault c db (pr, p) = Some (old, st_model s)" using s(4) old by (simp add: vault_def entry_def)
      ultimately have "vault c db' = vault_put ev pr p api_key model (vault c db)"
        using df(2) Some by (simp add: vault_put_def selected_model_def cong: option.case_cong)
      then show ?thesis using update_ok [OF ok revise_keeps row'] r by simp
    qed
  qed
  then show "settings_ok ev c db'" "vault c db' = (case r of Inl _ \<Rightarrow> vault c db | Inr _ \<Rightarrow> vault_put ev pr p api_key model (vault c db))"
    by simp_all
qed


lemma one_default_choose:
  assumes others: "\<And>s. s \<in> R \<Longrightarrow> owner s \<noteq> pr \<Longrightarrow> \<exists>!d. d \<in> R \<and> owner d = owner s \<and> st_default d"
    and d: "d \<in> R" "owner d = pr"
    and g: "\<And>s. s \<in> R \<Longrightarrow> owner (g s) = owner s \<and> (st_default (g s) \<longleftrightarrow> (if owner s = pr then s = d else st_default s))"
  shows "one_default (g ` R)"
  unfolding one_default_def
proof
  fix s' assume "s' \<in> g ` R"
  then obtain s where s: "s \<in> R" "s' = g s" by blast
  obtain e where e: "e \<in> R" "owner e = owner s" "st_default (g e)"
    and u: "\<And>x. x \<in> R \<Longrightarrow> owner x = owner s \<Longrightarrow> st_default (g x) \<Longrightarrow> x = e"
  proof (cases "owner s = pr")
    case True
    show thesis
    proof (rule that [OF d(1)])
      show "owner d = owner s" "st_default (g d)" using d g [OF d(1)] True by simp_all
      show "x = d" if "x \<in> R" "owner x = owner s" "st_default (g x)" for x using that g [of x] True by simp
    qed
  next
    case False
    note ex1 = others [OF s(1) False]
    then obtain e where e: "e \<in> R" "owner e = owner s" "st_default e" by blast
    show thesis
    proof (rule that [OF e(1,2)])
      show "st_default (g e)" using e g [OF e(1)] False by simp
      show "x = e" if x: "x \<in> R" "owner x = owner s" "st_default (g x)" for x
      proof -
        have "st_default x" using x g [OF x(1)] False by simp
        then show ?thesis using ex1 e x by blast
      qed
    qed
  qed
  show "\<exists>!d. d \<in> g ` R \<and> owner d = owner s' \<and> st_default d"
  proof (rule ex1I)
    show "g e \<in> g ` R \<and> owner (g e) = owner s' \<and> st_default (g e)" using e s g by simp
    fix x' assume x': "x' \<in> g ` R \<and> owner x' = owner s' \<and> st_default x'"
    then obtain x where "x \<in> R" "x' = g x" by blast
    then show "x' = g e" using x' u [of x] s g by simp
  qed
qed

lemma choose_ok:
  assumes ids: "distinct (map st_id (sd_rows db))" "\<And>s. s \<in> set (sd_rows db) \<Longrightarrow> st_id s < sd_next db"
    and keys: "distinct (map (\<lambda>s. (owner s, st_provider s)) (sd_rows db))" and rows: "\<And>s. s \<in> set (sd_rows db) \<Longrightarrow> row_ok ev c s"
    and others: "\<And>s. s \<in> set (sd_rows db) \<Longrightarrow> owner s \<noteq> pr \<Longrightarrow> \<exists>!d. d \<in> set (sd_rows db) \<and> owner d = owner s \<and> st_default d"
    and none: "\<And>s. s \<in> set (sd_rows db) \<Longrightarrow> owner s = pr \<Longrightarrow> \<not> st_default s"
    and d: "d \<in> set (sd_rows db)" "owner d = pr"
  shows "settings_ok ev c (update_row (st_id d) (make_default sp) db)"
proof -
  let ?g = "\<lambda>s. if st_id s = st_id d then make_default sp s else s"
  have g: "owner (?g s) = owner s" "st_id (?g s) = st_id s" "st_provider (?g s) = st_provider s" "row_ok ev c (?g s) = row_ok ev c s" for s
    by (simp_all add: make_default_def touch_def owner_def row_ok_def cong: option.case_cong)
  have "one_default (?g ` set (sd_rows db))"
  proof (rule one_default_choose [OF others d])
    fix s assume s: "s \<in> set (sd_rows db)"
    then have "st_id s = st_id d \<longleftrightarrow> s = d" using distinct_map_inj [OF ids(1) _ d(1)] by blast
    then show "owner (?g s) = owner s \<and> (st_default (?g s) \<longleftrightarrow> (if owner s = pr then s = d else st_default s))"
      using none [OF s] d(2) g(1) [of s] by (auto simp: make_default_def touch_def)
  qed simp_all
  moreover have "map st_id (map ?g (sd_rows db)) = map st_id (sd_rows db)"
    "map (\<lambda>s. (owner s, st_provider s)) (map ?g (sd_rows db)) = map (\<lambda>s. (owner s, st_provider s)) (sd_rows db)"
    by (intro map_fields; simp only: g)+
  moreover have "\<forall>s \<in> ?g ` set (sd_rows db). st_id s < sd_next db \<and> row_ok ev c s"
  proof
    fix s assume "s \<in> ?g ` set (sd_rows db)"
    then obtain r where r: "r \<in> set (sd_rows db)" "s = ?g r" by blast
    show "st_id s < sd_next db \<and> row_ok ev c s" using ids(2) [OF r(1)] rows [OF r(1)] g(2,4) [of r] unfolding r(2) by simp
  qed
  ultimately show ?thesis
    using ids(1) keys unfolding settings_ok_def update_row_rows set_map by (intro conjI) (simp_all del: map_map set_map)
qed

lemma find_mem: "find P xs = Some x \<Longrightarrow> x \<in> set xs"
  by (auto simp: find_Some_iff)

lemma preferred_some:
  assumes "s \<in> set (sd_rows db)" "owner s = pr"
  obtains r where "preferred_setting ev (list_provider_settings pr db) = Some r" "r \<in> set (sd_rows db)" "owner r = pr"
proof -
  let ?l = "list_provider_settings pr db"
  have set: "set ?l = {r \<in> set (sd_rows db). owner r = pr}"
    by (auto simp: list_provider_settings_def setting_query_def owned_owner)
  then have "s \<in> set ?l" using assms by simp
  then obtain x xs where l: "?l = x # xs" by (cases ?l) auto
  then obtain r where r: "preferred_setting ev ?l = Some r"
    by (cases "find (\<lambda>s. st_provider s = LLM_PROVIDER ev) ?l") (auto simp: preferred_setting_def)
  then have "find (\<lambda>s. st_provider s = LLM_PROVIDER ev) ?l = Some r \<or> r = x"
    by (cases "find (\<lambda>s. st_provider s = LLM_PROVIDER ev) ?l") (auto simp: preferred_setting_def l)
  then have "r \<in> set ?l" using find_mem by (metis l list.set_intros(1))
  then show thesis using that r set by blast
qed

lemma preferred_none: "preferred_setting ev ss = None \<longleftrightarrow> ss = []"
  by (auto simp: preferred_setting_def split: list.splits option.splits)

lemma vault_map:
  assumes "\<And>s. owner (g s) = owner s \<and> st_provider (g s) = st_provider s \<and> st_key (g s) = st_key s \<and> st_model (g s) = st_model s"
  shows "vault c (db\<lparr>sd_rows := map g (sd_rows db)\<rparr>) = vault c db"
proof -
  have "entry c (g s) = entry c s" for s using assms by (simp add: entry_def)
  then have "Option.bind (map_option g x) (entry c) = Option.bind x (entry c)" for x by (cases x) simp_all
  then show ?thesis using assms by (simp add: vault_def get_map)
qed

lemma vault_update:
  assumes "\<And>s. owner (f s) = owner s \<and> st_provider (f s) = st_provider s \<and> st_key (f s) = st_key s \<and> st_model (f s) = st_model s"
  shows "vault c (update_row i f db) = vault c db"
  unfolding update_row_def using assms by (intro vault_map) simp

definition remove_row :: "llm_setting \<Rightarrow> settings_db \<Rightarrow> settings_db" where
  "remove_row s db = db\<lparr>sd_rows := filter (\<lambda>r. st_id r \<noteq> st_id s) (sd_rows db)\<rparr>"

lemma remove_rows:
  assumes "settings_ok ev c db" "s \<in> set (sd_rows db)"
  shows "set (sd_rows (remove_row s db)) = set (sd_rows db) - {s}"
  using ok_id_inj [OF assms(1) _ assms(2)] by (auto simp: remove_row_def)

lemma get_remove:
  assumes ok: "settings_ok ev c db" and s: "s \<in> set (sd_rows db)"
  shows "get_provider_setting pr p (remove_row s db) = (if (pr, p) = (owner s, st_provider s) then None else get_provider_setting pr p db)"
proof (cases "get_provider_setting pr p (remove_row s db)")
  case None
  then show ?thesis
    using get_None [of pr p db] get_None [of pr p "remove_row s db"] remove_rows [OF assms] s by auto
next
  case (Some r)
  then have "r \<in> set (sd_rows db)" "r \<noteq> s" "owner r = pr" "st_provider r = p"
    using get_Some [OF Some] remove_rows [OF assms] by auto
  then show ?thesis using Some get_iff [OF ok, of pr p r] ok_key_inj [OF ok, of r s] s by auto
qed

lemma vault_remove:
  assumes "settings_ok ev c db" "s \<in> set (sd_rows db)"
  shows "vault c (remove_row s db) = (vault c db)((owner s, st_provider s) := None)"
  using get_remove [OF assms] by (auto simp: vault_def fun_eq_iff)

lemma remove_parts:
  assumes "settings_ok ev c db"
  shows "distinct (map st_id (sd_rows (remove_row s db)))" "\<And>r. r \<in> set (sd_rows (remove_row s db)) \<Longrightarrow> st_id r < sd_next (remove_row s db)"
    "distinct (map (\<lambda>s. (owner s, st_provider s)) (sd_rows (remove_row s db)))"
    "\<And>r. r \<in> set (sd_rows (remove_row s db)) \<Longrightarrow> row_ok ev c r"
  using assms by (auto simp: settings_ok_def remove_row_def distinct_map_filter)

text \<open>The defaults of the other owners, once a row of \<open>pr\<close> is gone.\<close>

lemma defaults_without:
  assumes "one_default R" "s \<in> R" "r \<in> R" "owner r \<noteq> owner s \<or> \<not> st_default s"
  shows "\<exists>!d. d \<in> R - {s} \<and> owner d = owner r \<and> st_default d"
proof -
  have "\<exists>!d. d \<in> R \<and> owner d = owner r \<and> st_default d" using assms(1,3) unfolding one_default_def by blast
  moreover have "d \<in> R \<and> owner d = owner r \<and> st_default d \<longleftrightarrow> d \<in> R - {s} \<and> owner d = owner r \<and> st_default d" for d
    using assms(4) by auto
  ultimately show ?thesis by simp
qed

lemma make_default_keeps: "owner (make_default sp s) = owner s \<and> st_provider (make_default sp s) = st_provider s \<and>
    st_key (make_default sp s) = st_key s \<and> st_model (make_default sp s) = st_model s"
  by (simp add: make_default_def touch_def owner_def)

lemma delete_refines:
  assumes ok: "settings_ok ev c db" and del: "delete_provider_setting ev sp pr p db = (done, db')"
  shows "settings_ok ev c db' \<and> vault c db' = (vault c db)((pr, p) := None)"
proof (cases "get_provider_setting pr p db")
  case None
  then have "vault c db (pr, p) = None" by (simp add: vault_def)
  then show ?thesis using del None ok by (auto simp: delete_provider_setting_def fun_upd_idem_iff)
next
  case (Some s)
  note s = get_Some [OF Some, THEN conjunct1] and own = get_Some [OF Some, THEN conjunct2]
  let ?db = "remove_row s db" and ?R = "set (sd_rows db)"
  note rows = remove_rows [OF ok s] and parts = remove_parts [OF ok, where s = s]
  have one: "one_default ?R" using ok by (simp add: settings_ok_def)
  have v: "vault c ?db = (vault c db)((pr, p) := None)" using vault_remove [OF ok s] own by simp
  have d: "db' = (if st_default s then case preferred_setting ev (list_provider_settings pr ?db) of
      Some r \<Rightarrow> update_row (st_id r) (make_default sp) ?db | None \<Rightarrow> ?db else ?db)"
    using del Some by (auto simp: delete_provider_setting_def Let_def remove_row_def split: if_splits option.splits)
  have others: "\<exists>!d. d \<in> set (sd_rows ?db) \<and> owner d = owner r \<and> st_default d"
    if "r \<in> set (sd_rows ?db)" "owner r \<noteq> owner s \<or> \<not> st_default s" for r
    using defaults_without [OF one s _ that(2)] that(1) unfolding rows by blast
  show ?thesis
  proof (cases "st_default s \<and> (\<exists>r \<in> set (sd_rows ?db). owner r = pr)")
    case True
    then obtain r where r: "preferred_setting ev (list_provider_settings pr ?db) = Some r" "r \<in> set (sd_rows ?db)" "owner r = pr"
      using preferred_some by metis
    have none: "\<not> st_default t" if "t \<in> set (sd_rows ?db)" "owner t = pr" for t
    proof -
      have "\<exists>!d. d \<in> ?R \<and> owner d = owner s \<and> st_default d" using one s unfolding one_default_def by blast
      moreover have "t \<in> ?R" "t \<noteq> s" "owner t = owner s" using that own rows by auto
      ultimately show ?thesis using True s by metis
    qed
    have "settings_ok ev c (update_row (st_id r) (make_default sp) ?db)"
      by (rule choose_ok [OF parts _ none r(2,3)]) (use others own in auto)
    then show ?thesis using d r True v by (simp add: vault_update make_default_keeps)
  next
    case False
    have "settings_ok ev c ?db"
      unfolding settings_ok_def one_default_def
      by (intro conjI ballI parts others) (use False own in auto)
    moreover have "db' = ?db"
    proof (cases "st_default s")
      case True
      then have "list_provider_settings pr ?db = []"
        using False by (auto simp: list_provider_settings_def setting_query_def owned_owner filter_empty_conv)
      then show ?thesis using d by (simp add: preferred_setting_def)
    qed (simp add: d)
    ultimately show ?thesis using v by simp
  qed
qed


lemma clear_default_fields:
  "owner (clear_default pr t) = owner t" "st_provider (clear_default pr t) = st_provider t" "st_key (clear_default pr t) = st_key t"
  "st_model (clear_default pr t) = st_model t" "st_id (clear_default pr t) = st_id t" "row_ok ev c (clear_default pr t) = row_ok ev c t"
  "st_default (clear_default pr t) \<longleftrightarrow> owner t \<noteq> pr \<and> st_default t" "owner t \<noteq> pr \<Longrightarrow> clear_default pr t = t"
  by (auto simp: clear_default_def owner_def row_ok_def owned_owner cong: option.case_cong)

lemma default_refines:
  assumes ok: "settings_ok ev c db" and set: "set_default_provider sp pr p db = (r, db')"
  shows "settings_ok ev c db' \<and> vault c db' = vault c db \<and>
    (\<forall>s. r = Inr s \<longrightarrow> (\<forall>d \<in> set (sd_rows db'). owner d = pr \<longrightarrow> (st_default d \<longleftrightarrow> st_provider d = p)))"
proof (cases "get_provider_setting pr p db")
  case None
  then show ?thesis using set ok by (auto simp: set_default_provider_def)
next
  case (Some s)
  note s = get_Some [OF Some]
  let ?clr = "clear_default pr"
  let ?db = "db\<lparr>sd_rows := map ?clr (sd_rows db)\<rparr>" and ?R = "set (sd_rows db)"
  note clr = clear_default_fields [where pr = pr]
  have db': "db' = update_row (st_id (?clr s)) (make_default sp) ?db"
    using set Some clr(5) by (simp add: set_default_provider_def Let_def)
  have v: "vault c db' = vault c db"
  proof -
    have "vault c ?db = vault c db" using clr(1-4) by (intro vault_map) blast
    then show ?thesis unfolding db' by (subst vault_update) (rule make_default_keeps)
  qed
  have same: "d \<in> ?clr ` ?R \<and> owner d = o' \<and> st_default d \<longleftrightarrow> d \<in> ?R \<and> owner d = o' \<and> st_default d" if "o' \<noteq> pr" for d o'
  proof
    assume d: "d \<in> ?clr ` ?R \<and> owner d = o' \<and> st_default d"
    then obtain t where "t \<in> ?R" "d = ?clr t" by blast
    then show "d \<in> ?R \<and> owner d = o' \<and> st_default d" using d clr(1,8) [of t] that by metis
  next
    assume d: "d \<in> ?R \<and> owner d = o' \<and> st_default d"
    then have "d = ?clr d" using clr(8) [of d] that by metis
    then show "d \<in> ?clr ` ?R \<and> owner d = o' \<and> st_default d" using d by blast
  qed
  have "settings_ok ev c (update_row (st_id (?clr s)) (make_default sp) ?db)"
  proof (rule choose_ok)
    have "map st_id (sd_rows ?db) = map st_id (sd_rows db)"
      "map (\<lambda>s. (owner s, st_provider s)) (sd_rows ?db) = map (\<lambda>s. (owner s, st_provider s)) (sd_rows db)"
      by (simp_all add: clr)
    then show "distinct (map st_id (sd_rows ?db))" "distinct (map (\<lambda>s. (owner s, st_provider s)) (sd_rows ?db))"
      using ok unfolding settings_ok_def by metis+
    show "?clr s \<in> set (sd_rows ?db)" "owner (?clr s) = pr" using s clr(1) [of s] by auto
    fix t assume t: "t \<in> set (sd_rows ?db)"
    then obtain t0 where t0: "t0 \<in> ?R" "t = ?clr t0" by auto
    have fields: "st_id t0 < sd_next db" "row_ok ev c t0" using ok t0(1) by (auto simp: settings_ok_def)
    show "st_id t < sd_next ?db" "row_ok ev c t" using fields clr(5) [of t0] clr(6) [of ev c t0] unfolding t0(2) by simp_all
    show "\<not> st_default t" if "owner t = pr" using that clr(1,7) [of t0] unfolding t0(2) by simp
    show "\<exists>!d. d \<in> set (sd_rows ?db) \<and> owner d = owner t \<and> st_default d" if "owner t \<noteq> pr"
    proof -
      have "owner t = owner t0" using clr(1) [of t0] t0(2) by simp
      moreover have "\<exists>!d. d \<in> ?R \<and> owner d = owner t0 \<and> st_default d"
        using ok t0(1) unfolding settings_ok_def one_default_def by blast
      ultimately show ?thesis using same [OF that] by simp
    qed
  qed
  moreover have "st_default d \<longleftrightarrow> st_provider d = p" if "d \<in> set (sd_rows db')" "owner d = pr" for d
  proof -
    let ?new = "\<lambda>t. if st_id t = st_id (?clr s) then make_default sp t else t"
    have "sd_rows ?db = map ?clr (sd_rows db)" by simp
    then have "d \<in> ?new ` ?clr ` ?R" using that(1) by (simp only: db' update_row_rows set_map)
    then obtain t where t: "t \<in> ?R" "d = ?new (?clr t)" by blast
    have id: "st_id (?clr t) = st_id (?clr s) \<longleftrightarrow> t = s" using ok_id_inj [OF ok t(1), of s] s clr(5) by simp
    have "owner d = owner t" "st_provider d = st_provider t" using t(2) clr(1,2) [of t] make_default_keeps by simp_all
    moreover have "st_default d \<longleftrightarrow> t = s"
      using t(2) id clr(7) [of t] that(2) calculation(1) by (auto simp: make_default_def touch_def split: if_splits)
    moreover have "t = s \<longleftrightarrow> st_provider t = p" using ok_key_inj [OF ok t(1), of s] s that(2) calculation(1) by auto
    ultimately show ?thesis by simp
  qed
  ultimately show ?thesis using v db' by simp
qed


subsection \<open>Histories of requests\<close>

datatype settings_op = SetKey string "string option" "string option" | Remove string | Choose string

record settings_request =
  sq_who :: principal
  sq_stamp :: stamp
  sq_cipher :: "exn + cipher"
  sq_op :: settings_op

definition settings_step :: "llm_env \<Rightarrow> settings_request \<Rightarrow> settings_db \<Rightarrow> settings_db" where
  "settings_step ev rq db = (case sq_op rq of
      SetKey p key model \<Rightarrow> snd (upsert_provider_setting ev (sq_cipher rq) (sq_stamp rq) (sq_who rq) p key model db)
    | Remove p \<Rightarrow> snd (delete_provider_setting ev (sq_stamp rq) (sq_who rq) p db)
    | Choose p \<Rightarrow> snd (set_default_provider (sq_stamp rq) (sq_who rq) p db))"

definition settings_after :: "llm_env \<Rightarrow> settings_request list \<Rightarrow> settings_db" where
  "settings_after ev rqs = fold (settings_step ev) rqs \<lparr>sd_rows = [], sd_next = 1\<rparr>"

lemma step_ok:
  assumes "settings_ok ev c db" "sound_cipher c" "offers c (sq_cipher rq)"
  shows "settings_ok ev c (settings_step ev rq db)" "pr \<noteq> sq_who rq \<Longrightarrow> vault c (settings_step ev rq db) (pr, p) = vault c db (pr, p)"
proof -
  have "settings_ok ev c (settings_step ev rq db) \<and> (pr \<noteq> sq_who rq \<longrightarrow> vault c (settings_step ev rq db) (pr, p) = vault c db (pr, p))"
  proof (cases "sq_op rq")
    case (SetKey q key model)
    then show ?thesis
      using upsert_refines [OF assms prod.collapse [symmetric], of "sq_stamp rq" "sq_who rq" q key model]
      by (auto simp: settings_step_def vault_put_def split: sum.splits)
  next
    case (Remove q)
    then show ?thesis
      using delete_refines [OF assms(1) prod.collapse [symmetric], of "sq_stamp rq" "sq_who rq" q] by (auto simp: settings_step_def)
  next
    case (Choose q)
    then show ?thesis
      using default_refines [OF assms(1) prod.collapse [symmetric], of "sq_stamp rq" "sq_who rq" q] by (auto simp: settings_step_def)
  qed
  then show "settings_ok ev c (settings_step ev rq db)" "pr \<noteq> sq_who rq \<Longrightarrow> vault c (settings_step ev rq db) (pr, p) = vault c db (pr, p)"
    by auto
qed

lemma history_ok:
  assumes "sound_cipher c" "list_all (\<lambda>rq. offers c (sq_cipher rq)) rqs"
  shows "settings_ok ev c (settings_after ev rqs)"
proof -
  have steps: "settings_ok ev c (fold (settings_step ev) rqs db)" if "settings_ok ev c db" for db
    using that assms(2) by (induction rqs arbitrary: db) (auto intro: step_ok(1) [OF _ assms(1)])
  show ?thesis
    unfolding settings_after_def by (rule steps) (simp add: settings_ok_def one_default_def)
qed

text \<open>
  C10. The settings table stays well formed. Whatever requests any users make, in whatever order, also while the
  cipher is not configured: a user has at most one row per provider; a user with a row has
  exactly one default; every row names a supported provider and one of its models, and holds a key of 8 to
  4096 characters that can be decrypted, with its last four characters as the hint.
\<close>

theorem settings_wellformed:
  assumes "sound_cipher c" "list_all (\<lambda>rq. offers c (sq_cipher rq)) rqs"
  shows "distinct (map (\<lambda>s. (st_tenant s, st_user s, st_provider s)) (sd_rows (settings_after ev rqs))) \<and>
    (\<forall>pr. setting_query pr (settings_after ev rqs) \<noteq> [] \<longrightarrow> length (filter st_default (setting_query pr (settings_after ev rqs))) = 1) \<and>
    list_all (\<lambda>s. (\<exists>df. map_of (SUPPORTED_LLM_PROVIDERS ev) (st_provider s) = Some df \<and> st_model s \<in> set (df_models df)) \<and>
      (\<exists>k. cy_decrypt c (st_key s) = Some k \<and> 8 \<le> length k \<and> length k \<le> 4096 \<and> st_hint s = last_four k))
      (sd_rows (settings_after ev rqs))"
proof -
  let ?db = "settings_after ev rqs"
  note ok = history_ok [OF assms, of ev, unfolded settings_ok_def]
  have dist: "distinct (sd_rows ?db)" using ok by (simp add: distinct_map)
  have "distinct (map (\<lambda>s. (st_tenant s, st_user s, st_provider s)) (sd_rows ?db))"
    using ok by (simp add: distinct_map inj_on_def owner_def)
  moreover have "length (filter st_default (setting_query pr ?db)) = 1" if ne: "setting_query pr ?db \<noteq> []" for pr
  proof -
    obtain s where "s \<in> set (sd_rows ?db)" "owner s = pr" using ne by (auto simp: setting_query_def owned_owner filter_empty_conv)
    then have ex1: "\<exists>!d. d \<in> set (sd_rows ?db) \<and> owner d = pr \<and> st_default d" using ok unfolding one_default_def by blast
    have set: "set (filter st_default (setting_query pr ?db)) = {d. d \<in> set (sd_rows ?db) \<and> owner d = pr \<and> st_default d}"
      by (auto simp: setting_query_def owned_owner)
    have "card (set (filter st_default (setting_query pr ?db))) = 1"
      unfolding set using ex1 by (simp add: card_1_singleton_iff set_eq_iff) metis
    moreover have "distinct (filter st_default (setting_query pr ?db))" using dist by (simp add: setting_query_def)
    ultimately show ?thesis using distinct_card by metis
  qed
  moreover have "list_all (\<lambda>s. (\<exists>df. map_of (SUPPORTED_LLM_PROVIDERS ev) (st_provider s) = Some df \<and> st_model s \<in> set (df_models df)) \<and>
      (\<exists>k. cy_decrypt c (st_key s) = Some k \<and> 8 \<le> length k \<and> length k \<le> 4096 \<and> st_hint s = last_four k)) (sd_rows ?db)"
    using ok by (auto simp: list_all_iff row_ok_def split: option.splits dest!: bspec)
  ultimately show ?thesis by blast
qed


subsection \<open>Whose key a request uses\<close>

lemma update_new: "k \<notin> set (map fst al) \<Longrightarrow> AList.update k v al = al @ [(k, v)]"
  by (induction al) auto

definition config_of :: "llm_env \<Rightarrow> cipher \<Rightarrow> llm_setting \<Rightarrow> (string \<times> string) list" where
  "config_of ev c s = (''api_key'', the (cy_decrypt c (st_key s))) #
     (case df_base_url (the (map_of (SUPPORTED_LLM_PROVIDERS ev) (st_provider s))) of Some u \<Rightarrow> if u = [] then [] else [(''base_url'', u)] | None \<Rightarrow> [])"

lemma load_settings_all:
  assumes "\<And>s. s \<in> set ss \<Longrightarrow> row_ok ev c s" "distinct (map fst (ac_configs acc) @ map st_provider ss)"
    and "map fst (ac_models acc) = map fst (ac_configs acc)"
  shows "\<exists>acc'. load_settings ev (Inr c) ss acc = Inr acc' \<and>
    ac_configs acc' = ac_configs acc @ map (\<lambda>s. (st_provider s, config_of ev c s)) ss \<and>
    ac_models acc' = ac_models acc @ map (\<lambda>s. (st_provider s, st_model s)) ss"
  using assms
proof (induction ss arbitrary: acc)
  case (Cons s ss)
  obtain df k where s: "map_of (SUPPORTED_LLM_PROVIDERS ev) (st_provider s) = Some df" "cy_decrypt c (st_key s) = Some k"
    using Cons.prems(1) [of s] by (auto simp: row_ok_def split: option.splits)
  have new: "st_provider s \<notin> set (map fst (ac_configs acc))" "st_provider s \<notin> set (map fst (ac_models acc))"
    using Cons.prems(2,3) by auto
  obtain acc1 where acc1: "load_setting ev (Inr c) s acc = Inr acc1" "ac_configs acc1 = ac_configs acc @ [(st_provider s, config_of ev c s)]"
    "ac_models acc1 = ac_models acc @ [(st_provider s, st_model s)]"
    using s by (simp add: load_setting_def decrypt_api_key_def update_new [OF new(1)] update_new [OF new(2)] config_of_def)
  have "\<exists>acc'. load_settings ev (Inr c) ss acc1 = Inr acc' \<and>
      ac_configs acc' = ac_configs acc1 @ map (\<lambda>s. (st_provider s, config_of ev c s)) ss \<and>
      ac_models acc' = ac_models acc1 @ map (\<lambda>s. (st_provider s, st_model s)) ss"
    using Cons.prems by (intro Cons.IH) (auto simp: acc1)
  then show ?case using acc1 by auto
qed simp

lemma runtime_settings_all:
  assumes ok: "settings_ok ev c db"
  obtains rs where "get_runtime_llm_settings ev (Inr c) digest pr db = Inr rs"
    "rs_configs rs = map (\<lambda>s. (st_provider s, config_of ev c s)) (list_provider_settings pr db)"
    "rs_models rs = map (\<lambda>s. (st_provider s, st_model s)) (list_provider_settings pr db)"
proof -
  let ?l = "list_provider_settings pr db"
  have set: "set ?l = {s \<in> set (sd_rows db). owner s = pr}"
    by (auto simp: list_provider_settings_def setting_query_def owned_owner)
  have "distinct ?l"
    using ok by (simp add: list_provider_settings_def setting_query_def settings_ok_def distinct_map)
  moreover have "inj_on st_provider (set ?l)"
    using ok_key_inj [OF ok] unfolding set by (auto intro!: inj_onI)
  ultimately have "distinct (map st_provider ?l)" by (simp add: distinct_map)
  moreover have "row_ok ev c s" if "s \<in> set ?l" for s using that ok unfolding set by (simp add: settings_ok_def)
  ultimately obtain acc where "load_settings ev (Inr c) ?l \<lparr>ac_configs = [], ac_models = [], ac_default = None, ac_records = []\<rparr> = Inr acc"
      "ac_configs acc = map (\<lambda>s. (st_provider s, config_of ev c s)) ?l" "ac_models acc = map (\<lambda>s. (st_provider s, st_model s)) ?l"
    using load_settings_all [of ?l ev c "\<lparr>ac_configs = [], ac_models = [], ac_default = None, ac_records = []\<rparr>"] by auto
  then show thesis by (intro that) (auto simp: get_runtime_llm_settings_def)
qed

lemma supported_registered: "set (map fst (SUPPORTED_LLM_PROVIDERS ev)) = set (map fst REGISTERED_PROVIDERS)"
  by (simp add: SUPPORTED_LLM_PROVIDERS_def REGISTERED_PROVIDERS_def)


lemma map_of_unique:
  "s \<in> set l \<Longrightarrow> (\<And>t. t \<in> set l \<Longrightarrow> f t = f s \<Longrightarrow> t = s) \<Longrightarrow> map_of (map (\<lambda>s. (f s, F s)) l) (f s) = Some (F s)"
proof (induction l)
  case (Cons a l)
  show ?case
  proof (cases "f a = f s")
    case True
    then show ?thesis using Cons.prems(2) [of a] by simp
  next
    case False
    then show ?thesis using Cons by auto
  qed
qed simp

text \<open>
  C12. A request spends its own user's key. After any history of requests by any users, take a user with at least one
  configured provider. Loading the settings succeeds, and for every question the planner has analysed routing
  succeeds; the model instance it gives belongs to a provider that this very user has configured, and
  carries the key and the model that the user stored for it, never the key of the server, of
  another user or of another provider. What the user has stored is not affected by requests of others.
\<close>

theorem request_uses_own_credentials:
  assumes "sound_cipher c" "list_all (\<lambda>rq. offers c (sq_cipher rq)) rqs" "setting_query pr (settings_after ev rqs) \<noteq> []"
  shows "(\<exists>rs p r. get_runtime_llm_settings ev (Inr c) digest pr (settings_after ev rqs) = Inr rs \<and>
      route ev (REGISTERED_PROVIDERS :: 'w provider_registry) ms (request_router ev (Some rs)) (build_routing_context tr cr) = Inr (p, r) \<and>
      vault c (settings_after ev rqs) (pr, pv_provider (pi_config p)) = Some (pv_api_key (pi_config p), pv_model (pi_config p))) \<and>
    (offers c (sq_cipher rq) \<and> sq_who rq \<noteq> pr \<longrightarrow>
      vault c (settings_after ev (rqs @ [rq])) (pr, name) = vault c (settings_after ev rqs) (pr, name))"
proof
  let ?db = "settings_after ev rqs" and ?reg = "REGISTERED_PROVIDERS :: 'w provider_registry"
  note ok = history_ok [OF assms(1,2), of ev]
  let ?l = "list_provider_settings pr ?db"
  have set: "set ?l = {s \<in> set (sd_rows ?db). owner s = pr}"
    by (auto simp: list_provider_settings_def setting_query_def owned_owner)
  obtain rs where rs: "get_runtime_llm_settings ev (Inr c) digest pr ?db = Inr rs"
      "rs_configs rs = map (\<lambda>s. (st_provider s, config_of ev c s)) ?l" "rs_models rs = map (\<lambda>s. (st_provider s, st_model s)) ?l"
    by (rule runtime_settings_all [OF ok, of digest pr])
  have ne: "?l \<noteq> []" using assms(3) by (simp add: list_provider_settings_def) (metis set_empty set_sort)
  let ?rt = "request_router ev (Some rs)"
  have rt: "mr_configs ?rt = rs_configs rs" "mr_available ?rt = Some (map st_provider ?l)" "po_models (mr_policy ?rt) = rs_models rs"
    using ne rs(2,3) by (simp_all add: request_router_def ModelRouter_def CapabilityRoutingPolicy_def)
  have registered: "st_provider s \<in> set (map fst ?reg)" if "s \<in> set ?l" for s
  proof -
    have "row_ok ev c s" using that ok unfolding set by (simp add: settings_ok_def)
    then have "st_provider s \<in> set (map fst (SUPPORTED_LLM_PROVIDERS ev))"
      unfolding row_ok_def by (metis map_of_eq_None_iff option.case(1) set_map)
    then show ?thesis using supported_registered by blast
  qed
  have usable: "set (usable_providers ?reg ?rt) = st_provider ` set ?l"
    using registered by (auto simp: usable_providers_def rt)
  then have some: "usable_providers ?reg ?rt \<noteq> []" using ne by (metis empty_set image_is_empty set_empty)
  have named: "[] \<notin> set (map fst ?reg)" by (simp add: REGISTERED_PROVIDERS_def)
  obtain r cl where route: "route ev ?reg ms ?rt (build_routing_context tr cr) = Inr (\<lparr>pi_class = cl, pi_config = router_config ev ?rt r\<rparr>, r)"
      "rr_provider r \<in> st_provider ` set ?l" "rr_model r = dict_get (rs_models rs) (rr_provider r) (po_default_model (mr_policy ?rt))"
    by (rule route_plain [OF named refl refl some, of ev ms tr cr]) (use usable rt(3) in metis)
  obtain s where s: "s \<in> set ?l" "rr_provider r = st_provider s" using route(2) by blast
  have dist: "t = s" if "t \<in> set ?l" "st_provider t = st_provider s" for t
    using that s(1) ok_key_inj [OF ok, of t s] unfolding set by simp
  have found: "map_of (map (\<lambda>s. (st_provider s, config_of ev c s)) ?l) (st_provider s) = Some (config_of ev c s)"
    "map_of (map (\<lambda>s. (st_provider s, st_model s)) ?l) (st_provider s) = Some (st_model s)"
    using s(1) dist by (auto intro!: map_of_unique)
  have row: "row_ok ev c s" using s(1) ok unfolding set by (simp add: settings_ok_def)
  obtain k where k: "cy_decrypt c (st_key s) = Some k" using row_decrypts [OF row] by blast
  have "pv_api_key (router_config ev ?rt r) = k" "pv_model (router_config ev ?rt r) = st_model s"
    using found k route(3)
    by (simp_all add: router_config_def rt rs(2,3) s(2) dict_get_def config_of_def)
  moreover have "vault c ?db (pr, st_provider s) = Some (k, st_model s)"
    using s(1) k get_iff [OF ok, of pr "st_provider s" s] unfolding set by (simp add: vault_def entry_def)
  ultimately show "\<exists>rs p r. get_runtime_llm_settings ev (Inr c) digest pr ?db = Inr rs \<and>
      route ev ?reg ms (request_router ev (Some rs)) (build_routing_context tr cr) = Inr (p, r) \<and>
      vault c ?db (pr, pv_provider (pi_config p)) = Some (pv_api_key (pi_config p), pv_model (pi_config p))"
    using rs(1) route(1) by (intro exI [of _ rs] exI [of _ "\<lparr>pi_class = cl, pi_config = router_config ev ?rt r\<rparr>"] exI [of _ r])
      (simp add: router_config_def s(2) Let_def)
  show "offers c (sq_cipher rq) \<and> sq_who rq \<noteq> pr \<longrightarrow> vault c (settings_after ev (rqs @ [rq])) (pr, name) = vault c ?db (pr, name)"
    using step_ok(2) [OF ok assms(1), of rq pr name] by (auto simp: settings_after_def)
qed


definition demo_cipher :: cipher where
  "demo_cipher = \<lparr>cy_encrypt = (\<lambda>n k. CHR ''x'' # k), cy_decrypt = (\<lambda>t. case t of [] \<Rightarrow> None | x # k \<Rightarrow> Some k)\<rparr>"

definition settings_demo :: "int \<Rightarrow> settings_op \<Rightarrow> settings_request" where
  "settings_demo u o1 = \<lparr>sq_who = \<lparr>pr_tenant = 7, pr_user = u\<rparr>, sq_stamp = \<lparr>sp_nonce = 0, sp_revision = ''r'', sp_time = 0\<rparr>,
     sq_cipher = Inr demo_cipher, sq_op = o1\<rparr>"

definition demo_history :: "settings_request list" where
  "demo_history = [settings_demo 1 (SetKey ''openai'' (Some '' first-key '') None), settings_demo 2 (SetKey ''gemini'' (Some ''other-key'') None),
     settings_demo 1 (SetKey ''deepseek'' (Some ''second-key'') (Some ''deepseek-v4-pro'')), settings_demo 1 (Choose ''deepseek''),
     settings_demo 1 (Remove ''openai'')]"

lemma demo_history_sound: "sound_cipher demo_cipher" "list_all (\<lambda>rq. offers demo_cipher (sq_cipher rq)) demo_history"
  by (simp_all add: sound_cipher_def demo_cipher_def demo_history_def settings_demo_def offers_def)

lemmas settings_eval = settings_step_def upsert_provider_setting_def upsert_checks_def SUPPORTED_LLM_PROVIDERS_def check_key_def
  encrypt_api_key_def selected_model_def text_or_def get_provider_setting_def setting_query_def owned_def new_setting_def last_four_def
  delete_provider_setting_def set_default_provider_def update_row_def make_default_def touch_def clear_default_def list_provider_settings_def
  preferred_setting_def demo_cipher_def settings_demo_def demo_llm_env_def Let_def

definition demo_row :: "int \<Rightarrow> int \<Rightarrow> string \<Rightarrow> string \<Rightarrow> string \<Rightarrow> string \<Rightarrow> llm_setting" where
  "demo_row i u p token hint m = \<lparr>st_id = i, st_tenant = 7, st_user = u, st_provider = p, st_key = token, st_hint = hint, st_model = m,
     st_default = True, st_revision = ''r'', st_updated = 0\<rparr>"

lemma strip_demo: "strip '' first-key '' = ''first-key''" "strip ''other-key'' = ''other-key''" "strip ''second-key'' = ''second-key''"
  by code_simp+

lemma demo_history_rows:
  "settings_after demo_llm_env demo_history = \<lparr>sd_rows = [demo_row 2 2 ''gemini'' ''xother-key'' ''-key'' ''gemini-3.6-flash'',
     demo_row 3 1 ''deepseek'' ''xsecond-key'' ''-key'' ''deepseek-v4-pro''], sd_next = 4\<rparr>"
proof -
  let ?a = "demo_row 1 1 ''openai'' ''xfirst-key'' ''-key'' ''gpt-5.5''" and ?b = "demo_row 2 2 ''gemini'' ''xother-key'' ''-key'' ''gemini-3.6-flash''"
  let ?c = "demo_row 3 1 ''deepseek'' ''xsecond-key'' ''-key'' ''deepseek-v4-pro''"
  have 1: "settings_step demo_llm_env (settings_demo 1 (SetKey ''openai'' (Some '' first-key '') None)) \<lparr>sd_rows = [], sd_next = 1\<rparr> =
      \<lparr>sd_rows = [?a], sd_next = 2\<rparr>"
    by (simp add: settings_eval strip_demo demo_row_def)
  have 2: "settings_step demo_llm_env (settings_demo 2 (SetKey ''gemini'' (Some ''other-key'') None)) \<lparr>sd_rows = [?a], sd_next = 2\<rparr> =
      \<lparr>sd_rows = [?a, ?b], sd_next = 3\<rparr>"
    by (simp add: settings_eval strip_demo demo_row_def)
  have 3: "settings_step demo_llm_env (settings_demo 1 (SetKey ''deepseek'' (Some ''second-key'') (Some ''deepseek-v4-pro'')))
      \<lparr>sd_rows = [?a, ?b], sd_next = 3\<rparr> = \<lparr>sd_rows = [?a, ?b, ?c\<lparr>st_default := False\<rparr>], sd_next = 4\<rparr>"
    by (simp add: settings_eval strip_demo demo_row_def)
  have 4: "settings_step demo_llm_env (settings_demo 1 (Choose ''deepseek'')) \<lparr>sd_rows = [?a, ?b, ?c\<lparr>st_default := False\<rparr>], sd_next = 4\<rparr> =
      \<lparr>sd_rows = [?a\<lparr>st_default := False\<rparr>, ?b, ?c], sd_next = 4\<rparr>"
    by (simp add: settings_eval demo_row_def)
  have 5: "settings_step demo_llm_env (settings_demo 1 (Remove ''openai'')) \<lparr>sd_rows = [?a\<lparr>st_default := False\<rparr>, ?b, ?c], sd_next = 4\<rparr> =
      \<lparr>sd_rows = [?b, ?c], sd_next = 4\<rparr>"
    by (simp add: settings_eval demo_row_def)
  show ?thesis by (simp add: settings_after_def demo_history_def 1 2 3 4 5)
qed

lemma demo_history_query: "setting_query \<lparr>pr_tenant = 7, pr_user = 1\<rparr> (settings_after demo_llm_env demo_history) \<noteq> []"
  by (simp add: demo_history_rows setting_query_def owned_def demo_row_def)

theorem settings_wellformed_witness:
  "map (\<lambda>s. (st_user s, st_provider s, st_default s)) (sd_rows (settings_after demo_llm_env demo_history)) =
     [(2, ''gemini'', True), (1, ''deepseek'', True)] \<and>
   length (filter st_default (setting_query \<lparr>pr_tenant = 7, pr_user = 1\<rparr> (settings_after demo_llm_env demo_history))) = 1"
  using settings_wellformed [OF demo_history_sound, of demo_llm_env] demo_history_query
  by (simp add: demo_history_rows) (simp add: demo_row_def)

theorem request_uses_own_credentials_witness:
  "\<exists>rs p r. get_runtime_llm_settings demo_llm_env (Inr demo_cipher) (\<lambda>_. ''d'') \<lparr>pr_tenant = 7, pr_user = 1\<rparr> (settings_after demo_llm_env demo_history) = Inr rs \<and>
      route demo_llm_env (REGISTERED_PROVIDERS :: unit provider_registry) 0 (request_router demo_llm_env (Some rs))
        (build_routing_context demo_task (complexity_analyze plain_lang demo_task)) = Inr (p, r) \<and>
      vault demo_cipher (settings_after demo_llm_env demo_history) (\<lparr>pr_tenant = 7, pr_user = 1\<rparr>, pv_provider (pi_config p)) =
        Some (pv_api_key (pi_config p), pv_model (pi_config p))"
  using request_uses_own_credentials [OF demo_history_sound demo_history_query, of "\<lambda>_. ''d''" 0 demo_task "complexity_analyze plain_lang demo_task"]
  by blast


end
