(* ===== verification/Quiet_Handlers.thy ===== *)
theory Quiet_Handlers
  imports Plan_Execution
begin

text \<open>
  What a run of \<^verbatim>\<open>agent/execution/plan_execution.py\<close> keeps of the world. Quiet handlers leave the
  world alone, keep the request-scoped values, and add evidence from a given set only; a run with such handlers does the
  same, whatever the plan. With them the engine's own run of a plan agrees with the sequential one.
\<close>

definition quiet :: "('b, 'o, 'e, 'w) handlers \<Rightarrow> 'b \<Rightarrow> 'e set \<Rightarrow> bool" where
  "quiet hs b E \<longleftrightarrow> (\<forall>h \<in> snd ` set hs. \<forall>st sh w. sh_base sh = b \<longrightarrow>
     snd (snd (h st sh w)) = w \<and> sh_base (fst (snd (h st sh w))) = b \<and>
     set (sh_evidence (fst (snd (h st sh w)))) \<subseteq> set (sh_evidence sh) \<union> E)"

lemma execute_step_quiet:
  assumes "quiet hs b E" "sh_base sh = b" "execute_step hs st sh completed w = (st', sh', completed', w')"
  shows "w' = w" "sh_base sh' = b" "set (sh_evidence sh') \<subseteq> set (sh_evidence sh) \<union> E"
proof -
  have "w' = w \<and> sh_base sh' = b \<and> set (sh_evidence sh') \<subseteq> set (sh_evidence sh) \<union> E"
  proof (cases "dependencies_met st completed \<and> map_of hs (ps_type st) \<noteq> None")
    case False
    then show ?thesis using assms(2,3) by (auto simp: execute_step_def Let_def split: if_splits)
  next
    case True
    then obtain h where h: "map_of hs (ps_type st) = Some h" by auto
    let ?r = "h (st\<lparr>ps_status := SS_RUNNING\<rparr>) (sh\<lparr>sh_results := completed\<rparr>) w"
    have "h \<in> snd ` set hs" using map_of_SomeD [OF h] by force
    then have "sh_base t = b \<longrightarrow> snd (snd (h u t v)) = v \<and> sh_base (fst (snd (h u t v))) = b \<and>
        set (sh_evidence (fst (snd (h u t v)))) \<subseteq> set (sh_evidence t) \<union> E" for u t v
      using assms(1) unfolding quiet_def by blast
    from this [of "sh\<lparr>sh_results := completed\<rparr>"]
    have q: "snd (snd ?r) = w \<and> sh_base (fst (snd ?r)) = b \<and> set (sh_evidence (fst (snd ?r))) \<subseteq> set (sh_evidence sh) \<union> E"
      using assms(2) by simp
    obtain r sh2 w2 where r: "?r = (r, sh2, w2)" by (metis prod.collapse)
    show ?thesis
      using assms(3) True q h unfolding r by (cases r) (auto simp: execute_step_def Let_def r)
  qed
  then show "w' = w" "sh_base sh' = b" "set (sh_evidence sh') \<subseteq> set (sh_evidence sh) \<union> E" by simp_all
qed

lemma execute_plan_quiet:
  assumes "quiet hs b E" "sh_base sh = b" "execute_plan hs sts sh completed w = (sts', sh', w')"
  shows "w' = w \<and> set (sh_evidence sh') \<subseteq> set (sh_evidence sh) \<union> E"
  using assms(2,3)
proof (induction sts arbitrary: sts' sh completed w)
  case (Cons st sts)
  obtain st1 sh1 completed1 w1 where s: "execute_step hs st sh completed w = (st1, sh1, completed1, w1)"
    using prod_cases4 by blast
  obtain sts2 where p: "execute_plan hs sts sh1 completed1 w1 = (sts2, sh', w')"
    using Cons.prems(2) s by (auto split: prod.splits)
  note q = execute_step_quiet [OF assms(1) Cons.prems(1) s]
  show ?case using Cons.IH [OF q(2) p] q by auto
qed simp

lemma isolated_quiet:
  assumes "quiet hs b E" "execute_isolated_step hs b st completed w = ((st', ev), w')"
  shows "w' = w" "set ev \<subseteq> E"
proof -
  let ?sh = "\<lparr>sh_base = b, sh_evidence = [], sh_results = [], sh_trace = []\<rparr>"
  obtain sh' completed' where s: "execute_step hs st ?sh completed w = (st', sh', completed', w')" "ev = sh_evidence sh'"
    using assms(2) by (auto simp: execute_isolated_step_def Let_def split: prod.splits)
  show "w' = w" "set ev \<subseteq> E" using execute_step_quiet [OF assms(1) _ s(1)] s(2) by auto
qed

definition quiet_run :: "'e set \<Rightarrow> ('o, 'e, 'w) run \<Rightarrow> ('o, 'e, 'w) run \<Rightarrow> bool" where
  "quiet_run E s s' \<longleftrightarrow> rn_world s' = rn_world s \<and> (set (rn_evidence s) \<subseteq> E \<longrightarrow> set (rn_evidence s') \<subseteq> E)"

lemma quiet_run_refl: "quiet_run E s s"
  by (simp add: quiet_run_def)

lemma quiet_run_trans: "quiet_run E s s1 \<Longrightarrow> quiet_run E s1 s2 \<Longrightarrow> quiet_run E s s2"
  by (auto simp: quiet_run_def)

lemma fold_quiet: "(\<And>k s. quiet_run E s (f k s)) \<Longrightarrow> quiet_run E s (fold f ks s)"
  by (induction ks arbitrary: s) (auto intro: quiet_run_refl quiet_run_trans)

lemma merge_outcome_quiet: "set (snd out) \<subseteq> E \<Longrightarrow> quiet_run E s (merge_outcome i out s)"
  by (auto simp: quiet_run_def merge_outcome_def split: option.splits bool.splits)

lemma run_one_quiet:
  assumes "quiet hs b E"
  shows "quiet_run E s (run_one hs b k s)"
proof -
  obtain st ev w where r: "execute_isolated_step hs b (rn_steps s ! k) (rn_completed s) (rn_world s) = ((st, ev), w)"
    by (metis prod.collapse)
  note q = isolated_quiet [OF assms r]
  have "quiet_run E (s\<lparr>rn_steps := (rn_steps s)[k := st], rn_world := w\<rparr>) (run_one hs b k s)"
    using merge_outcome_quiet [of "(st, ev)" E] q(2) by (simp add: run_one_def r)
  then show ?thesis using q(1) by (simp add: quiet_run_def)
qed

lemma run_blocked_quiet:
  assumes "quiet hs b E"
  shows "quiet_run E s (run_blocked hs b k s)"
proof -
  obtain st sh completed w where r: "execute_step hs (rn_steps s ! k)
      \<lparr>sh_base = b, sh_evidence = rn_evidence s, sh_results = rn_completed s, sh_trace = []\<rparr> (rn_completed s) (rn_world s) =
      (st, sh, completed, w)" by (metis prod.collapse)
  show ?thesis
    using execute_step_quiet [OF assms _ r] by (auto simp: quiet_run_def run_blocked_def r)
qed

lemma run_pool_quiet:
  assumes "quiet hs b E"
  shows "run_pool hs b snap ks steps w = (outs, steps', w') \<Longrightarrow> w' = w \<and> (\<forall>(k, st, ev) \<in> set outs. set ev \<subseteq> E)"
proof (induction ks arbitrary: steps w outs)
  case (Cons k ks)
  obtain st ev w1 where r: "execute_isolated_step hs b (steps ! k) snap w = ((st, ev), w1)" by (metis prod.collapse)
  obtain outs' where p: "run_pool hs b snap ks (steps[k := st]) w1 = (outs', steps', w')" "outs = (k, st, ev) # outs'"
    using Cons.prems r by (auto split: prod.splits)
  show ?case using Cons.IH [OF p(1)] isolated_quiet [OF assms r] p(2) by auto
qed simp

lemma outcome_dict_mem:
  assumes "(i, out) \<in> set (outcome_dict steps ks outs)"
  shows "\<exists>k. (k, out) \<in> set outs"
proof -
  have "(i, out) \<in> set (fold (\<lambda>k d. case map_of outs k of Some out \<Rightarrow> AList.update (ps_id (steps ! k)) out d | None \<Rightarrow> d) ks d) \<Longrightarrow>
      (i, out) \<in> set d \<or> (\<exists>k. (k, out) \<in> set outs)" for d
  proof (induction ks arbitrary: d)
    case (Cons k ks)
    then show ?case
      by (cases "map_of outs k") (auto dest!: Cons.IH alist_update_mem dest: map_of_SomeD)
  qed simp
  from this [of "[]"] show ?thesis using assms by (simp add: outcome_dict_def)
qed

lemma run_batch_quiet:
  fixes s :: "('o, 'e, 'w) run"
  assumes "quiet hs b E"
  shows "quiet_run E s (run_batch hs b sched ks s)"
proof -
  obtain outs steps w where r: "run_pool hs b (rn_completed s) (sched ks) (rn_steps s) (rn_world s) = (outs, steps, w)"
    by (metis prod.collapse)
  note q = run_pool_quiet [OF assms r]
  let ?d = "outcome_dict steps ks outs"
  have "quiet_run E t (merge_by_id ?d k t)" for k and t :: "('o, 'e, 'w) run"
  proof (cases "map_of ?d (ps_id (rn_steps t ! k))")
    case (Some out)
    obtain j where "(j, out) \<in> set outs" using outcome_dict_mem map_of_SomeD [OF Some] by metis
    then have "set (snd out) \<subseteq> E" using q by (cases out) auto
    then show ?thesis using Some by (simp add: merge_by_id_def merge_outcome_quiet)
  qed (simp add: merge_by_id_def quiet_run_refl)
  then have "quiet_run E (s\<lparr>rn_steps := steps, rn_world := w\<rparr>) (run_batch hs b sched ks s)"
    unfolding run_batch_def r by (simp add: fold_quiet [of E "merge_by_id ?d"])
  then show ?thesis using q by (simp add: quiet_run_def)
qed

lemma run_round_quiet:
  assumes "quiet hs b E"
  shows "quiet_run E s (run_round hs b m sched ready s)"
proof -
  have ones: "quiet_run E t (fold (run_one hs b) ks t)" for ks t
    by (rule fold_quiet) (rule run_one_quiet [OF assms])
  show ?thesis
    unfolding run_round_def Let_def
    by (rule quiet_run_trans [OF _ ones]) (simp add: ones run_batch_quiet [OF assms])
qed

lemma parallel_loop_quiet:
  assumes "quiet hs b E"
  shows "quiet_run E s (parallel_loop hs b m sched pending s)"
  using assms
proof (induction hs b m sched pending s rule: parallel_loop.induct)
  case (1 hs b m sched pending s)
  show ?case
  proof (cases "pending = [] \<or> ready_steps s pending = []")
    case True
    then show ?thesis
      using 1(2) by (subst parallel_loop.simps) (auto intro: quiet_run_refl fold_quiet run_blocked_quiet)
  next
    case False
    then show ?thesis
      using 1 by (subst parallel_loop.simps) (auto intro: quiet_run_trans run_round_quiet)
  qed
qed

lemma runs_quiet:
  assumes "quiet hs b E"
  shows "rn_world (execute_sequential hs b tasks w) = w" "set (rn_evidence (execute_sequential hs b tasks w)) \<subseteq> E"
    "rn_world (execute_parallel_retrievals hs b par sched tasks w) = w" "set (rn_evidence (execute_parallel_retrievals hs b par sched tasks w)) \<subseteq> E"
  using fold_quiet [of E "run_one hs b", OF run_one_quiet [OF assms], of "start_run tasks w"] parallel_loop_quiet [OF assms, of "start_run tasks w"]
  by (auto simp: execute_sequential_def execute_parallel_retrievals_def quiet_run_def start_run_def)

subsection \<open>The engine and the sequential run\<close>

context stateless_handlers
begin

lemma execute_completed:
  assumes "execute_step hs st sh completed w = (st', sh', completed', w')"
  shows "fst ` set completed' = (if dependencies_met st completed \<and> runs_ok answer (sh_base sh) st
    then insert (ps_id st) (fst ` set completed) else fst ` set completed)"
proof (cases "\<not> dependencies_met st completed \<or> map_of hs (ps_type st) = None")
  case True
  then show ?thesis
    using assms unregistered [of "ps_type st"]
    by (auto simp: execute_step_def runs_ok_def Let_def split: if_splits option.splits)
next
  case False
  then obtain h f where h: "map_of hs (ps_type st) = Some h" and f: "answer (ps_type st) = Some f"
    using unregistered [of "ps_type st"] by auto
  let ?st = "st\<lparr>ps_status := SS_RUNNING\<rparr>" and ?sh = "sh\<lparr>sh_results := completed\<rparr>"
  obtain r sh2 w2 where r: "h ?st ?sh w = (r, sh2, w2)" using prod_cases3 by blast
  then have "runs_ok answer (sh_base sh) st \<longleftrightarrow> is_ok r" using outcome_law [OF h f, of ?st ?sh w] f by (simp add: runs_ok_def)
  moreover have "fst ` set completed' = (if is_ok r then insert (ps_id st) (fst ` set completed) else fst ` set completed)"
  proof -
    have "completed' = (case r of Inl _ \<Rightarrow> completed | Inr out \<Rightarrow> AList.update (ps_id st) out completed)"
      using assms False h by (auto simp: execute_step_def r Let_def split: sum.splits)
    then show ?thesis by (cases r) (simp_all add: update_key_image)
  qed
  ultimately show ?thesis using False by simp
qed

text \<open>A run of the engine on one shared context, when failing handlers bring no evidence.\<close>

lemma execute_plan_inv:
  assumes con: "consistent answer b G tasks" and silent: "\<And>ty f st e ev. answer ty = Some f \<Longrightarrow> f st b = (Inl e, ev) \<Longrightarrow> ev = []"
    and "execute_plan hs (drop n tasks) sh completed w = (sts', sh', w')" "sh_base sh = b" "n \<le> length tasks"
    and "set (map fst completed) = G \<inter> (\<lambda>k. ps_id (tasks ! k)) ` {..<n}"
    and quiet: "quiet hs b E"
  shows "sts' = map (\<lambda>st. fst (final_step answer b G st)) (drop n tasks) \<and>
    sh_evidence sh' = sh_evidence sh @ concat (map (final_evidence answer b G) (drop n tasks))"
  using assms(3-6)
proof (induction "length tasks - n" arbitrary: n sh completed w sts')
  case 0
  then show ?case by simp
next
  case (Suc m)
  then have n: "n < length tasks" by simp
  let ?st = "tasks ! n"
  have d: "drop n tasks = ?st # drop (Suc n) tasks" using n by (rule Cons_nth_drop_Suc [symmetric])
  obtain st1 sh1 completed1 w1 where s: "execute_step hs ?st sh completed w = (st1, sh1, completed1, w1)"
    using prod_cases4 by blast
  obtain sts2 where p: "execute_plan hs (drop (Suc n) tasks) sh1 completed1 w1 = (sts2, sh', w')" "sts' = st1 # sts2"
    using Suc.prems(1) s unfolding d by (auto split: prod.splits)
  have deps: "set (ps_depends_on ?st) \<subseteq> (\<lambda>j. ps_id (tasks ! j)) ` {..<n}" using con n by (simp add: consistent_def)
  have met: "dependencies_met ?st completed \<longleftrightarrow> set (ps_depends_on ?st) \<subseteq> G"
    using deps Suc.prems(4) by (auto simp: dependencies_met_def list_all_iff)
  have fin: "st1 = fst (final_step answer b G ?st)" "sh_evidence sh1 = sh_evidence sh @ snd (final_step answer b G ?st)"
    using execute_answered [OF s] Suc.prems(2) met by (simp_all add: final_step_def)
  have good: "ps_id ?st \<in> G \<longleftrightarrow> set (ps_depends_on ?st) \<subseteq> G \<and> runs_ok answer b ?st" using con n by (simp add: consistent_def)
  have ev: "snd (final_step answer b G ?st) = final_evidence answer b G ?st"
    using good silent by (auto simp: final_evidence_def final_step_def answered_def runs_ok_def split: option.splits prod.splits sum.splits)
  have base: "sh_base sh1 = b"
    by (rule execute_step_quiet(2) [OF quiet Suc.prems(2) s])
  have "set (map fst completed1) = G \<inter> (\<lambda>k. ps_id (tasks ! k)) ` {..<Suc n}"
    using execute_completed [OF s] Suc.prems(2,4) good met by (auto simp: lessThan_Suc)
  from Suc.hyps(1) [OF _ p(1) base _ this] have "sts2 = map (\<lambda>st. fst (final_step answer b G st)) (drop (Suc n) tasks) \<and>
    sh_evidence sh' = sh_evidence sh1 @ concat (map (final_evidence answer b G) (drop (Suc n) tasks))" using Suc.hyps(2) n by simp
  then show ?case using fin ev p(2) unfolding d by simp
qed

lemma engine_is_sequential:
  assumes wf: "wf_steps tasks" and quiet: "quiet hs b E"
    and silent: "\<And>ty f st e ev. answer ty = Some f \<Longrightarrow> f st b = (Inl e, ev) \<Longrightarrow> ev = []"
    and run: "execute_plan hs tasks \<lparr>sh_base = b, sh_evidence = [], sh_results = [], sh_trace = []\<rparr> [] w = (sts, sh, w')"
  shows "sts = rn_steps (execute_sequential hs b tasks w'') \<and> sh_evidence sh = rn_evidence (execute_sequential hs b tasks w'')"
proof -
  let ?G = "good_ids answer b {} tasks"
  note con = wf_steps_consistent [OF wf, of answer b]
  note seq = sequential_inv [OF con, of w'']
  have plan: "sts = map (\<lambda>st. fst (final_step answer b ?G st)) tasks \<and> sh_evidence sh = concat (map (final_evidence answer b ?G) tasks)"
    using execute_plan_inv [OF con, of 0 _ "[]" w sts sh w' E] silent run quiet by simp
  have "map (\<lambda>st. fst (final_step answer b ?G st)) tasks = rn_steps (execute_sequential hs b tasks w'')"
    using seq by (intro nth_equalityI) (simp_all add: run_inv_def)
  moreover have "map (\<lambda>k. final_evidence answer b ?G (tasks ! k)) [0..<length tasks] = map (final_evidence answer b ?G) tasks"
    by (rule nth_equalityI) simp_all
  then have "rn_evidence (execute_sequential hs b tasks w'') = concat (map (final_evidence answer b ?G) tasks)"
    using seq unfolding run_inv_def by metis
  ultimately show ?thesis using plan by simp
qed

end

end
