(* ===== verification/Retrieval_Origin.thy ===== *)
theory Retrieval_Origin
  imports Hybrid_Retrieval
begin

text \<open>
  Where the results of \<^verbatim>\<open>retrieval/hybrid_retriever.py\<close> come from: every one is a result of
  the vector search or of the lexical corpus with its score and the ranking fields rewritten. The tenant
  check of the retriever lets a result pass whose metadata names no tenant; over a store that tags
  whatever it hands out, results are recorded under a tenant of the request.
\<close>

subsection \<open>Where a retrieved result comes from\<close>

text \<open>Ranking only changes the score of a result and the metadata fields it owns.\<close>

definition same_record :: "result \<Rightarrow> result \<Rightarrow> bool" where
  "same_record r r' \<longleftrightarrow> r_doc r = r_doc r' \<and> r_chunk r = r_chunk r' \<and> r_content r = r_content r' \<and>
     (\<forall>k. k \<notin> set ranking_fields \<longrightarrow> meta_get r k = meta_get r' k)"

lemma same_record_refl: "same_record r r"
  by (simp add: same_record_def)

lemma same_record_trans: "same_record a b \<Longrightarrow> same_record b c \<Longrightarrow> same_record a c"
  by (simp add: same_record_def)

lemma vector_candidates_origin:
  assumes "r \<in> set (vector_candidates u dep st ctx q k)"
  shows "\<exists>t. r \<in> set (similarity_search st (embed dep q) k t)"
proof -
  have "r \<in> set (concat (map (\<lambda>t. scoped ctx t (similarity_search st (embed dep q) k t)) (tenant_scopes ctx)))"
    using assms retrieval_dedup.dedup_set unfolding vector_candidates_def
    by (metis (no_types, lifting) in_set_takeD set_globally_rank subsetD)
  then show ?thesis by (auto simp: scoped_def apply_filters_def apply_tenant_scope_def)
qed

lemma load_scopes_origin:
  "load_scopes loader ctx ts = Inr docs \<Longrightarrow> r \<in> set docs \<Longrightarrow> \<exists>t ds. loader t = Inr ds \<and> r \<in> set ds"
  by (induction ts arbitrary: docs) (auto 0 5 simp: scoped_def apply_filters_def apply_tenant_scope_def split: sum.splits)

lemma lexical_corpus_origin:
  assumes "load_lexical_corpus u st ctx = Some docs" "r \<in> set docs"
  shows "\<exists>loader t ds. lexical_corpus st = Some loader \<and> loader t = Inr ds \<and> r \<in> set ds"
proof -
  obtain loader ds where l: "lexical_corpus st = Some loader" "load_scopes loader ctx (tenant_scopes ctx) = Inr ds"
    and docs: "docs = deduplicate u (sort_key (\<lambda>r. (r_doc r, r_chunk r)) ds)"
    using assms(1) by (auto simp: load_lexical_corpus_def split: option.splits sum.splits)
  have "r \<in> set ds" using assms(2) retrieval_dedup.dedup_set unfolding docs by (metis set_sort subsetD)
  then show ?thesis using load_scopes_origin [OF l(2)] l(1) by blast
qed

lemma with_bm25_same: "same_record (with_bm25 p) (fst p)"
  by (auto simp: same_record_def with_bm25_def split_def meta_get_def get_or_update ranking_fields_def)

lemma bm25_search_origin:
  assumes "r \<in> set (bm25_search u sc q docs k)"
  shows "\<exists>d \<in> set docs. same_record r d"
proof -
  obtain ps where ps: "bm25_search u sc q docs k = map with_bm25 (take k (sort_key (\<lambda>(d, s). (- s, r_doc d, r_chunk d)) ps))"
      "subseq (map fst ps) docs"
    using assms bm25_search_eq [of u sc q docs k] by auto
  obtain p where p: "p \<in> set ps" "r = with_bm25 p" using assms ps(1) by (auto dest: in_set_takeD)
  moreover have "fst p \<in> set docs" using subseq_set_subset [OF ps(2)] p by auto
  ultimately show ?thesis using with_bm25_same by blast
qed

lemma fused_result_origin:
  assumes "key \<in> set (fused_keys u c lw vs ls)"
  shows "\<exists>r \<in> set vs \<union> set ls. same_record (fused_result u c lw vs ls key) r"
proof -
  obtain r where r: "map_of (f_records (fuse_all u c lw vs ls)) key = Some r" "r \<in> set vs \<union> set ls"
    using assms record_of_key [of key u c lw vs ls] by (auto simp: fused_keys_def)
  have "same_record (fused_result u c lw vs ls key) r"
    by (simp add: same_record_def fused_result_def r(1) Let_def meta_get_def fused_metadata_frame)
  then show ?thesis using r(2) by blast
qed

lemma retrieve_origin:
  assumes "r \<in> set (retrieve u c dep st ctx)"
    and vec: "\<And>q k t x. x \<in> set (similarity_search st (embed dep q) k t) \<Longrightarrow> P x"
    and lex: "\<And>loader t ds x. lexical_corpus st = Some loader \<Longrightarrow> loader t = Inr ds \<Longrightarrow> x \<in> set ds \<Longrightarrow> P x"
    and cong: "\<And>x y. same_record x y \<Longrightarrow> P y \<Longrightarrow> P x"
  shows "P r"
proof (cases rule: retrieve_cases [of u c dep st ctx])
  case 1
  then show ?thesis using assms(1) by simp
next
  case (2 q cand)
  then show ?thesis using assms(1) vector_candidates_origin vec by (metis in_set_takeD)
next
  case (3 q cand docs lw)
  let ?vs = "vector_candidates u dep st ctx q cand" and ?ls = "bm25_search u (bm25_scores dep) q docs cand"
  have "P x" if "x \<in> set ?vs \<union> set ?ls" for x
    using that vector_candidates_origin vec bm25_search_origin lexical_corpus_origin [OF 3(1)] lex cong by (metis Un_iff)
  moreover obtain key where "key \<in> set (fused_keys u c lw ?vs ?ls)" "r = fused_result u c lw ?vs ?ls key"
    using assms(1) unfolding 3(2) fusion_eq by (auto dest!: in_set_takeD)
  ultimately show ?thesis using fused_result_origin cong by blast
qed

subsection \<open>Tenants of tagged results\<close>

definition recorded_for :: "int \<Rightarrow> result \<Rightarrow> bool" where
  "recorded_for t r \<longleftrightarrow> py_eq (meta_get r ''tenant_id'') (JInt t)"

definition tagged :: "result \<Rightarrow> bool" where
  "tagged r \<longleftrightarrow> meta_get r ''tenant_id'' \<noteq> JNull"

text \<open>A store whose searches and whose lexical corpus only return results with a tenant in the metadata.\<close>

definition tags_tenants :: "'e store \<Rightarrow> bool" where
  "tags_tenants st \<longleftrightarrow> (\<forall>q k t. list_all tagged (similarity_search st q k t)) \<and>
     (\<forall>loader t ds. lexical_corpus st = Some loader \<longrightarrow> loader t = Inr ds \<longrightarrow> list_all tagged ds)"

lemma in_scope_cases: "in_scope t r \<longleftrightarrow> \<not> tagged r \<or> recorded_for t r"
  by (simp add: in_scope_def tagged_def recorded_for_def)

lemma retrieve_tagged:
  assumes "tags_tenants st" "r \<in> set (retrieve u c dep st ctx)"
  shows "tagged r"
proof (rule retrieve_origin [OF assms(2)])
  fix q k t x assume "x \<in> set (similarity_search st (embed dep q) k t)"
  then show "tagged x" using assms(1) by (simp add: tags_tenants_def list_all_iff)
next
  fix loader t ds x assume "lexical_corpus st = Some loader" "loader t = Inr ds" "x \<in> set ds"
  then show "tagged x" using assms(1) by (auto simp: tags_tenants_def list_all_iff)
next
  fix x y assume "same_record x y" "tagged y"
  then show "tagged x" by (simp add: same_record_def tagged_def ranking_fields_def)
qed

text \<open>
  What every result says of its tenant: a scope of the request, or none; over a store that tags, a scope of the request.
\<close>

lemma retrieve_tenant:
  assumes "r \<in> set (retrieve u c dep st ctx)" "set (tenant_scopes ctx) \<subseteq> {t, 0}"
  shows "(recorded_for t r \<or> recorded_for 0 r \<or> \<not> tagged r) \<and> (tags_tenants st \<longrightarrow> recorded_for t r \<or> recorded_for 0 r)"
proof -
  have "list_all (visible ctx) (retrieve u c dep st ctx)" by (rule retrieve_visible)
  then obtain s where "s \<in> set (tenant_scopes ctx)" "in_scope s r"
    using assms(1) by (auto simp: list_all_iff visible_def)
  then show ?thesis
    using assms(2) retrieve_tagged [OF _ assms(1)] by (auto simp: in_scope_cases)
qed

end
