(* ===== verification/Agent_Runtime.thy ===== *)
theory Agent_Runtime
  imports Agent_Strategy Answer_Report Llm_Settings Quiet_Handlers Retrieval_Origin
begin

text \<open>
  The agent as \<^verbatim>\<open>core/core_engine.py\<close> composes it: the step handlers it registers, the execution handlers
  and the dispatcher of \<^verbatim>\<open>agent/execution/\<close>, the runtime \<^verbatim>\<open>agent/agent_runtime.py\<close> (without
  memory, metrics and reliability engines, which the composition does not pass) and \<open>run_rag\<close>.

  What surrounds a run is the record \<open>runtime_env\<close>: language data, text encoding, \<open>math.pow\<close>, measured time,
  \<open>str()\<close>, the retriever, the prompt registry, the provider registry and the SDKs. The world is that of the SDKs, so a
  call of a model can be seen. Questions are texts of code points; they enter the tool layer through \<open>enc\<close>.
\<close>

record 'w runtime_env =
  rv_lang :: lang
  rv_texts :: texts
  rv_pow :: pow_fn
  rv_ms :: rat
  rv_str :: "json \<Rightarrow> string"
  rv_retrieve :: "request \<Rightarrow> adapter_answer"
  rv_llm :: llm_env
  rv_sdks :: "'w sdks"
  rv_providers :: "'w provider_registry"
  rv_prompts :: prompt_registry
  rv_sched :: "nat list \<Rightarrow> nat list"
  rv_debug :: bool

record request_scope =
  sc_tenant :: int
  sc_thread :: "string option"
  sc_public :: bool

type_synonym agent_step = "step_output step"
type_synonym agent_shared = "(request_scope, step_output, core_evidence) shared"
type_synonym 'w agent_handler = "(request_scope, step_output, core_evidence, 'w) handler"

subsection \<open>Step handlers\<close>

fun param_json :: "texts \<Rightarrow> param \<Rightarrow> json" where
  "param_json tx (PJson v) = v"
| "param_json tx (PTexts ts) = JArr (map (\<lambda>t. JStr (enc tx t)) ts)"

definition step_parameters :: "texts \<Rightarrow> agent_step \<Rightarrow> obj" where
  "step_parameters tx st = map (\<lambda>(k, v). (k, param_json tx v)) (ps_parameters st)"

text \<open>\<open>dict(filters or {})\<close>\<close>

definition step_filters :: "texts \<Rightarrow> agent_step \<Rightarrow> exn + obj" where
  "step_filters tx st = (case get_or (step_parameters tx st) ''filters'' (JObj []) of
      JObj ob \<Rightarrow> Inr ob
    | v \<Rightarrow> if v \<in> {JNull, JBool False, JInt 0, JStr [], JArr [], JFloat (Fin 0)} then Inr []
          else Inl (Exn ''TypeError'' ''filters is not a mapping''))"

definition retrieve_step :: "'w runtime_env \<Rightarrow> agent_step \<Rightarrow> request_scope \<Rightarrow> exn + core_evidence list" where
  "retrieve_step rv st sc = (let tx = rv_texts rv in
     try_then (step_filters tx st) (\<lambda>fs.
       tenant_execute (rv_pow rv) (rv_ms rv) (rv_retrieve rv) (enc tx (case ps_query st of Some q \<Rightarrow> q | None \<Rightarrow> [])) (sc_tenant sc)
         (map_option (enc tx) (ps_company st)) (map (enc tx) (ps_document_ids st))
         (get_or (step_parameters tx st) ''top_k'' (JInt 4)) fs (sc_public sc)))"

definition retrieve_handler :: "'w runtime_env \<Rightarrow> 'w agent_handler" where
  "retrieve_handler rv st sh w = (case retrieve_step rv st (sh_base sh) of
      Inl e \<Rightarrow> (Inl e, sh, w)
    | Inr es \<Rightarrow> (Inr (Evidences es), sh\<lparr>sh_evidence := sh_evidence sh @ es\<rparr>, w))"

definition nothing_handler :: "'w agent_handler" where
  "nothing_handler st sh w = (Inr NoOutput, sh, w)"

definition authorize_financial_metrics_tool :: "unit auth_hook" where
  "authorize_financial_metrics_tool name ctx =
     (if name \<noteq> ''financial_metrics'' then AnswerDecision \<lparr>d_allowed = False,
        d_reason = Some (''Tool '' @ quoted name @ '' is not authorized for Agent execution''),
        d_metadata = [(''policy'', JStr ''agent_financial_metrics_v1'')]\<rparr>
      else case operation_supported (tc_parameters ctx) of
        Inl _ \<Rightarrow> AnswerRaises
      | Inr False \<Rightarrow> AnswerDecision \<lparr>d_allowed = False, d_reason = Some ''Financial metric operation is not authorized'',
          d_metadata = [(''policy'', JStr ''agent_financial_metrics_v1'')]\<rparr>
      | Inr True \<Rightarrow> AnswerDecision \<lparr>d_allowed = True, d_reason = None,
          d_metadata = [(''policy'', JStr ''agent_financial_metrics_v1''), (''operation'', get_or (tc_parameters ctx) ''operation'' JNull)]\<rparr>)"

definition metrics_tool_result :: "'w runtime_env \<Rightarrow> agent_step \<Rightarrow> request_scope \<Rightarrow> exn + tool_result" where
  "metrics_tool_result rv st sc = fst (engine_execute (Some authorize_financial_metrics_tool) (register_builtin_tools (rv_pow rv) (rv_ms rv) [])
     \<lparr>tc_tenant = JInt (sc_tenant sc), tc_parameters = step_parameters (rv_texts rv) st, tc_adapter = None\<rparr>
     (case ps_tool_name st of Some n \<Rightarrow> n | None \<Rightarrow> []) ())"

definition error_or :: "string option \<Rightarrow> string \<Rightarrow> string" where
  "error_or e d = (case e of Some m \<Rightarrow> if m = [] then d else m | None \<Rightarrow> d)"

definition metrics_trace :: "'w runtime_env \<Rightarrow> agent_step \<Rightarrow> tool_result \<Rightarrow> obj" where
  "metrics_trace rv st r = [(''step_id'', JInt (ps_id st)), (''tool_name'', JStr (case ps_tool_name st of Some n \<Rightarrow> n | None \<Rightarrow> [])),
     (''operation'', get_or (step_parameters (rv_texts rv) st) ''operation'' JNull), (''status'', JStr (status_value (tr_status r))),
     (''latency_ms'', JFloat (Fin (tr_latency_ms r))), (''policy'', JStr ''agent_financial_metrics_v1''),
     (if tr_status r = TS_SUCCESS then (''output'', tr_output r) else (''error'', JStr (error_or (tr_error r) ''Tool execution failed'')))]"

definition FinancialMetricsStepHandler :: "'w runtime_env \<Rightarrow> 'w agent_handler" where
  "FinancialMetricsStepHandler rv st sh w = (case metrics_tool_result rv st (sh_base sh) of
      Inl e \<Rightarrow> (Inl e, sh, w)
    | Inr r \<Rightarrow>
        (let sh1 = sh\<lparr>sh_trace := sh_trace sh @ [metrics_trace rv st r]\<rparr> in
         if tr_status r \<noteq> TS_SUCCESS
         then (Inl (Exn ''RuntimeError'' (error_or (tr_error r) ''Financial metrics tool execution failed'')), sh1, w)
         else case tr_output r of
            JObj ob \<Rightarrow> (Inr (ToolOutput (JObj ob)), sh1, w)
          | _ \<Rightarrow> (Inl (Exn ''RuntimeError'' ''Financial metrics tool returned an invalid result''), sh1, w)))"

text \<open>The handlers that are registered; there is none for reasoning steps.\<close>

definition engine_handlers :: "'w runtime_env \<Rightarrow> (request_scope, step_output, core_evidence, 'w) handlers" where
  "engine_handlers rv = register_handler TOOL_CALL (FinancialMetricsStepHandler rv) (register_handler SYNTHESIS nothing_handler
     (register_handler COMPARE nothing_handler (register_handler RETRIEVE (retrieve_handler rv) [])))"

subsection \<open>Execution handlers\<close>

record execution_output =
  eo_context :: string
  eo_citations :: "obj list"
  eo_evidences :: "core_evidence list"
  eo_results :: "step_output step_result list"
  eo_tool_calls :: "obj list"

definition ExecutionOutput :: execution_output where
  "ExecutionOutput = \<lparr>eo_context = [], eo_citations = [], eo_evidences = [], eo_results = [], eo_tool_calls = []\<rparr>"

definition output_from_evidence :: "'w runtime_env \<Rightarrow> agent_step list \<Rightarrow> core_evidence list \<Rightarrow> execution_output" where
  "output_from_evidence rv steps evs = (let (ctx, cs) = build_context_from_evidence (rv_str rv) evs in
     ExecutionOutput\<lparr>eo_context := ctx, eo_citations := cs, eo_evidences := evs, eo_results := collected_results steps\<rparr>)"

text \<open>A handler gives its output and the steps of the plan, which it has updated.\<close>

type_synonym 'w execution_handler = "'w runtime_env \<Rightarrow> request_scope \<Rightarrow> int \<Rightarrow> agent_step list \<Rightarrow> 'w \<Rightarrow> execution_output \<times> agent_step list \<times> 'w"

definition DirectLLMHandler :: "'w execution_handler" where
  "DirectLLMHandler rv sc par steps w = (ExecutionOutput, steps, w)"

definition RagHandler :: "'w execution_handler" where
  "RagHandler rv sc par steps w =
     (let (steps1, sh, w1) = execute_plan (engine_handlers rv) steps \<lparr>sh_base = sc, sh_evidence = [], sh_results = [], sh_trace = []\<rparr> [] w
      in (output_from_evidence rv steps1 (sh_evidence sh), steps1, w1))"

definition MultiStepHandler :: "'w execution_handler" where
  "MultiStepHandler rv sc par steps w =
     (let r = execute_sequential (engine_handlers rv) sc steps w in (output_from_evidence rv (rn_steps r) (rn_evidence r), rn_steps r, rn_world r))"

definition ParallelHandler :: "'w execution_handler" where
  "ParallelHandler rv sc par steps w =
     (let r = execute_parallel_retrievals (engine_handlers rv) sc par (rv_sched rv) steps w
      in (output_from_evidence rv (rn_steps r) (rn_evidence r), rn_steps r, rn_world r))"

fun StepStatus_value :: "StepStatus \<Rightarrow> string" where
  "StepStatus_value SS_PENDING = ''pending''"
| "StepStatus_value SS_RUNNING = ''running''"
| "StepStatus_value SS_COMPLETED = ''completed''"
| "StepStatus_value SS_FAILED = ''failed''"
| "StepStatus_value SS_SKIPPED = ''skipped''"

definition rejection_trace :: "'w runtime_env \<Rightarrow> agent_step \<Rightarrow> string \<Rightarrow> StepStatus \<Rightarrow> obj" where
  "rejection_trace rv st err status = [(''step_id'', JInt (ps_id st)), (''tool_name'', opt_str (ps_tool_name st)),
     (''operation'', get_or (step_parameters (rv_texts rv) st) ''operation'' JNull), (''status'', JStr (StepStatus_value status)),
     (''error'', JStr err), (''policy'', JStr ''financial_metrics_only'')]"

definition record_rejection :: "'w runtime_env \<Rightarrow> agent_step \<Rightarrow> string \<Rightarrow> StepStatus \<Rightarrow> agent_shared \<Rightarrow> agent_step \<times> agent_shared" where
  "record_rejection rv st err status sh = (finish_step st status (failed_result (ps_id st) err),
     sh\<lparr>sh_trace := sh_trace sh @ [rejection_trace rv st err status]\<rparr>)"

definition missing_trace :: "'w runtime_env \<Rightarrow> agent_step \<Rightarrow> step_output step_result \<Rightarrow> obj" where
  "missing_trace rv st r = [(''step_id'', JInt (ps_id st)), (''tool_name'', opt_str (ps_tool_name st)),
     (''operation'', get_or (step_parameters (rv_texts rv) st) ''operation'' JNull),
     (''status'', JStr (if sr_success r then ''success'' else ''failed'')), (''policy'', JStr ''financial_metrics_only''),
     (if sr_success r then (''output'', case sr_output r of Some (ToolOutput v) \<Rightarrow> v | _ \<Rightarrow> JNull)
      else (''error'', JStr (error_or (sr_error r) ''Tool execution failed'')))]"

definition run_tool_step :: "'w runtime_env \<Rightarrow> agent_step \<Rightarrow> agent_shared \<Rightarrow> (int \<times> step_output) list \<Rightarrow> 'w
    \<Rightarrow> agent_step \<times> agent_shared \<times> (int \<times> step_output) list \<times> 'w" where
  "run_tool_step rv st sh completed w =
     (if \<not> dependencies_met st completed
      then let (st1, sh1) = record_rejection rv st ''Dependencies not met'' SS_SKIPPED sh in (st1, sh1, completed, w)
      else if ps_type st \<noteq> TOOL_CALL
      then let (st1, sh1) = record_rejection rv st ''Tool-calling strategy requires an explicit tool_call plan step'' SS_SKIPPED sh
           in (st1, sh1, completed, w)
      else if ps_tool_name st \<noteq> Some ''financial_metrics''
      then let (st1, sh1) = record_rejection rv st (''Tool '' @ quoted (error_or (ps_tool_name st) ''<missing>'') @
             '' is not enabled; allowed tool: financial_metrics'') SS_FAILED sh
           in (st1, sh1, completed, w)
      else let (st1, sh1, completed1, w1) = execute_step (engine_handlers rv) st sh completed w
           in (st1, (if length (sh_trace sh1) = length (sh_trace sh)
                     then sh1\<lparr>sh_trace := sh_trace sh1 @ [missing_trace rv st (the (ps_result st1))]\<rparr> else sh1), completed1, w1))"

fun run_tool_steps :: "'w runtime_env \<Rightarrow> agent_step list \<Rightarrow> agent_shared \<Rightarrow> (int \<times> step_output) list \<Rightarrow> 'w
    \<Rightarrow> agent_step list \<times> agent_shared \<times> 'w" where
  "run_tool_steps rv [] sh completed w = ([], sh, w)"
| "run_tool_steps rv (st # sts) sh completed w =
     (let (st1, sh1, completed1, w1) = run_tool_step rv st sh completed w;
          (sts1, sh2, w2) = run_tool_steps rv sts sh1 completed1 w1
      in (st1 # sts1, sh2, w2))"

definition format_tool_call :: "(json \<Rightarrow> string) \<Rightarrow> obj \<Rightarrow> obj \<Rightarrow> string" where
  "format_tool_call fs call out =
     (let operation = get_or out ''operation'' (get_or call ''operation'' (JStr ''metric''));
          unit = get_or out ''unit'' (JStr []);
          inputs = (case get_or out ''inputs'' (JObj []) of JObj ob \<Rightarrow> ob | _ \<Rightarrow> []);
          input_text = join '', '' (map (\<lambda>(k, v). k @ ''='' @ py_str fs v) (sort_key fst inputs))
      in ''- '' @ py_str fs operation @ '': '' @ py_str fs (get_or out ''value'' JNull) @
         (if unit = JStr [] then [] else '' '' @ py_str fs unit) @ '' ('' @ input_text @ '')'')"

definition format_tool_context :: "(json \<Rightarrow> string) \<Rightarrow> obj list \<Rightarrow> string" where
  "format_tool_context fs calls =
     (let successful = filter (\<lambda>c. get_or c ''status'' JNull = JStr ''success'' \<and> (case get_or c ''output'' JNull of JObj _ \<Rightarrow> True | _ \<Rightarrow> False)) calls
      in if successful = [] then []
         else join NLS (''Deterministic financial calculation:'' #
           map (\<lambda>c. format_tool_call fs c (case get_or c ''output'' JNull of JObj ob \<Rightarrow> ob | _ \<Rightarrow> [])) successful))"

definition ToolCallingHandler :: "'w execution_handler" where
  "ToolCallingHandler rv sc par steps w =
     (let (steps1, sh, w1) = run_tool_steps rv steps \<lparr>sh_base = sc, sh_evidence = [], sh_results = [], sh_trace = []\<rparr> [] w
      in (ExecutionOutput\<lparr>eo_context := format_tool_context (rv_str rv) (sh_trace sh), eo_results := collected_results steps1,
            eo_tool_calls := sh_trace sh\<rparr>, steps1, w1))"

definition execution_handlers :: "(ExecutionStrategyType \<times> 'w execution_handler) list" where
  "execution_handlers = [(RAG, RagHandler), (DIRECT_LLM, DirectLLMHandler), (PARALLEL, ParallelHandler), (MULTI_STEP, MultiStepHandler),
     (TOOL_CALLING, ToolCallingHandler)]"

text \<open>The dispatcher with its optional fallback; without one an unknown strategy gives the empty output.\<close>

definition execution_dispatch :: "(ExecutionStrategyType \<times> 'w execution_handler) list \<Rightarrow> ExecutionStrategyType option \<Rightarrow> strategy_result \<Rightarrow> 'w execution_handler" where
  "execution_dispatch reg fallback sx rv sc par steps w = (case map_of reg (sx_strategy sx) of
      Some h \<Rightarrow> h rv sc par steps w
    | None \<Rightarrow> (case Option.bind fallback (map_of reg) of
        Some h \<Rightarrow> h rv sc par steps w
      | None \<Rightarrow> (ExecutionOutput, steps, w)))"

subsection \<open>The runtime\<close>

record 'w runtime_result =
  rz_reasoning :: reasoning_result
  rz_context :: string
  rz_citations :: "obj list"
  rz_evidence :: "core_evidence list"
  rz_plan :: "step_output step_result execution_plan"
  rz_intent :: intent_result
  rz_routing :: routing_result
  rz_provider :: "'w provider_instance"
  rz_task :: task_result
  rz_complexity :: complexity_result
  rz_execution :: strategy_result
  rz_tool_calls :: "obj list"
  rz_workflow :: workflow_result

definition request_scope_of :: "int \<Rightarrow> string option \<Rightarrow> request_scope" where
  "request_scope_of tn thread = \<lparr>sc_tenant = tn, sc_thread = thread, sc_public = (tn \<noteq> 0)\<rparr>"

text \<open>
  \<open>AgentRuntime.run\<close>. The argument \<open>company\<close> of the code only labels the run; it reaches neither the plan nor the
  retrieval, so it is not an argument here. The planner is one object that all requests share.
\<close>

definition runtime_run :: "'w runtime_env \<Rightarrow> model_router \<Rightarrow> utext \<Rightarrow> int \<Rightarrow> string option \<Rightarrow> planner \<Rightarrow> 'w
    \<Rightarrow> (exn + 'w runtime_result) \<times> planner \<times> 'w" where
  "runtime_run rv rt q tn thread p w =
     (let lg = rv_lang rv;
          intent = intent_analyze lg q;
          companies = (case ir_companies intent of Some cs \<Rightarrow> cs | None \<Rightarrow> []);
          ((pl, tr, cr), p1) = make_plan lg \<lparr>pc_question = q, pc_companies = companies, pc_years = []\<rparr> p
      in case route (rv_llm rv) (rv_providers rv) (rv_ms rv) rt (build_routing_context tr cr) of
           Inl e \<Rightarrow> (Inl e, p1, w)
         | Inr (provider, routing) \<Rightarrow>
             (let eng = make_strategy_engine [];
                  sx = strategy_execute (rv_pow rv) (rv_ms rv) eng
                    \<lparr>ec_task = tr, ec_complexity = cr, ec_plan = Some pl, ec_workflow = None\<rparr>
              in case workflow_build BUILTIN_WORKFLOWS sx of
                   Inl e \<Rightarrow> (Inl e, p1, w)
                 | Inr wk \<Rightarrow>
                     (case workflow_execute (\<lambda>_. Inr (strategy_execute (rv_pow rv) (rv_ms rv) eng
                         \<lparr>ec_task = tr, ec_complexity = cr, ec_plan = (None :: step_output step_result execution_plan option), ec_workflow = Some wk\<rparr>)) wk of
                        (Inl e, _) \<Rightarrow> (Inl e, p1, w)
                      | (Inr _, wk1) \<Rightarrow>
                          (let (out, steps, w1) = execution_dispatch execution_handlers None sx rv (request_scope_of tn thread) (max 1 (sx_parallelism sx))
                                 (pl_tasks pl) w
                           in (Inr \<lparr>rz_reasoning = reasoning_analyze (eo_results out), rz_context = eo_context out, rz_citations = eo_citations out,
                                 rz_evidence = eo_evidences out, rz_plan = pl\<lparr>pl_tasks := steps\<rparr>, rz_intent = intent, rz_routing = routing,
                                 rz_provider = provider, rz_task = tr, rz_complexity = cr, rz_execution = sx, rz_tool_calls = eo_tool_calls out,
                                 rz_workflow = wk1\<rparr>, p1, w1)))))"

subsection \<open>Answering a question\<close>

record 'w rag_result =
  rg_report :: utext
  rg_citations :: "obj list"
  rg_context :: string
  rg_mode :: string
  rg_evidence :: "core_evidence list"
  rg_prompt :: "string option"
  rg_run :: "'w runtime_result"

definition empty_answer_for_question :: "utext \<Rightarrow> utext" where
  "empty_answer_for_question q = (if has_chinese q
     then [24403, 21069, 27169, 22411, 26410, 36820, 22238, 21487, 29992, 20869, 23481, 12290, 24050, 23436, 25104, 26816, 32034, 65292,
       20294, 27809, 26377, 33719, 24471, 36275, 22815, 30340, 26377, 25928, 22238, 31572, 12290, 35831, 32553, 23567, 38382, 39064, 33539,
       22260, 65292, 25110, 34917, 20805, 23545, 24212, 20844, 21496, 30340, 36130, 25253, 19982, 26399, 38388, 12290]
     else cps (''The model returned no usable content. Retrieval completed, but the '' @
       ''answer was empty. Please narrow the question or provide the relevant '' @ ''company filing and reporting period.''))"

text \<open>One generation: render the prompt, call the model of the run, replace a blank answer.\<close>

definition ask_model :: "'w runtime_env \<Rightarrow> string \<Rightarrow> utext \<Rightarrow> utext \<Rightarrow> 'w runtime_result \<Rightarrow> 'w \<Rightarrow> (exn + utext) \<times> 'w" where
  "ask_model rv name prompt q res w = (case default_prompt (rv_prompts rv) name of
      Inl e \<Rightarrow> (Inl e, w)
    | Inr d \<Rightarrow> (case call_llm (rv_llm rv) (rv_sdks rv) (rv_providers rv) (enc (rv_texts rv) prompt) (Some (rz_provider res))
          (enc (rv_texts rv) (pt_system d)) w of
        (Inl e, w1) \<Rightarrow> (Inl e, w1)
      | (Inr a, w1) \<Rightarrow> (Inr (if strip a = [] then empty_answer_for_question q else cps a), w1)))"

definition no_evidence_report :: utext where
  "no_evidence_report = cps ''No relevant evidence found in uploaded documents.''"

definition tool_answer :: "'w runtime_result \<Rightarrow> utext" where
  "tool_answer res = (if rz_context res = [] then cps ''The financial calculation could not be completed.'' else cps (rz_context res))"

definition answer_run :: "'w runtime_env \<Rightarrow> utext \<Rightarrow> obj list \<Rightarrow> 'w runtime_result \<Rightarrow> 'w \<Rightarrow> (exn + 'w rag_result) \<times> 'w" where
  "answer_run rv q history res w =
     (let mode = detect_research_mode (rv_lang rv) q;
          base = \<lparr>rg_report = [], rg_citations = rz_citations res, rg_context = rz_context res, rg_mode = mode,
            rg_evidence = rz_evidence res, rg_prompt = None, rg_run = res\<rparr>
      in if sx_strategy (rz_execution res) = TOOL_CALLING
         then (Inr (base\<lparr>rg_report := tool_answer res, rg_citations := [], rg_evidence := []\<rparr>), w)
         else if wr_workflow (rz_workflow res) = WT_DIRECT_CHAT
         then (case render_prompt (rv_str rv) (rv_prompts rv) ''direct_chat'' q history [] of
             Inl e \<Rightarrow> (Inl e, w)
           | Inr prompt \<Rightarrow> (case ask_model rv ''direct_chat'' prompt q res w of
               (Inl e, w1) \<Rightarrow> (Inl e, w1)
             | (Inr a, w1) \<Rightarrow> (Inr (base\<lparr>rg_report := a, rg_citations := [], rg_context := [], rg_evidence := [],
                 rg_prompt := Some ''direct_chat''\<rparr>), w1)))
         else let name = (if mode = ''compare'' then ''financial_compare'' else ''financial_rag'') in
           (case render_prompt (rv_str rv) (rv_prompts rv) name q history (rz_context res) of
             Inl e \<Rightarrow> (Inl e, w)
           | Inr prompt \<Rightarrow>
               if rv_debug rv then (Inr (base\<lparr>rg_report := prompt, rg_prompt := Some name\<rparr>), w)
               else if rz_citations res = []
               then (Inr (base\<lparr>rg_report := no_evidence_report, rg_citations := [], rg_context := [], rg_prompt := Some name\<rparr>), w)
               else (case ask_model rv name prompt q res w of
                   (Inl e, w1) \<Rightarrow> (Inl e, w1)
                 | (Inr a, w1) \<Rightarrow> (Inr (base\<lparr>rg_report := build_research_report (rv_str rv) q a (analyze_evidence (rz_citations res)) (rz_reasoning res),
                     rg_prompt := Some name\<rparr>), w1))))"

definition run_rag :: "'w runtime_env \<Rightarrow> utext \<Rightarrow> int \<Rightarrow> string option \<Rightarrow> obj list \<Rightarrow> runtime_settings option \<Rightarrow> planner \<Rightarrow> 'w
    \<Rightarrow> (exn + 'w rag_result) \<times> planner \<times> 'w" where
  "run_rag rv q tn thread history settings p w =
     (case runtime_run rv (request_router (rv_llm rv) settings) q tn thread p w of
        (Inl e, p1, w1) \<Rightarrow> (Inl e, p1, w1)
      | (Inr res, p1, w1) \<Rightarrow> (case answer_run rv q history res w1 of (r, w2) \<Rightarrow> (r, p1, w2)))"

subsection \<open>A run leaves the world alone and keeps to the tenant\<close>

definition retrieved_evidence :: "'w runtime_env \<Rightarrow> request_scope \<Rightarrow> core_evidence set" where
  "retrieved_evidence rv sc = {e. \<exists>st es. retrieve_step rv st sc = Inr es \<and> e \<in> set es}"

lemma engine_handlers_quiet: "quiet (engine_handlers rv) sc (retrieved_evidence rv sc)"
  by (auto simp: quiet_def engine_handlers_def register_handler_def retrieve_handler_def nothing_handler_def
      FinancialMetricsStepHandler_def retrieved_evidence_def Let_def split: sum.splits json.splits)

lemma output_from_evidence_fields [simp]:
  "eo_evidences (output_from_evidence rv steps evs) = evs"
  "eo_context (output_from_evidence rv steps evs) = fst (build_context_from_evidence (rv_str rv) evs)"
  "eo_citations (output_from_evidence rv steps evs) = snd (build_context_from_evidence (rv_str rv) evs)"
  by (simp_all add: output_from_evidence_def split_def Let_def)

lemma run_tool_steps_world:
  assumes "run_tool_steps rv sts sh completed w = (sts', sh', w')" "sh_base sh = sc"
  shows "w' = w"
  using assms
proof (induction sts arbitrary: sh completed w sts')
  case (Cons st sts)
  obtain st1 sh1 completed1 w1 where s: "run_tool_step rv st sh completed w = (st1, sh1, completed1, w1)"
    using prod_cases4 by blast
  have "w1 = w \<and> sh_base sh1 = sc"
  proof (cases "dependencies_met st completed \<and> ps_type st = TOOL_CALL \<and> ps_tool_name st = Some ''financial_metrics''")
    case True
    obtain st2 sh2 completed2 w2 where e: "execute_step (engine_handlers rv) st sh completed w = (st2, sh2, completed2, w2)"
      using prod_cases4 by blast
    show ?thesis
      using s True execute_step_quiet [OF engine_handlers_quiet Cons.prems(2) e]
      by (auto simp: run_tool_step_def e split: if_splits)
  qed (use s Cons.prems(2) in \<open>auto simp: run_tool_step_def record_rejection_def Let_def split: if_splits\<close>)
  moreover obtain sts2 where "run_tool_steps rv sts sh1 completed1 w1 = (sts2, sh', w')"
    using Cons.prems(1) s by (auto split: prod.splits)
  ultimately show ?case using Cons.IH by blast
qed simp

lemma dispatch_quiet:
  assumes "execution_dispatch execution_handlers None sx rv sc par steps w = (out, steps', w')"
  shows "w' = w" "set (eo_evidences out) \<subseteq> retrieved_evidence rv sc"
proof -
  note q = engine_handlers_quiet [of rv sc]
  have "w' = w \<and> set (eo_evidences out) \<subseteq> retrieved_evidence rv sc"
  proof (cases "sx_strategy sx")
    case RAG
    let ?sh = "\<lparr>sh_base = sc, sh_evidence = [], sh_results = [], sh_trace = []\<rparr> :: agent_shared"
    obtain steps1 sh w1 where e: "execute_plan (engine_handlers rv) steps ?sh [] w = (steps1, sh, w1)"
      by (metis prod.collapse)
    show ?thesis
      using RAG assms execute_plan_quiet [OF q _ e] by (auto simp: execution_dispatch_def execution_handlers_def RagHandler_def e)
  next
    case TOOL_CALLING
    let ?sh = "\<lparr>sh_base = sc, sh_evidence = [], sh_results = [], sh_trace = []\<rparr> :: agent_shared"
    obtain steps1 sh w1 where e: "run_tool_steps rv steps ?sh [] w = (steps1, sh, w1)"
      by (metis prod.collapse)
    show ?thesis
      using TOOL_CALLING assms run_tool_steps_world [OF e]
      by (auto simp: execution_dispatch_def execution_handlers_def ToolCallingHandler_def e ExecutionOutput_def)
  qed (use assms in \<open>auto simp: runs_quiet(1,3) [OF q] execution_dispatch_def execution_handlers_def DirectLLMHandler_def MultiStepHandler_def ParallelHandler_def ExecutionOutput_def Let_def
      intro: runs_quiet(2,4) [OF q, THEN subsetD]\<close>)
  then show "w' = w" "set (eo_evidences out) \<subseteq> retrieved_evidence rv sc" by simp_all
qed

lemma runtime_run_Inr:
  assumes "runtime_run rv rt q tn thread p w = (Inr res, p', w')"
  shows "\<exists>out par tasks steps. execution_dispatch execution_handlers None (rz_execution res) rv (request_scope_of tn thread) par tasks w = (out, steps, w') \<and>
    rz_context res = eo_context out \<and> rz_citations res = eo_citations out \<and> rz_evidence res = eo_evidences out \<and>
    rz_tool_calls res = eo_tool_calls out \<and> rz_reasoning res = reasoning_analyze (eo_results out)"
  using assms by (auto simp: runtime_run_def Let_def split: prod.splits sum.splits) blast

lemma runtime_run_Inl: "runtime_run rv rt q tn thread p w = (Inl e, p', w') \<Longrightarrow> w' = w"
  by (auto simp: runtime_run_def Let_def split: prod.splits sum.splits)

lemma runtime_run_world: "snd (snd (runtime_run rv rt q tn thread p w)) = w"
proof -
  obtain r p' w' where r: "runtime_run rv rt q tn thread p w = (r, p', w')" using prod_cases3 by blast
  then show ?thesis
    by (cases r) (auto dest: runtime_run_Inl runtime_run_Inr dispatch_quiet(1))
qed

lemma runtime_run_evidence:
  assumes "runtime_run rv rt q tn thread p w = (Inr res, p', w')"
  shows "set (rz_evidence res) \<subseteq> retrieved_evidence rv (request_scope_of tn thread)"
proof -
  obtain out par ts steps where "execution_dispatch execution_handlers None (rz_execution res) rv (request_scope_of tn thread) par ts w = (out, steps, w')"
      "rz_evidence res = eo_evidences out" using runtime_run_Inr [OF assms] by blast
  then show ?thesis using dispatch_quiet(2) by metis
qed

subsection \<open>What a retrieval step brings\<close>

lemma tenant_execute_Inr:
  assumes "tenant_execute pow ms answer q tn co ids k fs pub = Inr es"
  shows "\<exists>rq evs. rq_tenant rq = tn \<and> 0 \<le> tn \<and> rq_include_public rq = pub \<and> normalise_evidence (answer rq) = Inr evs \<and>
    es = map (\<lambda>(i, e). rehydrated i e) (enumerate 1 evs)"
proof -
  let ?ps = "[(''query'', JStr q), (''company'', opt_str co), (''document_ids'', JArr (map JStr ids)),
            (''top_k'', k), (''filters'', JObj fs), (''include_public'', JBool pub)]"
  have name: "strip ''hybrid_retriever'' = ''hybrid_retriever''" by code_simp
  have reg: "map_of (BUILTIN_TOOLS pow ms) ''retrieval'' = Some \<lparr>t_description = ''Retrieve tenant-scoped evidence through a trusted server-side adapter'',
         t_supports = (\<lambda>_. Inr True), t_execute = retrieval_execute None ms\<rparr>" by (simp add: BUILTIN_TOOLS_def)
  obtain rq evs where rq: "request_from_context ?ps (JInt tn) = Inr rq" "normalise_evidence (answer rq) = Inr evs"
      "evidence_from_tool_output (tr_output (retrieval_success ms ''hybrid_retriever'' rq evs)) = Inr es"
    using assms unfolding tenant_execute_def
    by (auto simp: trusted_retrieval_adapter_def name engine_execute_def authorization_denied_result_def tool_registry_get_def
        map_of_builtin reg retrieval_execute_def adapter_from_context_def retrieval_failure_def try_then_Inr Let_def
        split: sum.splits if_splits)
  have "es = map (\<lambda>(i, e). rehydrated i e) (enumerate 1 evs)"
    using rq(3) by (simp add: evidence_from_tool_output_def retrieval_success_def get_or_def try_map_map rehydrate_as_dict split_def)
  moreover have "rq_include_public rq = pub"
    using rq(1) by (auto simp: request_from_context_def check_bool_def get_or_def try_then_Inr split: if_splits)
  ultimately show ?thesis using rq(2) request_from_context_scoped [OF rq(1)] by (auto simp: scoped_request_def)
qed

lemma object_content: "evidence_from_value (evidence_object c) = Inr e \<Longrightarrow> ev_content e = strip (ce_content c)"
  by (auto simp: evidence_object_def evidence_attributes_def evidence_of_data_def get_or_def try_then_Inr Let_def split: if_splits)

lemma rehydrated_content: "ce_content (rehydrated i e) = ev_content e"
  by (simp add: rehydrated_def)

lemma retrieved_evidence_scoped:
  assumes "e \<in> retrieved_evidence rv (request_scope_of tn thread)" "rv_retrieve rv = runtime_retrieve u tx c dep st"
  shows "\<exists>rq r. rq_tenant rq = tn \<and> 0 \<le> tn \<and> r \<in> set (retrieve u c dep st (runtime_context rq)) \<and>
    (recorded_for tn r \<or> recorded_for 0 r \<or> \<not> tagged r) \<and> (tags_tenants st \<longrightarrow> recorded_for tn r \<or> recorded_for 0 r) \<and>
    ce_content e = strip (enc tx (extract_local_context u tx (r_content r) (cps (rq_query rq)) 2))"
proof -
  obtain s es where "retrieve_step rv s (request_scope_of tn thread) = Inr es" "e \<in> set es"
    using assms(1) by (auto simp: retrieved_evidence_def)
  then obtain fs where "tenant_execute (rv_pow rv) (rv_ms rv) (runtime_retrieve u tx c dep st) (enc (rv_texts rv) (case ps_query s of Some q \<Rightarrow> q | None \<Rightarrow> []))
      tn (map_option (enc (rv_texts rv)) (ps_company s)) (map (enc (rv_texts rv)) (ps_document_ids s))
      (get_or (step_parameters (rv_texts rv) s) ''top_k'' (JInt 4)) fs (tn \<noteq> 0) = Inr es"
    by (auto simp: retrieve_step_def request_scope_of_def Let_def try_then_Inr assms(2))
  then obtain rq evs where rq: "rq_tenant rq = tn" "0 \<le> tn" "normalise_evidence (runtime_retrieve u tx c dep st rq) = Inr evs"
      "es = map (\<lambda>(i, e). rehydrated i e) (enumerate 1 evs)"
    using tenant_execute_Inr by blast
  then obtain i v where v: "v \<in> set evs" "e = rehydrated i v" using \<open>e \<in> set es\<close> by (auto simp: enumerate_eq_zip dest: set_zip_rightD)
  obtain x where x: "x \<in> set (retrieve_evidence u tx c dep st (runtime_context rq))" "evidence_from_value (evidence_object x) = Inr v"
    using try_map_mem [OF _ v(1)] rq(3) unfolding runtime_retrieve_def normalise_evidence.simps by fastforce
  then obtain j r where r: "r \<in> set (retrieve u c dep st (runtime_context rq))" "x = evidence_of_result u tx (runtime_context rq) (j, r)"
    by (auto simp: retrieve_evidence_def enumerate_eq_zip dest: set_zip_rightD)
  have "set (tenant_scopes (runtime_context rq)) \<subseteq> {tn, 0}" using rq(1) by (auto simp: tenant_scopes_def runtime_context_def)
  note retrieve_tenant [OF r(1) this]
  moreover have "ce_content e = strip (enc tx (extract_local_context u tx (r_content r) (cps (rq_query rq)) 2))"
    using object_content [OF x(2)] by (simp add: v(2) rehydrated_content r(2) evidence_of_result_def runtime_context_def)
  ultimately show ?thesis using rq(1,2) r(1) by blast
qed

text \<open>
  C3. A run keeps to its tenant. Over the hybrid retriever and any vector store: every piece of evidence that a run of the
  agent returns, whatever the question, the strategy that was selected, the worker count and the schedule of the pool, is the
  excerpt of a result of a retrieval for the tenant of the request. That result is recorded under this tenant, under the
  public tenant 0, or, since the retriever lets results without a tenant pass, under none; when the store tags every result
  it hands out with a tenant, it is recorded under this tenant or the public one. A request with a negative tenant gets no evidence.
\<close>

theorem run_evidence_isolated:
  assumes "runtime_run rv rt q tn thread p w = (Inr res, p', w')" "rv_retrieve rv = runtime_retrieve u tx c dep st"
    and "e \<in> set (rz_evidence res)"
  shows "\<exists>rq r. rq_tenant rq = tn \<and> 0 \<le> tn \<and> r \<in> set (retrieve u c dep st (runtime_context rq)) \<and>
    (recorded_for tn r \<or> recorded_for 0 r \<or> \<not> tagged r) \<and> (tags_tenants st \<longrightarrow> recorded_for tn r \<or> recorded_for 0 r) \<and>
    ce_content e = strip (enc tx (extract_local_context u tx (r_content r) (cps (rq_query rq)) 2))"
  using runtime_run_evidence [OF assms(1)] assms(2,3) retrieved_evidence_scoped by blast


subsection \<open>Strategies agree\<close>

text \<open>What a registered handler answers, as a function of the step and of the request.\<close>

definition metrics_outcome :: "'w runtime_env \<Rightarrow> agent_step \<Rightarrow> request_scope \<Rightarrow> exn + step_output" where
  "metrics_outcome rv st sc = try_then (metrics_tool_result rv st sc) (\<lambda>r.
     if tr_status r \<noteq> TS_SUCCESS then Inl (Exn ''RuntimeError'' (error_or (tr_error r) ''Financial metrics tool execution failed''))
     else case tr_output r of
        JObj ob \<Rightarrow> Inr (ToolOutput (JObj ob))
      | _ \<Rightarrow> Inl (Exn ''RuntimeError'' ''Financial metrics tool returned an invalid result''))"

definition retrieve_outcome :: "'w runtime_env \<Rightarrow> agent_step \<Rightarrow> request_scope \<Rightarrow> (exn + step_output) \<times> core_evidence list" where
  "retrieve_outcome rv st sc = (case retrieve_step rv st sc of Inl e \<Rightarrow> (Inl e, []) | Inr es \<Rightarrow> (Inr (Evidences es), es))"

fun agent_answers :: "'w runtime_env \<Rightarrow> (request_scope, step_output, core_evidence) answers" where
  "agent_answers rv RETRIEVE = Some (retrieve_outcome rv)"
| "agent_answers rv COMPARE = Some (\<lambda>st sc. (Inr NoOutput, []))"
| "agent_answers rv SYNTHESIS = Some (\<lambda>st sc. (Inr NoOutput, []))"
| "agent_answers rv TOOL_CALL = Some (\<lambda>st sc. (metrics_outcome rv st sc, []))"
| "agent_answers rv REASONING = None"

lemma engine_handlers_table:
  "map_of (engine_handlers rv) ty = (case ty of
      RETRIEVE \<Rightarrow> Some (retrieve_handler rv) | COMPARE \<Rightarrow> Some nothing_handler | SYNTHESIS \<Rightarrow> Some nothing_handler
    | TOOL_CALL \<Rightarrow> Some (FinancialMetricsStepHandler rv) | REASONING \<Rightarrow> None)"
  by (cases ty) (simp_all add: engine_handlers_def register_handler_def)

lemma metrics_handler_outcome:
  "fst (FinancialMetricsStepHandler rv st sh w) = metrics_outcome rv st (sh_base sh)"
  "sh_evidence (fst (snd (FinancialMetricsStepHandler rv st sh w))) = sh_evidence sh"
  by (auto simp: FinancialMetricsStepHandler_def metrics_outcome_def Let_def split: sum.splits json.splits)

lemma retrieve_handler_outcome:
  "fst (retrieve_handler rv st sh w) = fst (retrieve_outcome rv st (sh_base sh))"
  "sh_evidence (fst (snd (retrieve_handler rv st sh w))) = sh_evidence sh @ snd (retrieve_outcome rv st (sh_base sh))"
  by (auto simp: retrieve_handler_def retrieve_outcome_def split: sum.splits)

interpretation agent: stateless_handlers "engine_handlers rv" "agent_answers rv" for rv :: "'w runtime_env"
proof
  show "map_of (engine_handlers rv) ty = None \<longleftrightarrow> agent_answers rv ty = None" for ty
    by (cases ty) (simp_all add: engine_handlers_table)
  fix ty h f st sh w
  assume h: "map_of (engine_handlers rv) ty = Some h" and f: "agent_answers rv ty = Some f"
  show "fst (h st sh w) = fst (f st (sh_base sh))"
    using h f by (cases ty) (auto simp: engine_handlers_table retrieve_handler_outcome metrics_handler_outcome nothing_handler_def)
  show "sh_evidence (fst (snd (h st sh w))) = sh_evidence sh @ snd (f st (sh_base sh))"
    using h f by (cases ty) (auto simp: engine_handlers_table retrieve_handler_outcome metrics_handler_outcome nothing_handler_def)
qed

lemma compare_retrieve_free:
  "st \<in> set (pl_tasks (fst (build_compare_plan q cs p))) \<Longrightarrow> ps_type st = RETRIEVE \<Longrightarrow> ps_depends_on st = []"
  for st :: "'a plan_step"
proof -
  obtain ss p' where r: "compare_retrievals q cs p = (ss :: 'a plan_step list, p')"
    by (cases "compare_retrievals q cs p :: 'a plan_step list \<times> planner")
  show "st \<in> set (pl_tasks (fst (build_compare_plan q cs p))) \<Longrightarrow> ps_type st = RETRIEVE \<Longrightarrow> ps_depends_on st = []"
    using compare_retrievals_spec(5) [OF r] by (auto simp: build_compare_plan_def r Let_def next_id_def list_all_iff)
qed

lemma planned_steps:
  assumes "make_plan lg pc p = ((pl :: 'r execution_plan, tr, cr), p')"
  shows "wf_steps (pl_tasks pl)" "st \<in> set (pl_tasks pl) \<Longrightarrow> ps_type st = RETRIEVE \<Longrightarrow> ps_depends_on st = []"
proof -
  note parts = make_plan_parts(3) [OF assms]
  show "wf_steps (pl_tasks pl)"
    unfolding parts by (rule choose_plan_wf [unfolded good_plan_def, THEN conjunct1]) (rule parse_tool_name)
  show "st \<in> set (pl_tasks pl) \<Longrightarrow> ps_type st = RETRIEVE \<Longrightarrow> ps_depends_on st = []"
    using compare_retrieve_free unfolding parts
    by (auto simp: choose_plan_def build_financial_metric_plan_def build_single_plan_def build_global_plan_def build_generic_plan_def
        next_id_def Let_def split: option.splits if_splits)
qed

text \<open>
  C5. Strategies change how a plan runs, never what it answers. For every question the planner has planned, every tenant and
  retriever: running the plan with concurrent retrievals, whatever the number of workers and the order in which the pool
  finishes them, gives the same context, citations, evidence, step results and plan as running it step by step
  or on the shared context of the plain retrieval strategy, and all three leave the world as it was.
\<close>

theorem parallel_answer_is_sequential:
  assumes "make_plan lg pc p = ((pl, tr, cr), p')" "\<And>ks. mset (rv_sched rv ks) = mset ks"
  shows "ParallelHandler rv sc par (pl_tasks pl) w = MultiStepHandler rv sc par' (pl_tasks pl) w \<and>
    RagHandler rv sc par'' (pl_tasks pl) w = MultiStepHandler rv sc par' (pl_tasks pl) w"
proof
  note wf = planned_steps(1) [OF assms(1)] and free = planned_steps(2) [OF assms(1)]
  note q = engine_handlers_quiet [of rv sc]
  let ?par = "execute_parallel_retrievals (engine_handlers rv) sc par (rv_sched rv) (pl_tasks pl) w"
  let ?seq = "execute_sequential (engine_handlers rv) sc (pl_tasks pl) w"
  have only: "snd (f st sc) = []" if "agent_answers rv ty = Some f" "ty \<noteq> RETRIEVE" for ty f st
    using that by (cases ty) auto
  have "rn_steps ?par = rn_steps ?seq \<and> rn_evidence ?par = rn_evidence ?seq"
    by (rule agent.parallel_is_sequential [OF wf]) (use assms(2) free only in blast)+
  then show "ParallelHandler rv sc par (pl_tasks pl) w = MultiStepHandler rv sc par' (pl_tasks pl) w"
    by (simp add: ParallelHandler_def MultiStepHandler_def runs_quiet(1,3) [OF q] Let_def)
  have silent: "ev = []" if "agent_answers rv ty = Some f" "f st sc = (Inl e, ev)" for ty f st e ev
    using that by (cases ty) (auto simp: retrieve_outcome_def split: sum.splits)
  obtain sts sh w' where run: "execute_plan (engine_handlers rv) (pl_tasks pl)
      \<lparr>sh_base = sc, sh_evidence = [], sh_results = [], sh_trace = []\<rparr> [] w = (sts, sh, w')" by (metis prod.collapse)
  have "sts = rn_steps ?seq \<and> sh_evidence sh = rn_evidence ?seq"
    by (rule agent.engine_is_sequential [OF wf q _ run]) (use silent in blast)
  moreover have "w' = w" using execute_plan_quiet [OF q _ run] by simp
  ultimately show "RagHandler rv sc par'' (pl_tasks pl) w = MultiStepHandler rv sc par' (pl_tasks pl) w"
    by (simp add: RagHandler_def MultiStepHandler_def run runs_quiet(1) [OF q] Let_def)
qed

subsection \<open>Every run completes\<close>

lemma execute_plan_settled: "execute_plan hs sts sh completed w = (sts', sh', w') \<Longrightarrow> list_all settled sts'"
proof (induction sts arbitrary: sts' sh completed w)
  case (Cons st sts)
  obtain st1 sh1 completed1 w1 where s: "execute_step hs st sh completed w = (st1, sh1, completed1, w1)"
    using prod_cases4 by blast
  obtain sts2 where p: "execute_plan hs sts sh1 completed1 w1 = (sts2, sh', w')" "sts' = st1 # sts2"
    using Cons.prems s by (auto split: prod.splits)
  show ?case using Cons.IH [OF p(1)] execute_step_settled(1) [OF s] p(2) by simp
qed simp

lemma run_tool_steps_settled: "run_tool_steps rv sts sh completed w = (sts', sh', w') \<Longrightarrow> list_all settled sts'"
proof (induction sts arbitrary: sts' sh completed w)
  case (Cons st sts)
  obtain st1 sh1 completed1 w1 where s: "run_tool_step rv st sh completed w = (st1, sh1, completed1, w1)"
    using prod_cases4 by blast
  obtain st2 sh2 completed2 w2 where e: "execute_step (engine_handlers rv) st sh completed w = (st2, sh2, completed2, w2)"
    using prod_cases4 by blast
  have "settled st1"
    using s execute_step_settled(1) [OF e]
    by (auto simp: run_tool_step_def record_rejection_def e finish_step_def failed_result_def settled_def [of "st\<lparr>ps_status := _, ps_result := _\<rparr>"]
        Let_def split: if_splits)
  moreover obtain sts2 where "run_tool_steps rv sts sh1 completed1 w1 = (sts2, sh', w')" "sts' = st1 # sts2"
    using Cons.prems s by (auto split: prod.splits)
  ultimately show ?case using Cons.IH by simp
qed simp

lemma dispatch_settled:
  assumes "execution_dispatch execution_handlers None sx rv sc par tasks w = (out, steps, w')" "\<And>ks. mset (rv_sched rv ks) = mset ks"
    and "sx_strategy sx \<in> {RAG, MULTI_STEP, PARALLEL, TOOL_CALLING}"
  shows "list_all settled steps"
proof -
  have one: "one_call (engine_handlers rv) (\<lambda>_. 0)" by (simp add: one_call_def)
  have "list_all settled (rn_steps (execute_parallel_retrievals (engine_handlers rv) sc par (rv_sched rv) tasks w))"
    "list_all settled (rn_steps (execute_sequential (engine_handlers rv) sc tasks w))"
    using settles_all [of "\<lambda>_. 0" "[0..<length tasks]" tasks w] parallel_loop_settles [OF one assms(2)] fold_settles [OF run_one_settles [OF one]]
    by (force simp: complete_run_def execute_parallel_retrievals_def execute_sequential_def)+
  then show ?thesis
    using assms(1,3)
    by (auto simp: execution_dispatch_def execution_handlers_def RagHandler_def ToolCallingHandler_def MultiStepHandler_def ParallelHandler_def Let_def
        split: prod.splits dest: execute_plan_settled run_tool_steps_settled)
qed

lemma strategy_range:
  "sx_strategy (strategy_execute pow ms (make_strategy_engine []) (c\<lparr>ec_workflow := None\<rparr>)) \<in> {DIRECT_LLM, RAG, MULTI_STEP, PARALLEL, TOOL_CALLING}"
  by (simp add: strategy_execute_def strategies_in_order strategy_defs fallback_execute_def no_fallback Let_def)

lemma workflow_built:
  "\<exists>wk. workflow_build BUILTIN_WORKFLOWS sx = Inr wk \<and> wr_workflow wk = STRATEGY_TO_WORKFLOW (sx_strategy sx) \<and> wr_completed wk = []"
  by (cases "sx_strategy sx") (simp_all add: workflow_build_def workflow_create_def BUILTIN_WORKFLOWS_def DirectChatWorkflow_def RAGWorkflow_def
      ResearchWorkflow_def ComparisonWorkflow_def ToolPipelineWorkflow_def WorkflowResult_def)

lemma workflow_steps_run:
  assumes "\<And>u. runner u = Inr (f u)"
  shows "\<exists>wk'. workflow_steps runner sts wk = (Inr (), wk') \<and> wr_completed wk' = wr_completed wk @ sts \<and> wr_steps wk' = wr_steps wk \<and>
    wr_workflow wk' = wr_workflow wk"
proof (induction sts arbitrary: wk)
  case (Cons st sts)
  show ?case using Cons.IH [of "wk\<lparr>wr_current := Some st, wr_completed := wr_completed wk @ [st]\<rparr>"] by (auto simp: assms Let_def)
qed auto

lemma workflow_executed:
  assumes "\<And>u. runner u = Inr (f u)" "wr_completed wk = []"
  shows "\<exists>wk'. workflow_execute runner wk = (Inr (), wk') \<and> wr_status wk' = WS_DONE \<and> wr_completed wk' = wr_steps wk' \<and>
    wr_workflow wk' = wr_workflow wk"
  using workflow_steps_run [of runner f "wr_steps wk" "wk\<lparr>wr_status := WS_RUNNING\<rparr>", OF assms(1)] assms(2)
  by (auto simp: workflow_execute_def)


definition planned :: "'w runtime_env \<Rightarrow> utext \<Rightarrow> planner \<Rightarrow> (step_output step_result execution_plan \<times> task_result \<times> complexity_result) \<times> planner" where
  "planned rv q p = make_plan (rv_lang rv) \<lparr>pc_question = q, pc_companies = (case ir_companies (intent_analyze (rv_lang rv) q) of Some cs \<Rightarrow> cs | None \<Rightarrow> []),
     pc_years = []\<rparr> p"

lemma runtime_run_total:
  assumes "[] \<notin> set (map fst (rv_providers rv))" "planned rv q p = ((pl, tr, cr), p1)"
    and "sx = strategy_execute (rv_pow rv) (rv_ms rv) (make_strategy_engine []) \<lparr>ec_task = tr, ec_complexity = cr, ec_plan = Some pl, ec_workflow = None\<rparr>"
    and "execution_dispatch execution_handlers None sx rv (request_scope_of tn thread) (max 1 (sx_parallelism sx)) (pl_tasks pl) w = (out, steps, w1)"
  shows "if usable_providers (rv_providers rv) rt = []
    then runtime_run rv rt q tn thread p w = (Inl (Exn ''ValueError'' ''No configured LLM provider is available''), p1, w)
    else \<exists>res. runtime_run rv rt q tn thread p w = (Inr res, p1, w) \<and>
      wr_status (rz_workflow res) = WS_DONE \<and> wr_completed (rz_workflow res) = wr_steps (rz_workflow res) \<and>
      wr_workflow (rz_workflow res) = STRATEGY_TO_WORKFLOW (sx_strategy sx) \<and> rz_execution res = sx \<and> rz_plan res = pl\<lparr>pl_tasks := steps\<rparr> \<and>
      rz_context res = eo_context out \<and> rz_citations res = eo_citations out \<and> rz_evidence res = eo_evidences out \<and>
      map_of (rv_providers rv) (pv_provider (pi_config (rz_provider res))) = Some (pi_class (rz_provider res))"
proof (cases "usable_providers (rv_providers rv) rt = []")
  case True
  then show ?thesis using assms(2) by (simp add: runtime_run_def planned_def route_def Let_def)
next
  case False
  obtain r c where route: "route (rv_llm rv) (rv_providers rv) (rv_ms rv) rt (build_routing_context tr cr) =
      Inr (\<lparr>pi_class = c, pi_config = router_config (rv_llm rv) rt r\<rparr>, r)" "map_of (rv_providers rv) (rr_provider r) = Some c"
    using route_plain [OF assms(1) refl refl False, of "rv_llm rv" "rv_ms rv" tr cr] by metis
  obtain wk where wk: "workflow_build BUILTIN_WORKFLOWS sx = Inr wk" "wr_workflow wk = STRATEGY_TO_WORKFLOW (sx_strategy sx)" "wr_completed wk = []"
    using workflow_built by blast
  let ?runner = "\<lambda>u :: unit. Inr (strategy_execute (rv_pow rv) (rv_ms rv) (make_strategy_engine [])
     \<lparr>ec_task = tr, ec_complexity = cr, ec_plan = (None :: step_output step_result execution_plan option), ec_workflow = Some wk\<rparr>) :: exn + strategy_result"
  obtain wk' where wk': "workflow_execute ?runner wk = (Inr (), wk')" "wr_status wk' = WS_DONE" "wr_completed wk' = wr_steps wk'"
      "wr_workflow wk' = wr_workflow wk"
    using workflow_executed [of ?runner, OF refl wk(3)] by blast
  have w1: "w1 = w" by (rule dispatch_quiet(1) [OF assms(4)])
  have config: "pv_provider (router_config (rv_llm rv) rt r) = rr_provider r" by (simp add: router_config_def Let_def)
  show ?thesis
    using False assms(2,4) route wk wk' w1 config
    by (simp add: runtime_run_def planned_def Let_def flip: assms(3))
qed

text \<open>
  C19. A run fails for one reason only. With any registry of named providers, any router, question and tenant, any retriever
  and any order in which the pool runs its steps: without a usable provider the run raises the router's error; otherwise it
  returns, the workflow is done with all its steps in order, and every step of the plan is completed,
  failed or skipped, unless the question is answered by the model alone. No failing retrieval, tool or step fails the run.
\<close>

theorem run_completes:
  assumes "[] \<notin> set (map fst (rv_providers rv))" "\<And>ks. mset (rv_sched rv ks) = mset ks"
  shows "case runtime_run rv rt q tn thread p w of (r, p', w') \<Rightarrow> w' = w \<and> (case r of
      Inl e \<Rightarrow> usable_providers (rv_providers rv) rt = [] \<and> e = Exn ''ValueError'' ''No configured LLM provider is available''
    | Inr res \<Rightarrow> usable_providers (rv_providers rv) rt \<noteq> [] \<and> wr_status (rz_workflow res) = WS_DONE \<and>
        wr_completed (rz_workflow res) = wr_steps (rz_workflow res) \<and>
        wr_workflow (rz_workflow res) = STRATEGY_TO_WORKFLOW (sx_strategy (rz_execution res)) \<and>
        (sx_strategy (rz_execution res) = DIRECT_LLM \<or> list_all settled (pl_tasks (rz_plan res))))"
proof -
  obtain pl tr cr p1 where pl: "planned rv q p = ((pl, tr, cr), p1)" by (metis prod.collapse)
  define c where "c = \<lparr>ec_task = tr, ec_complexity = cr, ec_plan = Some pl, ec_workflow = None\<rparr>"
  define sx where "sx = strategy_execute (rv_pow rv) (rv_ms rv) (make_strategy_engine []) c"
  obtain out steps w1 where d: "execution_dispatch execution_handlers None sx rv (request_scope_of tn thread) (max 1 (sx_parallelism sx)) (pl_tasks pl) w = (out, steps, w1)"
    using prod_cases3 by blast
  have range: "sx_strategy sx \<in> {DIRECT_LLM, RAG, MULTI_STEP, PARALLEL, TOOL_CALLING}"
    using strategy_range [of _ _ c] by (simp add: sx_def c_def)
  have settled: "sx_strategy sx = DIRECT_LLM \<or> list_all settled steps"
  proof (cases "sx_strategy sx = DIRECT_LLM")
    case False
    with range have "sx_strategy sx \<in> {RAG, MULTI_STEP, PARALLEL, TOOL_CALLING}" by simp
    then show ?thesis using dispatch_settled [OF d assms(2)] by simp
  qed simp
  note total = runtime_run_total [OF assms(1) pl sx_def [unfolded c_def] d, of rt]
  show ?thesis
  proof (cases "usable_providers (rv_providers rv) rt = []")
    case True
    with total show ?thesis by simp
  next
    case False
    with total obtain res where res: "runtime_run rv rt q tn thread p w = (Inr res, p1, w)" "wr_status (rz_workflow res) = WS_DONE"
      "wr_completed (rz_workflow res) = wr_steps (rz_workflow res)" "wr_workflow (rz_workflow res) = STRATEGY_TO_WORKFLOW (sx_strategy sx)"
      "rz_execution res = sx" "rz_plan res = pl\<lparr>pl_tasks := steps\<rparr>" by auto
    with False settled show ?thesis by simp
  qed
qed

subsection \<open>When the model is called\<close>

lemma ask_model_bounded:
  assumes "counts_sdks (rv_sdks rv) calls secs" "map_of REGISTERED_PROVIDERS name = Some (pi_class (rz_provider res))"
    and "ask_model rv prompt_name prompt q res w = (r, w')"
  shows "calls w' \<le> calls w + 3 \<and> secs w' \<le> secs w + 3 \<and> (is_ok r \<longrightarrow> calls w < calls w')"
proof -
  obtain c cfg where p: "rz_provider res = \<lparr>pi_class = c, pi_config = cfg\<rparr>" by (metis provider_instance.surjective old.unit.exhaust)
  note bound = registered_bounded [OF assms(2,1), of cfg w, unfolded p provider_instance.select_convs]
  have small: "k < 3 \<Longrightarrow> (2::nat) ^ k \<le> 4" for k :: nat by (cases k rule: nat.exhaust) (auto simp: less_Suc_eq numeral_3_eq_3)
  show ?thesis
  proof (cases "default_prompt (rv_prompts rv) prompt_name")
    case (Inl e)
    then show ?thesis using assms(3) by (auto simp: ask_model_def)
  next
    case (Inr d)
    define rq where "rq = \<lparr>cq_messages = [(''user'', enc (rv_texts rv) prompt)], cq_temperature = LLM_TEMPERATURE (rv_llm rv),
               cq_max_tokens = Some (LLM_MAX_TOKENS (rv_llm rv)), cq_system_prompt = Some (enc (rv_texts rv) (pt_system d))\<rparr>"
    obtain x w1 where x: "provider_chat (rv_sdks rv) \<lparr>pi_class = c, pi_config = cfg\<rparr> rq w = (x, w1)" by fastforce
    have "w' = w1 \<and> is_ok r = is_ok x"
      using assms(3) Inr x by (cases x) (auto simp: ask_model_def call_llm_def p rq_def split: if_splits)
    moreover have "calls w1 \<le> calls w + 3 \<and> secs w1 \<le> secs w + 3 \<and> (is_ok x \<longrightarrow> calls w < calls w1)"
      using bound [of rq] x small by (fastforce simp: chat_bounded_def split: if_splits)
    ultimately show ?thesis by simp
  qed
qed


lemma routed_provider: "route ev reg ms rt ctx = Inr (pv, r) \<Longrightarrow> map_of reg (pv_provider (pi_config pv)) = Some (pi_class pv)"
  by (auto simp: route_def factory_create_def try_then_Inr Let_def split: if_splits option.splits)

lemma runtime_run_provider:
  "runtime_run rv rt q tn thread p w = (Inr res, p', w') \<Longrightarrow>
   map_of (rv_providers rv) (pv_provider (pi_config (rz_provider res))) = Some (pi_class (rz_provider res))"
  by (auto simp: runtime_run_def Let_def split: prod.splits sum.splits dest: routed_provider)

definition call_discipline :: "'w runtime_env \<Rightarrow> ('w \<Rightarrow> nat) \<Rightarrow> 'w \<Rightarrow> 'w \<Rightarrow> 'w rag_result \<Rightarrow> bool" where
  "call_discipline rv calls w w' z \<longleftrightarrow>
     (if sx_strategy (rz_execution (rg_run z)) = TOOL_CALLING then w' = w \<and> rg_report z = tool_answer (rg_run z) \<and> rg_citations z = []
      else if wr_workflow (rz_workflow (rg_run z)) = WT_DIRECT_CHAT then calls w < calls w' \<and> rg_citations z = []
      else if rv_debug rv then w' = w
      else if rz_citations (rg_run z) = [] then w' = w \<and> rg_report z = no_evidence_report \<and> rg_citations z = []
      else calls w < calls w' \<and> rg_citations z = rz_citations (rg_run z))"

lemma answer_run_discipline:
  assumes "counts_sdks (rv_sdks rv) calls secs" "map_of REGISTERED_PROVIDERS name = Some (pi_class (rz_provider res))"
    and "answer_run rv q history res w = (r, w')"
  shows "calls w' \<le> calls w + 3 \<and> secs w' \<le> secs w + 3" "r = Inr z \<Longrightarrow> rg_run z = res \<and> call_discipline rv calls w w' z"
proof -
  note bound = ask_model_bounded [OF assms(1,2)]
  have model: "calls w1 \<le> calls w + 3 \<and> secs w1 \<le> secs w + 3 \<and> (is_ok x \<longrightarrow> calls w < calls w1)"
    if "ask_model rv n prompt q res w = (x, w1)" for n prompt x w1
    using bound [OF that] .
  show "calls w' \<le> calls w + 3 \<and> secs w' \<le> secs w + 3"
    using assms(3) by (simp add: answer_run_def Let_def split: if_splits sum.splits prod.splits) (use model in force)+
  show "r = Inr z \<Longrightarrow> rg_run z = res \<and> call_discipline rv calls w w' z"
    using assms(3) by (simp add: answer_run_def Let_def call_discipline_def split: if_splits sum.splits prod.splits) (use model in force)+
qed


subsection \<open>A concrete run\<close>

abbreviation eps_context :: planning_context where
  "eps_context \<equiv> \<lparr>pc_question = cps ''eps'', pc_companies = [], pc_years = []\<rparr>"

lemma eps_analysis:
  "tm_type (tk_task (task_analyze plain_lang eps_context)) = DOCUMENT_QA" "tk_entities (task_analyze plain_lang eps_context) = []"
proof -
  let ?q = "cps ''eps''"
  have low: "lg_lower plain_lang ?q = ?q" by (simp add: lang_eval)
  have rule: "classify_by_keyword ?q = (DOCUMENT_QA, Some (cps ''eps''))"
    by (simp add: classify_by_keyword_def PRIORITY_ORDER_def OCR_KEYWORDS_def IMAGE_ANALYSIS_KEYWORDS_def COMPARISON_KEYWORDS_def
        DOCUMENT_QA_KEYWORDS_def contains_eval cps_def)
  have companies: "extract_companies plain_lang ?q = []"
    unfolding extract_companies_def low by (simp add: COMPANY_MAP_def contains_eval cps_def)
  have years: "extract_years plain_lang ?q = []" by (simp add: extract_years_def lang_eval word_head_def)
  show "tm_type (tk_task (task_analyze plain_lang eps_context)) = DOCUMENT_QA" "tk_entities (task_analyze plain_lang eps_context) = []"
    by (simp_all add: task_analyze_def low rule companies years merge_entities_def Let_def)
qed

lemma eps_no_calculation: "parse_financial_metric_query plain_lang (cps ''eps'') = None"
proof (rule parse_eval)
  show "normalise_question plain_lang (cps ''eps'') = cps ''eps''"
    by (simp add: normalise_question_def lang_eval words.simps strip_cp_def)
  show "length (number_tokens plain_lang (cps ''eps'') 0) = 0"
    by (simp add: lang_eval number_tokens.simps number_eval)
qed (simp_all add: pattern_eval lang_eval number_eval value_eval)

lemma eps_intent: "(case ir_companies (intent_analyze plain_lang (cps ''eps'')) of Some cs \<Rightarrow> cs | None \<Rightarrow> []) = []"
proof -
  have "intent_companies plain_lang (cps ''eps'') = []"
    by (simp add: intent_companies_def INTENT_COMPANIES_def lang_eval contains_eval)
  then show ?thesis by (simp add: intent_analyze_def Let_def)
qed

definition eps_step :: "agent_step" where
  "eps_step = PlanStep 1 RETRIEVE (cps ''Retrieve relevant documents'') (cps ''eps'')"

lemma eps_step_fields: "ps_id eps_step = 1" "ps_type eps_step = RETRIEVE" "ps_depends_on eps_step = []"
  by (simp_all add: eps_step_def)

lemma eps_plan:
  "pl_tasks (fst (choose_plan None DOCUMENT_QA (cps ''eps'') [] (reset_counter p))) =
     [eps_step, (PlanStep 2 REASONING (cps ''Analyze retrieved data'') (cps ''eps''))\<lparr>ps_depends_on := [1]\<rparr>]"
  by (simp add: choose_plan_def build_single_plan_def next_id_def reset_counter_def eps_step_def PlanStep_def Let_def)

text \<open>A document question about no company, run by the plain retrieval strategy.\<close>

lemma eps_run:
  assumes "rv_lang rv = plain_lang" "rv_providers rv = REGISTERED_PROVIDERS" "usable_providers (rv_providers rv) rt \<noteq> []"
    and "\<And>s. retrieve_step rv (eps_step\<lparr>ps_status := s\<rparr>) (request_scope_of tn thread) = Inr es"
  shows "\<exists>res p1. runtime_run rv rt (cps ''eps'') tn thread p w = (Inr res, p1, w) \<and> rz_evidence res = es \<and>
    rz_citations res = snd (build_context_from_evidence (rv_str rv) es) \<and> sx_strategy (rz_execution res) = RAG \<and>
    wr_workflow (rz_workflow res) = WT_RAG"
proof -
  obtain pl tr cr p1 where planned: "planned rv (cps ''eps'') p = ((pl, tr, cr), p1)" by (metis prod.collapse)
  then have made: "make_plan plain_lang eps_context p = ((pl, tr, cr), p1)" by (simp add: planned_def assms(1) eps_intent)
  note parts = make_plan_parts [OF made]
  have tasks: "pl_tasks pl = [eps_step, (PlanStep 2 REASONING (cps ''Analyze retrieved data'') (cps ''eps''))\<lparr>ps_depends_on := [1]\<rparr>]"
    unfolding parts(3) by (simp add: parts(1) eps_analysis eps_no_calculation eps_plan)
  define sx where "sx = strategy_execute (rv_pow rv) (rv_ms rv) (make_strategy_engine [])
     \<lparr>ec_task = tr, ec_complexity = cr, ec_plan = Some pl, ec_workflow = None\<rparr>"
  have ty: "tm_type (tk_task tr) = DOCUMENT_QA" by (simp add: parts(1) eps_analysis)
  have "cm_level (cr_complexity cr) = level_of DOCUMENT_QA 0 0"
    by (simp add: parts(2) complexity_level) (simp add: parts(1) eps_analysis)
  then have "cm_level (cr_complexity cr) \<noteq> HIGH" using level_document_qa [of 0 0] by simp
  then have level: "cm_level (cr_complexity cr) \<in> {LOW, MEDIUM}" by (cases "cm_level (cr_complexity cr)") simp_all
  have rag: "sx_strategy sx = RAG"
    using level by (simp add: sx_def strategy_execute_def strategies_in_order strategy_defs governed_plan_iff [OF made] eps_no_calculation ty)
  have handler: "retrieve_handler rv (eps_step\<lparr>ps_status := s\<rparr>) sh w = (Inr (Evidences es), sh\<lparr>sh_evidence := sh_evidence sh @ es\<rparr>, w)"
    if "sh_base sh = request_scope_of tn thread" for s sh w using that assms(4) by (simp add: retrieve_handler_def)
  obtain out steps where d: "execution_dispatch execution_handlers None sx rv (request_scope_of tn thread) (max 1 (sx_parallelism sx)) (pl_tasks pl) w = (out, steps, w)"
      "eo_evidences out = es" "eo_citations out = snd (build_context_from_evidence (rv_str rv) es)"
    unfolding tasks
    by (simp add: execution_dispatch_def execution_handlers_def rag RagHandler_def execute_step_def dependencies_met_def engine_handlers_table
        eps_step_fields handler Let_def)
  have names: "[] \<notin> set (map fst (rv_providers rv))" by (simp add: assms(2) REGISTERED_PROVIDERS_def)
  show ?thesis
    using runtime_run_total [OF names planned sx_def d(1), of rt] assms(3) d(2,3) rag by auto
qed

definition demo_prompt :: prompt_definition where
  "demo_prompt = \<lparr>pt_name = ''financial_rag'', pt_version = ''2.2.0'', pt_content = [], pt_system = []\<rparr>"

definition demo_runtime :: "unit store \<Rightarrow> (nat \<times> nat) runtime_env" where
  "demo_runtime st = \<lparr>rv_lang = plain_lang, rv_texts = demo_texts, rv_pow = no_pow, rv_ms = 0, rv_str = (\<lambda>_. []),
     rv_retrieve = runtime_retrieve ascii_db demo_texts vector_only demo_deps st, rv_llm = demo_llm_env, rv_sdks = flaky_sdks,
     rv_providers = REGISTERED_PROVIDERS, rv_prompts = [((''financial_rag'', ''2.2.0''), demo_prompt)], rv_sched = rev, rv_debug = False\<rparr>"

definition empty_store :: "unit store" where
  "empty_store = \<lparr>similarity_search = (\<lambda>_ _ t. []), lexical_corpus = None\<rparr>"

lemma demo_retrieve:
  "retrieve_step (demo_runtime st) (eps_step\<lparr>ps_status := s\<rparr>) (request_scope_of 7 None) =
     tenant_execute no_pow 0 (runtime_retrieve ascii_db demo_texts vector_only demo_deps st) ''a'' 7 None [] (JInt 4) [] True"
  by (simp add: retrieve_step_def demo_runtime_def request_scope_of_def eps_step_def PlanStep_def step_parameters_def step_filters_def get_or_def
      demo_texts_def)

lemma demo_evidence:
  "(case tenant_execute no_pow 0 (runtime_retrieve ascii_db demo_texts vector_only demo_deps located_store) ''a'' 7 None [] (JInt 4) [] True of
      Inr [e] \<Rightarrow> ce_content e = ''a'' | _ \<Rightarrow> False)"
  by code_simp

lemma demo_no_evidence:
  "tenant_execute no_pow 0 (runtime_retrieve ascii_db demo_texts vector_only demo_deps empty_store) ''a'' 7 None [] (JInt 4) [] True = Inr []"
  by code_simp

lemma demo_usable: "usable_providers (rv_providers (demo_runtime st)) (server_router demo_llm_env) \<noteq> []"
  by (simp add: demo_runtime_def usable_providers_def server_router_def ModelRouter_def REGISTERED_PROVIDERS_def)

lemma demo_eps_run:
  assumes "tenant_execute no_pow 0 (runtime_retrieve ascii_db demo_texts vector_only demo_deps st) ''a'' 7 None [] (JInt 4) [] True = Inr es"
  obtains res p1 where "runtime_run (demo_runtime st) (server_router demo_llm_env) (cps ''eps'') 7 None p w = (Inr res, p1, w)" "rz_evidence res = es"
    "rz_citations res = snd (build_context_from_evidence (rv_str (demo_runtime st)) es)" "sx_strategy (rz_execution res) = RAG"
    "wr_workflow (rz_workflow res) = WT_RAG"
proof -
  have "rv_lang (demo_runtime st) = plain_lang" "rv_providers (demo_runtime st) = REGISTERED_PROVIDERS" by (simp_all add: demo_runtime_def)
  from eps_run [OF this demo_usable, of 7 None es p w] demo_retrieve assms that show thesis by auto
qed

lemma located_store_tags: "tags_tenants located_store"
  by (simp add: tags_tenants_def located_store_def tagged_def meta_get_def get_or_def list_all_iff)

theorem run_evidence_isolated_witness:
  "\<exists>res p1 e rq r. runtime_run (demo_runtime located_store) (server_router demo_llm_env) (cps ''eps'') 7 None \<lparr>step_counter = 9\<rparr> (0, 0) = (Inr res, p1, (0, 0)) \<and>
     rz_evidence res = [e] \<and> rq_tenant rq = 7 \<and> (recorded_for 7 r \<or> recorded_for 0 r) \<and>
     r \<in> set (retrieve ascii_db vector_only demo_deps located_store (runtime_context rq))"
proof -
  obtain e where e: "tenant_execute no_pow 0 (runtime_retrieve ascii_db demo_texts vector_only demo_deps located_store) ''a'' 7 None [] (JInt 4) [] True = Inr [e]"
    using demo_evidence by (auto split: sum.splits list.splits)
  obtain res p1 where res: "runtime_run (demo_runtime located_store) (server_router demo_llm_env) (cps ''eps'') 7 None \<lparr>step_counter = 9\<rparr> (0, 0) = (Inr res, p1, (0, 0))"
      "rz_evidence res = [e]" by (rule demo_eps_run [OF e])
  have retr: "rv_retrieve (demo_runtime located_store) = runtime_retrieve ascii_db demo_texts vector_only demo_deps located_store"
    by (simp add: demo_runtime_def)
  have "e \<in> set (rz_evidence res)" by (simp add: res(2))
  from run_evidence_isolated [OF res(1) retr this] located_store_tags res show ?thesis by blast
qed

theorem parallel_answer_is_sequential_witness:
  "\<exists>pl tr cr p'. make_plan plain_lang eps_context \<lparr>step_counter = 9\<rparr> = ((pl, tr, cr), p') \<and> length (pl_tasks pl) = 2 \<and>
     ParallelHandler (demo_runtime located_store) (request_scope_of 7 None) 4 (pl_tasks pl) (0, 0) =
     MultiStepHandler (demo_runtime located_store) (request_scope_of 7 None) 1 (pl_tasks pl) (0, 0)"
proof -
  obtain pl :: "step_output step_result execution_plan" and tr cr p' where made: "make_plan plain_lang eps_context \<lparr>step_counter = 9\<rparr> = ((pl, tr, cr), p')"
    by (metis prod.collapse)
  note parts = make_plan_parts [OF made]
  have "length (pl_tasks pl) = 2" unfolding parts(3) by (simp add: parts(1) eps_analysis eps_no_calculation eps_plan)
  moreover have "mset (rv_sched (demo_runtime located_store) ks) = mset ks" for ks by (simp add: demo_runtime_def)
  ultimately show ?thesis using parallel_answer_is_sequential [OF made] made by metis
qed

theorem run_completes_witness:
  "\<exists>res p1. runtime_run (demo_runtime empty_store) (server_router demo_llm_env) (cps ''eps'') 7 None \<lparr>step_counter = 9\<rparr> (0, 0) = (Inr res, p1, (0, 0)) \<and>
     wr_status (rz_workflow res) = WS_DONE \<and> list_all settled (pl_tasks (rz_plan res))"
proof -
  obtain res p1 where res: "runtime_run (demo_runtime empty_store) (server_router demo_llm_env) (cps ''eps'') 7 None \<lparr>step_counter = 9\<rparr> (0, 0) = (Inr res, p1, (0, 0))"
      "sx_strategy (rz_execution res) = RAG" by (rule demo_eps_run [OF demo_no_evidence])
  have "[] \<notin> set (map fst (rv_providers (demo_runtime empty_store)))" by (simp add: demo_runtime_def REGISTERED_PROVIDERS_def)
  moreover have "mset (rv_sched (demo_runtime empty_store) ks) = mset ks" for ks by (simp add: demo_runtime_def)
  ultimately show ?thesis
    using run_completes [where rv = "demo_runtime empty_store" and rt = "server_router demo_llm_env" and q = "cps ''eps''" and tn = 7
        and thread = None and p = "\<lparr>step_counter = 9\<rparr>" and w = "(0, 0)"] res by simp
qed


end
