(* ===== verification/Session_Cache.thy ===== *)
theory Session_Cache
  imports Json
begin

text \<open>
  The answer cache \<^verbatim>\<open>cache/session.py\<close>.

  Redis is the record \<open>redis\<close> of the commands the cache sends, each of which may raise and may change the state of the
  server; \<open>redis_reads\<close> and \<open>redis_removes\<close> are the documented behaviour the theorems rely on. A value is what
  \<open>json.loads\<close> gives back for the text that \<open>json.dumps\<close> wrote, and \<open>sha\<close> is \<open>sha256(...).hexdigest()\<close>. Values may
  vanish at any command, since entries expire after \<open>SESSION_TTL\<close> seconds. The client decodes responses, so the branch
  for \<open>bytes\<close> is not taken.

  The theorems show whose entries a read can return and what a deletion of a thread reaches.
\<close>

definition SESSION_TTL :: int where
  "SESSION_TTL = 86400"

definition SESSION_PREFIX :: string where
  "SESSION_PREFIX = ''agent:session:''"

record ('r, 'v) redis =
  rd_available :: bool
  rd_get :: "string \<Rightarrow> 'r \<Rightarrow> (exn + 'v option) \<times> 'r"
  rd_setex :: "string \<Rightarrow> int \<Rightarrow> 'v \<Rightarrow> 'r \<Rightarrow> (exn + unit) \<times> 'r"
  rd_sadd :: "string \<Rightarrow> string \<Rightarrow> 'r \<Rightarrow> (exn + unit) \<times> 'r"
  rd_srem :: "string \<Rightarrow> string \<Rightarrow> 'r \<Rightarrow> (exn + unit) \<times> 'r"
  rd_expire :: "string \<Rightarrow> int \<Rightarrow> 'r \<Rightarrow> (exn + unit) \<times> 'r"
  rd_smembers :: "string \<Rightarrow> 'r \<Rightarrow> (exn + string list) \<times> 'r"
  rd_scan :: "string \<Rightarrow> 'r \<Rightarrow> (exn + string list) \<times> 'r"
  rd_delete :: "string list \<Rightarrow> 'r \<Rightarrow> (exn + nat) \<times> 'r"
  rd_exists :: "string \<Rightarrow> 'r \<Rightarrow> (exn + bool) \<times> 'r"

type_synonym hexdigest = "string \<Rightarrow> string"

subsection \<open>Keys\<close>

definition session_key :: "hexdigest \<Rightarrow> string \<Rightarrow> int \<Rightarrow> string option \<Rightarrow> int \<Rightarrow> string" where
  "session_key sha th tn rk u =
     SESSION_PREFIX @ str_int tn @ '':'' @ str_int u @ '':'' @ th @
     (case rk of None \<Rightarrow> [] | Some q \<Rightarrow> '':'' @ take 16 (sha q))"

definition index_key :: "hexdigest \<Rightarrow> string \<Rightarrow> int \<Rightarrow> int \<Rightarrow> string" where
  "index_key sha th tn u = SESSION_PREFIX @ ''index:'' @ str_int tn @ '':'' @ str_int u @ '':'' @ sha th"

definition replace_char :: "char \<Rightarrow> string \<Rightarrow> string \<Rightarrow> string" where
  "replace_char c new s = concat (map (\<lambda>x. if x = c then new else [x]) s)"

definition escape_match :: "string \<Rightarrow> string" where
  "escape_match s = fold (\<lambda>c e. replace_char c [CHR 0x5C, c] e) ''*?['' (replace_char (CHR 0x5C) [CHR 0x5C, CHR 0x5C] s)"

subsection \<open>Operations\<close>

text \<open>A command whose result is not used: an exception ends the \<open>try\<close> block.\<close>

fun then_do :: "(exn + 'a) \<times> 'r \<Rightarrow> ('a \<Rightarrow> 'r \<Rightarrow> (exn + 'b) \<times> 'r) \<Rightarrow> (exn + 'b) \<times> 'r" where
  "then_do (Inl e, r) k = (Inl e, r)"
| "then_do (Inr x, r) k = k x r"

definition cache_get :: "('r, 'v) redis \<Rightarrow> hexdigest \<Rightarrow> string \<Rightarrow> int \<Rightarrow> string option \<Rightarrow> int \<Rightarrow> 'r \<Rightarrow> 'v option \<times> 'r" where
  "cache_get rd sha th tn rk u r =
     (if \<not> rd_available rd then (None, r)
      else case rd_get rd (session_key sha th tn rk u) r of
          (Inr d, r') \<Rightarrow> (d, r')
        | (Inl e, r') \<Rightarrow> (None, r'))"

definition cache_save :: "('r, 'v) redis \<Rightarrow> hexdigest \<Rightarrow> string \<Rightarrow> 'v \<Rightarrow> int \<Rightarrow> string option \<Rightarrow> int \<Rightarrow> 'r \<Rightarrow> bool \<times> 'r" where
  "cache_save rd sha th st tn rk u r =
     (if \<not> rd_available rd then (False, r)
      else let key = session_key sha th tn rk u; ix = index_key sha th tn u in
        apfst is_ok
          (then_do (rd_setex rd key SESSION_TTL st r) (\<lambda>_ r.
           then_do (rd_sadd rd ix key r) (\<lambda>_ r.
           rd_expire rd ix SESSION_TTL r))))"

definition cache_delete :: "('r, 'v) redis \<Rightarrow> hexdigest \<Rightarrow> string \<Rightarrow> int \<Rightarrow> string option \<Rightarrow> int \<Rightarrow> 'r \<Rightarrow> bool \<times> 'r" where
  "cache_delete rd sha th tn rk u r =
     (if \<not> rd_available rd then (False, r)
      else let key = session_key sha th tn rk u in
        apfst is_ok
          (then_do (rd_delete rd [key] r) (\<lambda>_ r.
           rd_srem rd (index_key sha th tn u) key r)))"

record ThreadCacheDeletion =
  successful :: bool
  keys_deleted :: nat

text \<open>The keys that \<open>delete_thread\<close> collects from the index set and from the scan, and sorts.\<close>

definition thread_keys :: "string \<Rightarrow> string list \<Rightarrow> string list \<Rightarrow> string list" where
  "thread_keys base indexed scanned = sort (remdups
     (base # filter (\<lambda>k. k = base \<or> prefix (base @ '':'') k) indexed @ filter (prefix (base @ '':'')) scanned))"

definition cache_delete_thread :: "('r, 'v) redis \<Rightarrow> hexdigest \<Rightarrow> string \<Rightarrow> int \<Rightarrow> int \<Rightarrow> 'r \<Rightarrow> ThreadCacheDeletion \<times> 'r" where
  "cache_delete_thread rd sha th tn u r =
     (if \<not> rd_available rd then (\<lparr>successful = True, keys_deleted = 0\<rparr>, r)
      else let base = session_key sha th tn None u; ix = index_key sha th tn u in
        case then_do (rd_smembers rd ix r) (\<lambda>indexed r.
             then_do (rd_scan rd (escape_match base @ '':*'') r) (\<lambda>scanned r.
             then_do (rd_delete rd (thread_keys base indexed scanned) r) (\<lambda>n r.
             then_do (rd_delete rd [ix] r) (\<lambda>_ r. (Inr n, r))))) of
          (Inr n, r') \<Rightarrow> (\<lparr>successful = True, keys_deleted = n\<rparr>, r')
        | (Inl e, r') \<Rightarrow> (\<lparr>successful = False, keys_deleted = 0\<rparr>, r'))"

definition cache_exists :: "('r, 'v) redis \<Rightarrow> hexdigest \<Rightarrow> string \<Rightarrow> int \<Rightarrow> string option \<Rightarrow> int \<Rightarrow> 'r \<Rightarrow> bool \<times> 'r" where
  "cache_exists rd sha th tn rk u r =
     (if \<not> rd_available rd then (False, r)
      else case rd_exists rd (session_key sha th tn rk u) r of
          (Inr b, r') \<Rightarrow> (b, r')
        | (Inl e, r') \<Rightarrow> (False, r'))"

text \<open>Any sequence of calls of the cache, by any principals.\<close>

datatype 'v cache_call =
    Save string 'v int "string option" int
  | Fetch string int "string option" int
  | Drop string int "string option" int
  | DropThread string int int
  | Probe string int "string option" int

fun cache_step :: "('r, 'v) redis \<Rightarrow> hexdigest \<Rightarrow> 'v cache_call \<Rightarrow> 'r \<Rightarrow> 'r" where
  "cache_step rd sha (Save th st tn rk u) r = snd (cache_save rd sha th st tn rk u r)"
| "cache_step rd sha (Fetch th tn rk u) r = snd (cache_get rd sha th tn rk u r)"
| "cache_step rd sha (Drop th tn rk u) r = snd (cache_delete rd sha th tn rk u r)"
| "cache_step rd sha (DropThread th tn u) r = snd (cache_delete_thread rd sha th tn u r)"
| "cache_step rd sha (Probe th tn rk u) r = snd (cache_exists rd sha th tn rk u r)"

definition cache_run :: "('r, 'v) redis \<Rightarrow> hexdigest \<Rightarrow> 'v cache_call list \<Rightarrow> 'r \<Rightarrow> 'r" where
  "cache_run rd sha cs r = fold (cache_step rd sha) cs r"

subsection \<open>What Redis promises\<close>

text \<open>
  \<open>view r k\<close> is the value a read of the key \<open>k\<close> finds. Only \<open>SETEX\<close> adds values, and only the one it is given, also
  when its reply is lost; every other command can at most let values vanish.
\<close>

definition redis_reads :: "('r \<Rightarrow> string \<Rightarrow> 'v option) \<Rightarrow> ('r, 'v) redis \<Rightarrow> bool" where
  "redis_reads view rd \<longleftrightarrow>
     (\<forall>k r v r'. rd_get rd k r = (Inr (Some v), r') \<longrightarrow> view r k = Some v) \<and>
     (\<forall>k r. view (snd (rd_get rd k r)) \<subseteq>\<^sub>m view r) \<and>
     (\<forall>k t v r j x. view (snd (rd_setex rd k t v r)) j = Some x \<longrightarrow> view r j = Some x \<or> j = k \<and> x = v) \<and>
     (\<forall>k m r. view (snd (rd_sadd rd k m r)) \<subseteq>\<^sub>m view r) \<and>
     (\<forall>k m r. view (snd (rd_srem rd k m r)) \<subseteq>\<^sub>m view r) \<and>
     (\<forall>k t r. view (snd (rd_expire rd k t r)) \<subseteq>\<^sub>m view r) \<and>
     (\<forall>k r. view (snd (rd_smembers rd k r)) \<subseteq>\<^sub>m view r) \<and>
     (\<forall>p r. view (snd (rd_scan rd p r)) \<subseteq>\<^sub>m view r) \<and>
     (\<forall>ks r. view (snd (rd_delete rd ks r)) \<subseteq>\<^sub>m view r) \<and>
     (\<forall>k r. view (snd (rd_exists rd k r)) \<subseteq>\<^sub>m view r)"

text \<open>
  Glob patterns as Redis documents them, without character classes: \<open>glob\<close> is false on those, and the program never
  sends one.
\<close>

fun glob :: "string \<Rightarrow> string \<Rightarrow> bool" where
  "glob [] s = (s = [])"
| "glob (c # p) s =
    (if c = CHR ''*'' then glob p s \<or> (case s of [] \<Rightarrow> False | x # xs \<Rightarrow> glob (c # p) xs)
     else if c = CHR ''?'' then (case s of [] \<Rightarrow> False | x # xs \<Rightarrow> glob p xs)
     else if c = CHR ''['' then False
     else if c = CHR 0x5C then
       (case p of [] \<Rightarrow> s = [c] | d # p' \<Rightarrow> (case s of [] \<Rightarrow> False | x # xs \<Rightarrow> x = d \<and> glob p' xs))
     else (case s of [] \<Rightarrow> False | x # xs \<Rightarrow> x = c \<and> glob p xs))"

text \<open>A completed \<open>SCAN\<close> has returned every key that matched all along, and \<open>DEL\<close> removes the keys it names.\<close>

definition redis_removes :: "('r \<Rightarrow> string \<Rightarrow> 'v option) \<Rightarrow> ('r, 'v) redis \<Rightarrow> bool" where
  "redis_removes view rd \<longleftrightarrow>
     (\<forall>p r ks r' k v. rd_scan rd p r = (Inr ks, r') \<and> view r' k = Some v \<and> glob p k \<longrightarrow> k \<in> set ks) \<and>
     (\<forall>ks r n r' k. rd_delete rd ks r = (Inr n, r') \<and> k \<in> set ks \<longrightarrow> view r' k = None)"

subsection \<open>Keys separate principals\<close>

lemma sep_inj:
  assumes "a @ c # b = a' @ c # b'" "c \<notin> set a" "c \<notin> set a'"
  shows "a = a' \<and> b = b'"
  using assms by (induction a arbitrary: a') (auto simp: Cons_eq_append_conv append_eq_Cons_conv)

lemma str_int_no_colon: "CHR '':'' \<notin> set (str_int i)"
  using str_int_chars [of i] by auto

lemma session_key_principal:
  assumes "session_key sha th tn rk u = session_key sha' th' tn' rk' u'"
  shows "tn = tn' \<and> u = u' \<and>
    th @ (case rk of None \<Rightarrow> [] | Some q \<Rightarrow> '':'' @ take 16 (sha q)) =
    th' @ (case rk' of None \<Rightarrow> [] | Some q \<Rightarrow> '':'' @ take 16 (sha' q))"
  using assms unfolding session_key_def
  by (auto dest!: sep_inj [OF _ str_int_no_colon str_int_no_colon] str_int_inj)

lemma session_key_thread:
  assumes "session_key sha th tn (Some q) u = session_key sha th' tn' (Some q') u'" "\<And>q. length (sha q) = 64"
  shows "th = th' \<and> take 16 (sha q) = take 16 (sha q')"
  using session_key_principal [OF assms(1)] by (auto simp: append_eq_append_conv assms(2))

lemma base_key_principal:
  assumes "prefix (session_key sha th tn None u @ '':'') (session_key sha' th' tn' rk u') \<or>
    session_key sha th tn None u = session_key sha' th' tn' rk u'"
  shows "tn = tn' \<and> u = u'"
proof -
  have "\<exists>s. session_key sha (th @ s) tn None u = session_key sha' th' tn' rk u'"
    using assms by (auto simp: prefix_def session_key_def intro: exI [of _ "[]"])
  then show ?thesis using session_key_principal by blast
qed

subsection \<open>What a read can return\<close>

text \<open>All values the server holds come from a set of entries.\<close>

definition held_in :: "('r \<Rightarrow> string \<Rightarrow> 'v option) \<Rightarrow> (string \<times> 'v) set \<Rightarrow> 'r \<Rightarrow> bool" where
  "held_in view S r \<longleftrightarrow> (\<forall>k v. view r k = Some v \<longrightarrow> (k, v) \<in> S)"

lemma held_in_le: "view r' \<subseteq>\<^sub>m view r \<Longrightarrow> held_in view S r \<Longrightarrow> held_in view S r'"
  unfolding held_in_def map_le_def by (metis domI)

lemma held_in_mono: "held_in view S r \<Longrightarrow> S \<subseteq> T \<Longrightarrow> held_in view T r"
  unfolding held_in_def by blast

lemma held_in_then_do:
  assumes "held_in view S (snd c)" "\<And>x r. held_in view S r \<Longrightarrow> held_in view S (snd (k x r))"
  shows "held_in view S (snd (then_do c k))"
  using assms by (cases c; cases "fst c") auto

lemma redis_reads_held_in:
  assumes "redis_reads view rd" "held_in view S r"
  shows "held_in view S (snd (rd_get rd k r))" "held_in view S (snd (rd_sadd rd k m r))"
    "held_in view S (snd (rd_srem rd k m r))" "held_in view S (snd (rd_expire rd k t r))"
    "held_in view S (snd (rd_smembers rd k r))" "held_in view S (snd (rd_scan rd k r))"
    "held_in view S (snd (rd_delete rd ks r))" "held_in view S (snd (rd_exists rd k r))"
    "(k, v) \<in> S \<Longrightarrow> held_in view S (snd (rd_setex rd k t v r))"
  using assms unfolding redis_reads_def by (simp_all add: held_in_le [of view _ r]) (unfold held_in_def, metis)

lemma then_do_Inr: "then_do c k = (Inr y, r') \<longleftrightarrow> (\<exists>x r. c = (Inr x, r) \<and> k x r = (Inr y, r'))"
  by (cases "(c, k)" rule: then_do.cases) auto

text \<open>The entries that a sequence of calls writes.\<close>

definition entries :: "hexdigest \<Rightarrow> 'v cache_call list \<Rightarrow> (string \<times> 'v) set" where
  "entries sha cs = {(session_key sha th tn rk u, st) | th st tn rk u. Save th st tn rk u \<in> set cs}"

lemma entries_Cons: "entries sha (c # cs) = entries sha [c] \<union> entries sha cs"
  by (simp add: entries_def) blast

lemma snd_case_sum: "snd (case p of (Inr x, r) \<Rightarrow> (f x, r) | (Inl e, r) \<Rightarrow> (g e, r)) = snd p"
  by (auto split: prod.split sum.split)

lemma cache_step_held_in:
  assumes law: "redis_reads view rd" and S: "held_in view S r" "entries sha [c] \<subseteq> S"
  shows "held_in view S (cache_step rd sha c r)"
proof (cases c)
  case (Save th st tn rk u)
  then have "(session_key sha th tn rk u, st) \<in> S" using S(2) by (auto simp: entries_def)
  then show ?thesis using Save S(1)
    by (simp add: cache_save_def Let_def redis_reads_held_in [OF law] held_in_then_do)
next
  case (DropThread th tn u)
  then show ?thesis using S(1)
    by (simp add: cache_delete_thread_def Let_def snd_case_sum redis_reads_held_in [OF law] held_in_then_do)
qed (use S(1) in \<open>simp_all add: cache_get_def cache_delete_def cache_exists_def Let_def snd_case_sum
    redis_reads_held_in [OF law] held_in_then_do\<close>)

lemma cache_run_held_in:
  assumes "redis_reads view rd" "held_in view S r" "entries sha cs \<subseteq> S"
  shows "held_in view S (cache_run rd sha cs r)"
  using assms unfolding cache_run_def
proof (induction cs arbitrary: r)
  case (Cons c cs)
  have "entries sha [c] \<subseteq> S" "entries sha cs \<subseteq> S" using Cons.prems(3) unfolding entries_Cons [of sha c cs] by simp_all
  then show ?case using Cons.IH Cons.prems cache_step_held_in [of view rd S r sha c] by simp
qed simp

lemma cache_hit_saved:
  assumes law: "redis_reads view rd" and empty: "view r0 = Map.empty"
    and hit: "cache_get rd sha th tn rk u (cache_run rd sha cs r0) = (Some v, r')"
  shows "\<exists>th' rk'. Save th' v tn rk' u \<in> set cs \<and> session_key sha th' tn rk' u = session_key sha th tn rk u"
proof -
  have "held_in view (entries sha cs) (cache_run rd sha cs r0)"
    by (rule cache_run_held_in [OF law]) (simp_all add: held_in_def empty)
  moreover have "view (cache_run rd sha cs r0) (session_key sha th tn rk u) = Some v"
    using hit law unfolding cache_get_def redis_reads_def
    by (auto split: if_splits prod.splits sum.splits)
  ultimately obtain th' tn' rk' u' where *: "Save th' v tn' rk' u' \<in> set cs"
    "session_key sha th' tn' rk' u' = session_key sha th tn rk u"
    unfolding held_in_def entries_def by force
  with session_key_principal [OF *(2)] show ?thesis by blast
qed

subsection \<open>What a deletion reaches\<close>

lemma fold_escape:
  "escape_match s = concat (map (\<lambda>c. if c \<in> set [CHR 0x5C, CHR ''*'', CHR ''?'', CHR ''[''] then [CHR 0x5C, c] else [c]) s)"
  by (induction s) (auto simp: escape_match_def replace_char_def)

lemma glob_escape: "glob (escape_match p @ rest) s \<longleftrightarrow> (\<exists>t. s = p @ t \<and> glob rest t)"
  unfolding fold_escape by (induction p arbitrary: s) (auto split: list.splits)

lemma glob_star: "glob ''*'' s"
  by (induction s) auto

lemma glob_colon_star: "glob '':*'' s \<longleftrightarrow> (\<exists>t. s = CHR '':'' # t)"
  using glob_star by (cases s) (simp_all del: glob.simps(2) add: glob.simps(2) [of "CHR '':''"])

lemma glob_thread: "glob (escape_match base @ '':*'') k \<longleftrightarrow> prefix (base @ '':'') k"
  unfolding glob_escape glob_colon_star by (auto simp: prefix_def)

lemma thread_keys_mem:
  "k \<in> set (thread_keys base indexed scanned) \<longleftrightarrow>
     k = base \<or> prefix (base @ '':'') k \<and> (k \<in> set indexed \<or> k \<in> set scanned)"
  by (auto simp: thread_keys_def)

lemma cache_delete_thread_removes:
  assumes law: "redis_reads view rd" "redis_removes view rd" and av: "rd_available rd"
    and del: "cache_delete_thread rd sha th tn u r = (d, r')" "successful d"
    and key: "k = session_key sha th tn None u \<or> prefix (session_key sha th tn None u @ '':'') k"
  shows "view r' k = None"
proof -
  let ?base = "session_key sha th tn None u"
  obtain indexed r1 scanned r2 n r3 m where
    s: "rd_smembers rd (index_key sha th tn u) r = (Inr indexed, r1)"
      "rd_scan rd (escape_match ?base @ '':*'') r1 = (Inr scanned, r2)"
      "rd_delete rd (thread_keys ?base indexed scanned) r2 = (Inr n, r3)"
      "rd_delete rd [index_key sha th tn u] r3 = (Inr m, r')"
    using del av unfolding cache_delete_thread_def Let_def
    by (auto simp: then_do_Inr split: sum.splits prod.splits)
  have le: "view r' \<subseteq>\<^sub>m view r3" "view r3 \<subseteq>\<^sub>m view r2"
    using law(1) s(3,4) unfolding redis_reads_def by (metis snd_conv)+
  show ?thesis
  proof (rule ccontr)
    assume "view r' k \<noteq> None"
    then obtain v where v: "view r3 k = Some v" "view r2 k = Some v" using le by (force simp: map_le_def dom_def)
    then have "k \<in> set (thread_keys ?base indexed scanned)"
      using key law(2) s(2) unfolding redis_removes_def thread_keys_mem glob_thread [symmetric] by blast
    then show False using law(2) s(3) v(1) unfolding redis_removes_def by (metis option.distinct(1))
  qed
qed

lemma cache_get_gone:
  assumes "redis_reads view rd" "view r (session_key sha th tn rk u) = None"
  shows "fst (cache_get rd sha th tn rk u r) = None"
  using assms unfolding cache_get_def redis_reads_def
  by (auto split: prod.split sum.split) (metis not_Some_eq option.distinct(1))

lemma index_key_apart: "index_key sha th tn u \<noteq> session_key sha' th' tn' rk u'"
proof
  assume "index_key sha th tn u = session_key sha' th' tn' rk u'"
  then have "CHR ''i'' = hd (str_int tn' @ '':'')" unfolding index_key_def session_key_def
    by (cases "str_int tn'") auto
  moreover have "hd (str_int tn' @ '':'') \<in> set (str_int tn') \<union> {CHR '':''}" by (cases "str_int tn'") auto
  ultimately have "CHR ''i'' \<in> set (str_int tn')" by auto
  then have "is_digit (CHR ''i'')" using str_int_chars [of tn'] by fastforce
  then show False by simp
qed

lemma cache_deleted_thread_misses:
  assumes "redis_reads view rd" "redis_removes view rd"
    and "cache_delete_thread rd sha th tn u r = (d, r')" "successful d"
  shows "fst (cache_get rd sha th tn rk u r') = None"
proof (cases "rd_available rd")
  case True
  have "session_key sha th tn rk u = session_key sha th tn None u \<or>
      prefix (session_key sha th tn None u @ '':'') (session_key sha th tn rk u)"
    by (cases rk) (auto simp: session_key_def prefix_def)
  then show ?thesis
    by (rule cache_get_gone [OF assms(1) cache_delete_thread_removes [OF assms(1,2) True assms(3,4)]])
qed (simp add: cache_get_def)

subsection \<open>Isolation and deletion\<close>

text \<open>
  C25. Cached answers never cross principals. Start with an empty server and let any principals call the cache in any
  order, through a Redis that may lose values and fail at any command. If a principal then reads a cached answer for a
  thread and a request, this very answer was saved by the same user of the same tenant; it was saved for the same thread
  under a request with the same digest, unless it was saved without a request key under a thread id that spells out the
  thread and the digest.
\<close>

theorem cache_hits_own:
  assumes "redis_reads view rd" "view r0 = Map.empty" "\<And>q. length (sha q) = 64"
    and "cache_get rd sha th tn (Some q) u (cache_run rd sha cs r0) = (Some v, r')"
  shows "\<exists>th' rk'. Save th' v tn rk' u \<in> set cs \<and>
    (case rk' of
       Some q' \<Rightarrow> th' = th \<and> take 16 (sha q') = take 16 (sha q)
     | None \<Rightarrow> th' = th @ '':'' @ take 16 (sha q))"
proof -
  obtain th' rk' where saved: "Save th' v tn rk' u \<in> set cs"
    and key: "session_key sha th' tn rk' u = session_key sha th tn (Some q) u"
    using cache_hit_saved [OF assms(1,2,4)] by blast
  have "case rk' of Some q' \<Rightarrow> th' = th \<and> take 16 (sha q') = take 16 (sha q)
     | None \<Rightarrow> th' = th @ '':'' @ take 16 (sha q)"
    using session_key_principal [OF key] session_key_thread [of sha th' tn _ u th tn q u, OF _ assms(3)] key
    by (cases rk') auto
  with saved show ?thesis by blast
qed

text \<open>
  C33. Deleting a thread from the cache reaches all of its entries and none of another principal. After a deletion that
  reports success, no request of that principal on that thread finds a cached answer, whatever the Redis server held
  before; and whatever the index set and the scan return, the keys sent to \<open>DEL\<close> contain no key under which another
  user or another tenant saves or reads, the index key included.
\<close>

theorem thread_deletion_complete:
  assumes "redis_reads view rd" "redis_removes view rd"
    and "cache_delete_thread rd sha th tn u r = (d, r')" "successful d"
  shows "fst (cache_get rd sha th tn rk u r') = None \<and>
    ((tn', u') \<noteq> (tn, u) \<longrightarrow>
      session_key sha th' tn' rk' u' \<notin> set (index_key sha th tn u # thread_keys (session_key sha th tn None u) indexed scanned))"
proof
  show "fst (cache_get rd sha th tn rk u r') = None" by (rule cache_deleted_thread_misses [OF assms])
  show "(tn', u') \<noteq> (tn, u) \<longrightarrow> session_key sha th' tn' rk' u' \<notin>
      set (index_key sha th tn u # thread_keys (session_key sha th tn None u) indexed scanned)"
    using base_key_principal [of sha th tn u sha th' tn' rk' u'] index_key_apart [of sha th tn u sha th' tn' rk' u']
    unfolding set_simps insert_iff thread_keys_mem by auto
qed

text \<open>The converse holds only per principal: a thread id may itself contain a colon, and then its entries are in reach.\<close>

lemma thread_deletion_reaches_extensions:
  "session_key sha (th @ '':'' @ s) tn rk u \<in> set (thread_keys (session_key sha th tn None u) indexed
     [session_key sha (th @ '':'' @ s) tn rk u])"
  unfolding thread_keys_mem by (simp add: session_key_def prefix_def)

subsection \<open>A server in memory\<close>

type_synonym 'v memory_server = "(string \<times> 'v) list \<times> (string \<times> string) list"

definition memory_redis :: "('v memory_server, 'v) redis" where
  "memory_redis = \<lparr>rd_available = True,
     rd_get = \<lambda>k (s, m). (Inr (map_of s k), s, m),
     rd_setex = \<lambda>k t v (s, m). (Inr (), AList.update k v s, m),
     rd_sadd = \<lambda>k x (s, m). (Inr (), s, (k, x) # m),
     rd_srem = \<lambda>k x (s, m). (Inr (), s, filter (\<lambda>e. e \<noteq> (k, x)) m),
     rd_expire = \<lambda>k t (s, m). (Inr (), s, m),
     rd_smembers = \<lambda>k (s, m). (Inr (map snd (filter (\<lambda>e. fst e = k) m)), s, m),
     rd_scan = \<lambda>p (s, m). (Inr (filter (glob p) (map fst s)), s, m),
     rd_delete = \<lambda>ks (s, m). (Inr (length (filter (\<lambda>e. fst e \<in> set ks) s)),
       filter (\<lambda>e. fst e \<notin> set ks) s, filter (\<lambda>e. fst e \<notin> set ks) m),
     rd_exists = \<lambda>k (s, m). (Inr (map_of s k \<noteq> None), s, m)\<rparr>"

definition memory_view :: "'v memory_server \<Rightarrow> string \<Rightarrow> 'v option" where
  "memory_view r = map_of (fst r)"

lemma map_of_filter_keys: "map_of (filter (\<lambda>e. fst e \<notin> K) s) k = (if k \<in> K then None else map_of s k)"
  by (induction s) auto

lemma memory_redis_reads: "redis_reads memory_view memory_redis"
  unfolding redis_reads_def memory_redis_def memory_view_def
  by (auto simp: update_conv' map_of_filter_keys map_le_def dom_def split: if_splits)

lemma memory_redis_removes: "redis_removes memory_view memory_redis"
  unfolding redis_removes_def memory_redis_def memory_view_def
  by (force simp: map_of_filter_keys dest: map_of_SomeD)

definition plain_digest :: hexdigest where
  "plain_digest s = take 64 (s @ replicate 64 CHR ''0'')"

lemma plain_digest_length: "length (plain_digest s) = 64"
  by (simp add: plain_digest_def)

theorem cache_hits_own_witness:
  "\<exists>th' rk'. Save th' (JStr ''a'') 1 rk' 7 \<in> set [Save ''t'' (JStr ''a'') 1 (Some ''q'') 7, Save ''t'' (JStr ''b'') 1 (Some ''q'') 8] \<and>
    (case rk' of
       Some q' \<Rightarrow> th' = ''t'' \<and> take 16 (plain_digest q') = take 16 (plain_digest ''q'')
     | None \<Rightarrow> th' = ''t'' @ '':'' @ take 16 (plain_digest ''q''))"
proof (rule cache_hits_own [OF memory_redis_reads _ plain_digest_length])
  show "memory_view ([], []) = Map.empty" by (simp add: memory_view_def)
  show "cache_get memory_redis plain_digest ''t'' 1 (Some ''q'') 7
      (cache_run memory_redis plain_digest [Save ''t'' (JStr ''a'') 1 (Some ''q'') 7, Save ''t'' (JStr ''b'') 1 (Some ''q'') 8] ([], [])) =
      (Some (JStr ''a''), snd (cache_get memory_redis plain_digest ''t'' 1 (Some ''q'') 7
      (cache_run memory_redis plain_digest [Save ''t'' (JStr ''a'') 1 (Some ''q'') 7, Save ''t'' (JStr ''b'') 1 (Some ''q'') 8] ([], []))))"
    by code_simp
qed

theorem thread_deletion_complete_witness:
  "fst (cache_get memory_redis plain_digest ''t'' 1 (Some ''q'') 7
     (snd (cache_delete_thread memory_redis plain_digest ''t'' 1 7
       (cache_run memory_redis plain_digest [Save ''t'' (JStr ''a'') 1 (Some ''q'') 7, Save ''t'' (JStr ''b'') 1 (Some ''q'') 8] ([], []))))) = None \<and>
   session_key plain_digest ''t'' 1 (Some ''q'') 8 \<notin>
     set (index_key plain_digest ''t'' 1 7 # thread_keys (session_key plain_digest ''t'' 1 None 7) [] [])"
proof -
  let ?r = "cache_run memory_redis plain_digest [Save ''t'' (JStr ''a'') 1 (Some ''q'') 7, Save ''t'' (JStr ''b'') 1 (Some ''q'') 8] ([], [])"
  have del: "cache_delete_thread memory_redis plain_digest ''t'' 1 7 ?r =
      (\<lparr>successful = True, keys_deleted = 1\<rparr>, snd (cache_delete_thread memory_redis plain_digest ''t'' 1 7 ?r))"
    by code_simp
  from thread_deletion_complete [OF memory_redis_reads memory_redis_removes del, of "Some ''q''" 1 8 "''t''" "Some ''q''" "[]" "[]"]
  show ?thesis by simp
qed

end
