(* ===== verification/Checkpointing.thy ===== *)
theory Checkpointing
  imports Session_Cache
begin

text \<open>
  Which LangGraph saver a run gets and under which id it stores its state: \<^verbatim>\<open>services/agent_runtime/checkpointing.py\<close>.

  The savers of LangGraph are the record \<open>savers\<close>: opening the PostgreSQL saver, its one-time \<open>setup\<close>, and
  \<open>delete_thread\<close> of both savers. The state of the module is the process-wide status of the PostgreSQL backend and the
  set of databases already set up; locks make each update of it one step.
\<close>

record CheckpointBackendStatus =
  cb_backend :: string
  cb_status :: string
  cb_fallback_count :: nat
  cb_last_error_type :: "string option"

definition initial_postgres_status :: CheckpointBackendStatus where
  "initial_postgres_status =
     \<lparr>cb_backend = ''postgres'', cb_status = ''not_checked'', cb_fallback_count = 0, cb_last_error_type = None\<rparr>"

record checkpoint_module =
  postgres_status :: CheckpointBackendStatus
  setup_databases :: "string list"

record 'k savers =
  sv_use_postgres :: bool
  sv_database_url :: string
  sv_open :: "string \<Rightarrow> 'k \<Rightarrow> (exn + unit) \<times> 'k"
  sv_setup :: "'k \<Rightarrow> (exn + unit) \<times> 'k"
  sv_postgres_delete :: "string \<Rightarrow> 'k \<Rightarrow> (exn + unit) \<times> 'k"
  sv_memory_delete :: "string \<Rightarrow> 'k \<Rightarrow> 'k"

definition principal_name :: "int option \<Rightarrow> string" where
  "principal_name u = (case u of Some i \<Rightarrow> str_int i | None \<Rightarrow> ''system'')"

definition scoped_checkpoint_thread_id :: "hexdigest \<Rightarrow> int \<Rightarrow> int option \<Rightarrow> string \<Rightarrow> string" where
  "scoped_checkpoint_thread_id sha tn u th =
     (let principal = principal_name u; digest = sha (str_int tn @ '':'' @ principal @ '':'' @ th) in
      ''tenant-'' @ str_int tn @ '':user-'' @ principal @ '':'' @ digest)"

text \<open>\<open>s.replace(old, new, 1)\<close> for a non-empty \<open>old\<close>.\<close>

fun replace_first :: "string \<Rightarrow> string \<Rightarrow> string \<Rightarrow> string" where
  "replace_first old new [] = []"
| "replace_first old new (c # s) =
     (if prefix old (c # s) then new @ drop (length old) (c # s) else c # replace_first old new s)"

definition psycopg_url :: "string \<Rightarrow> string" where
  "psycopg_url url =
     replace_first ''postgresql+psycopg://'' ''postgresql://''
       (replace_first ''postgresql+psycopg2://'' ''postgresql://'' url)"

definition setup_postgres_once :: "'k savers \<Rightarrow> string \<Rightarrow> checkpoint_module \<Rightarrow> 'k \<Rightarrow> (exn + unit) \<times> checkpoint_module \<times> 'k" where
  "setup_postgres_once sv url cm k =
     (if url \<in> set (setup_databases cm) then (Inr (), cm, k)
      else case sv_setup sv k of
          (Inl e, k') \<Rightarrow> (Inl e, cm, k')
        | (Inr _, k') \<Rightarrow> (Inr (), cm\<lparr>setup_databases := url # setup_databases cm\<rparr>, k'))"

definition get_checkpoint_backend_status :: "'k savers \<Rightarrow> checkpoint_module \<Rightarrow> CheckpointBackendStatus" where
  "get_checkpoint_backend_status sv cm =
     (if \<not> sv_use_postgres sv
      then \<lparr>cb_backend = ''memory'', cb_status = ''ephemeral'', cb_fallback_count = 0, cb_last_error_type = None\<rparr>
      else postgres_status cm)"

definition record_postgres_status :: "string \<Rightarrow> exn option \<Rightarrow> checkpoint_module \<Rightarrow> checkpoint_module" where
  "record_postgres_status st err cm = cm\<lparr>postgres_status :=
     \<lparr>cb_backend = ''postgres'', cb_status = st,
      cb_fallback_count = cb_fallback_count (postgres_status cm) + (if st = ''fallback'' then 1 else 0),
      cb_last_error_type = map_option exn_class err\<rparr>\<rparr>"

datatype saver = MemorySaver | PostgresSaver

text \<open>What the context manager yields: no saver, the in-memory one or the PostgreSQL one.\<close>

definition agent_checkpointer :: "'k savers \<Rightarrow> int option \<Rightarrow> checkpoint_module \<Rightarrow> 'k \<Rightarrow> saver option \<times> checkpoint_module \<times> 'k" where
  "agent_checkpointer sv tn cm k = (case tn of
      None \<Rightarrow> (None, cm, k)
    | Some _ \<Rightarrow>
        if \<not> sv_use_postgres sv then (Some MemorySaver, cm, k)
        else let url = psycopg_url (sv_database_url sv) in
          case sv_open sv url k of
            (Inl e, k1) \<Rightarrow> (Some MemorySaver, record_postgres_status ''fallback'' (Some e) cm, k1)
          | (Inr _, k1) \<Rightarrow> (case setup_postgres_once sv url cm k1 of
                (Inl e, cm', k2) \<Rightarrow> (Some MemorySaver, record_postgres_status ''fallback'' (Some e) cm', k2)
              | (Inr _, cm', k2) \<Rightarrow> (Some PostgresSaver, record_postgres_status ''ok'' None cm', k2)))"

definition delete_scoped_checkpoint_thread :: "'k savers \<Rightarrow> hexdigest \<Rightarrow> int \<Rightarrow> int \<Rightarrow> string \<Rightarrow> checkpoint_module \<Rightarrow> 'k
    \<Rightarrow> bool \<times> checkpoint_module \<times> 'k" where
  "delete_scoped_checkpoint_thread sv sha tn u th cm k =
     (let cid = scoped_checkpoint_thread_id sha tn (Some u) th in
      if \<not> sv_use_postgres sv then (True, cm, sv_memory_delete sv cid k)
      else let url = psycopg_url (sv_database_url sv) in
        case sv_open sv url k of
          (Inl e, k1) \<Rightarrow> (False, cm, k1)
        | (Inr _, k1) \<Rightarrow> (case setup_postgres_once sv url cm k1 of
              (Inl e, cm', k2) \<Rightarrow> (False, cm', k2)
            | (Inr _, cm', k2) \<Rightarrow> (case sv_postgres_delete sv cid k2 of
                  (Inl e, k3) \<Rightarrow> (False, cm', k3)
                | (Inr _, k3) \<Rightarrow> (True, cm', k3))))"

subsection \<open>Scoped ids\<close>

lemma principal_name_no_colon: "CHR '':'' \<notin> set (principal_name u)"
  using str_int_no_colon by (auto simp: principal_name_def split: option.splits)

lemma principal_name_inj: "principal_name u = principal_name v \<Longrightarrow> u = v"
proof -
  have "str_int i \<noteq> ''system''" for i using str_int_chars [of i] by (cases "str_int i") auto
  note this this [symmetric]
  then show "principal_name u = principal_name v \<Longrightarrow> u = v"
    by (auto simp: principal_name_def dest: str_int_inj split: option.splits)
qed

text \<open>
  Ids of different principals differ whatever the digest is; ids of different threads of one principal differ when the
  digest separates the texts it is given.
\<close>

lemma scoped_id_principal:
  assumes "scoped_checkpoint_thread_id sha tn u th = scoped_checkpoint_thread_id sha tn' u' th'"
  shows "tn = tn' \<and> u = u' \<and> sha (str_int tn @ '':'' @ principal_name u @ '':'' @ th) = sha (str_int tn @ '':'' @ principal_name u @ '':'' @ th')"
proof -
  have *: "str_int tn @ CHR '':'' # ''user-'' @ principal_name u @ CHR '':'' # sha (str_int tn @ '':'' @ principal_name u @ '':'' @ th) =
     str_int tn' @ CHR '':'' # ''user-'' @ principal_name u' @ CHR '':'' # sha (str_int tn' @ '':'' @ principal_name u' @ '':'' @ th')"
    using assms by (simp add: scoped_checkpoint_thread_id_def Let_def)
  from sep_inj [OF * str_int_no_colon str_int_no_colon] have tn: "tn = tn'"
    and **: "principal_name u @ CHR '':'' # sha (str_int tn @ '':'' @ principal_name u @ '':'' @ th) =
      principal_name u' @ CHR '':'' # sha (str_int tn' @ '':'' @ principal_name u' @ '':'' @ th')"
    by (auto dest: str_int_inj)
  from sep_inj [OF ** principal_name_no_colon principal_name_no_colon] tn show ?thesis
    by (auto dest: principal_name_inj)
qed

lemma agent_checkpointer_none: "fst (agent_checkpointer sv tn cm k) = None \<longleftrightarrow> tn = None"
  by (auto simp: agent_checkpointer_def Let_def split: option.splits prod.splits sum.splits)

end
