(* ===== verification/Agent_Sessions.thy ===== *)
theory Agent_Sessions
  imports Checkpointing
begin

text \<open>
  Conversations: the tables and the repository of \<^verbatim>\<open>storage/agent/\<close>, and the routes of
  \<^verbatim>\<open>api/routers/agent_sessions.py\<close> that list, read, export and delete them.

  A table is the list of its rows in insertion order with the next value of its id sequence. An operation runs as one
  transaction and takes the current time as an argument. Texts in JSON columns are the values that \<open>json.loads\<close> gives
  back. A principal is the pair of a tenant id and a user id; the foreign keys of a session to its tenant and user hold
  because both come from the users table.

  \<open>transcripts\<close> is what the component promises: a map from a principal's threads to the messages recorded there, in
  the order in which they were recorded. The theorems relate the operations and the routes to it.
\<close>

subsection \<open>Tables\<close>

record agent_session =
  se_id :: nat
  se_tenant :: int
  se_user :: "int option"
  se_thread :: string
  se_created :: rat
  se_updated :: rat

record agent_message =
  me_id :: nat
  me_session :: nat
  me_role :: string
  me_content :: string
  me_metadata :: obj
  me_created :: rat

record agent_checkpoint =
  ck_id :: nat
  ck_tenant :: int
  ck_user :: "int option"
  ck_thread :: string
  ck_data :: obj
  ck_created :: rat
  ck_archived :: "rat option"

record agent_db =
  db_sessions :: "agent_session list"
  db_messages :: "agent_message list"
  db_checkpoints :: "agent_checkpoint list"
  db_next_session :: nat
  db_next_message :: nat
  db_next_checkpoint :: nat

type_synonym scope = "int \<times> int option \<times> string"

definition session_scope :: "agent_session \<Rightarrow> scope" where
  "session_scope s = (se_tenant s, se_user s, se_thread s)"

definition checkpoint_scope :: "agent_checkpoint \<Rightarrow> scope" where
  "checkpoint_scope c = (ck_tenant c, ck_user c, ck_thread c)"

subsection \<open>Sessions\<close>

definition get_session :: "scope \<Rightarrow> agent_db \<Rightarrow> agent_session option" where
  "get_session p db = find (\<lambda>s. session_scope s = p) (db_sessions db)"

text \<open>The unique index does not relate rows whose user is NULL.\<close>

definition create_session :: "scope \<Rightarrow> rat \<Rightarrow> agent_db \<Rightarrow> (exn + agent_session) \<times> agent_db" where
  "create_session p now db = (case p of (tn, u, th) \<Rightarrow>
     if u \<noteq> None \<and> get_session p db \<noteq> None
     then (Inl (Exn ''IntegrityError'' ''ix_agent_sessions_tenant_user_thread''), db)
     else let s = \<lparr>se_id = db_next_session db, se_tenant = tn, se_user = u, se_thread = th, se_created = now, se_updated = now\<rparr>
       in (Inr s, db\<lparr>db_sessions := db_sessions db @ [s], db_next_session := Suc (db_next_session db)\<rparr>))"

definition get_or_create_session :: "scope \<Rightarrow> rat \<Rightarrow> agent_db \<Rightarrow> (exn + agent_session) \<times> agent_db" where
  "get_or_create_session p now db = (case get_session p db of
      Some s \<Rightarrow> (Inr s, db)
    | None \<Rightarrow> create_session p now db)"

definition messages_of :: "nat \<Rightarrow> agent_db \<Rightarrow> agent_message list" where
  "messages_of sid db = filter (\<lambda>m. me_session m = sid) (db_messages db)"

definition list_sessions :: "int \<Rightarrow> int \<Rightarrow> nat \<Rightarrow> nat \<Rightarrow> agent_db \<Rightarrow> (agent_session \<times> nat) list \<times> nat" where
  "list_sessions tn u limit offset db =
     (let rows = filter (\<lambda>s. se_tenant s = tn \<and> se_user s = Some u) (db_sessions db);
          ordered = rev (sort_key (\<lambda>s. (se_updated s, se_id s)) rows)
      in (map (\<lambda>s. (s, length (messages_of (se_id s) db))) (take limit (drop offset ordered)), length rows))"

definition touch_session :: "nat \<Rightarrow> rat \<Rightarrow> agent_db \<Rightarrow> agent_db" where
  "touch_session sid now db =
     db\<lparr>db_sessions := map (\<lambda>s. if se_id s = sid then s\<lparr>se_updated := now\<rparr> else s) (db_sessions db)\<rparr>"

record AgentSessionDeletion =
  dl_thread_id :: string
  dl_messages_deleted :: nat
  dl_checkpoints_archived :: nat

definition live_checkpoint :: "scope \<Rightarrow> agent_checkpoint \<Rightarrow> bool" where
  "live_checkpoint p c \<longleftrightarrow> checkpoint_scope c = p \<and> ck_archived c = None"

definition delete_session :: "scope \<Rightarrow> rat \<Rightarrow> agent_db \<Rightarrow> AgentSessionDeletion option \<times> agent_db" where
  "delete_session p now db = (case get_session p db of
      None \<Rightarrow> (None, db)
    | Some s \<Rightarrow>
        (Some \<lparr>dl_thread_id = snd (snd p), dl_messages_deleted = length (messages_of (se_id s) db),
               dl_checkpoints_archived = length (filter (live_checkpoint p) (db_checkpoints db))\<rparr>,
         db\<lparr>db_messages := filter (\<lambda>m. me_session m \<noteq> se_id s) (db_messages db),
            db_checkpoints := map (\<lambda>c. if live_checkpoint p c then c\<lparr>ck_archived := Some now\<rparr> else c) (db_checkpoints db),
            db_sessions := filter (\<lambda>r. se_id r \<noteq> se_id s) (db_sessions db)\<rparr>))"

subsection \<open>Messages\<close>

definition add_message :: "nat \<Rightarrow> string \<Rightarrow> string \<Rightarrow> obj option \<Rightarrow> rat \<Rightarrow> agent_db \<Rightarrow> (exn + agent_message) \<times> agent_db" where
  "add_message sid role content metadata now db =
     (if sid \<notin> se_id ` set (db_sessions db) then (Inl (Exn ''IntegrityError'' ''agent_messages.session_id''), db)
      else let m = \<lparr>me_id = db_next_message db, me_session = sid, me_role = role, me_content = content,
                    me_metadata = (case metadata of None \<Rightarrow> [] | Some ob \<Rightarrow> ob), me_created = now\<rparr>
        in (Inr m, db\<lparr>db_messages := db_messages db @ [m], db_next_message := Suc (db_next_message db)\<rparr>))"

definition chronological :: "nat \<Rightarrow> agent_db \<Rightarrow> agent_message list" where
  "chronological sid db = sort_key (\<lambda>m. (me_created m, me_id m)) (messages_of sid db)"

text \<open>The newest messages, put back into chronological order.\<close>

definition get_messages :: "nat \<Rightarrow> nat \<Rightarrow> agent_db \<Rightarrow> agent_message list" where
  "get_messages sid limit db = rev (take limit (rev (chronological sid db)))"

definition list_messages :: "nat \<Rightarrow> nat \<Rightarrow> nat \<Rightarrow> agent_db \<Rightarrow> agent_message list \<times> nat" where
  "list_messages sid limit offset db = (take limit (drop offset (chronological sid db)), length (messages_of sid db))"

subsection \<open>Checkpoints\<close>

definition save_checkpoint :: "scope \<Rightarrow> obj \<Rightarrow> rat \<Rightarrow> agent_db \<Rightarrow> agent_checkpoint \<times> agent_db" where
  "save_checkpoint p data now db = (case p of (tn, u, th) \<Rightarrow>
     let c = \<lparr>ck_id = db_next_checkpoint db, ck_tenant = tn, ck_user = u, ck_thread = th, ck_data = data,
              ck_created = now, ck_archived = None\<rparr>
     in (c, db\<lparr>db_checkpoints := db_checkpoints db @ [c], db_next_checkpoint := Suc (db_next_checkpoint db)\<rparr>))"

definition get_latest_checkpoint :: "scope \<Rightarrow> agent_db \<Rightarrow> agent_checkpoint option" where
  "get_latest_checkpoint p db =
     (case rev (sort_key (\<lambda>c. (ck_created c, ck_id c)) (filter (live_checkpoint p) (db_checkpoints db))) of
        [] \<Rightarrow> None
      | c # _ \<Rightarrow> Some c)"

definition get_checkpoint :: "int \<Rightarrow> nat \<Rightarrow> agent_db \<Rightarrow> agent_checkpoint option" where
  "get_checkpoint tn cid db = find (\<lambda>c. ck_tenant c = tn \<and> ck_id c = cid) (db_checkpoints db)"

definition delete_checkpoints :: "scope \<Rightarrow> agent_db \<Rightarrow> nat \<times> agent_db" where
  "delete_checkpoints p db =
     (length (filter (\<lambda>c. checkpoint_scope c = p) (db_checkpoints db)),
      db\<lparr>db_checkpoints := filter (\<lambda>c. checkpoint_scope c \<noteq> p) (db_checkpoints db)\<rparr>)"

text \<open>\<^verbatim>\<open>storage/agent/checkpoint.py\<close>: snapshots of one principal, addressed by the configuration of a run.\<close>

definition extract_thread_id :: "obj \<Rightarrow> json" where
  "extract_thread_id config = (case get_or config ''configurable'' (JObj []) of
      JObj ob \<Rightarrow> get_or ob ''thread_id'' (JStr ''default'')
    | _ \<Rightarrow> JStr ''default'')"

text \<open>A thread id that is configured but is not a text is left to the database driver; the value is then \<open>None\<close>.\<close>

definition store_put :: "int \<Rightarrow> int option \<Rightarrow> obj \<Rightarrow> json \<Rightarrow> obj option \<Rightarrow> rat \<Rightarrow> agent_db \<Rightarrow> (obj \<times> agent_db) option" where
  "store_put tn u config checkpoint metadata now db = (case extract_thread_id config of
      JStr th \<Rightarrow>
        let (c, db') = save_checkpoint (tn, u, th)
              [(''checkpoint'', checkpoint), (''metadata'', JObj (case metadata of None \<Rightarrow> [] | Some ob \<Rightarrow> ob)),
               (''config'', JObj [(''configurable'', get_or config ''configurable'' (JObj []))])] now db
        in Some ([(''configurable'', JObj [(''thread_id'', JStr th), (''checkpoint_id'', JStr (str_nat (ck_id c)))])], db')
    | _ \<Rightarrow> None)"

definition store_get :: "int \<Rightarrow> int option \<Rightarrow> obj \<Rightarrow> agent_db \<Rightarrow> obj option option" where
  "store_get tn u config db = (case extract_thread_id config of
      JStr th \<Rightarrow> Some (case get_latest_checkpoint (tn, u, th) db of
          None \<Rightarrow> None
        | Some c \<Rightarrow> Some
            [(''configurable'', JObj [(''thread_id'', JStr th), (''checkpoint_id'', JStr (str_nat (ck_id c)))]),
             (''checkpoint'', get_or (ck_data c) ''checkpoint'' (JObj [])),
             (''metadata'', get_or (ck_data c) ''metadata'' (JObj []))])
    | _ \<Rightarrow> None)"

subsection \<open>Turns of a conversation\<close>

text \<open>
  \<open>_record_message\<close> and \<open>_load_history\<close> of \<^verbatim>\<open>services/agent_runtime/runtime.py\<close>; an exception of the first is
  only logged. The three commits of a recorded turn carry one time.
\<close>

definition record_message :: "scope \<Rightarrow> string \<Rightarrow> string \<Rightarrow> obj option \<Rightarrow> rat \<Rightarrow> agent_db \<Rightarrow> agent_db" where
  "record_message p role content metadata now db = (case get_or_create_session p now db of
      (Inl e, db1) \<Rightarrow> db1
    | (Inr s, db1) \<Rightarrow> (case add_message (se_id s) role content metadata now db1 of
          (Inl e, db2) \<Rightarrow> db2
        | (Inr m, db2) \<Rightarrow> touch_session (se_id s) now db2))"

definition history_entry :: "agent_message \<Rightarrow> obj" where
  "history_entry m = [(''role'', JStr (me_role m)), (''content'', JStr (me_content m)), (''metadata'', JObj (me_metadata m))]"

definition load_history :: "scope \<Rightarrow> nat \<Rightarrow> agent_db \<Rightarrow> obj list" where
  "load_history p limit db = (case get_session p db of
      None \<Rightarrow> []
    | Some s \<Rightarrow> map history_entry (get_messages (se_id s) limit db))"

subsection \<open>Routes\<close>

definition MAX_THREAD_ID_LENGTH :: nat where
  "MAX_THREAD_ID_LENGTH = 256"

definition validate_thread_id :: "string option \<Rightarrow> exn + string option" where
  "validate_thread_id v = (case v of
      Some th \<Rightarrow>
        if strip th = [] \<or> th \<noteq> strip th
        then Inl (Exn ''ValueError'' ''thread_id must not be blank or have surrounding whitespace'')
        else Inr v
    | None \<Rightarrow> Inr v)"

text \<open>
  An HTTP error is its status with the detail the code gives; \<open>None\<close> stands for a detail that the framework writes when
  a parameter is outside its declared range.
\<close>

type_synonym api_error = "int \<times> string option"

definition route_thread :: "string \<Rightarrow> api_error + string" where
  "route_thread th =
     (if \<not> (1 \<le> length th \<and> length th \<le> MAX_THREAD_ID_LENGTH) then Inl (422, None)
      else case validate_thread_id (Some th) of
          Inl e \<Rightarrow> Inl (422, Some (exn_msg e))
        | Inr _ \<Rightarrow> Inr th)"

definition in_range :: "int \<Rightarrow> int \<Rightarrow> int \<Rightarrow> bool" where
  "in_range lo hi i \<longleftrightarrow> lo \<le> i \<and> i \<le> hi"

record message_response =
  mr_id :: nat
  mr_role :: string
  mr_content :: string
  mr_metadata :: obj
  mr_created :: rat

definition message_response_of :: "agent_message \<Rightarrow> message_response" where
  "message_response_of m = \<lparr>mr_id = me_id m, mr_role = me_role m, mr_content = me_content m,
     mr_metadata = me_metadata m, mr_created = me_created m\<rparr>"

record summary_response =
  sr_thread_id :: string
  sr_message_count :: nat
  sr_created :: rat
  sr_updated :: rat

definition summary_response_of :: "agent_session \<Rightarrow> nat \<Rightarrow> summary_response" where
  "summary_response_of s n = \<lparr>sr_thread_id = se_thread s, sr_message_count = n, sr_created = se_created s, sr_updated = se_updated s\<rparr>"

record session_list_response =
  sl_items :: "summary_response list"
  sl_total :: nat
  sl_limit :: int
  sl_offset :: int

record session_detail_response =
  sd_session :: summary_response
  sd_messages :: "message_response list"
  sd_total_messages :: nat
  sd_limit :: int
  sd_offset :: int
  sd_exported_at :: "rat option"

definition list_agent_sessions :: "int \<Rightarrow> int \<Rightarrow> int \<Rightarrow> int \<Rightarrow> agent_db \<Rightarrow> api_error + session_list_response" where
  "list_agent_sessions tn u limit offset db =
     (if \<not> in_range 1 100 limit \<or> offset < 0 then Inl (422, None)
      else let (rows, total) = list_sessions tn u (nat limit) (nat offset) db in
        Inr \<lparr>sl_items = map (\<lambda>(s, n). summary_response_of s n) rows, sl_total = total, sl_limit = limit, sl_offset = offset\<rparr>)"

text \<open>The two routes that read a conversation differ in the largest page and in the time of the export.\<close>

definition read_session :: "int \<Rightarrow> rat option \<Rightarrow> int \<Rightarrow> int \<Rightarrow> string \<Rightarrow> int \<Rightarrow> int \<Rightarrow> agent_db \<Rightarrow> api_error + session_detail_response" where
  "read_session hi exported tn u th limit offset db =
     (if \<not> in_range 1 hi limit \<or> offset < 0 then Inl (422, None)
      else try_then (route_thread th) (\<lambda>th.
        case get_session (tn, Some u, th) db of
          None \<Rightarrow> Inl (404, Some ''Agent session not found'')
        | Some s \<Rightarrow> let (ms, total) = list_messages (se_id s) (nat limit) (nat offset) db in
            Inr \<lparr>sd_session = summary_response_of s total, sd_messages = map message_response_of ms,
                 sd_total_messages = total, sd_limit = limit, sd_offset = offset, sd_exported_at = exported\<rparr>))"

definition get_agent_session :: "int \<Rightarrow> int \<Rightarrow> string \<Rightarrow> int \<Rightarrow> int \<Rightarrow> agent_db \<Rightarrow> api_error + session_detail_response" where
  "get_agent_session = read_session 500 None"

definition export_agent_session :: "rat \<Rightarrow> int \<Rightarrow> int \<Rightarrow> string \<Rightarrow> int \<Rightarrow> int \<Rightarrow> agent_db \<Rightarrow> api_error + session_detail_response" where
  "export_agent_session now = read_session 1000 (Some now)"

record ('r, 'k) session_world =
  sw_db :: agent_db
  sw_redis :: 'r
  sw_module :: checkpoint_module
  sw_savers :: 'k

record session_delete_response =
  sx_thread_id :: string
  sx_messages_deleted :: nat
  sx_checkpoints_archived :: nat
  sx_runtime_checkpoints_deleted :: bool
  sx_cache_keys_deleted :: nat

definition delete_agent_session :: "('r, 'v) redis \<Rightarrow> 'k savers \<Rightarrow> hexdigest \<Rightarrow> int \<Rightarrow> int \<Rightarrow> string \<Rightarrow> rat \<Rightarrow> ('r, 'k) session_world
    \<Rightarrow> (api_error + session_delete_response) \<times> ('r, 'k) session_world" where
  "delete_agent_session rd sv sha tn u th now w = (case route_thread th of
      Inl e \<Rightarrow> (Inl e, w)
    | Inr th \<Rightarrow> (case get_session (tn, Some u, th) (sw_db w) of
        None \<Rightarrow> (Inl (404, Some ''Agent session not found''), w)
      | Some _ \<Rightarrow>
          let (gone, cm, k) = delete_scoped_checkpoint_thread sv sha tn u th (sw_module w) (sw_savers w);
              w1 = w\<lparr>sw_module := cm, sw_savers := k\<rparr>
          in if \<not> gone then (Inl (503, Some ''Unable to delete Agent runtime checkpoint''), w1)
          else let (cd, r) = cache_delete_thread rd sha th tn u (sw_redis w1); w2 = w1\<lparr>sw_redis := r\<rparr>
            in if \<not> successful cd then (Inl (503, Some ''Unable to delete Agent session cache''), w2)
            else (case delete_session (tn, Some u, th) now (sw_db w2) of
                (None, db) \<Rightarrow> (Inl (404, Some ''Agent session not found''), w2\<lparr>sw_db := db\<rparr>)
              | (Some d, db) \<Rightarrow>
                  (Inr \<lparr>sx_thread_id = th, sx_messages_deleted = dl_messages_deleted d,
                        sx_checkpoints_archived = dl_checkpoints_archived d, sx_runtime_checkpoints_deleted = gone,
                        sx_cache_keys_deleted = keys_deleted cd\<rparr>, w2\<lparr>sw_db := db\<rparr>))))"

subsection \<open>Pages\<close>

locale paged_listing =
  fixes whole :: "'db \<Rightarrow> 'a list" and page :: "nat \<Rightarrow> nat \<Rightarrow> 'db \<Rightarrow> 'a list \<times> nat"
  assumes page_eq: "page limit offset db = (take limit (drop offset (whole db)), length (whole db))"
begin

lemma pages_cover: "concat (map (\<lambda>i. fst (page n (i * n) db)) [0..<k]) = take (k * n) (whole db)"
  by (induction k) (simp_all add: page_eq add.commute [of n] take_add)

lemma page_beyond: "length (whole db) \<le> offset \<Longrightarrow> fst (page n offset db) = []"
  by (simp add: page_eq)

lemma page_subset: "set (fst (page n offset db)) \<subseteq> set (whole db)"
  by (auto simp: page_eq dest: in_set_takeD in_set_dropD)

end

definition newest_sessions :: "int \<Rightarrow> int \<Rightarrow> agent_db \<Rightarrow> (agent_session \<times> nat) list" where
  "newest_sessions tn u db = map (\<lambda>s. (s, length (messages_of (se_id s) db)))
     (rev (sort_key (\<lambda>s. (se_updated s, se_id s)) (filter (\<lambda>s. se_tenant s = tn \<and> se_user s = Some u) (db_sessions db))))"

interpretation transcript: paged_listing "chronological sid" "list_messages sid" for sid
  by unfold_locales (simp add: list_messages_def chronological_def)

interpretation session_list: paged_listing "newest_sessions tn u" "list_sessions tn u" for tn u
  by unfold_locales (simp add: list_sessions_def newest_sessions_def Let_def take_map drop_map)

subsection \<open>Transcripts\<close>

type_synonym turn = "string \<times> string \<times> obj"

definition turn_of :: "agent_message \<Rightarrow> turn" where
  "turn_of m = (me_role m, me_content m, me_metadata m)"

definition transcripts :: "agent_db \<Rightarrow> scope \<Rightarrow> turn list option" where
  "transcripts db p = map_option (\<lambda>s. map turn_of (chronological (se_id s) db)) (get_session p db)"

definition sessions_ok :: "agent_db \<Rightarrow> bool" where
  "sessions_ok db \<longleftrightarrow>
     distinct (map se_id (db_sessions db)) \<and>
     distinct (map session_scope (db_sessions db)) \<and>
     (\<forall>s \<in> set (db_sessions db). se_id s < db_next_session db) \<and>
     (\<forall>m \<in> set (db_messages db). me_session m \<in> se_id ` set (db_sessions db) \<and> me_id m < db_next_message db) \<and>
     distinct (map me_id (db_messages db))"

definition recorded_by :: "rat \<Rightarrow> agent_db \<Rightarrow> bool" where
  "recorded_by now db \<longleftrightarrow>
     sorted (map (\<lambda>m. (me_created m, me_id m)) (db_messages db)) \<and> (\<forall>m \<in> set (db_messages db). me_created m \<le> now)"

lemma recorded_by_mono: "recorded_by t db \<Longrightarrow> t \<le> t' \<Longrightarrow> recorded_by t' db"
  unfolding recorded_by_def by force

lemma sorted_map_filter: "sorted (map f xs) \<Longrightarrow> sorted (map f (filter P xs))"
  by (simp add: sorted_filter)

lemma chronological_messages: "recorded_by now db \<Longrightarrow> chronological sid db = messages_of sid db"
  unfolding chronological_def messages_of_def recorded_by_def by (simp add: sort_key_id_if_sorted sorted_filter)

lemma get_session_Some: "get_session p db = Some s \<Longrightarrow> s \<in> set (db_sessions db) \<and> session_scope s = p"
  unfolding get_session_def find_Some_iff by (metis nth_mem)

lemma get_session_None: "get_session p db = None \<longleftrightarrow> p \<notin> session_scope ` set (db_sessions db)"
  unfolding get_session_def find_None_iff by blast

lemma session_of_scope:
  assumes "sessions_ok db" "get_session p db = Some s" "r \<in> set (db_sessions db)"
  shows "se_id r = se_id s \<longleftrightarrow> session_scope r = p"
  using assms get_session_Some [OF assms(2)] unfolding sessions_ok_def by (metis distinct_map inj_onD)

subsection \<open>Every operation on the tables\<close>

datatype session_call =
    Record scope string string "obj option"
  | Delete scope
  | Touch nat
  | SaveCheckpoint scope obj
  | DeleteCheckpoints scope

fun session_step :: "rat \<times> session_call \<Rightarrow> agent_db \<Rightarrow> agent_db" where
  "session_step (now, Record p role content metadata) db = record_message p role content metadata now db"
| "session_step (now, Delete p) db = snd (delete_session p now db)"
| "session_step (now, Touch sid) db = touch_session sid now db"
| "session_step (now, SaveCheckpoint p data) db = snd (save_checkpoint p data now db)"
| "session_step (now, DeleteCheckpoints p) db = snd (delete_checkpoints p db)"

text \<open>The abstract operations.\<close>

fun transcript_step :: "session_call \<Rightarrow> (scope \<Rightarrow> turn list option) \<Rightarrow> scope \<Rightarrow> turn list option" where
  "transcript_step (Record p role content metadata) t =
     t(p \<mapsto> (case t p of None \<Rightarrow> [] | Some ts \<Rightarrow> ts) @ [(role, content, case metadata of None \<Rightarrow> [] | Some ob \<Rightarrow> ob)])"
| "transcript_step (Delete p) t = t(p := None)"
| "transcript_step _ t = t"

definition empty_agent_db :: agent_db where
  "empty_agent_db = \<lparr>db_sessions = [], db_messages = [], db_checkpoints = [], db_next_session = 1, db_next_message = 1, db_next_checkpoint = 1\<rparr>"

text \<open>Touching a session changes neither ids nor scopes.\<close>

definition touched :: "nat \<Rightarrow> rat \<Rightarrow> agent_session \<Rightarrow> agent_session" where
  "touched sid now s = (if se_id s = sid then s\<lparr>se_updated := now\<rparr> else s)"

lemma touched_keeps [simp]:
  "se_id (touched sid now s) = se_id s" "session_scope (touched sid now s) = session_scope s"
  by (simp_all add: touched_def session_scope_def)

lemma touch_session_touched: "touch_session sid now db = db\<lparr>db_sessions := map (touched sid now) (db_sessions db)\<rparr>"
  by (simp add: touch_session_def touched_def [abs_def])

lemma find_map: "find P (map f xs) = map_option f (find (P \<circ> f) xs)"
  by (induction xs) auto

lemma get_session_touch: "get_session p (touch_session sid now db) = map_option (touched sid now) (get_session p db)"
  by (simp add: get_session_def touch_session_touched find_map comp_def)

lemma touch_keeps:
  "transcripts (touch_session sid now db) = transcripts db"
  "sessions_ok (touch_session sid now db) = sessions_ok db"
  "recorded_by t (touch_session sid now db) = recorded_by t db"
  by (simp_all add: transcripts_def get_session_touch option.map_comp comp_def fun_eq_iff)
    (simp_all add: touch_session_touched chronological_def messages_of_def sessions_ok_def recorded_by_def
      comp_def image_image)

text \<open>Adding one message to an existing session.\<close>

definition with_message :: "agent_message \<Rightarrow> agent_db \<Rightarrow> agent_db" where
  "with_message m db = db\<lparr>db_messages := db_messages db @ [m], db_next_message := Suc (db_next_message db)\<rparr>"

lemma get_session_with_message [simp]: "get_session p (with_message m db) = get_session p db"
  by (simp add: get_session_def with_message_def)

lemma with_message_ok:
  assumes "sessions_ok db" "recorded_by now db" "me_id m = db_next_message db" "me_session m \<in> se_id ` set (db_sessions db)" "me_created m = now"
  shows "sessions_ok (with_message m db)" "recorded_by now (with_message m db)"
  using assms by (auto simp: with_message_def sessions_ok_def recorded_by_def sorted_append less_Suc_eq less_imp_le order_le_less)

lemma with_message_transcripts:
  assumes ok: "sessions_ok db" "recorded_by now db" and s: "get_session p db = Some s"
    and m: "me_id m = db_next_message db" "me_session m = se_id s" "me_created m = now"
  shows "transcripts (with_message m db) = (transcripts db)(p \<mapsto> the (transcripts db p) @ [turn_of m])"
proof
  fix q
  have mem: "me_session m \<in> se_id ` set (db_sessions db)" using get_session_Some [OF s] m by simp
  have "recorded_by now (with_message m db)" by (rule with_message_ok(2) [OF ok m(1) mem m(3)])
  then have *: "chronological sid (with_message m db) = chronological sid db @ (if sid = se_id s then [m] else [])" for sid
    using ok(2) m by (simp add: chronological_messages) (simp add: messages_of_def with_message_def)
  have "se_id r = se_id s \<longleftrightarrow> q = p" if "get_session q db = Some r" for r
    using session_of_scope [OF ok(1) s] get_session_Some [OF that] by simp
  then show "transcripts (with_message m db) q = ((transcripts db)(p \<mapsto> the (transcripts db p) @ [turn_of m])) q"
    using s by (cases "get_session q db") (auto simp: transcripts_def *)
qed

text \<open>Adding one session.\<close>

definition with_session :: "agent_session \<Rightarrow> agent_db \<Rightarrow> agent_db" where
  "with_session s db = db\<lparr>db_sessions := db_sessions db @ [s], db_next_session := Suc (db_next_session db)\<rparr>"

lemma with_session_ok:
  assumes "sessions_ok db" "get_session (session_scope s) db = None" "se_id s = db_next_session db"
  shows "sessions_ok (with_session s db)" "recorded_by t (with_session s db) = recorded_by t db"
  using assms by (auto simp: with_session_def sessions_ok_def recorded_by_def get_session_None image_iff less_Suc_eq)

lemma find_append: "find P (xs @ ys) = (case find P xs of None \<Rightarrow> find P ys | Some x \<Rightarrow> Some x)"
  by (induction xs) auto

lemma find_filter: "(\<And>x. Q x \<Longrightarrow> P x) \<Longrightarrow> find Q (filter P xs) = find Q xs"
  by (induction xs) auto

lemma get_session_with_session:
  "get_session q (with_session s db) = (case get_session q db of None \<Rightarrow> if session_scope s = q then Some s else None | Some r \<Rightarrow> Some r)"
  by (simp add: get_session_def with_session_def find_append split: option.split)

lemma with_session_transcripts:
  assumes ok: "sessions_ok db" and new: "get_session (session_scope s) db = None" "se_id s = db_next_session db"
  shows "transcripts (with_session s db) = (transcripts db)(session_scope s \<mapsto> [])"
proof
  fix q
  have none: "messages_of (db_next_session db) db = []" using ok by (force simp: messages_of_def sessions_ok_def filter_empty_conv)
  have "chronological sid (with_session s db) = chronological sid db" for sid
    by (simp add: chronological_def messages_of_def with_session_def)
  then show "transcripts (with_session s db) q = ((transcripts db)(session_scope s \<mapsto> [])) q"
    using new none by (auto simp: transcripts_def get_session_with_session chronological_def split: option.splits)
qed

lemma create_session_new:
  "get_session p db = None \<Longrightarrow> \<exists>s. create_session p now db = (Inr s, with_session s db) \<and> session_scope s = p \<and> se_id s = db_next_session db"
  by (cases p) (auto simp: create_session_def with_session_def session_scope_def Let_def)

text \<open>A recorded turn is a message in the session of its scope, created first when there is none.\<close>

lemma record_message_cases:
  obtains (existing) s m where "get_session p db = Some s"
      "record_message p role content metadata now db = touch_session (se_id s) now (with_message m db)"
      "me_id m = db_next_message db" "me_session m = se_id s" "me_created m = now"
      "turn_of m = (role, content, case metadata of None \<Rightarrow> [] | Some ob \<Rightarrow> ob)"
  | (new) s m where "get_session p db = None" "session_scope s = p" "se_id s = db_next_session db"
      "record_message p role content metadata now db = touch_session (se_id s) now (with_message m (with_session s db))"
      "me_id m = db_next_message db" "me_session m = se_id s" "me_created m = now"
      "turn_of m = (role, content, case metadata of None \<Rightarrow> [] | Some ob \<Rightarrow> ob)"
proof (cases "get_session p db")
  case None
  then obtain s where s: "create_session p now db = (Inr s, with_session s db)" "session_scope s = p" "se_id s = db_next_session db"
    using create_session_new by blast
  then show thesis using None
    by (intro new [OF None s(2,3)])
      (auto simp: record_message_def get_or_create_session_def add_message_def with_message_def with_session_def Let_def turn_of_def)
next
  case (Some s)
  then show thesis using get_session_Some [OF Some]
    by (intro existing [OF Some])
      (auto simp: record_message_def get_or_create_session_def add_message_def with_message_def Let_def turn_of_def)
qed

lemma record_message_step:
  assumes ok: "sessions_ok db" "recorded_by now db"
  shows "sessions_ok (record_message p role content metadata now db) \<and> recorded_by now (record_message p role content metadata now db) \<and>
    transcripts (record_message p role content metadata now db) = transcript_step (Record p role content metadata) (transcripts db)"
proof (cases rule: record_message_cases [of p db role content metadata now])
  case (existing s m)
  have mem: "me_session m \<in> se_id ` set (db_sessions db)" using get_session_Some [OF existing(1)] existing by simp
  from existing with_message_ok [OF ok existing(3) mem existing(5)] with_message_transcripts [OF ok existing(1,3,4,5)]
  show ?thesis by (simp add: touch_keeps transcripts_def)
next
  case (new s m)
  let ?db = "with_session s db"
  have ok': "sessions_ok ?db" "recorded_by now ?db" using with_session_ok [OF ok(1)] new ok(2) by auto
  have s: "get_session p ?db = Some s" using new by (simp add: get_session_with_session)
  have m: "me_id m = db_next_message ?db" using new by (simp add: with_session_def)
  have mem: "me_session m \<in> se_id ` set (db_sessions ?db)" using get_session_Some [OF s] new by (metis image_eqI)
  have "transcripts ?db = (transcripts db)(p \<mapsto> [])" using with_session_transcripts [OF ok(1)] new by simp
  moreover have "transcripts db p = None" using new by (simp add: transcripts_def)
  ultimately show ?thesis
    using new with_message_ok [OF ok' m mem new(7)] with_message_transcripts [OF ok' s m new(6,7)] by (simp add: touch_keeps)
qed

lemma delete_session_step:
  assumes ok: "sessions_ok db" "recorded_by t db"
  shows "sessions_ok (snd (delete_session p now db)) \<and> recorded_by t (snd (delete_session p now db)) \<and>
    transcripts (snd (delete_session p now db)) = (transcripts db)(p := None)"
proof (cases "get_session p db")
  case None
  then show ?thesis using ok by (auto simp: delete_session_def transcripts_def fun_eq_iff)
next
  case (Some s)
  let ?db = "snd (delete_session p now db)"
  have db: "db_sessions ?db = filter (\<lambda>r. session_scope r \<noteq> p) (db_sessions db)"
    "db_messages ?db = filter (\<lambda>m. me_session m \<noteq> se_id s) (db_messages db)"
    "db_next_session ?db = db_next_session db" "db_next_message ?db = db_next_message db"
    using session_of_scope [OF ok(1) Some] Some by (auto simp: delete_session_def cong: filter_cong)
  have ids: "session_scope r = p \<longleftrightarrow> se_id r = se_id s" if "r \<in> set (db_sessions db)" for r
    using session_of_scope [OF ok(1) Some that] by simp
  have ok1: "sessions_ok ?db"
    using ok(1) ids unfolding sessions_ok_def db by (auto simp: distinct_map_filter image_iff) (metis ids)
  moreover have ok2: "recorded_by t ?db" using ok(2) unfolding recorded_by_def db by (auto simp: sorted_filter)
  moreover have "transcripts ?db q = ((transcripts db)(p := None)) q" for q
  proof (cases "q = p")
    case True
    then show ?thesis by (auto simp: transcripts_def get_session_None db)
  next
    case False
    then have "get_session q ?db = get_session q db"
      unfolding get_session_def db by (intro find_filter) auto
    moreover have "chronological (se_id r) ?db = chronological (se_id r) db" if "get_session q db = Some r" for r
    proof -
      have "se_id r \<noteq> se_id s" using get_session_Some [OF that] ids False by auto
      then show ?thesis unfolding chronological_def messages_of_def db filter_filter
        by (metis (mono_tags, lifting))
    qed
    ultimately show ?thesis using False by (auto simp: transcripts_def cong: map_option_cong)
  qed
  ultimately show ?thesis by blast
qed

lemma checkpoint_steps_keep:
  "transcripts (snd (save_checkpoint p data now db)) = transcripts db"
  "sessions_ok (snd (save_checkpoint p data now db)) = sessions_ok db"
  "recorded_by t (snd (save_checkpoint p data now db)) = recorded_by t db"
  "transcripts (snd (delete_checkpoints p db)) = transcripts db"
  "sessions_ok (snd (delete_checkpoints p db)) = sessions_ok db"
  "recorded_by t (snd (delete_checkpoints p db)) = recorded_by t db"
  by (cases p; simp add: save_checkpoint_def delete_checkpoints_def Let_def transcripts_def sessions_ok_def recorded_by_def
      get_session_def chronological_def messages_of_def fun_eq_iff)+

definition session_run :: "(rat \<times> session_call) list \<Rightarrow> agent_db" where
  "session_run cs = fold session_step cs empty_agent_db"

lemma session_step_refines:
  assumes "sessions_ok db" "recorded_by now db"
  shows "sessions_ok (session_step (now, c) db) \<and> recorded_by now (session_step (now, c) db) \<and>
    transcripts (session_step (now, c) db) = transcript_step c (transcripts db)"
  using assms record_message_step [OF assms] delete_session_step [OF assms]
  by (cases c) (simp_all add: touch_keeps checkpoint_steps_keep)

lemma session_run_refines:
  assumes "sorted (map fst cs)"
  shows "sessions_ok (session_run cs) \<and> (\<exists>t. recorded_by t (session_run cs) \<and> (cs \<noteq> [] \<longrightarrow> t = fst (last cs))) \<and>
    transcripts (session_run cs) = fold transcript_step (map snd cs) Map.empty"
  using assms
proof (induction cs rule: rev_induct)
  case Nil
  show ?case by (auto simp: session_run_def empty_agent_db_def sessions_ok_def recorded_by_def transcripts_def get_session_def fun_eq_iff)
next
  case (snoc c cs)
  obtain now k where c: "c = (now, k)" by fastforce
  have "sorted (map fst cs)" "\<forall>x \<in> set cs. fst x \<le> now" using snoc.prems c by (auto simp: sorted_append)
  with snoc.IH obtain t where IH: "sessions_ok (session_run cs)" "recorded_by t (session_run cs)" "cs \<noteq> [] \<longrightarrow> t = fst (last cs)"
    "transcripts (session_run cs) = fold transcript_step (map snd cs) Map.empty" by blast
  have "recorded_by now (session_run cs)"
  proof (cases "cs = []")
    case True
    then show ?thesis by (simp add: session_run_def empty_agent_db_def recorded_by_def)
  next
    case False
    then have "t \<le> now" using IH(3) \<open>\<forall>x \<in> set cs. fst x \<le> now\<close> last_in_set by blast
    then show ?thesis using IH(2) recorded_by_mono by blast
  qed
  with session_step_refines [OF IH(1) this, of k] IH(4) show ?case by (auto simp: session_run_def c)
qed

subsection \<open>What the routes show and remove\<close>

lemma get_latest_checkpoint_None:
  "get_latest_checkpoint p db = None \<longleftrightarrow> (\<forall>c \<in> set (db_checkpoints db). \<not> live_checkpoint p c)"
proof -
  have "get_latest_checkpoint p db = None \<longleftrightarrow> sort_key (\<lambda>c. (ck_created c, ck_id c)) (filter (live_checkpoint p) (db_checkpoints db)) = []"
    by (auto simp: get_latest_checkpoint_def split: list.splits)
  also have "\<dots> \<longleftrightarrow> filter (live_checkpoint p) (db_checkpoints db) = []" by (metis length_0_conv length_sort)
  finally show ?thesis by (simp add: filter_empty_conv)
qed

lemma delete_session_archives:
  assumes "delete_session p now db = (Some d, db')"
  shows "get_latest_checkpoint p db' = None \<and> map ck_id (db_checkpoints db') = map ck_id (db_checkpoints db) \<and>
    map ck_data (db_checkpoints db') = map ck_data (db_checkpoints db)"
proof -
  define f where "f = (\<lambda>c. if live_checkpoint p c then c\<lparr>ck_archived := Some now\<rparr> else c)"
  have "db_checkpoints db' = map f (db_checkpoints db)"
    using assms by (auto simp: delete_session_def f_def split: option.splits)
  moreover have "\<not> live_checkpoint p (f c)" "ck_id (f c) = ck_id c" "ck_data (f c) = ck_data c" for c
    by (simp_all add: live_checkpoint_def f_def)
  ultimately show ?thesis unfolding get_latest_checkpoint_None by simp
qed

lemma route_thread_id: "route_thread th = Inr th' \<Longrightarrow> th' = th"
  by (auto simp: route_thread_def split: if_splits sum.splits)

lemma route_thread_error: "route_thread th = Inl e \<Longrightarrow> fst e = 422"
  by (auto simp: route_thread_def split: if_splits sum.splits)

lemma listed_sessions_own:
  assumes "list_agent_sessions tn u limit offset db = Inr r" "x \<in> set (sl_items r)"
  shows "\<exists>s \<in> set (db_sessions db). se_tenant s = tn \<and> se_user s = Some u \<and> sr_thread_id x = se_thread s"
proof -
  have "x \<in> (\<lambda>(s, n). summary_response_of s n) ` set (fst (list_sessions tn u (nat limit) (nat offset) db))"
    using assms by (auto simp: list_agent_sessions_def split: if_splits prod.splits)
  then show ?thesis using session_list.page_subset [of tn u "nat limit" "nat offset" db]
    by (force simp: newest_sessions_def summary_response_of_def)
qed

text \<open>
  C6. The stored conversations implement the map of transcripts. After any sequence of recorded turns, deletions, touches
  and checkpoint writes by any principals, at times that do not run backwards, the tables are consistent (ids and scopes
  are unique, every message belongs to a session), and reading them back gives for every tenant, user and thread exactly
  the turns recorded there since the last deletion, in order: a recorded turn is appended to its own thread and to no
  other, a deletion empties its own thread and no other.
\<close>

theorem sessions_refine_transcripts:
  assumes "sorted (map fst cs)"
  shows "sessions_ok (session_run cs) \<and> transcripts (session_run cs) = fold transcript_step (map snd cs) Map.empty"
  using session_run_refines [OF assms] by blast

definition demo_calls :: "(rat \<times> session_call) list" where
  "demo_calls =
     [(1, Record (1, Some 7, ''t'') ''user'' ''q'' None), (2, Record (1, Some 8, ''t'') ''user'' ''r'' None),
      (2, Record (1, Some 7, ''t'') ''assistant'' ''a'' (Some [(''k'', JNull)])), (3, SaveCheckpoint (1, Some 7, ''t'') []),
      (4, Delete (1, Some 8, ''t''))]"

theorem sessions_refine_transcripts_witness:
  "sessions_ok (session_run demo_calls) \<and> transcripts (session_run demo_calls) = fold transcript_step (map snd demo_calls) Map.empty \<and>
   transcripts (session_run demo_calls) (1, Some 7, ''t'') = Some [(''user'', ''q'', []), (''assistant'', ''a'', [(''k'', JNull)])] \<and>
   transcripts (session_run demo_calls) (1, Some 8, ''t'') = None"
proof -
  have "sorted (map fst demo_calls)" by (simp add: demo_calls_def)
  from sessions_refine_transcripts [OF this] show ?thesis by (simp add: demo_calls_def)
qed

text \<open>
  Reading a conversation page by page through the route gives the whole transcript, each turn once and in order. For
  a valid thread id and page size the pages \<open>0, n, 2n, ...\<close> of the principal's thread put together are its transcript
  once they are long enough; when the principal has no such thread, the answer to every page is 404, whatever other
  principals have stored under the same thread id.
\<close>

theorem session_pages_cover:
  assumes "sorted (map fst cs)" "route_thread th = Inr th" "in_range 1 500 n"
  shows "case fold transcript_step (map snd cs) Map.empty (tn, Some u, th) of
      None \<Rightarrow> get_agent_session tn u th n (int i) (session_run cs) = Inl (404, Some ''Agent session not found'')
    | Some ts \<Rightarrow> length ts \<le> k * nat n \<longrightarrow>
        concat (map (\<lambda>i. map (\<lambda>m. (mr_role m, mr_content m, mr_metadata m))
          (sd_messages (projr (get_agent_session tn u th n (int i * n) (session_run cs))))) [0..<k]) = ts"
proof (cases "get_session (tn, Some u, th) (session_run cs)")
  case None
  then have "fold transcript_step (map snd cs) Map.empty (tn, Some u, th) = None"
    using session_run_refines [OF assms(1)] by (metis option.map_disc_iff transcripts_def)
  then show ?thesis using None assms by (simp add: get_agent_session_def read_session_def)
next
  case (Some s)
  let ?all = "chronological (se_id s) (session_run cs)"
  have ts: "fold transcript_step (map snd cs) Map.empty (tn, Some u, th) = Some (map turn_of ?all)"
    using session_run_refines [OF assms(1)] Some by (metis option.map(2) transcripts_def)
  have n: "nat (int i * n) = i * nat n" "\<not> int i * n < 0" for i
    using assms(3) by (simp_all add: in_range_def nat_mult_distrib mult_less_0_iff)
  have page: "map (\<lambda>m. (mr_role m, mr_content m, mr_metadata m))
      (sd_messages (projr (get_agent_session tn u th n (int i * n) (session_run cs)))) =
      map turn_of (fst (list_messages (se_id s) (nat n) (i * nat n) (session_run cs)))" for i
    using assms Some by (simp add: get_agent_session_def read_session_def n split: prod.splits)
      (simp add: message_response_of_def turn_of_def)
  show ?thesis unfolding ts option.case
    using arg_cong [OF transcript.pages_cover [of "se_id s" "nat n" "session_run cs" k], of "map turn_of"]
    by (simp only: page) (simp add: map_concat comp_def)
qed

text \<open>
  C16. Deleting a conversation is all or nothing, and its errors are the documented ones. The route answers 422 for an
  invalid thread id and 404 when the principal has no such thread, and then nothing at all changes; it answers 503 when
  the LangGraph saver or Redis fails, and then no row of the database changes, so the deletion can be repeated. When it
  succeeds, exactly the principal's transcript of that thread is gone and the count of deleted messages is its length, no
  request on the thread finds a cached answer, and the thread has no live checkpoint while every stored checkpoint is
  kept as an archive.
\<close>

theorem session_deletion_contract:
  assumes "redis_reads view rd" "redis_removes view rd" "sorted (map fst cs)" "sw_db w = session_run cs"
    and "delete_agent_session rd sv sha tn u th now w = (res, w')"
  shows "case res of
      Inl (code, _) \<Rightarrow> sw_db w' = sw_db w \<and>
        (code = 422 \<and> w' = w \<and> \<not> is_ok (route_thread th) \<or>
         code = 404 \<and> w' = w \<and> transcripts (sw_db w) (tn, Some u, th) = None \<or>
         code = 503 \<and> transcripts (sw_db w) (tn, Some u, th) \<noteq> None)
    | Inr x \<Rightarrow>
        transcripts (sw_db w') = (transcripts (sw_db w))((tn, Some u, th) := None) \<and>
        map_option length (transcripts (sw_db w) (tn, Some u, th)) = Some (sx_messages_deleted x) \<and>
        fst (cache_get rd sha th tn rk u (sw_redis w')) = None \<and>
        get_latest_checkpoint (tn, Some u, th) (sw_db w') = None \<and>
        map ck_data (db_checkpoints (sw_db w')) = map ck_data (db_checkpoints (sw_db w))"
proof -
  let ?p = "(tn, Some u, th)"
  obtain t where ok: "sessions_ok (sw_db w)" "recorded_by t (sw_db w)" using session_run_refines [OF assms(3)] assms(4) by auto
  obtain gone cm k where sv: "delete_scoped_checkpoint_thread sv sha tn u th (sw_module w) (sw_savers w) = (gone, cm, k)"
    by (metis prod_cases3)
  obtain cd r where rd: "cache_delete_thread rd sha th tn u (sw_redis w) = (cd, r)" by fastforce
  show ?thesis
  proof (cases "is_ok (route_thread th) \<and> get_session ?p (sw_db w) \<noteq> None \<and> gone \<and> successful cd")
    case True
    then obtain s where s: "route_thread th = Inr th" "get_session ?p (sw_db w) = Some s"
      by (auto simp: is_ok_iff dest: route_thread_id)
    obtain d db' where d: "delete_session ?p now (sw_db w) = (Some d, db')" "dl_messages_deleted d = length (messages_of (se_id s) (sw_db w))"
      using s(2) by (simp add: delete_session_def)
    have res: "sw_db w' = db'" "sw_redis w' = r" "\<exists>x. res = Inr x \<and> sx_messages_deleted x = dl_messages_deleted d"
      using assms(5) True by (auto simp: delete_agent_session_def s sv rd d Let_def)
    moreover have "transcripts db' = (transcripts (sw_db w))(?p := None)"
      using delete_session_step [OF ok, of ?p now] d by simp
    moreover have "map_option length (transcripts (sw_db w) ?p) = Some (dl_messages_deleted d)"
      using s(2) ok(2) d(2) by (simp add: transcripts_def chronological_messages)
    moreover have "fst (cache_get rd sha th tn rk u r) = None"
      by (rule cache_deleted_thread_misses [OF assms(1,2) rd]) (use True in blast)
    ultimately show ?thesis using delete_session_archives [OF d(1)] by auto
  next
    case False
    then show ?thesis using assms(5)
      by (auto simp: delete_agent_session_def sv rd transcripts_def Let_def split: sum.splits option.splits if_splits prod.splits
        dest: route_thread_error route_thread_id)
  qed
qed

lemma demo_thread: "route_thread ''t'' = Inr ''t''"
  by code_simp

lemma demo_calls_sorted: "sorted (map fst demo_calls)"
  by (simp add: demo_calls_def)

theorem session_pages_cover_witness:
  "concat (map (\<lambda>i. map (\<lambda>m. (mr_role m, mr_content m, mr_metadata m))
     (sd_messages (projr (get_agent_session 1 7 ''t'' 1 (int i * 1) (session_run demo_calls))))) [0..<2]) =
     [(''user'', ''q'', []), (''assistant'', ''a'', [(''k'', JNull)])] \<and>
   get_agent_session 1 8 ''t'' 1 (int 0) (session_run demo_calls) = Inl (404, Some ''Agent session not found'')"
proof -
  have n: "in_range 1 500 1" by (simp add: in_range_def)
  have "fold transcript_step (map snd demo_calls) Map.empty (1, Some 7, ''t'') = Some [(''user'', ''q'', []), (''assistant'', ''a'', [(''k'', JNull)])]"
    "fold transcript_step (map snd demo_calls) Map.empty (1, Some 8, ''t'') = None"
    by (simp_all add: demo_calls_def)
  with session_pages_cover [OF demo_calls_sorted demo_thread n, where tn = 1 and u = 7 and k = 2]
    session_pages_cover [OF demo_calls_sorted demo_thread n, where tn = 1 and u = 8 and i = 0]
  show ?thesis by simp
qed

definition demo_savers :: "unit savers" where
  "demo_savers = \<lparr>sv_use_postgres = False, sv_database_url = ''sqlite:///./financial_rag.db'', sv_open = \<lambda>_ k. (Inr (), k),
     sv_setup = \<lambda>k. (Inr (), k), sv_postgres_delete = \<lambda>_ k. (Inr (), k), sv_memory_delete = \<lambda>_ k. k\<rparr>"

definition demo_world :: "(json memory_server, unit) session_world" where
  "demo_world = \<lparr>sw_db = session_run demo_calls,
     sw_redis = cache_run memory_redis plain_digest [Save ''t'' (JStr ''a'') 1 (Some ''q'') 7] ([], []),
     sw_module = \<lparr>postgres_status = initial_postgres_status, setup_databases = []\<rparr>, sw_savers = ()\<rparr>"

lemma demo_deletion:
  "is_ok (fst (delete_agent_session memory_redis demo_savers plain_digest 1 7 ''t'' 5 demo_world))"
  by code_simp

theorem session_deletion_contract_witness:
  "let (res, w') = delete_agent_session memory_redis demo_savers plain_digest 1 7 ''t'' 5 demo_world in
     is_ok res \<and> transcripts (sw_db w') (1, Some 7, ''t'') = None \<and>
     fst (cache_get memory_redis plain_digest ''t'' 1 (Some ''q'') 7 (sw_redis w')) = None"
proof -
  obtain res w' where del: "delete_agent_session memory_redis demo_savers plain_digest 1 7 ''t'' 5 demo_world = (res, w')" by fastforce
  have db: "sw_db demo_world = session_run demo_calls" by (simp add: demo_world_def)
  from session_deletion_contract [OF memory_redis_reads memory_redis_removes demo_calls_sorted db del, of "Some ''q''"] demo_deletion
  show ?thesis unfolding del by (auto simp: is_ok_iff)
qed

end
