(* ===== verification/Agent_Service.thy ===== *)
theory Agent_Service
  imports Agent_Runtime Agent_Sessions
begin

text \<open>
  The agent service: the LangGraph graph of \<^verbatim>\<open>services/agent_runtime/graph.py\<close> and \<open>run_agent\<close> of
  \<^verbatim>\<open>services/agent_runtime/runtime.py\<close>, which joins the conversation history, the user's model settings, the
  answer cache, the checkpointer and the agent of theory \<open>Agent_Runtime\<close>.

  LangGraph is the parameter \<open>ve_invoke\<close>; \<open>linear_graph\<close> is what its documentation says of a graph without branches: a
  finished invocation has run the nodes in order, each on the state left by the one before, starting from the input and
  from whatever the checkpoint of that thread holds for the other keys. It may fail at any point, for instance when a
  checkpoint cannot be written. A key of the state that no node has set is \<open>None\<close>. The dictionaries \<open>routing\<close>,
  \<open>planning\<close>, \<open>execution\<close> and \<open>workflow\<close> of a result are given by the values they are built from. Tracing and logging
  have no influence on the result and are left out; a request carries its trace id and the times it is stamped with.
\<close>

subsection \<open>The graph\<close>

record task_summary =
  ts_step_id :: int
  ts_step_type :: string
  ts_description :: utext
  ts_company :: "utext option"
  ts_status :: string
  ts_tool_name :: "string option"

record plan_summary =
  pm_intent :: string
  pm_task_count :: nat
  pm_tasks :: "task_summary list"

record graph_input =
  gi_question :: utext
  gi_company :: "string option"
  gi_thread :: string
  gi_tenant :: int
  gi_user :: "int option"
  gi_history :: "obj list"

record 'w graph_state = graph_input +
  gs_initial_intent :: "intent_result option"
  gs_report :: "utext option"
  gs_citations :: "obj list option"
  gs_context :: "string option"
  gs_mode :: "string option"
  gs_intent :: "intent_result option"
  gs_plan_summary :: "plan_summary option"
  gs_run :: "'w runtime_result option"
  gs_evidence_count :: "nat option"
  gs_answer :: "utext option"
  gs_sources :: "obj list option"
  gs_tools_used :: "string list option"
  gs_companies :: "utext list option"
  gs_research_plan :: "task_summary list option"
  gs_quality_score :: "rat option"
  gs_critique :: "obj option"
  gs_revision_count :: "int option"

text \<open>A node may call the model and the shared planner.\<close>

type_synonym 'w node = "'w graph_state \<Rightarrow> planner \<times> 'w \<Rightarrow> (exn + 'w graph_state) \<times> planner \<times> 'w"

definition plan_node :: "'w runtime_env \<Rightarrow> 'w node" where
  "plan_node rv s x = (Inr (s\<lparr>gs_initial_intent := Some (intent_analyze (rv_lang rv) (gi_question s))\<rparr>), x)"

definition serialize_plan :: "step_output step_result execution_plan \<Rightarrow> plan_summary" where
  "serialize_plan pl =
     (let tasks = map (\<lambda>st. \<lparr>ts_step_id = ps_id st, ts_step_type = StepType_value (ps_type st), ts_description = ps_description st,
            ts_company = ps_company st, ts_status = StepStatus_value (ps_status st), ts_tool_name = ps_tool_name st\<rparr>) (pl_tasks pl)
      in \<lparr>pm_intent = pl_intent pl, pm_task_count = length tasks, pm_tasks = tasks\<rparr>)"

definition execute_node :: "'w runtime_env \<Rightarrow> runtime_settings option \<Rightarrow> 'w node" where
  "execute_node rv settings s x =
     (case run_rag rv (gi_question s) (gi_tenant s) (Some (gi_thread s)) (gi_history s) settings (fst x) (snd x) of
        (Inl e, x') \<Rightarrow> (Inl e, x')
      | (Inr r, x') \<Rightarrow>
          (Inr (s\<lparr>gs_report := Some (rg_report r), gs_citations := Some (rg_citations r), gs_context := Some (rg_context r),
             gs_mode := Some (rg_mode r), gs_intent := Some (rz_intent (rg_run r)),
             gs_evidence_count := Some (length (rg_evidence r)), gs_plan_summary := Some (serialize_plan (rz_plan (rg_run r))),
             gs_run := Some (rg_run r)\<rparr>), x'))"

definition actual_tools_used :: "task_summary list \<Rightarrow> obj list \<Rightarrow> bool \<Rightarrow> string list" where
  "actual_tools_used steps cs use_retrieval =
     fold (\<lambda>st observed.
         if ts_step_type st \<noteq> ''tool_call'' \<or> ts_status st \<noteq> ''completed'' then observed
         else case ts_tool_name st of
             Some n \<Rightarrow> if n \<noteq> [] \<and> n \<notin> set observed then observed @ [n] else observed
           | None \<Rightarrow> observed)
       steps
       (if (\<exists>st \<in> set steps. ts_step_type st = ''retrieve'' \<and> ts_status st = ''completed'') \<or> cs \<noteq> [] \<and> use_retrieval
        then [''retrieval''] else [])"

definition source_of :: "obj \<Rightarrow> obj" where
  "source_of c = [(''source'', get_or c ''source'' (JStr [])), (''chunk_id'', get_or c ''chunk_id'' (JStr [])),
     (''similarity'', get_or c ''similarity'' JNull), (''preview'', get_or c ''preview'' (JStr []))]"

definition finalize_node :: "'w node" where
  "finalize_node s x =
     (let use_retrieval = (case gs_run s of Some r \<Rightarrow> sx_use_retrieval (rz_execution r) | None \<Rightarrow> False);
          cs = (case gs_citations s of Some cs \<Rightarrow> cs | None \<Rightarrow> []);
          intent = (case gs_intent s of Some i \<Rightarrow> Some i | None \<Rightarrow> gs_initial_intent s);
          summary = (case gs_plan_summary s of Some m \<Rightarrow> m
            | None \<Rightarrow> \<lparr>pm_intent = (case intent of Some i \<Rightarrow> ir_intent i | None \<Rightarrow> []), pm_task_count = 0, pm_tasks = []\<rparr>);
          answer = (case gs_report s of Some a \<Rightarrow> a | None \<Rightarrow> [])
      in (Inr (s\<lparr>gs_answer := Some answer, gs_sources := Some (map source_of cs),
           gs_tools_used := Some (actual_tools_used (pm_tasks summary) cs use_retrieval),
           gs_companies := Some (case Option.bind intent ir_companies of Some cs \<Rightarrow> cs | None \<Rightarrow> []),
           gs_research_plan := Some (pm_tasks summary), gs_plan_summary := Some summary,
           gs_quality_score := Some (if answer \<noteq> [] \<and> (\<not> use_retrieval \<or> cs \<noteq> []) then 1 else 0),
           gs_critique := Some [(''status'', JStr ''not_evaluated''),
             (''reason'', JStr ''Runtime completion score only; offline golden evaluation is separate.'')],
           gs_revision_count := Some 0\<rparr>), x))"

definition graph_nodes :: "'w runtime_env \<Rightarrow> runtime_settings option \<Rightarrow> 'w node list" where
  "graph_nodes rv settings = [plan_node rv, execute_node rv settings, finalize_node]"

fun run_nodes :: "'w node list \<Rightarrow> 'w node" where
  "run_nodes [] s x = (Inr s, x)"
| "run_nodes (n # ns) s x = (case n s x of (Inl e, x') \<Rightarrow> (Inl e, x') | (Inr s', x') \<Rightarrow> run_nodes ns s' x')"

text \<open>The checkpointer, the thread id of the configuration, the nodes, the input; the savers keep their own state.\<close>

type_synonym ('w, 'k) graph_invocation = "saver option \<Rightarrow> string option \<Rightarrow> 'w node list \<Rightarrow> graph_input \<Rightarrow> planner \<times> 'w \<Rightarrow> 'k
  \<Rightarrow> (exn + 'w graph_state) \<times> (planner \<times> 'w) \<times> 'k"

definition linear_graph :: "('w, 'k) graph_invocation \<Rightarrow> bool" where
  "linear_graph ivk \<longleftrightarrow>
     (\<forall>cp cid nodes i x k s' x' k'. ivk cp cid nodes i x k = (Inr s', x', k') \<longrightarrow>
        (\<exists>s. graph_input.truncate s = i \<and> run_nodes nodes s x = (Inr s', x')))"

record 'w graph_answer =
  ga_answer :: utext
  ga_thread :: string
  ga_tools_used :: "string list"
  ga_sources :: "obj list"
  ga_citations :: "obj list"
  ga_mode :: string
  ga_evidence_count :: nat
  ga_plan :: "plan_summary option"
  ga_companies :: "utext list"
  ga_research_plan :: "task_summary list"
  ga_quality_score :: rat
  ga_critique :: obj
  ga_revision_count :: int
  ga_intent :: "intent_result option"
  ga_run :: "'w runtime_result option"

definition or_default :: "'a \<Rightarrow> 'a option \<Rightarrow> 'a" where
  "or_default d v = (case v of Some x \<Rightarrow> x | None \<Rightarrow> d)"

definition graph_run_agent :: "('w, 'k) graph_invocation \<Rightarrow> 'w runtime_env \<Rightarrow> graph_input \<Rightarrow> saver option \<Rightarrow> string option
    \<Rightarrow> runtime_settings option \<Rightarrow> planner \<times> 'w \<Rightarrow> 'k \<Rightarrow> (exn + 'w graph_answer) \<times> (planner \<times> 'w) \<times> 'k" where
  "graph_run_agent ivk rv i cp cid settings x k =
     (let config = (case cp of None \<Rightarrow> None
            | Some _ \<Rightarrow> Some (case cid of Some c \<Rightarrow> if c = [] then gi_thread i else c | None \<Rightarrow> gi_thread i))
      in case ivk cp config (graph_nodes rv settings) i x k of
           (Inl e, x', k') \<Rightarrow> (Inl e, x', k')
         | (Inr s, x', k') \<Rightarrow>
             (Inr \<lparr>ga_answer = or_default [] (gs_answer s), ga_thread = gi_thread i, ga_tools_used = or_default [] (gs_tools_used s),
                   ga_sources = or_default [] (gs_sources s), ga_citations = or_default [] (gs_citations s),
                   ga_mode = or_default ''default'' (gs_mode s), ga_evidence_count = or_default 0 (gs_evidence_count s),
                   ga_plan = gs_plan_summary s, ga_companies = or_default [] (gs_companies s),
                   ga_research_plan = or_default [] (gs_research_plan s), ga_quality_score = or_default 0 (gs_quality_score s),
                   ga_critique = or_default [] (gs_critique s), ga_revision_count = or_default 0 (gs_revision_count s),
                   ga_intent = gs_intent s, ga_run = gs_run s\<rparr>, x', k'))"

subsection \<open>The service\<close>

record 'w agent_output =
  ao_answer :: utext
  ao_thread :: string
  ao_tools_used :: "string list"
  ao_sources :: "obj list"
  ao_citations :: "obj list"
  ao_mode :: string
  ao_evidence_count :: nat
  ao_plan :: "plan_summary option"
  ao_companies :: "utext list"
  ao_research_plan :: "task_summary list"
  ao_quality_score :: rat
  ao_critique :: obj
  ao_revision_count :: int
  ao_intent :: "intent_result option"
  ao_run :: "'w runtime_result option"
  ao_history :: "obj list"
  ao_duration :: rat
  ao_trace_id :: string

record agent_request =
  ar_question :: utext
  ar_thread :: string
  ar_tenant :: "int option"
  ar_user :: "int option"
  ar_company :: "string option"
  ar_trace_id :: string
  ar_asked_at :: rat
  ar_answered_at :: rat
  ar_duration :: rat

record ('w, 'r, 'k) service_env =
  ve_runtime :: "'w runtime_env"
  ve_invoke :: "('w, 'k) graph_invocation"
  ve_available :: bool
  ve_redis :: "('r, 'w agent_output) redis"
  ve_savers :: "'k savers"
  ve_sha :: hexdigest
  ve_cipher :: "exn + cipher"
  ve_revision :: "revision_record list \<Rightarrow> string"
  ve_request_key :: "utext \<Rightarrow> obj list \<Rightarrow> string option \<Rightarrow> string option \<Rightarrow> string"

record ('w, 'r, 'k) service_world = "('r, 'k) session_world" +
  vw_settings :: settings_db
  vw_planner :: planner
  vw_sdks :: 'w

definition load_runtime_llm_settings :: "('w, 'r, 'k) service_env \<Rightarrow> int option \<Rightarrow> int option \<Rightarrow> settings_db \<Rightarrow> exn + runtime_settings option" where
  "load_runtime_llm_settings ve tn u db = (case (tn, u) of
      (Some t, Some i) \<Rightarrow>
        try_then (get_runtime_llm_settings (rv_llm (ve_runtime ve)) (ve_cipher ve) (ve_revision ve) \<lparr>pr_tenant = t, pr_user = i\<rparr> db)
          (\<lambda>rs. Inr (if rs_configs rs = [] then None else Some rs))
    | _ \<Rightarrow> Inr None)"

definition configuration_error :: "string \<Rightarrow> bool" where
  "configuration_error error \<longleftrightarrow>
     sublist ''DEEPSEEK_API_KEY not set'' error \<or> sublist ''LLM credential encryption'' error \<or> sublist ''Stored LLM credential'' error"

definition configuration_answer :: utext where
  "configuration_answer = cps (''[Provider Configuration Error] AI provider credentials are not '' @
     ''configured on the backend. Contact the deployment administrator '' @ ''and retry after provider authentication is enabled.'')"

definition runtime_fallback_answer :: "utext \<Rightarrow> utext" where
  "runtime_fallback_answer q = cps ''[Agent Runtime Fallback] Unable to process: '' @ [39] @ q @ [39] @
     cps ''. Please retry or inspect the runtime trace.''"

definition fallback_response :: "utext \<Rightarrow> string \<Rightarrow> string \<Rightarrow> string \<Rightarrow> 'w agent_output" where
  "fallback_response q thread error trace =
     \<lparr>ao_answer = (if configuration_error error then configuration_answer else runtime_fallback_answer q),
      ao_thread = thread, ao_tools_used = [], ao_sources = [], ao_citations = [], ao_mode = ''default'', ao_evidence_count = 0,
      ao_plan = None, ao_companies = [], ao_research_plan = [], ao_quality_score = 0, ao_critique = [], ao_revision_count = 0,
      ao_intent = None, ao_run = None, ao_history = [], ao_duration = 0, ao_trace_id = trace\<rparr>"

text \<open>\<open>tenant_id or 0\<close> and \<open>user_id or 0\<close>\<close>

definition id_or_zero :: "int option \<Rightarrow> int" where
  "id_or_zero i = (case i of Some n \<Rightarrow> n | None \<Rightarrow> 0)"

definition HISTORY_LIMIT :: nat where
  "HISTORY_LIMIT = 8"

definition request_history :: "agent_request \<Rightarrow> agent_db \<Rightarrow> obj list" where
  "request_history r db = (case ar_tenant r of
      Some t \<Rightarrow> load_history (t, ar_user r, ar_thread r) HISTORY_LIMIT db
    | None \<Rightarrow> [])"

definition record_turn :: "'w runtime_env \<Rightarrow> agent_request \<Rightarrow> string \<Rightarrow> utext \<Rightarrow> obj option \<Rightarrow> rat \<Rightarrow> agent_db \<Rightarrow> agent_db" where
  "record_turn rv r role content metadata now db = (case ar_tenant r of
      Some t \<Rightarrow> record_message (t, ar_user r, ar_thread r) role (enc (rv_texts rv) content) metadata now db
    | None \<Rightarrow> db)"

definition output_of :: "agent_request \<Rightarrow> 'w graph_answer \<Rightarrow> 'w agent_output" where
  "output_of r a =
     \<lparr>ao_answer = ga_answer a, ao_thread = ga_thread a, ao_tools_used = ga_tools_used a, ao_sources = ga_sources a,
      ao_citations = ga_citations a, ao_mode = ga_mode a, ao_evidence_count = ga_evidence_count a, ao_plan = ga_plan a,
      ao_companies = ga_companies a, ao_research_plan = ga_research_plan a, ao_quality_score = ga_quality_score a,
      ao_critique = ga_critique a, ao_revision_count = ga_revision_count a, ao_intent = ga_intent a, ao_run = ga_run a,
      ao_history = [], ao_duration = ar_duration r, ao_trace_id = ar_trace_id r\<rparr>"

text \<open>The part of \<open>run_agent\<close> after a cache miss, for an available graph: run it, record the answer, cache it.\<close>

definition graph_request :: "('w, 'r, 'k) service_env \<Rightarrow> agent_request \<Rightarrow> obj list \<Rightarrow> runtime_settings option \<Rightarrow> string
    \<Rightarrow> ('w, 'r, 'k) service_world \<Rightarrow> 'w agent_output \<times> ('w, 'r, 'k) service_world" where
  "graph_request ve r history settings key w =
     (let tn = id_or_zero (ar_tenant r);
          (cp, cm, k1) = agent_checkpointer (ve_savers ve) (ar_tenant r) (sw_module w) (sw_savers w);
          cid = (case cp of None \<Rightarrow> None | Some _ \<Rightarrow> Some (scoped_checkpoint_thread_id (ve_sha ve) tn (ar_user r) (ar_thread r)));
          i = \<lparr>gi_question = ar_question r, gi_company = ar_company r, gi_thread = ar_thread r, gi_tenant = tn,
               gi_user = ar_user r, gi_history = history\<rparr>;
          (res, x, k2) = graph_run_agent (ve_invoke ve) (ve_runtime ve) i cp cid settings (vw_planner w, vw_sdks w) k1;
          w1 = w\<lparr>sw_module := cm, sw_savers := k2, vw_planner := fst x, vw_sdks := snd x\<rparr>
      in case res of
           Inl e \<Rightarrow> (fallback_response (ar_question r) (ar_thread r) (exn_msg e) (ar_trace_id r), w1)
         | Inr a \<Rightarrow>
             let out = output_of r a;
                 db = record_turn (ve_runtime ve) r ''assistant'' (ao_answer out)
                   (Some [(''trace_id'', JStr (ar_trace_id r)), (''tools_used'', JArr (map JStr (ao_tools_used out))),
                          (''quality_score'', JFloat (Fin (ao_quality_score out)))]) (ar_answered_at r) (sw_db w1);
                 out = out\<lparr>ao_history := request_history r db\<rparr>;
                 (_, rds) = cache_save (ve_redis ve) (ve_sha ve) (ar_thread r) out tn (Some key) (id_or_zero (ar_user r)) (sw_redis w1)
             in (out, w1\<lparr>sw_db := db, sw_redis := rds\<rparr>))"

definition run_agent :: "('w, 'r, 'k) service_env \<Rightarrow> agent_request \<Rightarrow> ('w, 'r, 'k) service_world
    \<Rightarrow> (exn + 'w agent_output) \<times> ('w, 'r, 'k) service_world" where
  "run_agent ve r w =
     (let history = request_history r (sw_db w)
      in case load_runtime_llm_settings ve (ar_tenant r) (ar_user r) (vw_settings w) of
           Inl e \<Rightarrow>
             if exn_class e = ''CredentialEncryptionError''
             then (Inr (fallback_response (ar_question r) (ar_thread r) (exn_msg e) []), w)
             else (Inl e, w)
         | Inr settings \<Rightarrow>
             let key = ve_request_key ve (ar_question r) history (ar_company r) (map_option rs_revision settings);
                 (hit, rds) = cache_get (ve_redis ve) (ve_sha ve) (ar_thread r) (id_or_zero (ar_tenant r)) (Some key)
                   (id_or_zero (ar_user r)) (sw_redis w);
                 w1 = w\<lparr>sw_redis := rds\<rparr>
             in case hit of
                  Some out \<Rightarrow> (Inr (out\<lparr>ao_trace_id := ar_trace_id r, ao_duration := ar_duration r\<rparr>), w1)
                | None \<Rightarrow>
                    let w2 = w1\<lparr>sw_db := record_turn (ve_runtime ve) r ''user'' (ar_question r) None (ar_asked_at r) (sw_db w1)\<rparr>
                    in if ve_available ve then apfst Inr (graph_request ve r history settings key w2)
                       else (Inr (fallback_response (ar_question r) (ar_thread r) [] (ar_trace_id r)), w2))"

text \<open>Requests served one after the other.\<close>

fun serve :: "('w, 'r, 'k) service_env \<Rightarrow> agent_request list \<Rightarrow> ('w, 'r, 'k) service_world
    \<Rightarrow> (exn + 'w agent_output) list \<times> ('w, 'r, 'k) service_world" where
  "serve ve [] w = ([], w)"
| "serve ve (r # rs) w = (let (res, w1) = run_agent ve r w; (ress, w2) = serve ve rs w1 in (res # ress, w2))"

subsection \<open>What the graph delivers\<close>

lemma graph_nodes_run:
  assumes "run_nodes (graph_nodes rv settings) s x = (Inr s', x')"
  shows "\<exists>r. run_rag rv (gi_question s) (gi_tenant s) (Some (gi_thread s)) (gi_history s) settings (fst x) (snd x) = (Inr r, x') \<and>
    gs_answer s' = Some (rg_report r) \<and> gs_citations s' = Some (rg_citations r) \<and>
    gs_sources s' = Some (map source_of (rg_citations r)) \<and> gs_evidence_count s' = Some (length (rg_evidence r))"
  using assms unfolding graph_nodes_def
  by (auto simp: plan_node_def execute_node_def finalize_node_def Let_def split: sum.splits prod.splits)

lemma graph_run_agent_answer:
  assumes "linear_graph ivk" "graph_run_agent ivk rv i cp cid settings x k = (Inr a, x', k')"
  shows "\<exists>r. run_rag rv (gi_question i) (gi_tenant i) (Some (gi_thread i)) (gi_history i) settings (fst x) (snd x) = (Inr r, x') \<and>
    ga_answer a = rg_report r \<and> ga_citations a = rg_citations r \<and> ga_sources a = map source_of (rg_citations r)"
proof -
  obtain config s' where inv: "ivk cp config (graph_nodes rv settings) i x k = (Inr s', x', k')"
    and a: "ga_answer a = or_default [] (gs_answer s')" "ga_citations a = or_default [] (gs_citations s')"
      "ga_sources a = or_default [] (gs_sources s')"
    using assms(2) by (auto simp: graph_run_agent_def Let_def split: sum.splits prod.splits)
  obtain s where s: "graph_input.truncate s = i" "run_nodes (graph_nodes rv settings) s x = (Inr s', x')"
    using assms(1) inv unfolding linear_graph_def by blast
  from graph_nodes_run [OF s(2)] show ?thesis using s(1) a by (auto simp: graph_input.truncate_def or_default_def)
qed

lemma dispatch_citations:
  assumes "execution_dispatch execution_handlers None sx rv sc par tasks w = (out, steps, w')"
  shows "eo_citations out = [] \<or> eo_citations out = snd (build_context_from_evidence (rv_str rv) (eo_evidences out))"
  using assms
  by (cases "sx_strategy sx")
    (auto simp: execution_dispatch_def execution_handlers_def RagHandler_def DirectLLMHandler_def MultiStepHandler_def ParallelHandler_def
      ToolCallingHandler_def output_from_evidence_def ExecutionOutput_def Let_def split: prod.splits)

lemma runtime_run_citations:
  assumes "runtime_run rv rt q tn thread p w = (Inr res, p', w')" "c \<in> set (rz_citations res)"
  shows "\<exists>i e. e \<in> retrieved_evidence rv (request_scope_of tn thread) \<and> c = build_citation i e"
proof -
  obtain out par ts steps where d: "execution_dispatch execution_handlers None (rz_execution res) rv (request_scope_of tn thread) par ts w = (out, steps, w')"
      "rz_citations res = eo_citations out" using runtime_run_Inr [OF assms(1)] by blast
  then have "c \<in> (\<lambda>(i, e). build_citation i e) ` set (enumerate 1 (eo_evidences out))"
    using dispatch_citations [OF d(1)] assms(2) unfolding build_context_eq snd_conv set_map [symmetric] by auto
  then obtain i e where "(i, e) \<in> set (enumerate 1 (eo_evidences out))" "c = build_citation i e" by auto
  moreover from this(1) have "e \<in> set (eo_evidences out)" unfolding enumerate_eq_zip by (rule set_zip_rightD)
  ultimately show ?thesis using dispatch_quiet(2) [OF d(1)] by blast
qed

lemma run_rag_citations:
  assumes "run_rag rv q tn thread history settings p w = (Inr r, x')" "c \<in> set (rg_citations r)"
  shows "\<exists>i e. e \<in> retrieved_evidence rv (request_scope_of tn thread) \<and> c = build_citation i e"
proof -
  obtain res p1 w1 where run: "runtime_run rv (request_router (rv_llm rv) settings) q tn thread p w = (Inr res, p1, w1)"
    and a: "fst (answer_run rv q history res w1) = Inr r"
    using assms(1) by (auto simp: run_rag_def split: sum.splits prod.splits)
  have "rg_citations r = rz_citations res \<or> rg_citations r = []"
    using a by (auto simp: answer_run_def Let_def split: if_splits sum.splits prod.splits)
  then show ?thesis using assms(2) runtime_run_citations [OF run] by auto
qed

subsection \<open>Whose answers a principal gets\<close>

text \<open>A run of the agent for a request: its tenant, its own conversation and its own model settings.\<close>

definition produced_for :: "('w, 'r, 'k) service_env \<Rightarrow> agent_request \<Rightarrow> 'w agent_output \<Rightarrow> bool" where
  "produced_for ve r out \<longleftrightarrow>
     (\<exists>db sdb settings x rg x'.
        load_runtime_llm_settings ve (ar_tenant r) (ar_user r) sdb = Inr settings \<and>
        run_rag (ve_runtime ve) (ar_question r) (id_or_zero (ar_tenant r)) (Some (ar_thread r)) (request_history r db) settings (fst x) (snd x) =
          (Inr rg, x') \<and>
        ao_answer out = rg_report rg \<and> ao_citations out = rg_citations rg)"

definition same_principal :: "agent_request \<Rightarrow> agent_request \<Rightarrow> bool" where
  "same_principal r r' \<longleftrightarrow> id_or_zero (ar_tenant r) = id_or_zero (ar_tenant r') \<and> id_or_zero (ar_user r) = id_or_zero (ar_user r') \<and>
     ar_thread r = ar_thread r'"

definition is_fallback :: "agent_request \<Rightarrow> 'w agent_output \<Rightarrow> bool" where
  "is_fallback r out \<longleftrightarrow> (\<exists>error trace. out = fallback_response (ar_question r) (ar_thread r) error trace)"

definition answered :: "('w, 'r, 'k) service_env \<Rightarrow> agent_request list \<Rightarrow> agent_request \<Rightarrow> 'w agent_output \<Rightarrow> bool" where
  "answered ve served r out \<longleftrightarrow> is_fallback r out \<or> (\<exists>r' \<in> set served. same_principal r' r \<and> produced_for ve r' out)"

definition cached_for :: "('w, 'r, 'k) service_env \<Rightarrow> agent_request list \<Rightarrow> (string \<times> 'w agent_output) set" where
  "cached_for ve served =
     {(session_key (ve_sha ve) (ar_thread r) (id_or_zero (ar_tenant r)) (Some key) (id_or_zero (ar_user r)), out) | r key out.
        r \<in> set served \<and> produced_for ve r out}"

lemma held_in_save:
  assumes "redis_reads view rd" "held_in view S r" "(session_key sha th tn rk u, st) \<in> S"
  shows "held_in view S (snd (cache_save rd sha th st tn rk u r))"
  using cache_step_held_in [OF assms(1,2), of sha "Save th st tn rk u"] assms(3) by (simp add: entries_def)

lemma held_in_get:
  assumes "redis_reads view rd" "held_in view S r"
  shows "held_in view S (snd (cache_get rd sha th tn rk u r))"
  using cache_step_held_in [OF assms, of sha "Fetch th tn rk u"] by (simp add: entries_def)

lemma cache_get_held:
  assumes "redis_reads view rd" "held_in view S r" "cache_get rd sha th tn rk u r = (Some out, r')"
  shows "(session_key sha th tn rk u, out) \<in> S"
  using assms unfolding cache_get_def redis_reads_def held_in_def
  by (auto split: if_splits prod.splits sum.splits)

lemma graph_request_step:
  assumes laws: "redis_reads view (ve_redis ve)" "linear_graph (ve_invoke ve)"
    and held: "held_in view (cached_for ve served) (sw_redis w)"
    and settings: "load_runtime_llm_settings ve (ar_tenant r) (ar_user r) sdb = Inr settings"
    and req: "graph_request ve r (request_history r db) settings key w = (out, w')"
  shows "held_in view (cached_for ve (r # served)) (sw_redis w') \<and> answered ve (r # served) r out"
proof -
  let ?S = "cached_for ve (r # served)"
  have more: "held_in view ?S (sw_redis w)" using held by (rule held_in_mono) (auto simp: cached_for_def)
  obtain cp cm k1 where cp: "agent_checkpointer (ve_savers ve) (ar_tenant r) (sw_module w) (sw_savers w) = (cp, cm, k1)"
    by (metis prod_cases3)
  define i where "i = \<lparr>gi_question = ar_question r, gi_company = ar_company r, gi_thread = ar_thread r, gi_tenant = id_or_zero (ar_tenant r),
               gi_user = ar_user r, gi_history = request_history r db\<rparr>"
  define cid where "cid = (case cp of None \<Rightarrow> None | Some (_ :: saver) \<Rightarrow> Some (scoped_checkpoint_thread_id (ve_sha ve) (id_or_zero (ar_tenant r)) (ar_user r) (ar_thread r)))"
  obtain res x k2 where g: "graph_run_agent (ve_invoke ve) (ve_runtime ve) i cp cid settings (vw_planner w, vw_sdks w) k1 = (res, x, k2)"
    by (metis prod_cases3)
  show ?thesis
  proof (cases res)
    case (Inl e)
    then have "out = fallback_response (ar_question r) (ar_thread r) (exn_msg e) (ar_trace_id r)" "sw_redis w' = sw_redis w"
      using req g unfolding graph_request_def cp i_def cid_def by (auto simp: Let_def)
    then show ?thesis using more by (auto simp: answered_def is_fallback_def)
  next
    case (Inr a)
    then obtain rg where rg: "run_rag (ve_runtime ve) (ar_question r) (id_or_zero (ar_tenant r)) (Some (ar_thread r)) (request_history r db) settings
        (vw_planner w) (vw_sdks w) = (Inr rg, x)" "ga_answer a = rg_report rg" "ga_citations a = rg_citations rg"
      using graph_run_agent_answer [OF laws(2)] g by (fastforce simp: i_def)
    obtain h where out: "out = (output_of r a)\<lparr>ao_history := h\<rparr>"
      "sw_redis w' = snd (cache_save (ve_redis ve) (ve_sha ve) (ar_thread r) out (id_or_zero (ar_tenant r)) (Some key) (id_or_zero (ar_user r)) (sw_redis w))"
      using req g Inr unfolding graph_request_def cp i_def cid_def by (auto simp: Let_def split: prod.splits)
    have "ao_answer out = rg_report rg" "ao_citations out = rg_citations rg" by (simp_all add: out(1) output_of_def rg)
    then have prod: "produced_for ve r out"
      unfolding produced_for_def using settings rg(1) by (metis fst_conv snd_conv)
    from prod have "held_in view ?S (sw_redis w')"
      unfolding out(2) by (intro held_in_save [OF laws(1) more]) (auto simp: cached_for_def)
    then show ?thesis using prod by (auto simp: answered_def same_principal_def)
  qed
qed

lemma run_agent_step:
  assumes laws: "redis_reads view (ve_redis ve)" "linear_graph (ve_invoke ve)" "\<And>q. length (ve_sha ve q) = 64"
    and held: "held_in view (cached_for ve served) (sw_redis w)"
    and req: "run_agent ve r w = (res, w')"
  shows "held_in view (cached_for ve (r # served)) (sw_redis w') \<and> (\<forall>out. res = Inr out \<longrightarrow> answered ve (r # served) r out)"
proof (cases "load_runtime_llm_settings ve (ar_tenant r) (ar_user r) (vw_settings w)")
  case (Inl e)
  then show ?thesis using req held
    by (auto simp: run_agent_def answered_def is_fallback_def split: if_splits intro: held_in_mono [of view "cached_for ve served"])
      (auto simp: cached_for_def intro: held_in_mono)
next
  case (Inr settings)
  define key where "key = ve_request_key ve (ar_question r) (request_history r (sw_db w)) (ar_company r) (map_option rs_revision settings)"
  obtain hit rds where get: "cache_get (ve_redis ve) (ve_sha ve) (ar_thread r) (id_or_zero (ar_tenant r)) (Some key)
      (id_or_zero (ar_user r)) (sw_redis w) = (hit, rds)" by fastforce
  have rds: "held_in view (cached_for ve served) rds"
    using held_in_get [OF laws(1) held] get by (metis snd_conv)
  then have more: "held_in view (cached_for ve (r # served)) rds" by (rule held_in_mono) (auto simp: cached_for_def)
  show ?thesis
  proof (cases hit)
    case (Some out)
    then obtain r' key' where r': "r' \<in> set served" "produced_for ve r' out"
      "session_key (ve_sha ve) (ar_thread r) (id_or_zero (ar_tenant r)) (Some key) (id_or_zero (ar_user r)) =
       session_key (ve_sha ve) (ar_thread r') (id_or_zero (ar_tenant r')) (Some key') (id_or_zero (ar_user r'))"
      using cache_get_held [OF laws(1) held] get unfolding cached_for_def by fastforce
    then have "same_principal r' r"
      using session_key_principal [OF r'(3)] session_key_thread [OF r'(3) laws(3)] by (simp add: same_principal_def)
    moreover have "res = Inr (out\<lparr>ao_trace_id := ar_trace_id r, ao_duration := ar_duration r\<rparr>)" "sw_redis w' = rds"
      using req Inr get Some unfolding run_agent_def key_def by (auto simp: Let_def)
    moreover have "produced_for ve r' (out\<lparr>ao_trace_id := ar_trace_id r, ao_duration := ar_duration r\<rparr>)"
      using r'(2) by (simp add: produced_for_def)
    ultimately show ?thesis using more r'(1) unfolding answered_def by auto
  next
    case None
    define w2 where "w2 = w\<lparr>sw_redis := rds, sw_db := record_turn (ve_runtime ve) r ''user'' (ar_question r) None (ar_asked_at r) (sw_db w)\<rparr>"
    have w2: "held_in view (cached_for ve served) (sw_redis w2)" using rds by (simp add: w2_def)
    have "(res, w') = (if ve_available ve then apfst Inr (graph_request ve r (request_history r (sw_db w)) settings key w2)
        else (Inr (fallback_response (ar_question r) (ar_thread r) [] (ar_trace_id r)), w2))"
      using req Inr get None unfolding run_agent_def key_def w2_def by (simp add: Let_def)
    then show ?thesis
      using graph_request_step [OF laws(1,2) w2 Inr] more w2_def
      by (cases "graph_request ve r (request_history r (sw_db w)) settings key w2")
        (auto simp: answered_def is_fallback_def split: if_splits)
  qed
qed

lemma serve_answered:
  assumes laws: "redis_reads view (ve_redis ve)" "linear_graph (ve_invoke ve)" "\<And>q. length (ve_sha ve q) = 64"
    and held: "held_in view (cached_for ve served) (sw_redis w)" and s: "serve ve rs w = (ress, w')"
    and i: "i < length rs" "ress ! i = Inr out"
  shows "answered ve (rev (take (Suc i) rs) @ served) (rs ! i) out"
  using held s i
proof (induction rs arbitrary: served w ress i)
  case (Cons r rs)
  obtain res w1 where r: "run_agent ve r w = (res, w1)" by fastforce
  obtain ress' where s: "serve ve rs w1 = (ress', w')" "ress = res # ress'"
    using Cons.prems(2) r by (auto split: prod.splits)
  note step = run_agent_step [OF laws Cons.prems(1) r]
  show ?case
  proof (cases i)
    case 0
    then show ?thesis using step Cons.prems s(2) by simp
  next
    case (Suc j)
    then show ?thesis using Cons.IH [OF _ s(1), of "r # served" j] step Cons.prems s(2) by simp
  qed
qed simp

text \<open>
  C1. A principal only ever gets its own answers. Let the service answer any requests of any users and tenants, one after the
  other and starting with an empty cache, with a Redis that may lose values or fail, a LangGraph that may fail, and the
  hybrid retriever over any vector store. Every response that is not the fixed fallback text is the report of a
  run of the agent for this or for an earlier request of the same tenant, the same user and the same thread, with the
  history of that thread and the model settings of that user; and every citation in it, also when it comes from the
  cache, previews evidence that a retrieval for this tenant returned, from a result recorded under this tenant, under the
  public tenant 0 or, since the retriever lets results without a tenant pass, under none; when the store tags every result
  it hands out, it is one of this tenant or of the public one.
\<close>

theorem answers_stay_with_principal:
  assumes "redis_reads view (ve_redis ve)" "linear_graph (ve_invoke ve)" "\<And>q. length (ve_sha ve q) = 64"
    and "view (sw_redis w) = Map.empty" "rv_retrieve (ve_runtime ve) = runtime_retrieve u tx c dep st"
    and "serve ve rs w = (ress, w')" "i < length rs" "ress ! i = Inr out"
  shows "(is_fallback (rs ! i) out \<or> (\<exists>j \<le> i. same_principal (rs ! j) (rs ! i) \<and> produced_for ve (rs ! j) out)) \<and>
    (\<forall>k \<in> set (ao_citations out). \<exists>n e rq r. k = build_citation n e \<and> rq_tenant rq = id_or_zero (ar_tenant (rs ! i)) \<and>
       r \<in> set (retrieve u c dep st (runtime_context rq)) \<and>
       (recorded_for (rq_tenant rq) r \<or> recorded_for 0 r \<or> \<not> tagged r) \<and>
       (tags_tenants st \<longrightarrow> recorded_for (rq_tenant rq) r \<or> recorded_for 0 r) \<and>
       ce_content e = strip (enc tx (extract_local_context u tx (r_content r) (cps (rq_query rq)) 2)))"
proof -
  have held: "held_in view (cached_for ve []) (sw_redis w)" by (simp add: held_in_def assms(4))
  have "answered ve (rev (take (Suc i) rs) @ []) (rs ! i) out"
    by (rule serve_answered [OF assms(1-3) held assms(6-8)])
  then consider "is_fallback (rs ! i) out" | r where "r \<in> set (take (Suc i) rs)" "same_principal r (rs ! i)" "produced_for ve r out"
    by (auto simp: answered_def)
  then show ?thesis
  proof cases
    case 1
    then show ?thesis by (auto simp: is_fallback_def fallback_response_def)
  next
    case (2 r)
    then obtain j where j: "j \<le> i" "r = rs ! j" by (auto simp: in_set_conv_nth less_Suc_eq_le)
    obtain h settings p w1 rg x' where rag: "run_rag (ve_runtime ve) (ar_question r) (id_or_zero (ar_tenant r)) (Some (ar_thread r)) h settings p w1 = (Inr rg, x')"
      "ao_citations out = rg_citations rg" using 2(3) unfolding produced_for_def by blast
    have tn: "id_or_zero (ar_tenant r) = id_or_zero (ar_tenant (rs ! i))" using 2(2) by (simp add: same_principal_def)
    have "\<exists>n e rq r. k = build_citation n e \<and> rq_tenant rq = id_or_zero (ar_tenant (rs ! i)) \<and>
       r \<in> set (retrieve u c dep st (runtime_context rq)) \<and>
       (recorded_for (rq_tenant rq) r \<or> recorded_for 0 r \<or> \<not> tagged r) \<and>
       (tags_tenants st \<longrightarrow> recorded_for (rq_tenant rq) r \<or> recorded_for 0 r) \<and>
       ce_content e = strip (enc tx (extract_local_context u tx (r_content r) (cps (rq_query rq)) 2))"
      if k: "k \<in> set (ao_citations out)" for k
    proof -
      obtain n e where e: "e \<in> retrieved_evidence (ve_runtime ve) (request_scope_of (id_or_zero (ar_tenant (rs ! i))) (Some (ar_thread r)))" "k = build_citation n e"
        using run_rag_citations [OF rag(1), of k] k unfolding tn rag(2) by blast
      obtain rq q' where rq: "rq_tenant rq = id_or_zero (ar_tenant (rs ! i))" "q' \<in> set (retrieve u c dep st (runtime_context rq))"
          "recorded_for (rq_tenant rq) q' \<or> recorded_for 0 q' \<or> \<not> tagged q'"
          "tags_tenants st \<longrightarrow> recorded_for (rq_tenant rq) q' \<or> recorded_for 0 q'"
          "ce_content e = strip (enc tx (extract_local_context u tx (r_content q') (cps (rq_query rq)) 2))"
        using retrieved_evidence_scoped [OF e(1) assms(5)] by (elim exE conjE) simp
      then show ?thesis by (intro exI [of _ n] exI [of _ e] exI [of _ rq] exI [of _ q'] conjI e(2))
    qed
    moreover have "\<exists>j \<le> i. same_principal (rs ! j) (rs ! i) \<and> produced_for ve (rs ! j) out" using 2 j by blast
    ultimately show ?thesis by simp
  qed
qed

subsection \<open>A run that fails\<close>

lemma request_turn_refines:
  assumes "sorted (map fst cs @ [ar_asked_at r])" "db = session_run cs" "ar_tenant r = Some t"
  shows "transcripts (record_turn rv r role content metadata (ar_asked_at r) db) =
    transcript_step (Record (t, ar_user r, ar_thread r) role (enc (rv_texts rv) content) metadata) (transcripts db)"
proof -
  let ?c = "(ar_asked_at r, Record (t, ar_user r, ar_thread r) role (enc (rv_texts rv) content) metadata)"
  have "sorted (map fst (cs @ [?c]))" "sorted (map fst cs)" using assms(1) by (auto simp: sorted_append)
  from session_run_refines [OF this(1)] session_run_refines [OF this(2)] show ?thesis
    using assms(2,3) by (simp add: session_run_def record_turn_def)
qed

lemma isl_case: "isl (fst (case p of (Inl e, x, k) \<Rightarrow> (Inl e, x, k) | (Inr s, x, k) \<Rightarrow> (Inr (f s), x, k))) = isl (fst p)"
  by (auto split: prod.split sum.split)

lemma graph_request_fails:
  assumes "\<And>cp cid nodes i x k. isl (fst (ve_invoke ve cp cid nodes i x k))" "graph_request ve r history settings key w = (out, w')"
  shows "\<exists>error. out = fallback_response (ar_question r) (ar_thread r) error (ar_trace_id r) \<and> sw_redis w' = sw_redis w \<and> sw_db w' = sw_db w"
proof -
  have isl: "isl (fst (graph_run_agent (ve_invoke ve) rv i cp cid settings x k))" for rv i cp cid x k
    unfolding graph_run_agent_def Let_def by (simp add: isl_case assms(1))
  obtain cp cm k1 where cp: "agent_checkpointer (ve_savers ve) (ar_tenant r) (sw_module w) (sw_savers w) = (cp, cm, k1)"
    by (metis prod_cases3)
  show ?thesis
    using assms(2) isl unfolding graph_request_def cp Let_def
    by (auto split: prod.splits sum.splits) (metis fst_conv sum.disc(2))+
qed

text \<open>
  C27. A failing run is answered safely. Suppose the graph raises for a request of a tenant, with any exception, and
  nothing is cached for the principal's thread. Then the caller still gets a response, and never the text of the
  exception: its answer is one of two fixed texts, of which one quotes the question, and it carries no sources, citations,
  tools or history. Nothing is added to the cache, and of the conversations only the principal's own thread changes, by
  the question and not by the fallback text.
\<close>

theorem failed_run_answered_safely:
  assumes "redis_reads view (ve_redis ve)" "\<And>cp cid nodes i x k. isl (fst (ve_invoke ve cp cid nodes i x k))"
    and "load_runtime_llm_settings ve (Some t) (ar_user r) (vw_settings w) = Inr settings" "ar_tenant r = Some t"
    and "\<And>key. view (sw_redis w) (session_key (ve_sha ve) (ar_thread r) t (Some key) (id_or_zero (ar_user r))) = None"
    and "sorted (map fst cs @ [ar_asked_at r])" "sw_db w = session_run cs" "run_agent ve r w = (res, w')"
  shows "(\<exists>out. res = Inr out \<and> ao_answer out \<in> {configuration_answer, runtime_fallback_answer (ar_question r)} \<and>
      ao_citations out = [] \<and> ao_sources out = [] \<and> ao_tools_used out = [] \<and> ao_history out = []) \<and>
    view (sw_redis w') \<subseteq>\<^sub>m view (sw_redis w) \<and>
    transcripts (sw_db w') = transcript_step
      (Record (t, ar_user r, ar_thread r) ''user'' (enc (rv_texts (ve_runtime ve)) (ar_question r)) None) (transcripts (sw_db w))"
proof -
  define key where "key = ve_request_key ve (ar_question r) (request_history r (sw_db w)) (ar_company r) (map_option rs_revision settings)"
  obtain rds where get: "cache_get (ve_redis ve) (ve_sha ve) (ar_thread r) t (Some key) (id_or_zero (ar_user r)) (sw_redis w) = (None, rds)"
    using cache_get_gone [OF assms(1,5)] by (metis prod.collapse)
  have "held_in view {(k, v). view (sw_redis w) k = Some v} rds"
    using held_in_get [OF assms(1), of "{(k, v). view (sw_redis w) k = Some v}" "sw_redis w"] get
    by (metis (mono_tags, lifting) case_prodI held_in_def mem_Collect_eq snd_conv)
  then have le: "view rds \<subseteq>\<^sub>m view (sw_redis w)" by (auto simp: held_in_def map_le_def dom_def)
  define db where "db = record_turn (ve_runtime ve) r ''user'' (ar_question r) None (ar_asked_at r) (sw_db w)"
  have tr: "transcripts db = transcript_step
      (Record (t, ar_user r, ar_thread r) ''user'' (enc (rv_texts (ve_runtime ve)) (ar_question r)) None) (transcripts (sw_db w))"
    unfolding db_def assms(7) by (rule request_turn_refines [OF assms(6) refl assms(4)])
  have "\<exists>error trace. res = Inr (fallback_response (ar_question r) (ar_thread r) error trace) \<and> sw_redis w' = rds \<and> sw_db w' = db"
  proof (cases "ve_available ve")
    case True
    then obtain out where "graph_request ve r (request_history r (sw_db w)) settings key (w\<lparr>sw_redis := rds, sw_db := db\<rparr>) = (out, w')" "res = Inr out"
      using assms(3,4,8) get unfolding run_agent_def key_def db_def by (auto simp: Let_def id_or_zero_def apfst_def map_prod_def split: prod.splits)
    then show ?thesis using graph_request_fails [OF assms(2)] by fastforce
  next
    case False
    then show ?thesis using assms(3,4,8) get unfolding run_agent_def key_def db_def by (auto simp: Let_def id_or_zero_def)
  qed
  then show ?thesis using le tr by (auto simp: fallback_response_def)
qed

lemma run_agent_ok:
  "load_runtime_llm_settings ve (ar_tenant r) (ar_user r) (vw_settings w) = Inr settings \<Longrightarrow> is_ok (fst (run_agent ve r w))"
  by (auto simp: run_agent_def Let_def split: prod.split option.split)

subsection \<open>A service in memory\<close>

definition fresh_state :: "graph_input \<Rightarrow> 'w graph_state" where
  "fresh_state i = graph_input.extend i \<lparr>gs_initial_intent = None, gs_report = None, gs_citations = None, gs_context = None, gs_mode = None,
     gs_intent = None, gs_plan_summary = None, gs_run = None, gs_evidence_count = None, gs_answer = None, gs_sources = None,
     gs_tools_used = None, gs_companies = None, gs_research_plan = None, gs_quality_score = None, gs_critique = None, gs_revision_count = None\<rparr>"

definition stateless_invoke :: "('w, 'k) graph_invocation" where
  "stateless_invoke cp cid nodes i x k = (case run_nodes nodes (fresh_state i) x of (res, x') \<Rightarrow> (res, x', k))"

lemma stateless_invoke_linear: "linear_graph stateless_invoke"
  unfolding linear_graph_def stateless_invoke_def
  by (auto simp: fresh_state_def graph_input.truncate_def graph_input.extend_def split: prod.splits
      intro!: exI [of _ "fresh_state _"])

definition failing_invoke :: "('w, 'k) graph_invocation" where
  "failing_invoke cp cid nodes i x k = (Inl (Exn ''RuntimeError'' ''connection to db.internal refused''), x, k)"

definition demo_service :: "(nat \<times> nat, unit) graph_invocation \<Rightarrow> (nat \<times> nat, (nat \<times> nat) agent_output memory_server, unit) service_env" where
  "demo_service ivk = \<lparr>ve_runtime = demo_runtime located_store, ve_invoke = ivk, ve_available = True, ve_redis = memory_redis,
     ve_savers = demo_savers, ve_sha = plain_digest, ve_cipher = Inr demo_cipher, ve_revision = (\<lambda>_. []),
     ve_request_key = (\<lambda>q h c v. [])\<rparr>"

definition demo_service_world :: "(nat \<times> nat, (nat \<times> nat) agent_output memory_server, unit) service_world" where
  "demo_service_world = \<lparr>sw_db = session_run [], sw_redis = ([], []),
     sw_module = \<lparr>postgres_status = initial_postgres_status, setup_databases = []\<rparr>, sw_savers = (),
     vw_settings = \<lparr>sd_rows = [], sd_next = 1\<rparr>, vw_planner = \<lparr>step_counter = 9\<rparr>, vw_sdks = (0, 0)\<rparr>"

definition demo_request :: agent_request where
  "demo_request = \<lparr>ar_question = cps ''eps'', ar_thread = ''t'', ar_tenant = Some 7, ar_user = Some 1, ar_company = None,
     ar_trace_id = ''x'', ar_asked_at = 1, ar_answered_at = 2, ar_duration = 1\<rparr>"

lemma demo_settings: "load_runtime_llm_settings (demo_service ivk) (Some 7) (Some 1) \<lparr>sd_rows = [], sd_next = 1\<rparr> = Inr None"
  by (simp add: load_runtime_llm_settings_def demo_service_def get_runtime_llm_settings_def list_provider_settings_def setting_query_def)

theorem answers_stay_with_principal_witness:
  "\<exists>out. fst (serve (demo_service stateless_invoke) [demo_request] demo_service_world) ! 0 = Inr out \<and>
    (is_fallback demo_request out \<or> produced_for (demo_service stateless_invoke) demo_request out) \<and>
    (\<forall>k \<in> set (ao_citations out). \<exists>n e rq r. k = build_citation n e \<and>
       rq_tenant rq = 7 \<and> r \<in> set (retrieve ascii_db vector_only demo_deps located_store (runtime_context rq)) \<and>
       (recorded_for 7 r \<or> recorded_for 0 r) \<and>
       ce_content e = strip (enc demo_texts (extract_local_context ascii_db demo_texts (r_content r) (cps (rq_query rq)) 2)))"
proof -
  let ?ve = "demo_service stateless_invoke"
  obtain res w' where run: "run_agent ?ve demo_request demo_service_world = (res, w')" by fastforce
  then have res: "serve ?ve [demo_request] demo_service_world = ([res], w')" by simp
  have set: "load_runtime_llm_settings ?ve (ar_tenant demo_request) (ar_user demo_request) (vw_settings demo_service_world) = Inr None"
    using demo_settings [of stateless_invoke] by (simp add: demo_request_def demo_service_world_def)
  obtain out where out: "[res] ! 0 = Inr out"
    using run_agent_ok [of ?ve demo_request demo_service_world, OF set] run by (auto simp: is_ok_iff)
  have "redis_reads memory_view (ve_redis ?ve)" "linear_graph (ve_invoke ?ve)" "\<And>q. length (ve_sha ?ve q) = 64"
    "memory_view (sw_redis demo_service_world) = Map.empty"
    "rv_retrieve (ve_runtime ?ve) = runtime_retrieve ascii_db demo_texts vector_only demo_deps located_store"
    by (simp_all add: demo_service_def memory_redis_reads stateless_invoke_linear plain_digest_length demo_service_world_def memory_view_def demo_runtime_def)
  note mine = answers_stay_with_principal [OF this res _ out, simplified]
  have tn: "id_or_zero (ar_tenant demo_request) = 7" by (simp add: demo_request_def id_or_zero_def)
  show ?thesis
    using mine out res located_store_tags unfolding tn by (intro exI [of _ out]) fastforce
qed

theorem failed_run_answered_safely_witness:
  "\<exists>out w'. run_agent (demo_service failing_invoke) demo_request demo_service_world = (Inr out, w') \<and>
     ao_answer out \<in> {configuration_answer, runtime_fallback_answer (cps ''eps'')} \<and> ao_history out = [] \<and>
     transcripts (sw_db w') (7, Some 1, ''t'') = Some [(''user'', enc demo_texts (cps ''eps''), [])]"
proof -
  let ?ve = "demo_service failing_invoke"
  obtain res w' where res: "run_agent ?ve demo_request demo_service_world = (res, w')" by fastforce
  have "redis_reads memory_view (ve_redis ?ve)" "\<And>cp cid nodes i x k. isl (fst (ve_invoke ?ve cp cid nodes i x k))"
    "load_runtime_llm_settings ?ve (Some 7) (ar_user demo_request) (vw_settings demo_service_world) = Inr None" "ar_tenant demo_request = Some 7"
    "\<And>key. memory_view (sw_redis demo_service_world)
      (session_key (ve_sha ?ve) (ar_thread demo_request) 7 (Some key) (id_or_zero (ar_user demo_request))) = None"
    "sorted (map fst [] @ [ar_asked_at demo_request])" "sw_db demo_service_world = session_run []"
    using demo_settings [of failing_invoke]
    by (simp_all add: demo_service_def memory_redis_reads failing_invoke_def demo_request_def demo_service_world_def memory_view_def)
  from failed_run_answered_safely [OF this res] show ?thesis
    using res session_run_refines [of "[]"]
    by (auto simp: demo_request_def demo_service_def demo_runtime_def demo_service_world_def)
qed

end
