(* ===== verification/Agent_Tasks.thy ===== *)
theory Agent_Tasks
  imports Agent_Service Task_Worker Billing_Quota
begin

text \<open>
  The end points of the agent and its background tasks: \<^verbatim>\<open>api/routers/agent.py\<close>, \<^verbatim>\<open>api/routers/chat.py\<close> with
  \<^verbatim>\<open>api/services/chat_service.py\<close>, \<^verbatim>\<open>api/routers/tasks.py\<close> and the handler \<^verbatim>\<open>tasks/agent_tasks.py\<close>.

  The state joins the agent service, the task tables and broker of theory \<open>Task_Worker\<close> and the billing tables. A call is
  stamped with its trace id, its times and the outcome of the commits it makes. Payloads of tasks are JSON objects;
  \<open>dec\<close> turns a stored text back into code points. Exceptions that a route does not catch are the status 500.
\<close>

record ('w, 'r, 'k) app_world =
  aw_service :: "('w, 'r, 'k) service_world"
  aw_work :: "obj wstate"
  aw_billing :: billing_db

record run_stamp =
  tp_trace :: string
  tp_asked :: rat
  tp_answered :: rat
  tp_duration :: rat
  tp_checked :: instant
  tp_recorded :: instant
  tp_usage_ok :: bool
  tp_billing_error :: "string option"

definition stamped_request :: "run_stamp \<Rightarrow> utext \<Rightarrow> string \<Rightarrow> int option \<Rightarrow> int option \<Rightarrow> string option \<Rightarrow> agent_request" where
  "stamped_request tp q th tn u company =
     \<lparr>ar_question = q, ar_thread = th, ar_tenant = tn, ar_user = u, ar_company = company, ar_trace_id = tp_trace tp,
      ar_asked_at = tp_asked tp, ar_answered_at = tp_answered tp, ar_duration = tp_duration tp\<rparr>"

definition thread_or_default :: "string option \<Rightarrow> string" where
  "thread_or_default th = (case th of Some t \<Rightarrow> if t = [] then ''default'' else t | None \<Rightarrow> ''default'')"

subsection \<open>Request models\<close>

text \<open>Both request models require a question; a thread id is optional, at most 256 characters, and has no surrounding space.\<close>

definition request_valid :: "utext \<Rightarrow> string option \<Rightarrow> bool" where
  "request_valid q th \<longleftrightarrow> 1 \<le> length q \<and>
     (case th of None \<Rightarrow> True | Some t \<Rightarrow> 1 \<le> length t \<and> length t \<le> MAX_THREAD_ID_LENGTH) \<and> is_ok (validate_thread_id th)"

subsection \<open>Chat\<close>

record agent_chat_response =
  cr_answer :: utext
  cr_thread_id :: string
  cr_tools_used :: "string list"
  cr_sources :: "obj list"
  cr_companies :: "utext list"
  cr_research_plan :: "task_summary list"
  cr_quality_score :: rat
  cr_critique :: obj
  cr_revision_count :: int
  cr_history :: "obj list"
  cr_duration :: rat

definition chat_usage_meta :: "run_stamp \<Rightarrow> string option \<Rightarrow> 'w agent_output \<Rightarrow> obj" where
  "chat_usage_meta tp th out =
     [(''endpoint'', JStr ''/api/v1/agent/chat''), (''thread_id'', opt_str th), (''tools_used'', JArr (map JStr (ao_tools_used out))),
      (''quality_score'', JFloat (Fin (ao_quality_score out))), (''duration'', JFloat (Fin (tp_duration tp))), (''agent_type'', JStr ''langgraph'')]"

definition agent_chat_route :: "('w, 'r, 'k) service_env \<Rightarrow> environment \<Rightarrow> run_stamp \<Rightarrow> utext \<Rightarrow> string option \<Rightarrow> int \<Rightarrow> int
    \<Rightarrow> ('w, 'r, 'k) app_world \<Rightarrow> (api_error + agent_chat_response) \<times> ('w, 'r, 'k) app_world" where
  "agent_chat_route ve env tp q th tn u w =
     (if \<not> request_valid q th then (Inl (422, None), w)
      else if \<not> can_chat env (tp_checked tp) (aw_billing w) tn
      then (Inl (429, Some ''Agent chat limit exceeded. Upgrade your plan for more agent interactions.''), w)
      else case run_agent ve (stamped_request tp q (thread_or_default th) (Some tn) (Some u) None) (aw_service w) of
          (Inl e, s) \<Rightarrow> (Inl (500, None), w\<lparr>aw_service := s\<rparr>)
        | (Inr out, s) \<Rightarrow>
            (Inr \<lparr>cr_answer = ao_answer out, cr_thread_id = ao_thread out, cr_tools_used = ao_tools_used out, cr_sources = ao_sources out,
                  cr_companies = ao_companies out, cr_research_plan = ao_research_plan out, cr_quality_score = ao_quality_score out,
                  cr_critique = ao_critique out, cr_revision_count = ao_revision_count out, cr_history = ao_history out,
                  cr_duration = tp_duration tp\<rparr>,
             w\<lparr>aw_service := s,
               aw_billing := snd (record_usage (tp_usage_ok tp) (tp_recorded tp) (Some tn) (Some u) ''chat_request'' ''chat'' 1
                 (chat_usage_meta tp th out) (aw_billing w))\<rparr>))"

record chat_api_response =
  ct_report :: utext
  ct_citations :: "obj list"
  ct_intent :: string
  ct_companies :: "utext list"
  ct_research_mode :: string
  ct_evidence_count :: nat
  ct_plan :: "plan_summary option"
  ct_execution_time :: rat

text \<open>\<open>ChatService.chat\<close>\<close>

definition chat_service :: "('w, 'r, 'k) service_env \<Rightarrow> run_stamp \<Rightarrow> utext \<Rightarrow> string option \<Rightarrow> int option \<Rightarrow> int option \<Rightarrow> string option
    \<Rightarrow> ('w, 'r, 'k) service_world \<Rightarrow> (exn + chat_api_response) \<times> ('w, 'r, 'k) service_world" where
  "chat_service ve tp q company tn u th s =
     (case run_agent ve (stamped_request tp q (thread_or_default th) tn u company) s of
        (Inl e, s') \<Rightarrow> (Inl e, s')
      | (Inr out, s') \<Rightarrow>
          (Inr \<lparr>ct_report = ao_answer out, ct_citations = ao_citations out,
                ct_intent = (case ao_intent out of Some i \<Rightarrow> ir_intent i | None \<Rightarrow> []),
                ct_companies = (case Option.bind (ao_intent out) ir_companies of Some cs \<Rightarrow> cs | None \<Rightarrow> []),
                ct_research_mode = ao_mode out, ct_evidence_count = ao_evidence_count out, ct_plan = ao_plan out,
                ct_execution_time = tp_duration tp\<rparr>, s'))"

definition chat_route :: "('w, 'r, 'k) service_env \<Rightarrow> environment \<Rightarrow> run_stamp \<Rightarrow> utext \<Rightarrow> string option \<Rightarrow> string option \<Rightarrow> (int \<times> int) option
    \<Rightarrow> ('w, 'r, 'k) app_world \<Rightarrow> (api_error + chat_api_response) \<times> ('w, 'r, 'k) app_world" where
  "chat_route ve env tp q company th who w =
     (if \<not> request_valid q th then (Inl (422, None), w)
      else if (case who of Some (tn, u) \<Rightarrow> \<not> can_chat env (tp_checked tp) (aw_billing w) tn | None \<Rightarrow> False)
      then (Inl (429, Some ''Chat limit exceeded. Upgrade your plan.''), w)
      else case chat_service ve tp q company (map_option fst who) (map_option snd who) th (aw_service w) of
          (Inl e, s) \<Rightarrow> (Inl (500, None), w\<lparr>aw_service := s\<rparr>)
        | (Inr resp, s) \<Rightarrow>
            (Inr resp, w\<lparr>aw_service := s,
               aw_billing := (case who of
                   Some (tn, u) \<Rightarrow> snd (record_usage (tp_usage_ok tp) (tp_recorded tp) (Some tn) (Some u) ''chat_request'' ''chat'' 1
                     [(''endpoint'', JStr ''/api/v1/chat'')] (aw_billing w))
                 | None \<Rightarrow> aw_billing w)\<rparr>))"

subsection \<open>Tasks\<close>

definition create_agent_task :: "texts \<Rightarrow> environment \<Rightarrow> instant \<Rightarrow> string \<Rightarrow> utext \<Rightarrow> string option \<Rightarrow> int \<Rightarrow> int
    \<Rightarrow> ('w, 'r, 'k) app_world \<Rightarrow> (api_error + obj) \<times> ('w, 'r, 'k) app_world" where
  "create_agent_task tx env checked pid q th tn u w =
     (if \<not> request_valid q th then (Inl (422, None), w)
      else if \<not> can_chat env checked (aw_billing w) tn
      then (Inl (429, Some ''Agent chat limit exceeded. Upgrade your plan for more agent interactions.''), w)
      else case create_task pid AGENT_TASK
              [(''question'', JStr (enc tx q)), (''thread_id'', JStr (thread_or_default th))] (Some tn) u (now (aw_work w)) (db (aw_work w)) of
          (Inl e, tb) \<Rightarrow> (Inl (500, None), w)
        | (Inr t, tb) \<Rightarrow>
            (Inr [(''task_id'', JStr (public_id t)), (''status'', JStr ''pending''), (''thread_id'', JStr (thread_or_default th))],
             w\<lparr>aw_work := publish_task (public_id t) tn (task_type t) ((aw_work w)\<lparr>db := tb\<rparr>)\<rparr>))"

fun task_status_value :: "TaskStatus \<Rightarrow> string" where
  "task_status_value PENDING = ''pending''"
| "task_status_value RUNNING = ''running''"
| "task_status_value SUCCESS = ''success''"
| "task_status_value FAILED = ''failed''"

record task_view =
  tv_id :: string
  tv_status :: string
  tv_result :: "obj option"
  tv_error :: "string option"
  tv_progress :: int
  tv_created :: rat
  tv_updated :: rat

definition get_agent_task_status :: "string \<Rightarrow> int \<Rightarrow> obj table \<Rightarrow> api_error + task_view" where
  "get_agent_task_status pid tn tb = (case get_task tb pid of
      None \<Rightarrow> Inl (404, Some ''Task not found'')
    | Some t \<Rightarrow>
        if tenant_id t \<noteq> tn then Inl (403, Some ''Access denied'')
        else Inr \<lparr>tv_id = public_id t, tv_status = task_status_value (status t),
               tv_result = (if status t = SUCCESS then result t else None), tv_error = error_message t,
               tv_progress = progress t, tv_created = created_at t, tv_updated = updated_at t\<rparr>)"

text \<open>\<^verbatim>\<open>api/routers/tasks.py\<close>: one task, and the tasks of a tenant page by page.\<close>

definition get_task_status :: "string \<Rightarrow> int \<Rightarrow> obj table \<Rightarrow> api_error + obj task" where
  "get_task_status pid tn tb = (case get_task tb pid of
      None \<Rightarrow> Inl (404, Some ''Task not found'')
    | Some t \<Rightarrow>
        if tenant_id t \<noteq> tn then Inl (403, Some ''Access denied: task belongs to another tenant'') else Inr t)"

definition list_tasks_route :: "int \<Rightarrow> int \<Rightarrow> TaskStatus option \<Rightarrow> int \<Rightarrow> obj table \<Rightarrow> api_error + (obj task list \<times> nat)" where
  "list_tasks_route page_no size_no st tn tb =
     (if page_no < 1 \<or> \<not> in_range 1 100 size_no then Inl (422, None)
      else Inr (list_tasks (Some tn) st (nat page_no) (nat size_no) tb))"

subsection \<open>The task handler\<close>

definition task_result_of :: "run_stamp \<Rightarrow> texts \<Rightarrow> 'w agent_output \<Rightarrow> obj" where
  "task_result_of tp tx out =
     [(''answer'', JStr (enc tx (ao_answer out))), (''thread_id'', JStr (ao_thread out)), (''tools_used'', JArr (map JStr (ao_tools_used out))),
      (''sources'', JArr (map JObj (ao_sources out))), (''companies'', JArr (map (\<lambda>c. JStr (enc tx c)) (ao_companies out))),
      (''quality_score'', JFloat (Fin (ao_quality_score out))), (''duration'', JFloat (Fin (tp_duration tp)))]"

text \<open>The output of the service has no key \<open>token_usage\<close>, so both the usage record and the cost see the empty dictionary.\<close>

definition task_usage_meta :: "run_stamp \<Rightarrow> string \<Rightarrow> string \<Rightarrow> 'w agent_output \<Rightarrow> obj" where
  "task_usage_meta tp pid th out =
     [(''endpoint'', JStr ''/api/v1/agent/tasks''), (''thread_id'', JStr th), (''tools_used'', JArr (map JStr (ao_tools_used out))),
      (''quality_score'', JFloat (Fin (ao_quality_score out))), (''duration'', JFloat (Fin (tp_duration tp))),
      (''latency_ms'', JInt \<lfloor>tp_duration tp * 1000\<rfloor>), (''retrieval_count'', JInt (int (length (ao_sources out)))),
      (''token_usage'', JObj []), (''agent_type'', JStr ''langgraph_async''), (''task_id'', JStr pid), (''error'', JNull)]"

definition task_billing :: "run_stamp \<Rightarrow> int \<Rightarrow> int \<Rightarrow> 'w agent_output \<Rightarrow> billing_record" where
  "task_billing tp tn u out =
     (let c = c_total_cost (calculate_cost None None None (int (length (ao_tools_used out)))) in
      \<lparr>b_tenant = tn, b_user = Some u, b_resource = ''chat'', b_quantity = 1, b_unit_price = c, b_amount = c, b_currency = ''USD'',
       b_created = tp_recorded tp\<rparr>)"

definition write_work :: "string \<Rightarrow> obj task_update \<Rightarrow> ('w, 'r, 'k) app_world \<Rightarrow> ('w, 'r, 'k) app_world" where
  "write_work pid up w = w\<lparr>aw_work := write_task pid up (aw_work w)\<rparr>"

text \<open>\<open>None\<close>: a payload that was not written by the route, with a question or thread id that is not a text.\<close>

definition agent_task_handler :: "('w, 'r, 'k) service_env \<Rightarrow> (string \<Rightarrow> utext) \<Rightarrow> run_stamp \<Rightarrow> string \<Rightarrow> ('w, 'r, 'k) app_world
    \<Rightarrow> ('w, 'r, 'k) app_world option" where
  "agent_task_handler ve dec tp pid w = (case get_task (db (aw_work w)) pid of
      None \<Rightarrow> Some w
    | Some t \<Rightarrow> (case (get_or (payload t) ''question'' (JStr []), get_or (payload t) ''thread_id'' (JStr ''default'')) of
        (JStr q, JStr th) \<Rightarrow> Some
          (if q = [] then write_work pid (fail_update ''question is required for agent task'') w
           else let w1 = write_work pid (no_update\<lparr>u_progress := Some 10\<rparr>) w;
                    (res, s) = run_agent ve (stamped_request tp (dec q) th (Some (tenant_id t)) (Some (user_id t)) None) (aw_service w1);
                    w2 = w1\<lparr>aw_service := s\<rparr>
             in case res of
                  Inl e \<Rightarrow> write_work pid (fail_update (exn_msg e)) w2
                | Inr out \<Rightarrow>
                    let w3 = write_work pid \<lparr>u_status = Some SUCCESS, u_progress = Some 100, u_error = None,
                               u_result = Some (task_result_of tp (rv_texts (ve_runtime ve)) out)\<rparr> w2;
                        w4 = w3\<lparr>aw_billing := snd (record_usage (tp_usage_ok tp) (tp_recorded tp) (Some (tenant_id t)) (Some (user_id t))
                               ''chat_request'' ''chat'' 1 (task_usage_meta tp pid th out) (aw_billing w3))\<rparr>
                    in case tp_billing_error tp of
                         None \<Rightarrow> w4\<lparr>aw_billing := (aw_billing w4)\<lparr>billings := billings (aw_billing w4) @
                              [task_billing tp (tenant_id t) (user_id t) out]\<rparr>\<rparr>
                       | Some msg \<Rightarrow> write_work pid (fail_update msg) w4)
      | _ \<Rightarrow> None))"

subsection \<open>Outcome of a task\<close>

lemma apply_update_owner: "tenant_id (apply_update n up t) = tenant_id t" "user_id (apply_update n up t) = user_id t"
  by (auto simp: apply_update_def Let_def split: option.splits)

lemma work_lookup:
  "get_task (db (aw_work (write_work pid up w))) j =
     (if j = pid then map_option (apply_update (now (aw_work w)) up) (get_task (db (aw_work w)) pid) else get_task (db (aw_work w)) j)"
  by (simp add: write_work_def get_task_write)

lemma write_work_keeps [simp]:
  "aw_service (write_work pid up w) = aw_service w" "aw_billing (write_work pid up w) = aw_billing w"
  "now (aw_work (write_work pid up w)) = now (aw_work w)"
  by (simp_all add: write_work_def write_task_def)

lemma status_of_task:
  "get_task tb pid = Some t \<Longrightarrow> get_agent_task_status pid tn tb =
     (if tenant_id t \<noteq> tn then Inl (403, Some ''Access denied'')
      else Inr \<lparr>tv_id = public_id t, tv_status = task_status_value (status t), tv_result = (if status t = SUCCESS then result t else None),
        tv_error = error_message t, tv_progress = progress t, tv_created = created_at t, tv_updated = updated_at t\<rparr>)"
  by (simp add: get_agent_task_status_def)

text \<open>
  C23. What a background request of a tenant ends with. For a queued question whose model settings can be read, the
  handler runs the agent once for the tenant and the user of the task. If the billing record is committed, the task ends
  as a success and its result carries the answer that the agent service returned, also when that answer is the
  fallback text of a failed run, and exactly one usage and one billing record are added; if the billing commit fails,
  the task ends as failed with the error, and the status route shows no result. The status is shown to the tenant of
  the task and refused to every other tenant with 403, and no other task changes.
\<close>

theorem agent_task_outcome:
  assumes "get_task (db (aw_work w)) pid = Some t" "q \<noteq> []"
    and "payload t = [(''question'', JStr q), (''thread_id'', JStr th)]"
    and "load_runtime_llm_settings ve (Some (tenant_id t)) (Some (user_id t)) (vw_settings (aw_service w)) = Inr settings"
  shows "\<exists>w' out v. agent_task_handler ve dec tp pid w = Some w' \<and>
    run_agent ve (stamped_request tp (dec q) th (Some (tenant_id t)) (Some (user_id t)) None) (aw_service w) = (Inr out, aw_service w') \<and>
    get_agent_task_status pid (tenant_id t) (db (aw_work w')) = Inr v \<and>
    (case tp_billing_error tp of
       None \<Rightarrow> tv_status v = ''success'' \<and> tv_result v = Some (task_result_of tp (rv_texts (ve_runtime ve)) out) \<and> tv_progress v = 100 \<and>
         billings (aw_billing w') = billings (aw_billing w) @ [task_billing tp (tenant_id t) (user_id t) out]
     | Some msg \<Rightarrow> tv_status v = ''failed'' \<and> tv_result v = None \<and> tv_error v = Some msg \<and> billings (aw_billing w') = billings (aw_billing w)) \<and>
    length (usages (aw_billing w')) = length (usages (aw_billing w)) + (if tp_usage_ok tp then 1 else 0) \<and>
    (\<forall>tn. tn \<noteq> tenant_id t \<longrightarrow> get_agent_task_status pid tn (db (aw_work w')) = Inl (403, Some ''Access denied'')) \<and>
    (\<forall>j. j \<noteq> pid \<longrightarrow> get_task (db (aw_work w')) j = get_task (db (aw_work w)) j)"
proof -
  let ?rq = "stamped_request tp (dec q) th (Some (tenant_id t)) (Some (user_id t)) None"
  obtain out s where run: "run_agent ve ?rq (aw_service w) = (Inr out, s)"
    using run_agent_ok [of ve ?rq "aw_service w" settings] assms(4) by (cases "run_agent ve ?rq (aw_service w)") (auto simp: stamped_request_def is_ok_iff)
  define ok where "ok = \<lparr>u_status = Some SUCCESS, u_progress = Some 100, u_error = None, u_result = Some (task_result_of tp (rv_texts (ve_runtime ve)) out)\<rparr>"
  define w2 where "w2 = (write_work pid (no_update\<lparr>u_progress := Some 10\<rparr>) w)\<lparr>aw_service := s\<rparr>"
  define bill where "bill = snd (record_usage (tp_usage_ok tp) (tp_recorded tp) (Some (tenant_id t)) (Some (user_id t))
      ''chat_request'' ''chat'' 1 (task_usage_meta tp pid th out) (aw_billing w))"
  define w4 where "w4 = (write_work pid ok w2)\<lparr>aw_billing := bill\<rparr>"
  have h: "agent_task_handler ve dec tp pid w = Some (case tp_billing_error tp of
      None \<Rightarrow> w4\<lparr>aw_billing := bill\<lparr>billings := billings bill @ [task_billing tp (tenant_id t) (user_id t) out]\<rparr>\<rparr>
    | Some msg \<Rightarrow> write_work pid (fail_update msg) w4)"
    using assms(1-3) run by (simp add: agent_task_handler_def get_or_def Let_def w4_def w2_def ok_def bill_def split: option.split)
  have bill: "billings bill = billings (aw_billing w)" "length (usages bill) = length (usages (aw_billing w)) + (if tp_usage_ok tp then 1 else 0)"
    by (simp_all add: bill_def record_usage_def Let_def)
  have w2: "get_task (db (aw_work w2)) j = (if j = pid then Some (apply_update (now (aw_work w)) (no_update\<lparr>u_progress := Some 10\<rparr>) t) else get_task (db (aw_work w)) j)"
    "now (aw_work w2) = now (aw_work w)" for j
    using assms(1) by (simp_all add: w2_def work_lookup)
  define t4 where "t4 = apply_update (now (aw_work w)) ok (apply_update (now (aw_work w)) (no_update\<lparr>u_progress := Some 10\<rparr>) t)"
  have w4: "get_task (db (aw_work w4)) j = (if j = pid then Some t4 else get_task (db (aw_work w)) j)" for j
    by (simp add: w4_def work_lookup w2 t4_def)
  have t4: "tenant_id t4 = tenant_id t" "status t4 = SUCCESS" "progress t4 = 100" "result t4 = Some (task_result_of tp (rv_texts (ve_runtime ve)) out)"
    by (simp_all add: t4_def apply_update_owner) (simp_all add: apply_update_def ok_def Let_def)
  show ?thesis
  proof (cases "tp_billing_error tp")
    case None
    then show ?thesis unfolding h run using w4 t4 bill by (simp add: status_of_task [of _ _ t4]) (simp add: w4_def w2_def)
  next
    case (Some msg)
    let ?t = "apply_update (now (aw_work w4)) (fail_update msg) t4"
    have "get_task (db (aw_work (write_work pid (fail_update msg) w4))) j = (if j = pid then Some ?t else get_task (db (aw_work w)) j)" for j
      by (simp add: work_lookup w4)
    moreover have "tenant_id ?t = tenant_id t" "status ?t = FAILED" "error_message ?t = Some msg"
      using t4 by (simp_all add: apply_update_owner) (simp_all add: apply_update_def fail_update_def no_update_def Let_def)
    ultimately show ?thesis unfolding h run using Some bill by (simp add: status_of_task [of _ _ ?t]) (simp add: w4_def w2_def)
  qed
qed

definition demo_stamp :: run_stamp where
  "demo_stamp = \<lparr>tp_trace = ''x'', tp_asked = 1, tp_answered = 2, tp_duration = 1, tp_checked = (2026, 1, 1, 0), tp_recorded = (2026, 1, 1, 1),
     tp_usage_ok = True, tp_billing_error = None\<rparr>"

definition demo_app :: "(nat \<times> nat, (nat \<times> nat) agent_output memory_server, unit) app_world" where
  "demo_app = \<lparr>aw_service = demo_service_world,
     aw_work = \<lparr>db = [new_task ''a'' AGENT_TASK [(''question'', JStr ''eps''), (''thread_id'', JStr ''t'')] 7 1 5], events = [],
       broker_enabled = True, now = 100, wid = ''w'', last_recovery = 0, pending_messages = [], next_pending_reclaim = 0\<rparr>,
     aw_billing = demo_db\<rparr>"

theorem agent_task_outcome_witness:
  "\<exists>w' v. agent_task_handler (demo_service failing_invoke) cps demo_stamp ''a'' demo_app = Some w' \<and>
     get_agent_task_status ''a'' 7 (db (aw_work w')) = Inr v \<and> tv_status v = ''success'' \<and>
     get_agent_task_status ''a'' 8 (db (aw_work w')) = Inl (403, Some ''Access denied'')"
proof -
  let ?t = "new_task ''a'' AGENT_TASK [(''question'', JStr ''eps''), (''thread_id'', JStr ''t'')] 7 1 5"
  have "get_task (db (aw_work demo_app)) ''a'' = Some ?t" "''eps'' \<noteq> []"
    "payload ?t = [(''question'', JStr ''eps''), (''thread_id'', JStr ''t'')]"
    "load_runtime_llm_settings (demo_service failing_invoke) (Some (tenant_id ?t)) (Some (user_id ?t)) (vw_settings (aw_service demo_app)) = Inr None"
    using demo_settings [of failing_invoke] by (simp_all add: demo_app_def get_task_def new_task_def demo_service_world_def)
  from agent_task_outcome [OF this, of cps demo_stamp] show ?thesis by (auto simp: new_task_def demo_stamp_def)
qed

end
