(* ===== verification/Access_Control.thy ===== *)
theory Access_Control
  imports Json
begin

text \<open>
  Who a request speaks for: \<^verbatim>\<open>auth/jwt.py\<close>, \<^verbatim>\<open>auth/service.py\<close>, \<^verbatim>\<open>auth/dependencies.py\<close>,
  \<^verbatim>\<open>core/tenant_context.py\<close> and \<^verbatim>\<open>api/routers/auth.py\<close>.

  The libraries \<open>jose\<close> and \<open>bcrypt\<close> are the record \<open>crypto\<close>; \<open>crypto_works\<close> is what their documentation promises: a token
  made with a key decodes to its claims with the same key until it expires and not afterwards, and a password verifies
  against its own hash whatever the salt. \<open>jose\<close> refuses a token whose subject is not a text. The users table is the list
  of its rows in insertion order with the next value of the id sequence.
\<close>

subsection \<open>Keys and tokens\<close>

record auth_environment =
  AUTH_SECRET_KEY :: "string option"
  SECRET_KEY :: "string option"
  APP_ENV :: "string option"
  AUTH_TOKEN_EXPIRE_MINUTES :: "string option"

definition env_default :: "string option \<Rightarrow> string \<Rightarrow> string" where
  "env_default v d = (case v of Some s \<Rightarrow> s | None \<Rightarrow> d)"

definition DEVELOPMENT_SECRET_KEY :: string where
  "DEVELOPMENT_SECRET_KEY = ''dev-secret-key-change-in-development''"

definition INSECURE_PRODUCTION_SECRETS :: "string list" where
  "INSECURE_PRODUCTION_SECRETS =
     [[], DEVELOPMENT_SECRET_KEY, ''dev-secret-key-change-in-production'', ''change-me-to-a-random-secret-key'', ''change-me'', ''your-secret-key'']"

definition is_production :: "auth_environment \<Rightarrow> bool" where
  "is_production env \<longleftrightarrow> normal (env_default (APP_ENV env) ''development'') \<in> {''production'', ''prod''}"

text \<open>\<open>os.getenv(a) or os.getenv(b) or ""\<close>\<close>

definition first_set :: "string option \<Rightarrow> string option \<Rightarrow> string" where
  "first_set a b = (if env_default a [] \<noteq> [] then env_default a [] else env_default b [])"

definition resolve_secret_key :: "auth_environment \<Rightarrow> exn + string" where
  "resolve_secret_key env =
     (let key = strip (first_set (AUTH_SECRET_KEY env) (SECRET_KEY env)) in
      if is_production env \<and> key \<in> set INSECURE_PRODUCTION_SECRETS
      then Inl (Exn ''RuntimeError'' ''AUTH_SECRET_KEY must be set to a non-placeholder value when APP_ENV=production.'')
      else Inr (if key = [] then DEVELOPMENT_SECRET_KEY else key))"

record claims =
  cl_sub :: "string option"
  cl_exp :: rat

record crypto =
  cy_jwt_encode :: "claims \<Rightarrow> string \<Rightarrow> string"
  cy_jwt_decode :: "string \<Rightarrow> string \<Rightarrow> rat \<Rightarrow> claims option"
  cy_hash :: "nat \<Rightarrow> string \<Rightarrow> string"
  cy_check :: "string \<Rightarrow> string \<Rightarrow> bool"

definition crypto_works :: "crypto \<Rightarrow> bool" where
  "crypto_works cy \<longleftrightarrow>
     (\<forall>c k t. t < cl_exp c \<longrightarrow> cy_jwt_decode cy (cy_jwt_encode cy c k) k t = Some c) \<and>
     (\<forall>c k t. cl_exp c < t \<longrightarrow> cy_jwt_decode cy (cy_jwt_encode cy c k) k t = None) \<and>
     (\<forall>n p. cy_check cy p (cy_hash cy n p))"

text \<open>The module reads key and lifetime once; the lifetime is in minutes.\<close>

record auth_module =
  am_key :: string
  am_minutes :: int

definition create_access_token :: "crypto \<Rightarrow> auth_module \<Rightarrow> string \<Rightarrow> rat \<Rightarrow> string" where
  "create_access_token cy am sub t =
     cy_jwt_encode cy \<lparr>cl_sub = Some sub, cl_exp = t + of_int (am_minutes am) * 60\<rparr> (am_key am)"

definition decode_token :: "crypto \<Rightarrow> auth_module \<Rightarrow> string \<Rightarrow> rat \<Rightarrow> claims option" where
  "decode_token cy am token t = cy_jwt_decode cy token (am_key am) t"

subsection \<open>Users and tenants\<close>

record tenant_row =
  te_id :: int
  te_name :: string
  te_slug :: string

record user_row =
  us_id :: int
  us_email :: string
  us_password_hash :: string
  us_role :: string
  us_tenant :: int

record auth_db =
  ad_users :: "user_row list"
  ad_tenants :: "tenant_row list"
  ad_next :: int

definition user_by_email :: "string \<Rightarrow> auth_db \<Rightarrow> user_row option" where
  "user_by_email email adb = find (\<lambda>u. us_email u = email) (ad_users adb)"

definition get_user_by_id :: "int \<Rightarrow> auth_db \<Rightarrow> user_row option" where
  "get_user_by_id i adb = find (\<lambda>u. us_id u = i) (ad_users adb)"

definition get_default_tenant :: "auth_db \<Rightarrow> exn + tenant_row" where
  "get_default_tenant adb = (case find (\<lambda>t. te_slug t = ''default'') (ad_tenants adb) of
      Some t \<Rightarrow> Inr t
    | None \<Rightarrow> Inl (Exn ''RuntimeError'' ''Default tenant not found. Run init_db() first.''))"

definition service_register :: "crypto \<Rightarrow> nat \<Rightarrow> string \<Rightarrow> string \<Rightarrow> auth_db \<Rightarrow> (exn + user_row) \<times> auth_db" where
  "service_register cy salt email password adb =
     (if user_by_email email adb \<noteq> None then (Inl (Exn ''ValueError'' ''Email already registered''), adb)
      else case get_default_tenant adb of
          Inl e \<Rightarrow> (Inl e, adb)
        | Inr t \<Rightarrow>
            let u = \<lparr>us_id = ad_next adb, us_email = email, us_password_hash = cy_hash cy salt password, us_role = ''user'', us_tenant = te_id t\<rparr>
            in (Inr u, adb\<lparr>ad_users := ad_users adb @ [u], ad_next := ad_next adb + 1\<rparr>))"

definition service_login :: "crypto \<Rightarrow> auth_module \<Rightarrow> string \<Rightarrow> string \<Rightarrow> rat \<Rightarrow> auth_db \<Rightarrow> string option" where
  "service_login cy am email password t adb = (case user_by_email email adb of
      None \<Rightarrow> None
    | Some u \<Rightarrow>
        if \<not> cy_check cy password (us_password_hash u) then None
        else Some (create_access_token cy am (str_int (us_id u)) t))"

subsection \<open>Dependencies of the routes\<close>

type_synonym http_failure = "int \<times> string"

definition user_of_token :: "crypto \<Rightarrow> auth_module \<Rightarrow> string \<Rightarrow> rat \<Rightarrow> auth_db \<Rightarrow> http_failure + user_row" where
  "user_of_token cy am token t adb = (case decode_token cy am token t of
      None \<Rightarrow> Inl (401, ''Invalid or expired token'')
    | Some c \<Rightarrow> (case cl_sub c of
          None \<Rightarrow> Inl (401, ''Invalid token payload'')
        | Some s \<Rightarrow> (case parse_int (strip s) of
              None \<Rightarrow> Inl (401, ''Invalid token payload'')
            | Some i \<Rightarrow> (case get_user_by_id i adb of
                  None \<Rightarrow> Inl (401, ''User not found'')
                | Some u \<Rightarrow> Inr u))))"

text \<open>\<open>HTTPBearer\<close> has taken the credentials from the header.\<close>

definition get_current_user :: "crypto \<Rightarrow> auth_module \<Rightarrow> string \<Rightarrow> rat \<Rightarrow> auth_db \<Rightarrow> http_failure + user_row" where
  "get_current_user = user_of_token"

definition ADMIN_ROLES :: "string list" where
  "ADMIN_ROLES = [''admin'', ''owner'']"

definition require_admin_user :: "user_row \<Rightarrow> http_failure + user_row" where
  "require_admin_user u =
     (if normal (us_role u) \<notin> set ADMIN_ROLES then Inl (403, ''Administrator role required'') else Inr u)"

text \<open>\<open>s.partition(" ")\<close>: what is before the first space, whether there is one, what is after it.\<close>

definition partition_space :: "string \<Rightarrow> string \<times> bool \<times> string" where
  "partition_space s = 
     (let rest = dropWhile (\<lambda>c. c \<noteq> CHR '' '') s in (takeWhile (\<lambda>c. c \<noteq> CHR '' '') s, rest \<noteq> [], tl rest))"

definition get_optional_user :: "crypto \<Rightarrow> auth_module \<Rightarrow> string option \<Rightarrow> rat \<Rightarrow> auth_db \<Rightarrow> http_failure + user_row option" where
  "get_optional_user cy am header t adb = (case header of
      None \<Rightarrow> Inr None
    | Some h \<Rightarrow>
        let (scheme, sep, token) = partition_space h in
        if \<not> sep \<or> map lower_char scheme \<noteq> ''bearer'' \<or> strip token = [] \<or> CHR '' '' \<in> set (strip token)
        then Inl (401, ''Invalid authorization header'')
        else try_then (user_of_token cy am (strip token) t adb) (\<lambda>u. Inr (Some u)))"

definition get_current_tenant :: "crypto \<Rightarrow> auth_module \<Rightarrow> string \<Rightarrow> rat \<Rightarrow> auth_db \<Rightarrow> http_failure + tenant_row" where
  "get_current_tenant cy am token t adb = try_then (get_current_user cy am token t adb) (\<lambda>u.
     case find (\<lambda>r. te_id r = us_tenant u) (ad_tenants adb) of
       None \<Rightarrow> Inl (403, ''Tenant not found'')
     | Some r \<Rightarrow> Inr r)"

definition get_current_tenant_optional :: "crypto \<Rightarrow> auth_module \<Rightarrow> string option \<Rightarrow> rat \<Rightarrow> auth_db \<Rightarrow> tenant_row option" where
  "get_current_tenant_optional cy am header t adb = (case header of
      None \<Rightarrow> None
    | Some h \<Rightarrow>
        if \<not> prefix ''Bearer '' h then None
        else (case user_of_token cy am (drop (length ''Bearer '') h) t adb of
            Inl _ \<Rightarrow> None
          | Inr u \<Rightarrow> find (\<lambda>r. te_id r = us_tenant u) (ad_tenants adb)))"

subsection \<open>Routes\<close>

text \<open>The validation of an e-mail address is that of pydantic: the argument \<open>email_ok\<close>.\<close>

record register_response =
  rr_id :: int
  rr_email :: string
  rr_token :: "string option"

definition register_route :: "(string \<Rightarrow> bool) \<Rightarrow> crypto \<Rightarrow> auth_module \<Rightarrow> nat \<Rightarrow> string \<Rightarrow> string \<Rightarrow> rat \<Rightarrow> auth_db
    \<Rightarrow> (int + register_response) \<times> auth_db" where
  "register_route email_ok cy am salt email password t adb =
     (if \<not> email_ok email \<or> length password < 6 \<or> 128 < length password then (Inl 422, adb)
      else case service_register cy salt email password adb of
          (Inl e, adb') \<Rightarrow> (Inl (if exn_class e = ''ValueError'' then 409 else 500), adb')
        | (Inr u, adb') \<Rightarrow>
            (Inr \<lparr>rr_id = us_id u, rr_email = us_email u, rr_token = service_login cy am email password t adb'\<rparr>, adb'))"

definition login_route :: "(string \<Rightarrow> bool) \<Rightarrow> crypto \<Rightarrow> auth_module \<Rightarrow> string \<Rightarrow> string \<Rightarrow> rat \<Rightarrow> auth_db \<Rightarrow> int + string" where
  "login_route email_ok cy am email password t adb =
     (if \<not> email_ok email then Inl 422
      else case service_login cy am email password t adb of
          None \<Rightarrow> Inl 401
        | Some token \<Rightarrow> Inr token)"

text \<open>A production process never signs with an empty key or with one of the published placeholders.\<close>

lemma production_key_secret:
  "resolve_secret_key env = Inr k \<Longrightarrow> is_production env \<Longrightarrow> k \<notin> set INSECURE_PRODUCTION_SECRETS"
  by (auto simp: resolve_secret_key_def INSECURE_PRODUCTION_SECRETS_def Let_def split: if_splits)

subsection \<open>Reading back a rendered id\<close>

definition digits_value :: "int \<Rightarrow> string \<Rightarrow> int" where
  "digits_value acc s = foldl (\<lambda>a c. a * 10 + (of_char c - 48)) acc s"

lemma parse_digits_value:
  "\<forall>c \<in> set s. is_digit c \<Longrightarrow> s \<noteq> [] \<or> b \<Longrightarrow> parse_digits acc b s = Some (digits_value acc s)"
  by (induction s arbitrary: acc b) (auto simp: digits_value_def simp del: is_digit.simps)

lemma of_char_digit_int: "d < 10 \<Longrightarrow> (of_char (digit_char d) :: int) = 48 + int d"
  using of_char_digit [of d] by (metis of_nat_add of_nat_numeral of_nat_of_char)

lemma digits_value_str_nat: "digits_value 0 (str_nat n) = int n"
proof (induction n rule: str_nat.induct)
  case (1 n)
  show ?case
  proof (cases "n < 10")
    case True
    then show ?thesis using of_char_digit_int [OF True]
      by (simp add: str_nat.simps [of n] digits_value_def del: digit_char.simps)
  next
    case False
    then have "digits_value 0 (str_nat n) = int (n div 10) * 10 + int (n mod 10)"
      using 1 of_char_digit_int [of "n mod 10"] by (simp add: str_nat.simps [of n] digits_value_def del: digit_char.simps)
    also have "\<dots> = int n" by (metis div_mult_mod_eq of_nat_add of_nat_mult of_nat_numeral)
    finally show ?thesis .
  qed
qed

lemma strip_unspaced: "\<forall>c \<in> set s. \<not> py_space c \<Longrightarrow> strip s = s"
proof -
  assume s: "\<forall>c \<in> set s. \<not> py_space c"
  have "\<forall>x \<in> set xs. \<not> P x \<Longrightarrow> dropWhile P xs = xs" for P :: "char \<Rightarrow> bool" and xs by (cases xs) auto
  from this [of s py_space] this [of "rev s" py_space] s show ?thesis by (simp add: strip_def)
qed

lemma digit_not_space: "is_digit c \<Longrightarrow> \<not> py_space c"
  by (auto simp: py_space_def)

lemma parse_int_str_nat: "parse_int (str_nat n) = Some (int n)" "parse_int (CHR ''-'' # str_nat n) = Some (- int n)"
proof -
  note digits = str_nat_digits [of n]
  have val: "parse_digits 0 False (str_nat n) = Some (int n)"
    by (simp add: parse_digits_value [OF digits] str_nat_nonempty digits_value_str_nat)
  obtain c cs where s: "str_nat n = c # cs" using str_nat_nonempty [of n] by (cases "str_nat n") auto
  then have "is_digit c" using digits by simp
  then have "c \<noteq> CHR ''-''" "c \<noteq> CHR ''+''" by auto
  then have "parse_int (str_nat n) = parse_digits 0 False (str_nat n)" by (simp add: parse_int_def s)
  with val show "parse_int (str_nat n) = Some (int n)" "parse_int (CHR ''-'' # str_nat n) = Some (- int n)"
    by (simp_all add: parse_int_def)
qed

lemma parse_int_str_int: "parse_int (strip (str_int i)) = Some i"
proof -
  have "\<not> py_space c" if "c \<in> set (str_int i)" for c
    using str_int_chars [of i] that digit_not_space by (auto simp: py_space_def)
  then show ?thesis using parse_int_str_nat by (simp add: strip_unspaced) (simp add: str_int_def)
qed

subsection \<open>Accounts\<close>

definition auth_ok :: "auth_db \<Rightarrow> bool" where
  "auth_ok adb \<longleftrightarrow> distinct (map us_id (ad_users adb)) \<and> distinct (map us_email (ad_users adb)) \<and>
     (\<forall>u \<in> set (ad_users adb). 0 \<le> us_id u \<and> us_id u < ad_next adb) \<and> 0 \<le> ad_next adb"

record registration =
  rg_salt :: nat
  rg_email :: string
  rg_password :: string
  rg_time :: rat

definition registrations :: "(string \<Rightarrow> bool) \<Rightarrow> crypto \<Rightarrow> auth_module \<Rightarrow> registration list \<Rightarrow> auth_db \<Rightarrow> auth_db" where
  "registrations email_ok cy am rs adb =
     fold (\<lambda>r adb. snd (register_route email_ok cy am (rg_salt r) (rg_email r) (rg_password r) (rg_time r) adb)) rs adb"

lemma find_key:
  assumes "distinct (map f xs)" "x \<in> set xs" "f x = k"
  shows "find (\<lambda>y. f y = k) xs = Some x"
  using assms by (induction xs) (auto simp: image_iff)

lemma find_none: "find (\<lambda>y. f y = k) xs = None \<longleftrightarrow> k \<notin> f ` set xs"
  by (induction xs) auto

lemma register_cases:
  obtains (kept) e where "register_route email_ok cy am salt email password t adb = (Inl e, adb)"
  | (added) u te where "register_route email_ok cy am salt email password t adb =
      (Inr \<lparr>rr_id = us_id u, rr_email = email, rr_token = service_login cy am email password t (adb\<lparr>ad_users := ad_users adb @ [u], ad_next := ad_next adb + 1\<rparr>)\<rparr>,
       adb\<lparr>ad_users := ad_users adb @ [u], ad_next := ad_next adb + 1\<rparr>)"
      "email \<notin> us_email ` set (ad_users adb)" "get_default_tenant adb = Inr te" "email_ok email"
      "u = \<lparr>us_id = ad_next adb, us_email = email, us_password_hash = cy_hash cy salt password, us_role = ''user'', us_tenant = te_id te\<rparr>"
proof (cases "email_ok email \<and> 6 \<le> length password \<and> length password \<le> 128 \<and> user_by_email email adb = None \<and> is_ok (get_default_tenant adb)")
  case True
  then obtain te where "get_default_tenant adb = Inr te" by (auto simp: is_ok_iff)
  with True show thesis
    by (intro added [OF _ _ _ _ refl]) (auto simp: register_route_def service_register_def Let_def user_by_email_def find_none)
next
  case False
  then have "\<exists>e. register_route email_ok cy am salt email password t adb = (Inl e, adb)"
    by (cases "get_default_tenant adb") (auto simp: register_route_def service_register_def Let_def)
  then show thesis using kept by blast
qed

lemma register_step:
  "auth_ok adb \<Longrightarrow> auth_ok (snd (register_route email_ok cy am salt email password t adb))"
  "set (ad_users adb) \<subseteq> set (ad_users (snd (register_route email_ok cy am salt email password t adb)))"
  by (cases rule: register_cases [of email_ok cy am salt email password t adb]; force simp: auth_ok_def)+

lemma register_all_step:
  "(auth_ok adb \<longrightarrow> auth_ok (registrations email_ok cy am rs adb)) \<and> set (ad_users adb) \<subseteq> set (ad_users (registrations email_ok cy am rs adb))"
proof (induction rs arbitrary: adb)
  case (Cons r rs)
  let ?adb = "snd (register_route email_ok cy am (rg_salt r) (rg_email r) (rg_password r) (rg_time r) adb)"
  have "registrations email_ok cy am (r # rs) adb = registrations email_ok cy am rs ?adb" by (simp add: registrations_def)
  then show ?case using Cons.IH [of ?adb] register_step [of adb email_ok cy am "rg_salt r" "rg_email r" "rg_password r" "rg_time r"] by auto
qed (simp add: registrations_def)

lemma auth_ok_lookup:
  assumes "auth_ok adb" "u \<in> set (ad_users adb)"
  shows "user_by_email (us_email u) adb = Some u" "get_user_by_id (us_id u) adb = Some u" "0 \<le> us_id u"
  using assms find_key [of us_email "ad_users adb" u] find_key [of us_id "ad_users adb" u]
  by (auto simp: user_by_email_def get_user_by_id_def auth_ok_def)

lemma issued_token:
  assumes "crypto_works cy" "auth_ok adb" "u \<in> set (ad_users adb)"
  shows "t' < t + of_int (am_minutes am) * 60 \<Longrightarrow> user_of_token cy am (create_access_token cy am (str_int (us_id u)) t) t' adb = Inr u"
    and "t + of_int (am_minutes am) * 60 < t' \<Longrightarrow>
      user_of_token cy am (create_access_token cy am (str_int (us_id u)) t) t' adb = Inl (401, ''Invalid or expired token'')"
  using assms(1) auth_ok_lookup [OF assms(2,3)]
  by (simp_all add: user_of_token_def decode_token_def create_access_token_def crypto_works_def parse_int_str_int)

text \<open>
  C17. Credentials lead back to the account they were registered for. After a successful registration, and any further
  registrations by others, the same e-mail and password log in; the token authenticates as exactly that account, in
  the default tenant and with the plain role, until it expires, and is refused with 401 afterwards; it never opens
  an operator route. A second registration of the e-mail is refused with 409 and changes nothing, whatever the
  password.
\<close>

theorem credentials_roundtrip:
  assumes "crypto_works cy" "auth_ok adb" "register_route email_ok cy am salt email password t adb = (Inr resp, adb1)"
    and "adb2 = registrations email_ok cy am rs adb1"
  shows "\<exists>token u te. login_route email_ok cy am email password t1 adb2 = Inr token \<and>
    (\<forall>t2. t2 < t1 + of_int (am_minutes am) * 60 \<longrightarrow> get_current_user cy am token t2 adb2 = Inr u) \<and>
    (\<forall>t2. t1 + of_int (am_minutes am) * 60 < t2 \<longrightarrow> get_current_user cy am token t2 adb2 = Inl (401, ''Invalid or expired token'')) \<and>
    us_id u = rr_id resp \<and> us_email u = email \<and> get_default_tenant adb = Inr te \<and> us_tenant u = te_id te \<and>
    require_admin_user u = Inl (403, ''Administrator role required'') \<and>
    (6 \<le> length password' \<and> length password' \<le> 128 \<longrightarrow> register_route email_ok cy am salt' email password' t3 adb2 = (Inl 409, adb2))"
proof (cases rule: register_cases [of email_ok cy am salt email password t adb])
  case (kept e)
  then show ?thesis using assms(3) by simp
next
  case (added u te)
  have adb1: "adb1 = adb\<lparr>ad_users := ad_users adb @ [u], ad_next := ad_next adb + 1\<rparr>" "rr_id resp = us_id u"
    using added(1) assms(3) by auto
  have ok: "auth_ok adb2" using register_all_step register_step(1) [OF assms(2)] assms(3,4) by (metis snd_conv)
  have u: "u \<in> set (ad_users adb2)" using register_all_step [of adb1 email_ok cy am rs] assms(4) by (auto simp: adb1)
  have email: "us_email u = email" "us_tenant u = te_id te" "us_role u = ''user''" "cy_check cy password (us_password_hash u)"
    using added(5) assms(1) by (simp_all add: crypto_works_def)
  have found: "user_by_email email adb2 = Some u" using auth_ok_lookup(1) [OF ok u] email(1) by simp
  have "login_route email_ok cy am email password t1 adb2 = Inr (create_access_token cy am (str_int (us_id u)) t1)"
    using found email added(4) by (simp add: login_route_def service_login_def)
  moreover have "require_admin_user u = Inl (403, ''Administrator role required'')"
    unfolding require_admin_user_def email(3) by code_simp
  moreover have "6 \<le> length password' \<and> length password' \<le> 128 \<longrightarrow> register_route email_ok cy am salt' email password' t3 adb2 = (Inl 409, adb2)"
    using found added(4) by (simp add: register_route_def service_register_def)
  ultimately show ?thesis
    using issued_token [OF assms(1) ok u] added(3) adb1(2) email unfolding get_current_user_def
    by (intro exI [of _ "create_access_token cy am (str_int (us_id u)) t1"] exI [of _ u] exI [of _ te]) simp
qed

subsection \<open>The Authorization header\<close>

text \<open>
  C32. A request that carries credentials is never treated as anonymous. On the routes with optional authentication the
  caller is anonymous exactly when there is no Authorization header; a header with a scheme other than bearer, with no
  token, with several words, or with a token that does not decode to the id of an existing user is refused with 401;
  and a header \<open>Bearer token\<close> authenticates as the same user, or fails with the same error, as on the routes that require
  authentication.
\<close>

theorem optional_user_never_downgraded:
  shows "(get_optional_user cy am header t adb = Inr None \<longleftrightarrow> header = None) \<and>
    (\<forall>e. get_optional_user cy am header t adb = Inl e \<longrightarrow> fst e = 401) \<and>
    (\<forall>token. token \<noteq> [] \<and> (\<forall>c \<in> set token. \<not> py_space c) \<longrightarrow>
       get_optional_user cy am (Some (''Bearer '' @ token)) t adb =
         try_then (get_current_user cy am token t adb) (\<lambda>u. Inr (Some u)))"
proof -
  have err: "user_of_token cy am token t adb = Inl e \<Longrightarrow> fst e = 401" for token e
    by (auto simp: user_of_token_def split: option.splits)
  have "get_optional_user cy am header t adb = Inr None \<longleftrightarrow> header = None"
    by (auto simp: get_optional_user_def Let_def try_then_Inr split: option.splits if_splits prod.splits)
  moreover have "get_optional_user cy am header t adb = Inl e \<longrightarrow> fst e = 401" for e
    using err by (auto simp: get_optional_user_def Let_def try_then_Inl split: option.splits if_splits prod.splits)
  moreover have "get_optional_user cy am (Some (''Bearer '' @ token)) t adb = try_then (get_current_user cy am token t adb) (\<lambda>u. Inr (Some u))"
    if token: "token \<noteq> []" "\<forall>c \<in> set token. \<not> py_space c" for token
  proof -
    have "strip token = token" by (rule strip_unspaced [OF token(2)])
    moreover have "CHR '' '' \<notin> set token" using token(2) by (auto simp: py_space_def)
    moreover have "map lower_char ''Bearer'' = ''bearer''" by code_simp
    ultimately show ?thesis using token(1) by (simp add: get_optional_user_def partition_space_def get_current_user_def)
  qed
  ultimately show ?thesis by blast
qed

subsection \<open>A concrete instance\<close>

text \<open>Tokens that spell out their claims, for evaluation only: key, expiry as a fraction, subject.\<close>

definition plain_encode :: "claims \<Rightarrow> string \<Rightarrow> string" where
  "plain_encode c k = k @ (case quotient_of (cl_exp c) of (a, b) \<Rightarrow> str_int a @ ''/'' @ str_int b @ ''.'') @
     (case cl_sub c of None \<Rightarrow> [] | Some s \<Rightarrow> CHR ''s'' # s)"

definition plain_decode :: "string \<Rightarrow> string \<Rightarrow> rat \<Rightarrow> claims option" where
  "plain_decode token k t =
     (if \<not> prefix k token then None
      else let rest = drop (length k) token;
               a = takeWhile (\<lambda>x. x \<noteq> CHR ''/'') rest; rest = drop (Suc (length a)) rest;
               b = takeWhile (\<lambda>x. x \<noteq> CHR ''.'') rest; rest = drop (Suc (length b)) rest
           in case (parse_int a, parse_int b) of
                (Some n, Some d) \<Rightarrow>
                  let c = \<lparr>cl_sub = (case rest of [] \<Rightarrow> None | _ # s \<Rightarrow> Some s), cl_exp = of_int n / of_int d\<rparr>
                  in if t \<le> cl_exp c then Some c else None
              | _ \<Rightarrow> None)"

definition plain_crypto :: crypto where
  "plain_crypto = \<lparr>cy_jwt_encode = plain_encode, cy_jwt_decode = plain_decode, cy_hash = (\<lambda>n p. p), cy_check = (\<lambda>p h. p = h)\<rparr>"

lemma takeWhile_sep: "c \<notin> set a \<Longrightarrow> takeWhile (\<lambda>x. x \<noteq> c) (a @ c # b) = a"
  by (induction a) auto

lemma str_int_no_sep: "CHR ''/'' \<notin> set (str_int i)" "CHR ''.'' \<notin> set (str_int i)"
  using str_int_chars [of i] by auto

lemma parse_int_unstripped: "parse_int (str_int i) = Some i"
  using parse_int_str_nat by (simp add: str_int_def)

lemma plain_roundtrip: "plain_decode (plain_encode c k) k t = (if t \<le> cl_exp c then Some c else None)"
proof -
  obtain a b where q: "quotient_of (cl_exp c) = (a, b)" by fastforce
  have e: "of_int a / of_int b = cl_exp c" using quotient_of_div [OF q] by simp
  have "(case (case cl_sub c of None \<Rightarrow> [] | Some s \<Rightarrow> CHR ''s'' # s) of [] \<Rightarrow> None | _ # s \<Rightarrow> Some s) = cl_sub c"
    by (simp split: option.split)
  then show ?thesis
    by (simp add: plain_decode_def plain_encode_def q takeWhile_sep str_int_no_sep parse_int_unstripped e Let_def)
qed

lemma plain_crypto_works: "crypto_works plain_crypto"
  by (simp add: crypto_works_def plain_crypto_def plain_roundtrip)

definition demo_module :: auth_module where
  "demo_module = \<lparr>am_key = DEVELOPMENT_SECRET_KEY, am_minutes = 1440\<rparr>"

definition demo_accounts :: auth_db where
  "demo_accounts = \<lparr>ad_users = [], ad_tenants = [\<lparr>te_id = 1, te_name = ''Default Workspace'', te_slug = ''default''\<rparr>], ad_next = 1\<rparr>"

theorem credentials_roundtrip_witness:
  "\<exists>resp adb1 token u. register_route (\<lambda>_. True) plain_crypto demo_module 0 ''a@x'' ''secret'' 0 demo_accounts = (Inr resp, adb1) \<and>
     login_route (\<lambda>_. True) plain_crypto demo_module ''a@x'' ''secret'' 10 (registrations (\<lambda>_. True) plain_crypto demo_module
       [\<lparr>rg_salt = 1, rg_email = ''b@x'', rg_password = ''secret'', rg_time = 5\<rparr>] adb1) = Inr token \<and>
     get_current_user plain_crypto demo_module token 20 (registrations (\<lambda>_. True) plain_crypto demo_module
       [\<lparr>rg_salt = 1, rg_email = ''b@x'', rg_password = ''secret'', rg_time = 5\<rparr>] adb1) = Inr u \<and> us_email u = ''a@x''"
proof -
  have ok: "auth_ok demo_accounts" by (simp add: auth_ok_def demo_accounts_def)
  obtain resp adb1 where reg: "register_route (\<lambda>_. True) plain_crypto demo_module 0 ''a@x'' ''secret'' 0 demo_accounts = (Inr resp, adb1)"
    by (simp add: register_route_def service_register_def user_by_email_def get_default_tenant_def demo_accounts_def Let_def)
  from credentials_roundtrip [OF plain_crypto_works ok reg refl, where ?t1.0 = 10] reg show ?thesis
    by (fastforce simp: demo_module_def)
qed

text \<open>A header that is present but not a bearer token is refused.\<close>

theorem optional_user_never_downgraded_witness:
  "get_optional_user plain_crypto demo_module (Some (''Bearer '' @ ''x'')) 0 demo_accounts =
     try_then (get_current_user plain_crypto demo_module ''x'' 0 demo_accounts) (\<lambda>u. Inr (Some u)) \<and>
   get_optional_user plain_crypto demo_module (Some ''Basic x'') 0 demo_accounts \<noteq> Inr None"
  using optional_user_never_downgraded [of plain_crypto demo_module "Some ''Basic x''" 0 demo_accounts] by (auto simp: py_space_def)

end
