(* ===== verification/Http_Guard.thy ===== *)
theory Http_Guard
  imports Access_Control
begin

text \<open>
  The middleware of \<^verbatim>\<open>middleware/security.py\<close> and the settings of \<^verbatim>\<open>api/app.py\<close> it is built from.

  The state of the rate limiter is the map from client identities to a request count and the start of the window. A
  request has one time; the code reads the clock a second time for the first window of a client. \<open>ip_address\<close> is that of
  the library \<open>ipaddress\<close>: the canonical text of a valid address. The inner application is an argument.
\<close>

subsection \<open>Settings\<close>

definition rstrip_slash :: "string \<Rightarrow> string" where
  "rstrip_slash s = rev (dropWhile (\<lambda>c. c = CHR ''/'') (rev s))"

definition get_cors_origins :: "string option \<Rightarrow> string option \<Rightarrow> exn + string list" where
  "get_cors_origins raw app_env =
     (let origins = map (\<lambda>s. rstrip_slash (strip s)) (filter (\<lambda>s. strip s \<noteq> []) (split_commas [] (env_default raw []))) in
      if origins \<noteq> [] then Inr origins
      else if normal (env_default app_env ''development'') \<in> {''production'', ''prod''}
      then Inl (Exn ''RuntimeError'' ''CORS_ORIGINS must be explicitly configured when APP_ENV=production.'')
      else Inr [''http://localhost:5173''])"

definition get_positive_int_setting :: "string \<Rightarrow> string option \<Rightarrow> int \<Rightarrow> exn + int" where
  "get_positive_int_setting name raw d =
     (case parse_int (strip (env_default raw (str_int d))) of
        None \<Rightarrow> Inl (Exn ''RuntimeError'' (name @ '' must be a positive integer''))
      | Some v \<Rightarrow> if v \<le> 0 then Inl (Exn ''RuntimeError'' (name @ '' must be a positive integer'')) else Inr v)"

subsection \<open>Requests and responses\<close>

record http_request =
  hq_path :: string
  hq_authorization :: "string option"
  hq_forwarded_for :: "string option"
  hq_request_id :: "string option"
  hq_client :: "string option"
  hq_time :: rat

record http_response =
  hp_status :: int
  hp_headers :: "(string \<times> string) list"

definition GUARD_TRUE_VALUES :: "string list" where
  "GUARD_TRUE_VALUES = [''1'', ''true'', ''yes'', ''on'']"

definition HEALTH_PATHS :: "string list" where
  "HEALTH_PATHS = [''/health'', ''/api/v1/health'', ''/api/v1/ready'']"

definition rate_limit_identity :: "(string \<Rightarrow> string) \<Rightarrow> (string \<Rightarrow> string option) \<Rightarrow> string option \<Rightarrow> http_request \<Rightarrow> string" where
  "rate_limit_identity sha ip_address trust rq =
     (let (scheme, sep, token) = partition_space (env_default (hq_authorization rq) []);
          direct = ''ip:'' @ env_default (hq_client rq) ''unknown'' in
      if sep \<and> map lower_char scheme = ''bearer'' \<and> strip token \<noteq> [] then ''auth:'' @ take 24 (sha (strip token))
      else if normal (env_default trust ''false'') \<in> set GUARD_TRUE_VALUES
      then let candidate = strip (takeWhile (\<lambda>c. c \<noteq> CHR '','') (env_default (hq_forwarded_for rq) [])) in
        if candidate = [] then direct
        else (case ip_address candidate of Some a \<Rightarrow> ''ip:'' @ a | None \<Rightarrow> direct)
      else direct)"

record limiter =
  lm_requests :: nat
  lm_window :: rat
  lm_enabled :: "string option"
  lm_trust :: "string option"

type_synonym clients = "string \<Rightarrow> (nat \<times> rat) option"

text \<open>\<open>_clients[client_id]\<close>, the reset of an elapsed window and the count of this request.\<close>

definition count_request :: "limiter \<Rightarrow> rat \<Rightarrow> (nat \<times> rat) option \<Rightarrow> nat \<times> rat" where
  "count_request lm t entry =
     (let (n, start) = (case entry of Some e \<Rightarrow> e | None \<Rightarrow> (0, t));
          (n, start) = (if t - start > lm_window lm then (0, t) else (n, start))
      in (Suc n, start))"

definition limited :: "limiter \<Rightarrow> http_request \<Rightarrow> bool" where
  "limited lm rq \<longleftrightarrow> normal (env_default (lm_enabled lm) ''true'') \<in> set GUARD_TRUE_VALUES \<and> hq_path rq \<notin> set HEALTH_PATHS"

text \<open>\<open>RateLimitMiddleware.dispatch\<close>: whether the request goes on to the application, else the answer is 429.\<close>

definition rate_limit :: "(http_request \<Rightarrow> string) \<Rightarrow> limiter \<Rightarrow> http_request \<Rightarrow> clients \<Rightarrow> bool \<times> clients" where
  "rate_limit ident lm rq cs =
     (if \<not> limited lm rq then (True, cs)
      else let c = ident rq; e = count_request lm (hq_time rq) (cs c) in (fst e \<le> lm_requests lm, cs(c \<mapsto> e)))"

definition rate_limit_dispatch :: "(http_request \<Rightarrow> string) \<Rightarrow> limiter \<Rightarrow> (http_request \<Rightarrow> http_response) \<Rightarrow> http_request \<Rightarrow> clients
    \<Rightarrow> http_response \<times> clients" where
  "rate_limit_dispatch ident lm app rq cs =
     (case rate_limit ident lm rq cs of
        (True, cs') \<Rightarrow> (app rq, cs')
      | (False, cs') \<Rightarrow> (\<lparr>hp_status = 429, hp_headers = []\<rparr>, cs'))"

definition set_header :: "string \<Rightarrow> string \<Rightarrow> http_response \<Rightarrow> http_response" where
  "set_header k v rp = rp\<lparr>hp_headers := AList.update k v (hp_headers rp)\<rparr>"

definition request_id_dispatch :: "string \<Rightarrow> (http_request \<Rightarrow> http_response) \<Rightarrow> http_request \<Rightarrow> http_response" where
  "request_id_dispatch fresh app rq = set_header ''X-Request-ID'' (env_default (hq_request_id rq) fresh) (app rq)"

definition SECURITY_HEADERS :: "(string \<times> string) list" where
  "SECURITY_HEADERS =
     [(''X-Content-Type-Options'', ''nosniff''), (''X-Frame-Options'', ''DENY''), (''X-XSS-Protection'', ''1; mode=block''),
      (''Referrer-Policy'', ''strict-origin-when-cross-origin''), (''Permissions-Policy'', ''camera=(), microphone=(), geolocation=()''),
      (''X-Download-Options'', ''noopen''), (''X-Permitted-Cross-Domain-Policies'', ''none'')]"

definition security_headers_dispatch :: "(http_request \<Rightarrow> http_response) \<Rightarrow> http_request \<Rightarrow> http_response" where
  "security_headers_dispatch app rq = fold (\<lambda>(k, v). set_header k v) SECURITY_HEADERS (app rq)"

definition request_timing_dispatch :: "string \<Rightarrow> (http_request \<Rightarrow> http_response) \<Rightarrow> http_request \<Rightarrow> http_response" where
  "request_timing_dispatch elapsed app rq = set_header ''X-Response-Time'' (elapsed @ ''ms'') (app rq)"

text \<open>The stack of \<^verbatim>\<open>api/app.py\<close>: the middleware added last is outermost.\<close>

definition guarded_app :: "(http_request \<Rightarrow> string) \<Rightarrow> limiter \<Rightarrow> string \<Rightarrow> string \<Rightarrow> (http_request \<Rightarrow> http_response) \<Rightarrow> http_request \<Rightarrow> clients
    \<Rightarrow> http_response \<times> clients" where
  "guarded_app ident lm elapsed fresh app =
     rate_limit_dispatch ident lm (security_headers_dispatch (request_timing_dispatch elapsed (request_id_dispatch fresh app)))"

fun limit_run :: "(http_request \<Rightarrow> string) \<Rightarrow> limiter \<Rightarrow> http_request list \<Rightarrow> clients \<Rightarrow> bool list" where
  "limit_run ident lm [] cs = []"
| "limit_run ident lm (rq # rqs) cs = (let (b, cs') = rate_limit ident lm rq cs in b # limit_run ident lm rqs cs')"

subsection \<open>How many requests pass\<close>

text \<open>The limited requests of one client that pass within \<open>[s, s + window]\<close>.\<close>

definition passed :: "(http_request \<Rightarrow> string) \<Rightarrow> limiter \<Rightarrow> string \<Rightarrow> rat \<Rightarrow> http_request list \<Rightarrow> bool list \<Rightarrow> nat" where
  "passed ident lm c s rqs bs = length (filter (\<lambda>(rq, b). b \<and> limited lm rq \<and> ident rq = c \<and> s \<le> hq_time rq \<and> hq_time rq \<le> s + lm_window lm) (zip rqs bs))"

definition passes_at_most :: "limiter \<Rightarrow> rat \<Rightarrow> rat \<Rightarrow> nat \<Rightarrow> (nat \<times> rat) option \<Rightarrow> bool" where
  "passes_at_most lm s t a entry \<longleftrightarrow>
     a \<le> 2 * lm_requests lm \<and> (t < s \<longrightarrow> a = 0) \<and>
     (case entry of
        None \<Rightarrow> a = 0
      | Some (n, start) \<Rightarrow> start \<le> t \<and>
          (start < s \<longrightarrow> a \<le> min n (lm_requests lm)) \<and>
          (s \<le> start \<and> start \<le> s + lm_window lm \<longrightarrow> a \<le> lm_requests lm + min n (lm_requests lm)))"

lemma count_request_passes:
  assumes "passes_at_most lm s t a entry" "t \<le> t'" "0 \<le> lm_window lm"
    and "a' = a + (if fst (count_request lm t' entry) \<le> lm_requests lm \<and> s \<le> t' \<and> t' \<le> s + lm_window lm then 1 else 0)"
  shows "passes_at_most lm s t' a' (Some (count_request lm t' entry))"
  using assms by (cases entry) (auto simp: passes_at_most_def count_request_def min_def split: if_splits)

lemma passes_later: "passes_at_most lm s t a entry \<Longrightarrow> t \<le> t' \<Longrightarrow> passes_at_most lm s t' a entry"
  by (auto simp: passes_at_most_def split: option.splits)

lemma passed_Cons:
  "passed ident lm c s (rq # rqs) (b # bs) =
     (if b \<and> limited lm rq \<and> ident rq = c \<and> s \<le> hq_time rq \<and> hq_time rq \<le> s + lm_window lm then 1 else 0) + passed ident lm c s rqs bs"
  by (simp add: passed_def)

lemma limit_run_passes:
  assumes "passes_at_most lm s t a (cs c)" "sorted (map hq_time rqs)" "\<forall>rq \<in> set rqs. t \<le> hq_time rq" "0 \<le> lm_window lm"
  shows "a + passed ident lm c s rqs (limit_run ident lm rqs cs) \<le> 2 * lm_requests lm"
  using assms
proof (induction rqs arbitrary: t a cs)
  case Nil
  then show ?case by (simp add: passed_def passes_at_most_def)
next
  case (Cons rq rqs)
  let ?t = "hq_time rq" and ?e = "count_request lm (hq_time rq) (cs (ident rq))"
  obtain b cs' where step: "rate_limit ident lm rq cs = (b, cs')" by fastforce
  have later: "\<forall>r \<in> set rqs. ?t \<le> hq_time r" "sorted (map hq_time rqs)" "t \<le> ?t" using Cons.prems by auto
  let ?a = "a + (if b \<and> limited lm rq \<and> ident rq = c \<and> s \<le> ?t \<and> ?t \<le> s + lm_window lm then 1 else 0)"
  have "passes_at_most lm s ?t ?a (cs' c)"
  proof (cases "limited lm rq \<and> ident rq = c")
    case True
    then have "cs' c = Some ?e" "b = (fst ?e \<le> lm_requests lm)" using step by (auto simp: rate_limit_def Let_def)
    then show ?thesis using True count_request_passes [OF Cons.prems(1) later(3) Cons.prems(4), of ?a] by simp
  next
    case False
    then have "cs' c = cs c" using step by (auto simp: rate_limit_def Let_def split: if_splits)
    then show ?thesis using False passes_later [OF Cons.prems(1) later(3)] by auto
  qed
  from Cons.IH [where cs = cs', OF this later(2,1) Cons.prems(4)] show ?case by (simp add: step passed_Cons)
qed

definition requests_of :: "(http_request \<Rightarrow> string) \<Rightarrow> limiter \<Rightarrow> string \<Rightarrow> http_request list \<Rightarrow> nat" where
  "requests_of ident lm c rqs = length (filter (\<lambda>rq. limited lm rq \<and> ident rq = c) rqs)"

lemma count_request_le: "fst (count_request lm t entry) \<le> Suc (case entry of None \<Rightarrow> 0 | Some (n, _) \<Rightarrow> n)"
  by (auto simp: count_request_def split: option.splits)

lemma limit_run_spares:
  assumes "(case cs c of None \<Rightarrow> 0 | Some (n, _) \<Rightarrow> n) + requests_of ident lm c rqs \<le> lm_requests lm" "i < length rqs" "ident (rqs ! i) = c"
  shows "limit_run ident lm rqs cs ! i"
  using assms
proof (induction rqs arbitrary: cs i)
  case (Cons rq rqs)
  obtain b cs' where step: "rate_limit ident lm rq cs = (b, cs')" by fastforce
  have le: "fst (count_request lm (hq_time rq) (cs (ident rq))) \<le> Suc (case cs (ident rq) of None \<Rightarrow> 0 | Some (n, _) \<Rightarrow> n)"
    by (rule count_request_le)
  show ?case
  proof (cases i)
    case 0
    then show ?thesis using step Cons.prems le by (auto simp: rate_limit_def Let_def requests_of_def split: if_splits)
  next
    case (Suc j)
    have "(case cs' c of None \<Rightarrow> 0 | Some (n, _) \<Rightarrow> n) + requests_of ident lm c rqs \<le> lm_requests lm"
      using step Cons.prems(1) le by (auto simp: rate_limit_def Let_def requests_of_def split: if_splits prod.splits)
    then show ?thesis using Cons.IH [of cs' j] Cons.prems Suc step by simp
  qed
qed simp

lemma limit_run_unlimited: "i < length rqs \<Longrightarrow> \<not> limited lm (rqs ! i) \<Longrightarrow> limit_run ident lm rqs cs ! i"
proof (induction rqs arbitrary: cs i)
  case (Cons rq rqs)
  then show ?case by (cases i) (auto simp: rate_limit_def Let_def split: prod.split)
qed simp

text \<open>
  C28. What the rate limiter lets through. For requests of any clients in the order of their times: in every interval of the
  length of the window at most twice the configured number of limited requests of one client reach the application; a
  client that sends at most the configured number is never refused, whatever the others send; and health checks, or
  all requests when the limiter is switched off, always pass.
\<close>

theorem http_rate_limit_bounds:
  assumes "sorted (map hq_time rqs)" "0 \<le> lm_window lm"
  shows "passed ident lm c s rqs (limit_run ident lm rqs Map.empty) \<le> 2 * lm_requests lm \<and>
    (i < length rqs \<and> requests_of ident lm (ident (rqs ! i)) rqs \<le> lm_requests lm \<longrightarrow> limit_run ident lm rqs Map.empty ! i) \<and>
    (i < length rqs \<and> \<not> limited lm (rqs ! i) \<longrightarrow> limit_run ident lm rqs Map.empty ! i)"
proof (intro conjI impI)
  have "passes_at_most lm s t 0 None" for t by (simp add: passes_at_most_def)
  then show "passed ident lm c s rqs (limit_run ident lm rqs Map.empty) \<le> 2 * lm_requests lm"
    using limit_run_passes [of lm s _ 0 Map.empty c rqs ident] assms by (cases rqs) (auto simp: passed_def)
qed (auto intro: limit_run_spares limit_run_unlimited)

text \<open>The identity of a client is the digest of an unverified token: with a new token for every request none is ever refused.\<close>

lemma rate_limit_evaded:
  assumes "distinct (map ident rqs)" "1 \<le> lm_requests lm" "i < length rqs"
  shows "limit_run ident lm rqs Map.empty ! i"
proof (rule limit_run_spares [where c = "ident (rqs ! i)"])
  have "distinct (map ident rs) \<Longrightarrow> requests_of ident lm k rs \<le> 1" for k rs
    by (induction rs) (auto simp: requests_of_def filter_empty_conv image_iff)
  then show "(case Map.empty (ident (rqs ! i)) of None \<Rightarrow> 0 | Some (n, _) \<Rightarrow> n) + requests_of ident lm (ident (rqs ! i)) rqs \<le> lm_requests lm"
    using assms(1,2) order_trans by fastforce
qed (use assms(3) in simp_all)

text \<open>Every answer of the application, of whatever status, leaves with the security headers; only the 429 of the limiter does not.\<close>

lemma security_headers_set:
  "list_all (\<lambda>(k, v). map_of (hp_headers (security_headers_dispatch app rq)) k = Some v) SECURITY_HEADERS"
  by (simp add: security_headers_dispatch_def SECURITY_HEADERS_def set_header_def update_conv')

definition demo_limiter :: limiter where
  "demo_limiter = \<lparr>lm_requests = 1, lm_window = 60, lm_enabled = None, lm_trust = None\<rparr>"

definition demo_call :: "string \<Rightarrow> rat \<Rightarrow> http_request" where
  "demo_call c t = \<lparr>hq_path = ''/api/v1/chat'', hq_authorization = None, hq_forwarded_for = None, hq_request_id = None, hq_client = Some c, hq_time = t\<rparr>"

theorem http_rate_limit_bounds_witness:
  "passed (rate_limit_identity id Some None) demo_limiter ''ip:a'' 0 [demo_call ''a'' 0, demo_call ''a'' 1, demo_call ''b'' 2]
     (limit_run (rate_limit_identity id Some None) demo_limiter [demo_call ''a'' 0, demo_call ''a'' 1, demo_call ''b'' 2] Map.empty) \<le> 2 \<and>
   limit_run (rate_limit_identity id Some None) demo_limiter [demo_call ''a'' 0, demo_call ''a'' 1, demo_call ''b'' 2] Map.empty ! 2"
proof -
  let ?rqs = "[demo_call ''a'' 0, demo_call ''a'' 1, demo_call ''b'' 2]" and ?id = "rate_limit_identity id Some None"
  have "sorted (map hq_time ?rqs)" "0 \<le> lm_window demo_limiter" by (simp_all add: demo_call_def demo_limiter_def)
  moreover have "requests_of ?id demo_limiter (?id (?rqs ! 2)) ?rqs = 1" by code_simp
  ultimately show ?thesis using http_rate_limit_bounds [of ?rqs demo_limiter ?id "''ip:a''" 0 2] by (simp add: demo_limiter_def)
qed

end
