(* ===== verification/Evaluation_Metrics.thy ===== *)
theory Evaluation_Metrics
  imports Http_Guard
begin

text \<open>
  The deterministic scores of \<^verbatim>\<open>evaluation/metrics.py\<close>, on a scale from 0 to 100.

  Floating-point results are exact rationals, rounded as the code rounds. \<open>disc r\<close> is \<open>1.0 / math.log2(r + 1)\<close>, the discount
  of rank \<open>r\<close>; what the bounds need of it is that it is positive and does not grow with the rank. Texts are strings of
  characters below code point 256.
\<close>

definition lowered :: "string \<Rightarrow> string" where
  "lowered s = map lower_char s"

definition normalise :: "string \<Rightarrow> string" where
  "normalise s = rstrip_slash (normal s)"

definition percent :: "rat \<Rightarrow> rat" where
  "percent x = py_round 1 (x * 100)"

text \<open>The F1 score of two sets, and 0 when they have nothing in common.\<close>

definition f1_of :: "'a set \<Rightarrow> 'a set \<Rightarrow> rat" where
  "f1_of found expected =
     (let matched = found \<inter> expected;
          recall = (if expected = {} then 0 else of_nat (card matched) / of_nat (card expected));
          precision = (if found = {} then 0 else of_nat (card matched) / of_nat (card found))
      in if matched \<noteq> {} then (if precision + recall > 0 then 2 * (precision * recall) / (precision + recall) else 0) else 0)"

text \<open>A source is the text of its \<open>url\<close>, else of its \<open>source\<close>.\<close>

definition retrieval_score :: "(string \<times> string) list \<Rightarrow> string list \<Rightarrow> rat" where
  "retrieval_score sources expected =
     (if expected = [] then 100
      else let urls = (\<lambda>x. rstrip_slash (lowered x)) ` {x \<in> (\<lambda>(url, src). if url \<noteq> [] then url else src) ` set sources. x \<noteq> []};
               wanted = normalise ` set expected
           in if wanted = {} then (if urls \<noteq> {} then 100 else 0) else percent (f1_of urls wanted))"

record ranked_metrics =
  rm_precision :: rat
  rm_recall :: rat
  rm_mrr :: rat
  rm_ndcg :: rat

definition nonblank_text :: "string \<Rightarrow> bool" where
  "nonblank_text s \<longleftrightarrow> strip s \<noteq> []"

text \<open>The loop over the ranking: the reciprocal rank of the first hit and the discounted gain of all hits.\<close>

fun rank_loop :: "(nat \<Rightarrow> rat) \<Rightarrow> string set \<Rightarrow> nat \<Rightarrow> string list \<Rightarrow> rat \<times> rat \<Rightarrow> rat \<times> rat" where
  "rank_loop disc expected rank [] acc = acc"
| "rank_loop disc expected rank (item # items) (rr, dcg) =
     rank_loop disc expected (Suc rank) items
       (if item \<in> expected then (if rr = 0 then 1 / of_nat rank else rr, dcg + disc rank) else (rr, dcg))"

definition ideal_dcg :: "(nat \<Rightarrow> rat) \<Rightarrow> nat \<Rightarrow> rat" where
  "ideal_dcg disc h = sum_list (map disc [1..<Suc h])"

definition ranked_retrieval_metrics :: "(nat \<Rightarrow> rat) \<Rightarrow> string list \<Rightarrow> string list \<Rightarrow> nat option \<Rightarrow> ranked_metrics" where
  "ranked_retrieval_metrics disc retrieved expected_ids k =
     (let expected = normalise ` {x \<in> set expected_ids. nonblank_text x} in
      if expected = {} then \<lparr>rm_precision = 100, rm_recall = 100, rm_mrr = 100, rm_ndcg = 100\<rparr>
      else let cutoff = (case k of Some n \<Rightarrow> if n = 0 then length retrieved else n | None \<Rightarrow> length retrieved);
               ranked = map normalise (filter nonblank_text (take cutoff retrieved));
               matched = filter (\<lambda>x. x \<in> expected) ranked;
               precision = (if ranked = [] then 0 else of_nat (length matched) / of_nat (length ranked));
               recall = of_nat (card (set matched)) / of_nat (card expected);
               (rr, dcg) = rank_loop disc expected 1 ranked (0, 0);
               ideal = ideal_dcg disc (min (card expected) cutoff)
           in \<lparr>rm_precision = percent precision, rm_recall = percent recall, rm_mrr = percent rr,
               rm_ndcg = percent (if ideal = 0 then 0 else dcg / ideal)\<rparr>)"

definition categorical_match_score :: "string option \<Rightarrow> string option \<Rightarrow> rat" where
  "categorical_match_score actual expected =
     (if env_default expected [] = [] then 100
      else if env_default actual [] = [] then 0
      else if normalise (env_default actual []) = normalise (env_default expected []) then 100 else 0)"

definition claim_coverage_score :: "string \<Rightarrow> string list \<Rightarrow> rat" where
  "claim_coverage_score answer claims =
     (if claims = [] then 100
      else py_round 1 (of_nat (length (filter (\<lambda>c. sublist (lowered c) (lowered answer)) claims)) / of_nat (length claims) * 100))"

definition tool_selection_score :: "string list \<Rightarrow> string list \<Rightarrow> rat" where
  "tool_selection_score used expected =
     (if expected = [] then 100 else percent (f1_of (normal ` set used) (normal ` set expected)))"

text \<open>\<open>s.split()\<close>\<close>

fun split_words :: "string \<Rightarrow> string \<Rightarrow> string list" where
  "split_words cur [] = (if cur = [] then [] else [cur])"
| "split_words cur (c # cs) =
     (if py_space c then (if cur = [] then split_words [] cs else cur # split_words [] cs) else split_words (cur @ [c]) cs)"

definition criterion_score :: "string \<Rightarrow> string \<Rightarrow> rat" where
  "criterion_score answer criterion =
     (if sublist (lowered criterion) answer then 1
      else if \<exists>kw \<in> set (split_words [] (map (\<lambda>c. if c = CHR ''_'' then CHR '' '' else c) (lowered criterion))). sublist kw answer then 1 / 2
      else 0)"

definition FALLBACK_MARKERS :: "string list" where
  "FALLBACK_MARKERS = [''unable to process'', ''fallback'', ''not available'', ''cannot process'', ''error'']"

definition answer_quality_score :: "string \<Rightarrow> string list \<Rightarrow> rat" where
  "answer_quality_score answer criteria =
     (if strip answer = [] then 0
      else let a = lowered answer;
               s1 = (if 20 \<le> length answer then 1 else if 10 \<le> length answer then 1 / 2 else 0);
               s2 = (if 100 \<le> length answer then 1 else if 50 \<le> length answer then 1 / 2 else 0);
               covered = sum_list (map (criterion_score a) criteria);
               s3 = min (if criteria = [] then 1 else covered / of_nat (length criteria)) 1;
               s4 = (if \<exists>m \<in> set FALLBACK_MARKERS. sublist m a then 0 else 1)
           in py_round 1 ((s1 + s2 + s3 + s4) / 4 * 100))"

definition HALLUCINATION_MARKERS :: "string list" where
  "HALLUCINATION_MARKERS = [''guaranteed return'', ''risk-free'', ''insider information'', ''secret deal'', ''confidential source'',
     ''100% guaranteed'', ''perfect prediction'']"

definition hallucination_score :: "string \<Rightarrow> bool \<Rightarrow> string list \<Rightarrow> rat" where
  "hallucination_score answer has_sources companies =
     (if strip answer = [] then 100
      else let a = lowered answer;
               s = 100 - 10 * of_nat (length (filter (\<lambda>m. sublist m a) HALLUCINATION_MARKERS));
               s = (if has_sources then min (s + 5) 100 else s);
               s = (if \<exists>c \<in> set companies. sublist (lowered c) a then min (s + 5) 100 else s)
           in py_round 1 (max s 0))"

definition calculate_overall_score :: "rat \<Rightarrow> rat \<Rightarrow> rat \<Rightarrow> rat \<Rightarrow> rat" where
  "calculate_overall_score retrieval tool quality hallucination =
     py_round 1 (retrieval * (25 / 100) + tool * (20 / 100) + quality * (35 / 100) + hallucination * (20 / 100))"

subsection \<open>Bounds\<close>

lemma py_round_between:
  assumes "of_int a \<le> x" "x \<le> of_int b"
  shows "of_int a \<le> py_round n x" "py_round n x \<le> of_int b"
proof -
  let ?y = "x * 10 ^ n"
  have y: "of_int (a * 10 ^ n) \<le> ?y" "?y \<le> of_int (b * 10 ^ n)" using assms by (simp_all add: mult_right_mono)
  have f: "a * 10 ^ n \<le> \<lfloor>?y\<rfloor>" "\<lfloor>?y\<rfloor> \<le> b * 10 ^ n" using floor_mono [OF y(1)] floor_mono [OF y(2)] by (simp_all only: floor_of_int)
  have up: "\<lfloor>?y\<rfloor> + 1 \<le> b * 10 ^ n" if "0 < ?y - of_int \<lfloor>?y\<rfloor>"
  proof -
    have "(of_int \<lfloor>?y\<rfloor> :: rat) < of_int (b * 10 ^ n)" using that y(2) by linarith
    then show ?thesis by (simp only: of_int_less_iff)
  qed
  define g where "g = (if ?y - of_int \<lfloor>?y\<rfloor> < 1 / 2 then \<lfloor>?y\<rfloor> else if ?y - of_int \<lfloor>?y\<rfloor> > 1 / 2 then \<lfloor>?y\<rfloor> + 1
      else if even \<lfloor>?y\<rfloor> then \<lfloor>?y\<rfloor> else \<lfloor>?y\<rfloor> + 1)"
  have g: "a * 10 ^ n \<le> g" "g \<le> b * 10 ^ n" using f up by (auto simp: g_def)
  have "(of_int (a * 10 ^ n) :: rat) \<le> of_int g" "(of_int g :: rat) \<le> of_int (b * 10 ^ n)" using g by (simp_all only: of_int_le_iff)
  moreover have "py_round n x = of_int g / 10 ^ n" by (simp only: py_round_def Let_def g_def)
  ultimately show "of_int a \<le> py_round n x" "py_round n x \<le> of_int b" by (simp_all add: pos_le_divide_eq pos_divide_le_eq)
qed

definition score :: "rat \<Rightarrow> bool" where
  "score x \<longleftrightarrow> 0 \<le> x \<and> x \<le> 100"

lemma score_round: "0 \<le> x \<Longrightarrow> x \<le> 100 \<Longrightarrow> score (py_round n x)"
  using py_round_between [of 0 x 100 n] by (simp add: score_def)

lemma score_percent: "0 \<le> x \<Longrightarrow> x \<le> 1 \<Longrightarrow> score (percent x)"
  unfolding percent_def by (rule score_round) simp_all

lemma f1_bounds:
  assumes "finite found" "finite expected"
  shows "0 \<le> f1_of found expected" "f1_of found expected \<le> 1"
proof -
  let ?m = "found \<inter> expected"
  have ratio: "0 \<le> (of_nat (card ?m) / of_nat (card S) :: rat)" "(of_nat (card ?m) / of_nat (card S) :: rat) \<le> 1"
    if "?m \<subseteq> S" "finite S" for S
    using card_mono [OF that(2,1)] by (auto simp: divide_le_eq_1)
  define p q :: rat where "p = of_nat (card ?m) / of_nat (card found)" and "q = of_nat (card ?m) / of_nat (card expected)"
  have b: "0 \<le> p" "p \<le> 1" "0 \<le> q" "q \<le> 1" using ratio assms by (auto simp: p_def q_def)
  have "2 * (p * q) \<le> p + q" using mult_left_le [OF b(4,1)] mult_left_le [OF b(2,3)] by (simp add: mult.commute)
  then have le: "2 * (p * q) / (p + q) \<le> 1" if "p + q > 0" using that by (simp add: divide_le_eq_1)
  have "f1_of found expected = (if ?m \<noteq> {} \<and> p + q > 0 then 2 * (p * q) / (p + q) else 0)"
    by (auto simp: f1_of_def Let_def p_def q_def)
  then show "f1_of found expected \<le> 1" "0 \<le> f1_of found expected" using le b by auto
qed

definition discount :: "(nat \<Rightarrow> rat) \<Rightarrow> bool" where
  "discount disc \<longleftrightarrow> (\<forall>r \<ge> 1. 0 < disc r \<and> disc (Suc r) \<le> disc r)"

lemma discount_mono: "discount disc \<Longrightarrow> 1 \<le> m \<Longrightarrow> m \<le> n \<Longrightarrow> disc n \<le> disc m"
  by (induction n) (auto simp: discount_def le_Suc_eq intro: order_trans)

lemma rank_loop_bounds:
  assumes "discount disc" "1 \<le> rank" "Suc c \<le> rank" "0 \<le> rr" "rr \<le> 1" "0 \<le> dcg"
  shows "let (rr', dcg') = rank_loop disc expected rank items (rr, dcg); h = length (filter (\<lambda>x. x \<in> expected) items) in
    0 \<le> rr' \<and> rr' \<le> 1 \<and> 0 \<le> dcg' \<and> dcg' \<le> dcg + sum_list (map disc [Suc c..<Suc c + h])"
  using assms
proof (induction items arbitrary: rank c rr dcg)
  case (Cons item items)
  show ?case
  proof (cases "item \<in> expected")
    case True
    let ?rr = "if rr = 0 then 1 / of_nat rank else rr"
    let ?h = "length (filter (\<lambda>x. x \<in> expected) items)"
    have rr: "0 \<le> ?rr" "?rr \<le> 1" using Cons.prems by (simp_all add: divide_le_eq_1)
    have d: "disc rank \<le> disc (Suc c)" "0 < disc rank" using discount_mono [OF Cons.prems(1)] Cons.prems by (simp_all add: discount_def)
    have "sum_list (map disc [Suc c..<Suc c + Suc ?h]) = disc (Suc c) + sum_list (map disc [Suc (Suc c)..<Suc (Suc c) + ?h])"
      by (simp add: upt_conv_Cons del: upt_Suc)
    moreover have "let (rr', dcg') = rank_loop disc expected (Suc rank) items (?rr, dcg + disc rank) in
      0 \<le> rr' \<and> rr' \<le> 1 \<and> 0 \<le> dcg' \<and> dcg' \<le> dcg + disc rank + sum_list (map disc [Suc (Suc c)..<Suc (Suc c) + ?h])"
      using Cons.IH [OF Cons.prems(1), of "Suc rank" "Suc c" ?rr "dcg + disc rank"] Cons.prems rr d by (simp add: Let_def)
    ultimately show ?thesis using True d by (auto simp: Let_def split: prod.splits)
  next
    case False
    then show ?thesis using Cons.IH [OF Cons.prems(1), of "Suc rank" c rr dcg] Cons.prems by simp
  qed
qed simp

text \<open>Without repetitions the ranking has at most as many hits as an ideal one, so the gain stays below the ideal gain.\<close>

lemma ideal_dcg_mono: "discount disc \<Longrightarrow> m \<le> n \<Longrightarrow> ideal_dcg disc m \<le> ideal_dcg disc n"
proof (induction n)
  case (Suc n)
  have "ideal_dcg disc (Suc n) = ideal_dcg disc n + disc (Suc n)" by (simp add: ideal_dcg_def)
  moreover have "0 < disc (Suc n)" using Suc.prems(1) by (simp add: discount_def)
  ultimately show ?case using Suc by (auto simp: le_Suc_eq)
qed simp

lemma ideal_dcg_nonneg: "discount disc \<Longrightarrow> 0 \<le> ideal_dcg disc n"
  using ideal_dcg_mono [of disc 0 n] by (simp add: ideal_dcg_def)

definition ranked_ids :: "string list \<Rightarrow> nat option \<Rightarrow> string list" where
  "ranked_ids retrieved k = map normalise (filter nonblank_text
     (take (case k of Some n \<Rightarrow> if n = 0 then length retrieved else n | None \<Rightarrow> length retrieved) retrieved))"

lemma ranking_bounds:
  fixes retrieved k disc expected
  defines "ranked \<equiv> ranked_ids retrieved k"
  assumes d: "discount disc" and fin: "finite expected"
  shows "0 \<le> fst (rank_loop disc expected 1 ranked (0, 0))" "fst (rank_loop disc expected 1 ranked (0, 0)) \<le> 1"
    and "0 \<le> snd (rank_loop disc expected 1 ranked (0, 0))"
    and "snd (rank_loop disc expected 1 ranked (0, 0)) \<le> ideal_dcg disc (length (filter (\<lambda>x. x \<in> expected) ranked))"
  using rank_loop_bounds [OF d, of 1 0 0 0 expected ranked] by (simp_all add: Let_def ideal_dcg_def case_prod_beta del: upt_Suc)

lemma distinct_hits:
  assumes "distinct xs" "finite S"
  shows "length (filter (\<lambda>x. x \<in> S) xs) \<le> card S"
proof -
  have "length (filter (\<lambda>x. x \<in> S) xs) = card (set (filter (\<lambda>x. x \<in> S) xs))" using assms(1) by (intro distinct_card [symmetric]) simp
  also have "\<dots> \<le> card S" using assms(2) by (intro card_mono) auto
  finally show ?thesis .
qed

lemma ranked_scores:
  assumes d: "discount disc"
  shows "score (rm_precision (ranked_retrieval_metrics disc retrieved expected_ids k))"
    "score (rm_recall (ranked_retrieval_metrics disc retrieved expected_ids k))"
    "score (rm_mrr (ranked_retrieval_metrics disc retrieved expected_ids k))"
    "distinct (ranked_ids retrieved k) \<Longrightarrow> score (rm_ndcg (ranked_retrieval_metrics disc retrieved expected_ids k))"
proof -
  define expected where "expected = normalise ` {x \<in> set expected_ids. nonblank_text x}"
  define cutoff where "cutoff = (case k of Some n \<Rightarrow> if n = 0 then length retrieved else n | None \<Rightarrow> length retrieved)"
  define ranked where "ranked = ranked_ids retrieved k"
  define hits where "hits = filter (\<lambda>x. x \<in> expected) ranked"
  let ?L = "rank_loop disc expected 1 ranked (0, 0)"
  let ?I = "ideal_dcg disc (min (card expected) cutoff)"
  have fin: "finite expected" by (simp add: expected_def)
  have r: "ranked = map normalise (filter nonblank_text (take cutoff retrieved))" by (simp add: ranked_def ranked_ids_def cutoff_def)
  have m: "ranked_retrieval_metrics disc retrieved expected_ids k =
    (if expected = {} then \<lparr>rm_precision = 100, rm_recall = 100, rm_mrr = 100, rm_ndcg = 100\<rparr>
     else \<lparr>rm_precision = percent (if ranked = [] then 0 else of_nat (length hits) / of_nat (length ranked)),
       rm_recall = percent (of_nat (card (set hits)) / of_nat (card expected)), rm_mrr = percent (fst ?L),
       rm_ndcg = percent (if ?I = 0 then 0 else snd ?L / ?I)\<rparr>)"
    by (simp only: ranked_retrieval_metrics_def Let_def expected_def [symmetric] cutoff_def [symmetric] r [symmetric] hits_def [symmetric] case_prod_beta)
  note lb = ranking_bounds [OF d fin, of retrieved k, folded ranked_def]
  have hl: "length hits \<le> length ranked" by (simp add: hits_def)
  have hc: "card (set hits) \<le> card expected" using fin by (intro card_mono) (auto simp: hits_def)
  have s100: "score 100" by (simp add: score_def)
  show "score (rm_precision (ranked_retrieval_metrics disc retrieved expected_ids k))"
    unfolding m using hl s100 by (auto intro!: score_percent simp: divide_le_eq_1)
  show "score (rm_recall (ranked_retrieval_metrics disc retrieved expected_ids k))"
    unfolding m using hc s100 by (auto intro!: score_percent simp: divide_le_eq_1)
  show "score (rm_mrr (ranked_retrieval_metrics disc retrieved expected_ids k))"
    unfolding m using lb(1,2) s100 by (auto intro!: score_percent)
  assume dist: "distinct (ranked_ids retrieved k)"
  have "length hits \<le> card expected" using distinct_hits [OF _ fin] dist by (simp add: hits_def ranked_def)
  moreover have "length hits \<le> cutoff"
    using hl r length_filter_le [of nonblank_text "take cutoff retrieved"] by simp
  ultimately have "snd ?L \<le> ?I" using lb(4) ideal_dcg_mono [OF d, of "length hits" "min (card expected) cutoff"] by (simp add: hits_def)
  then have "0 \<le> (if ?I = 0 then 0 else snd ?L / ?I)" "(if ?I = 0 then 0 else snd ?L / ?I) \<le> 1"
    using lb(3) ideal_dcg_nonneg [OF d, of "min (card expected) cutoff"] by (auto simp: divide_le_eq_1)
  then show "score (rm_ndcg (ranked_retrieval_metrics disc retrieved expected_ids k))"
    unfolding m using s100 by (auto intro: score_percent)
qed

text \<open>The scores of an answer.\<close>

lemma criteria_bounds:
  "0 \<le> sum_list (map (criterion_score a) criteria)" "sum_list (map (criterion_score a) criteria) \<le> of_nat (length criteria)"
  by (induction criteria) (auto simp: criterion_score_def)

lemma answer_scores:
  "score (retrieval_score sources expected)" "score (tool_selection_score used tools_wanted)" "score (categorical_match_score actual wanted)"
  "score (claim_coverage_score answer claims)" "score (answer_quality_score answer criteria)" "score (hallucination_score answer has companies)"
proof -
  show "score (retrieval_score sources expected)"
    by (auto simp: retrieval_score_def Let_def score_def [of 0] score_def [of 100] intro!: score_percent f1_bounds)
  show "score (tool_selection_score used tools_wanted)"
    by (auto simp: tool_selection_score_def score_def [of 0] score_def [of 100] intro!: score_percent f1_bounds)
  show "score (categorical_match_score actual wanted)" by (simp add: categorical_match_score_def score_def)
  show "score (claim_coverage_score answer claims)"
    by (auto simp: claim_coverage_score_def score_def [of 100] pos_divide_le_eq intro!: score_round)
  show "score (hallucination_score answer has companies)"
    by (auto simp: hallucination_score_def Let_def score_def [of 100] intro!: score_round)
  have "0 \<le> min (if criteria = [] then 1 else sum_list (map (criterion_score a) criteria) / of_nat (length criteria)) 1" for a
    using criteria_bounds(1) [of a criteria] by simp
  then show "score (answer_quality_score answer criteria)"
    by (auto simp: answer_quality_score_def Let_def score_def [of 0] intro!: score_round)
qed

lemma overall_score:
  "score a \<Longrightarrow> score b \<Longrightarrow> score c \<Longrightarrow> score d \<Longrightarrow> score (calculate_overall_score a b c d)"
  unfolding calculate_overall_score_def by (rule score_round) (auto simp: score_def)

text \<open>
  A repeated hit is counted twice by the gain and once by the ideal gain, so without the condition the last score can exceed 100.
\<close>

lemma ndcg_of_repetitions:
  "rm_ndcg (ranked_retrieval_metrics (\<lambda>r. 1 / of_nat r) [''a'', ''a''] [''a''] None) = 150"
  by code_simp

subsection \<open>Properties\<close>

text \<open>Every score is between 0 and 100, rounding included, for all inputs: precision, recall and the reciprocal rank of a ranking
  against a golden set; its discounted gain when no identifier is retrieved twice; the F1 scores of sources and of tools; the
  agreement of a contract field, the coverage of claims, the quality and the hallucination score of an answer; and the
  weighted overall score of four scores. Of the discount it is only used that it is positive and does not grow with the rank.
\<close>

theorem evaluation_scores_bounded:
  assumes "discount disc"
  shows "score (rm_precision (ranked_retrieval_metrics disc retrieved expected_ids k))"
    and "score (rm_recall (ranked_retrieval_metrics disc retrieved expected_ids k))"
    and "score (rm_mrr (ranked_retrieval_metrics disc retrieved expected_ids k))"
    and "distinct (ranked_ids retrieved k) \<Longrightarrow> score (rm_ndcg (ranked_retrieval_metrics disc retrieved expected_ids k))"
    and "score (calculate_overall_score (retrieval_score sources expected) (tool_selection_score used tools_wanted)
           (answer_quality_score answer criteria) (hallucination_score answer has companies))"
    and "score (categorical_match_score actual wanted)" and "score (claim_coverage_score answer claims)"
  using ranked_scores [OF assms] overall_score answer_scores by simp_all

lemma evaluation_scores_bounded_witness:
  "distinct (ranked_ids [''c2'', ''C1/'', ''c9''] (Some 2)) \<and>
   score (rm_ndcg (ranked_retrieval_metrics (\<lambda>r. 1 / of_nat r) [''c2'', ''C1/'', ''c9''] [''c1'', ''c3''] (Some 2))) \<and>
   rm_ndcg (ranked_retrieval_metrics (\<lambda>r. 1 / of_nat r) [''c2'', ''C1/'', ''c9''] [''c1'', ''c3''] (Some 2)) = 333 / 10"
proof -
  have d: "discount (\<lambda>r. 1 / of_nat r)" by (simp add: discount_def frac_le)
  have "distinct (ranked_ids [''c2'', ''C1/'', ''c9''] (Some 2))" by code_simp
  moreover have "rm_ndcg (ranked_retrieval_metrics (\<lambda>r. 1 / of_nat r) [''c2'', ''C1/'', ''c9''] [''c1'', ''c3''] (Some 2)) = 333 / 10"
    by code_simp
  ultimately show ?thesis using evaluation_scores_bounded(4) [OF d] by blast
qed

end
