(* ===== verification/Retrieval_Dataset.thy ===== *)
theory Retrieval_Dataset
  imports Evaluation_Metrics Agent_Runtime
begin

text \<open>
  The dataset contract of the retrieval gate, \<^verbatim>\<open>evaluation/retrieval_dataset.py\<close>: from the decoded JSON value of the file
  to a dataset, or to the first violation in the order of the code.

  Reading and decoding the file are outside the model. \<open>u\<close> is the Unicode database, of which only \<open>casefold\<close> is used here.
\<close>

definition RETRIEVAL_DATASET_SCHEMA_VERSION :: string where
  "RETRIEVAL_DATASET_SCHEMA_VERSION = ''1.0''"

definition dataset_error :: "string \<Rightarrow> exn" where
  "dataset_error m = Exn ''RetrievalDatasetValidationError'' m"

type_synonym string_map = "(string \<times> string) list"

record corpus_document =
  cd_document :: string
  cd_chunk :: string
  cd_tenant :: int
  cd_company :: string
  cd_source :: string
  cd_page :: json
  cd_content :: string
  cd_metadata :: string_map

record evaluation_case =
  ec_id :: string
  ec_query :: string
  ec_tenant :: int
  ec_top_k :: int
  ec_relevant :: "string list"
  ec_sources :: "string list"
  ec_company :: "string option"
  ec_documents :: "string list"
  ec_filters :: string_map
  ec_public :: bool
  ec_forbidden :: "string list"
  ec_scenario :: "string option"

record gate_thresholds =
  gt_recall :: rat
  gt_mrr :: rat
  gt_ndcg :: rat
  gt_citation :: rat
  gt_leaks :: int

record evaluation_dataset =
  ds_schema :: string
  ds_id :: string
  ds_seed :: int
  ds_description :: string
  ds_thresholds :: gate_thresholds
  ds_corpus :: "corpus_document list"
  ds_cases :: "evaluation_case list"

subsection \<open>Fields\<close>

definition required_string :: "obj \<Rightarrow> string \<Rightarrow> string \<Rightarrow> exn + string" where
  "required_string ob key loc =
     (let item = get_or ob key JNull in
      if nonblank item then Inr (stripped item) else Inl (dataset_error (loc @ ''.'' @ key @ '' must be a non-empty string'')))"

definition string_sequence :: "json \<Rightarrow> string \<Rightarrow> exn + string list" where
  "string_sequence v loc = (case v of
      JArr items \<Rightarrow>
        if \<not> list_all nonblank items then Inl (dataset_error (loc @ '' must contain non-empty strings''))
        else let ns = map stripped items in
             if distinct ns then Inr ns else Inl (dataset_error (loc @ '' must not contain duplicates''))
    | _ \<Rightarrow> Inl (dataset_error (loc @ '' must be an array'')))"

fun mapping_items :: "string \<Rightarrow> string_map \<Rightarrow> obj \<Rightarrow> exn + string_map" where
  "mapping_items loc acc [] = Inr acc"
| "mapping_items loc acc ((k, v) # items) =
     (if strip k = [] then Inl (dataset_error (loc @ '' keys must be non-empty strings''))
      else case v of
        JStr s \<Rightarrow> mapping_items loc (AList.update (strip k) s acc) items
      | _ \<Rightarrow> Inl (dataset_error (loc @ ''.'' @ k @ '' must be a string'')))"

definition string_mapping :: "json \<Rightarrow> string \<Rightarrow> exn + string_map" where
  "string_mapping v loc = (case v of
      JObj items \<Rightarrow> mapping_items loc [] items
    | _ \<Rightarrow> Inl (dataset_error (loc @ '' must be an object'')))"

definition percentage :: "obj \<Rightarrow> string \<Rightarrow> exn + rat" where
  "percentage ob key =
     (let item = get_or ob key JNull; range_error = dataset_error (''dataset.thresholds.'' @ key @ '' must be between 0 and 100'') in
      if \<not> numeric item then Inl (dataset_error (''dataset.thresholds.'' @ key @ '' must be numeric''))
      else try_then (float_of item) (\<lambda>f. case f of
          Fin x \<Rightarrow> if 0 \<le> x \<and> x \<le> 100 then Inr x else Inl range_error
        | _ \<Rightarrow> Inl range_error))"

definition positive_integer :: "obj \<Rightarrow> string \<Rightarrow> string \<Rightarrow> exn + int" where
  "positive_integer ob key loc = (case get_or ob key JNull of
      JInt i \<Rightarrow> if 1 \<le> i then Inr i else Inl (dataset_error (loc @ ''.'' @ key @ '' must be a positive integer''))
    | _ \<Rightarrow> Inl (dataset_error (loc @ ''.'' @ key @ '' must be a positive integer'')))"

definition non_negative_integer :: "obj \<Rightarrow> string \<Rightarrow> string \<Rightarrow> exn + int" where
  "non_negative_integer ob key loc = (case get_or ob key JNull of
      JInt i \<Rightarrow> if 0 \<le> i then Inr i else Inl (dataset_error (loc @ ''.'' @ key @ '' must be a non-negative integer''))
    | _ \<Rightarrow> Inl (dataset_error (loc @ ''.'' @ key @ '' must be a non-negative integer'')))"

text \<open>An optional text that must not be blank; \<open>null\<close> and a missing key are the same.\<close>

definition optional_text :: "obj \<Rightarrow> string \<Rightarrow> string \<Rightarrow> exn + string option" where
  "optional_text ob key loc =
     (let item = get_or ob key JNull in
      if item = JNull then Inr None
      else if nonblank item then Inr (Some (stripped item))
      else Inl (dataset_error (loc @ ''.'' @ key @ '' must be a non-empty string when provided'')))"

subsection \<open>Thresholds, corpus and cases\<close>

definition parse_thresholds :: "json \<Rightarrow> exn + gate_thresholds" where
  "parse_thresholds v = (case v of
      JObj ob \<Rightarrow>
        try_then (percentage ob ''recall_at_k'') (\<lambda>r.
        try_then (percentage ob ''mrr'') (\<lambda>m.
        try_then (percentage ob ''ndcg'') (\<lambda>n.
        try_then (percentage ob ''citation_source_match'') (\<lambda>c.
        try_then (non_negative_integer ob ''maximum_tenant_leaks'' ''dataset.thresholds'') (\<lambda>l.
          Inr \<lparr>gt_recall = r, gt_mrr = m, gt_ndcg = n, gt_citation = c, gt_leaks = l\<rparr>)))))
    | _ \<Rightarrow> Inl (dataset_error ''dataset.thresholds must be an object''))"

fun page_given :: "json \<Rightarrow> bool" where
  "page_given (JInt _) = True"
| "page_given (JStr _) = True"
| "page_given _ = False"

definition corpus_item :: "string \<Rightarrow> string list \<Rightarrow> json \<Rightarrow> exn + corpus_document" where
  "corpus_item loc seen item = (case item of
      JObj ob \<Rightarrow>
        try_then (required_string ob ''chunk_id'' loc) (\<lambda>chunk.
          if chunk \<in> set seen then Inl (dataset_error (''duplicate corpus chunk_id: '' @ chunk))
          else try_then (non_negative_integer ob ''tenant_id'' loc) (\<lambda>tid.
          if \<not> page_given (get_or ob ''page'' JNull) then Inl (dataset_error (loc @ ''.page must be an integer or string''))
          else try_then (required_string ob ''document_id'' loc) (\<lambda>doc.
          try_then (required_string ob ''company'' loc) (\<lambda>co.
          try_then (required_string ob ''source_filename'' loc) (\<lambda>src.
          try_then (required_string ob ''content'' loc) (\<lambda>content.
          try_then (string_mapping (get_or ob ''metadata'' (JObj [])) (loc @ ''.metadata'')) (\<lambda>meta.
            Inr \<lparr>cd_document = doc, cd_chunk = chunk, cd_tenant = tid, cd_company = co, cd_source = src,
                 cd_page = get_or ob ''page'' JNull, cd_content = content, cd_metadata = meta\<rparr>)))))))
    | _ \<Rightarrow> Inl (dataset_error (loc @ '' must be an object'')))"

definition location :: "string \<Rightarrow> nat \<Rightarrow> string" where
  "location name i = name @ ''['' @ str_nat i @ '']''"

fun corpus_items :: "nat \<Rightarrow> string list \<Rightarrow> json list \<Rightarrow> exn + corpus_document list" where
  "corpus_items i seen [] = Inr []"
| "corpus_items i seen (item # items) =
     try_then (corpus_item (location ''corpus'' i) seen item) (\<lambda>d.
     try_then (corpus_items (Suc i) (cd_chunk d # seen) items) (\<lambda>ds. Inr (d # ds)))"

definition parse_corpus :: "json \<Rightarrow> exn + corpus_document list" where
  "parse_corpus v = (case v of
      JArr (x # xs) \<Rightarrow> corpus_items 0 [] (x # xs)
    | _ \<Rightarrow> Inl (dataset_error ''dataset.corpus must be a non-empty array''))"

definition case_item :: "string \<Rightarrow> string list \<Rightarrow> json \<Rightarrow> exn + evaluation_case" where
  "case_item loc seen item = (case item of
      JObj ob \<Rightarrow>
        try_then (required_string ob ''id'' loc) (\<lambda>cid.
          if cid \<in> set seen then Inl (dataset_error (''duplicate evaluation case id: '' @ cid))
          else try_then (positive_integer ob ''top_k'' loc) (\<lambda>k.
          if k > 20 then Inl (dataset_error (loc @ ''.top_k must not exceed the RetrievalTool limit of 20''))
          else try_then (case get_or ob ''include_public'' (JBool False) of
              JBool b \<Rightarrow> Inr b | _ \<Rightarrow> Inl (dataset_error (loc @ ''.include_public must be a boolean''))) (\<lambda>pub.
          try_then (optional_text ob ''company'' loc) (\<lambda>co.
          try_then (optional_text ob ''scenario'' loc) (\<lambda>scen.
          try_then (required_string ob ''query'' loc) (\<lambda>q.
          try_then (non_negative_integer ob ''tenant_id'' loc) (\<lambda>tid.
          try_then (string_sequence (get_or ob ''expected_relevant_ids'' JNull) (loc @ ''.expected_relevant_ids'')) (\<lambda>rel.
          try_then (string_sequence (get_or ob ''expected_sources'' JNull) (loc @ ''.expected_sources'')) (\<lambda>srcs.
          try_then (string_sequence (get_or ob ''document_ids'' (JArr [])) (loc @ ''.document_ids'')) (\<lambda>docs.
          try_then (string_mapping (get_or ob ''filters'' (JObj [])) (loc @ ''.filters'')) (\<lambda>fs.
          try_then (string_sequence (get_or ob ''forbidden_chunk_ids'' (JArr [])) (loc @ ''.forbidden_chunk_ids'')) (\<lambda>forb.
            Inr \<lparr>ec_id = cid, ec_query = q, ec_tenant = tid, ec_top_k = k, ec_relevant = rel, ec_sources = srcs,
                 ec_company = co, ec_documents = docs, ec_filters = fs, ec_public = pub, ec_forbidden = forb,
                 ec_scenario = scen\<rparr>))))))))))))
    | _ \<Rightarrow> Inl (dataset_error (loc @ '' must be an object'')))"

fun case_items :: "nat \<Rightarrow> string list \<Rightarrow> json list \<Rightarrow> exn + evaluation_case list" where
  "case_items i seen [] = Inr []"
| "case_items i seen (item # items) =
     try_then (case_item (location ''cases'' i) seen item) (\<lambda>c.
     try_then (case_items (Suc i) (ec_id c # seen) items) (\<lambda>cs. Inr (c # cs)))"

definition parse_cases :: "json \<Rightarrow> exn + evaluation_case list" where
  "parse_cases v = (case v of
      JArr (x # xs) \<Rightarrow> case_items 0 [] (x # xs)
    | _ \<Rightarrow> Inl (dataset_error ''dataset.cases must be a non-empty array''))"

text \<open>\<open>sorted(set(xs) - known)\<close>, an error when there is anything in it.\<close>

definition reject_unknown :: "string \<Rightarrow> string \<Rightarrow> (string \<Rightarrow> bool) \<Rightarrow> string list \<Rightarrow> exn + unit" where
  "reject_unknown cid what known xs =
     (let unknown = sort (remdups (filter (\<lambda>x. \<not> known x) xs)) in
      if unknown = [] then Inr ()
      else Inl (dataset_error (''case '' @ quoted cid @ '' references unknown '' @ what @ '': '' @ repr_list unknown)))"

definition check_case :: "unicode \<Rightarrow> corpus_document list \<Rightarrow> evaluation_case \<Rightarrow> exn + unit" where
  "check_case u corpus c =
     try_then (reject_unknown (ec_id c) ''relevant chunks'' (\<lambda>x. x \<in> set (map cd_chunk corpus)) (ec_relevant c)) (\<lambda>_.
     try_then (reject_unknown (ec_id c) ''forbidden chunks'' (\<lambda>x. x \<in> set (map cd_chunk corpus)) (ec_forbidden c)) (\<lambda>_.
     try_then (reject_unknown (ec_id c) ''document_ids'' (\<lambda>x. x \<in> set (map cd_document corpus)) (ec_documents c)) (\<lambda>_.
     reject_unknown (ec_id c) ''sources'' (\<lambda>x. casefold u (cps x) \<in> (casefold u \<circ> cps) ` set (map cd_source corpus)) (ec_sources c))))"

definition validate_references :: "unicode \<Rightarrow> corpus_document list \<Rightarrow> evaluation_case list \<Rightarrow> exn + unit list" where
  "validate_references u corpus cases = try_map (check_case u corpus) cases"

definition load_retrieval_dataset :: "unicode \<Rightarrow> json \<Rightarrow> exn + evaluation_dataset" where
  "load_retrieval_dataset u raw = (case raw of
      JObj ob \<Rightarrow>
        try_then (required_string ob ''schema_version'' ''dataset'') (\<lambda>version.
          if version \<noteq> RETRIEVAL_DATASET_SCHEMA_VERSION
          then Inl (dataset_error (''unsupported retrieval dataset schema_version '' @ quoted version @ ''; expected ''
                 @ quoted RETRIEVAL_DATASET_SCHEMA_VERSION))
          else try_then (required_string ob ''dataset_id'' ''dataset'') (\<lambda>did.
          try_then (case get_or ob ''description'' (JStr []) of
              JStr d \<Rightarrow> Inr d | _ \<Rightarrow> Inl (dataset_error ''dataset.description must be a string'')) (\<lambda>desc.
          try_then (case get_or ob ''seed'' JNull of
              JInt i \<Rightarrow> if 0 \<le> i then Inr i else Inl (dataset_error ''dataset.seed must be a non-negative integer'')
            | _ \<Rightarrow> Inl (dataset_error ''dataset.seed must be a non-negative integer'')) (\<lambda>seed.
          try_then (parse_thresholds (get_or ob ''thresholds'' JNull)) (\<lambda>ths.
          try_then (parse_corpus (get_or ob ''corpus'' JNull)) (\<lambda>corpus.
          try_then (parse_cases (get_or ob ''cases'' JNull)) (\<lambda>cases.
          try_then (validate_references u corpus cases) (\<lambda>_.
            Inr \<lparr>ds_schema = version, ds_id = did, ds_seed = seed, ds_description = desc, ds_thresholds = ths,
                 ds_corpus = corpus, ds_cases = cases\<rparr>))))))))
    | _ \<Rightarrow> Inl (dataset_error ''dataset root must be an object''))"

subsection \<open>What a loaded dataset guarantees\<close>

definition clean :: "string \<Rightarrow> bool" where
  "clean s \<longleftrightarrow> s \<noteq> [] \<and> strip s = s"

definition clean_ids :: "string list \<Rightarrow> bool" where
  "clean_ids xs \<longleftrightarrow> list_all clean xs \<and> distinct xs"

definition corpus_document_ok :: "corpus_document \<Rightarrow> bool" where
  "corpus_document_ok d \<longleftrightarrow> clean (cd_document d) \<and> clean (cd_chunk d) \<and> 0 \<le> cd_tenant d \<and> clean (cd_company d) \<and>
     clean (cd_source d) \<and> page_given (cd_page d) \<and> clean (cd_content d) \<and> distinct (map fst (cd_metadata d))"

definition evaluation_case_ok :: "evaluation_case \<Rightarrow> bool" where
  "evaluation_case_ok c \<longleftrightarrow> clean (ec_id c) \<and> clean (ec_query c) \<and> 0 \<le> ec_tenant c \<and> 1 \<le> ec_top_k c \<and> ec_top_k c \<le> 20 \<and>
     clean_ids (ec_relevant c) \<and> clean_ids (ec_sources c) \<and> clean_ids (ec_documents c) \<and> clean_ids (ec_forbidden c) \<and>
     distinct (map fst (ec_filters c)) \<and> pred_option clean (ec_company c) \<and> pred_option clean (ec_scenario c)"

definition thresholds_ok :: "gate_thresholds \<Rightarrow> bool" where
  "thresholds_ok t \<longleftrightarrow> score (gt_recall t) \<and> score (gt_mrr t) \<and> score (gt_ndcg t) \<and> score (gt_citation t) \<and> 0 \<le> gt_leaks t"

definition references_ok :: "unicode \<Rightarrow> corpus_document list \<Rightarrow> evaluation_case \<Rightarrow> bool" where
  "references_ok u corpus c \<longleftrightarrow> set (ec_relevant c) \<subseteq> cd_chunk ` set corpus \<and> set (ec_forbidden c) \<subseteq> cd_chunk ` set corpus \<and>
     set (ec_documents c) \<subseteq> cd_document ` set corpus \<and>
     (\<lambda>x. casefold u (cps x)) ` set (ec_sources c) \<subseteq> (\<lambda>d. casefold u (cps (cd_source d))) ` set corpus"

definition dataset_ok :: "unicode \<Rightarrow> evaluation_dataset \<Rightarrow> bool" where
  "dataset_ok u d \<longleftrightarrow> ds_schema d = RETRIEVAL_DATASET_SCHEMA_VERSION \<and> clean (ds_id d) \<and> 0 \<le> ds_seed d \<and> thresholds_ok (ds_thresholds d) \<and>
     ds_corpus d \<noteq> [] \<and> list_all corpus_document_ok (ds_corpus d) \<and> distinct (map cd_chunk (ds_corpus d)) \<and>
     ds_cases d \<noteq> [] \<and> list_all evaluation_case_ok (ds_cases d) \<and> distinct (map ec_id (ds_cases d)) \<and>
     list_all (references_ok u (ds_corpus d)) (ds_cases d)"

lemma strip_idem: "strip (strip s) = strip s"
proof (cases "strip s = []")
  case False
  let ?xs = "dropWhile py_space s"
  have "prefix (strip s) ?xs" unfolding strip_def by (metis suffix_dropWhile suffix_to_prefix rev_rev_ident)
  then have "hd (strip s) = hd ?xs" "?xs \<noteq> []" using False by (metis hd_append2 prefixE, metis prefix_Nil)
  then have "\<not> py_space (hd (strip s))" using hd_dropWhile by metis
  then have "dropWhile py_space (strip s) = strip s" by (cases "strip s") simp_all
  then show ?thesis by (simp only: strip_def [of "strip s"]) (simp add: strip_def)
next
  case True
  then show ?thesis by (simp only:) (simp add: strip_def)
qed

lemma clean_stripped: "nonblank v \<Longrightarrow> clean (stripped v)"
  by (cases v) (auto simp: clean_def strip_idem)

lemma required_string_clean: "required_string ob key loc = Inr s \<Longrightarrow> clean s"
  by (auto simp: required_string_def Let_def clean_stripped split: if_splits)

lemma string_sequence_clean: "string_sequence v loc = Inr xs \<Longrightarrow> clean_ids xs"
  by (auto simp: string_sequence_def Let_def clean_ids_def list_all_iff clean_stripped split: json.splits if_splits)

lemma mapping_items_distinct: "mapping_items loc acc items = Inr m \<Longrightarrow> distinct (map fst acc) \<Longrightarrow> distinct (map fst m)"
  by (induction loc acc items rule: mapping_items.induct) (auto simp: distinct_update split: if_splits json.splits)

lemma string_mapping_distinct: "string_mapping v loc = Inr m \<Longrightarrow> distinct (map fst m)"
  by (auto simp: string_mapping_def mapping_items_distinct split: json.splits)

lemma percentage_score:
  assumes "percentage ob key = Inr x"
  shows "score x"
proof (cases "get_or ob key JNull")
  case (JInt i)
  then show ?thesis using assms by (auto simp: percentage_def Let_def score_def split: if_splits)
next
  case (JFloat f)
  then show ?thesis using assms by (cases f) (auto simp: percentage_def Let_def score_def split: if_splits)
qed (use assms in \<open>simp_all add: percentage_def Let_def\<close>)

lemma integers_checked:
  "positive_integer ob key loc = Inr i \<Longrightarrow> 1 \<le> i" "non_negative_integer ob key loc = Inr i \<Longrightarrow> 0 \<le> i"
  by (auto simp: positive_integer_def non_negative_integer_def split: json.splits if_splits)

lemma optional_text_clean: "optional_text ob key loc = Inr x \<Longrightarrow> pred_option clean x"
  by (auto simp: optional_text_def Let_def clean_stripped split: if_splits)

lemmas field_checks = required_string_clean string_sequence_clean string_mapping_distinct percentage_score integers_checked optional_text_clean

lemma parse_thresholds_ok: "parse_thresholds v = Inr t \<Longrightarrow> thresholds_ok t"
  by (auto simp: parse_thresholds_def thresholds_ok_def try_then_Inr field_checks split: json.splits)

lemma corpus_item_ok: "corpus_item loc seen v = Inr d \<Longrightarrow> corpus_document_ok d \<and> cd_chunk d \<notin> set seen"
  by (auto simp: corpus_item_def corpus_document_ok_def try_then_Inr field_checks split: json.splits if_splits)

lemma case_item_ok: "case_item loc seen v = Inr c \<Longrightarrow> evaluation_case_ok c \<and> ec_id c \<notin> set seen"
  by (auto simp: case_item_def evaluation_case_ok_def try_then_Inr field_checks split: json.splits if_splits)

lemma corpus_items_ok:
  "corpus_items i seen vs = Inr ds \<Longrightarrow>
   length ds = length vs \<and> list_all corpus_document_ok ds \<and> distinct (map cd_chunk ds) \<and> set (map cd_chunk ds) \<inter> set seen = {}"
  by (induction i seen vs arbitrary: ds rule: corpus_items.induct) (fastforce simp: try_then_Inr dest: corpus_item_ok)+

lemma case_items_ok:
  "case_items i seen vs = Inr cs \<Longrightarrow>
   length cs = length vs \<and> list_all evaluation_case_ok cs \<and> distinct (map ec_id cs) \<and> set (map ec_id cs) \<inter> set seen = {}"
  by (induction i seen vs arbitrary: cs rule: case_items.induct) (fastforce simp: try_then_Inr dest: case_item_ok)+

lemma parse_corpus_ok:
  "parse_corpus v = Inr ds \<Longrightarrow> ds \<noteq> [] \<and> list_all corpus_document_ok ds \<and> distinct (map cd_chunk ds)"
  by (auto simp: parse_corpus_def simp del: corpus_items.simps split: json.splits list.splits dest!: corpus_items_ok)

lemma parse_cases_ok:
  "parse_cases v = Inr cs \<Longrightarrow> cs \<noteq> [] \<and> list_all evaluation_case_ok cs \<and> distinct (map ec_id cs)"
  by (auto simp: parse_cases_def simp del: case_items.simps split: json.splits list.splits dest!: case_items_ok)

lemma reject_unknown_Inr: "reject_unknown cid what known xs = Inr y \<longleftrightarrow> list_all known xs"
proof -
  have "sort (remdups (filter (\<lambda>x. \<not> known x) xs)) = [] \<longleftrightarrow> filter (\<lambda>x. \<not> known x) xs = []"
    by (metis set_empty set_remdups set_sort)
  then show ?thesis by (auto simp: reject_unknown_def Let_def filter_empty_conv list_all_iff)
qed

lemma check_case_Inr: "check_case u corpus c = Inr y \<longleftrightarrow> references_ok u corpus c"
  by (auto simp: check_case_def references_ok_def try_then_Inr reject_unknown_Inr list_all_iff)

lemma validate_references_Inr: "validate_references u corpus cases = Inr ys \<Longrightarrow> list_all (references_ok u corpus) cases"
  unfolding validate_references_def by (auto simp: try_map_Inr list_all2_conv_all_nth list_all_length check_case_Inr)

lemma dataset_loaded_ok: "load_retrieval_dataset u raw = Inr d \<Longrightarrow> dataset_ok u d"
  by (auto simp: load_retrieval_dataset_def dataset_ok_def try_then_Inr split: json.splits if_splits
      dest!: parse_corpus_ok parse_cases_ok validate_references_Inr required_string_clean parse_thresholds_ok)

text \<open>C38.
  A dataset that loads is well formed: its thresholds are percentages, its chunk ids and its case ids are unique, every text is
  non-empty and stripped, \<open>top_k\<close> is between 1 and 20, no list of ids repeats itself, and every chunk, document and source
  that a case names is in the corpus. In the other direction, a case of a parsed dataset is refused by the reference check
  exactly when it names something the corpus does not have.
\<close>

theorem loaded_dataset_wellformed:
  shows "(load_retrieval_dataset u raw = Inr d \<longrightarrow> dataset_ok u d) \<and>
    ((\<exists>e. check_case u corpus c = Inl e) \<longleftrightarrow> \<not> references_ok u corpus c)"
  using dataset_loaded_ok check_case_Inr [of u corpus c] by (cases "check_case u corpus c") auto

definition demo_dataset :: json where
  "demo_dataset = JObj [(''schema_version'', JStr ''1.0''), (''dataset_id'', JStr '' d1 ''), (''seed'', JInt 7),
     (''thresholds'', JObj [(''recall_at_k'', JInt 90), (''mrr'', JInt 90), (''ndcg'', JFloat (Fin (95 / 2))),
        (''citation_source_match'', JInt 50), (''maximum_tenant_leaks'', JInt 0)]),
     (''corpus'', JArr [
        JObj [(''document_id'', JStr ''a''), (''chunk_id'', JStr ''a1''), (''tenant_id'', JInt 1), (''company'', JStr ''Apple''),
          (''source_filename'', JStr ''a.pdf''), (''page'', JInt 1), (''content'', JStr ''net sales'')],
        JObj [(''document_id'', JStr ''b''), (''chunk_id'', JStr ''b1''), (''tenant_id'', JInt 2), (''company'', JStr ''Tesla''),
          (''source_filename'', JStr ''b.pdf''), (''page'', JStr ''2''), (''content'', JStr ''net sales'')]]),
     (''cases'', JArr [
        JObj [(''id'', JStr ''q1''), (''query'', JStr ''sales''), (''tenant_id'', JInt 1), (''top_k'', JInt 2),
          (''expected_relevant_ids'', JArr [JStr ''a1'']), (''expected_sources'', JArr [JStr ''a.pdf'']),
          (''forbidden_chunk_ids'', JArr [JStr ''b1''])]])]"

definition loaded_demo :: evaluation_dataset where
  "loaded_demo = \<lparr>ds_schema = ''1.0'', ds_id = ''d1'', ds_seed = 7, ds_description = [],
     ds_thresholds = \<lparr>gt_recall = 90, gt_mrr = 90, gt_ndcg = 95 / 2, gt_citation = 50, gt_leaks = 0\<rparr>,
     ds_corpus =
       [\<lparr>cd_document = ''a'', cd_chunk = ''a1'', cd_tenant = 1, cd_company = ''Apple'', cd_source = ''a.pdf'', cd_page = JInt 1,
         cd_content = ''net sales'', cd_metadata = []\<rparr>,
        \<lparr>cd_document = ''b'', cd_chunk = ''b1'', cd_tenant = 2, cd_company = ''Tesla'', cd_source = ''b.pdf'', cd_page = JStr ''2'',
         cd_content = ''net sales'', cd_metadata = []\<rparr>],
     ds_cases = [\<lparr>ec_id = ''q1'', ec_query = ''sales'', ec_tenant = 1, ec_top_k = 2, ec_relevant = [''a1''], ec_sources = [''a.pdf''],
       ec_company = None, ec_documents = [], ec_filters = [], ec_public = False, ec_forbidden = [''b1''], ec_scenario = None\<rparr>]\<rparr>"

lemma demo_dataset_loads: "load_retrieval_dataset ascii_db demo_dataset = Inr loaded_demo"
  by code_simp

lemma loaded_dataset_wellformed_witness:
  "load_retrieval_dataset ascii_db demo_dataset = Inr loaded_demo \<and> dataset_ok ascii_db loaded_demo"
  using demo_dataset_loads loaded_dataset_wellformed [of ascii_db demo_dataset loaded_demo] by blast

end
