(* ===== verification/Retrieval_Gate.thy ===== *)
theory Retrieval_Gate
  imports Retrieval_Dataset Knowledge_Base Retrieval_Origin
begin

text \<open>
  The deterministic retrieval gate, \<^verbatim>\<open>evaluation/retrieval_gate.py\<close>: a seeded embedding, a store that deliberately returns
  the chunks of all tenants, the production chain of tool executor, retrieval tool, runtime adapter and hybrid retriever, the
  metrics of every case and the verdict.

  Arguments of the model: \<open>h\<close>, the first eight bytes of a sha256 digest as a number; \<open>rt\<close>, \<open>math.sqrt\<close> in double precision;
  \<open>disc\<close>, the discount of a rank; the query enrichment and the BM25 scores of the retriever; the Unicode database and the
  encoding of texts. The command line, the writing of the report file and the constant parts of the report (versions, the digest of
  the dataset file, the statement of scope) are outside the model.
\<close>

subsection \<open>The seeded embedding\<close>

definition DEFAULT_EMBEDDING_DIMENSIONS :: nat where
  "DEFAULT_EMBEDDING_DIMENSIONS = 512"

definition check_model :: "int \<Rightarrow> nat \<Rightarrow> exn + unit" where
  "check_model seed dims =
     (if seed < 0 then Inl (Exn ''ValueError'' ''seed must be non-negative'')
      else if dims < 8 then Inl (Exn ''ValueError'' ''embedding dimensions must be at least 8'')
      else Inr ())"

definition seeded_encode :: "unicode \<Rightarrow> (utext \<Rightarrow> nat) \<Rightarrow> (rat \<Rightarrow> rat) \<Rightarrow> int \<Rightarrow> nat \<Rightarrow> utext \<Rightarrow> rat list" where
  "seeded_encode u h rt seed dims text =
     (let values = fold (\<lambda>token vs. let i = h (cps (str_int seed @ '':'') @ token) mod dims in vs[i := vs ! i + 1])
            (tokenize u text) (replicate dims 0);
          norm = rt (sum_list (map (\<lambda>v. v * v) values))
      in if norm \<noteq> 0 then map (\<lambda>v. v / norm) values else values)"

definition cosine_similarity :: "(rat \<Rightarrow> rat) \<Rightarrow> rat list \<Rightarrow> rat list \<Rightarrow> exn + rat" where
  "cosine_similarity rt left right =
     (if length left \<noteq> length right then Inl (Exn ''ValueError'' ''embedding dimensions do not match'')
      else let ln = rt (sum_list (map (\<lambda>v. v * v) left)); rn = rt (sum_list (map (\<lambda>v. v * v) right)) in
           if ln = 0 \<or> rn = 0 then Inr 0
           else Inr (sum_list (map2 (*) left right) / (ln * rn)))"

subsection \<open>The adversarial store\<close>

text \<open>The dictionary of the store, from chunk ids to documents, in insertion order.\<close>

type_synonym eval_store = "(string \<times> rat list vector_document) list"

definition eval_document :: "(utext \<Rightarrow> rat list) \<Rightarrow> corpus_document \<Rightarrow> rat list vector_document" where
  "eval_document model d =
     \<lparr>vd_document_id = cd_document d, vd_chunk_id = cd_chunk d, vd_company = cd_company d, vd_content = cps (cd_content d),
      vd_embedding = model (cps ''passage: '' @ cps (cd_content d)),
      vd_metadata = fold (\<lambda>(k, v). AList.update k v)
        [(''tenant_id'', JInt (cd_tenant d)), (''company'', JStr (cd_company d)), (''source'', JStr (cd_source d)), (''page'', cd_page d)]
        (map (\<lambda>(k, v). (k, JStr v)) (cd_metadata d))\<rparr>"

definition eval_add_documents :: "rat list vector_document list \<Rightarrow> eval_store \<Rightarrow> eval_store" where
  "eval_add_documents ds st = fold (\<lambda>d. AList.update (vd_chunk_id d) d) ds st"

definition eval_store_of :: "(utext \<Rightarrow> rat list) \<Rightarrow> corpus_document list \<Rightarrow> eval_store" where
  "eval_store_of model corpus = eval_add_documents (map (eval_document model) corpus) []"

definition eval_delete_collection :: "eval_store \<Rightarrow> eval_store" where
  "eval_delete_collection st = []"

definition eval_hit :: "(rat \<Rightarrow> rat) \<Rightarrow> rat list \<Rightarrow> rat list vector_document \<Rightarrow> exn + result" where
  "eval_hit rt q d = try_then (cosine_similarity rt q (vd_embedding d)) (\<lambda>s.
     Inr \<lparr>r_doc = cps (vd_document_id d), r_chunk = cps (vd_chunk_id d), r_score = s, r_content = vd_content d,
          r_meta = AList.update ''similarity_score'' (JFloat (Fin (py_round 6 (max s 0))))
            (AList.update ''score_semantics'' (JStr ''similarity'') (vd_metadata d))\<rparr>)"

definition eval_similarity_search :: "(rat \<Rightarrow> rat) \<Rightarrow> eval_store \<Rightarrow> rat list \<Rightarrow> nat \<Rightarrow> exn + result list" where
  "eval_similarity_search rt st q k =
     try_then (try_map (eval_hit rt q) (map snd st)) (\<lambda>rs.
       Inr (take k (sort_key (\<lambda>r. (- r_score r, r_doc r, r_chunk r)) rs)))"

definition eval_lexical_corpus :: "eval_store \<Rightarrow> result list" where
  "eval_lexical_corpus st =
     map (\<lambda>d. \<lparr>r_doc = cps (vd_document_id d), r_chunk = cps (vd_chunk_id d), r_score = 0, r_content = vd_content d,
           r_meta = AList.update ''score_semantics'' (JStr ''similarity'') (vd_metadata d)\<rparr>)
       (sort_key (\<lambda>d. (vd_document_id d, vd_chunk_id d)) (map snd st))"

definition eval_delete_document :: "string \<Rightarrow> int \<Rightarrow> eval_store \<Rightarrow> eval_store" where
  "eval_delete_document doc t st =
     filter (\<lambda>(_, d). \<not> (vd_document_id d = doc \<and> py_eq (get_or (vd_metadata d) ''tenant_id'' JNull) (JInt t))) st"

definition eval_delete_by_tenant :: "int \<Rightarrow> eval_store \<Rightarrow> eval_store" where
  "eval_delete_by_tenant t st = filter (\<lambda>(_, d). \<not> py_eq (get_or (vd_metadata d) ''tenant_id'' JNull) (JInt t)) st"

definition eval_count :: "eval_store \<Rightarrow> nat" where
  "eval_count st = length st"

text \<open>
  The store as the retriever sees it. Both operations ignore the tenant. An error of the similarity search cannot occur
  over embeddings of one model (\<open>eval_search_total\<close>).
\<close>

definition as_store :: "(rat \<Rightarrow> rat) \<Rightarrow> eval_store \<Rightarrow> rat list store" where
  "as_store rt st = \<lparr>similarity_search = (\<lambda>q k _. case eval_similarity_search rt st q k of Inr rs \<Rightarrow> rs | Inl _ \<Rightarrow> []),
     lexical_corpus = Some (\<lambda>_. Inr (eval_lexical_corpus st))\<rparr>"

subsection \<open>One case\<close>

definition evidence_chunk_id :: "core_evidence \<Rightarrow> string" where
  "evidence_chunk_id e = (case get_or (ce_metadata e) ''chunk_id'' JNull of JStr s \<Rightarrow> s | _ \<Rightarrow> [])"

definition evidence_source :: "core_evidence \<Rightarrow> string" where
  "evidence_source e = (case ce_source e of JStr s \<Rightarrow> s | _ \<Rightarrow> [])"

definition citation_source_match :: "unicode \<Rightarrow> string list \<Rightarrow> string list \<Rightarrow> rat option" where
  "citation_source_match u retrieved_sources expected_sources =
     (let folded = (\<lambda>xs. (\<lambda>x. casefold u (cps (strip x))) ` {x \<in> set xs. strip x \<noteq> []});
          expected = folded expected_sources
      in if expected = {} then None
         else let retrieved = folded retrieved_sources;
                  matched = expected \<inter> retrieved
              in if matched = {} then Some 0
                 else let precision = of_nat (card matched) / of_nat (card retrieved);
                          recall = of_nat (card matched) / of_nat (card expected)
                      in Some (py_round 1 (2 * precision * recall / (precision + recall) * 100)))"

record case_metrics =
  cm_precision :: "rat option"
  cm_recall :: "rat option"
  cm_mrr :: "rat option"
  cm_ndcg :: "rat option"
  cm_citation :: "rat option"

record case_result =
  cr_case :: evaluation_case
  cr_retrieved :: "string list"
  cr_sources :: "string list"
  cr_tenants :: "int list"
  cr_metrics :: case_metrics
  cr_allowed :: "int list"
  cr_leaked :: "string list"
  cr_checks :: "(string \<times> bool) list"
  cr_passed :: bool

definition required_metric :: "rat option \<Rightarrow> exn + rat" where
  "required_metric v = (case v of
      None \<Rightarrow> Inl (Exn ''ValueError'' ''an applicable retrieval metric was not calculated'')
    | Some x \<Rightarrow> Inr x)"

text \<open>\<open>not applicable or _required_metric(value) >= threshold\<close>\<close>

definition metric_check :: "bool \<Rightarrow> rat option \<Rightarrow> rat \<Rightarrow> exn + bool" where
  "metric_check applicable value_of t =
     (if \<not> applicable then Inr True else try_then (required_metric value_of) (\<lambda>x. Inr (t \<le> x)))"

definition allowed_tenants :: "evaluation_case \<Rightarrow> int list" where
  "allowed_tenants c = sort (remdups (ec_tenant c # (if ec_public c then [0] else [])))"

definition leaked :: "evaluation_case \<Rightarrow> (string \<rightharpoonup> corpus_document) \<Rightarrow> string \<Rightarrow> bool" where
  "leaked c by_chunk x \<longleftrightarrow> x \<in> set (ec_forbidden c) \<or>
     (case by_chunk x of None \<Rightarrow> False | Some d \<Rightarrow> cd_tenant d \<notin> set (allowed_tenants c))"

definition judge_case :: "unicode \<Rightarrow> (nat \<Rightarrow> rat) \<Rightarrow> gate_thresholds \<Rightarrow> (string \<rightharpoonup> corpus_document) \<Rightarrow> evaluation_case
    \<Rightarrow> core_evidence list \<Rightarrow> exn + case_result" where
  "judge_case u disc ths by_chunk c evidence =
     (let ids = map evidence_chunk_id evidence;
          sources = map evidence_source evidence;
          ranked = ranked_retrieval_metrics disc ids (ec_relevant c) (Some (nat (ec_top_k c)));
          ranking = ec_relevant c \<noteq> [];
          when = (\<lambda>x. if ranking then Some x else None);
          m = \<lparr>cm_precision = when (rm_precision ranked), cm_recall = when (rm_recall ranked), cm_mrr = when (rm_mrr ranked),
               cm_ndcg = when (rm_ndcg ranked), cm_citation = citation_source_match u sources (ec_sources c)\<rparr>;
          leaks = filter (leaked c by_chunk) ids
      in try_then (metric_check ranking (cm_recall m) (gt_recall ths)) (\<lambda>k1.
         try_then (metric_check ranking (cm_mrr m) (gt_mrr ths)) (\<lambda>k2.
         try_then (metric_check ranking (cm_ndcg m) (gt_ndcg ths)) (\<lambda>k3.
         try_then (metric_check (ec_sources c \<noteq> []) (cm_citation m) (gt_citation ths)) (\<lambda>k4.
           let checks = [(''recall_at_k'', k1), (''mrr'', k2), (''ndcg'', k3), (''citation_source_match'', k4),
                 (''tenant_isolation'', int (length leaks) \<le> gt_leaks ths)]
           in Inr \<lparr>cr_case = c, cr_retrieved = ids, cr_sources = sources,
                cr_tenants = map cd_tenant (List.map_filter by_chunk ids), cr_metrics = m, cr_allowed = allowed_tenants c,
                cr_leaked = leaks, cr_checks = checks, cr_passed = list_all snd checks\<rparr>)))))"

text \<open>\<open>_evaluate_case\<close>: \<open>exec\<close> is the executor over the store of the gate.\<close>

type_synonym gate_executor =
  "string \<Rightarrow> int \<Rightarrow> string option \<Rightarrow> string list \<Rightarrow> json \<Rightarrow> obj \<Rightarrow> bool \<Rightarrow> exn + core_evidence list"

definition evaluate_case :: "unicode \<Rightarrow> (nat \<Rightarrow> rat) \<Rightarrow> gate_thresholds \<Rightarrow> gate_executor \<Rightarrow> (string \<rightharpoonup> corpus_document)
    \<Rightarrow> evaluation_case \<Rightarrow> exn + case_result" where
  "evaluate_case u disc ths exec by_chunk c =
     try_then (exec (ec_query c) (ec_tenant c) (ec_company c) (ec_documents c) (JInt (ec_top_k c))
         (map (\<lambda>(k, v). (k, JStr v)) (ec_filters c)) (ec_public c))
       (judge_case u disc ths by_chunk c)"

subsection \<open>The report\<close>

definition average :: "rat list \<Rightarrow> rat" where
  "average xs = (if xs = [] then 0 else py_round 1 (sum_list xs / of_nat (length xs)))"

definition metric_average :: "(case_metrics \<Rightarrow> rat option) \<Rightarrow> case_result list \<Rightarrow> rat" where
  "metric_average f results = average (List.map_filter (f \<circ> cr_metrics) results)"

record gate_report =
  gr_dataset :: evaluation_dataset
  gr_minimum :: rat
  gr_results :: "case_result list"
  gr_recall :: rat
  gr_mrr :: rat
  gr_ndcg :: rat
  gr_citation :: rat
  gr_leaks :: nat
  gr_score :: rat
  gr_checks :: "(string \<times> bool) list"
  gr_passed :: bool

definition validate_threshold :: "json \<Rightarrow> exn + rat" where
  "validate_threshold v =
     (if \<not> numeric v then Inl (Exn ''ValueError'' ''threshold must be numeric'')
      else try_then (float_of v) (\<lambda>f. case f of
          Fin x \<Rightarrow> if 0 \<le> x \<and> x \<le> 100 then Inr x else Inl (Exn ''ValueError'' ''threshold must be between 0 and 100'')
        | _ \<Rightarrow> Inl (Exn ''ValueError'' ''threshold must be between 0 and 100'')))"

definition gate_verdict :: "evaluation_dataset \<Rightarrow> rat \<Rightarrow> case_result list \<Rightarrow> gate_report" where
  "gate_verdict ds minimum results =
     (let r = metric_average cm_recall results; m = metric_average cm_mrr results;
          n = metric_average cm_ndcg results; c = metric_average cm_citation results;
          s = py_round 1 ((r + m + n + c) / 4);
          leaks = sum_list (map (\<lambda>x. length (cr_leaked x)) results);
          ths = ds_thresholds ds;
          checks = [(''recall_at_k'', gt_recall ths \<le> r), (''mrr'', gt_mrr ths \<le> m), (''ndcg'', gt_ndcg ths \<le> n),
            (''citation_source_match'', gt_citation ths \<le> c), (''tenant_isolation'', int leaks \<le> gt_leaks ths),
            (''gate_score'', minimum \<le> s)]
      in \<lparr>gr_dataset = ds, gr_minimum = minimum, gr_results = results, gr_recall = r, gr_mrr = m, gr_ndcg = n, gr_citation = c,
          gr_leaks = leaks, gr_score = s, gr_checks = checks, gr_passed = results \<noteq> [] \<and> list_all snd checks\<rparr>)"

record gate_env =
  ge_unicode :: unicode
  ge_texts :: texts
  ge_hash :: "utext \<Rightarrow> nat"
  ge_sqrt :: "rat \<Rightarrow> rat"
  ge_discount :: "nat \<Rightarrow> rat"
  ge_enrich :: "utext \<Rightarrow> string option \<Rightarrow> utext"
  ge_bm25 :: "utext list list \<Rightarrow> utext list \<Rightarrow> rat list"
  ge_config :: hybrid_config
  ge_pow :: pow_fn
  ge_ms :: rat

definition gate_model :: "gate_env \<Rightarrow> evaluation_dataset \<Rightarrow> utext \<Rightarrow> rat list" where
  "gate_model ge ds = seeded_encode (ge_unicode ge) (ge_hash ge) (ge_sqrt ge) (ds_seed ds) DEFAULT_EMBEDDING_DIMENSIONS"

definition gate_deps :: "gate_env \<Rightarrow> evaluation_dataset \<Rightarrow> rat list deps" where
  "gate_deps ge ds = \<lparr>embed = (\<lambda>q. gate_model ge ds (with_prefix (ge_unicode ge) q QUERY_PREFIX)), enrich = ge_enrich ge,
     bm25_scores = ge_bm25 ge\<rparr>"

definition executor_of :: "gate_env \<Rightarrow> evaluation_dataset \<Rightarrow> gate_executor" where
  "executor_of ge ds = tenant_execute (ge_pow ge) (ge_ms ge)
     (runtime_retrieve (ge_unicode ge) (ge_texts ge) (ge_config ge) (gate_deps ge ds)
       (as_store (ge_sqrt ge) (eval_store_of (gate_model ge ds) (ds_corpus ds))))"

definition document_by_chunk :: "corpus_document list \<Rightarrow> string \<rightharpoonup> corpus_document" where
  "document_by_chunk corpus = map_of (rev (map (\<lambda>d. (cd_chunk d, d)) corpus))"

definition evaluate_dataset :: "gate_env \<Rightarrow> evaluation_dataset \<Rightarrow> exn + case_result list" where
  "evaluate_dataset ge ds =
     try_map (evaluate_case (ge_unicode ge) (ge_discount ge) (ds_thresholds ds) (executor_of ge ds) (document_by_chunk (ds_corpus ds)))
       (ds_cases ds)"

definition run_retrieval_evaluation :: "gate_env \<Rightarrow> json \<Rightarrow> json \<Rightarrow> exn + gate_report" where
  "run_retrieval_evaluation ge raw threshold =
     try_then (validate_threshold threshold) (\<lambda>minimum.
     try_then (load_retrieval_dataset (ge_unicode ge) raw) (\<lambda>ds.
     try_then (check_model (ds_seed ds) DEFAULT_EMBEDDING_DIMENSIONS) (\<lambda>_.
     try_then (evaluate_dataset ge ds) (\<lambda>results. Inr (gate_verdict ds minimum results)))))"

text \<open>\<open>main\<close>: the exit code, or an exception it does not catch.\<close>

definition gate_main :: "gate_env \<Rightarrow> json \<Rightarrow> json \<Rightarrow> exn + int" where
  "gate_main ge raw threshold = (case run_retrieval_evaluation ge raw threshold of
      Inl e \<Rightarrow> if exn_class e \<in> {''RetrievalDatasetValidationError'', ''RetrievalToolExecutionError'', ''ValueError'',
          ''RetrievalContractError''} then Inr 2 else Inl e
    | Inr report \<Rightarrow> Inr (if gr_passed report then 0 else 1))"

subsection \<open>The chunks of the gate's store\<close>

definition chunk_of :: "corpus_document \<Rightarrow> result \<Rightarrow> bool" where
  "chunk_of d r \<longleftrightarrow> r_doc r = cps (cd_document d) \<and> r_chunk r = cps (cd_chunk d) \<and> r_content r = cps (cd_content d) \<and>
     meta_get r ''tenant_id'' = JInt (cd_tenant d)"

lemma chunk_of_cong: "same_record x y \<Longrightarrow> chunk_of d y \<Longrightarrow> chunk_of d x"
  by (simp add: chunk_of_def same_record_def ranking_fields_def)

lemma update_fresh: "k \<notin> fst ` set al \<Longrightarrow> AList.update k v al = al @ [(k, v)]"
  by (induction al) auto

lemma eval_add_fresh:
  "distinct (map vd_chunk_id ds) \<Longrightarrow> fst ` set st \<inter> vd_chunk_id ` set ds = {} \<Longrightarrow>
   eval_add_documents ds st = st @ map (\<lambda>d. (vd_chunk_id d, d)) ds"
proof (induction ds arbitrary: st)
  case (Cons d ds)
  have "eval_add_documents (d # ds) st = eval_add_documents ds (st @ [(vd_chunk_id d, d)])"
    using Cons.prems update_fresh [of "vd_chunk_id d" st d] by (simp add: eval_add_documents_def)
  also have "\<dots> = (st @ [(vd_chunk_id d, d)]) @ map (\<lambda>d. (vd_chunk_id d, d)) ds"
    using Cons.prems by (intro Cons.IH) auto
  finally show ?case by simp
qed (simp add: eval_add_documents_def)

lemma eval_store_documents:
  assumes "distinct (map cd_chunk corpus)"
  shows "map snd (eval_store_of model corpus) = map (eval_document model) corpus"
  using assms eval_add_fresh [of "map (eval_document model) corpus" "[]"]
  by (simp add: eval_store_of_def comp_def eval_document_def [abs_def])

lemma eval_document_tenant: "get_or (vd_metadata (eval_document model d)) ''tenant_id'' JNull = JInt (cd_tenant d)"
  by (simp add: eval_document_def get_or_update)

lemma eval_hit_chunk:
  assumes "eval_hit rt q (eval_document model d) = Inr r"
  shows "chunk_of d r"
proof -
  obtain s where "r = \<lparr>r_doc = cps (cd_document d), r_chunk = cps (cd_chunk d), r_score = s, r_content = cps (cd_content d),
      r_meta = AList.update ''similarity_score'' (JFloat (Fin (py_round 6 (max s 0))))
        (AList.update ''score_semantics'' (JStr ''similarity'') (vd_metadata (eval_document model d)))\<rparr>"
    using assms by (auto simp: eval_hit_def try_then_Inr eval_document_def)
  then show ?thesis using eval_document_tenant [of model d] by (simp add: chunk_of_def meta_get_def get_or_update)
qed

lemma gate_search_chunks:
  assumes "distinct (map cd_chunk corpus)" "r \<in> set (similarity_search (as_store rt (eval_store_of model corpus)) q k t)"
  shows "\<exists>d \<in> set corpus. chunk_of d r"
proof -
  obtain rs where rs: "try_map (eval_hit rt q) (map (eval_document model) corpus) = Inr rs" "r \<in> set rs"
    using assms by (cases "try_map (eval_hit rt q) (map (eval_document model) corpus)")
      (auto simp: as_store_def eval_similarity_search_def eval_store_documents dest!: in_set_takeD)
  then obtain d where "d \<in> set corpus" "eval_hit rt q (eval_document model d) = Inr r" using try_map_mem [OF rs] by auto
  then show ?thesis using eval_hit_chunk by blast
qed

lemma gate_corpus_chunks:
  assumes "distinct (map cd_chunk corpus)" "r \<in> set (eval_lexical_corpus (eval_store_of model corpus))"
  shows "\<exists>d \<in> set corpus. chunk_of d r"
proof -
  obtain d where d: "d \<in> set corpus" "r = \<lparr>r_doc = cps (vd_document_id (eval_document model d)), r_chunk = cps (vd_chunk_id (eval_document model d)),
      r_score = 0, r_content = vd_content (eval_document model d),
      r_meta = AList.update ''score_semantics'' (JStr ''similarity'') (vd_metadata (eval_document model d))\<rparr>"
    using assms by (auto simp: eval_lexical_corpus_def eval_store_documents)
  then have "chunk_of d r" using eval_document_tenant [of model d]
    by (simp add: chunk_of_def meta_get_def get_or_update) (simp add: eval_document_def)
  then show ?thesis using d(1) by blast
qed

lemma gate_retrieve_chunks:
  assumes "distinct (map cd_chunk corpus)" "r \<in> set (retrieve u c dep (as_store rt (eval_store_of model corpus)) ctx)"
  shows "\<exists>d \<in> set corpus. chunk_of d r"
  using assms(2)
proof (rule retrieve_origin)
  show "\<exists>d \<in> set corpus. chunk_of d x" if "lexical_corpus (as_store rt (eval_store_of model corpus)) = Some loader"
    "loader t = Inr ds" "x \<in> set ds" for loader t ds x
    using that gate_corpus_chunks [OF assms(1)] by (auto simp: as_store_def)
qed (use gate_search_chunks [OF assms(1)] chunk_of_cong in blast)+

text \<open>The embeddings of one model have one length, so the similarity search of the gate never fails.\<close>

lemma seeded_encode_length: "length (seeded_encode u h rt seed dims text) = dims"
proof -
  have "length (fold (\<lambda>token vs. let i = h (cps (str_int seed @ '':'') @ token) mod dims in vs[i := vs ! i + 1]) ts vs) = length vs"
    for ts and vs :: "rat list"
    by (induction ts arbitrary: vs) (simp_all add: Let_def)
  then show ?thesis by (simp add: seeded_encode_def Let_def)
qed

lemma eval_search_total:
  assumes "distinct (map cd_chunk (ds_corpus ds))"
  shows "\<exists>rs. eval_similarity_search rt (eval_store_of (gate_model ge ds) (ds_corpus ds)) (gate_model ge ds q) k = Inr rs"
proof -
  have "\<exists>y. eval_hit rt (gate_model ge ds q) (eval_document (gate_model ge ds) d) = Inr y" for d
    by (simp add: eval_hit_def cosine_similarity_def gate_model_def seeded_encode_length eval_document_def Let_def)
  then have "\<exists>rs. try_map (eval_hit rt (gate_model ge ds q)) (map (eval_document (gate_model ge ds)) corpus) = Inr rs" for corpus
    by (induction corpus) (auto, metis try_then.simps(2))
  then obtain rs where "try_map (eval_hit rt (gate_model ge ds q)) (map (eval_document (gate_model ge ds)) (ds_corpus ds)) = Inr rs" by blast
  then show ?thesis using assms by (simp add: eval_similarity_search_def eval_store_documents)
qed

subsection \<open>From the results to the report\<close>

lemma copy_fields_frame: "j \<notin> set ks \<Longrightarrow> get_or (fold (copy_field r) ks m) j d = get_or m j d"
  by (induction ks arbitrary: m) (auto simp: copy_field_def get_or_update)

lemma result_chunk_id: "get_or (ce_metadata (evidence_of_result u tx ctx (i, r))) ''chunk_id'' JNull = JStr (enc tx (r_chunk r))"
  using copy_fields_frame [of "''chunk_id''" evidence_fields]
  by (simp add: evidence_of_result_def evidence_fields_def get_or_def)

lemma object_metadata: "evidence_from_value (evidence_object c) = Inr e \<Longrightarrow> ev_metadata e = ce_metadata c"
  by (auto simp: evidence_object_def evidence_attributes_def evidence_of_data_def get_or_def try_then_Inr Let_def split: if_splits)

lemma rehydrated_chunk_id:
  assumes "evidence_from_value (evidence_object c) = Inr e"
  shows "evidence_chunk_id (rehydrated i e) = evidence_chunk_id c"
proof -
  have "get_or (ce_metadata (rehydrated i e)) ''chunk_id'' JNull = get_or (ce_metadata c) ''chunk_id'' JNull"
    using object_metadata [OF assms] evidence_object_ids [OF assms]
    by (simp add: rehydrated_def get_or_rehydrate_field) (simp add: as_dict_def get_or_def)
  then show ?thesis by (simp add: evidence_chunk_id_def)
qed

text \<open>The chunk ids of the evidence are those of the results, in order.\<close>

lemma executed_chunk_ids:
  assumes "tenant_execute pow ms (runtime_retrieve u tx c dep st) q tn co ids k fs pub = Inr es"
  shows "\<exists>rq. rq_tenant rq = tn \<and> rq_include_public rq = pub \<and>
    map evidence_chunk_id es = map (\<lambda>r. enc tx (r_chunk r)) (retrieve u c dep st (runtime_context rq))"
proof -
  obtain rq evs where rq: "rq_tenant rq = tn" "rq_include_public rq = pub" "normalise_evidence (runtime_retrieve u tx c dep st rq) = Inr evs"
      "es = map (\<lambda>(i, e). rehydrated i e) (enumerate 1 evs)"
    using tenant_execute_Inr [OF assms] by blast
  let ?rs = "retrieve u c dep st (runtime_context rq)"
  have "list_all2 (\<lambda>x y. evidence_from_value x = Inr y)
      (map evidence_object (map (evidence_of_result u tx (runtime_context rq)) (enumerate 1 ?rs))) evs"
    using rq(3) by (simp add: runtime_retrieve_def retrieve_evidence_def try_map_Inr)
  then have l: "length evs = length ?rs"
    and e: "\<And>n. n < length ?rs \<Longrightarrow> evidence_from_value (evidence_object (evidence_of_result u tx (runtime_context rq) (1 + n, ?rs ! n))) = Inr (evs ! n)"
    by (auto simp: list_all2_conv_all_nth nth_enumerate_eq)
  have "map evidence_chunk_id es = map (\<lambda>r. enc tx (r_chunk r)) ?rs"
    using l rehydrated_chunk_id [OF e]
    by (intro nth_equalityI) (auto simp: rq(4) nth_enumerate_eq evidence_chunk_id_def result_chunk_id)
  then show ?thesis using rq(1,2) by blast
qed

lemma document_by_chunk_Some:
  assumes "distinct (map cd_chunk corpus)" "d \<in> set corpus"
  shows "document_by_chunk corpus (cd_chunk d) = Some d"
  unfolding document_by_chunk_def using assms by (intro map_of_is_SomeI) (auto simp: comp_def rev_map [symmetric])

lemma in_scope_chunk: "chunk_of d r \<Longrightarrow> in_scope t r \<longleftrightarrow> cd_tenant d = t"
  by (simp add: in_scope_def chunk_of_def py_eq.simps)

lemma allowed_tenants_set: "set (allowed_tenants c) = insert (ec_tenant c) (if ec_public c then {0} else {})"
  by (simp add: allowed_tenants_def)

text \<open>
  The ids that the executor returns for a case are ids of distinct chunks of the corpus, and each chunk belongs to a tenant
  that the case may see.
\<close>

lemma executed_case:
  assumes corpus: "distinct (map cd_chunk (ds_corpus ds))" and enc: "\<And>s. enc (ge_texts ge) (cps s) = s"
    and run: "executor_of ge ds (ec_query c) (ec_tenant c) co docs k fs (ec_public c) = Inr es"
  shows "distinct (map evidence_chunk_id es)"
    and "x \<in> set (map evidence_chunk_id es) \<Longrightarrow>
      \<exists>d \<in> set (ds_corpus ds). x = cd_chunk d \<and> cd_tenant d \<in> set (allowed_tenants c)"
proof -
  let ?st = "as_store (ge_sqrt ge) (eval_store_of (gate_model ge ds) (ds_corpus ds))"
  obtain rq where rq: "rq_tenant rq = ec_tenant c" "rq_include_public rq = ec_public c"
      "map evidence_chunk_id es = map (\<lambda>r. enc (ge_texts ge) (r_chunk r))
        (retrieve (ge_unicode ge) (ge_config ge) (gate_deps ge ds) ?st (runtime_context rq))"
    using executed_chunk_ids run unfolding executor_of_def by blast
  let ?rs = "retrieve (ge_unicode ge) (ge_config ge) (gate_deps ge ds) ?st (runtime_context rq)"
  have chunk: "\<exists>d \<in> set (ds_corpus ds). chunk_of d r" if "r \<in> set ?rs" for r
    using gate_retrieve_chunks [OF corpus that] .
  have "result_key (ge_unicode ge) r = result_key (ge_unicode ge) r'"
    if mem: "r \<in> set ?rs" "r' \<in> set ?rs" and eq: "enc (ge_texts ge) (r_chunk r) = enc (ge_texts ge) (r_chunk r')" for r r'
  proof -
    obtain d d' where d: "d \<in> set (ds_corpus ds)" "chunk_of d r" "d' \<in> set (ds_corpus ds)" "chunk_of d' r'"
      using chunk [OF mem(1)] chunk [OF mem(2)] by blast
    then have "cd_chunk d = cd_chunk d'" using eq enc by (simp add: chunk_of_def)
    then have "d = d'" using corpus d(1,3) by (simp add: distinct_map inj_on_def)
    then show ?thesis using d by (simp add: chunk_of_def result_key_def Let_def)
  qed
  then show "distinct (map evidence_chunk_id es)"
    using retrieve_distinct [of "ge_unicode ge" "ge_config ge" "gate_deps ge ds" ?st "runtime_context rq"]
    unfolding rq(3) distinct_map inj_on_def by metis
  assume "x \<in> set (map evidence_chunk_id es)"
  then obtain r where r: "r \<in> set ?rs" "x = enc (ge_texts ge) (r_chunk r)" unfolding rq(3) by auto
  obtain d where d: "d \<in> set (ds_corpus ds)" "chunk_of d r" using chunk [OF r(1)] by blast
  have "list_all (visible (runtime_context rq)) ?rs" by (rule retrieve_visible)
  then have "visible (runtime_context rq) r" using r(1) by (simp add: list_all_iff)
  then have "cd_tenant d \<in> set (allowed_tenants c)"
    using in_scope_chunk [OF d(2)] rq(1,2) by (auto simp: visible_def tenant_scopes_def runtime_context_def allowed_tenants_set)
  then show "\<exists>d \<in> set (ds_corpus ds). x = cd_chunk d \<and> cd_tenant d \<in> set (allowed_tenants c)"
    using d r(2) enc by (auto simp: chunk_of_def)
qed

lemma judge_case_Inr:
  assumes "judge_case u disc ths by_chunk c es = Inr r"
  shows "cr_case r = c" "cr_retrieved r = map evidence_chunk_id es" "cr_allowed r = allowed_tenants c"
    "cr_leaked r = filter (leaked c by_chunk) (cr_retrieved r)" "cr_tenants r = map cd_tenant (List.map_filter by_chunk (cr_retrieved r))"
    "\<And>f. f \<in> {cm_recall, cm_mrr, cm_ndcg, cm_citation} \<Longrightarrow> f (cr_metrics r) =
      f \<lparr>cm_precision = None,
         cm_recall = (if ec_relevant c \<noteq> [] then Some (rm_recall (ranked_retrieval_metrics disc (cr_retrieved r) (ec_relevant c) (Some (nat (ec_top_k c))))) else None),
         cm_mrr = (if ec_relevant c \<noteq> [] then Some (rm_mrr (ranked_retrieval_metrics disc (cr_retrieved r) (ec_relevant c) (Some (nat (ec_top_k c))))) else None),
         cm_ndcg = (if ec_relevant c \<noteq> [] then Some (rm_ndcg (ranked_retrieval_metrics disc (cr_retrieved r) (ec_relevant c) (Some (nat (ec_top_k c))))) else None),
         cm_citation = citation_source_match u (cr_sources r) (ec_sources c)\<rparr>"
  using assms by (auto simp: judge_case_def Let_def try_then_Inr)

lemma citation_score:
  assumes "citation_source_match u retrieved expected = Some x"
  shows "score x"
proof -
  define folded where "folded = (\<lambda>xs. (\<lambda>x. casefold u (cps (strip x))) ` {x \<in> set xs. strip x \<noteq> []})"
  have fin: "finite (folded xs)" for xs by (simp add: folded_def)
  have "x = 0 \<or> x = py_round 1 (f1_of (folded retrieved) (folded expected) * 100)"
    using assms fin by (auto simp: citation_source_match_def f1_of_def Let_def folded_def [symmetric] Int_commute mult.assoc
        card_gt_0_iff add_pos_pos split: if_splits)
  then show ?thesis using f1_bounds [OF fin fin, of retrieved expected] by (auto simp: score_def [of 0] intro: score_round)
qed

lemma average_score:
  assumes "\<And>x. x \<in> set xs \<Longrightarrow> score x"
  shows "score (average xs)"
proof -
  have "0 \<le> sum_list xs" "sum_list xs \<le> of_nat (length xs) * 100"
    using assms by (induction xs) (auto simp: score_def algebra_simps add_mono)
  then show ?thesis by (auto simp: average_def score_def [of 0] pos_divide_le_eq mult.commute intro!: score_round)
qed

lemma ranked_ids_distinct:
  assumes "distinct ids" "inj_on normalise S" "set ids \<subseteq> S"
  shows "distinct (ranked_ids ids k)"
proof -
  have "set (filter nonblank_text (take n ids)) \<subseteq> S" for n using assms(3) by (auto dest: in_set_takeD)
  then show ?thesis using assms(1) inj_on_subset [OF assms(2)] by (simp add: ranked_ids_def distinct_map)
qed

text \<open>What a result of the gate says of its case.\<close>

lemma evaluated_case:
  assumes corpus: "distinct (map cd_chunk (ds_corpus ds))" and enc: "\<And>s. enc (ge_texts ge) (cps s) = s"
    and run: "evaluate_dataset ge ds = Inr results" and r: "r \<in> set results"
  shows "cr_case r \<in> set (ds_cases ds)" "set (cr_tenants r) \<subseteq> set (cr_allowed r)"
    "\<And>x. x \<in> set (cr_leaked r) \<Longrightarrow> \<exists>d \<in> set (ds_corpus ds). x = cd_chunk d \<and> x \<in> set (ec_forbidden (cr_case r)) \<and>
       cd_tenant d \<in> set (allowed_tenants (cr_case r))"
    "\<And>f x. discount (ge_discount ge) \<Longrightarrow> inj_on normalise (cd_chunk ` set (ds_corpus ds)) \<Longrightarrow>
       f \<in> {cm_recall, cm_mrr, cm_ndcg, cm_citation} \<Longrightarrow> f (cr_metrics r) = Some x \<Longrightarrow> score x"
proof -
  obtain c es where c: "c \<in> set (ds_cases ds)"
      "executor_of ge ds (ec_query c) (ec_tenant c) (ec_company c) (ec_documents c) (JInt (ec_top_k c)) (map (\<lambda>(k, v). (k, JStr v)) (ec_filters c)) (ec_public c) = Inr es"
      "judge_case (ge_unicode ge) (ge_discount ge) (ds_thresholds ds) (document_by_chunk (ds_corpus ds)) c es = Inr r"
    using try_map_mem [OF run [unfolded evaluate_dataset_def] r] by (auto simp: evaluate_case_def try_then_Inr)
  note j = judge_case_Inr [OF c(3)]
  note x = executed_case [OF corpus enc c(2), folded j(2)]
  have own: "\<exists>d. document_by_chunk (ds_corpus ds) y = Some d \<and> d \<in> set (ds_corpus ds) \<and> y = cd_chunk d \<and> cd_tenant d \<in> set (allowed_tenants c)"
    if "y \<in> set (cr_retrieved r)" for y
    using x(2) [OF that] document_by_chunk_Some [OF corpus] by blast
  show "cr_case r \<in> set (ds_cases ds)" using c(1) j(1) by simp
  show "set (cr_tenants r) \<subseteq> set (cr_allowed r)"
    unfolding j(3,5) using own by (fastforce simp: map_filter_def)
  show "\<exists>d \<in> set (ds_corpus ds). y = cd_chunk d \<and> y \<in> set (ec_forbidden (cr_case r)) \<and> cd_tenant d \<in> set (allowed_tenants (cr_case r))"
    if "y \<in> set (cr_leaked r)" for y
    using that own [of y] unfolding j(1,4) by (auto simp: leaked_def)
  show "score y" if d: "discount (ge_discount ge)" and inj: "inj_on normalise (cd_chunk ` set (ds_corpus ds))"
    and f: "f \<in> {cm_recall, cm_mrr, cm_ndcg, cm_citation}" "f (cr_metrics r) = Some y" for f y
  proof -
    have "set (cr_retrieved r) \<subseteq> cd_chunk ` set (ds_corpus ds)" using own by blast
    then have "distinct (ranked_ids (cr_retrieved r) k)" for k by (rule ranked_ids_distinct [OF x(1) inj])
    then show ?thesis using f(1) f(2) [unfolded j(6) [OF f(1)]] ranked_scores [OF d] citation_score by (auto split: if_splits)
  qed
qed

lemma gate_report_facts:
  assumes run: "run_retrieval_evaluation ge raw threshold = Inr rep" and enc: "\<forall>s. enc (ge_texts ge) (cps s) = s"
  shows "list_all (\<lambda>r. set (cr_tenants r) \<subseteq> set (cr_allowed r) \<and> set (cr_leaked r) \<subseteq> set (ec_forbidden (cr_case r))) (gr_results rep)"
    and "(\<forall>c \<in> set (ds_cases (gr_dataset rep)). \<forall>d \<in> set (ds_corpus (gr_dataset rep)).
            cd_chunk d \<in> set (ec_forbidden c) \<longrightarrow> cd_tenant d \<notin> set (allowed_tenants c)) \<Longrightarrow> gr_leaks rep = 0"
    and "discount (ge_discount ge) \<Longrightarrow> inj_on normalise (cd_chunk ` set (ds_corpus (gr_dataset rep))) \<Longrightarrow>
       list_all score [gr_recall rep, gr_mrr rep, gr_ndcg rep, gr_citation rep, gr_score rep]"
    and "gr_passed rep \<longleftrightarrow> gt_recall (ds_thresholds (gr_dataset rep)) \<le> gr_recall rep \<and> gt_mrr (ds_thresholds (gr_dataset rep)) \<le> gr_mrr rep \<and>
       gt_ndcg (ds_thresholds (gr_dataset rep)) \<le> gr_ndcg rep \<and> gt_citation (ds_thresholds (gr_dataset rep)) \<le> gr_citation rep \<and>
       int (gr_leaks rep) \<le> gt_leaks (ds_thresholds (gr_dataset rep)) \<and> gr_minimum rep \<le> gr_score rep"
proof -
  obtain m ds results where ds: "load_retrieval_dataset (ge_unicode ge) raw = Inr ds" "evaluate_dataset ge ds = Inr results"
      "rep = gate_verdict ds m results"
    using run by (auto simp: run_retrieval_evaluation_def try_then_Inr)
  have wf: "dataset_ok (ge_unicode ge) ds" using dataset_loaded_ok [OF ds(1)] .
  note ec = evaluated_case [of ds ge, OF _ _ ds(2)]
  have corpus: "distinct (map cd_chunk (ds_corpus ds))" and nonempty: "results \<noteq> []"
    using wf ds(2) by (auto simp: dataset_ok_def evaluate_dataset_def try_map_Inr)
  have gd: "gr_dataset rep = ds" "gr_results rep = results" by (simp_all add: ds(3) gate_verdict_def Let_def)
  show "list_all (\<lambda>r. set (cr_tenants r) \<subseteq> set (cr_allowed r) \<and> set (cr_leaked r) \<subseteq> set (ec_forbidden (cr_case r))) (gr_results rep)"
    using ec(2,3) [OF corpus] enc unfolding gd list_all_iff by blast
  show "gr_leaks rep = 0" if "\<forall>c \<in> set (ds_cases (gr_dataset rep)). \<forall>d \<in> set (ds_corpus (gr_dataset rep)).
            cd_chunk d \<in> set (ec_forbidden c) \<longrightarrow> cd_tenant d \<notin> set (allowed_tenants c)"
  proof -
    have "cr_leaked r = []" if "r \<in> set results" for r
      using ec(1) [OF corpus _ that] ec(3) [OF corpus _ that] enc \<open>\<forall>c \<in> _. _\<close> unfolding gd by (metis list.set_intros(1) neq_Nil_conv)
    then show ?thesis by (simp add: ds(3) gate_verdict_def Let_def)
  qed
  show "list_all score [gr_recall rep, gr_mrr rep, gr_ndcg rep, gr_citation rep, gr_score rep]"
    if d: "discount (ge_discount ge)" "inj_on normalise (cd_chunk ` set (ds_corpus (gr_dataset rep)))"
  proof -
    have avg: "score (metric_average f results)" if f: "f \<in> {cm_recall, cm_mrr, cm_ndcg, cm_citation}" for f
      unfolding metric_average_def
      using ec(4) [OF corpus _ _ d(1) d(2) [unfolded gd] f] enc by (intro average_score) (auto simp: map_filter_def)
    note a = avg [of cm_recall] avg [of cm_mrr] avg [of cm_ndcg] avg [of cm_citation]
    then have "score (gr_score rep)"
      by (auto simp: ds(3) gate_verdict_def Let_def score_def [of "metric_average _ _"] intro!: score_round)
    then show ?thesis using a by (simp add: ds(3) gate_verdict_def Let_def)
  qed
  show "gr_passed rep \<longleftrightarrow> gt_recall (ds_thresholds (gr_dataset rep)) \<le> gr_recall rep \<and> gt_mrr (ds_thresholds (gr_dataset rep)) \<le> gr_mrr rep \<and>
       gt_ndcg (ds_thresholds (gr_dataset rep)) \<le> gr_ndcg rep \<and> gt_citation (ds_thresholds (gr_dataset rep)) \<le> gr_citation rep \<and>
       int (gr_leaks rep) \<le> gt_leaks (ds_thresholds (gr_dataset rep)) \<and> gr_minimum rep \<le> gr_score rep"
    using nonempty by (simp add: ds(3) gate_verdict_def Let_def)
qed

text \<open>C14.
  The verdict of the retrieval gate. When the gate produces a report, over its store that returns the chunks of all tenants:
  every chunk that a case retrieves belongs to a tenant of the case; a chunk counted as a leak is one the dataset itself lists as
  forbidden although it belongs to such a tenant, so a dataset that only forbids chunks of other tenants gets no leak at all;
  if the discount falls with the rank and no two chunk ids of the corpus are the same after \<open>_normalise\<close> (which strips surrounding
  white space, lowers the case and removes slashes at the end), every average and the aggregate score is between 0 and 100; and the
  gate passes exactly when all averages and the aggregate reach their thresholds and the leaks stay within their limit.
\<close>

theorem retrieval_gate_sound:
  assumes "run_retrieval_evaluation ge raw threshold = Inr rep" "\<forall>s. enc (ge_texts ge) (cps s) = s"
  shows "list_all (\<lambda>r. set (cr_tenants r) \<subseteq> set (cr_allowed r) \<and> set (cr_leaked r) \<subseteq> set (ec_forbidden (cr_case r))) (gr_results rep) \<and>
    ((\<forall>c \<in> set (ds_cases (gr_dataset rep)). \<forall>d \<in> set (ds_corpus (gr_dataset rep)).
        cd_chunk d \<in> set (ec_forbidden c) \<longrightarrow> cd_tenant d \<notin> set (allowed_tenants c)) \<longrightarrow> gr_leaks rep = 0) \<and>
    (discount (ge_discount ge) \<and> inj_on normalise (cd_chunk ` set (ds_corpus (gr_dataset rep))) \<longrightarrow>
       list_all score [gr_recall rep, gr_mrr rep, gr_ndcg rep, gr_citation rep, gr_score rep]) \<and>
    (gr_passed rep \<longleftrightarrow> gt_recall (ds_thresholds (gr_dataset rep)) \<le> gr_recall rep \<and> gt_mrr (ds_thresholds (gr_dataset rep)) \<le> gr_mrr rep \<and>
       gt_ndcg (ds_thresholds (gr_dataset rep)) \<le> gr_ndcg rep \<and> gt_citation (ds_thresholds (gr_dataset rep)) \<le> gr_citation rep \<and>
       int (gr_leaks rep) \<le> gt_leaks (ds_thresholds (gr_dataset rep)) \<and> gr_minimum rep \<le> gr_score rep)"
  using gate_report_facts [OF assms] by blast

text \<open>With a degenerate square root all similarities are 0, and the search is a plain sort of the corpus.\<close>

definition flat_hit :: "corpus_document \<Rightarrow> result" where
  "flat_hit d = \<lparr>r_doc = cps (cd_document d), r_chunk = cps (cd_chunk d), r_score = 0, r_content = cps (cd_content d),
     r_meta = AList.update ''similarity_score'' (JFloat (Fin 0))
       (AList.update ''score_semantics'' (JStr ''similarity'') (vd_metadata (eval_document (\<lambda>_. []) d)))\<rparr>"

definition flat_store :: "corpus_document list \<Rightarrow> unit store" where
  "flat_store corpus = \<lparr>similarity_search = (\<lambda>_ k _. take k (sort_key (\<lambda>r. (- r_score r, r_doc r, r_chunk r)) (map flat_hit corpus))),
     lexical_corpus = None\<rparr>"

definition demo_gate :: gate_env where
  "demo_gate = \<lparr>ge_unicode = ascii_db, ge_texts = demo_texts\<lparr>enc := map char_of\<rparr>, ge_hash = sum_list,
     ge_sqrt = (\<lambda>_. 0), ge_discount = (\<lambda>r. 1 / of_nat r), ge_enrich = (\<lambda>q _. q), ge_bm25 = (\<lambda>_ _. []), ge_config = vector_only,
     ge_pow = no_pow, ge_ms = 0\<rparr>"

lemma flat_search:
  assumes "distinct (map cd_chunk (ds_corpus ds))"
  shows "similarity_search (as_store (\<lambda>_. 0) (eval_store_of (gate_model ge ds) (ds_corpus ds))) (gate_model ge ds q) k t =
    similarity_search (flat_store (ds_corpus ds)) () k t"
proof -
  have "eval_hit (\<lambda>_. 0) (gate_model ge ds q) (eval_document (gate_model ge ds) d) = Inr (flat_hit d)" for d
    by (simp add: eval_hit_def cosine_similarity_def gate_model_def seeded_encode_length eval_document_def flat_hit_def py_round_def)
  then have "try_map (eval_hit (\<lambda>_. 0) (gate_model ge ds q)) (map (eval_document (gate_model ge ds)) (ds_corpus ds)) = Inr (map flat_hit (ds_corpus ds))"
    by (rule try_map_map)
  then show ?thesis using assms by (simp add: as_store_def eval_similarity_search_def eval_store_documents flat_store_def)
qed

lemma demo_executor:
  "executor_of demo_gate loaded_demo =
     tenant_execute no_pow 0 (runtime_retrieve ascii_db (demo_texts\<lparr>enc := map char_of\<rparr>) vector_only demo_deps (flat_store (ds_corpus loaded_demo)))"
proof -
  let ?st = "as_store (\<lambda>_. 0) (eval_store_of (gate_model demo_gate loaded_demo) (ds_corpus loaded_demo))"
  have "distinct (map cd_chunk (ds_corpus loaded_demo))" by code_simp
  note flat_search [OF this]
  then have "vector_candidates ascii_db (gate_deps demo_gate loaded_demo) ?st ctx q k =
      vector_candidates ascii_db demo_deps (flat_store (ds_corpus loaded_demo)) ctx q k" for ctx q k
    by (simp add: vector_candidates_def gate_deps_def demo_deps_def)
  moreover have "enrich (gate_deps demo_gate loaded_demo) = enrich demo_deps" by (simp add: gate_deps_def demo_deps_def demo_gate_def)
  ultimately have "retrieve ascii_db vector_only (gate_deps demo_gate loaded_demo) ?st ctx =
      retrieve ascii_db vector_only demo_deps (flat_store (ds_corpus loaded_demo)) ctx" for ctx
    by (simp add: retrieve_def Let_def vector_only_def)
  then have "runtime_retrieve ascii_db tx vector_only (gate_deps demo_gate loaded_demo) ?st =
      runtime_retrieve ascii_db tx vector_only demo_deps (flat_store (ds_corpus loaded_demo))" for tx
    by (simp add: fun_eq_iff runtime_retrieve_def retrieve_evidence_def)
  then show ?thesis by (simp add: executor_of_def) (simp add: demo_gate_def)
qed

definition demo_evaluate :: "evaluation_case \<Rightarrow> exn + case_result" where
  "demo_evaluate = evaluate_case ascii_db (\<lambda>r. 1 / of_nat r) (ds_thresholds loaded_demo)
     (tenant_execute no_pow 0 (runtime_retrieve ascii_db (demo_texts\<lparr>enc := map char_of\<rparr>) vector_only demo_deps (flat_store (ds_corpus loaded_demo))))
     (document_by_chunk (ds_corpus loaded_demo))"

lemma demo_results:
  "(case try_map demo_evaluate (ds_cases loaded_demo) of
      Inr rs \<Rightarrow> map cr_retrieved rs = [[''a1'']] \<and> gr_passed (gate_verdict loaded_demo 100 rs)
    | Inl _ \<Rightarrow> False)"
  by code_simp

lemma demo_gate_runs:
  obtains rs where "run_retrieval_evaluation demo_gate demo_dataset (JInt 100) = Inr (gate_verdict loaded_demo 100 rs)"
    "map cr_retrieved rs = [[''a1'']]" "gr_passed (gate_verdict loaded_demo 100 rs)"
proof -
  obtain rs where rs: "try_map demo_evaluate (ds_cases loaded_demo) = Inr rs" "map cr_retrieved rs = [[''a1'']]"
      "gr_passed (gate_verdict loaded_demo 100 rs)"
    using demo_results by (auto split: sum.splits)
  have "evaluate_dataset demo_gate loaded_demo = Inr rs"
    using rs(1) by (simp add: evaluate_dataset_def demo_executor demo_evaluate_def) (simp add: demo_gate_def)
  moreover have "validate_threshold (JInt 100) = Inr 100" "check_model (ds_seed loaded_demo) DEFAULT_EMBEDDING_DIMENSIONS = Inr ()" by code_simp+
  moreover have "load_retrieval_dataset (ge_unicode demo_gate) demo_dataset = Inr loaded_demo"
    using demo_dataset_loads by (simp add: demo_gate_def)
  ultimately have "run_retrieval_evaluation demo_gate demo_dataset (JInt 100) = Inr (gate_verdict loaded_demo 100 rs)"
    by (simp add: run_retrieval_evaluation_def)
  then show ?thesis using rs(2,3) by (rule that)
qed

lemma retrieval_gate_sound_witness:
  "\<exists>rep. run_retrieval_evaluation demo_gate demo_dataset (JInt 100) = Inr rep \<and> map cr_retrieved (gr_results rep) = [[''a1'']] \<and>
     gr_passed rep \<and> gr_leaks rep = 0 \<and> list_all score [gr_recall rep, gr_mrr rep, gr_ndcg rep, gr_citation rep, gr_score rep]"
proof (rule demo_gate_runs)
  fix rs
  let ?rep = "gate_verdict loaded_demo 100 rs"
  assume rs: "run_retrieval_evaluation demo_gate demo_dataset (JInt 100) = Inr ?rep" "map cr_retrieved rs = [[''a1'']]" "gr_passed ?rep"
  have e: "\<forall>s. enc (ge_texts demo_gate) (cps s) = s" by (simp add: demo_gate_def cps_def comp_def)
  have ds: "gr_dataset ?rep = loaded_demo" "gr_results ?rep = rs" by (simp_all add: gate_verdict_def Let_def)
  have disc: "discount (ge_discount demo_gate)" by (simp add: demo_gate_def discount_def frac_le)
  have "\<forall>c \<in> set (ds_cases loaded_demo). \<forall>d \<in> set (ds_corpus loaded_demo). cd_chunk d \<in> set (ec_forbidden c) \<longrightarrow> cd_tenant d \<notin> set (allowed_tenants c)"
    by code_simp
  moreover have "inj_on normalise (cd_chunk ` set (ds_corpus loaded_demo))" by code_simp
  ultimately show ?thesis
    using retrieval_gate_sound [OF rs(1) e] rs disc unfolding ds by (intro exI [of _ ?rep]) (simp add: ds)
qed

end
