(* ===== verification/Spec2Isabelle.thy ===== *)
theory Spec2Isabelle
  imports Prelude Reliability_Engine Task_Worker Mcp_Server Document_Chunker Hybrid_Retrieval Tool_Server Billing_Quota
    Knowledge_Invariant Agent_Runtime Agent_Tasks Http_Guard Retrieval_Gate
begin

text \<open>
  A verification library for a multi-tenant financial research assistant: a Python service
  that ingests PDF reports, indexes them in a vector store, answers questions about them with
  an agent, meters the tenants, and offers its tools over the Model Context Protocol.

  \<^bold>\<open>The program and the theories.\<close> Paths are relative to \<^verbatim>\<open>src/\<close>.

  \<^item> \<^verbatim>\<open>agent/reliability\<close> wraps a call in a pipeline of mechanisms. \<open>Reliability_Base\<close> has the
    policies, results and the state of the mechanism objects; \<open>Circuit_Breaker\<close>,
    \<open>Rate_Limiter\<close>, \<open>Retry_Timeout\<close> and \<open>Health_Fallback\<close> one \<open>apply\<close> each;
    \<open>Reliability_Engine\<close> the registry, the hooks and the pipeline.
  \<^item> \<^verbatim>\<open>tasks/\<close> is the job queue. \<open>Task_Repository\<close> is the task table and its operations,
    \<open>Task_Worker\<close> claims, runs, retries and recovers tasks.
  \<^item> \<^verbatim>\<open>document_loader.py\<close> turns a PDF into chunks. \<open>Document_Parser\<close> cleans and parses
    pages, \<open>Document_Chunker\<close> splits, packs, merges and numbers.
  \<^item> \<^verbatim>\<open>retrieval/\<close> finds chunks for a query. \<open>Hybrid_Retrieval\<close> has tenant scopes, filters,
    lexical ranking and reciprocal-rank fusion.
  \<^item> \<^verbatim>\<open>storage/chroma_store.py\<close> wraps the vector database: \<open>Vector_Store\<close>. The life of a document,
    from \<^verbatim>\<open>api/routers/upload.py\<close> over \<^verbatim>\<open>tasks/knowledge_tasks.py\<close> to
    \<^verbatim>\<open>api/routers/knowledge.py\<close>, is \<open>Knowledge_Base\<close>; its invariant is \<open>Knowledge_Invariant\<close>.
  \<^item> \<^verbatim>\<open>agent/planning\<close> and \<^verbatim>\<open>agent/query_planner.py\<close> turn a question into a plan. \<open>Planning\<close>
    classifies and scores, \<open>Metric_Parser\<close> recognises calculations, \<open>Query_Planner\<close> builds
    the steps.
  \<^item> \<^verbatim>\<open>agent/execution_engine.py\<close> and \<^verbatim>\<open>agent/execution/\<close> run a plan: \<open>Plan_Execution\<close>.
    \<open>Agent_Strategy\<close> selects the strategy and builds the workflow, \<open>Quiet_Handlers\<close> has what all
    handlers share, and \<open>Agent_Runtime\<close> the handlers, the dispatcher, \<^verbatim>\<open>agent/agent_runtime.py\<close> and
    \<open>run_rag\<close> of \<^verbatim>\<open>core/core_engine.py\<close>.
  \<^item> \<^verbatim>\<open>llm/\<close> calls the language models: \<open>Llm_Providers\<close> has the five adapters, their retry loops
    and the registry, \<open>Model_Router\<close> the choice of a provider, \<open>Llm_Settings\<close> the stored settings
    of the users (\<^verbatim>\<open>services/llm_settings_service.py\<close>). \<open>Answer_Report\<close> has context, citations,
    report and prompts.
  \<^item> \<^verbatim>\<open>services/agent_runtime/\<close> is the service around the agent. \<open>Session_Cache\<close> is the answer cache
    (\<^verbatim>\<open>cache/session.py\<close>), \<open>Checkpointing\<close> the choice of the LangGraph saver, \<open>Agent_Sessions\<close> the stored
    conversations (\<^verbatim>\<open>storage/agent/\<close>) with their routes, \<open>Agent_Service\<close> the graph of
    \<^verbatim>\<open>graph.py\<close> and \<open>run_agent\<close> of \<^verbatim>\<open>runtime.py\<close>, which composes all of these with \<open>Agent_Runtime\<close>.
  \<^item> \<^verbatim>\<open>api/\<close> is the HTTP interface. \<open>Agent_Tasks\<close> has the chat and task routes and the task handler of
    \<^verbatim>\<open>tasks/agent_tasks.py\<close>, \<open>Access_Control\<close> accounts, tokens and the dependencies that authenticate a
    request (\<^verbatim>\<open>auth/\<close>), \<open>Http_Guard\<close> the middleware of \<^verbatim>\<open>middleware/security.py\<close>.
  \<^item> \<^verbatim>\<open>evaluation/\<close> measures retrieval offline: \<open>Evaluation_Metrics\<close> has the scores,
    \<open>Retrieval_Dataset\<close> the dataset contract, \<open>Retrieval_Gate\<close> the gate over the production retriever.
  \<^item> \<^verbatim>\<open>mcp/\<close> is the JSON-RPC server. \<open>Json\<close> has JSON values with Python's equality,
    \<open>Mcp_Schema\<close> the argument validator, \<open>Mcp_Server\<close> governance, adapter and life cycle.
  \<^item> \<^verbatim>\<open>agent/tools\<close> are the tools behind it. \<open>Retrieval_Contract\<close> validates requests and
    evidence, \<open>Financial_Metrics\<close> computes, \<open>Tool_Engine\<close> authorizes and dispatches,
    \<open>Tool_Server\<close> composes them with the server of \<^verbatim>\<open>mcp/app.py\<close> and with the hybrid
    retriever through \<^verbatim>\<open>core/retrieval_tool_adapter.py\<close>.
  \<^item> \<^verbatim>\<open>services/plan_service.py\<close>, \<^verbatim>\<open>services/usage_service.py\<close> and \<^verbatim>\<open>billing/\<close> meter the
    tenants: \<open>Billing_Quota\<close>.

  \<^bold>\<open>How code becomes HOL.\<close> A class is a record or a field of a state record; a method is a
  function from state to result and state; a raised exception is \<open>Inl (Exn cls msg)\<close>; a
  dictionary is an association list with unique keys; a callable is a function on an abstract
  world, so effects are counted by comparing worlds; the clock is part of the state or an
  argument; integers are unbounded as in Python; float arithmetic whose rounding does not
  matter for a claim is exact rational arithmetic, and \<open>py_round\<close> is Python's rounding to
  decimal places. Loops that are not structural have termination proofs; no function has fuel.

  \<^bold>\<open>What the lemmas show.\<close>
  \<^item> Reliability: how often a pipeline may run the callable, the exact behaviour of retry and
    time-out, safety of the limiter for every window, the invariant of the breaker.
  \<^item> Tasks: no task is handed out twice, a failing task runs \<open>MAX_RETRY + 1\<close> times, recovery
    takes exactly the stale tasks and never one that may still run.
  \<^item> Documents: splitting loses nothing, chunks are bounded, distinct, numbered and carry the
    page they come from.
  \<^item> Retrieval: results stay in the scopes of the request, fusion is the ranking by summed
    reciprocal ranks.
  \<^item> Knowledge base: whatever a search returns belongs to a live document of the tenant or to
    the public ones; indexing replaces exactly the chunks of its document; a deletion happens
    completely or not at all.
  \<^item> Planning and execution: plans are numbered, acyclic and name no tool but the governed one;
    a parsed calculation reads its operands from the question; every run of a plan settles
    every step once.
  \<^item> MCP and tools: the validator accepts exactly the described arguments, a tool runs only
    when it is cleared, and every result a client can obtain belongs to the operator's
    tenant or to the public one.
  \<^item> Agent: strategies are selected as documented by a table, a run completes unless no provider is
    usable, its evidence stays with the tenant, concurrent and sequential execution agree, a
    question costs at most three model calls and only with evidence; stored settings stay
    consistent and are used by their owner only.
  \<^item> Service: conversations refine a map from principals and threads to transcripts, cached answers
    and deletions stay with their principal, a failing run is answered without its error, and over
    any sequence of requests every answer and every citation belongs to the principal that asked.
  \<^item> HTTP: the outcome of queued questions, round trip and expiry of credentials, no silent
    downgrade to an anonymous caller, bounds of the rate limit.
  \<^item> Evaluation: scores are percentages, loaded datasets are well formed, and the verdict of the
    gate, whose isolation check follows from the retriever even over a store that ignores tenants.
  \<^item> Metering: the daily limit holds over every sequence of chats and fails closed; costs and
    summaries are accurate.

  \<^bold>\<open>Interfaces.\<close> Contracts that several operations share are locales, interpreted on the
  definitions of the model: \<open>call_amplifier\<close> (how often a mechanism repeats a call), \<open>keyed_dedup\<close>,
  \<open>keyed_table\<close> (the task table), \<open>document_store\<close> (the vector store), \<open>stateless_handlers\<close> (the steps
  of a plan), \<open>vendor_verdict\<close> (which errors an adapter retries) and \<open>paged_listing\<close>.

  \<^bold>\<open>Parameters.\<close> Code outside the repository is an argument of the definitions that use it:
  the PDF library, OCR and the Unicode database, the Chroma client and the embedding model, the
  \<open>rank_bm25\<close> scores, the order in which a thread pool runs a batch, \<open>math.pow\<close>, \<open>math.sqrt\<close> and the
  discount \<open>1 / log2 (r + 1)\<close>, JSON text and the \<open>str\<close> of a JSON value, the wording of the prompts, the
  vendor SDKs, the Fernet cipher and its key file, Redis, the LangGraph savers and its runner,
  sha256, \<open>jose\<close> and \<open>bcrypt\<close>, \<open>ipaddress\<close>, the validation of e-mail addresses, and the query
  enrichment. The theorems hold for all of them or name what they need: that Redis returns only
  what was stored and forgets what was deleted, that a graph applies its nodes in order, that a
  token decodes to its claims until it expires, that a hexadecimal digest has 64 characters, that
  encoding a text inverts decoding it.

  \<^bold>\<open>Bounds.\<close> There is no fuel. Constants such as \<open>MAX_RETRY\<close>, the three attempts of an adapter, the
  history of eight messages or the cache lifetime are those of the source.

  \<^bold>\<open>Not modelled.\<close> Threads and processes (the worker's health loop, heartbeats), FastAPI's request
  parsing, the scheduling inside LangGraph, the query enrichment with its regular expressions,
  monitoring, tracing, logging and audit, the benchmark and training harnesses, migrations, operation
  scripts and user interfaces: they are third-party code, input and output, or observation without
  influence on a result. The manifest lists each with its reason.
\<close>

end
